(* ===== verification/Prelude.thy ===== *)
theory Prelude
  imports Main "HOL-Library.Multiset" "HOL-Library.Char_ord" "HOL-Library.List_Lexorder"
begin

text \<open>
  The shared vocabulary of the development.
  \<^item> Go's \<open>error\<close> results as values: \<open>error\<close>, \<open>result\<close>, \<open>rbind\<close>, and the two loop shapes the
    sources use, a loop that returns at the first error (\<open>check_all\<close>) and one that also threads a
    state (\<open>fold_result\<close>), each with the rule the component proofs apply.
  \<^item> \<open>sort.Slice\<close>: the library promises a sorted permutation and nothing about ties. The locale
    \<open>slice_sort\<close> states that contract, \<open>sort_key\<close> discharges it, and its lemmas say which facts
    cannot depend on how ties are broken.
  \<^item> A transition system with an inductive invariant (\<open>step_system\<close>), interpreted by the components
    whose correctness is a safety property of every reachable state.
\<close>

named_theorems result_simps \<open>how the result combinators compute\<close>
named_theorems state_simps \<open>unfolding of the records' derived updates\<close>

section \<open>Errors as values\<close>

text \<open>
  \<open>Error\<close> carries the text of \<open>errors.New\<close> or \<open>fmt.Errorf\<close>, \<open>Status\<close> the code and message of a
  gRPC status, \<open>Sql_no_rows\<close> is \<open>sql.ErrNoRows\<close> and \<open>Sql_constraint\<close> a statement that the schema
  refuses (primary key, unique or check constraint).
\<close>

datatype error =
    Error string
  | Status string string
  | Sql_no_rows
  | Sql_constraint

type_synonym 'a result = "error + 'a"

definition rbind :: "'a result \<Rightarrow> ('a \<Rightarrow> 'b result) \<Rightarrow> 'b result" where
  "rbind m f = (case m of Inl e \<Rightarrow> Inl e | Inr x \<Rightarrow> f x)"

lemma rbind_simps [simp, result_simps]:
  "rbind (Inl e) f = Inl e"
  "rbind (Inr x) f = f x"
  by (simp_all add: rbind_def)

lemma rbind_eq_Inr_iff [result_simps]:
  "rbind m f = Inr y \<longleftrightarrow> (\<exists>x. m = Inr x \<and> f x = Inr y)"
  by (cases m) auto

lemma rbind_eq_Inl_iff:
  "rbind m f = Inl e \<longleftrightarrow> m = Inl e \<or> (\<exists>x. m = Inr x \<and> f x = Inl e)"
  by (cases m) auto

lemma rbind_cong [fundef_cong]:
  "m = m' \<Longrightarrow> (\<And>x. m' = Inr x \<Longrightarrow> f x = g x) \<Longrightarrow> rbind m f = rbind m' g"
  by (cases m') auto

text \<open>\<open>if c { return e }\<close>\<close>

definition fail_if :: "bool \<Rightarrow> error \<Rightarrow> unit result" where
  "fail_if c e = (if c then Inl e else Inr ())"

lemma fail_if_simps [simp, result_simps]:
  "fail_if True e = Inl e" "fail_if False e = Inr ()"
  by (simp_all add: fail_if_def)

lemma fail_if_eq_iff [result_simps]:
  "fail_if c e = Inr u \<longleftrightarrow> \<not> c" "fail_if c e = Inl e' \<longleftrightarrow> c \<and> e' = e"
  by (auto simp: fail_if_def)

text \<open>\<open>switch { case c1: x1 ... default: d }\<close>: the first case whose condition holds.\<close>

fun go_switch :: "(bool \<times> 'a) list \<Rightarrow> 'a \<Rightarrow> 'a" where
  "go_switch [] d = d"
| "go_switch ((c, x) # cs) d = (if c then x else go_switch cs d)"

lemma go_switch_in: "go_switch cs d \<in> insert d (snd ` set cs)"
  by (induction cs d rule: go_switch.induct) auto

text \<open>A value that only the default produces means that no case applied.\<close>

lemma go_switch_default_iff:
  assumes "list_all (\<lambda>(c, x). \<not> P x) cs" "P y"
  shows "go_switch cs d = y \<longleftrightarrow> list_all (\<lambda>(c, x). \<not> c) cs \<and> d = y"
  using assms by (induction cs d rule: go_switch.induct) auto

text \<open>A loop whose body returns at the first error.\<close>

fun check_all :: "('a \<Rightarrow> unit result) \<Rightarrow> 'a list \<Rightarrow> unit result" where
  "check_all f [] = Inr ()"
| "check_all f (x # xs) = rbind (f x) (\<lambda>_. check_all f xs)"

lemma check_all_eq_Inr_iff [result_simps]:
  "check_all f xs = Inr () \<longleftrightarrow> (\<forall>x\<in>set xs. f x = Inr ())"
  by (induction xs) (auto simp: rbind_eq_Inr_iff)

lemma check_all_cases:
  "check_all f xs = Inr () \<or> (\<exists>x\<in>set xs. \<exists>e. f x = Inl e \<and> check_all f xs = Inl e)"
proof (induction xs)
  case (Cons x xs)
  then show ?case by (cases "f x") auto
qed simp

lemma check_all_cong [fundef_cong]:
  "xs = ys \<Longrightarrow> (\<And>x. x \<in> set ys \<Longrightarrow> f x = g x) \<Longrightarrow> check_all f xs = check_all g ys"
proof (induction ys arbitrary: xs)
  case (Cons y ys)
  then show ?case by (auto intro!: rbind_cong)
qed simp

text \<open>A loop whose body updates the variables \<open>s\<close> or returns an error.\<close>

fun fold_result :: "('s \<Rightarrow> 'a \<Rightarrow> 's result) \<Rightarrow> 's \<Rightarrow> 'a list \<Rightarrow> 's result" where
  "fold_result f s [] = Inr s"
| "fold_result f s (x # xs) = rbind (f s x) (\<lambda>s'. fold_result f s' xs)"

lemma fold_result_append [simp]:
  "fold_result f s (xs @ ys) = rbind (fold_result f s xs) (\<lambda>s'. fold_result f s' ys)"
proof (induction xs arbitrary: s)
  case (Cons x xs)
  then show ?case by (cases "f s x") auto
qed simp

text \<open>An invariant of the loop over the elements already handled.\<close>

lemma fold_result_invariant:
  assumes run: "fold_result f s xs = Inr s'"
    and init: "P [] s"
    and step: "\<And>done x t t'. P done t \<Longrightarrow> x \<in> set xs \<Longrightarrow> f t x = Inr t' \<Longrightarrow> P (done @ [x]) t'"
  shows "P xs s'"
proof -
  have "P (pre @ ys) s'"
    if "fold_result f t ys = Inr s'" "P pre t" "set ys \<subseteq> set xs" for pre ys t
    using that
  proof (induction ys arbitrary: pre t)
    case (Cons y ys)
    then obtain t' where t': "f t y = Inr t'" "fold_result f t' ys = Inr s'"
      by (auto simp: rbind_eq_Inr_iff)
    with Cons.prems step have "P (pre @ [y]) t'" by simp
    with Cons t' have "P ((pre @ [y]) @ ys) s'" by (intro Cons.IH) auto
    then show ?case by simp
  qed simp
  from this [of s xs "[]"] run init show ?thesis by simp
qed

lemma fold_result_cong [fundef_cong]:
  "s = t \<Longrightarrow> xs = ys \<Longrightarrow> (\<And>x u. x \<in> set ys \<Longrightarrow> f u x = g u x) \<Longrightarrow>
   fold_result f s xs = fold_result g t ys"
proof (induction ys arbitrary: s t xs)
  case (Cons y ys)
  then show ?case by (auto intro!: rbind_cong)
qed simp

lemma if_error_iff: "(if c then Inl e else m) = Inr r \<longleftrightarrow> \<not> c \<and> m = Inr r"
  by simp

text \<open>A loop that only refuses bad elements and repeated keys does not depend on the order.\<close>

lemma fold_seen:
  assumes "\<And>seen x r. f seen x = Inr r \<longleftrightarrow> P x \<and> key x \<notin> set seen \<and> r = key x # seen"
  shows "fold_result f seen xs = Inr r \<longleftrightarrow>
    (\<forall>x\<in>set xs. P x) \<and> distinct (map key xs) \<and> key ` set xs \<inter> set seen = {} \<and> r = rev (map key xs) @ seen"
proof (induction xs arbitrary: seen)
  case (Cons x xs)
  have "fold_result f seen (x # xs) = Inr r \<longleftrightarrow> P x \<and> key x \<notin> set seen \<and> fold_result f (key x # seen) xs = Inr r"
    by (auto simp: rbind_eq_Inr_iff assms)
  then show ?case unfolding Cons by auto
qed auto

lemma fold_seen_ok:
  assumes "\<And>seen x r. f seen x = Inr r \<longleftrightarrow> P x \<and> key x \<notin> set seen \<and> r = key x # seen"
  shows "(\<exists>r. fold_result f [] xs = Inr r) \<longleftrightarrow> (\<forall>x\<in>set xs. P x) \<and> distinct (map key xs)"
  by (simp add: fold_seen [where P = P and key = key, OF assms])

section \<open>Lists\<close>

text \<open>\<open>for _, x := range xs { if seen[x] { fail }; seen[x] = true }\<close> accepts exactly distinct lists.\<close>

fun no_repeat :: "'a list \<Rightarrow> 'a list \<Rightarrow> bool" where
  "no_repeat seen [] = True"
| "no_repeat seen (x # xs) = (x \<notin> set seen \<and> no_repeat (x # seen) xs)"

lemma no_repeat_iff: "no_repeat seen xs \<longleftrightarrow> distinct xs \<and> set xs \<inter> set seen = {}"
  by (induction xs arbitrary: seen) auto

lemma no_repeat_distinct [simp]: "no_repeat [] xs \<longleftrightarrow> distinct xs"
  by (simp add: no_repeat_iff)

text \<open>The first element with a property, as a search loop with \<open>break\<close> finds it.\<close>

lemma find_Some_iff_in:
  "List.find P xs = Some x \<Longrightarrow> x \<in> set xs \<and> P x"
  by (auto simp: find_Some_iff)

text \<open>A map filled from a list of declarations with distinct keys: lookups do not depend on the order.\<close>

lemma distinct_map_perm: "mset xs = mset ys \<Longrightarrow> distinct (map f xs) \<longleftrightarrow> distinct (map f ys)"
  by (metis mset_eq_imp_distinct_iff mset_map)

lemma find_rev_distinct:
  assumes "distinct (map key xs)"
  shows "List.find (\<lambda>x. key x = i) (rev xs) = Some x \<longleftrightarrow> x \<in> set xs \<and> key x = i"
proof
  assume r: "x \<in> set xs \<and> key x = i"
  then have "List.find (\<lambda>x. key x = i) (rev xs) \<noteq> None" by (auto simp: find_None_iff)
  then obtain y where y: "List.find (\<lambda>x. key x = i) (rev xs) = Some y" by auto
  then have "y \<in> set xs" "key y = i" by (auto dest: find_Some_iff_in)
  with r assms have "y = x" by (auto simp: distinct_map dest: inj_onD)
  with y show "List.find (\<lambda>x. key x = i) (rev xs) = Some x" by simp
qed (auto dest: find_Some_iff_in)

lemma find_rev_perm:
  assumes "distinct (map key xs)" "mset xs = mset ys"
  shows "List.find (\<lambda>x. key x = i) (rev xs) = List.find (\<lambda>x. key x = i) (rev ys)"
proof -
  have d: "distinct (map key ys)" using assms distinct_map_perm by blast
  have "List.find (\<lambda>x. key x = i) (rev xs) = Some x \<longleftrightarrow> List.find (\<lambda>x. key x = i) (rev ys) = Some x" for x
    using mset_eq_setD [OF assms(2)] by (simp add: find_rev_distinct [OF assms(1)] find_rev_distinct [OF d])
  then show ?thesis by (metis not_None_eq)
qed

section \<open>The contract of \<open>sort.Slice\<close>\<close>

text \<open>
  \<open>sort.Slice\<close> leaves a permutation sorted by the comparison and may exchange equal elements in any
  way. \<open>key\<close> is what the comparison reads.
\<close>

locale slice_sort =
  fixes srt :: "'a list \<Rightarrow> 'a list"
    and key :: "'a \<Rightarrow> 'k::linorder"
  assumes srt_perm: "mset (srt xs) = mset xs"
    and srt_sorted: "sorted (map key (srt xs))"
begin

lemma set_srt [simp]: "set (srt xs) = set xs"
  using srt_perm mset_eq_setD by blast

lemma length_srt [simp]: "length (srt xs) = length xs"
  using srt_perm mset_eq_length by blast

lemma distinct_srt [simp]: "distinct (srt xs) \<longleftrightarrow> distinct xs"
  using srt_perm mset_eq_imp_distinct_iff by blast

text \<open>The keys after sorting do not depend on the sorting algorithm.\<close>

lemma map_key_srt: "map key (srt xs) = sort (map key xs)"
proof (rule properties_for_sort [symmetric])
  have "mset (map key (srt xs)) = image_mset key (mset (srt xs))"
    by (rule mset_map)
  also have "\<dots> = image_mset key (mset xs)"
    by (simp only: srt_perm)
  also have "\<dots> = mset (map key xs)"
    by simp
  finally show "mset (map key (srt xs)) = mset (map key xs)" .
  show "sorted (map key (srt xs))" by (rule srt_sorted)
qed

text \<open>Nor does anything that is a function of the key, nor their dependence on the input order.\<close>

lemma map_of_key_srt: "map (\<lambda>x. f (key x)) (srt xs) = map f (sort (map key xs))"
proof -
  have "map (\<lambda>x. f (key x)) (srt xs) = map f (map key (srt xs))" by simp
  then show ?thesis by (simp only: map_key_srt)
qed

lemma map_of_key_srt_perm:
  assumes "mset (map key xs) = mset (map key ys)"
  shows "map (\<lambda>x. f (key x)) (srt xs) = map (\<lambda>x. f (key x)) (srt ys)"
proof -
  have "sort (map key xs) = sort (map key ys)"
    using assms by (metis mset_sort properties_for_sort sorted_sort)
  then show ?thesis by (simp only: map_of_key_srt)
qed

text \<open>With distinct keys the result is one list, whatever the algorithm.\<close>

lemma srt_unique:
  assumes "distinct (map key xs)" "mset ys = mset xs" "sorted (map key ys)"
  shows "srt xs = ys"
proof -
  have inj: "inj_on key (set xs)"
    using assms(1) by (simp add: distinct_map)
  have "mset (map key ys) = mset (map key xs)"
    using assms(2) by simp
  then have "sort (map key xs) = map key ys"
    using assms(3) by (simp add: properties_for_sort)
  then have "map key (srt xs) = map key ys"
    by (simp add: map_key_srt)
  moreover have "inj_on key (set (srt xs) \<union> set ys)"
    using inj mset_eq_setD [OF assms(2)] by simp
  ultimately show ?thesis
    by (simp add: inj_on_map_eq_map)
qed

end

text \<open>The sorting the model computes with: stable, so it is one of the allowed outcomes.\<close>

interpretation sort_by: slice_sort "sort_key key" key for key :: "'a \<Rightarrow> 'k::linorder"
  by unfold_locales simp_all

lemma sort_key_perm_distinct:
  assumes "distinct (map key xs)" "mset xs = mset ys"
  shows "sort_key key xs = sort_key key ys"
proof (rule sort_by.srt_unique [OF assms(1)])
  show "mset (sort_key key ys) = mset xs" using assms(2) by simp
  show "sorted (map key (sort_key key ys))" by simp
qed

section \<open>Transition systems\<close>

text \<open>States reachable from an initial one by a step relation.\<close>

inductive reachable :: "('s \<Rightarrow> bool) \<Rightarrow> ('s \<Rightarrow> 's \<Rightarrow> bool) \<Rightarrow> 's \<Rightarrow> bool"
  for init :: "'s \<Rightarrow> bool" and step :: "'s \<Rightarrow> 's \<Rightarrow> bool"
  where
    reachable_init: "init s \<Longrightarrow> reachable init step s"
  | reachable_step: "reachable init step s \<Longrightarrow> step s t \<Longrightarrow> reachable init step t"

locale step_system =
  fixes init :: "'s \<Rightarrow> bool"
    and step :: "'s \<Rightarrow> 's \<Rightarrow> bool"
    and inv :: "'s \<Rightarrow> bool"
  assumes inv_init: "init s \<Longrightarrow> inv s"
    and inv_step: "inv s \<Longrightarrow> step s t \<Longrightarrow> inv t"
begin

lemma reachable_inv: "reachable init step s \<Longrightarrow> inv s"
  by (induction rule: reachable.induct) (auto intro: inv_init inv_step)

lemma run_inv: "step\<^sup>*\<^sup>* s t \<Longrightarrow> inv s \<Longrightarrow> inv t"
  by (induction rule: rtranclp_induct) (auto intro: inv_step)

end

end
