(* ===== verification/Go_Text.thy ===== *)
theory Go_Text
  imports Prelude "HOL-Library.Sublist"
begin

text \<open>
  What the sources use of Go's \<open>strings\<close>, \<open>unicode/utf8\<close> and \<open>path\<close> packages. A Go string is its
  byte sequence, so a \<open>string\<close> of the model is a list of bytes, \<open>length\<close> is Go's \<open>len\<close>, and the
  order of \<open>List_Lexorder\<close> over \<open>Char_ord\<close> is Go's \<open><\<close> on strings.
\<close>

section \<open>Bytes\<close>

definition byte :: "char \<Rightarrow> nat" where
  "byte c = of_char c"

definition bytes :: "nat list \<Rightarrow> string" where
  "bytes ns = map char_of ns"

lemma byte_less_256 [simp]: "byte c < 256"
  by (simp add: byte_def)

section \<open>\<open>strings.TrimSpace\<close>\<close>

text \<open>The UTF-8 encodings of the runes for which \<open>unicode.IsSpace\<close> holds.\<close>

definition space_runes :: "string list" where
  "space_runes = map bytes
     [[9], [10], [11], [12], [13], [32], [194, 133], [194, 160], [225, 154, 128],
      [226, 128, 128], [226, 128, 129], [226, 128, 130], [226, 128, 131], [226, 128, 132],
      [226, 128, 133], [226, 128, 134], [226, 128, 135], [226, 128, 136], [226, 128, 137],
      [226, 128, 138], [226, 128, 168], [226, 128, 169], [226, 128, 175], [226, 129, 159],
      [227, 128, 128]]"

lemma space_runes_code [code]:
  "space_runes =
     [
      [CHR 0x09], [CHR 0x0A], [CHR 0x0B], [CHR 0x0C], [CHR 0x0D], [CHR 0x20], [CHR 0xC2, CHR 0x85],
      [CHR 0xC2, CHR 0xA0], [CHR 0xE1, CHR 0x9A, CHR 0x80], [CHR 0xE2, CHR 0x80, CHR 0x80],
      [CHR 0xE2, CHR 0x80, CHR 0x81], [CHR 0xE2, CHR 0x80, CHR 0x82], [CHR 0xE2, CHR 0x80, CHR 0x83],
      [CHR 0xE2, CHR 0x80, CHR 0x84], [CHR 0xE2, CHR 0x80, CHR 0x85], [CHR 0xE2, CHR 0x80, CHR 0x86],
      [CHR 0xE2, CHR 0x80, CHR 0x87], [CHR 0xE2, CHR 0x80, CHR 0x88], [CHR 0xE2, CHR 0x80, CHR 0x89],
      [CHR 0xE2, CHR 0x80, CHR 0x8A], [CHR 0xE2, CHR 0x80, CHR 0xA8], [CHR 0xE2, CHR 0x80, CHR 0xA9],
      [CHR 0xE2, CHR 0x80, CHR 0xAF], [CHR 0xE2, CHR 0x81, CHR 0x9F], [CHR 0xE3, CHR 0x80, CHR 0x80]]"
  by (simp add: space_runes_def bytes_def char_of_def bit_0)

lemma space_runes_nonempty: "r \<in> set space_runes \<Longrightarrow> r \<noteq> []"
  by (auto simp: space_runes_def bytes_def)

lemma Nil_notin_space_runes [simp]: "[] \<notin> set space_runes"
  using space_runes_nonempty by blast

definition leading_space :: "string \<Rightarrow> string option" where
  "leading_space s = List.find (\<lambda>r. prefix r s) space_runes"

lemma leading_space_SomeD:
  "leading_space s = Some r \<Longrightarrow> r \<in> set space_runes \<and> prefix r s"
  unfolding leading_space_def by (drule find_Some_iff_in) simp

function trim_left :: "string \<Rightarrow> string" where
  "trim_left s = (case leading_space s of None \<Rightarrow> s | Some r \<Rightarrow> trim_left (drop (length r) s))"
  by pat_completeness auto
termination
proof (relation "measure length", goal_cases)
  case (2 s r)
  then have "r \<in> set space_runes" "prefix r s" by (auto dest: leading_space_SomeD)
  then have "0 < length r" "length r \<le> length s"
    by (auto dest: prefix_length_le)
  then show ?case by (simp del: length_greater_0_conv)
qed simp

declare trim_left.simps [simp del]

definition trailing_space :: "string \<Rightarrow> string option" where
  "trailing_space s = List.find (\<lambda>r. suffix r s) space_runes"

lemma trailing_space_SomeD:
  "trailing_space s = Some r \<Longrightarrow> r \<in> set space_runes \<and> suffix r s"
  unfolding trailing_space_def by (drule find_Some_iff_in) simp

function trim_right :: "string \<Rightarrow> string" where
  "trim_right s =
     (case trailing_space s of None \<Rightarrow> s | Some r \<Rightarrow> trim_right (take (length s - length r) s))"
  by pat_completeness auto
termination
proof (relation "measure length", goal_cases)
  case (2 s r)
  then have "r \<in> set space_runes" "suffix r s" by (auto dest: trailing_space_SomeD)
  then have "0 < length r" "length r \<le> length s"
    by (auto dest: suffix_length_le)
  then show ?case by (simp del: length_greater_0_conv)
qed simp

declare trim_right.simps [simp del]

definition trim_space :: "string \<Rightarrow> string" where
  "trim_space s = trim_right (trim_left s)"

text \<open>\<open>strings.TrimSpace(s) == ""\<close>\<close>

definition blank :: "string \<Rightarrow> bool" where
  "blank s \<longleftrightarrow> trim_space s = []"

lemma trim_left_suffix: "suffix (trim_left s) s"
proof (induction s rule: trim_left.induct)
  case (1 s)
  show ?case
  proof (cases "leading_space s")
    case None
    then show ?thesis by (simp add: trim_left.simps [of s])
  next
    case (Some r)
    from 1 [OF Some] have "suffix (trim_left (drop (length r) s)) s"
      by (rule suffix_order.trans) (rule suffix_drop)
    with Some show ?thesis by (simp add: trim_left.simps [of s])
  qed
qed

lemma trim_right_prefix: "prefix (trim_right s) s"
proof (induction s rule: trim_right.induct)
  case (1 s)
  show ?case
  proof (cases "trailing_space s")
    case None
    then show ?thesis by (simp add: trim_right.simps [of s])
  next
    case (Some r)
    from 1 [OF Some] have "prefix (trim_right (take (length s - length r) s)) s"
      by (rule prefix_order.trans) (rule take_is_prefix)
    with Some show ?thesis by (simp add: trim_right.simps [of s])
  qed
qed

lemma trailing_space_trim_right: "trailing_space (trim_right s) = None"
proof (induction s rule: trim_right.induct)
  case (1 s)
  then show ?case by (cases "trailing_space s") (simp_all add: trim_right.simps [of s])
qed

lemma leading_space_trim_left: "leading_space (trim_left s) = None"
proof (induction s rule: trim_left.induct)
  case (1 s)
  then show ?case by (cases "leading_space s") (simp_all add: trim_left.simps [of s])
qed

lemma leading_space_prefix:
  "leading_space s = None \<Longrightarrow> prefix t s \<Longrightarrow> leading_space t = None"
  by (auto simp: leading_space_def find_None_iff intro: prefix_order.trans)

lemma trim_space_idem [simp]: "trim_space (trim_space s) = trim_space s"
proof -
  let ?t = "trim_right (trim_left s)"
  have "leading_space ?t = None"
    using leading_space_trim_left trim_right_prefix by (rule leading_space_prefix)
  then have "trim_left ?t = ?t" by (simp add: trim_left.simps [of ?t])
  moreover have "trim_right ?t = ?t"
    by (simp add: trim_right.simps [of ?t] trailing_space_trim_right)
  ultimately show ?thesis by (simp add: trim_space_def)
qed

lemma length_trim_space: "length (trim_space s) \<le> length s"
  using prefix_length_le [OF trim_right_prefix [of "trim_left s"]]
    suffix_length_le [OF trim_left_suffix [of s]]
  by (simp add: trim_space_def)

lemma trim_space_Nil [simp]: "trim_space [] = []"
  using length_trim_space [of "[]"] by simp

section \<open>\<open>utf8.ValidString\<close>\<close>

definition in_bytes :: "nat \<Rightarrow> nat \<Rightarrow> char \<Rightarrow> bool" where
  "in_bytes lo hi c \<longleftrightarrow> lo \<le> byte c \<and> byte c \<le> hi"

abbreviation cont_byte :: "char \<Rightarrow> bool" where
  "cont_byte \<equiv> in_bytes 128 191"

text \<open>The bytes after a lead byte, as the table of accepted ranges of \<open>unicode/utf8\<close> gives them.\<close>

definition utf8_tail :: "char \<Rightarrow> (char \<Rightarrow> bool) list option" where
  "utf8_tail c =
     (if byte c < 128 then Some []
      else if in_bytes 194 223 c then Some [cont_byte]
      else if byte c = 224 then Some [in_bytes 160 191, cont_byte]
      else if byte c = 237 then Some [in_bytes 128 159, cont_byte]
      else if in_bytes 225 239 c then Some [cont_byte, cont_byte]
      else if byte c = 240 then Some [in_bytes 144 191, cont_byte, cont_byte]
      else if in_bytes 241 243 c then Some [cont_byte, cont_byte, cont_byte]
      else if byte c = 244 then Some [in_bytes 128 143, cont_byte, cont_byte]
      else None)"

fun match_tail :: "(char \<Rightarrow> bool) list \<Rightarrow> string \<Rightarrow> string option" where
  "match_tail [] s = Some s"
| "match_tail (p # ps) [] = None"
| "match_tail (p # ps) (c # s) = (if p c then match_tail ps s else None)"

lemma match_tail_length: "match_tail ps s = Some r \<Longrightarrow> length r \<le> length s"
  by (induction ps s rule: match_tail.induct) (auto split: if_splits)

function utf8_valid :: "string \<Rightarrow> bool" where
  "utf8_valid [] = True"
| "utf8_valid (c # s) =
     (case utf8_tail c of
        None \<Rightarrow> False
      | Some ps \<Rightarrow> (case match_tail ps s of None \<Rightarrow> False | Some r \<Rightarrow> utf8_valid r))"
  by pat_completeness auto
termination
  by (relation "measure length") (auto dest: match_tail_length)

section \<open>Searching and splitting\<close>

definition contains_any :: "string \<Rightarrow> string \<Rightarrow> bool" where
  "contains_any s chars \<longleftrightarrow> list_ex (\<lambda>c. c \<in> set chars) s"

text \<open>\<open>strings.Split(s, sep)\<close> for a one-byte separator: never empty.\<close>

fun split_on :: "char \<Rightarrow> string \<Rightarrow> string list" where
  "split_on sep [] = [[]]"
| "split_on sep (c # s) =
     (if c = sep then [] # split_on sep s
      else (case split_on sep s of [] \<Rightarrow> [[c]] | w # ws \<Rightarrow> (c # w) # ws))"

definition join_with :: "char \<Rightarrow> string list \<Rightarrow> string" where
  "join_with sep ws = (case ws of [] \<Rightarrow> [] | w # ws' \<Rightarrow> w @ concat (map (\<lambda>v. sep # v) ws'))"

lemma split_on_not_Nil [simp]: "split_on sep s \<noteq> []"
  by (induction s) (auto split: list.splits)

lemma join_split [simp]: "join_with sep (split_on sep s) = s"
proof (induction s)
  case (Cons c s)
  obtain w ws where "split_on sep s = w # ws"
    by (cases "split_on sep s") auto
  with Cons.IH show ?case by (auto simp: join_with_def)
qed (simp add: join_with_def)

lemma split_on_no_sep: "w \<in> set (split_on sep s) \<Longrightarrow> sep \<notin> set w"
  by (induction s arbitrary: w) (auto split: if_splits list.splits)

lemma split_on_append_sep: "split_on sep (a @ sep # b) = split_on sep a @ split_on sep b"
proof (induction a)
  case (Cons c a)
  obtain w ws where "split_on sep a = w # ws"
    by (cases "split_on sep a") auto
  with Cons.IH show ?case by auto
qed simp

section \<open>\<open>path.Clean\<close>\<close>

abbreviation slash :: char where "slash \<equiv> CHR ''/''"

text \<open>
  The rules of the package documentation applied from left to right: empty and \<open>.\<close> elements are
  dropped, \<open>..\<close> removes the preceding element that is not \<open>..\<close>, a rooted path drops \<open>..\<close> at its
  root. \<open>out\<close> holds the elements kept so far, last first.
\<close>

fun clean_elems :: "bool \<Rightarrow> string list \<Rightarrow> string list \<Rightarrow> string list" where
  "clean_elems rooted out [] = rev out"
| "clean_elems rooted out (w # ws) =
     (if w = [] \<or> w = ''.'' then clean_elems rooted out ws
      else if w = ''..'' then
        (case out of
           [] \<Rightarrow> clean_elems rooted (if rooted then [] else [w]) ws
         | v # vs \<Rightarrow> if v = ''..'' then clean_elems rooted (w # out) ws
                     else clean_elems rooted vs ws)
      else clean_elems rooted (w # out) ws)"

definition path_clean :: "string \<Rightarrow> string" where
  "path_clean p =
     (if p = [] then ''.''
      else let rooted = (hd p = slash);
               body = join_with slash (clean_elems rooted [] (split_on slash p))
           in if rooted then slash # body else if body = [] then ''.'' else body)"

text \<open>\<open>strings.EqualFold\<close> against a word whose letters fold only to their two ASCII cases.\<close>

definition ascii_lower :: "char \<Rightarrow> char" where
  "ascii_lower c = (if in_bytes 65 90 c then char_of (byte c + 32) else c)"

definition equal_fold :: "string \<Rightarrow> string \<Rightarrow> bool" where
  "equal_fold s t \<longleftrightarrow> map ascii_lower s = map ascii_lower t"

section \<open>Character classes of the sources' regular expressions\<close>

definition lower_letter :: "char \<Rightarrow> bool" where
  "lower_letter c = in_bytes 97 122 c"

definition digit :: "char \<Rightarrow> bool" where
  "digit c = in_bytes 48 57 c"

definition lower_hex :: "char \<Rightarrow> bool" where
  "lower_hex c \<longleftrightarrow> digit c \<or> in_bytes 97 102 c"

text \<open>\<open>^[a-z][a-z0-9X]{0,63}$\<close> for the extra characters \<open>X\<close>.\<close>

definition name_pattern :: "string \<Rightarrow> string \<Rightarrow> bool" where
  "name_pattern extra s =
     (case s of
        [] \<Rightarrow> False
      | c # cs \<Rightarrow> lower_letter c \<and> length cs \<le> 63 \<and>
                  list_all (\<lambda>d. lower_letter d \<or> digit d \<or> d \<in> set extra) cs)"

abbreviation key_pattern :: "string \<Rightarrow> bool" where
  "key_pattern \<equiv> name_pattern ''_-''"

definition hex_string :: "nat \<Rightarrow> string \<Rightarrow> bool" where
  "hex_string n s \<longleftrightarrow> length s = n \<and> list_all lower_hex s"

text \<open>Decimal printing (\<open>strconv.Itoa\<close>, \<open>%d\<close>).\<close>

fun nat_decimal :: "nat \<Rightarrow> string" where
  "nat_decimal n =
     (if n < 10 then [char_of (48 + n)] else nat_decimal (n div 10) @ [char_of (48 + n mod 10)])"

declare nat_decimal.simps [simp del]

definition int_decimal :: "int \<Rightarrow> string" where
  "int_decimal i = (if i < 0 then CHR ''-'' # nat_decimal (nat (- i)) else nat_decimal (nat i))"

end
