(* ===== verification/Go_Digest.thy ===== *)
theory Go_Digest
  imports Go_Text "HOL-Library.Word"
begin

text \<open>
  What the sources use of Go's \<open>crypto/sha256\<close>, \<open>encoding/hex\<close> and \<open>encoding/json\<close>: the hex digest of
  a byte string (\<open>Hash\<close> of the packages \<open>graph\<close>, \<open>job\<close> and \<open>store\<close>) and the compact text that
  \<open>json.Marshal\<close> writes. Both are the real functions, so no theorem of the development rests on an
  idealised hash: where a property would need distinct inputs to have distinct digests, it names the
  collision instead.
\<close>

unbundle bit_operations_syntax

section \<open>SHA-256\<close>

type_synonym u32 = "32 word"

text \<open>
  The constants are the first 32 bits of the fractional parts of the cube roots of the first 64 primes
  and of the square roots of the first 8: the integer root of \<open>p * 2^(32 * k)\<close>, found bit by bit.
\<close>

definition frac_root :: "nat \<Rightarrow> nat \<Rightarrow> u32" where
  "frac_root k p =
     of_nat (foldl (\<lambda>r b. if (r + 2 ^ b) ^ k \<le> p * 2 ^ (32 * k) then r + 2 ^ b else r) 0 (rev [0..<36]))"

definition sha_primes :: "nat list" where
  "sha_primes =
     [2, 3, 5, 7, 11, 13, 17, 19, 23, 29, 31, 37, 41, 43, 47, 53, 59, 61, 67, 71, 73, 79,
      83, 89, 97, 101, 103, 107, 109, 113, 127, 131, 137, 139, 149, 151, 157, 163, 167, 173, 179, 181, 191, 193,
      197, 199, 211, 223, 227, 229, 233, 239, 241, 251, 257, 263, 269, 271, 277, 281, 283, 293, 307, 311]"

definition sha_k :: "u32 list" where
  "sha_k = map (frac_root 3) sha_primes"

definition sha_init :: "u32 list" where
  "sha_init = map (frac_root 2) (take 8 sha_primes)"

text \<open>The message followed by \<open>0x80\<close>, zeros up to 56 modulo 64 and its length in bits.\<close>

definition sha_pad :: "nat list \<Rightarrow> nat list" where
  "sha_pad m =
     (let n = length m; bits = 8 * n
      in m @ [128] @ replicate ((119 - n mod 64) mod 64) 0 @
         map (\<lambda>i. (bits div 256 ^ i) mod 256) [7, 6, 5, 4, 3, 2, 1, 0])"

fun words_of :: "nat list \<Rightarrow> u32 list" where
  "words_of (a # b # c # d # rest) =
     of_nat (((a * 256 + b) * 256 + c) * 256 + d) # words_of rest"
| "words_of _ = []"

text \<open>The message schedule: \<open>win\<close> holds the last sixteen words, oldest first.\<close>

fun sha_schedule :: "nat \<Rightarrow> u32 list \<Rightarrow> u32 list" where
  "sha_schedule 0 win = []"
| "sha_schedule (Suc n) win =
     (let w1 = win ! 1; w14 = win ! 14;
          s0 = word_rotr 7 w1 XOR word_rotr 18 w1 XOR drop_bit 3 w1;
          s1 = word_rotr 17 w14 XOR word_rotr 19 w14 XOR drop_bit 10 w14;
          w = win ! 0 + s0 + win ! 9 + s1
      in win ! 0 # sha_schedule n (tl win @ [w]))"

fun sha_round :: "u32 list \<Rightarrow> u32 \<times> u32 \<Rightarrow> u32 list" where
  "sha_round [a, b, c, d, e, f, g, h] (k, w) =
     (let s1 = word_rotr 6 e XOR word_rotr 11 e XOR word_rotr 25 e;
          ch = (e AND f) XOR (NOT e AND g);
          t1 = h + s1 + ch + k + w;
          s0 = word_rotr 2 a XOR word_rotr 13 a XOR word_rotr 22 a;
          maj = (a AND b) XOR (a AND c) XOR (b AND c)
      in [t1 + s0 + maj, a, b, c, d + t1, e, f, g])"
| "sha_round st _ = st"

definition sha_compress :: "u32 list \<Rightarrow> nat list \<Rightarrow> u32 list" where
  "sha_compress st block =
     map2 (+) st (foldl sha_round st (zip sha_k (sha_schedule 64 (words_of block))))"

function sha_blocks :: "u32 list \<Rightarrow> nat list \<Rightarrow> u32 list" where
  "sha_blocks st m =
     (if m = [] then st else sha_blocks (sha_compress st (take 64 m)) (drop 64 m))"
  by pat_completeness auto
termination
  by (relation "measure (\<lambda>(st, m). length m)") auto

declare sha_blocks.simps [simp del]

definition hex_digit :: "nat \<Rightarrow> char" where
  "hex_digit n = char_of (if n < 10 then 48 + n else 87 + n)"

text \<open>The eight hex digits of a word, most significant first (\<open>hex.EncodeToString\<close>).\<close>

definition word_hex :: "u32 \<Rightarrow> string" where
  "word_hex w = map (\<lambda>i. hex_digit ((unat w div 16 ^ i) mod 16)) [7, 6, 5, 4, 3, 2, 1, 0]"

definition Hash :: "string \<Rightarrow> string" where
  "Hash s = concat (map word_hex (sha_blocks sha_init (sha_pad (map byte s))))"

lemma length_sha_round [simp]: "length (sha_round st kw) = length st"
  by (induction st kw rule: sha_round.induct) (simp_all add: Let_def)

lemma length_foldl_sha_round [simp]: "length (foldl sha_round st kws) = length st"
  by (induction kws arbitrary: st) simp_all

lemma length_sha_compress [simp]: "length (sha_compress st block) = length st"
  by (simp add: sha_compress_def)

lemma length_sha_blocks [simp]: "length (sha_blocks st m) = length st"
proof (induction st m rule: sha_blocks.induct)
  case (1 st m)
  then show ?case by (subst sha_blocks.simps) simp
qed

lemma lower_hex_hex_digit: "n < 16 \<Longrightarrow> lower_hex (hex_digit n)"
  by (auto simp: hex_digit_def lower_hex_def digit_def in_bytes_def byte_def)

lemma length_word_hex [simp]: "length (word_hex w) = 8"
  by (simp add: word_hex_def)

lemma lower_hex_word_hex: "list_all lower_hex (word_hex w)"
  by (simp add: word_hex_def lower_hex_hex_digit)

lemma length_concat_word_hex: "length (concat (map word_hex ws)) = 8 * length ws"
  by (induction ws) simp_all

lemma lower_hex_concat_word_hex: "list_all lower_hex (concat (map word_hex ws))"
  by (induction ws) (simp_all add: lower_hex_word_hex)

text \<open>Every digest is 64 lower-case hex digits: what \<open>ValidHash\<close> and \<open>jobHash\<close> check.\<close>

lemma length_Hash [simp]: "length (Hash s) = 64"
  by (simp add: Hash_def length_concat_word_hex sha_init_def sha_primes_def)

lemma hex_string_Hash [simp]: "hex_string 64 (Hash s)"
proof -
  have "list_all lower_hex (Hash s)"
    unfolding Hash_def by (rule lower_hex_concat_word_hex)
  then show ?thesis by (simp add: hex_string_def)
qed

lemma Hash_not_Nil [simp]: "Hash s \<noteq> []"
  using length_Hash [of s] by (metis list.size(3) zero_neq_numeral)

section \<open>The text of \<open>json.Marshal\<close>\<close>

datatype json =
    JNull
  | JBool bool
  | JInt int
  | JStr string
  | JArr "json list"
  | JObj "(string \<times> json) list"
  | JRaw string

text \<open>\<open>JRaw\<close> is a \<open>json.RawMessage\<close> in compact form, which is written as it is.\<close>

definition hex_escape :: "nat \<Rightarrow> string" where
  "hex_escape n = [CHR 0x5C, CHR ''u'', CHR ''0'', CHR ''0'', hex_digit (n div 16), hex_digit (n mod 16)]"

text \<open>An ASCII byte inside a string literal; \<open><\<close>, \<open>>\<close> and \<open>&\<close> are escaped for HTML.\<close>

definition escape_ascii :: "char \<Rightarrow> string" where
  "escape_ascii c =
     (let n = byte c in
      if c = CHR 0x5C \<or> c = CHR 0x22 then [CHR 0x5C, c]
      else if n = 8 then [CHR 0x5C, CHR ''b''] else if n = 12 then [CHR 0x5C, CHR ''f'']
      else if n = 10 then [CHR 0x5C, CHR ''n''] else if n = 13 then [CHR 0x5C, CHR ''r'']
      else if n = 9 then [CHR 0x5C, CHR ''t'']
      else if n < 32 \<or> c \<in> {CHR ''<'', CHR ''>'', CHR ''&''} then hex_escape n
      else [c])"

text \<open>Invalid UTF-8 becomes \<open>\ufffd\<close>, one byte at a time; U+2028 and U+2029 are escaped.\<close>

function escape :: "string \<Rightarrow> string" where
  "escape [] = []"
| "escape (c # s) =
     (case utf8_tail c of
        None \<Rightarrow> CHR 0x5C # ''ufffd'' @ escape s
      | Some ps \<Rightarrow>
          (case match_tail ps s of
             None \<Rightarrow> CHR 0x5C # ''ufffd'' @ escape s
           | Some r \<Rightarrow>
               (let rune = c # take (length s - length r) s in
                (if ps = [] then escape_ascii c
                 else if rune = bytes [226, 128, 168] then CHR 0x5C # ''u2028''
                 else if rune = bytes [226, 128, 169] then CHR 0x5C # ''u2029''
                 else rune) @ escape r)))"
  by pat_completeness auto
termination
  by (relation "measure length") (auto dest: match_tail_length)

definition json_string :: "string \<Rightarrow> string" where
  "json_string s = CHR 0x22 # escape s @ [CHR 0x22]"

fun json_text :: "json \<Rightarrow> string" where
  "json_text JNull = ''null''"
| "json_text (JBool b) = (if b then ''true'' else ''false'')"
| "json_text (JInt i) = int_decimal i"
| "json_text (JStr s) = json_string s"
| "json_text (JArr xs) = ''['' @ join_with (CHR '','') (map json_text xs) @ '']''"
| "json_text (JObj fs) =
     CHR 0x7B # join_with (CHR '','') (map (\<lambda>(k, v). json_string k @ CHR '':'' # json_text v) fs) @ [CHR 0x7D]"
| "json_text (JRaw s) = s"

text \<open>An \<open>omitempty\<close> string field.\<close>

definition opt_str :: "string \<Rightarrow> string \<Rightarrow> (string \<times> json) list" where
  "opt_str k s = (if s = [] then [] else [(k, JStr s)])"

definition json_strs :: "string list \<Rightarrow> json" where
  "json_strs xs = JArr (map JStr xs)"

text \<open>An \<open>omitempty\<close> slice or pointer field.\<close>

definition opt_arr :: "string \<Rightarrow> json list \<Rightarrow> (string \<times> json) list" where
  "opt_arr k xs = (if xs = [] then [] else [(k, JArr xs)])"

section \<open>\<open>json.Valid\<close>\<close>

text \<open>The scanner of \<open>encoding/json\<close>: a state and a stack of open objects and arrays.\<close>

datatype frame = ObjectKey | ObjectValue | ArrayValue

datatype mode =
    BeginValue | BeginValueOrEmpty | BeginString | BeginStringOrEmpty | EndValue | EndTop
  | InString | InStringEsc | InStringEscU nat
  | Neg | Int0 | Int1 | Dot | Dot0 | Exp | ExpSign | Exp0 | Lit string

type_synonym scan = "mode \<times> frame list"

definition json_space :: "char \<Rightarrow> bool" where
  "json_space c \<longleftrightarrow> c = CHR 0x20 \<or> c = CHR 0x09 \<or> c = CHR 0x0A \<or> c = CHR 0x0D"

text \<open>\<open>appendCompact\<close> with HTML escaping, on valid JSON. The flag says whether we are inside a string.\<close>

fun compact_raw :: "bool \<Rightarrow> string \<Rightarrow> string" where
  "compact_raw b [] = []"
| "compact_raw False (c # s) = (
    if json_space c then compact_raw False s
    else c # compact_raw (c = CHR 0x22) s)"
| "compact_raw True [c] = [c]"
| "compact_raw True (c # d # s) = (
    if c = CHR 0x5C then c # d # compact_raw True s
    else if c = CHR 0x22 then c # compact_raw False (d # s)
    else if c \<in> {CHR ''<'', CHR ''>'', CHR ''&''} then hex_escape (byte c) @ compact_raw True (d # s)
    else if c # d # take 1 s = bytes [226, 128, 168] then CHR 0x5C # ''u2028'' @ compact_raw True (drop 1 s)
    else if c # d # take 1 s = bytes [226, 128, 169] then CHR 0x5C # ''u2029'' @ compact_raw True (drop 1 s)
    else c # compact_raw True (d # s))"

definition hex_char :: "char \<Rightarrow> bool" where
  "hex_char c \<longleftrightarrow> digit c \<or> in_bytes 97 102 c \<or> in_bytes 65 70 c"

definition push_frame :: "mode \<Rightarrow> frame \<Rightarrow> frame list \<Rightarrow> scan option" where
  "push_frame m f st = (if length st + 1 \<le> 10000 then Some (m, f # st) else None)"

definition pop_frame :: "frame list \<Rightarrow> scan" where
  "pop_frame st = (if tl st = [] then (EndTop, []) else (EndValue, tl st))"

definition scan_end_value :: "frame list \<Rightarrow> char \<Rightarrow> scan option" where
  "scan_end_value st c =
     (case st of
        [] \<Rightarrow> if json_space c then Some (EndTop, []) else None
      | f # fs \<Rightarrow>
          if json_space c then Some (EndValue, st)
          else (case f of
              ObjectKey \<Rightarrow> if c = CHR '':'' then Some (BeginValue, ObjectValue # fs) else None
            | ObjectValue \<Rightarrow>
                if c = CHR '','' then Some (BeginString, ObjectKey # fs)
                else if c = CHR 0x7D then Some (pop_frame st) else None
            | ArrayValue \<Rightarrow>
                if c = CHR '','' then Some (BeginValue, st)
                else if c = CHR 0x5D then Some (pop_frame st) else None))"

definition scan_begin_value :: "frame list \<Rightarrow> char \<Rightarrow> scan option" where
  "scan_begin_value st c =
     (if json_space c then Some (BeginValue, st)
      else if c = CHR 0x7B then push_frame BeginStringOrEmpty ObjectKey st
      else if c = CHR 0x5B then push_frame BeginValueOrEmpty ArrayValue st
      else if c = CHR 0x22 then Some (InString, st)
      else if c = CHR ''-'' then Some (Neg, st)
      else if c = CHR ''0'' then Some (Int0, st)
      else if c = CHR ''t'' then Some (Lit ''rue'', st)
      else if c = CHR ''f'' then Some (Lit ''alse'', st)
      else if c = CHR ''n'' then Some (Lit ''ull'', st)
      else if digit c then Some (Int1, st)
      else None)"

definition scan_begin_string :: "frame list \<Rightarrow> char \<Rightarrow> scan option" where
  "scan_begin_string st c =
     (if json_space c then Some (BeginString, st) else if c = CHR 0x22 then Some (InString, st) else None)"

definition scan_exponent :: "frame list \<Rightarrow> char \<Rightarrow> scan option" where
  "scan_exponent st c =
     (if c = CHR ''e'' \<or> c = CHR ''E'' then Some (Exp, st) else scan_end_value st c)"

fun scan_step :: "scan \<Rightarrow> char \<Rightarrow> scan option" where
  "scan_step (BeginValue, st) c = scan_begin_value st c"
| "scan_step (BeginValueOrEmpty, st) c =
     (if json_space c then Some (BeginValueOrEmpty, st)
      else if c = CHR 0x5D then scan_end_value st c else scan_begin_value st c)"
| "scan_step (BeginStringOrEmpty, st) c =
     (if json_space c then Some (BeginStringOrEmpty, st)
      else if c = CHR 0x7D then scan_end_value (ObjectValue # tl st) c else scan_begin_string st c)"
| "scan_step (BeginString, st) c = scan_begin_string st c"
| "scan_step (EndValue, st) c = scan_end_value st c"
| "scan_step (EndTop, st) c = (if json_space c then Some (EndTop, st) else None)"
| "scan_step (InString, st) c =
     (if c = CHR 0x22 then Some (EndValue, st) else if c = CHR 0x5C then Some (InStringEsc, st)
      else if byte c < 32 then None else Some (InString, st))"
| "scan_step (InStringEsc, st) c =
     (if c \<in> {CHR ''b'', CHR ''f'', CHR ''n'', CHR ''r'', CHR ''t'', CHR 0x5C, CHR ''/'', CHR 0x22} then Some (InString, st)
      else if c = CHR ''u'' then Some (InStringEscU 4, st) else None)"
| "scan_step (InStringEscU n, st) c =
     (if hex_char c then Some (if n \<le> 1 then InString else InStringEscU (n - 1), st) else None)"
| "scan_step (Neg, st) c =
     (if c = CHR ''0'' then Some (Int0, st) else if digit c then Some (Int1, st) else None)"
| "scan_step (Int1, st) c =
     (if digit c then Some (Int1, st) else if c = CHR ''.'' then Some (Dot, st) else scan_exponent st c)"
| "scan_step (Int0, st) c = (if c = CHR ''.'' then Some (Dot, st) else scan_exponent st c)"
| "scan_step (Dot, st) c = (if digit c then Some (Dot0, st) else None)"
| "scan_step (Dot0, st) c = (if digit c then Some (Dot0, st) else scan_exponent st c)"
| "scan_step (Exp, st) c =
     (if c = CHR ''+'' \<or> c = CHR ''-'' then Some (ExpSign, st) else if digit c then Some (Exp0, st) else None)"
| "scan_step (ExpSign, st) c = (if digit c then Some (Exp0, st) else None)"
| "scan_step (Exp0, st) c = (if digit c then Some (Exp0, st) else scan_end_value st c)"
| "scan_step (Lit rest, st) c =
     (if rest \<noteq> [] \<and> c = hd rest then Some (if tl rest = [] then EndValue else Lit (tl rest), st) else None)"

fun scan_all :: "scan \<Rightarrow> string \<Rightarrow> scan option" where
  "scan_all s [] = Some s"
| "scan_all s (c # cs) = (case scan_step s c of None \<Rightarrow> None | Some s' \<Rightarrow> scan_all s' cs)"

definition json_valid :: "string \<Rightarrow> bool" where
  "json_valid raw =
     (case scan_all (BeginValue, []) raw of
        None \<Rightarrow> False
      | Some (m, st) \<Rightarrow> m = EndTop \<or> (case scan_step (m, st) (CHR 0x20) of Some (EndTop, _) \<Rightarrow> True | _ \<Rightarrow> False))"

end
