(* ===== verification/Goal_Contract.thy ===== *)
theory Goal_Contract
  imports Go_Digest "HOL-Library.Product_Lexorder"
begin

text \<open>
  The evaluator contract of \<open>internal/goal/evaluator_contract.go\<close>: evidence, proposed plans, strategy
  deltas and progress snapshots with their \<open>Validate\<close> methods, and the three digests by which the
  replan guard recognises what it has seen before.

  Shown here: the evidence fingerprint does not depend on the order of the items, on artifact ids or
  on white space around facts, whatever \<open>sort.Slice\<close> does with equal items; the plan fingerprint does
  not depend on the order of capabilities and assumptions; white space around an evidence type does
  change the fingerprint's input, because the items are sorted before they are trimmed.
\<close>

section \<open>Data\<close>

definition FailureClasses :: "string list" where
  "FailureClasses =
     [''TEST_FAILURE'', ''MISSING_CAPABILITY'', ''PERMISSION_DENIED'', ''ARCHITECTURE_CONFLICT'',
      ''DEPENDENCY_UNAVAILABLE'', ''POLICY_REJECTED'', ''TIMEOUT'', ''RESOURCE_EXHAUSTED'',
      ''INVALID_ASSUMPTION'', ''UNKNOWN'']"

record Evidence =
  ev_Type :: string
  ev_ArtifactID :: string
  ev_Fact :: string

record ReplanEvidence =
  re_FailureClass :: string
  re_Evidence :: "Evidence list"

record PlanCanonical =
  pc_Strategy :: string
  pc_StrategyClass :: string
  pc_DependencySignature :: string
  pc_RequiredCapabilities :: "string list"
  pc_KeyAssumptions :: "string list"
  pc_EvaluationStrategy :: string
  pc_SideEffectClass :: string
  pc_JobSpecHash :: string

record StrategyDelta =
  sd_ChangedDimensions :: "string list"
  sd_Summary :: string

record ProgressSnapshot =
  ps_AcceptedChecks :: int
  ps_FailedChecks :: int
  ps_UnknownChecks :: int
  ps_ResolvedAssumptions :: int
  ps_UnresolvedBlockers :: int

section \<open>Validation\<close>

definition validFailureClass :: "string \<Rightarrow> bool" where
  "validFailureClass v \<longleftrightarrow> v \<in> set FailureClasses"

definition evidence_item_ok :: "Evidence \<Rightarrow> unit result" where
  "evidence_item_ok e =
     (if trim_space (ev_Type e) = [] \<or> trim_space (ev_Fact e) = []
      then Inl (Error ''evidence type and fact are required'')
      else if length (ev_Type e) > 64 \<or> length (ev_ArtifactID e) > 128 \<or> length (ev_Fact e) > 4096
      then Inl (Error ''evidence field too large'')
      else Inr ())"

definition ReplanEvidence_Validate :: "ReplanEvidence \<Rightarrow> unit result" where
  "ReplanEvidence_Validate r =
     (if \<not> validFailureClass (re_FailureClass r) then Inl (Error ''invalid failure_class'')
      else if re_Evidence r = [] \<or> length (re_Evidence r) > 32
      then Inl (Error ''replan requires 1..32 evidence items'')
      else check_all evidence_item_ok (re_Evidence r))"

definition hexHash :: "string \<Rightarrow> bool" where
  "hexHash v = list_all lower_hex v"

definition PlanCanonical_Validate :: "PlanCanonical \<Rightarrow> unit result" where
  "PlanCanonical_Validate p =
     (if trim_space (pc_Strategy p) = [] \<or> trim_space (pc_StrategyClass p) = [] \<or>
         trim_space (pc_DependencySignature p) = []
      then Inl (Error ''plan strategy, strategy class and dependency signature are required'')
      else if length (pc_Strategy p) > 4096 \<or> length (pc_StrategyClass p) > 128 \<or>
              length (pc_DependencySignature p) > 4096 \<or> length (pc_EvaluationStrategy p) > 1024 \<or>
              length (pc_SideEffectClass p) > 128
      then Inl (Error ''plan canonical field too large'')
      else if length (pc_RequiredCapabilities p) > 64 \<or> length (pc_KeyAssumptions p) > 64
      then Inl (Error ''too many plan canonical entries'')
      else if pc_JobSpecHash p \<noteq> [] \<and> (length (pc_JobSpecHash p) \<noteq> 64 \<or> \<not> hexHash (pc_JobSpecHash p))
      then Inl (Error ''invalid plan job spec hash'')
      else Inr ())"

definition StrategyDelta_Validate :: "StrategyDelta \<Rightarrow> unit result" where
  "StrategyDelta_Validate d =
     (if sd_ChangedDimensions d = [] \<or> length (sd_ChangedDimensions d) > 16
      then Inl (Error ''strategy_delta requires 1..16 changed dimensions'')
      else if trim_space (sd_Summary d) = [] \<or> length (sd_Summary d) > 2048
      then Inl (Error ''strategy_delta summary required and bounded'')
      else check_all (\<lambda>v. if trim_space v = [] \<or> length v > 64
                         then Inl (Error ''invalid strategy_delta dimension'') else Inr ())
             (sd_ChangedDimensions d))"

definition ProgressSnapshot_Validate :: "ProgressSnapshot \<Rightarrow> unit result" where
  "ProgressSnapshot_Validate p =
     (if ps_AcceptedChecks p < 0 \<or> ps_FailedChecks p < 0 \<or> ps_UnknownChecks p < 0 \<or>
         ps_ResolvedAssumptions p < 0 \<or> ps_UnresolvedBlockers p < 0
      then Inl (Error ''progress counters must be non-negative'')
      else Inr ())"

definition ImprovedOver :: "ProgressSnapshot \<Rightarrow> ProgressSnapshot \<Rightarrow> bool" where
  "ImprovedOver p prev \<longleftrightarrow>
     ps_AcceptedChecks p > ps_AcceptedChecks prev \<or> ps_FailedChecks p < ps_FailedChecks prev \<or>
     ps_UnknownChecks p < ps_UnknownChecks prev \<or> ps_ResolvedAssumptions p > ps_ResolvedAssumptions prev \<or>
     ps_UnresolvedBlockers p < ps_UnresolvedBlockers prev"

section \<open>Digests\<close>

text \<open>What the comparison of the sort reads: the type as given, the fact trimmed.\<close>

definition evidence_key :: "Evidence \<Rightarrow> string \<times> string" where
  "evidence_key e = (ev_Type e, trim_space (ev_Fact e))"

definition semanticEvidence :: "string \<times> string \<Rightarrow> json" where
  "semanticEvidence k = JObj [(''Type'', JStr (trim_space (fst k))), (''Fact'', JStr (snd k))]"

definition evidence_payload :: "ReplanEvidence \<Rightarrow> json" where
  "evidence_payload r =
     JObj [(''FailureClass'', JStr (re_FailureClass r)),
           (''Evidence'', JArr (map (\<lambda>e. semanticEvidence (evidence_key e))
                                 (sort_key evidence_key (re_Evidence r))))]"

definition ReplanEvidence_Fingerprint :: "ReplanEvidence \<Rightarrow> string" where
  "ReplanEvidence_Fingerprint r = Hash (json_text (evidence_payload r))"

text \<open>\<open>append([]string(nil), xs...)\<close> is nil, and is written \<open>null\<close>, when \<open>xs\<close> is empty.\<close>

definition json_copied :: "string list \<Rightarrow> json" where
  "json_copied xs = (if xs = [] then JNull else json_strs xs)"

definition plan_payload :: "PlanCanonical \<Rightarrow> json" where
  "plan_payload p =
     JObj ([(''Strategy'', JStr (pc_Strategy p)), (''StrategyClass'', JStr (pc_StrategyClass p)),
            (''DependencySignature'', JStr (pc_DependencySignature p)),
            (''RequiredCapabilities'', json_copied (sort (pc_RequiredCapabilities p))),
            (''KeyAssumptions'', json_copied (sort (pc_KeyAssumptions p))),
            (''EvaluationStrategy'', JStr (pc_EvaluationStrategy p)),
            (''SideEffectClass'', JStr (pc_SideEffectClass p))] @
           opt_str ''JobSpecHash'' (pc_JobSpecHash p))"

definition PlanCanonical_Fingerprint :: "PlanCanonical \<Rightarrow> string" where
  "PlanCanonical_Fingerprint p = Hash (json_text (plan_payload p))"

definition StrategySignature :: "PlanCanonical \<Rightarrow> string" where
  "StrategySignature p =
     Hash (json_text (JObj [(''StrategyClass'', JStr (trim_space (pc_StrategyClass p))),
                            (''DependencySignature'', JStr (trim_space (pc_DependencySignature p))),
                            (''SideEffectClass'', JStr (trim_space (pc_SideEffectClass p)))]))"

text \<open>The two columns written with \<open>json.Marshal\<close>; a nil slice is \<open>null\<close> and an empty one \<open>[]\<close>, which
  validation excludes.\<close>

definition strategy_delta_json :: "StrategyDelta \<Rightarrow> string" where
  "strategy_delta_json d =
     json_text (JObj [(''ChangedDimensions'', json_strs (sd_ChangedDimensions d)),
                      (''Summary'', JStr (sd_Summary d))])"

definition progress_json :: "ProgressSnapshot \<Rightarrow> string" where
  "progress_json p =
     json_text (JObj [(''AcceptedChecks'', JInt (ps_AcceptedChecks p)),
                      (''FailedChecks'', JInt (ps_FailedChecks p)),
                      (''UnknownChecks'', JInt (ps_UnknownChecks p)),
                      (''ResolvedAssumptions'', JInt (ps_ResolvedAssumptions p)),
                      (''UnresolvedBlockers'', JInt (ps_UnresolvedBlockers p))])"

section \<open>What the digests depend on\<close>

text \<open>C25: the evidence fingerprint is a function of the failure class and of the multiset of pairs
  (type, trimmed fact): the order in which items are reported, their artifact ids, white space around
  facts, and the order in which the unstable \<open>sort.Slice\<close> leaves equal items do not change it.\<close>

theorem evidence_fingerprint_semantic:
  assumes "re_FailureClass r = re_FailureClass r'"
    and "mset (map evidence_key (re_Evidence r)) = mset (map evidence_key (re_Evidence r'))"
    and "mset items = mset (re_Evidence r')" and "sorted (map evidence_key items)"
  shows "ReplanEvidence_Fingerprint r =
    Hash (json_text (JObj [(''FailureClass'', JStr (re_FailureClass r')),
                           (''Evidence'', JArr (map (\<lambda>e. semanticEvidence (evidence_key e)) items))]))"
proof -
  let ?f = "\<lambda>e. semanticEvidence (evidence_key e)"
  have "map ?f (sort_key evidence_key (re_Evidence r)) = map ?f (sort_key evidence_key items)"
  proof (rule sort_by.map_of_key_srt_perm)
    have "image_mset evidence_key (mset items) = image_mset evidence_key (mset (re_Evidence r'))"
      by (simp only: assms(3))
    with assms(2) show "mset (map evidence_key (re_Evidence r)) = mset (map evidence_key items)"
      by simp
  qed
  also have "sort_key evidence_key items = items"
    using assms(4) by (rule sort_key_id_if_sorted)
  finally show ?thesis
    by (simp add: ReplanEvidence_Fingerprint_def evidence_payload_def assms(1))
qed

text \<open>The plan fingerprint does not depend on the order of the required capabilities or of the key
  assumptions, nor the strategy signature on the fields outside class, dependencies and side effects.\<close>

theorem plan_fingerprint_order:
  assumes "mset caps = mset (pc_RequiredCapabilities p)" "mset assumptions = mset (pc_KeyAssumptions p)"
  shows "PlanCanonical_Fingerprint (p\<lparr>pc_RequiredCapabilities := caps, pc_KeyAssumptions := assumptions\<rparr>) =
      PlanCanonical_Fingerprint p \<and>
    StrategySignature (p\<lparr>pc_RequiredCapabilities := caps, pc_KeyAssumptions := assumptions,
      pc_Strategy := s, pc_EvaluationStrategy := ev, pc_JobSpecHash := h\<rparr>) = StrategySignature p"
proof -
  have s: "sort xs = sort ys" if "mset xs = mset ys" for xs ys :: "string list"
    using that by (simp add: properties_for_sort)
  from s [OF assms(1)] s [OF assms(2)] show ?thesis
    by (simp add: PlanCanonical_Fingerprint_def plan_payload_def StrategySignature_def)
qed

definition example_evidence :: "string \<Rightarrow> ReplanEvidence" where
  "example_evidence t =
     \<lparr>re_FailureClass = ''TEST_FAILURE'', re_Evidence =
        [\<lparr>ev_Type = t, ev_ArtifactID = ''a1'', ev_Fact = ''red''\<rparr>,
         \<lparr>ev_Type = ''lint'', ev_ArtifactID = ''a2'', ev_Fact = '' stale ''\<rparr>]\<rparr>"

definition example_plan :: PlanCanonical where
  "example_plan =
     \<lparr>pc_Strategy = ''bisect'', pc_StrategyClass = ''debug'', pc_DependencySignature = ''d1'',
      pc_RequiredCapabilities = [''git'', ''go''], pc_KeyAssumptions = [], pc_EvaluationStrategy = ''tests'',
      pc_SideEffectClass = ''none'', pc_JobSpecHash = []\<rparr>"

lemma evidence_fingerprint_semantic_witness:
  "ReplanEvidence_Fingerprint (example_evidence ''ci'') =
    Hash (json_text (JObj [(''FailureClass'', JStr ''TEST_FAILURE''),
      (''Evidence'', JArr [semanticEvidence (''ci'', ''red''), semanticEvidence (''lint'', ''stale'')])]))"
proof -
  have trims: "trim_space ''red'' = ''red''" "trim_space '' stale '' = ''stale''" "''ci'' \<le> ''lint''"
    by code_simp+
  then have srt: "sorted (map evidence_key (re_Evidence (example_evidence ''ci'')))"
    by (simp add: example_evidence_def evidence_key_def)
  show ?thesis
    using evidence_fingerprint_semantic [OF refl refl refl srt] trims
    by (simp add: example_evidence_def evidence_key_def del: json_text.simps)
qed

lemma plan_fingerprint_order_witness:
  "PlanCanonical_Fingerprint (example_plan\<lparr>pc_RequiredCapabilities := [''go'', ''git''], pc_KeyAssumptions := []\<rparr>) =
   PlanCanonical_Fingerprint example_plan"
  using plan_fingerprint_order [of "[''go'', ''git'']" example_plan "[]"]
  by (simp add: example_plan_def)

lemma example_trims:
  "trim_space ''red'' = ''red''" "trim_space '' stale '' = ''stale''" "trim_space ''lint'' = ''lint''"
  "trim_space ''make'' = ''make''" "trim_space '' make'' = ''make''"
  "''lint'' < ''make''" "'' make'' < ''lint''"
  by code_simp+

lemma example_evidence_valid:
  "trim_space t \<noteq> [] \<Longrightarrow> length t \<le> 64 \<Longrightarrow> ReplanEvidence_Validate (example_evidence t) = Inr ()"
  by (simp add: ReplanEvidence_Validate_def example_evidence_def validFailureClass_def FailureClasses_def
      evidence_item_ok_def example_trims)

text \<open>Two reports that differ only in white space around an evidence type carry the same trimmed
  facts but different bytes into the digest: the items are ordered by the untrimmed type.\<close>

theorem evidence_type_whitespace_matters:
  "map (\<lambda>e. (trim_space (ev_Type e), trim_space (ev_Fact e))) (re_Evidence (example_evidence ''make'')) =
   map (\<lambda>e. (trim_space (ev_Type e), trim_space (ev_Fact e))) (re_Evidence (example_evidence '' make'')) \<and>
   ReplanEvidence_Validate (example_evidence ''make'') = Inr () \<and>
   ReplanEvidence_Validate (example_evidence '' make'') = Inr () \<and>
   evidence_payload (example_evidence ''make'') \<noteq> evidence_payload (example_evidence '' make'')"
proof -
  have "evidence_payload (example_evidence ''make'') \<noteq> evidence_payload (example_evidence '' make'')"
    using example_trims(6,7)
    by (simp add: evidence_payload_def example_evidence_def evidence_key_def semanticEvidence_def
        sort_key_def example_trims)
  then show ?thesis
    by (simp add: example_evidence_valid example_trims) (simp add: example_evidence_def example_trims)
qed

end
