(* ===== verification/Goal_Store.thy ===== *)
theory Goal_Store
  imports Goal_Contract
begin

text \<open>
  The goal tables of the control database (\<open>internal/store\<close>: schema versions 9 to 11, 15 and 16) and the
  transaction discipline of \<open>DB.Tx\<close>.

  A table is the list of its rows in insertion order. An insert that violates a primary key, a unique
  constraint, a check or a reference answers \<open>Sql_constraint\<close>; an update rewrites the rows that satisfy
  its condition and reports how many there were. A transaction is a function from a database to a
  result and a database; \<open>db_Tx\<close> keeps the old database when it fails. The store holds a single
  connection with immediate transactions, so transactions are serial.

  Shown here: the facts about inserts and updates that the components above use, and the table
  discipline (\<open>goal_row_ok\<close>) of one goal.
\<close>

section \<open>Transactions, inserts and updates\<close>

type_synonym ('s, 'a) tx = "'s \<Rightarrow> ('a \<times> 's) result"

definition db_Tx :: "('s, 'a) tx \<Rightarrow> 's \<Rightarrow> 'a result \<times> 's" where
  "db_Tx f db = (case f db of Inl e \<Rightarrow> (Inl e, db) | Inr (x, db') \<Rightarrow> (Inr x, db'))"

lemma db_Tx_Inr_iff: "db_Tx f db = (Inr x, db') \<longleftrightarrow> f db = Inr (x, db')"
  by (auto simp: db_Tx_def split: sum.splits)

lemma db_Tx_error: "db_Tx f db = (Inl e, db') \<Longrightarrow> db' = db"
  by (auto simp: db_Tx_def split: sum.splits)

definition insert_row :: "('r \<Rightarrow> 'r \<Rightarrow> bool) \<Rightarrow> 'r \<Rightarrow> 'r list \<Rightarrow> 'r list result" where
  "insert_row conflict r rows = (if list_ex (conflict r) rows then Inl Sql_constraint else Inr (rows @ [r]))"

lemma insert_row_eq_Inr_iff [result_simps]:
  "insert_row conflict r rows = Inr rows' \<longleftrightarrow> (\<forall>x\<in>set rows. \<not> conflict r x) \<and> rows' = rows @ [r]"
  by (auto simp: insert_row_def list_ex_iff)

definition update_where :: "('r \<Rightarrow> bool) \<Rightarrow> ('r \<Rightarrow> 'r) \<Rightarrow> 'r list \<Rightarrow> 'r list" where
  "update_where P f rows = map (\<lambda>r. if P r then f r else r) rows"

definition count_where :: "('r \<Rightarrow> bool) \<Rightarrow> 'r list \<Rightarrow> nat" where
  "count_where P rows = length (filter P rows)"

lemma count_where_0_iff [simp]: "count_where P rows = 0 \<longleftrightarrow> (\<forall>r\<in>set rows. \<not> P r)"
  by (auto simp: count_where_def filter_empty_conv)

lemma map_update_where:
  "(\<And>r. P r \<Longrightarrow> k (f r) = k r) \<Longrightarrow> map k (update_where P f rows) = map k rows"
  by (auto simp: update_where_def)

lemma in_update_where_iff:
  "x \<in> set (update_where P f rows) \<longleftrightarrow> (\<exists>r\<in>set rows. x = (if P r then f r else r))"
  by (auto simp: update_where_def)

lemma update_where_all:
  "(\<And>r. r \<in> set rows \<Longrightarrow> Q r) \<Longrightarrow> (\<And>r. r \<in> set rows \<Longrightarrow> P r \<Longrightarrow> Q r \<Longrightarrow> Q (f r)) \<Longrightarrow>
   x \<in> set (update_where P f rows) \<Longrightarrow> Q x"
  by (auto simp: in_update_where_iff)

lemma set_update_where_one:
  assumes "r \<in> set rows" "P r" "\<And>x. x \<in> set rows \<Longrightarrow> P x \<Longrightarrow> x = r"
  shows "set (update_where P f rows) = insert (f r) (set rows - {r})"
proof (rule set_eqI)
  fix y
  have "y \<in> set (update_where P f rows) \<longleftrightarrow> y = f r \<or> (\<exists>x\<in>set rows. x \<noteq> r \<and> y = (if P x then f x else x))"
    using assms(1,2) unfolding in_update_where_iff by metis
  also have "\<dots> \<longleftrightarrow> y = f r \<or> (\<exists>x\<in>set rows. x \<noteq> r \<and> y = x)"
    using assms(3) by metis
  finally show "y \<in> set (update_where P f rows) \<longleftrightarrow> y \<in> insert (f r) (set rows - {r})"
    by blast
qed

text \<open>\<open>SELECT ... WHERE key=?\<close> on a primary key: the row, or \<open>sql.ErrNoRows\<close>.\<close>

definition select_row :: "('r \<Rightarrow> bool) \<Rightarrow> 'r list \<Rightarrow> 'r result" where
  "select_row P rows = (case List.find P rows of None \<Rightarrow> Inl Sql_no_rows | Some r \<Rightarrow> Inr r)"

lemma select_row_InrD: "select_row P rows = Inr r \<Longrightarrow> r \<in> set rows \<and> P r"
  by (auto simp: select_row_def split: option.splits dest: find_Some_iff_in)

lemma find_append: "List.find P (xs @ ys) = (case List.find P xs of None \<Rightarrow> List.find P ys | Some x \<Rightarrow> Some x)"
  by (induction xs) auto

text \<open>An update that keeps the key keeps what a lookup by key finds, up to the update.\<close>

lemma find_update_where:
  assumes "List.find (\<lambda>x. k x = v) rows = Some r" "\<And>x. k (f x) = k x"
  shows "List.find (\<lambda>x. k x = v) (update_where P f rows) = Some (if P r then f r else r)"
  using assms(1) by (induction rows) (auto simp: update_where_def assms(2) split: if_splits)

lemma find_None_all: "List.find P rows = None \<longleftrightarrow> (\<forall>r\<in>set rows. \<not> P r)"
  by (auto simp: find_None_iff)

lemma find_unique_key:
  assumes "distinct (map k rows)" "r \<in> set rows" "k r = v"
  shows "List.find (\<lambda>r. k r = v) rows = Some r"
  using assms by (induction rows) (auto simp: image_iff)

section \<open>Rows\<close>

record GoalRow =
  gl_id :: string
  gl_owner :: string
  gl_project :: string
  gl_state :: string
  gl_active_plan_revision :: int
  gl_active_graph_generation :: int
  gl_max_replans :: int
  gl_max_total_attempts :: int
  gl_max_wall_time_ms :: int
  gl_consumed_replans :: int
  gl_consumed_attempts :: int
  gl_created :: int
  gl_updated :: int
  gl_deadline :: int
  gl_version :: int

record ReplanRow =
  rq_id :: string
  rq_goal :: string
  rq_evaluation :: string
  rq_expected_plan :: int
  rq_expected_graph :: int
  rq_reason_code :: string
  rq_state :: string
  rq_decision_code :: string
  rq_next_plan :: int
  rq_next_graph :: int
  rq_created :: int
  rq_failure_class :: string
  rq_evidence :: string
  rq_plan_fingerprint :: string
  rq_strategy :: string
  rq_delta_json :: string
  rq_progress_json :: string

record EvidenceRow =
  er_goal :: string
  er_fingerprint :: string
  er_evaluation :: string
  er_failure_class :: string
  er_created :: int

record PlanFingerprintRow =
  pf_goal :: string
  pf_revision :: int
  pf_fingerprint :: string
  pf_strategy :: string
  pf_created :: int

text \<open>\<open>progress_json\<close> is read back with \<open>json.Unmarshal\<close>, which inverts \<open>json.Marshal\<close> on five integers:
  the row holds the snapshot.\<close>

record HistoryRow =
  rh_goal :: string
  rh_ordinal :: int
  rh_evaluation :: string
  rh_revision :: int
  rh_generation :: int
  rh_failure_class :: string
  rh_evidence :: string
  rh_plan_fingerprint :: string
  rh_strategy :: string
  rh_progress :: ProgressSnapshot
  rh_progressed :: bool
  rh_created :: int

record DecisionRow =
  gd_goal :: string
  gd_operation :: string
  gd_request_hash :: string
  gd_actor :: string
  gd_action :: string
  gd_reason :: string
  gd_expected_version :: int
  gd_plan_revision :: int
  gd_graph_generation :: int
  gd_change_json :: string
  gd_resulting_version :: int
  gd_created :: int

record UsageRow =
  us_goal :: string
  us_id :: string
  us_attempt :: string
  us_source :: string
  us_tokens :: "int option"
  us_cost :: "int option"
  us_complete :: bool
  us_request_hash :: string
  us_created :: int

record PolicyRow =
  bp_goal :: string
  bp_max_tokens :: "int option"
  bp_max_cost :: "int option"

record PermissionRow =
  rp_goal :: string
  rp_operation :: string
  rp_revision :: int
  rp_generation :: int
  rp_consumed :: bool

record ReservationRow =
  rs_attempt :: string
  rs_goal :: string
  rs_revision :: int
  rs_generation :: int
  rs_created :: int

record BindingRow =
  bd_job :: string
  bd_goal :: string
  bd_revision :: int
  bd_generation :: int

record PlanRow =
  pl_goal :: string
  pl_revision :: int
  pl_generation :: int
  pl_job :: string
  pl_frozen_spec :: string
  pl_graph_json :: string
  pl_created :: int

text \<open>The columns of \<open>jobs\<close> that the goal queries join.\<close>

record JobRow =
  jb_id :: string
  jb_owner :: string
  jb_project :: string
  jb_spec :: string

record GoalDB =
  goals :: "GoalRow list"
  replan_requests :: "ReplanRow list"
  goal_evidence :: "EvidenceRow list"
  plan_fingerprints :: "PlanFingerprintRow list"
  replan_history :: "HistoryRow list"
  governance_decisions :: "DecisionRow list"
  goal_usage :: "UsageRow list"
  budget_policy :: "PolicyRow list"
  replan_permissions :: "PermissionRow list"
  attempt_reservations :: "ReservationRow list"
  job_bindings :: "BindingRow list"
  goal_plans :: "PlanRow list"
  db_jobs :: "JobRow list"

definition empty_db :: GoalDB where
  "empty_db = \<lparr>goals = [], replan_requests = [], goal_evidence = [], plan_fingerprints = [],
     replan_history = [], governance_decisions = [], goal_usage = [], budget_policy = [],
     replan_permissions = [], attempt_reservations = [], job_bindings = [], goal_plans = [], db_jobs = []\<rparr>"

section \<open>Inserts with the constraints of the schema\<close>

definition goal_exists :: "GoalDB \<Rightarrow> string \<Rightarrow> bool" where
  "goal_exists db g \<longleftrightarrow> list_ex (\<lambda>r. gl_id r = g) (goals db)"

text \<open>The check constraints of \<open>goals\<close>.\<close>

definition goal_states :: "string list" where
  "goal_states = [''GOAL_CREATED'', ''PLANNING'', ''PLANNED'', ''GRAPH_READY'', ''RUNNING'', ''EVALUATING'',
     ''REPLAN_GUARDING'', ''REPLANNING'', ''NEEDS_APPROVAL'', ''SUCCEEDED'', ''FAILED'', ''CANCELED'']"

definition goal_check :: "GoalRow \<Rightarrow> bool" where
  "goal_check g \<longleftrightarrow> gl_state g \<in> set goal_states \<and> gl_active_plan_revision g \<ge> 1 \<and>
     gl_active_graph_generation g \<ge> 1 \<and> gl_max_replans g \<ge> 0 \<and> gl_max_total_attempts g \<ge> 1 \<and>
     gl_max_wall_time_ms g \<ge> 1 \<and> gl_consumed_replans g \<ge> 0 \<and> gl_consumed_attempts g \<ge> 0"

definition insert_goal :: "GoalRow \<Rightarrow> GoalDB \<Rightarrow> GoalDB result" where
  "insert_goal g db =
     (if \<not> goal_check g then Inl Sql_constraint
      else rbind (insert_row (\<lambda>r x. gl_id r = gl_id x) g (goals db)) (\<lambda>rows. Inr (db\<lparr>goals := rows\<rparr>)))"

definition insert_replan_request :: "ReplanRow \<Rightarrow> GoalDB \<Rightarrow> GoalDB result" where
  "insert_replan_request q db =
     (if \<not> goal_exists db (rq_goal q) \<or> rq_state q \<notin> {''PENDING'', ''ALLOWED'', ''REJECTED'', ''NEEDS_APPROVAL''}
      then Inl Sql_constraint
      else rbind (insert_row (\<lambda>r x. rq_id r = rq_id x \<or> rq_goal r = rq_goal x \<and> rq_evaluation r = rq_evaluation x)
                    q (replan_requests db)) (\<lambda>rows. Inr (db\<lparr>replan_requests := rows\<rparr>)))"

definition insert_evidence :: "EvidenceRow \<Rightarrow> GoalDB \<Rightarrow> GoalDB result" where
  "insert_evidence e db =
     (if \<not> goal_exists db (er_goal e) then Inl Sql_constraint
      else rbind (insert_row (\<lambda>r x. er_goal r = er_goal x \<and> er_fingerprint r = er_fingerprint x) e (goal_evidence db))
             (\<lambda>rows. Inr (db\<lparr>goal_evidence := rows\<rparr>)))"

definition insert_plan_fingerprint :: "PlanFingerprintRow \<Rightarrow> GoalDB \<Rightarrow> GoalDB result" where
  "insert_plan_fingerprint p db =
     (if \<not> goal_exists db (pf_goal p) then Inl Sql_constraint
      else rbind (insert_row (\<lambda>r x. pf_goal r = pf_goal x \<and>
                      (pf_revision r = pf_revision x \<or> pf_fingerprint r = pf_fingerprint x)) p (plan_fingerprints db))
             (\<lambda>rows. Inr (db\<lparr>plan_fingerprints := rows\<rparr>)))"

definition insert_history :: "HistoryRow \<Rightarrow> GoalDB \<Rightarrow> GoalDB result" where
  "insert_history h db =
     (if \<not> goal_exists db (rh_goal h) then Inl Sql_constraint
      else rbind (insert_row (\<lambda>r x. rh_goal r = rh_goal x \<and>
                      (rh_ordinal r = rh_ordinal x \<or> rh_evaluation r = rh_evaluation x)) h (replan_history db))
             (\<lambda>rows. Inr (db\<lparr>replan_history := rows\<rparr>)))"

definition insert_decision :: "DecisionRow \<Rightarrow> GoalDB \<Rightarrow> GoalDB result" where
  "insert_decision d db =
     (if \<not> goal_exists db (gd_goal d) then Inl Sql_constraint
      else rbind (insert_row (\<lambda>r x. gd_goal r = gd_goal x \<and> gd_operation r = gd_operation x) d (governance_decisions db))
             (\<lambda>rows. Inr (db\<lparr>governance_decisions := rows\<rparr>)))"

definition insert_permission :: "PermissionRow \<Rightarrow> GoalDB \<Rightarrow> GoalDB result" where
  "insert_permission p db =
     (if \<not> goal_exists db (rp_goal p) \<or>
         \<not> list_ex (\<lambda>d. gd_goal d = rp_goal p \<and> gd_operation d = rp_operation p) (governance_decisions db)
      then Inl Sql_constraint
      else rbind (insert_row (\<lambda>r x. rp_goal r = rp_goal x \<and> rp_operation r = rp_operation x) p (replan_permissions db))
             (\<lambda>rows. Inr (db\<lparr>replan_permissions := rows\<rparr>)))"

text \<open>\<open>goal_usage.attempt_id\<close> references \<open>attempts\<close>; so does the reservation the caller has just found.\<close>

definition insert_usage :: "UsageRow \<Rightarrow> GoalDB \<Rightarrow> GoalDB result" where
  "insert_usage u db =
     (if \<not> goal_exists db (us_goal u) \<or> (case us_tokens u of Some t \<Rightarrow> t < 0 | None \<Rightarrow> False) \<or>
         (case us_cost u of Some c \<Rightarrow> c < 0 | None \<Rightarrow> False) \<or> us_complete u \<and> (us_tokens u = None \<or> us_cost u = None)
      then Inl Sql_constraint
      else rbind (insert_row (\<lambda>r x. us_goal r = us_goal x \<and> us_id r = us_id x \<or> us_attempt r = us_attempt x)
                    u (goal_usage db)) (\<lambda>rows. Inr (db\<lparr>goal_usage := rows\<rparr>)))"

definition insert_binding :: "BindingRow \<Rightarrow> GoalDB \<Rightarrow> GoalDB result" where
  "insert_binding b db =
     (if \<not> goal_exists db (bd_goal b) \<or> \<not> list_ex (\<lambda>j. jb_id j = bd_job b) (db_jobs db) \<or>
         bd_revision b < 1 \<or> bd_generation b < 1
      then Inl Sql_constraint
      else rbind (insert_row (\<lambda>r x. bd_job r = bd_job x \<or> bd_goal r = bd_goal x \<and>
                      (bd_revision r = bd_revision x \<or> bd_generation r = bd_generation x)) b (job_bindings db))
             (\<lambda>rows. Inr (db\<lparr>job_bindings := rows\<rparr>)))"

definition insert_plan :: "PlanRow \<Rightarrow> GoalDB \<Rightarrow> GoalDB result" where
  "insert_plan p db =
     (if \<not> goal_exists db (pl_goal p) \<or> \<not> list_ex (\<lambda>j. jb_id j = pl_job p) (db_jobs db)
      then Inl Sql_constraint
      else rbind (insert_row (\<lambda>r x. pl_goal r = pl_goal x \<and> pl_revision r = pl_revision x) p (goal_plans db))
             (\<lambda>rows. Inr (db\<lparr>goal_plans := rows\<rparr>)))"

definition insert_reservation :: "ReservationRow \<Rightarrow> GoalDB \<Rightarrow> GoalDB result" where
  "insert_reservation r db =
     (if \<not> goal_exists db (rs_goal r) then Inl Sql_constraint
      else rbind (insert_row (\<lambda>r x. rs_attempt r = rs_attempt x) r (attempt_reservations db))
             (\<lambda>rows. Inr (db\<lparr>attempt_reservations := rows\<rparr>)))"

lemmas insert_defs = insert_goal_def insert_replan_request_def insert_evidence_def
  insert_plan_fingerprint_def insert_history_def insert_decision_def insert_permission_def
  insert_usage_def insert_binding_def insert_plan_def insert_reservation_def

section \<open>The discipline of the goal table\<close>

text \<open>The check constraints hold, the counters of a goal stay inside its budget, and both fencing numbers
  count the replans. The updates below write such rows only, so no check constraint can refuse them.\<close>

definition goal_row_ok :: "GoalRow \<Rightarrow> bool" where
  "goal_row_ok g \<longleftrightarrow> goal_check g \<and>
     0 \<le> gl_consumed_replans g \<and> gl_consumed_replans g \<le> gl_max_replans g \<and>
     0 \<le> gl_consumed_attempts g \<and> gl_consumed_attempts g \<le> gl_max_total_attempts g \<and>
     gl_active_plan_revision g = gl_consumed_replans g + 1 \<and>
     gl_active_graph_generation g = gl_consumed_replans g + 1"

definition goals_ok :: "GoalDB \<Rightarrow> bool" where
  "goals_ok db \<longleftrightarrow> distinct (map gl_id (goals db)) \<and> list_all goal_row_ok (goals db)"

lemma goals_ok_insert:
  "goals_ok db \<Longrightarrow> insert_goal g db = Inr db' \<Longrightarrow> goal_row_ok g \<Longrightarrow> goals_ok db'"
  by (auto simp: insert_goal_def goals_ok_def rbind_eq_Inr_iff insert_row_eq_Inr_iff split: if_splits)

lemma goals_ok_update:
  assumes "goals_ok db" "\<And>g. P g \<Longrightarrow> gl_id (f g) = gl_id g"
    and "\<And>g. g \<in> set (goals db) \<Longrightarrow> P g \<Longrightarrow> goal_row_ok g \<Longrightarrow> goal_row_ok (f g)"
  shows "goals_ok (db\<lparr>goals := update_where P f (goals db)\<rparr>)"
proof -
  have "map gl_id (update_where P f (goals db)) = map gl_id (goals db)"
    using assms(2) by (rule map_update_where)
  moreover have "list_all goal_row_ok (update_where P f (goals db))"
    using assms(1,3) by (auto simp: goals_ok_def list_all_iff in_update_where_iff)
  ultimately show ?thesis using assms(1) by (simp add: goals_ok_def)
qed

lemma goals_ok_cong: "goals db' = goals db \<Longrightarrow> goals_ok db' = goals_ok db"
  by (simp add: goals_ok_def)

lemma goals_unique:
  "goals_ok db \<Longrightarrow> g \<in> set (goals db) \<Longrightarrow> h \<in> set (goals db) \<Longrightarrow> gl_id g = gl_id h \<Longrightarrow> g = h"
  by (auto simp: goals_ok_def distinct_map dest: inj_onD)

text \<open>Inserts into the other tables leave the goals alone.\<close>

lemma insert_keeps_goals:
  "insert_replan_request q db = Inr db' \<Longrightarrow> goals db' = goals db"
  "insert_evidence e db = Inr db' \<Longrightarrow> goals db' = goals db"
  "insert_plan_fingerprint p db = Inr db' \<Longrightarrow> goals db' = goals db"
  "insert_history h db = Inr db' \<Longrightarrow> goals db' = goals db"
  "insert_decision d db = Inr db' \<Longrightarrow> goals db' = goals db"
  "insert_permission r db = Inr db' \<Longrightarrow> goals db' = goals db"
  "insert_usage u db = Inr db' \<Longrightarrow> goals db' = goals db"
  "insert_binding b db = Inr db' \<Longrightarrow> goals db' = goals db"
  "insert_plan pl db = Inr db' \<Longrightarrow> goals db' = goals db"
  "insert_reservation rs db = Inr db' \<Longrightarrow> goals db' = goals db"
  by (auto simp: insert_defs rbind_eq_Inr_iff split: if_splits)

end
