(* ===== verification/Job_Spec.thy ===== *)
theory Job_Spec
  imports Go_Digest
begin

text \<open>
  The Job contract of \<open>internal/job/spec.go\<close>: the request types, the lexical predicates on keys,
  references and paths, \<open>Execution.Validate\<close>, \<open>Spec.Validate\<close> with the normalisation it performs in
  place, and the derived views \<open>ExecutionFor\<close>, \<open>Executions\<close> and \<open>Task\<close>.

  Shown here: a valid path names only proper components below its root; \<open>InScope\<close> is containment of
  component lists; an accepted patch job gives no two partitions a common path; validation is
  idempotent and leaves partitions and scopes sorted; automatic retry is only accepted for replay
  safe executions.
\<close>

section \<open>Request types\<close>

record Input =
  in_Text :: string

record Workspace =
  ws_RepositoryRef :: string
  ws_BaseCommit :: string

record Execution =
  ex_Engine :: string
  ex_RuntimeProfile :: string
  ex_Model :: string
  ex_CredentialRef :: string
  ex_PolicyRef :: string
  ex_AcceptanceProfile :: string
  ex_ReplaySafe :: bool
  ex_Tools :: "string list"
  ex_Environment :: string

record Partition =
  pt_Key :: string
  pt_ScopePaths :: "string list"
  pt_Input :: Input
  pt_Execution :: Execution

record Map =
  mp_Parallelism :: int
  mp_Partitions :: "Partition list"

record Reduce =
  rd_Strategy :: string
  rd_Input :: Input
  rd_Execution :: Execution

record Limits =
  lm_TimeoutSeconds :: int
  lm_MaxAttemptsPerTask :: int
  lm_Priority :: int

record Spec =
  sp_SchemaVersion :: string
  sp_ProjectID :: string
  sp_Mode :: string
  sp_Workspace :: Workspace
  sp_Input :: Input
  sp_Execution :: "Execution option"
  sp_Map :: "Map option"
  sp_Reduce :: "Reduce option"
  sp_Limits :: Limits

record TaskSpec =
  ts_ProjectId :: string
  ts_IdempotencyKey :: string
  ts_Engine :: string
  ts_RuntimeProfile :: string
  ts_Model :: string
  ts_CredentialRef :: string
  ts_RepositoryRef :: string
  ts_BaseCommit :: string
  ts_IsolationProfile :: string
  ts_InputText :: string
  ts_PolicyRef :: string
  ts_AcceptanceProfile :: string
  ts_TimeoutSeconds :: int
  ts_Priority :: int
  ts_RequiredCapabilities :: "string list"

section \<open>Lexical predicates\<close>

definition toolNameRE :: "string \<Rightarrow> bool" where
  "toolNameRE s = name_pattern ''_.-'' s"

definition commitRE :: "string \<Rightarrow> bool" where
  "commitRE s \<longleftrightarrow> hex_string 40 s \<or> hex_string 64 s"

definition ValidHash :: "string \<Rightarrow> bool" where
  "ValidHash s = hex_string 64 s"

text \<open>The loop ranges over runes; every rune above 126 has a byte above 126 and conversely.\<close>

definition ValidKey :: "string \<Rightarrow> bool" where
  "ValidKey s \<longleftrightarrow> 1 \<le> length s \<and> length s \<le> 128 \<and> list_all (\<lambda>c. 33 \<le> byte c \<and> byte c \<le> 126) s"

definition ValidPath :: "string \<Rightarrow> bool" where
  "ValidPath p =
     (if length p = 0 \<or> length p > 1024 \<or> p = ''.'' \<or>
         contains_any p [CHR 0x5C, CHR 0x00, CHR 0x0D, CHR 0x0A] \<or> prefix [slash] p \<or> path_clean p \<noteq> p
      then False
      else list_all (\<lambda>s. \<not> (s = ''..'' \<or> equal_fold s ''.git'')) (split_on slash p))"

fun InScope :: "string \<Rightarrow> string list \<Rightarrow> bool" where
  "InScope p [] = False"
| "InScope p (s # scopes) = (if p = s \<or> prefix (s @ [slash]) p then True else InScope p scopes)"

definition Ref :: "string \<Rightarrow> bool" where
  "Ref s \<longleftrightarrow> length s > 0 \<and> length s \<le> 128 \<and>
     \<not> contains_any s [CHR 0x00, CHR 0x0D, CHR 0x0A] \<and> \<not> prefix ''-'' s"

definition LegacyRuntimeProfile :: "string \<Rightarrow> string" where
  "LegacyRuntimeProfile engine =
     (if engine = ''codex'' then ''codex_exec'' else if engine = ''claude'' then ''claude_print'' else [])"

definition TemplateKey :: "Execution \<Rightarrow> string" where
  "TemplateKey e = Hash (json_text (json_strs [ex_RuntimeProfile e, ex_PolicyRef e, ex_AcceptanceProfile e]))"

section \<open>Validation of one execution\<close>

text \<open>The loop over \<open>e.Tools\<close> with its \<open>seen\<close> set; the error names the tool it stops at.\<close>

fun tools_ok :: "string list \<Rightarrow> string list \<Rightarrow> unit result" where
  "tools_ok seen [] = Inr ()"
| "tools_ok seen (name # names) =
     (if \<not> toolNameRE name \<or> name \<in> set seen then Inl (Error (''invalid or duplicate tool: '' @ name))
      else tools_ok (name # seen) names)"

definition Execution_Validate :: "Execution \<Rightarrow> unit result" where
  "Execution_Validate e =
     (if \<not> Ref (ex_RuntimeProfile e) then Inl (Error ''runtime_profile required'')
      else if ex_Engine e \<noteq> [] \<and> LegacyRuntimeProfile (ex_Engine e) \<noteq> ex_RuntimeProfile e \<and>
              \<not> (ex_Engine e = ''claude'' \<and> ex_RuntimeProfile e = ''claude_http'')
      then Inl (Error ''unsupported engine/runtime'')
      else if \<not> list_all Ref [ex_Model e, ex_CredentialRef e, ex_PolicyRef e, ex_AcceptanceProfile e]
      then Inl (Error ''explicit model, credential, policy and acceptance references required'')
      else if length (ex_Tools e) > 16 then Inl (Error ''too many tools'')
      else rbind (tools_ok [] (ex_Tools e)) (\<lambda>_.
        if ex_Environment e \<noteq> [] \<and> \<not> toolNameRE (ex_Environment e)
        then Inl (Error (''invalid environment: '' @ ex_Environment e))
        else Inr ()))"

definition EnvironmentName :: "Execution \<Rightarrow> string" where
  "EnvironmentName e = (if ex_Environment e = [] then ''process'' else ex_Environment e)"

section \<open>Validation and normalisation of a Job\<close>

definition validInput :: "Input \<Rightarrow> bool" where
  "validInput i \<longleftrightarrow> 0 < length (in_Text i) \<and> length (in_Text i) \<le> 65536"

text \<open>\<open>Executions\<close> dereferences \<open>s.Map\<close> and \<open>s.Reduce\<close>: \<open>None\<close> is the nil-pointer panic.\<close>

definition Executions :: "Spec \<Rightarrow> Execution list option" where
  "Executions s =
     (case sp_Execution s of
        Some e \<Rightarrow> Some [e]
      | None \<Rightarrow> (case (sp_Map s, sp_Reduce s) of
                   (Some m, Some r) \<Rightarrow> Some (map pt_Execution (mp_Partitions m) @ [rd_Execution r])
                 | _ \<Rightarrow> None))"

definition overlap :: "string \<Rightarrow> string \<Rightarrow> bool" where
  "overlap v prev \<longleftrightarrow> InScope v [prev] \<or> InScope prev [v]"

text \<open>
  The inner loop over the sorted scope paths of one partition: \<open>prior\<close> is the preceding path,
  \<open>writeScopes\<close> the paths of the partitions before this one.
\<close>

fun scopes_ok :: "bool \<Rightarrow> string list \<Rightarrow> string option \<Rightarrow> string list \<Rightarrow> unit result" where
  "scopes_ok patch writeScopes prior [] = Inr ()"
| "scopes_ok patch writeScopes prior (v # vs) =
     (if \<not> ValidPath v \<or> prior = Some v then Inl (Error ''invalid or duplicate scope path'')
      else if patch \<and> list_ex (overlap v) writeScopes then Inl (Error ''overlapping patch scopes'')
      else scopes_ok patch writeScopes (Some v) vs)"

text \<open>The body of the loop over partitions: \<open>(seen, writeScopes, out)\<close> are its variables.\<close>

fun partition_step ::
  "bool \<Rightarrow> string list \<times> string list \<times> Partition list \<Rightarrow> Partition \<Rightarrow>
   (string list \<times> string list \<times> Partition list) result" where
  "partition_step patch (seen, writeScopes, out) p =
     (if \<not> key_pattern (pt_Key p) \<or> pt_Key p \<in> set seen \<or> \<not> validInput (pt_Input p)
      then Inl (Error ''invalid or duplicate partition'')
      else rbind (Execution_Validate (pt_Execution p)) (\<lambda>_.
        if length (pt_ScopePaths p) < 1 \<or> length (pt_ScopePaths p) > 64
        then Inl (Error ''scope paths required'')
        else let paths = sort (pt_ScopePaths p); p' = p\<lparr>pt_ScopePaths := paths\<rparr> in
          rbind (scopes_ok patch writeScopes None paths) (\<lambda>_.
            Inr (pt_Key p # seen,
                 if patch then writeScopes @ paths else writeScopes,
                 out @ [p']))))"

definition Spec_Validate :: "Spec \<Rightarrow> int \<Rightarrow> int \<Rightarrow> Spec result" where
  "Spec_Validate s maxParts maxParallel =
     (let l = sp_Limits s in
      if sp_SchemaVersion s \<noteq> ''v0.2'' \<or> \<not> Ref (sp_ProjectID s) \<or>
         \<not> Ref (ws_RepositoryRef (sp_Workspace s)) \<or> \<not> commitRE (ws_BaseCommit (sp_Workspace s))
      then Inl (Error ''version, project and fixed repository commit required'')
      else if lm_TimeoutSeconds l < 1 \<or> lm_TimeoutSeconds l > 86400 \<or> lm_MaxAttemptsPerTask l < 1 \<or>
              lm_MaxAttemptsPerTask l > 3 \<or> lm_Priority l < 0 \<or> lm_Priority l > 10
      then Inl (Error ''invalid deadline or max_attempts_per_task'')
      else if \<not> validInput (sp_Input s) then Inl (Error ''input must contain 1..65536 UTF-8 bytes'')
      else if sp_Mode s = ''single'' then
        (case sp_Execution s of
           None \<Rightarrow> Inl (Error ''single requires execution only'')
         | Some e \<Rightarrow>
             if sp_Map s \<noteq> None \<or> sp_Reduce s \<noteq> None then Inl (Error ''single requires execution only'')
             else rbind (Execution_Validate e) (\<lambda>_.
               if lm_MaxAttemptsPerTask l > 1 \<and> \<not> ex_ReplaySafe e
               then Inl (Error ''automatic retry requires replay_safe execution'')
               else Inr s))
      else
        (case (sp_Map s, sp_Reduce s) of
           (Some m, Some r) \<Rightarrow>
             if sp_Mode s \<noteq> ''map_reduce'' \<or> sp_Execution s \<noteq> None
             then Inl (Error ''map_reduce requires map and reduce'')
             else if mp_Parallelism m < 1 \<or> mp_Parallelism m > maxParallel \<or>
                     length (mp_Partitions m) < 1 \<or> int (length (mp_Partitions m)) > maxParts
             then Inl (Error ''partition or parallelism limit'')
             else if (rd_Strategy r \<noteq> ''report_merge_v1'' \<and> rd_Strategy r \<noteq> ''patch_merge_v1'') \<or>
                     \<not> validInput (rd_Input r)
             then Inl (Error ''invalid reduce strategy/input'')
             else rbind (Execution_Validate (rd_Execution r)) (\<lambda>_.
               rbind (fold_result (partition_step (rd_Strategy r = ''patch_merge_v1'')) ([], [], []) (mp_Partitions m))
                 (\<lambda>(_, _, parts).
                   let s' = s\<lparr>sp_Map := Some (m\<lparr>mp_Partitions := sort_key pt_Key parts\<rparr>)\<rparr> in
                   if lm_MaxAttemptsPerTask l > 1 \<and>
                      \<not> list_all ex_ReplaySafe (case Executions s' of Some es \<Rightarrow> es | None \<Rightarrow> [])
                   then Inl (Error ''automatic retry requires every execution to be replay_safe'')
                   else Inr s'))
         | _ \<Rightarrow> Inl (Error ''map_reduce requires map and reduce'')))"

section \<open>Derived views\<close>

definition ExecutionFor :: "Spec \<Rightarrow> string \<Rightarrow> string \<Rightarrow> Execution option" where
  "ExecutionFor s stage key =
     (case (stage = ''single'', sp_Execution s) of
        (True, Some e) \<Rightarrow> Some e
      | _ \<Rightarrow>
        (case (stage = ''reduce'', sp_Reduce s) of
           (True, Some r) \<Rightarrow> Some (rd_Execution r)
         | _ \<Rightarrow>
           (case (stage = ''map'', sp_Map s) of
              (True, Some m) \<Rightarrow> map_option pt_Execution (List.find (\<lambda>p. pt_Key p = key) (mp_Partitions m))
            | _ \<Rightarrow> None)))"

definition Task :: "Execution \<Rightarrow> Spec \<Rightarrow> string \<Rightarrow> string \<Rightarrow> TaskSpec" where
  "Task e s key text =
     \<lparr>ts_ProjectId = sp_ProjectID s, ts_IdempotencyKey = key, ts_Engine = ex_Engine e,
      ts_RuntimeProfile = ex_RuntimeProfile e, ts_Model = ex_Model e,
      ts_CredentialRef = ex_CredentialRef e,
      ts_RepositoryRef = ws_RepositoryRef (sp_Workspace s), ts_BaseCommit = ws_BaseCommit (sp_Workspace s),
      ts_IsolationProfile = ''trusted-worktree-process'', ts_InputText = text,
      ts_PolicyRef = ex_PolicyRef e, ts_AcceptanceProfile = ex_AcceptanceProfile e,
      ts_TimeoutSeconds = lm_TimeoutSeconds (sp_Limits s), ts_Priority = lm_Priority (sp_Limits s),
      ts_RequiredCapabilities =
        [''event_stream'', ''cancel'', ''job_io_v1''] @
        map (\<lambda>name. ''tool:'' @ name) (sort (ex_Tools e)) @
        [''environment:'' @ EnvironmentName e]\<rparr>"

section \<open>Paths and scopes\<close>

lemma join_with_Cons: "ws \<noteq> [] \<Longrightarrow> join_with sep (w # ws) = w @ sep # join_with sep ws"
  by (cases ws) (auto simp: join_with_def)

lemma join_with_single [simp]: "join_with sep [w] = w"
  by (simp add: join_with_def)

lemma join_with_append:
  "vs \<noteq> [] \<Longrightarrow> ws \<noteq> [] \<Longrightarrow> join_with sep (vs @ ws) = join_with sep vs @ sep # join_with sep ws"
proof (induction vs)
  case (Cons v vs)
  then show ?case by (cases "vs = []") (simp_all add: join_with_Cons)
qed simp

lemma split_on_no_occurrence: "sep \<notin> set w \<Longrightarrow> split_on sep w = [w]"
  by (induction w) auto

lemma split_join:
  assumes "ws \<noteq> []" "\<forall>w\<in>set ws. sep \<notin> set w"
  shows "split_on sep (join_with sep ws) = ws"
  using assms
proof (induction ws)
  case (Cons w ws)
  show ?case
  proof (cases "ws = []")
    case True
    with Cons.prems show ?thesis by (simp add: join_with_def split_on_no_occurrence)
  next
    case False
    with Cons show ?thesis
      by (simp add: join_with_Cons split_on_append_sep split_on_no_occurrence)
  qed
qed simp

lemma clean_elems_kept:
  assumes "list_all Q out" "Q ''..''" "\<And>w. w \<in> set ws \<Longrightarrow> w \<noteq> [] \<Longrightarrow> w \<noteq> ''.'' \<Longrightarrow> Q w"
  shows "list_all Q (clean_elems rooted out ws)"
  using assms
proof (induction ws arbitrary: out)
  case (Cons w ws)
  have step: "list_all Q (clean_elems rooted vs ws)" if "list_all Q vs" for vs
    using Cons.IH [OF that Cons.prems(2)] Cons.prems(3) by simp
  have w: "w \<noteq> [] \<Longrightarrow> w \<noteq> ''.'' \<Longrightarrow> Q w" using Cons.prems(3) by simp
  show ?case
  proof (cases out)
    case Nil
    with step w Cons.prems(1,2) show ?thesis by simp
  next
    case (Cons v vs)
    with step w \<open>list_all Q out\<close> \<open>Q ''..''\<close> show ?thesis by simp
  qed
qed simp


text \<open>A relative path that \<open>path.Clean\<close> leaves alone has no empty and no \<open>.\<close> element.\<close>

lemma path_clean_fixed_elems:
  assumes "path_clean p = p" "p \<noteq> []" "p \<noteq> ''.''" "\<not> prefix [slash] p"
  shows "\<forall>w\<in>set (split_on slash p). w \<noteq> [] \<and> w \<noteq> ''.''"
proof -
  let ?ws = "clean_elems False [] (split_on slash p)"
  have "hd p \<noteq> slash" using assms(2,4) by (cases p) auto
  with assms(1-3) have p: "p = join_with slash ?ws"
    by (auto simp: path_clean_def Let_def split: if_splits)
  have "?ws \<noteq> []" using p assms(2) by (auto simp: join_with_def)
  moreover have "list_all (\<lambda>w. slash \<notin> set w) ?ws"
    by (rule clean_elems_kept) (auto dest: split_on_no_sep)
  ultimately have "split_on slash p = ?ws"
    by (subst p) (rule split_join, simp_all add: list_all_iff)
  moreover have "list_all (\<lambda>w. w \<noteq> [] \<and> w \<noteq> ''.'') ?ws"
    by (rule clean_elems_kept) auto
  ultimately show ?thesis by (simp add: list_all_iff)
qed

lemma ValidPath_elems:
  assumes "ValidPath p" "w \<in> set (split_on slash p)"
  shows "w \<noteq> []" "w \<noteq> ''.''" "w \<noteq> ''..''" "\<not> equal_fold w ''.git''"
  using assms path_clean_fixed_elems [of p]
  by (auto simp: ValidPath_def list_all_iff split: if_splits)

text \<open>A path the contract accepts cannot leave the directory it is resolved in nor reach the
  repository's metadata: it is relative, and no component is empty, \<open>.\<close>, \<open>..\<close> or \<open>.git\<close> in any
  letter case.\<close>

theorem ValidPath_confined:
  assumes "ValidPath p"
  shows "\<not> prefix [slash] p \<and> length p \<le> 1024 \<and> join_with slash (split_on slash p) = p \<and>
    list_all (\<lambda>w. w \<noteq> [] \<and> w \<noteq> ''.'' \<and> w \<noteq> ''..'' \<and> \<not> equal_fold w ''.git'') (split_on slash p)"
  using assms ValidPath_elems [OF assms]
  by (auto simp: list_all_iff) (auto simp: ValidPath_def split: if_splits)

lemma ValidPath_confined_witness:
  "ValidPath ''docs/core'' \<and>
   list_all (\<lambda>w. w \<noteq> [] \<and> w \<noteq> ''.'' \<and> w \<noteq> ''..'' \<and> \<not> equal_fold w ''.git'') (split_on slash ''docs/core'')"
proof -
  have v: "ValidPath ''docs/core''" by code_simp
  with ValidPath_confined [OF v] show ?thesis by blast
qed

text \<open>Containment in a scope is containment of path components.\<close>

lemma InScope_single_iff: "InScope p [s] \<longleftrightarrow> prefix (split_on slash s) (split_on slash p)"
proof
  assume "InScope p [s]"
  then consider "p = s" | r where "p = s @ slash # r"
    by (auto simp: prefix_def split: if_splits)
  then show "prefix (split_on slash s) (split_on slash p)"
    by cases (auto simp: split_on_append_sep)
next
  assume "prefix (split_on slash s) (split_on slash p)"
  then obtain ws where ws: "split_on slash p = split_on slash s @ ws"
    by (auto simp: prefix_def)
  then have "p = join_with slash (split_on slash s @ ws)"
    by (metis join_split)
  then show "InScope p [s]"
    by (cases "ws = []") (auto simp: join_with_append)
qed

lemma InScope_iff: "InScope p scopes \<longleftrightarrow> (\<exists>s\<in>set scopes. InScope p [s])"
  by (induction scopes) auto

text \<open>\<open>InScope\<close> decides containment of paths component by component, although the code compares
  strings: a path is in scope exactly when the components of some scope path are a prefix of its own
  (so \<open>docs2/x\<close> is not in the scope \<open>docs\<close>).\<close>

theorem InScope_components:
  "InScope p scopes \<longleftrightarrow> (\<exists>s\<in>set scopes. prefix (split_on slash s) (split_on slash p))"
  by (subst InScope_iff) (simp only: InScope_single_iff)

lemma common_path_overlap:
  assumes "InScope p [a]" "InScope p [b]"
  shows "overlap a b"
  using prefix_same_cases [of "split_on slash a" "split_on slash p" "split_on slash b"] assms
  unfolding overlap_def by (simp only: InScope_single_iff) blast

lemma overlap_sym: "overlap a b \<Longrightarrow> overlap b a"
  unfolding overlap_def by blast

section \<open>The partition loop\<close>

lemma tools_ok_iff:
  "tools_ok seen names = Inr () \<longleftrightarrow> (\<forall>n\<in>set names. toolNameRE n) \<and> no_repeat seen names"
  by (induction seen names rule: tools_ok.induct) auto

lemma scopes_ok_iff:
  "scopes_ok patch ws prior vs = Inr () \<longleftrightarrow>
     (\<forall>v\<in>set vs. ValidPath v) \<and> successively (\<noteq>) ((case prior of None \<Rightarrow> [] | Some v \<Rightarrow> [v]) @ vs) \<and>
     (patch \<longrightarrow> (\<forall>v\<in>set vs. \<forall>w\<in>set ws. \<not> overlap v w))"
proof (induction patch ws prior vs rule: scopes_ok.induct)
  case (2 patch ws prior v vs)
  then show ?case by (cases prior) (auto simp: list_ex_iff)
qed (auto split: option.splits)

lemma sorted_successively_distinct: "sorted (vs :: 'a::linorder list) \<Longrightarrow> successively (\<noteq>) vs \<longleftrightarrow> distinct vs"
proof (induction vs)
  case (Cons v vs)
  then show ?case by (cases vs) (auto simp: order_le_less)
qed simp

definition partition_ok :: "Partition \<Rightarrow> bool" where
  "partition_ok p \<longleftrightarrow> key_pattern (pt_Key p) \<and> validInput (pt_Input p) \<and>
     Execution_Validate (pt_Execution p) = Inr () \<and> 1 \<le> length (pt_ScopePaths p) \<and>
     length (pt_ScopePaths p) \<le> 64 \<and> (\<forall>v\<in>set (pt_ScopePaths p). ValidPath v) \<and>
     distinct (pt_ScopePaths p)"

definition disjoint_from :: "Partition \<Rightarrow> Partition \<Rightarrow> bool" where
  "disjoint_from p q \<longleftrightarrow> (\<forall>v\<in>set (pt_ScopePaths p). \<forall>w\<in>set (pt_ScopePaths q). \<not> overlap v w)"

definition sort_scopes :: "Partition \<Rightarrow> Partition" where
  "sort_scopes p = p\<lparr>pt_ScopePaths := sort (pt_ScopePaths p)\<rparr>"

lemma sort_scopes_simps [simp]:
  "pt_Key (sort_scopes p) = pt_Key p" "pt_Input (sort_scopes p) = pt_Input p"
  "pt_Execution (sort_scopes p) = pt_Execution p"
  "set (pt_ScopePaths (sort_scopes p)) = set (pt_ScopePaths p)"
  "pt_ScopePaths (sort_scopes p) = sort (pt_ScopePaths p)"
  by (simp_all add: sort_scopes_def)

lemma partition_step_iff:
  "partition_step patch (seen, ws, out) p = Inr st \<longleftrightarrow>
     partition_ok p \<and> pt_Key p \<notin> set seen \<and>
     (patch \<longrightarrow> (\<forall>v\<in>set (pt_ScopePaths p). \<forall>w\<in>set ws. \<not> overlap v w)) \<and>
     st = (pt_Key p # seen, if patch then ws @ sort (pt_ScopePaths p) else ws, out @ [sort_scopes p])"
  by (cases "Execution_Validate (pt_Execution p)")
    (auto simp: partition_ok_def Let_def rbind_eq_Inr_iff scopes_ok_iff sorted_successively_distinct
      sort_scopes_def Suc_le_eq split: if_splits)

lemma partition_loop_iff:
  "fold_result (partition_step patch) (seen, ws, out) ps = Inr st \<longleftrightarrow>
     list_all partition_ok ps \<and> distinct (map pt_Key ps) \<and> set (map pt_Key ps) \<inter> set seen = {} \<and>
     (patch \<longrightarrow> sorted_wrt (\<lambda>p q. disjoint_from q p) ps \<and>
        (\<forall>p\<in>set ps. \<forall>v\<in>set (pt_ScopePaths p). \<forall>w\<in>set ws. \<not> overlap v w)) \<and>
     st = (rev (map pt_Key ps) @ seen,
           if patch then ws @ concat (map (sort \<circ> pt_ScopePaths) ps) else ws,
           out @ map sort_scopes ps)"
proof (induction ps arbitrary: seen ws out)
  case (Cons p ps)
  show ?case
    unfolding fold_result.simps rbind_eq_Inr_iff partition_step_iff
    by (auto simp: Cons.IH disjoint_from_def)
qed auto

lemma sorted_wrt_sym:
  assumes "\<And>x y. P x y \<Longrightarrow> P y x" "distinct xs"
  shows "sorted_wrt P xs \<longleftrightarrow> (\<forall>x\<in>set xs. \<forall>y\<in>set xs. x \<noteq> y \<longrightarrow> P x y)"
  using assms(2) by (induction xs) (auto intro: assms(1))

lemma disjoint_from_sym: "disjoint_from p q \<Longrightarrow> disjoint_from q p"
  unfolding disjoint_from_def by (blast dest: overlap_sym)

section \<open>Accepted Jobs\<close>

abbreviation patch_strategy :: "Reduce \<Rightarrow> bool" where
  "patch_strategy r \<equiv> rd_Strategy r = ''patch_merge_v1''"

text \<open>What an accepted map/reduce request satisfies, and the request it is turned into.\<close>

definition map_ok :: "Map \<Rightarrow> Reduce \<Rightarrow> bool" where
  "map_ok m r \<longleftrightarrow> list_all partition_ok (mp_Partitions m) \<and> distinct (map pt_Key (mp_Partitions m)) \<and>
     (patch_strategy r \<longrightarrow> sorted_wrt (\<lambda>p q. disjoint_from q p) (mp_Partitions m))"

definition normalise_map :: "Map \<Rightarrow> Map" where
  "normalise_map m = m\<lparr>mp_Partitions := sort_key pt_Key (map sort_scopes (mp_Partitions m))\<rparr>"

lemma mp_Partitions_normalise_map [simp]:
  "mp_Partitions (normalise_map m) = sort_key pt_Key (map sort_scopes (mp_Partitions m))"
  "mp_Parallelism (normalise_map m) = mp_Parallelism m"
  by (simp_all add: normalise_map_def)

lemma partition_loop_start:
  "fold_result (partition_step patch) ([], [], []) ps = Inr (a, b, c) \<longleftrightarrow>
     list_all partition_ok ps \<and> distinct (map pt_Key ps) \<and>
     (patch \<longrightarrow> sorted_wrt (\<lambda>p q. disjoint_from q p) ps) \<and>
     a = rev (map pt_Key ps) \<and> b = (if patch then concat (map (sort \<circ> pt_ScopePaths) ps) else []) \<and>
     c = map sort_scopes ps"
  by (auto simp: partition_loop_iff)

lemma Executions_normalise [simp]:
  "sp_Execution s = None \<Longrightarrow> sp_Reduce s = Some r \<Longrightarrow>
   Executions (s\<lparr>sp_Map := Some m\<rparr>) = Some (map pt_Execution (mp_Partitions m) @ [rd_Execution r])"
  by (simp add: Executions_def)

text \<open>The conditions on a request outside its executions, and those on the map/reduce part.\<close>

definition frame_ok :: "Spec \<Rightarrow> bool" where
  "frame_ok s \<longleftrightarrow> sp_SchemaVersion s = ''v0.2'' \<and> Ref (sp_ProjectID s) \<and>
     Ref (ws_RepositoryRef (sp_Workspace s)) \<and> commitRE (ws_BaseCommit (sp_Workspace s)) \<and>
     lm_TimeoutSeconds (sp_Limits s) \<in> {1..86400} \<and> lm_MaxAttemptsPerTask (sp_Limits s) \<in> {1..3} \<and>
     lm_Priority (sp_Limits s) \<in> {0..10} \<and> validInput (sp_Input s)"

definition replay_ok :: "Spec \<Rightarrow> Map \<Rightarrow> Reduce \<Rightarrow> bool" where
  "replay_ok s m r \<longleftrightarrow> (lm_MaxAttemptsPerTask (sp_Limits s) > 1 \<longrightarrow>
     list_all ex_ReplaySafe (map pt_Execution (mp_Partitions m)) \<and> ex_ReplaySafe (rd_Execution r))"

definition map_reduce_ok :: "Spec \<Rightarrow> Map \<Rightarrow> Reduce \<Rightarrow> int \<Rightarrow> int \<Rightarrow> bool" where
  "map_reduce_ok s m r maxParts maxParallel \<longleftrightarrow> mp_Parallelism m \<in> {1..maxParallel} \<and>
     int (length (mp_Partitions m)) \<in> {1..maxParts} \<and>
     rd_Strategy r \<in> {''report_merge_v1'', ''patch_merge_v1''} \<and> validInput (rd_Input r) \<and>
     Execution_Validate (rd_Execution r) = Inr () \<and> map_ok m r \<and> replay_ok s m r"

lemma Spec_Validate_frame:
  "Spec_Validate s maxParts maxParallel = Inr s' \<Longrightarrow> frame_ok s"
  unfolding Spec_Validate_def frame_ok_def Let_def by (simp split: if_split_asm)

lemma Spec_Validate_single_iff:
  assumes "frame_ok s" "sp_Mode s = ''single''"
  shows "Spec_Validate s maxParts maxParallel = Inr s' \<longleftrightarrow> s' = s \<and> sp_Map s = None \<and> sp_Reduce s = None \<and>
    (\<exists>e. sp_Execution s = Some e \<and> Execution_Validate e = Inr () \<and>
      (lm_MaxAttemptsPerTask (sp_Limits s) > 1 \<longrightarrow> ex_ReplaySafe e))"
  using assms unfolding Spec_Validate_def frame_ok_def Let_def
  by (cases "sp_Execution s") (auto simp: rbind_eq_Inr_iff)

text \<open>The branch of \<open>map_reduce\<close>, as one test.\<close>

lemma map_branch_iff:
  fixes m r s defines "patch \<equiv> patch_strategy r"
  assumes "sp_Execution s = None" "sp_Reduce s = Some r"
  shows "rbind (fold_result (partition_step patch) ([], [], []) (mp_Partitions m))
     (\<lambda>(_, _, parts).
       let s' = s\<lparr>sp_Map := Some (m\<lparr>mp_Partitions := sort_key pt_Key parts\<rparr>)\<rparr> in
       if lm_MaxAttemptsPerTask (sp_Limits s) > 1 \<and>
          \<not> list_all ex_ReplaySafe (case Executions s' of Some es \<Rightarrow> es | None \<Rightarrow> [])
       then Inl (Error ''automatic retry requires every execution to be replay_safe'')
       else Inr s') = Inr s' \<longleftrightarrow>
   map_ok m r \<and> replay_ok s m r \<and> s' = s\<lparr>sp_Map := Some (normalise_map m)\<rparr>"
proof -
  have "list_all ex_ReplaySafe (map pt_Execution (sort_key pt_Key (map sort_scopes (mp_Partitions m)))) \<longleftrightarrow>
    list_all ex_ReplaySafe (map pt_Execution (mp_Partitions m))"
    by (simp add: list_all_iff)
  then show ?thesis
    using assms(2,3)
    by (auto simp: rbind_eq_Inr_iff partition_loop_start patch_def Let_def map_ok_def replay_ok_def
        normalise_map_def split: if_split_asm)
qed

lemma Spec_Validate_map_iff:
  assumes "frame_ok s" "sp_Mode s \<noteq> ''single''"
  shows "Spec_Validate s maxParts maxParallel = Inr s' \<longleftrightarrow>
    sp_Mode s = ''map_reduce'' \<and> sp_Execution s = None \<and>
    (\<exists>m r. sp_Map s = Some m \<and> sp_Reduce s = Some r \<and> map_reduce_ok s m r maxParts maxParallel \<and>
       s' = s\<lparr>sp_Map := Some (normalise_map m)\<rparr>)"
proof (cases "sp_Map s = None \<or> sp_Reduce s = None \<or> sp_Mode s \<noteq> ''map_reduce'' \<or> sp_Execution s \<noteq> None")
  case True
  with assms show ?thesis
    unfolding Spec_Validate_def Let_def frame_ok_def
    by (cases "sp_Map s"; cases "sp_Reduce s") simp_all
next
  case False
  then obtain m r where mr: "sp_Map s = Some m" "sp_Reduce s = Some r" "sp_Mode s = ''map_reduce''"
    "sp_Execution s = None" by auto
  show ?thesis
    using assms mr map_branch_iff [OF mr(4,2)]
    unfolding Spec_Validate_def Let_def frame_ok_def
    by (cases "Execution_Validate (rd_Execution r)") (auto simp: map_reduce_ok_def Suc_le_eq)
qed

lemma Spec_Validate_single:
  assumes "Spec_Validate s maxParts maxParallel = Inr s'" "sp_Mode s = ''single''"
  shows "s' = s \<and> (\<exists>e. sp_Execution s = Some e \<and> sp_Map s = None \<and> sp_Reduce s = None \<and>
    (lm_MaxAttemptsPerTask (sp_Limits s) > 1 \<longrightarrow> ex_ReplaySafe e))"
  using assms Spec_Validate_single_iff [OF Spec_Validate_frame [OF assms(1)] assms(2)] by blast

lemma Spec_Validate_map:
  assumes "Spec_Validate s maxParts maxParallel = Inr s'" "sp_Mode s \<noteq> ''single''"
  obtains m r where "sp_Map s = Some m" "sp_Reduce s = Some r" "sp_Execution s = None"
    "s' = s\<lparr>sp_Map := Some (normalise_map m)\<rparr>" "map_ok m r" "replay_ok s m r"
  using assms Spec_Validate_map_iff [OF Spec_Validate_frame [OF assms(1)] assms(2)] that
  unfolding map_reduce_ok_def by blast

lemma disjoint_sort_scopes [simp]:
  "disjoint_from (sort_scopes p) (sort_scopes q) = disjoint_from p q"
  by (simp add: disjoint_from_def)

lemma partition_ok_sort_scopes [simp]: "partition_ok (sort_scopes p) = partition_ok p"
  by (simp add: partition_ok_def)

lemma sort_scopes_idem [simp]: "sort_scopes (sort_scopes p) = sort_scopes p"
  by (simp add: sort_scopes_def sorted_sort_id)

lemma map_ok_normalise: "map_ok m r \<Longrightarrow> map_ok (normalise_map m) r"
proof -
  assume ok: "map_ok m r"
  let ?ps = "mp_Partitions m" and ?qs = "map sort_scopes (mp_Partitions m)"
  have keys: "map pt_Key ?qs = map pt_Key ?ps" by simp
  have dist: "distinct (map pt_Key ?qs)"
    using ok by (simp only: keys map_ok_def)
  then have d: "distinct ?qs" by (rule distinct_map [THEN iffD1, THEN conjunct1])
  have "sorted_wrt (\<lambda>p q. disjoint_from q p) (sort_key pt_Key ?qs)" if "patch_strategy r"
  proof -
    from that ok have "sorted_wrt (\<lambda>p q. disjoint_from q p) ?ps" by (simp add: map_ok_def)
    then have "sorted_wrt (\<lambda>p q. disjoint_from q p) ?qs" by (simp add: sorted_wrt_map)
    then show ?thesis
      using d by (simp add: sorted_wrt_sym disjoint_from_sym)
  qed
  moreover have "distinct (map pt_Key (sort_key pt_Key ?qs))"
    using dist by (metis mset_map mset_sort mset_eq_imp_distinct_iff)
  moreover have "list_all partition_ok (sort_key pt_Key ?qs)"
    using ok by (simp add: map_ok_def list_all_iff)
  ultimately show ?thesis by (simp add: map_ok_def)
qed

lemma sort_key_map_sort_scopes:
  "map sort_scopes (sort_key pt_Key (map sort_scopes ps)) = sort_key pt_Key (map sort_scopes ps)"
  by (rule map_idI) auto

lemma normalise_map_idem [simp]: "normalise_map (normalise_map m) = normalise_map m"
  by (simp add: normalise_map_def sort_key_map_sort_scopes sorted_sort_id sort_key_id_if_sorted)

text \<open>C4: an accepted patch job isolates its partitions: whatever the partitions are and in whatever
  order they were given, no file lies in the write scopes of two different partitions.\<close>

theorem patch_scopes_disjoint:
  assumes "Spec_Validate s maxParts maxParallel = Inr s'"
    and "sp_Map s' = Some m" and "sp_Reduce s' = Some r" and "patch_strategy r"
    and "p \<in> set (mp_Partitions m)" and "q \<in> set (mp_Partitions m)" and "p \<noteq> q"
  shows "\<not> (InScope f (pt_ScopePaths p) \<and> InScope f (pt_ScopePaths q))"
proof -
  have "sp_Mode s \<noteq> ''single''"
    using Spec_Validate_single [OF assms(1)] assms(2) by auto
  then obtain m0 r0 where v: "sp_Reduce s = Some r0"
    "s' = s\<lparr>sp_Map := Some (normalise_map m0)\<rparr>" "map_ok m0 r0"
    by (rule Spec_Validate_map [OF assms(1)])
  with assms(2-4) have ok: "map_ok m r" by (auto intro: map_ok_normalise)
  then have "distinct (mp_Partitions m)"
    by (auto simp: map_ok_def distinct_map)
  then have "disjoint_from p q"
    using ok assms(4-7) sorted_wrt_sym [of "\<lambda>p q. disjoint_from q p" "mp_Partitions m"]
    by (simp add: map_ok_def disjoint_from_sym)
  then show ?thesis
    unfolding disjoint_from_def by (subst (1 2) InScope_iff) (blast dest: common_path_overlap)
qed

text \<open>C22: validation normalises in place and its result is a fixed point: an accepted request, validated
  again, is accepted and comes back unchanged.\<close>

theorem Spec_Validate_idempotent:
  assumes "Spec_Validate s maxParts maxParallel = Inr s'"
  shows "Spec_Validate s' maxParts maxParallel = Inr s'"
proof (cases "sp_Mode s = ''single''")
  case True
  with Spec_Validate_single [OF assms] assms show ?thesis by simp
next
  case False
  have f: "frame_ok s" using assms by (rule Spec_Validate_frame)
  with False assms obtain m r where v: "sp_Mode s = ''map_reduce''" "sp_Map s = Some m" "sp_Reduce s = Some r"
    "sp_Execution s = None" "s' = s\<lparr>sp_Map := Some (normalise_map m)\<rparr>"
    "map_reduce_ok s m r maxParts maxParallel"
    by (auto simp: Spec_Validate_map_iff)
  have "frame_ok s'" using f v(5) by (simp add: frame_ok_def)
  moreover have "map_reduce_ok s' (normalise_map m) r maxParts maxParallel"
    using v(5,6) map_ok_normalise [of m r] by (simp add: map_reduce_ok_def replay_ok_def list_all_iff)
  ultimately show ?thesis
    using v by (simp add: Spec_Validate_map_iff)
qed

lemma ExecutionFor_single:
  "sp_Execution s = Some e \<Longrightarrow> sp_Map s = None \<Longrightarrow> sp_Reduce s = None \<Longrightarrow>
   ExecutionFor s stage key = (if stage = ''single'' then Some e else None)"
  by (auto simp: ExecutionFor_def split: bool.splits)

lemma ExecutionFor_map:
  assumes "sp_Execution s = None" "sp_Map s = Some m" "sp_Reduce s = Some r"
  shows "ExecutionFor s stage key =
    (if stage = ''reduce'' then Some (rd_Execution r)
     else if stage = ''map'' then map_option pt_Execution (List.find (\<lambda>p. pt_Key p = key) (mp_Partitions m))
     else None)"
  using assms by (auto simp: ExecutionFor_def split: bool.splits)

lemma find_key_distinct:
  assumes "distinct (map f xs)" "x \<in> set xs"
  shows "List.find (\<lambda>y. f y = f x) xs = Some x"
  using assms by (induction xs) (auto simp: image_iff)

text \<open>After validation \<open>Executions\<close> does not panic and lists exactly the executions that
  \<open>ExecutionFor\<close> finds for some stage and partition key; with more than one attempt per task every
  one of them is replay safe.\<close>

theorem ExecutionFor_enumerates:
  assumes "Spec_Validate s maxParts maxParallel = Inr s'"
  shows "\<exists>es. Executions s' = Some es \<and>
     (\<forall>e. e \<in> set es \<longleftrightarrow> (\<exists>stage key. ExecutionFor s' stage key = Some e)) \<and>
     (lm_MaxAttemptsPerTask (sp_Limits s') > 1 \<longrightarrow> list_all ex_ReplaySafe es)"
proof (cases "sp_Mode s = ''single''")
  case True
  with Spec_Validate_single [OF assms] show ?thesis
    by (auto simp: Executions_def ExecutionFor_single)
next
  case False
  then obtain m r where v: "sp_Map s = Some m" "sp_Reduce s = Some r" "sp_Execution s = None"
    "s' = s\<lparr>sp_Map := Some (normalise_map m)\<rparr>" "map_ok m r" "replay_ok s m r"
    by (rule Spec_Validate_map [OF assms])
  let ?ps = "mp_Partitions (normalise_map m)"
  let ?es = "map pt_Execution ?ps @ [rd_Execution r]"
  have for_s': "ExecutionFor s' stage key =
    (if stage = ''reduce'' then Some (rd_Execution r)
     else if stage = ''map'' then map_option pt_Execution (List.find (\<lambda>p. pt_Key p = key) ?ps)
     else None)" for stage key
    by (rule ExecutionFor_map) (simp_all add: v)
  have dist: "distinct (map pt_Key ?ps)"
    using map_ok_normalise [OF v(5)] by (simp add: map_ok_def)
  have "e \<in> set ?es \<longleftrightarrow> (\<exists>stage key. ExecutionFor s' stage key = Some e)" for e
  proof
    assume "e \<in> set ?es"
    then consider p where "p \<in> set ?ps" "e = pt_Execution p" | "e = rd_Execution r"
      by (auto simp del: mp_Partitions_normalise_map)
    then show "\<exists>stage key. ExecutionFor s' stage key = Some e"
    proof cases
      case (1 p)
      then have "ExecutionFor s' ''map'' (pt_Key p) = Some e"
        using find_key_distinct [OF dist 1(1)] by (simp add: for_s' del: mp_Partitions_normalise_map)
      then show ?thesis by blast
    next
      case 2
      then have "ExecutionFor s' ''reduce'' [] = Some e" by (simp add: for_s')
      then show ?thesis by blast
    qed
  next
    assume "\<exists>stage key. ExecutionFor s' stage key = Some e"
    then show "e \<in> set ?es"
      by (auto simp: for_s' simp del: mp_Partitions_normalise_map
          dest!: find_Some_iff_in split: if_splits)
  qed
  moreover have "Executions s' = Some ?es" using v by simp
  moreover have "lm_MaxAttemptsPerTask (sp_Limits s') > 1 \<longrightarrow> list_all ex_ReplaySafe ?es"
    using v(4,6) by (simp add: list_all_iff replay_ok_def)
  ultimately show ?thesis by blast
qed

definition example_execution :: Execution where
  "example_execution =
     \<lparr>ex_Engine = ''codex'', ex_RuntimeProfile = ''codex_exec'', ex_Model = ''m1'', ex_CredentialRef = ''c1'',
      ex_PolicyRef = ''p1'', ex_AcceptanceProfile = ''a1'', ex_ReplaySafe = True, ex_Tools = [''git''],
      ex_Environment = []\<rparr>"

definition example_patch_job :: Spec where
  "example_patch_job =
     \<lparr>sp_SchemaVersion = ''v0.2'', sp_ProjectID = ''demo'', sp_Mode = ''map_reduce'',
      sp_Workspace = \<lparr>ws_RepositoryRef = ''repo'', ws_BaseCommit = replicate 40 (CHR ''a'')\<rparr>,
      sp_Input = \<lparr>in_Text = ''go''\<rparr>, sp_Execution = None,
      sp_Map = Some \<lparr>mp_Parallelism = 2, mp_Partitions =
        [\<lparr>pt_Key = ''ui'', pt_ScopePaths = [''web'', ''docs/ui''], pt_Input = \<lparr>in_Text = ''x''\<rparr>,
          pt_Execution = example_execution\<rparr>,
         \<lparr>pt_Key = ''core'', pt_ScopePaths = [''docs/core''], pt_Input = \<lparr>in_Text = ''y''\<rparr>,
          pt_Execution = example_execution\<rparr>]\<rparr>,
      sp_Reduce = Some \<lparr>rd_Strategy = ''patch_merge_v1'', rd_Input = \<lparr>in_Text = ''z''\<rparr>,
        rd_Execution = example_execution\<rparr>,
      sp_Limits = \<lparr>lm_TimeoutSeconds = 60, lm_MaxAttemptsPerTask = 2, lm_Priority = 0\<rparr>\<rparr>"

lemma example_execution_ok: "Execution_Validate example_execution = Inr ()"
  by code_simp

lemma example_paths_ok: "ValidPath ''web''" "ValidPath ''docs/ui''" "ValidPath ''docs/core''"
  by code_simp+

lemma example_keys_ok: "key_pattern ''ui''" "key_pattern ''core''"
  by code_simp+

lemma example_map_reduce_ok:
  "map_reduce_ok example_patch_job (the (sp_Map example_patch_job)) (the (sp_Reduce example_patch_job)) 8 8"
  by (simp add: map_reduce_ok_def map_ok_def replay_ok_def partition_ok_def disjoint_from_def overlap_def
      example_patch_job_def example_execution_ok example_paths_ok example_keys_ok validInput_def)
    (simp add: example_execution_def)

lemma example_frame_ok: "frame_ok example_patch_job"
proof -
  have "Ref ''demo''" "Ref ''repo''" "commitRE (replicate 40 (CHR ''a''))" by code_simp+
  then show ?thesis by (simp add: frame_ok_def example_patch_job_def validInput_def)
qed

lemma example_accepted:
  "Spec_Validate example_patch_job 8 8 =
     Inr (example_patch_job\<lparr>sp_Map := Some (normalise_map (the (sp_Map example_patch_job)))\<rparr>)"
  using example_map_reduce_ok example_frame_ok
  by (subst Spec_Validate_map_iff) (simp_all add: example_patch_job_def)

section \<open>Applications to the example request\<close>

abbreviation "example_normalised \<equiv>
  example_patch_job\<lparr>sp_Map := Some (normalise_map (the (sp_Map example_patch_job)))\<rparr>"

abbreviation "example_ui \<equiv>
  \<lparr>pt_Key = ''ui'', pt_ScopePaths = [''docs/ui'', ''web''], pt_Input = \<lparr>in_Text = ''x''\<rparr>,
   pt_Execution = example_execution\<rparr>"

abbreviation "example_core \<equiv>
  \<lparr>pt_Key = ''core'', pt_ScopePaths = [''docs/core''], pt_Input = \<lparr>in_Text = ''y''\<rparr>,
   pt_Execution = example_execution\<rparr>"

lemma example_sorted:
  "mp_Partitions (normalise_map (the (sp_Map example_patch_job))) = [example_core, example_ui]"
proof -
  have "sort [''web'', ''docs/ui''] = [''docs/ui'', ''web'']" "''core'' \<le> ''ui''" "\<not> ''ui'' \<le> ''core''"
    by code_simp+
  then show ?thesis
    by (simp add: example_patch_job_def normalise_map_def sort_scopes_def sort_key_def)
qed

lemma patch_scopes_disjoint_witness:
  "Spec_Validate example_patch_job 8 8 = Inr example_normalised \<and>
   InScope ''web/x'' (pt_ScopePaths example_ui) \<and> \<not> InScope ''web/x'' (pt_ScopePaths example_core)"
proof -
  have r: "sp_Reduce example_normalised = Some (the (sp_Reduce example_patch_job))"
    "patch_strategy (the (sp_Reduce example_patch_job))" by (simp_all add: example_patch_job_def)
  have ps: "example_ui \<in> set (mp_Partitions (normalise_map (the (sp_Map example_patch_job))))"
    "example_core \<in> set (mp_Partitions (normalise_map (the (sp_Map example_patch_job))))"
    by (simp_all only: example_sorted) simp_all
  have i: "InScope ''web/x'' (pt_ScopePaths example_ui)" by simp
  with patch_scopes_disjoint [OF example_accepted _ r ps, of "''web/x''"] example_accepted
  show ?thesis by simp
qed

lemma Spec_Validate_idempotent_witness:
  "Spec_Validate example_patch_job 8 8 = Inr example_normalised \<and>
   Spec_Validate example_normalised 8 8 = Inr example_normalised"
  using example_accepted Spec_Validate_idempotent [OF example_accepted] by blast

lemma ExecutionFor_enumerates_witness:
  "\<exists>es. Executions example_normalised = Some es \<and>
     (\<forall>e. e \<in> set es \<longleftrightarrow> (\<exists>stage key. ExecutionFor example_normalised stage key = Some e)) \<and>
     list_all ex_ReplaySafe es"
proof -
  have "lm_MaxAttemptsPerTask (sp_Limits example_normalised) > 1" by (simp add: example_patch_job_def)
  with ExecutionFor_enumerates [OF example_accepted] show ?thesis by blast
qed

end
