(* ===== verification/Governance.thy ===== *)
theory Governance
  imports Goal_Store Job_Spec
begin

text \<open>
  Human decisions and usage accounting: \<open>internal/governance/governance.go\<close> and \<open>budget.go\<close>.

  \<open>DecideTx\<close> is split along its blank lines: the checks of the request, the replay of a recorded
  operation, the checks against the goal, the effect of the action and the writes. \<open>store.Now\<close> is an
  argument at each place it is read.

  Shown here: a decision is applied once per operation id and replayed without effect; only an
  authorised human changes a goal; budgets only grow; a terminal goal is never changed; a permission is
  consumed at most once; remaining usage is exact and its sums never leave the 64-bit range.
\<close>

section \<open>Data\<close>

record Actor =
  ac_ID :: string
  ac_Kind :: string
  ac_Owner :: string
  ac_Projects :: "string list"
  ac_Scopes :: "string list"

record Change =
  ch_MaxAttempts :: "int option"
  ch_MaxReplans :: "int option"
  ch_MaxTokens :: "int option"
  ch_MaxCostUnits :: "int option"
  ch_Evidence :: string
  ch_Constraint :: string

record Request =
  gr_OperationID :: string
  gr_ExpectedVersion :: int
  gr_PlanRevision :: int
  gr_GraphGeneration :: int
  gr_Action :: string
  gr_Reason :: string
  gr_Change :: Change

record Receipt =
  rc_OperationID :: string
  rc_Action :: string
  rc_Actor :: string
  rc_Version :: int
  rc_Existing :: bool

record Usage =
  ug_ID :: string
  ug_AttemptID :: string
  ug_Source :: string
  ug_Tokens :: "int option"
  ug_CostUnits :: "int option"
  ug_Complete :: bool

record UsageBudget =
  ub_MaxTokens :: "int option"
  ub_MaxCostUnits :: "int option"
  ub_RemainingTokens :: "int option"
  ub_RemainingCostUnits :: "int option"

definition terminal :: "string \<Rightarrow> bool" where
  "terminal s \<longleftrightarrow> s = ''SUCCEEDED'' \<or> s = ''FAILED'' \<or> s = ''CANCELED''"

abbreviation fail :: "string \<Rightarrow> error" where
  "fail code \<equiv> Error code"

section \<open>Decisions\<close>

definition opt_int :: "string \<Rightarrow> int option \<Rightarrow> (string \<times> json) list" where
  "opt_int k v = (case v of None \<Rightarrow> [] | Some n \<Rightarrow> [(k, JInt n)])"

definition change_json :: "Change \<Rightarrow> json" where
  "change_json c =
     JObj (opt_int ''max_attempts'' (ch_MaxAttempts c) @ opt_int ''max_replans'' (ch_MaxReplans c) @
           opt_int ''max_tokens'' (ch_MaxTokens c) @ opt_int ''max_cost_units'' (ch_MaxCostUnits c) @
           opt_str ''evidence'' (ch_Evidence c) @ opt_str ''constraint'' (ch_Constraint c))"

definition request_json :: "Request \<Rightarrow> json" where
  "request_json r =
     JObj [(''operation_id'', JStr (gr_OperationID r)), (''expected_version'', JInt (gr_ExpectedVersion r)),
           (''plan_revision'', JInt (gr_PlanRevision r)), (''graph_generation'', JInt (gr_GraphGeneration r)),
           (''action'', JStr (gr_Action r)), (''reason'', JStr (gr_Reason r)),
           (''change'', change_json (gr_Change r))]"

definition decision_digest :: "Actor \<Rightarrow> Request \<Rightarrow> string" where
  "decision_digest a r =
     Hash (json_text (JObj [(''Actor'', JStr (ac_ID a)), (''Request'', request_json r)]))"

definition goal_actions :: "string list" where
  "goal_actions = [''APPROVE_NEXT_REPLAN'', ''INCREASE_BUDGET'', ''PROVIDE_EVIDENCE'', ''CHANGE_CONSTRAINT'',
     ''REJECT'', ''ABORT'']"

definition decide_request_ok :: "Actor \<Rightarrow> Request \<Rightarrow> unit result" where
  "decide_request_ok actor r =
     (if ac_Kind actor \<noteq> ''human'' \<or> trim_space (ac_ID actor) = [] \<or> ''goals:approve'' \<notin> set (ac_Scopes actor)
      then Inl (fail ''GOAL_APPROVAL_UNAUTHORIZED'')
      else if \<not> ValidKey (gr_OperationID r) \<or> trim_space (gr_Reason r) = [] \<or> length (gr_Reason r) > 2048 \<or>
              gr_ExpectedVersion r < 1 \<or> gr_PlanRevision r < 1 \<or> gr_GraphGeneration r < 1
      then Inl (fail ''INVALID_GOAL_DECISION'')
      else if length (ch_Evidence (gr_Change r)) > 4096 \<or> length (ch_Constraint (gr_Change r)) > 4096
      then Inl (fail ''INVALID_GOAL_CHANGE'')
      else if gr_Action r \<notin> set goal_actions then Inl (fail ''UNSUPPORTED_GOAL_ACTION'')
      else Inr ())"

definition changedBudget :: "Change \<Rightarrow> bool" where
  "changedBudget c \<longleftrightarrow> ch_MaxAttempts c \<noteq> None \<or> ch_MaxReplans c \<noteq> None \<or> ch_MaxTokens c \<noteq> None \<or>
     ch_MaxCostUnits c \<noteq> None"

definition decide_state_ok :: "GoalRow \<Rightarrow> Request \<Rightarrow> unit result" where
  "decide_state_ok g r =
     (if terminal (gl_state g) then Inl (fail ''GOAL_TERMINAL'')
      else if gl_version g \<noteq> gr_ExpectedVersion r \<or> gl_active_plan_revision g \<noteq> gr_PlanRevision r \<or>
              gl_active_graph_generation g \<noteq> gr_GraphGeneration r
      then Inl (fail ''STALE_GOAL_DECISION'')
      else if gr_Action r \<noteq> ''INCREASE_BUDGET'' \<and> gr_Action r \<noteq> ''ABORT'' \<and> gl_state g \<noteq> ''NEEDS_APPROVAL''
      then Inl (fail ''GOAL_APPROVAL_NOT_PENDING'')
      else if gr_Action r \<noteq> ''INCREASE_BUDGET'' \<and> changedBudget (gr_Change r)
      then Inl (fail ''UNEXPECTED_BUDGET_CHANGE'')
      else if gr_Action r \<noteq> ''PROVIDE_EVIDENCE'' \<and> ch_Evidence (gr_Change r) \<noteq> [] \<or>
              gr_Action r \<noteq> ''CHANGE_CONSTRAINT'' \<and> ch_Constraint (gr_Change r) \<noteq> []
      then Inl (fail ''UNEXPECTED_GOAL_CHANGE'')
      else Inr ())"

text \<open>A new limit on attempts or replans: unchanged when absent, larger than the old one when given.\<close>

definition raised :: "int option \<Rightarrow> int \<Rightarrow> int \<Rightarrow> int result" where
  "raised v old upper =
     (case v of
        None \<Rightarrow> Inr old
      | Some n \<Rightarrow> if n \<le> old \<or> n > upper then Inl (fail ''INVALID_BUDGET_INCREASE'') else Inr n)"

text \<open>One round of the loop over \<open>max_tokens\<close> and \<open>max_cost_units\<close>: \<open>col\<close> reads the column, \<open>put\<close> writes it.\<close>

definition raise_policy ::
  "(PolicyRow \<Rightarrow> int option) \<Rightarrow> (int \<Rightarrow> PolicyRow \<Rightarrow> PolicyRow) \<Rightarrow> string \<Rightarrow> int option \<Rightarrow> GoalDB \<Rightarrow> GoalDB result" where
  "raise_policy col put goalID v db =
     (case v of
        None \<Rightarrow> Inr db
      | Some n \<Rightarrow>
          if n < 1 \<or> n > 1000000000000 then Inl (fail ''INVALID_BUDGET_INCREASE'')
          else rbind (select_row (\<lambda>p. bp_goal p = goalID) (budget_policy db)) (\<lambda>old.
            if (case col old of Some o' \<Rightarrow> n \<le> o' | None \<Rightarrow> False) then Inl (fail ''INVALID_BUDGET_INCREASE'')
            else Inr (db\<lparr>budget_policy :=
                   update_where (\<lambda>p. bp_goal p = goalID) (put n) (budget_policy db)\<rparr>)))"

text \<open>\<open>INSERT ... ON CONFLICT DO NOTHING\<close>\<close>

definition ensure_policy :: "string \<Rightarrow> GoalDB \<Rightarrow> GoalDB" where
  "ensure_policy goalID db =
     (if list_ex (\<lambda>p. bp_goal p = goalID) (budget_policy db) then db
      else db\<lparr>budget_policy := budget_policy db @ [\<lparr>bp_goal = goalID, bp_max_tokens = None, bp_max_cost = None\<rparr>]\<rparr>)"

text \<open>The switch on the action: the new state, attempt and replan limits, and the policy rows.\<close>

definition decide_effect ::
  "Actor \<Rightarrow> string \<Rightarrow> Request \<Rightarrow> GoalRow \<Rightarrow> GoalDB \<Rightarrow> (string \<times> int \<times> int \<times> GoalDB) result" where
  "decide_effect actor goalID r g db =
     (let c = gr_Change r; a = gr_Action r; same = (gl_state g, gl_max_total_attempts g, gl_max_replans g, db) in
      if a = ''INCREASE_BUDGET'' then
        if ''goals:budget'' \<notin> set (ac_Scopes actor) \<or> \<not> changedBudget c
        then Inl (fail ''BUDGET_INCREASE_UNAUTHORIZED'')
        else rbind (raised (ch_MaxAttempts c) (gl_max_total_attempts g) 100000) (\<lambda>maxAttempts.
          rbind (raised (ch_MaxReplans c) (gl_max_replans g) 100) (\<lambda>maxReplans.
            rbind (raise_policy bp_max_tokens (\<lambda>n p. p\<lparr>bp_max_tokens := Some n\<rparr>) goalID (ch_MaxTokens c)
                     (ensure_policy goalID db)) (\<lambda>db1.
              rbind (raise_policy bp_max_cost (\<lambda>n p. p\<lparr>bp_max_cost := Some n\<rparr>) goalID (ch_MaxCostUnits c) db1)
                (\<lambda>db2. Inr (gl_state g, maxAttempts, maxReplans, db2)))))
      else if a = ''PROVIDE_EVIDENCE'' then
        (if trim_space (ch_Evidence c) = [] then Inl (fail ''EVIDENCE_REQUIRED'') else Inr same)
      else if a = ''CHANGE_CONSTRAINT'' then
        (if ''goals:constraints'' \<notin> set (ac_Scopes actor) \<or> trim_space (ch_Constraint c) = []
         then Inl (fail ''CONSTRAINT_CHANGE_UNAUTHORIZED'') else Inr same)
      else if a = ''REJECT'' then Inr (''FAILED'', gl_max_total_attempts g, gl_max_replans g, db)
      else if a = ''ABORT'' then Inr (''CANCELED'', gl_max_total_attempts g, gl_max_replans g, db)
      else Inr same)"

definition decide_write ::
  "Actor \<Rightarrow> string \<Rightarrow> Request \<Rightarrow> GoalRow \<Rightarrow> int \<Rightarrow> int \<Rightarrow> string \<times> int \<times> int \<times> GoalDB \<Rightarrow> (Receipt \<times> GoalDB) result" where
  "decide_write actor goalID r g now now' = (\<lambda>(state, maxAttempts, maxReplans, db).
     let version' = gl_version g + 1;
         db1 = db\<lparr>goals := update_where (\<lambda>x. gl_id x = goalID)
           (\<lambda>x. x\<lparr>gl_state := state, gl_version := version', gl_updated := now,
                  gl_max_total_attempts := maxAttempts, gl_max_replans := maxReplans\<rparr>) (goals db)\<rparr>;
         row = \<lparr>gd_goal = goalID, gd_operation = gr_OperationID r, gd_request_hash = decision_digest actor r,
                gd_actor = ac_ID actor, gd_action = gr_Action r, gd_reason = gr_Reason r,
                gd_expected_version = gl_version g, gd_plan_revision = gl_active_plan_revision g,
                gd_graph_generation = gl_active_graph_generation g,
                gd_change_json = json_text (change_json (gr_Change r)),
                gd_resulting_version = version', gd_created = now'\<rparr>;
         receipt = \<lparr>rc_OperationID = gr_OperationID r, rc_Action = gr_Action r, rc_Actor = ac_ID actor,
                    rc_Version = version', rc_Existing = False\<rparr>
     in rbind (insert_decision row db1) (\<lambda>db2.
          if gr_Action r = ''APPROVE_NEXT_REPLAN'' then
            rbind (insert_permission \<lparr>rp_goal = goalID, rp_operation = gr_OperationID r,
                     rp_revision = gl_active_plan_revision g, rp_generation = gl_active_graph_generation g,
                     rp_consumed = False\<rparr> db2) (\<lambda>db3. Inr (receipt, db3))
          else Inr (receipt, db2)))"

definition DecideTx :: "Actor \<Rightarrow> string \<Rightarrow> Request \<Rightarrow> int \<Rightarrow> int \<Rightarrow> (GoalDB, Receipt) tx" where
  "DecideTx actor goalID r now now' db =
     rbind (decide_request_ok actor r) (\<lambda>_.
     rbind (select_row (\<lambda>g. gl_id g = goalID) (goals db)) (\<lambda>g.
     rbind (fail_if (gl_owner g \<noteq> ac_Owner actor \<or> gl_project g \<notin> set (ac_Projects actor)) (fail ''GOAL_NOT_FOUND'')) (\<lambda>_.
     case List.find (\<lambda>d. gd_goal d = goalID \<and> gd_operation d = gr_OperationID r) (governance_decisions db) of
       Some d \<Rightarrow>
         if gd_request_hash d \<noteq> decision_digest actor r then Inl (fail ''IDEMPOTENCY_CONFLICT'')
         else Inr (\<lparr>rc_OperationID = gr_OperationID r, rc_Action = gr_Action r, rc_Actor = ac_ID actor,
                     rc_Version = gd_resulting_version d, rc_Existing = True\<rparr>, db)
     | None \<Rightarrow>
         rbind (decide_state_ok g r) (\<lambda>_.
         rbind (decide_effect actor goalID r g db) (decide_write actor goalID r g now now')))))"

section \<open>One-use permissions\<close>

definition permission_usable :: "GoalDB \<Rightarrow> string \<Rightarrow> string \<Rightarrow> int \<Rightarrow> int \<Rightarrow> PermissionRow \<Rightarrow> bool" where
  "permission_usable db goalID op revision generation p \<longleftrightarrow>
     rp_goal p = goalID \<and> rp_operation p = op \<and> rp_revision p = revision \<and> rp_generation p = generation \<and>
     \<not> rp_consumed p \<and>
     list_ex (\<lambda>g. gl_id g = rp_goal p \<and> gl_active_plan_revision g = rp_revision p \<and>
                 gl_active_graph_generation g = rp_generation p \<and> gl_state g = ''NEEDS_APPROVAL'') (goals db) \<and>
     list_ex (\<lambda>d. gd_goal d = rp_goal p \<and> gd_operation d = rp_operation p \<and>
                 gd_action d = ''APPROVE_NEXT_REPLAN'') (governance_decisions db)"

definition ConsumeReplanPermissionTx :: "string \<Rightarrow> string \<Rightarrow> int \<Rightarrow> int \<Rightarrow> GoalDB \<Rightarrow> GoalDB result" where
  "ConsumeReplanPermissionTx goalID op revision generation db =
     (if goalID = [] \<or> \<not> ValidKey op \<or> revision < 1 \<or> generation < 1
      then Inl (fail ''INVALID_REPLAN_PERMISSION'')
      else let usable = permission_usable db goalID op revision generation in
        if count_where usable (replan_permissions db) \<noteq> 1 then Inl (fail ''REPLAN_PERMISSION_UNAVAILABLE'')
        else Inr (db\<lparr>replan_permissions :=
               update_where usable (\<lambda>p. p\<lparr>rp_consumed := True\<rparr>) (replan_permissions db)\<rparr>))"

section \<open>Usage\<close>

definition usage_json :: "Usage \<Rightarrow> json" where
  "usage_json u =
     (let num = (\<lambda>v. case v of None \<Rightarrow> JNull | Some n \<Rightarrow> JInt n) in
      JObj [(''ID'', JStr (ug_ID u)), (''AttemptID'', JStr (ug_AttemptID u)), (''Source'', JStr (ug_Source u)),
            (''Tokens'', num (ug_Tokens u)), (''CostUnits'', num (ug_CostUnits u)),
            (''Complete'', JBool (ug_Complete u))])"

definition usage_range :: "int option \<Rightarrow> bool" where
  "usage_range v = (case v of None \<Rightarrow> True | Some n \<Rightarrow> 0 \<le> n \<and> n \<le> 2000000000000000)"

definition RecordUsageTx :: "string \<Rightarrow> Usage \<Rightarrow> int \<Rightarrow> GoalDB \<Rightarrow> GoalDB result" where
  "RecordUsageTx goalID u now db =
     (if \<not> ValidKey (ug_ID u) \<or> ug_AttemptID u = [] \<or> trim_space (ug_Source u) = [] \<or> length (ug_Source u) > 128 \<or>
         ug_Complete u \<and> (ug_Tokens u = None \<or> ug_CostUnits u = None)
      then Inl (fail ''INVALID_USAGE'')
      else if \<not> list_all usage_range [ug_Tokens u, ug_CostUnits u] then Inl (fail ''INVALID_USAGE'')
      else let digest = Hash (json_text (usage_json u)) in
        (case List.find (\<lambda>x. us_goal x = goalID \<and> us_id x = ug_ID u) (goal_usage db) of
           Some old \<Rightarrow> if us_request_hash old \<noteq> digest then Inl (fail ''USAGE_CONFLICT'') else Inr db
         | None \<Rightarrow>
             if count_where (\<lambda>r. rs_goal r = goalID \<and> rs_attempt r = ug_AttemptID u) (attempt_reservations db) \<noteq> 1
             then Inl (fail ''USAGE_ATTEMPT_UNBOUND'')
             else insert_usage \<lparr>us_goal = goalID, us_id = ug_ID u, us_attempt = ug_AttemptID u,
                    us_source = ug_Source u, us_tokens = ug_Tokens u, us_cost = ug_CostUnits u,
                    us_complete = ug_Complete u, us_request_hash = digest, us_created = now\<rparr> db))"

definition MaxInt64 :: int where
  "MaxInt64 = 2 ^ 63 - 1"

definition checkedUsageAdd :: "int \<Rightarrow> int \<Rightarrow> int result" where
  "checkedUsageAdd tot value =
     (if value < 0 \<or> tot > MaxInt64 - value then Inl (fail ''GOAL_USAGE_OVERFLOW'') else Inr (tot + value))"

text \<open>The rows of \<open>goal_attempt_reservations r LEFT JOIN goal_usage u\<close>, ordered by attempt.\<close>

definition usage_rows :: "GoalDB \<Rightarrow> string \<Rightarrow> UsageRow option list" where
  "usage_rows db goalID =
     concat (map (\<lambda>r. case filter (\<lambda>u. us_attempt u = rs_attempt r) (goal_usage db) of
                        [] \<Rightarrow> [None] | us \<Rightarrow> map Some us)
       (sort_key rs_attempt (filter (\<lambda>r. rs_goal r = goalID) (attempt_reservations db))))"

fun add_usage :: "int \<times> int \<Rightarrow> UsageRow option \<Rightarrow> (int \<times> int) result" where
  "add_usage (usedTokens, usedCost) None = Inl (fail ''GOAL_USAGE_UNKNOWN'')"
| "add_usage (usedTokens, usedCost) (Some u) =
     (case (us_complete u, us_tokens u, us_cost u) of
        (True, Some tokens, Some cost) \<Rightarrow>
          rbind (checkedUsageAdd usedTokens tokens) (\<lambda>t.
            rbind (checkedUsageAdd usedCost cost) (\<lambda>c. Inr (t, c)))
      | _ \<Rightarrow> Inl (fail ''GOAL_USAGE_UNKNOWN''))"

definition remaining_of :: "int option \<Rightarrow> int \<Rightarrow> int option result" where
  "remaining_of limit used =
     (case limit of
        None \<Rightarrow> Inr None
      | Some m \<Rightarrow> if used \<ge> m then Inl (fail ''GOAL_USAGE_EXHAUSTED'') else Inr (Some (m - used)))"

definition RemainingUsageTx :: "GoalDB \<Rightarrow> string \<Rightarrow> UsageBudget result" where
  "RemainingUsageTx db goalID =
     (case List.find (\<lambda>p. bp_goal p = goalID) (budget_policy db) of
        None \<Rightarrow> Inr \<lparr>ub_MaxTokens = None, ub_MaxCostUnits = None, ub_RemainingTokens = None, ub_RemainingCostUnits = None\<rparr>
      | Some p \<Rightarrow>
          if bp_max_tokens p = None \<and> bp_max_cost p = None
          then Inr \<lparr>ub_MaxTokens = None, ub_MaxCostUnits = None, ub_RemainingTokens = None, ub_RemainingCostUnits = None\<rparr>
          else rbind (fold_result add_usage (0, 0) (usage_rows db goalID)) (\<lambda>(usedTokens, usedCost).
            rbind (remaining_of (bp_max_tokens p) usedTokens) (\<lambda>remTokens.
              rbind (remaining_of (bp_max_cost p) usedCost) (\<lambda>remCost.
                Inr \<lparr>ub_MaxTokens = bp_max_tokens p, ub_MaxCostUnits = bp_max_cost p,
                     ub_RemainingTokens = remTokens, ub_RemainingCostUnits = remCost\<rparr>))))"

definition CheckUsageTx :: "GoalDB \<Rightarrow> string \<Rightarrow> unit result" where
  "CheckUsageTx db goalID = rbind (RemainingUsageTx db goalID) (\<lambda>_. Inr ())"

section \<open>Properties of decisions\<close>

lemma raised_InrD: "raised v old upper = Inr n \<Longrightarrow> old \<le> n"
  by (auto simp: raised_def split: option.splits if_splits)

lemma raise_policy_keeps:
  assumes "raise_policy col put goalID v db = Inr db'"
  shows "goals db' = goals db \<and> governance_decisions db' = governance_decisions db \<and>
    replan_permissions db' = replan_permissions db \<and> attempt_reservations db' = attempt_reservations db \<and>
    goal_usage db' = goal_usage db"
  using assms by (auto simp: raise_policy_def rbind_eq_Inr_iff split: option.splits if_splits)

lemma ensure_policy_keeps [simp]:
  "goals (ensure_policy g db) = goals db" "governance_decisions (ensure_policy g db) = governance_decisions db"
  "replan_permissions (ensure_policy g db) = replan_permissions db"
  "attempt_reservations (ensure_policy g db) = attempt_reservations db"
  "goal_usage (ensure_policy g db) = goal_usage db"
  by (simp_all add: ensure_policy_def)

lemma decide_effect_shape:
  assumes "decide_effect actor goalID r g db = Inr (state, maxA, maxR, db')"
  shows "goals db' = goals db \<and> governance_decisions db' = governance_decisions db \<and>
    replan_permissions db' = replan_permissions db \<and>
    gl_max_total_attempts g \<le> maxA \<and> gl_max_replans g \<le> maxR \<and>
    state \<in> {gl_state g, ''FAILED'', ''CANCELED''} \<and>
    (gr_Action r \<noteq> ''INCREASE_BUDGET'' \<longrightarrow> maxA = gl_max_total_attempts g \<and> maxR = gl_max_replans g \<and>
       budget_policy db' = budget_policy db)"
  using assms
  by (auto simp: decide_effect_def Let_def rbind_eq_Inr_iff dest!: raise_policy_keeps raised_InrD split: if_splits)

lemma DecideTx_cases:
  assumes "DecideTx actor goalID r now now' db = Inr (rcpt, db')"
  obtains (replayed) d where "rc_Existing rcpt" "db' = db"
      "List.find (\<lambda>d. gd_goal d = goalID \<and> gd_operation d = gr_OperationID r) (governance_decisions db) = Some d"
  | (applied) g state maxA maxR db1 where "\<not> rc_Existing rcpt" "decide_request_ok actor r = Inr ()"
      "g \<in> set (goals db)" "gl_id g = goalID" "gl_owner g = ac_Owner actor" "gl_project g \<in> set (ac_Projects actor)"
      "decide_state_ok g r = Inr ()" "decide_effect actor goalID r g db = Inr (state, maxA, maxR, db1)"
      "decide_write actor goalID r g now now' (state, maxA, maxR, db1) = Inr (rcpt, db')"
      "List.find (\<lambda>d. gd_goal d = goalID \<and> gd_operation d = gr_OperationID r) (governance_decisions db) = None"
proof -
  from assms obtain g where g: "decide_request_ok actor r = Inr ()" "g \<in> set (goals db)" "gl_id g = goalID"
    "gl_owner g = ac_Owner actor" "gl_project g \<in> set (ac_Projects actor)"
    and rest: "(case List.find (\<lambda>d. gd_goal d = goalID \<and> gd_operation d = gr_OperationID r) (governance_decisions db) of
       Some d \<Rightarrow>
         if gd_request_hash d \<noteq> decision_digest actor r then Inl (fail ''IDEMPOTENCY_CONFLICT'')
         else Inr (\<lparr>rc_OperationID = gr_OperationID r, rc_Action = gr_Action r, rc_Actor = ac_ID actor,
                     rc_Version = gd_resulting_version d, rc_Existing = True\<rparr>, db)
     | None \<Rightarrow>
         rbind (decide_state_ok g r) (\<lambda>_.
         rbind (decide_effect actor goalID r g db) (decide_write actor goalID r g now now'))) = Inr (rcpt, db')"
    by (auto simp: DecideTx_def rbind_eq_Inr_iff fail_if_eq_iff dest!: select_row_InrD)
  show thesis
  proof (cases "List.find (\<lambda>d. gd_goal d = goalID \<and> gd_operation d = gr_OperationID r) (governance_decisions db)")
    case (Some d)
    with rest have "rc_Existing rcpt" "db' = db" by (auto split: if_splits)
    with Some replayed show ?thesis by blast
  next
    case None
    with rest obtain state maxA maxR db1 where e: "decide_state_ok g r = Inr ()"
      "decide_effect actor goalID r g db = Inr (state, maxA, maxR, db1)"
      "decide_write actor goalID r g now now' (state, maxA, maxR, db1) = Inr (rcpt, db')"
      by (auto simp: rbind_eq_Inr_iff)
    from e(3) have "\<not> rc_Existing rcpt"
      by (auto simp: decide_write_def Let_def rbind_eq_Inr_iff split: if_splits)
    with g e None applied show ?thesis by blast
  qed
qed

lemma decide_write_shape:
  assumes "decide_write actor goalID r g now now' (state, maxA, maxR, db1) = Inr (rcpt, db')"
  shows "goals db' = update_where (\<lambda>x. gl_id x = goalID)
      (\<lambda>x. x\<lparr>gl_state := state, gl_version := gl_version g + 1, gl_updated := now,
             gl_max_total_attempts := maxA, gl_max_replans := maxR\<rparr>) (goals db1) \<and>
    budget_policy db' = budget_policy db1 \<and>
    (\<exists>row. governance_decisions db' = governance_decisions db1 @ [row] \<and> gd_goal row = goalID \<and>
       gd_operation row = gr_OperationID r \<and> gd_request_hash row = decision_digest actor r \<and>
       gd_action row = gr_Action r \<and> gd_actor row = ac_ID actor \<and> gd_resulting_version row = gl_version g + 1) \<and>
    rc_Version rcpt = gl_version g + 1"
  using assms
  by (auto simp: decide_write_def Let_def rbind_eq_Inr_iff insert_decision_def insert_permission_def
      insert_row_eq_Inr_iff split: if_splits)

lemma decide_state_ok_iff:
  "decide_state_ok g r = Inr () \<longleftrightarrow>
     \<not> terminal (gl_state g) \<and> gl_version g = gr_ExpectedVersion r \<and> gl_active_plan_revision g = gr_PlanRevision r \<and>
     gl_active_graph_generation g = gr_GraphGeneration r \<and>
     (gr_Action r \<in> {''INCREASE_BUDGET'', ''ABORT''} \<or> gl_state g = ''NEEDS_APPROVAL'') \<and>
     (gr_Action r = ''INCREASE_BUDGET'' \<or> \<not> changedBudget (gr_Change r)) \<and>
     (gr_Action r = ''PROVIDE_EVIDENCE'' \<or> ch_Evidence (gr_Change r) = []) \<and>
     (gr_Action r = ''CHANGE_CONSTRAINT'' \<or> ch_Constraint (gr_Change r) = [])"
  by (auto simp: decide_state_ok_def)

lemma goals_ok_DecideTx:
  assumes "goals_ok db" "DecideTx actor goalID r now now' db = Inr (rcpt, db')"
  shows "goals_ok db'"
  using assms(2)
proof (cases rule: DecideTx_cases)
  case (applied g state maxA maxR db1)
  from decide_effect_shape [OF applied(8)] have e: "goals db1 = goals db" "gl_max_total_attempts g \<le> maxA"
    "gl_max_replans g \<le> maxR" "state \<in> {gl_state g, ''FAILED'', ''CANCELED''}" by auto
  let ?f = "\<lambda>x. x\<lparr>gl_state := state, gl_version := gl_version g + 1, gl_updated := now,
             gl_max_total_attempts := maxA, gl_max_replans := maxR\<rparr>"
  have "goals_ok (db\<lparr>goals := update_where (\<lambda>x. gl_id x = goalID) ?f (goals db)\<rparr>)"
  proof (rule goals_ok_update [OF assms(1)])
    fix x assume x: "x \<in> set (goals db)" "gl_id x = goalID" "goal_row_ok x"
    then have "x = g" using goals_unique [OF assms(1)] applied(3,4) by blast
    then show "goal_row_ok (?f x)"
      using x(3) e(2-4) by (auto simp: goal_row_ok_def goal_check_def goal_states_def)
  qed simp
  moreover have "goals db' = update_where (\<lambda>x. gl_id x = goalID) ?f (goals db)"
    using decide_write_shape [OF applied(9)] e(1) by simp
  ultimately show ?thesis by (simp add: goals_ok_def)
qed (use assms in simp)


lemma decide_request_ok_iff:
  "decide_request_ok actor r = Inr () \<longleftrightarrow>
     ac_Kind actor = ''human'' \<and> trim_space (ac_ID actor) \<noteq> [] \<and> ''goals:approve'' \<in> set (ac_Scopes actor) \<and>
     ValidKey (gr_OperationID r) \<and> trim_space (gr_Reason r) \<noteq> [] \<and> length (gr_Reason r) \<le> 2048 \<and>
     gr_ExpectedVersion r \<ge> 1 \<and> gr_PlanRevision r \<ge> 1 \<and> gr_GraphGeneration r \<ge> 1 \<and>
     length (ch_Evidence (gr_Change r)) \<le> 4096 \<and> length (ch_Constraint (gr_Change r)) \<le> 4096 \<and>
     gr_Action r \<in> set goal_actions"
  by (auto simp: decide_request_ok_def)

text \<open>A decision takes effect only when an approving human of the goal's owner and project names the
  goal's current version, plan revision and graph generation, and the goal is not terminal. It then
  advances the version of that goal by one, lowers none of its limits, leaves every other goal alone and
  records who decided what.\<close>

theorem decision_applied:
  assumes "goals_ok db" "DecideTx actor goalID r now now' db = Inr (rcpt, db')" "\<not> rc_Existing rcpt"
  shows "\<exists>g g'. g \<in> set (goals db) \<and> gl_id g = goalID \<and>
    ac_Kind actor = ''human'' \<and> ''goals:approve'' \<in> set (ac_Scopes actor) \<and>
    gl_owner g = ac_Owner actor \<and> gl_project g \<in> set (ac_Projects actor) \<and> \<not> terminal (gl_state g) \<and>
    gl_version g = gr_ExpectedVersion r \<and> gl_active_plan_revision g = gr_PlanRevision r \<and>
    gl_active_graph_generation g = gr_GraphGeneration r \<and>
    set (goals db') = insert g' (set (goals db) - {g}) \<and>
    gl_version g' = gl_version g + 1 \<and> rc_Version rcpt = gl_version g' \<and>
    gl_max_total_attempts g \<le> gl_max_total_attempts g' \<and> gl_max_replans g \<le> gl_max_replans g' \<and>
    gl_consumed_attempts g' = gl_consumed_attempts g \<and> gl_consumed_replans g' = gl_consumed_replans g \<and>
    (\<exists>d. governance_decisions db' = governance_decisions db @ [d] \<and> gd_actor d = ac_ID actor \<and>
       gd_action d = gr_Action r \<and> gd_goal d = goalID \<and> gd_operation d = gr_OperationID r)"
  using assms(2)
proof (cases rule: DecideTx_cases)
  case (applied g state maxA maxR db1)
  let ?f = "\<lambda>x. x\<lparr>gl_state := state, gl_version := gl_version g + 1, gl_updated := now,
             gl_max_total_attempts := maxA, gl_max_replans := maxR\<rparr>"
  note e = decide_effect_shape [OF applied(8)] and w = decide_write_shape [OF applied(9)]
  have "set (goals db') = insert (?f g) (set (goals db) - {g})"
  proof -
    have "goals db' = update_where (\<lambda>x. gl_id x = goalID) ?f (goals db)"
      using e w by simp
    moreover have "set (update_where (\<lambda>x. gl_id x = goalID) ?f (goals db)) = insert (?f g) (set (goals db) - {g})"
    proof (rule set_update_where_one)
      show "g \<in> set (goals db)" "gl_id g = goalID" using applied(3,4) by simp_all
      show "x = g" if "x \<in> set (goals db)" "gl_id x = goalID" for x
        using goals_unique [OF assms(1)] that applied(3,4) by blast
    qed
    ultimately show ?thesis by (simp only:)
  qed
  moreover obtain row where "governance_decisions db' = governance_decisions db @ [row]" "gd_goal row = goalID"
    "gd_operation row = gr_OperationID r" "gd_action row = gr_Action r" "gd_actor row = ac_ID actor"
    using e w by auto
  moreover have "rc_Version rcpt = gl_version g + 1" "gl_max_total_attempts g \<le> maxA" "gl_max_replans g \<le> maxR"
    using e w by simp_all
  ultimately show ?thesis
    using applied(3-6) applied(2) [unfolded decide_request_ok_iff] applied(7) [unfolded decide_state_ok_iff]
    by (intro exI [of _ g] exI [of _ "?f g"] conjI exI [of _ row]) simp_all
qed (use assms in simp)

text \<open>A decision is idempotent: repeating an accepted request, at any later time, returns the same
  receipt marked as existing and writes nothing.\<close>

theorem decision_replayed:
  assumes "DecideTx actor goalID r now now' db = Inr (rcpt, db')"
  shows "DecideTx actor goalID r later later' db' = Inr (rcpt\<lparr>rc_Existing := True\<rparr>, db')"
  using assms
proof (cases rule: DecideTx_cases)
  case (replayed d)
  from replayed(3) have "DecideTx actor goalID r later later' db = DecideTx actor goalID r now now' db"
    by (simp add: DecideTx_def)
  with replayed(1,2) assms show ?thesis by simp
next
  case (applied g state maxA maxR db1)
  note e = decide_effect_shape [OF applied(8)] and w = decide_write_shape [OF applied(9)]
  from assms obtain g0 where g0: "List.find (\<lambda>g. gl_id g = goalID) (goals db) = Some g0"
    "gl_owner g0 = ac_Owner actor" "gl_project g0 \<in> set (ac_Projects actor)"
    by (auto simp: DecideTx_def rbind_eq_Inr_iff fail_if_eq_iff select_row_def split: option.splits)
  then have sel: "\<exists>x. select_row (\<lambda>g. gl_id g = goalID) (goals db') = Inr x \<and> gl_owner x = ac_Owner actor \<and>
     gl_project x \<in> set (ac_Projects actor)"
    using e w find_update_where [OF g0(1)] by (fastforce simp: select_row_def)
  obtain row where row: "governance_decisions db' = governance_decisions db @ [row]" "gd_goal row = goalID"
    "gd_operation row = gr_OperationID r" "gd_request_hash row = decision_digest actor r"
    "gd_resulting_version row = gl_version g + 1"
    using e w by auto
  have "rcpt = \<lparr>rc_OperationID = gr_OperationID r, rc_Action = gr_Action r, rc_Actor = ac_ID actor,
                    rc_Version = gl_version g + 1, rc_Existing = False\<rparr>"
    using applied(9) by (auto simp: decide_write_def Let_def rbind_eq_Inr_iff split: if_splits)
  with sel row applied(2,10) show ?thesis
    by (auto simp: DecideTx_def rbind_eq_Inr_iff find_append)
qed


section \<open>Properties of usage accounting\<close>

lemma add_usage_iff:
  "add_usage (a, b) u = Inr (c, d) \<longleftrightarrow>
     (\<exists>x t k. u = Some x \<and> us_complete x \<and> us_tokens x = Some t \<and> us_cost x = Some k \<and>
        0 \<le> t \<and> 0 \<le> k \<and> c = a + t \<and> d = b + k \<and> c \<le> MaxInt64 \<and> d \<le> MaxInt64)"
  by (cases u) (auto simp: checkedUsageAdd_def rbind_eq_Inr_iff split: bool.splits option.splits if_splits)

definition used_tokens :: "UsageRow option list \<Rightarrow> int" where
  "used_tokens us = (\<Sum>u\<leftarrow>us. case u of Some x \<Rightarrow> the (us_tokens x) | None \<Rightarrow> 0)"

definition used_cost :: "UsageRow option list \<Rightarrow> int" where
  "used_cost us = (\<Sum>u\<leftarrow>us. case u of Some x \<Rightarrow> the (us_cost x) | None \<Rightarrow> 0)"

definition fully_reported :: "UsageRow option list \<Rightarrow> bool" where
  "fully_reported us \<longleftrightarrow> list_all (\<lambda>u. case u of Some x \<Rightarrow> us_complete x \<and> us_tokens x \<noteq> None \<and> us_cost x \<noteq> None
     | None \<Rightarrow> False) us"

lemma fold_add_usage:
  assumes "fold_result add_usage (0, 0) us = Inr (t, c)"
  shows "t = used_tokens us \<and> c = used_cost us \<and> fully_reported us \<and> t \<in> {0..MaxInt64} \<and> c \<in> {0..MaxInt64}"
proof -
  have "case (t, c) of (t, c) \<Rightarrow> t = used_tokens us \<and> c = used_cost us \<and> fully_reported us \<and>
      t \<in> {0..MaxInt64} \<and> c \<in> {0..MaxInt64}"
  proof (rule fold_result_invariant [OF assms])
    fix pre u st st'
    assume "case st of (t, c) \<Rightarrow> t = used_tokens pre \<and> c = used_cost pre \<and> fully_reported pre \<and>
        t \<in> {0..MaxInt64} \<and> c \<in> {0..MaxInt64}" "add_usage st u = Inr st'"
    then show "case st' of (t, c) \<Rightarrow> t = used_tokens (pre @ [u]) \<and> c = used_cost (pre @ [u]) \<and>
        fully_reported (pre @ [u]) \<and> t \<in> {0..MaxInt64} \<and> c \<in> {0..MaxInt64}"
      by (cases st; cases st')
        (auto simp: add_usage_iff used_tokens_def used_cost_def fully_reported_def)
  qed (simp add: used_tokens_def used_cost_def fully_reported_def MaxInt64_def)
  then show ?thesis by simp
qed

text \<open>The allowance frozen into a new attempt is exact. When a limit is set, \<open>RemainingUsageTx\<close> answers
  only if every reserved attempt of the goal has reported complete usage, and then with the limit minus
  the reported total, which is positive; the totals stay inside the range of an \<open>int64\<close>.\<close>

theorem remaining_usage_exact:
  assumes "RemainingUsageTx db goalID = Inr b"
    and "List.find (\<lambda>p. bp_goal p = goalID) (budget_policy db) = Some p"
    and "bp_max_tokens p \<noteq> None \<or> bp_max_cost p \<noteq> None"
  shows "let us = usage_rows db goalID in
    fully_reported us \<and> used_tokens us \<in> {0..MaxInt64} \<and> used_cost us \<in> {0..MaxInt64} \<and>
    ub_RemainingTokens b = map_option (\<lambda>m. m - used_tokens us) (bp_max_tokens p) \<and>
    ub_RemainingCostUnits b = map_option (\<lambda>m. m - used_cost us) (bp_max_cost p) \<and>
    (\<forall>n. ub_RemainingTokens b = Some n \<longrightarrow> 0 < n) \<and> (\<forall>n. ub_RemainingCostUnits b = Some n \<longrightarrow> 0 < n)"
proof -
  from assms obtain t c rt rc where run: "fold_result add_usage (0, 0) (usage_rows db goalID) = Inr (t, c)"
    "remaining_of (bp_max_tokens p) t = Inr rt" "remaining_of (bp_max_cost p) c = Inr rc"
    "ub_RemainingTokens b = rt" "ub_RemainingCostUnits b = rc"
    by (auto simp: RemainingUsageTx_def rbind_eq_Inr_iff)
  with fold_add_usage [OF run(1)] show ?thesis
    by (auto simp: Let_def remaining_of_def split: option.splits if_splits)
qed


section \<open>An example goal\<close>

text \<open>A goal that waits for approval, with one reported attempt and a token limit.\<close>

definition example_goal :: GoalRow where
  "example_goal =
     \<lparr>gl_id = ''g1'', gl_owner = ''ann'', gl_project = ''demo'', gl_state = ''NEEDS_APPROVAL'',
      gl_active_plan_revision = 1, gl_active_graph_generation = 1, gl_max_replans = 2, gl_max_total_attempts = 4,
      gl_max_wall_time_ms = 1000, gl_consumed_replans = 0, gl_consumed_attempts = 1, gl_created = 0,
      gl_updated = 0, gl_deadline = 0, gl_version = 3\<rparr>"

definition example_db :: GoalDB where
  "example_db = empty_db\<lparr>goals := [example_goal],
     budget_policy := [\<lparr>bp_goal = ''g1'', bp_max_tokens = Some 100, bp_max_cost = None\<rparr>],
     attempt_reservations := [\<lparr>rs_attempt = ''a1'', rs_goal = ''g1'', rs_revision = 1, rs_generation = 1, rs_created = 0\<rparr>],
     goal_usage := [\<lparr>us_goal = ''g1'', us_id = ''u1'', us_attempt = ''a1'', us_source = ''rt'', us_tokens = Some 30,
       us_cost = Some 5, us_complete = True, us_request_hash = [], us_created = 0\<rparr>]\<rparr>"

definition example_actor :: Actor where
  "example_actor = \<lparr>ac_ID = ''u7'', ac_Kind = ''human'', ac_Owner = ''ann'', ac_Projects = [''demo''],
     ac_Scopes = [''goals:approve'']\<rparr>"

definition example_request :: Request where
  "example_request = \<lparr>gr_OperationID = ''op1'', gr_ExpectedVersion = 3, gr_PlanRevision = 1,
     gr_GraphGeneration = 1, gr_Action = ''APPROVE_NEXT_REPLAN'', gr_Reason = ''ok'',
     gr_Change = \<lparr>ch_MaxAttempts = None, ch_MaxReplans = None, ch_MaxTokens = None, ch_MaxCostUnits = None,
       ch_Evidence = [], ch_Constraint = []\<rparr>\<rparr>"

definition example_row :: DecisionRow where
  "example_row = \<lparr>gd_goal = ''g1'', gd_operation = ''op1'', gd_request_hash = decision_digest example_actor example_request,
     gd_actor = ''u7'', gd_action = ''APPROVE_NEXT_REPLAN'', gd_reason = ''ok'', gd_expected_version = 3,
     gd_plan_revision = 1, gd_graph_generation = 1,
     gd_change_json = json_text (change_json (gr_Change example_request)), gd_resulting_version = 4, gd_created = 11\<rparr>"

definition example_decided :: GoalDB where
  "example_decided = example_db\<lparr>goals := [example_goal\<lparr>gl_version := 4, gl_updated := 10\<rparr>],
     governance_decisions := [example_row],
     replan_permissions := [\<lparr>rp_goal = ''g1'', rp_operation = ''op1'', rp_revision = 1, rp_generation = 1,
       rp_consumed = False\<rparr>]\<rparr>"

lemma example_request_ok: "decide_request_ok example_actor example_request = Inr ()"
proof -
  have "trim_space ''u7'' \<noteq> []" "trim_space ''ok'' \<noteq> []" "ValidKey ''op1''" by code_simp+
  then show ?thesis
    by (simp add: decide_request_ok_iff example_actor_def example_request_def goal_actions_def)
qed

lemma example_decision:
  "DecideTx example_actor ''g1'' example_request 10 11 example_db =
     Inr (\<lparr>rc_OperationID = ''op1'', rc_Action = ''APPROVE_NEXT_REPLAN'', rc_Actor = ''u7'', rc_Version = 4,
           rc_Existing = False\<rparr>, example_decided)"
proof -
  have sel: "select_row (\<lambda>g. gl_id g = ''g1'') (goals example_db) = Inr example_goal"
    by (simp add: example_db_def select_row_def example_goal_def)
  have st: "decide_state_ok example_goal example_request = Inr ()"
    by (simp add: decide_state_ok_iff example_goal_def example_request_def terminal_def changedBudget_def)
  have eff: "decide_effect example_actor ''g1'' example_request example_goal example_db =
      Inr (''NEEDS_APPROVAL'', 4, 2, example_db)"
    by (simp add: decide_effect_def example_request_def example_goal_def)
  have wr: "decide_write example_actor ''g1'' example_request example_goal 10 11 (''NEEDS_APPROVAL'', 4, 2, example_db) =
    Inr (\<lparr>rc_OperationID = ''op1'', rc_Action = ''APPROVE_NEXT_REPLAN'', rc_Actor = ''u7'', rc_Version = 4,
           rc_Existing = False\<rparr>, example_decided)"
    by (simp add: decide_write_def example_decided_def example_row_def insert_decision_def insert_permission_def
        insert_row_def goal_exists_def update_where_def example_db_def empty_db_def)
      (simp add: example_goal_def example_request_def example_actor_def insert_row_def insert_permission_def
        goal_exists_def)
  show ?thesis
    using example_request_ok sel st eff wr
    by (simp add: DecideTx_def fail_if_def) (simp add: example_goal_def example_actor_def example_db_def empty_db_def)
qed

lemma example_goals_ok: "goals_ok example_db"
  by (simp add: goals_ok_def example_db_def example_goal_def goal_row_ok_def goal_check_def goal_states_def)

lemma decision_applied_witness:
  "\<exists>g'. goals example_decided = [g'] \<and> gl_version g' = gl_version example_goal + 1 \<and>
     (\<exists>d. governance_decisions example_decided = governance_decisions example_db @ [d] \<and> gd_actor d = ''u7'')"
  using decision_applied [OF example_goals_ok example_decision]
  by (auto simp: example_decided_def example_actor_def example_db_def empty_db_def example_goal_def)

lemma decision_replayed_witness:
  "DecideTx example_actor ''g1'' example_request 99 99 example_decided =
     Inr (\<lparr>rc_OperationID = ''op1'', rc_Action = ''APPROVE_NEXT_REPLAN'', rc_Actor = ''u7'', rc_Version = 4,
           rc_Existing = True\<rparr>, example_decided)"
  using decision_replayed [OF example_decision, of 99 99] by simp


lemma remaining_usage_exact_witness:
  "\<exists>b. RemainingUsageTx example_db ''g1'' = Inr b \<and> ub_RemainingTokens b = Some 70"
proof -
  have p: "List.find (\<lambda>p. bp_goal p = ''g1'') (budget_policy example_db) =
      Some \<lparr>bp_goal = ''g1'', bp_max_tokens = Some 100, bp_max_cost = None\<rparr>"
    by (simp add: example_db_def)
  have rows: "usage_rows example_db ''g1'' = map Some (goal_usage example_db)"
    by (simp add: usage_rows_def example_db_def)
  then obtain b where b: "RemainingUsageTx example_db ''g1'' = Inr b"
    by (simp add: RemainingUsageTx_def p) (simp add: example_db_def checkedUsageAdd_def MaxInt64_def remaining_of_def)
  from remaining_usage_exact [OF b p] have "ub_RemainingTokens b = Some 70"
    unfolding Let_def rows by (simp add: used_tokens_def example_db_def)
  with b show ?thesis by blast
qed

end
