(* ===== verification/Replan_Guard.thy ===== *)
theory Replan_Guard
  imports Governance
begin

text \<open>
  The replan guard: \<open>internal/goal/replan_guard.go\<close>.

  \<open>guardReplan\<close> follows the order of its source: request validation, replay of a recorded evaluation,
  the facts read from the tables (\<open>guard_facts\<close>), the decision switch (\<open>guard_switch\<close>), consumption of a
  permission, the insert of the request, the reservation of the next revision (\<open>guard_reserve\<close>) and the
  caller's publication, all in one transaction. \<open>publish\<close> is the caller's callback, \<open>None\<close> for the
  guard-only entry point.

  Shown here: what an allowed replan guarantees; the budget and fencing invariant of the goal tables over
  every sequence of operations of the packages \<open>goal\<close> and \<open>governance\<close>; the number of replans ever
  accepted is bounded; terminal goals do not change; replays have no effect; publication for a goal that
  waits for approval consumes a human permission.
\<close>

section \<open>Data\<close>

record Budget =
  bg_MaxReplans :: int
  bg_MaxTotalAttempts :: int
  bg_MaxWallTime :: int
  bg_DeadlineMS :: int

record CreateGoal =
  cg_ID :: string
  cg_Owner :: string
  cg_Project :: string
  cg_Budget :: Budget

record ReplanRequest =
  rr_ID :: string
  rr_GoalID :: string
  rr_EvaluationID :: string
  rr_ExpectedPlanRevision :: int
  rr_ExpectedGraphGeneration :: int
  rr_ReasonCode :: string
  rr_Evidence :: ReplanEvidence
  rr_ProposedPlan :: PlanCanonical
  rr_StrategyDelta :: StrategyDelta
  rr_Progress :: ProgressSnapshot

record ReplanDecision =
  dc_Allowed :: bool
  dc_NeedsApproval :: bool
  dc_Code :: string
  dc_NextPlanRevision :: int
  dc_NextGraphGeneration :: int
  dc_Existing :: bool

type_synonym publication = "GoalDB \<Rightarrow> ReplanDecision \<Rightarrow> GoalDB result"

section \<open>Goals and attempts\<close>

text \<open>\<open>time.Duration.Milliseconds\<close> truncates towards zero; the budget is positive where it is used.\<close>

definition milliseconds :: "int \<Rightarrow> int" where
  "milliseconds d = (if d < 0 then - ((- d) div 1000000) else d div 1000000)"

definition Create :: "CreateGoal \<Rightarrow> int \<Rightarrow> GoalDB \<Rightarrow> GoalDB result" where
  "Create c now db =
     (let b = cg_Budget c in
      if cg_ID c = [] \<or> cg_Owner c = [] \<or> cg_Project c = [] then Inl (Error ''goal id, owner and project are required'')
      else if bg_MaxReplans b < 0 \<or> bg_MaxTotalAttempts b < 1 \<or> bg_MaxWallTime b \<le> 0
      then Inl (Error ''invalid goal budget'')
      else insert_goal
        \<lparr>gl_id = cg_ID c, gl_owner = cg_Owner c, gl_project = cg_Project c, gl_state = ''GOAL_CREATED'',
         gl_active_plan_revision = 1, gl_active_graph_generation = 1, gl_max_replans = bg_MaxReplans b,
         gl_max_total_attempts = bg_MaxTotalAttempts b, gl_max_wall_time_ms = milliseconds (bg_MaxWallTime b),
         gl_consumed_replans = 0, gl_consumed_attempts = 0, gl_created = now, gl_updated = now,
         gl_deadline = bg_DeadlineMS b, gl_version = 1\<rparr> db)"

definition ReserveAttempt_tx :: "string \<Rightarrow> int \<Rightarrow> (GoalDB, unit) tx" where
  "ReserveAttempt_tx goalID now db =
     rbind (select_row (\<lambda>g. gl_id g = goalID) (goals db)) (\<lambda>g.
       if terminal (gl_state g) then Inl (Error ''GOAL_TERMINAL'')
       else if gl_consumed_attempts g \<ge> gl_max_total_attempts g then Inl (Error ''ATTEMPT_BUDGET_EXHAUSTED'')
       else let hit = (\<lambda>x. gl_id x = goalID \<and> gl_consumed_attempts x < gl_max_total_attempts g) in
         if count_where hit (goals db) \<noteq> 1 then Inl (Error ''ATTEMPT_BUDGET_EXHAUSTED'')
         else Inr ((), db\<lparr>goals := update_where hit
                (\<lambda>x. x\<lparr>gl_consumed_attempts := gl_consumed_attempts x + 1, gl_updated := now,
                       gl_version := gl_version x + 1\<rparr>) (goals db)\<rparr>))"

definition ReserveAttempt :: "string \<Rightarrow> int \<Rightarrow> GoalDB \<Rightarrow> unit result \<times> GoalDB" where
  "ReserveAttempt goalID now db = db_Tx (ReserveAttempt_tx goalID now) db"

definition RegisterPlanFingerprint :: "string \<Rightarrow> int \<Rightarrow> PlanCanonical \<Rightarrow> int \<Rightarrow> GoalDB \<Rightarrow> GoalDB result" where
  "RegisterPlanFingerprint goalID revision plan now db =
     (if goalID = [] \<or> revision < 1 then Inl (Error ''goal id and positive plan revision are required'')
      else rbind (PlanCanonical_Validate plan) (\<lambda>_.
        insert_plan_fingerprint \<lparr>pf_goal = goalID, pf_revision = revision,
          pf_fingerprint = PlanCanonical_Fingerprint plan, pf_strategy = StrategySignature plan, pf_created = now\<rparr> db))"

section \<open>The guard\<close>

definition guard_request_ok :: "ReplanRequest \<Rightarrow> unit result" where
  "guard_request_ok r =
     (if rr_ID r = [] \<or> rr_GoalID r = [] \<or> rr_EvaluationID r = []
      then Inl (Error ''replan request id, goal id and evaluation id are required'')
      else rbind (ReplanEvidence_Validate (rr_Evidence r)) (\<lambda>_.
        rbind (PlanCanonical_Validate (rr_ProposedPlan r)) (\<lambda>_.
          rbind (StrategyDelta_Validate (rr_StrategyDelta r)) (\<lambda>_.
            ProgressSnapshot_Validate (rr_Progress r)))))"

abbreviation evidenceFingerprint :: "ReplanRequest \<Rightarrow> string" where
  "evidenceFingerprint r \<equiv> ReplanEvidence_Fingerprint (rr_Evidence r)"

abbreviation planFingerprint :: "ReplanRequest \<Rightarrow> string" where
  "planFingerprint r \<equiv> PlanCanonical_Fingerprint (rr_ProposedPlan r)"

abbreviation strategySignature :: "ReplanRequest \<Rightarrow> string" where
  "strategySignature r \<equiv> StrategySignature (rr_ProposedPlan r)"

text \<open>The test for \<open>IDEMPOTENCY_CONFLICT\<close>.\<close>

definition replay_conflict :: "bool \<Rightarrow> ReplanRequest \<Rightarrow> ReplanRow \<Rightarrow> bool" where
  "replay_conflict publishing r row \<longleftrightarrow>
     publishing \<and> rq_id row \<noteq> rr_ID r \<or> rq_reason_code row \<noteq> rr_ReasonCode r \<or>
     rq_expected_plan row \<noteq> rr_ExpectedPlanRevision r \<or> rq_expected_graph row \<noteq> rr_ExpectedGraphGeneration r \<or>
     rq_evidence row \<noteq> evidenceFingerprint r \<or> rq_plan_fingerprint row \<noteq> planFingerprint r \<or>
     rq_strategy row \<noteq> strategySignature r \<or> rq_delta_json row \<noteq> strategy_delta_json (rr_StrategyDelta r) \<or>
     rq_progress_json row \<noteq> progress_json (rr_Progress r)"

text \<open>The committed plan, its binding and its job agree, exactly once.\<close>

definition publishedReplanExists :: "GoalDB \<Rightarrow> string \<Rightarrow> int \<Rightarrow> int \<Rightarrow> bool" where
  "publishedReplanExists db goalID revision generation \<longleftrightarrow>
     length [(). p \<leftarrow> goal_plans db, g \<leftarrow> goals db, b \<leftarrow> job_bindings db, j \<leftarrow> db_jobs db,
       gl_id g = pl_goal p \<and> bd_goal b = pl_goal p \<and> bd_revision b = pl_revision p \<and>
       bd_generation b = pl_generation p \<and> bd_job b = pl_job p \<and>
       jb_id j = pl_job p \<and> jb_spec j = pl_frozen_spec p \<and> jb_owner j = gl_owner g \<and> jb_project j = gl_project g \<and>
       pl_goal p = goalID \<and> pl_revision p = revision \<and> pl_generation p = generation \<and>
       length (pl_graph_json p) > 0] = 1"

definition replanCycleWindow :: int where
  "replanCycleWindow = 6"

definition sameFailureMaxReplans :: nat where
  "sameFailureMaxReplans = 2"

record Facts =
  gf_seenEvidence :: bool
  gf_seenPlan :: bool
  gf_seenStrategy :: bool
  gf_repeatedFailure :: bool
  gf_progressImproved :: bool
  gf_previousNoProgress :: bool

text \<open>\<open>replan_history WHERE goal_id=? ORDER BY ordinal DESC\<close>\<close>

definition recent_history :: "GoalDB \<Rightarrow> string \<Rightarrow> HistoryRow list" where
  "recent_history db goalID = rev (sort_key rh_ordinal (filter (\<lambda>h. rh_goal h = goalID) (replan_history db)))"

definition guard_facts :: "GoalDB \<Rightarrow> ReplanRequest \<Rightarrow> GoalRow \<Rightarrow> Facts" where
  "guard_facts db r g =
     (let minRevision = (let m = gl_active_plan_revision g - replanCycleWindow + 1 in if m < 1 then 1 else m);
          recent = recent_history db (rr_GoalID r);
          failureCount = length (takeWhile (\<lambda>h. rh_failure_class h = re_FailureClass (rr_Evidence r))
                                   (take sameFailureMaxReplans recent))
      in \<lparr>gf_seenEvidence =
            list_ex (\<lambda>e. er_goal e = rr_GoalID r \<and> er_fingerprint e = evidenceFingerprint r) (goal_evidence db),
          gf_seenPlan =
            list_ex (\<lambda>p. pf_goal p = rr_GoalID r \<and> pf_fingerprint p = planFingerprint r) (plan_fingerprints db),
          gf_seenStrategy =
            list_ex (\<lambda>p. pf_goal p = rr_GoalID r \<and> pf_revision p \<ge> minRevision \<and>
                        pf_strategy p = strategySignature r) (plan_fingerprints db),
          gf_repeatedFailure = (failureCount \<ge> sameFailureMaxReplans),
          gf_progressImproved =
            (case recent of [] \<Rightarrow> True | h # _ \<Rightarrow> ImprovedOver (rr_Progress r) (rh_progress h)),
          gf_previousNoProgress = (case recent of [] \<Rightarrow> False | h # _ \<Rightarrow> \<not> rh_progressed h)\<rparr>)"

text \<open>Unknown or exhausted usage asks for approval; any other accounting error ends the transaction.\<close>

definition usage_gate :: "GoalDB \<Rightarrow> string \<Rightarrow> string option result" where
  "usage_gate db goalID =
     (case CheckUsageTx db goalID of
        Inr _ \<Rightarrow> Inr None
      | Inl e \<Rightarrow> (case e of
          Error c \<Rightarrow> if c = ''GOAL_USAGE_UNKNOWN'' \<or> c = ''GOAL_USAGE_EXHAUSTED'' then Inr (Some c) else Inl e
        | _ \<Rightarrow> Inl e))"

definition guard_switch ::
  "bool \<Rightarrow> bool \<Rightarrow> ReplanRequest \<Rightarrow> GoalRow \<Rightarrow> int \<Rightarrow> string option \<Rightarrow> Facts \<Rightarrow> string \<times> string" where
  "guard_switch publishing approvedOverride r g now usageErr f =
     go_switch
       [(terminal (gl_state g), (''REJECTED'', ''GOAL_TERMINAL'')),
        (gl_active_plan_revision g \<noteq> rr_ExpectedPlanRevision r \<or>
         gl_active_graph_generation g \<noteq> rr_ExpectedGraphGeneration r, (''REJECTED'', ''STALE_GENERATION'')),
        (usageErr \<noteq> None, (''NEEDS_APPROVAL'', the usageErr)),
        (gl_consumed_attempts g \<ge> gl_max_total_attempts g, (''NEEDS_APPROVAL'', ''ATTEMPT_BUDGET_EXHAUSTED'')),
        (gl_consumed_replans g \<ge> gl_max_replans g, (''NEEDS_APPROVAL'', ''BUDGET_EXHAUSTED'')),
        (gl_max_wall_time_ms g > 0 \<and> now - gl_created g \<ge> gl_max_wall_time_ms g,
         (''NEEDS_APPROVAL'', ''WALL_TIME_EXCEEDED'')),
        (gl_deadline g > 0 \<and> now \<ge> gl_deadline g, (''NEEDS_APPROVAL'', ''DEADLINE_EXCEEDED'')),
        (gf_seenEvidence f, (if publishing then ''REJECTED'' else ''NEEDS_APPROVAL'', ''NO_NEW_EVIDENCE'')),
        (gf_seenPlan f, (if publishing then ''REJECTED'' else ''NEEDS_APPROVAL'', ''DUPLICATE_PLAN'')),
        (gf_seenStrategy f \<and> \<not> approvedOverride, (''NEEDS_APPROVAL'', ''LOOP_DETECTED'')),
        (gf_repeatedFailure f \<and> \<not> approvedOverride, (''NEEDS_APPROVAL'', ''REPEATED_FAILURE'')),
        (\<not> gf_progressImproved f \<and> gf_previousNoProgress f \<and> \<not> approvedOverride,
         (''NEEDS_APPROVAL'', ''NO_PROGRESS''))]
       (''ALLOWED'', ''ALLOWED'')"

text \<open>Publication of an allowed replan of a goal that waits for approval consumes a permission.\<close>

definition guard_permission :: "bool \<Rightarrow> string \<Rightarrow> ReplanRequest \<Rightarrow> GoalRow \<Rightarrow> string \<Rightarrow> GoalDB \<Rightarrow> GoalDB result" where
  "guard_permission publishing op r g requestState db =
     (if requestState = ''ALLOWED'' \<and> publishing then
        if gl_state g = ''NEEDS_APPROVAL'' then
          ConsumeReplanPermissionTx (rr_GoalID r) op (gl_active_plan_revision g) (gl_active_graph_generation g) db
        else if op \<noteq> [] then Inl (Error ''REPLAN_PERMISSION_NOT_REQUIRED'')
        else Inr db
      else Inr db)"

definition replan_row :: "ReplanRequest \<Rightarrow> string \<Rightarrow> string \<Rightarrow> int \<Rightarrow> int \<Rightarrow> int \<Rightarrow> ReplanRow" where
  "replan_row r requestState code nextPlan nextGraph now =
     \<lparr>rq_id = rr_ID r, rq_goal = rr_GoalID r, rq_evaluation = rr_EvaluationID r,
      rq_expected_plan = rr_ExpectedPlanRevision r, rq_expected_graph = rr_ExpectedGraphGeneration r,
      rq_reason_code = rr_ReasonCode r, rq_state = requestState, rq_decision_code = code,
      rq_next_plan = nextPlan, rq_next_graph = nextGraph, rq_created = now,
      rq_failure_class = re_FailureClass (rr_Evidence r), rq_evidence = evidenceFingerprint r,
      rq_plan_fingerprint = planFingerprint r, rq_strategy = strategySignature r,
      rq_delta_json = strategy_delta_json (rr_StrategyDelta r), rq_progress_json = progress_json (rr_Progress r)\<rparr>"

definition next_ordinal :: "GoalDB \<Rightarrow> string \<Rightarrow> int" where
  "next_ordinal db goalID =
     foldl max 0 (map rh_ordinal (filter (\<lambda>h. rh_goal h = goalID) (replan_history db))) + 1"

definition reservable :: "ReplanRequest \<Rightarrow> GoalRow \<Rightarrow> GoalRow \<Rightarrow> bool" where
  "reservable r g x \<longleftrightarrow> gl_id x = rr_GoalID r \<and> gl_active_plan_revision x = rr_ExpectedPlanRevision r \<and>
     gl_active_graph_generation x = rr_ExpectedGraphGeneration r \<and> gl_consumed_replans x < gl_max_replans g \<and>
     gl_consumed_attempts x < gl_max_total_attempts g \<and> gl_state x \<notin> {''SUCCEEDED'', ''FAILED'', ''CANCELED''}"

definition guard_reserve :: "ReplanRequest \<Rightarrow> GoalRow \<Rightarrow> Facts \<Rightarrow> int \<Rightarrow> int \<Rightarrow> int \<Rightarrow> GoalDB \<Rightarrow> GoalDB result" where
  "guard_reserve r g f nextPlan nextGraph now db =
     rbind (insert_evidence \<lparr>er_goal = rr_GoalID r, er_fingerprint = evidenceFingerprint r,
              er_evaluation = rr_EvaluationID r, er_failure_class = re_FailureClass (rr_Evidence r),
              er_created = now\<rparr> db) (\<lambda>db1.
     rbind (insert_plan_fingerprint \<lparr>pf_goal = rr_GoalID r, pf_revision = nextPlan,
              pf_fingerprint = planFingerprint r, pf_strategy = strategySignature r, pf_created = now\<rparr> db1) (\<lambda>db2.
     rbind (insert_history \<lparr>rh_goal = rr_GoalID r, rh_ordinal = next_ordinal db2 (rr_GoalID r),
              rh_evaluation = rr_EvaluationID r, rh_revision = nextPlan, rh_generation = nextGraph,
              rh_failure_class = re_FailureClass (rr_Evidence r), rh_evidence = evidenceFingerprint r,
              rh_plan_fingerprint = planFingerprint r, rh_strategy = strategySignature r,
              rh_progress = rr_Progress r, rh_progressed = gf_progressImproved f, rh_created = now\<rparr> db2) (\<lambda>db3.
       if count_where (reservable r g) (goals db3) \<noteq> 1 then Inl (Error ''replan reservation lost generation race'')
       else Inr (db3\<lparr>goals := update_where (reservable r g)
              (\<lambda>x. x\<lparr>gl_state := ''REPLANNING'', gl_consumed_replans := gl_consumed_replans x + 1,
                     gl_active_plan_revision := nextPlan, gl_active_graph_generation := nextGraph,
                     gl_updated := now, gl_version := gl_version x + 1\<rparr>) (goals db3)\<rparr>))))"

definition guard_wait :: "ReplanRequest \<Rightarrow> int \<Rightarrow> GoalDB \<Rightarrow> GoalDB" where
  "guard_wait r now db =
     db\<lparr>goals := update_where (\<lambda>x. gl_id x = rr_GoalID r \<and> gl_state x \<notin> {''SUCCEEDED'', ''FAILED'', ''CANCELED''})
       (\<lambda>x. x\<lparr>gl_state := ''NEEDS_APPROVAL'', gl_updated := now, gl_version := gl_version x + 1\<rparr>) (goals db)\<rparr>"

definition decision_of :: "string \<Rightarrow> string \<Rightarrow> int \<Rightarrow> int \<Rightarrow> ReplanDecision" where
  "decision_of requestState code nextPlan nextGraph =
     \<lparr>dc_Allowed = (requestState = ''ALLOWED''), dc_NeedsApproval = (requestState = ''NEEDS_APPROVAL''),
      dc_Code = code, dc_NextPlanRevision = nextPlan, dc_NextGraphGeneration = nextGraph, dc_Existing = False\<rparr>"

text \<open>The path without a recorded request, from the read of the goal to the end of the transaction.\<close>

definition guard_publish :: "publication option \<Rightarrow> ReplanRequest \<Rightarrow> ReplanDecision \<Rightarrow> GoalDB \<Rightarrow> (ReplanDecision \<times> GoalDB) result" where
  "guard_publish publish r out db =
     (case publish of
        Some pub \<Rightarrow>
          if dc_Allowed out then
            rbind (pub db out) (\<lambda>db'.
              if publishedReplanExists db' (rr_GoalID r) (dc_NextPlanRevision out) (dc_NextGraphGeneration out)
              then Inr (out, db') else Inl (Error ''REPLAN_PUBLICATION_MISSING''))
          else Inr (out, db)
      | None \<Rightarrow> Inr (out, db))"

definition guard_evaluate :: "publication option \<Rightarrow> string \<Rightarrow> ReplanRequest \<Rightarrow> int \<Rightarrow> (GoalDB, ReplanDecision) tx" where
  "guard_evaluate publish op r now db =
     rbind (select_row (\<lambda>g. gl_id g = rr_GoalID r) (goals db)) (\<lambda>g.
     rbind (usage_gate db (rr_GoalID r)) (\<lambda>usageErr.
       let f = guard_facts db r g;
           approvedOverride = (gl_state g = ''NEEDS_APPROVAL'' \<and> op \<noteq> [] \<and> publish \<noteq> None);
           (requestState, code) = guard_switch (publish \<noteq> None) approvedOverride r g now usageErr f;
           nextPlan = (if requestState = ''ALLOWED'' then gl_active_plan_revision g + 1 else 0);
           nextGraph = (if requestState = ''ALLOWED'' then gl_active_graph_generation g + 1 else 0)
       in rbind (guard_permission (publish \<noteq> None) op r g requestState db) (\<lambda>db1.
          rbind (insert_replan_request (replan_row r requestState code nextPlan nextGraph now) db1) (\<lambda>db2.
          rbind (if requestState = ''ALLOWED'' then guard_reserve r g f nextPlan nextGraph now db2
                 else if requestState = ''NEEDS_APPROVAL'' then Inr (guard_wait r now db2)
                 else Inr db2) (\<lambda>db3.
            guard_publish publish r (decision_of requestState code nextPlan nextGraph) db3)))))"

definition guard_replay :: "bool \<Rightarrow> ReplanRequest \<Rightarrow> ReplanRow \<Rightarrow> (GoalDB, ReplanDecision) tx" where
  "guard_replay publishing r row db =
     (if rq_state row = ''ALLOWED'' \<and> publishing \<and>
         \<not> publishedReplanExists db (rr_GoalID r) (rq_next_plan row) (rq_next_graph row)
      then Inl (Error ''REPLAN_PUBLICATION_REPLAY_UNVERIFIED'')
      else Inr ((decision_of (rq_state row) (rq_decision_code row) (rq_next_plan row) (rq_next_graph row))
                  \<lparr>dc_Existing := True\<rparr>, db))"

definition guardReplan_tx :: "publication option \<Rightarrow> string \<Rightarrow> ReplanRequest \<Rightarrow> int \<Rightarrow> (GoalDB, ReplanDecision) tx" where
  "guardReplan_tx publish op r now db =
     (let same = (\<lambda>q. rq_goal q = rr_GoalID r \<and> rq_evaluation q = rr_EvaluationID r) in
      case List.find same (replan_requests db) of
        Some row \<Rightarrow>
          if replay_conflict (publish \<noteq> None) r row then Inl (Error ''IDEMPOTENCY_CONFLICT'')
          else if rq_state row = ''NEEDS_APPROVAL'' \<and> publish \<noteq> None \<and> op \<noteq> []
          then guard_evaluate publish op r now
                 (db\<lparr>replan_requests := filter (\<lambda>q. \<not> same q) (replan_requests db)\<rparr>)
          else guard_replay (publish \<noteq> None) r row db
      | None \<Rightarrow> guard_evaluate publish op r now db)"

definition guardReplan :: "publication option \<Rightarrow> string \<Rightarrow> ReplanRequest \<Rightarrow> int \<Rightarrow> GoalDB \<Rightarrow> ReplanDecision result \<times> GoalDB" where
  "guardReplan publish op r now db =
     (case guard_request_ok r of
        Inl e \<Rightarrow> (Inl e, db)
      | Inr _ \<Rightarrow> db_Tx (guardReplan_tx publish op r now) db)"

definition GuardReplan :: "ReplanRequest \<Rightarrow> int \<Rightarrow> GoalDB \<Rightarrow> ReplanDecision result \<times> GoalDB" where
  "GuardReplan r now db = guardReplan None [] r now db"

text \<open>The check for a nil callback is the type: \<open>pub\<close> is given.\<close>

definition GuardAndPublishReplan :: "publication \<Rightarrow> string \<Rightarrow> ReplanRequest \<Rightarrow> int \<Rightarrow> GoalDB \<Rightarrow> ReplanDecision result \<times> GoalDB" where
  "GuardAndPublishReplan pub op r now db = guardReplan (Some pub) op r now db"

section \<open>Shape of the guard\<close>

lemma go_switch_memb: "go_switch cs d = y \<Longrightarrow> y \<in> insert d (snd ` set cs)"
  using go_switch_in by metis

text \<open>The callback writes jobs, bindings and plans, not the tables of the guard.\<close>

definition publication_ok :: "publication \<Rightarrow> bool" where
  "publication_ok pub \<longleftrightarrow> (\<forall>db d db'. pub db d = Inr db' \<longrightarrow>
     goals db' = goals db \<and> replan_history db' = replan_history db \<and> replan_requests db' = replan_requests db \<and>
     replan_permissions db' = replan_permissions db)"

abbreviation publish_ok :: "publication option \<Rightarrow> bool" where
  "publish_ok publish \<equiv> (case publish of None \<Rightarrow> True | Some pub \<Rightarrow> publication_ok pub)"

lemma guard_publish_keeps:
  assumes "guard_publish publish r out db = Inr (d, db')" "publish_ok publish"
  shows "d = out \<and> goals db' = goals db \<and> replan_history db' = replan_history db \<and>
    replan_requests db' = replan_requests db \<and> replan_permissions db' = replan_permissions db"
  using assms
  by (auto simp: guard_publish_def publication_ok_def rbind_eq_Inr_iff split: option.splits if_splits)

text \<open>What an allowed request satisfies.\<close>

definition replan_admissible :: "bool \<Rightarrow> GoalDB \<Rightarrow> ReplanRequest \<Rightarrow> GoalRow \<Rightarrow> int \<Rightarrow> bool" where
  "replan_admissible approvedOverride db r g now \<longleftrightarrow>
     \<not> terminal (gl_state g) \<and> gl_active_plan_revision g = rr_ExpectedPlanRevision r \<and>
     gl_active_graph_generation g = rr_ExpectedGraphGeneration r \<and>
     gl_consumed_attempts g < gl_max_total_attempts g \<and> gl_consumed_replans g < gl_max_replans g \<and>
     (gl_max_wall_time_ms g > 0 \<longrightarrow> now < gl_created g + gl_max_wall_time_ms g) \<and>
     (gl_deadline g > 0 \<longrightarrow> now < gl_deadline g) \<and>
     \<not> gf_seenEvidence (guard_facts db r g) \<and> \<not> gf_seenPlan (guard_facts db r g) \<and>
     (approvedOverride \<or> \<not> gf_seenStrategy (guard_facts db r g) \<and> \<not> gf_repeatedFailure (guard_facts db r g) \<and>
        (gf_progressImproved (guard_facts db r g) \<or> \<not> gf_previousNoProgress (guard_facts db r g)))"

lemma guard_switch_allowed_iff:
  "guard_switch publishing ov r g now u (guard_facts db r g) = (''ALLOWED'', code) \<longleftrightarrow>
     u = None \<and> code = ''ALLOWED'' \<and> replan_admissible ov db r g now"
  unfolding guard_switch_def
  by (subst go_switch_default_iff [of "\<lambda>x. fst x = ''ALLOWED''"]) (auto simp: replan_admissible_def)

lemma guard_switch_states:
  "guard_switch publishing ov r g now u f = (st, code) \<Longrightarrow> st \<in> {''ALLOWED'', ''REJECTED'', ''NEEDS_APPROVAL''}"
  unfolding guard_switch_def by (drule go_switch_memb) (auto split: if_splits)

lemma usage_gate_None: "usage_gate db g = Inr None \<longleftrightarrow> CheckUsageTx db g = Inr ()"
  by (auto simp: usage_gate_def split: sum.splits error.splits if_splits)

lemma ConsumeReplanPermissionTx_keeps:
  "ConsumeReplanPermissionTx goalID op revision gen db = Inr db' \<Longrightarrow>
   goals db' = goals db \<and> replan_history db' = replan_history db \<and> replan_requests db' = replan_requests db"
  by (auto simp: ConsumeReplanPermissionTx_def Let_def split: if_splits)

lemma guard_permission_keeps:
  "guard_permission publishing op r g st db = Inr db' \<Longrightarrow>
   goals db' = goals db \<and> replan_history db' = replan_history db \<and> replan_requests db' = replan_requests db"
  by (auto simp: guard_permission_def dest: ConsumeReplanPermissionTx_keeps split: if_splits)

lemma insert_replan_request_keeps:
  "insert_replan_request q db = Inr db' \<Longrightarrow>
   goals db' = goals db \<and> replan_history db' = replan_history db \<and> replan_permissions db' = replan_permissions db \<and>
   replan_requests db' = replan_requests db @ [q]"
  by (auto simp: insert_replan_request_def rbind_eq_Inr_iff insert_row_eq_Inr_iff split: if_splits)

abbreviation reserve_row :: "int \<Rightarrow> int \<Rightarrow> int \<Rightarrow> GoalRow \<Rightarrow> GoalRow" where
  "reserve_row nextPlan nextGraph now x \<equiv>
     x\<lparr>gl_state := ''REPLANNING'', gl_consumed_replans := gl_consumed_replans x + 1,
       gl_active_plan_revision := nextPlan, gl_active_graph_generation := nextGraph,
       gl_updated := now, gl_version := gl_version x + 1\<rparr>"

lemma guard_reserve_shape:
  assumes "guard_reserve r g f nextPlan nextGraph now db = Inr db'"
  shows "goals db' = update_where (reservable r g) (reserve_row nextPlan nextGraph now) (goals db) \<and>
    count_where (reservable r g) (goals db) = 1 \<and>
    (\<exists>h. replan_history db' = replan_history db @ [h] \<and> rh_goal h = rr_GoalID r) \<and>
    replan_requests db' = replan_requests db \<and> replan_permissions db' = replan_permissions db"
  using assms
  by (auto simp: guard_reserve_def rbind_eq_Inr_iff insert_evidence_def insert_plan_fingerprint_def
      insert_history_def insert_row_eq_Inr_iff split: if_splits)

lemma guard_evaluate_cases:
  assumes "guard_evaluate publish op r now db = Inr (d, db')" "publish_ok publish"
  obtains g u code st where "select_row (\<lambda>g. gl_id g = rr_GoalID r) (goals db) = Inr g"
    "usage_gate db (rr_GoalID r) = Inr u"
    "guard_switch (publish \<noteq> None) (gl_state g = ''NEEDS_APPROVAL'' \<and> op \<noteq> [] \<and> publish \<noteq> None) r g now u
       (guard_facts db r g) = (st, code)"
    "d = decision_of st code (if st = ''ALLOWED'' then gl_active_plan_revision g + 1 else 0)
                             (if st = ''ALLOWED'' then gl_active_graph_generation g + 1 else 0)"
    "\<exists>db1. guard_permission (publish \<noteq> None) op r g st db = Inr db1 \<and>
       replan_permissions db' = replan_permissions db1"
    "replan_requests db' = replan_requests db @ [replan_row r st code (dc_NextPlanRevision d) (dc_NextGraphGeneration d) now]"
    "st = ''ALLOWED'' \<Longrightarrow>
       goals db' = update_where (reservable r g)
         (reserve_row (gl_active_plan_revision g + 1) (gl_active_graph_generation g + 1) now) (goals db) \<and>
       count_where (reservable r g) (goals db) = 1 \<and>
       (\<exists>h. replan_history db' = replan_history db @ [h] \<and> rh_goal h = rr_GoalID r) \<and>
       (publish \<noteq> None \<longrightarrow> publishedReplanExists db' (rr_GoalID r) (dc_NextPlanRevision d) (dc_NextGraphGeneration d))"
    "st = ''NEEDS_APPROVAL'' \<Longrightarrow> goals db' = goals (guard_wait r now db) \<and> replan_history db' = replan_history db"
    "st = ''REJECTED'' \<Longrightarrow> goals db' = goals db \<and> replan_history db' = replan_history db"
proof -
  from assms(1) obtain g u where g: "select_row (\<lambda>g. gl_id g = rr_GoalID r) (goals db) = Inr g"
    "usage_gate db (rr_GoalID r) = Inr u"
    by (auto simp: guard_evaluate_def rbind_eq_Inr_iff)
  obtain st code where sw: "guard_switch (publish \<noteq> None)
     (gl_state g = ''NEEDS_APPROVAL'' \<and> op \<noteq> [] \<and> publish \<noteq> None) r g now u (guard_facts db r g) = (st, code)"
    by (metis surj_pair)
  let ?np = "if st = ''ALLOWED'' then gl_active_plan_revision g + 1 else 0"
  let ?ng = "if st = ''ALLOWED'' then gl_active_graph_generation g + 1 else 0"
  from assms(1) g sw obtain db1 db2 db3 where run:
    "guard_permission (publish \<noteq> None) op r g st db = Inr db1"
    "insert_replan_request (replan_row r st code ?np ?ng now) db1 = Inr db2"
    "(if st = ''ALLOWED'' then guard_reserve r g (guard_facts db r g) ?np ?ng now db2
       else if st = ''NEEDS_APPROVAL'' then Inr (guard_wait r now db2) else Inr db2) = Inr db3"
    "guard_publish publish r (decision_of st code ?np ?ng) db3 = Inr (d, db')"
    unfolding guard_evaluate_def by (auto simp: rbind_eq_Inr_iff Let_def)
  note p = guard_permission_keeps [OF run(1)] and i = insert_replan_request_keeps [OF run(2)]
    and k = guard_publish_keeps [OF run(4) assms(2)]
  have st: "st \<in> {''ALLOWED'', ''REJECTED'', ''NEEDS_APPROVAL''}" using sw by (rule guard_switch_states)
  have d: "d = decision_of st code ?np ?ng" using k by simp
  have pub: "publish \<noteq> None \<longrightarrow> publishedReplanExists db' (rr_GoalID r) ?np ?ng" if "st = ''ALLOWED''"
    using run(4) that
    by (auto simp: guard_publish_def decision_of_def rbind_eq_Inr_iff split: option.splits if_splits)
  have s3: "replan_permissions db3 = replan_permissions db2" "replan_requests db3 = replan_requests db2"
    using run(3) by (auto simp: guard_wait_def dest!: guard_reserve_shape split: if_splits)
  show thesis
  proof (rule that [OF g sw d])
    show "\<exists>db1. guard_permission (publish \<noteq> None) op r g st db = Inr db1 \<and>
       replan_permissions db' = replan_permissions db1"
      using run(1) i k s3 by auto
    show "replan_requests db' = replan_requests db @
        [replan_row r st code (dc_NextPlanRevision d) (dc_NextGraphGeneration d) now]"
      using p i k s3 d by (simp add: decision_of_def)
    show "goals db' = update_where (reservable r g)
         (reserve_row (gl_active_plan_revision g + 1) (gl_active_graph_generation g + 1) now) (goals db) \<and>
       count_where (reservable r g) (goals db) = 1 \<and>
       (\<exists>h. replan_history db' = replan_history db @ [h] \<and> rh_goal h = rr_GoalID r) \<and>
       (publish \<noteq> None \<longrightarrow> publishedReplanExists db' (rr_GoalID r) (dc_NextPlanRevision d) (dc_NextGraphGeneration d))"
      if "st = ''ALLOWED''"
    proof -
      from run(3) that have "guard_reserve r g (guard_facts db r g) (gl_active_plan_revision g + 1)
          (gl_active_graph_generation g + 1) now db2 = Inr db3" by simp
      from guard_reserve_shape [OF this] show ?thesis using p i k pub that d by (simp add: decision_of_def)
    qed
    show "goals db' = goals (guard_wait r now db) \<and> replan_history db' = replan_history db" if "st = ''NEEDS_APPROVAL''"
      using run(3) p i k that by (auto simp: guard_wait_def)
    show "goals db' = goals db \<and> replan_history db' = replan_history db" if "st = ''REJECTED''"
      using run(3) p i k that by auto
  qed
qed


text \<open>Forgetting a pending request leaves everything the evaluation reads.\<close>

lemma guard_reads_requests [simp]:
  "guard_facts (db\<lparr>replan_requests := q\<rparr>) r g = guard_facts db r g"
  "CheckUsageTx (db\<lparr>replan_requests := q\<rparr>) goal = CheckUsageTx db goal"
  "usage_gate (db\<lparr>replan_requests := q\<rparr>) goal = usage_gate db goal"
  "guard_permission publishing op r g st (db\<lparr>replan_requests := q\<rparr>) =
     map_sum id (\<lambda>db'. db'\<lparr>replan_requests := q\<rparr>) (guard_permission publishing op r g st db)"
proof -
  show "guard_facts (db\<lparr>replan_requests := q\<rparr>) r g = guard_facts db r g"
    by (simp add: guard_facts_def recent_history_def)
  have "usage_rows (db\<lparr>replan_requests := q\<rparr>) goal = usage_rows db goal"
    by (simp add: usage_rows_def)
  then show "CheckUsageTx (db\<lparr>replan_requests := q\<rparr>) goal = CheckUsageTx db goal"
    by (simp add: CheckUsageTx_def RemainingUsageTx_def cong: option.case_cong if_cong)
  then show "usage_gate (db\<lparr>replan_requests := q\<rparr>) goal = usage_gate db goal"
    by (simp add: usage_gate_def)
  show "guard_permission publishing op r g st (db\<lparr>replan_requests := q\<rparr>) =
     map_sum id (\<lambda>db'. db'\<lparr>replan_requests := q\<rparr>) (guard_permission publishing op r g st db)"
    by (simp add: guard_permission_def ConsumeReplanPermissionTx_def permission_usable_def [abs_def] Let_def)
qed

lemma guardReplan_cases:
  assumes "guardReplan publish op r now db = (Inr d, db')"
  obtains (replayed) row where "guard_request_ok r = Inr ()"
      "List.find (\<lambda>q. rq_goal q = rr_GoalID r \<and> rq_evaluation q = rr_EvaluationID r) (replan_requests db) = Some row"
      "guard_replay (publish \<noteq> None) r row db = Inr (d, db')"
      "\<not> replay_conflict (publish \<noteq> None) r row"
      "\<not> (rq_state row = ''NEEDS_APPROVAL'' \<and> publish \<noteq> None \<and> op \<noteq> [])"
  | (fresh) q where "guard_request_ok r = Inr ()"
      "guard_evaluate publish op r now (db\<lparr>replan_requests := q\<rparr>) = Inr (d, db')"
      "\<forall>x\<in>set q. \<not> (rq_goal x = rr_GoalID r \<and> rq_evaluation x = rr_EvaluationID r)"
proof -
  let ?same = "\<lambda>q. rq_goal q = rr_GoalID r \<and> rq_evaluation q = rr_EvaluationID r"
  from assms have ok: "guard_request_ok r = Inr ()" and tx: "guardReplan_tx publish op r now db = Inr (d, db')"
    by (auto simp: guardReplan_def db_Tx_Inr_iff split: sum.splits)
  show thesis
  proof (cases "List.find ?same (replan_requests db)")
    case None
    then have "\<forall>x\<in>set (replan_requests db). \<not> ?same x" by (simp only: find_None_all)
    with fresh [of "replan_requests db"] ok tx None show ?thesis by (simp add: guardReplan_tx_def)
  next
    case (Some row)
    show ?thesis
    proof (cases "rq_state row = ''NEEDS_APPROVAL'' \<and> publish \<noteq> None \<and> op \<noteq> []")
      case True
      with tx Some ok show ?thesis
        by (intro fresh [of "filter (\<lambda>q. \<not> ?same q) (replan_requests db)"])
          (auto simp: guardReplan_tx_def split: if_splits)
    next
      case False
      with tx Some ok show ?thesis
        by (intro replayed [of row]) (auto simp: guardReplan_tx_def split: if_splits)
    qed
  qed
qed

lemma fresh_not_existing:
  "guard_evaluate publish op r now db = Inr (d, db') \<Longrightarrow> publish_ok publish \<Longrightarrow> \<not> dc_Existing d"
  by (erule guard_evaluate_cases) (simp_all add: decision_of_def)

lemma replay_existing: "guard_replay publishing r row db = Inr (d, db') \<Longrightarrow> dc_Existing d \<and> db' = db"
  by (auto simp: guard_replay_def split: if_splits)

text \<open>C3: an allowed replan is admissible and takes exactly the next revision. The goal is not terminal, the
  request names its current revision and generation, attempts, replans, wall time, deadline and usage
  leave room, the evidence and the plan are new, and loop, repetition and progress checks pass unless a
  human approved; the goal's revision, generation and replan count each grow by one and no other goal
  changes.\<close>

theorem replan_allowed:
  assumes "goals_ok db" "publish_ok publish" "guardReplan publish op r now db = (Inr d, db')"
    and "dc_Allowed d" "\<not> dc_Existing d"
  shows "\<exists>g g'. g \<in> set (goals db) \<and> gl_id g = rr_GoalID r \<and>
    replan_admissible (gl_state g = ''NEEDS_APPROVAL'' \<and> op \<noteq> [] \<and> publish \<noteq> None) db r g now \<and>
    CheckUsageTx db (rr_GoalID r) = Inr () \<and>
    dc_NextPlanRevision d = gl_active_plan_revision g + 1 \<and>
    dc_NextGraphGeneration d = gl_active_graph_generation g + 1 \<and>
    set (goals db') = insert g' (set (goals db) - {g}) \<and>
    gl_state g' = ''REPLANNING'' \<and> gl_consumed_replans g' = gl_consumed_replans g + 1 \<and>
    gl_active_plan_revision g' = dc_NextPlanRevision d \<and> gl_active_graph_generation g' = dc_NextGraphGeneration d"
  using assms(3)
proof (cases rule: guardReplan_cases)
  case (replayed row)
  with assms(5) replay_existing show ?thesis by blast
next
  case (fresh q)
  from fresh(2) assms(2) show ?thesis
  proof (rule guard_evaluate_cases)
    fix g u code st
    assume sel: "select_row (\<lambda>g. gl_id g = rr_GoalID r) (goals (db\<lparr>replan_requests := q\<rparr>)) = Inr g"
      and use: "usage_gate (db\<lparr>replan_requests := q\<rparr>) (rr_GoalID r) = Inr u"
      and sw: "guard_switch (publish \<noteq> None) (gl_state g = ''NEEDS_APPROVAL'' \<and> op \<noteq> [] \<and> publish \<noteq> None) r g now u
        (guard_facts (db\<lparr>replan_requests := q\<rparr>) r g) = (st, code)"
      and d: "d = decision_of st code (if st = ''ALLOWED'' then gl_active_plan_revision g + 1 else 0)
                             (if st = ''ALLOWED'' then gl_active_graph_generation g + 1 else 0)"
      and al: "st = ''ALLOWED'' \<Longrightarrow> goals db' = update_where (reservable r g)
         (reserve_row (gl_active_plan_revision g + 1) (gl_active_graph_generation g + 1) now)
         (goals (db\<lparr>replan_requests := q\<rparr>)) \<and>
       count_where (reservable r g) (goals (db\<lparr>replan_requests := q\<rparr>)) = 1 \<and>
       (\<exists>h. replan_history db' = replan_history (db\<lparr>replan_requests := q\<rparr>) @ [h] \<and> rh_goal h = rr_GoalID r) \<and>
       (publish \<noteq> None \<longrightarrow> publishedReplanExists db' (rr_GoalID r) (dc_NextPlanRevision d) (dc_NextGraphGeneration d))"
    from d assms(4) have st: "st = ''ALLOWED''" by (simp add: decision_of_def)
    from sel have g: "g \<in> set (goals db)" "gl_id g = rr_GoalID r" by (auto dest: select_row_InrD)
    from sw st have adm: "u = None" "replan_admissible (gl_state g = ''NEEDS_APPROVAL'' \<and> op \<noteq> [] \<and> publish \<noteq> None) db r g now"
      by (simp_all add: guard_switch_allowed_iff)
    let ?F = "reserve_row (gl_active_plan_revision g + 1) (gl_active_graph_generation g + 1) now"
    have "reservable r g g" using adm(2) g(2) by (auto simp: reservable_def replan_admissible_def terminal_def)
    moreover have "x = g" if "x \<in> set (goals db)" "reservable r g x" for x
      using goals_unique [OF assms(1) that(1) g(1)] that(2) g(2) by (simp add: reservable_def)
    ultimately have "set (goals db') = insert (?F g) (set (goals db) - {g})"
      using al [OF st] set_update_where_one [OF g(1), of "reservable r g" ?F] by simp
    with g adm(2) use adm(1) d st show ?thesis
      by (intro exI [of _ g] exI [of _ "?F g"] conjI) (simp_all add: decision_of_def usage_gate_None)
  qed
qed


section \<open>The goal tables as a transition system\<close>

text \<open>One committed operation of the packages \<open>goal\<close> and \<open>governance\<close>.\<close>

inductive goal_step :: "GoalDB \<Rightarrow> GoalDB \<Rightarrow> bool" where
  step_create: "Create c now db = Inr db' \<Longrightarrow> goal_step db db'"
| step_reserve: "ReserveAttempt goalID now db = (Inr (), db') \<Longrightarrow> goal_step db db'"
| step_register: "RegisterPlanFingerprint goalID revision plan now db = Inr db' \<Longrightarrow> goal_step db db'"
| step_guard: "publish_ok publish \<Longrightarrow> guardReplan publish op r now db = (Inr d, db') \<Longrightarrow> goal_step db db'"
| step_decide: "DecideTx actor goalID req now now' db = Inr (rcpt, db') \<Longrightarrow> goal_step db db'"
| step_usage: "RecordUsageTx goalID u now db = Inr db' \<Longrightarrow> goal_step db db'"

inductive_cases goal_step_cases: "goal_step db db'"

text \<open>The guard's history has one row per replan of each goal.\<close>

definition goal_inv :: "GoalDB \<Rightarrow> bool" where
  "goal_inv db \<longleftrightarrow> goals_ok db \<and> (\<forall>h\<in>set (replan_history db). goal_exists db (rh_goal h)) \<and>
     (\<forall>g\<in>set (goals db). int (count_where (\<lambda>h. rh_goal h = gl_id g) (replan_history db)) = gl_consumed_replans g)"

lemma count_where_append [simp]: "count_where P (xs @ ys) = count_where P xs + count_where P ys"
  by (simp add: count_where_def)

lemma count_where_single [simp]: "count_where P [x] = (if P x then 1 else 0)"
  by (simp add: count_where_def)

lemma goal_exists_iff: "goal_exists db x \<longleftrightarrow> x \<in> gl_id ` set (goals db)"
  by (auto simp: goal_exists_def list_ex_iff)

lemma image_update_where: "(\<And>x. k (f x) = k x) \<Longrightarrow> k ` set (update_where P f rows) = k ` set rows"
  by (metis list.set_map map_update_where)

text \<open>An operation that rewrites goals in place and appends \<open>hs\<close> to the history.\<close>

lemma goal_inv_update:
  assumes "goal_inv db" "goals db' = update_where P f (goals db)" "replan_history db' = replan_history db @ hs"
    and ids: "\<And>x. gl_id (f x) = gl_id x"
    and rows: "\<And>x. x \<in> set (goals db) \<Longrightarrow> P x \<Longrightarrow> goal_row_ok x \<Longrightarrow> goal_row_ok (f x)"
    and replans: "\<And>x. x \<in> set (goals db) \<Longrightarrow> gl_consumed_replans (if P x then f x else x) =
       gl_consumed_replans x + int (count_where (\<lambda>h. rh_goal h = gl_id x) hs)"
    and refs: "\<And>h. h \<in> set hs \<Longrightarrow> rh_goal h \<in> gl_id ` set (goals db)"
  shows "goal_inv db'"
proof -
  have "goals_ok (db\<lparr>goals := update_where P f (goals db)\<rparr>)"
    using assms(1) ids rows by (intro goals_ok_update) (auto simp: goal_inv_def)
  then have "goals_ok db'" using assms(2) by (simp add: goals_ok_def)
  moreover have exists: "gl_id ` set (goals db') = gl_id ` set (goals db)"
    unfolding assms(2) using ids by (rule image_update_where)
  moreover have "int (count_where (\<lambda>h. rh_goal h = gl_id y) (replan_history db')) = gl_consumed_replans y"
    if y: "y \<in> set (goals db')" for y
  proof -
    from y obtain x where x: "x \<in> set (goals db)" "y = (if P x then f x else x)"
      by (auto simp: assms(2) in_update_where_iff)
    then have "gl_id y = gl_id x" using ids by simp
    then show ?thesis
      using assms(1,3) x replans [OF x(1)] by (simp add: goal_inv_def)
  qed
  moreover have "\<forall>h\<in>set (replan_history db'). rh_goal h \<in> gl_id ` set (goals db)"
    using assms(1,3) refs by (auto simp: goal_inv_def goal_exists_iff)
  ultimately show ?thesis by (simp add: goal_inv_def goal_exists_iff)
qed

lemma goal_inv_same:
  "goal_inv db \<Longrightarrow> goals db' = goals db \<Longrightarrow> replan_history db' = replan_history db \<Longrightarrow> goal_inv db'"
  by (simp add: goal_inv_def goals_ok_def goal_exists_def)

lemma goal_inv_Create:
  assumes "goal_inv db" "Create c now db = Inr db'"
  shows "goal_inv db'"
proof -
  obtain g where g: "insert_goal g db = Inr db'" "gl_consumed_replans g = 0" "goal_row_ok g"
    using assms(2)
    by (auto simp: Create_def Let_def goal_row_ok_def insert_goal_def split: if_splits)
  then have db': "db' = db\<lparr>goals := goals db @ [g]\<rparr>" "\<forall>x\<in>set (goals db). gl_id g \<noteq> gl_id x"
    by (auto simp: insert_goal_def rbind_eq_Inr_iff insert_row_eq_Inr_iff split: if_splits)
  then have "\<forall>h\<in>set (replan_history db). rh_goal h \<noteq> gl_id g"
    using assms(1) unfolding goal_inv_def goal_exists_iff by fastforce
  then have "count_where (\<lambda>h. rh_goal h = gl_id g) (replan_history db) = 0" by simp
  with db' assms(1) g goals_ok_insert [OF _ g(1,3)] show ?thesis
    by (auto simp: goal_inv_def goal_exists_iff simp del: count_where_0_iff)
qed

lemma goal_inv_ReserveAttempt:
  assumes "goal_inv db" "ReserveAttempt goalID now db = (Inr (), db')"
  shows "goal_inv db'"
proof -
  from assms(2) obtain g where g: "g \<in> set (goals db)" "gl_id g = goalID"
    and db': "db' = db\<lparr>goals := update_where (\<lambda>x. gl_id x = goalID \<and> gl_consumed_attempts x < gl_max_total_attempts g)
      (\<lambda>x. x\<lparr>gl_consumed_attempts := gl_consumed_attempts x + 1, gl_updated := now, gl_version := gl_version x + 1\<rparr>)
      (goals db)\<rparr>"
    by (auto simp: ReserveAttempt_def ReserveAttempt_tx_def db_Tx_Inr_iff rbind_eq_Inr_iff Let_def
        dest!: select_row_InrD split: if_splits)
  have "x = g" if "x \<in> set (goals db)" "gl_id x = goalID" for x
    using assms(1) that g goals_unique [of db x g] by (simp add: goal_inv_def)
  then have row: "goal_row_ok (x\<lparr>gl_consumed_attempts := gl_consumed_attempts x + 1, gl_updated := now,
      gl_version := gl_version x + 1\<rparr>)"
    if "x \<in> set (goals db)" "gl_id x = goalID \<and> gl_consumed_attempts x < gl_max_total_attempts g" "goal_row_ok x" for x
    using that by (fastforce simp: goal_row_ok_def goal_check_def)
  have gs: "goals db' = update_where (\<lambda>x. gl_id x = goalID \<and> gl_consumed_attempts x < gl_max_total_attempts g)
      (\<lambda>x. x\<lparr>gl_consumed_attempts := gl_consumed_attempts x + 1, gl_updated := now, gl_version := gl_version x + 1\<rparr>)
      (goals db)" and h: "replan_history db' = replan_history db @ []"
    by (simp_all add: db')
  show ?thesis
    by (rule goal_inv_update [OF assms(1) gs h _ row]) (simp_all add: count_where_def)
qed

lemma goal_inv_evaluate:
  assumes "goal_inv db" "guard_evaluate publish op r now db = Inr (d, db')" "publish_ok publish"
  shows "goal_inv db'"
  using assms(2,3)
proof (rule guard_evaluate_cases)
  fix g u code st
  assume sel: "select_row (\<lambda>g. gl_id g = rr_GoalID r) (goals db) = Inr g"
    and sw: "guard_switch (publish \<noteq> None) (gl_state g = ''NEEDS_APPROVAL'' \<and> op \<noteq> [] \<and> publish \<noteq> None) r g now u
      (guard_facts db r g) = (st, code)"
    and al: "st = ''ALLOWED'' \<Longrightarrow> goals db' = update_where (reservable r g)
       (reserve_row (gl_active_plan_revision g + 1) (gl_active_graph_generation g + 1) now) (goals db) \<and>
     count_where (reservable r g) (goals db) = 1 \<and>
     (\<exists>h. replan_history db' = replan_history db @ [h] \<and> rh_goal h = rr_GoalID r) \<and>
     (publish \<noteq> None \<longrightarrow> publishedReplanExists db' (rr_GoalID r) (dc_NextPlanRevision d) (dc_NextGraphGeneration d))"
    and ap: "st = ''NEEDS_APPROVAL'' \<Longrightarrow> goals db' = goals (guard_wait r now db) \<and> replan_history db' = replan_history db"
    and rj: "st = ''REJECTED'' \<Longrightarrow> goals db' = goals db \<and> replan_history db' = replan_history db"
  from guard_switch_states [OF sw] consider "st = ''ALLOWED''" | "st = ''NEEDS_APPROVAL''" | "st = ''REJECTED''" by blast
  then show "goal_inv db'"
  proof cases
    case 1
    let ?F = "reserve_row (gl_active_plan_revision g + 1) (gl_active_graph_generation g + 1) now"
    have g: "g \<in> set (goals db)" "gl_id g = rr_GoalID r" using sel by (auto dest: select_row_InrD)
    have ok: "goals_ok db" using assms(1) by (simp add: goal_inv_def)
    have adm: "reservable r g g"
      using sw 1 g(2) by (auto simp: guard_switch_allowed_iff reservable_def replan_admissible_def terminal_def)
    have only: "x = g" if "x \<in> set (goals db)" "gl_id x = rr_GoalID r" for x
      using goals_unique [OF ok that(1) g(1)] that(2) g(2) by simp
    obtain h where h: "replan_history db' = replan_history db @ [h]" "rh_goal h = rr_GoalID r"
      and gs: "goals db' = update_where (reservable r g) ?F (goals db)"
      using al [OF 1] by blast
    show ?thesis
    proof (rule goal_inv_update [OF assms(1) gs h(1)])
      show "gl_id (?F x) = gl_id x" for x by simp
      show "goal_row_ok (?F x)" if "x \<in> set (goals db)" "reservable r g x" "goal_row_ok x" for x
      proof -
        have "x = g" using only [OF that(1)] that(2) by (simp add: reservable_def)
        with that(2,3) show ?thesis by (simp add: goal_row_ok_def goal_check_def reservable_def goal_states_def)
      qed
      show "gl_consumed_replans (if reservable r g x then ?F x else x) =
          gl_consumed_replans x + int (count_where (\<lambda>h. rh_goal h = gl_id x) [h])" if "x \<in> set (goals db)" for x
        using only [OF that] adm h(2) by (cases "gl_id x = rr_GoalID r") (simp_all add: reservable_def)
      show "rh_goal k \<in> gl_id ` set (goals db)" if "k \<in> set [h]" for k
        using that h(2) g(1) unfolding g(2) [symmetric] by simp
    qed
  next
    case 2
    let ?P = "\<lambda>x. gl_id x = rr_GoalID r \<and> gl_state x \<notin> {''SUCCEEDED'', ''FAILED'', ''CANCELED''}"
    let ?F = "\<lambda>x. x\<lparr>gl_state := ''NEEDS_APPROVAL'', gl_updated := now, gl_version := gl_version x + 1\<rparr>"
    from 2 ap have w: "goals db' = update_where ?P ?F (goals db)" "replan_history db' = replan_history db @ []"
      by (simp_all add: guard_wait_def)
    show ?thesis
      by (rule goal_inv_update [OF assms(1) w])
        (simp_all add: goal_row_ok_def goal_check_def goal_states_def count_where_def)
  next
    case 3
    with rj goal_inv_same [OF assms(1)] show ?thesis by blast
  qed
qed

lemma goal_inv_DecideTx:
  assumes "goal_inv db" "DecideTx actor goalID req now now' db = Inr (rcpt, db')"
  shows "goal_inv db'"
  using assms(2)
proof (cases rule: DecideTx_cases)
  case (applied g state maxA maxR db1)
  have "replan_history db1 = replan_history db"
    using applied(8)
    by (auto simp: decide_effect_def Let_def rbind_eq_Inr_iff raise_policy_def ensure_policy_def
        split: if_splits option.splits)
  moreover have "replan_history db' = replan_history db1"
    using applied(9)
    by (auto simp: decide_write_def Let_def rbind_eq_Inr_iff insert_decision_def insert_permission_def split: if_splits)
  ultimately have h: "replan_history db' = replan_history db" by simp
  have ok: "goals_ok db'"
    using assms(1) by (intro goals_ok_DecideTx [OF _ assms(2)]) (simp add: goal_inv_def)
  let ?F = "\<lambda>x. x\<lparr>gl_state := state, gl_version := gl_version g + 1, gl_updated := now,
             gl_max_total_attempts := maxA, gl_max_replans := maxR\<rparr>"
  have gs: "goals db' = update_where (\<lambda>x. gl_id x = goalID) ?F (goals db)"
    using decide_write_shape [OF applied(9)] decide_effect_shape [OF applied(8)] by simp
  show ?thesis
  proof (rule goal_inv_update [OF assms(1) gs, of "[]"])
    show "goal_row_ok (?F x)" if "x \<in> set (goals db)" "gl_id x = goalID" "goal_row_ok x" for x
    proof -
      have "?F x \<in> set (goals db')" using that by (auto simp: gs in_update_where_iff)
      with ok show ?thesis by (auto simp: goals_ok_def list_all_iff)
    qed
  qed (simp_all add: h count_where_def)
qed (use assms in simp)


lemma goal_inv_guardReplan:
  assumes "goal_inv db" "guardReplan publish op r now db = (Inr d, db')" "publish_ok publish"
  shows "goal_inv db'"
  using assms(2)
proof (cases rule: guardReplan_cases)
  case (replayed row)
  with assms(1) replay_existing show ?thesis by blast
next
  case (fresh q)
  have "goal_inv (db\<lparr>replan_requests := q\<rparr>)" by (rule goal_inv_same [OF assms(1)]) simp_all
  then show ?thesis using fresh(2) assms(3) by (rule goal_inv_evaluate)
qed

lemma RegisterPlanFingerprint_keeps:
  "RegisterPlanFingerprint goalID revision plan now db = Inr db' \<Longrightarrow>
   goals db' = goals db \<and> replan_history db' = replan_history db"
  by (auto simp: RegisterPlanFingerprint_def rbind_eq_Inr_iff insert_plan_fingerprint_def split: if_splits)

lemma RecordUsageTx_keeps:
  "RecordUsageTx goalID u now db = Inr db' \<Longrightarrow> goals db' = goals db \<and> replan_history db' = replan_history db"
  by (auto simp: RecordUsageTx_def Let_def rbind_eq_Inr_iff insert_usage_def split: if_splits option.splits)

lemma goal_inv_step: "goal_step db db' \<Longrightarrow> goal_inv db \<Longrightarrow> goal_inv db'"
proof (induction rule: goal_step.induct)
  case (step_register goalID revision plan now db db')
  then show ?case using goal_inv_same RegisterPlanFingerprint_keeps by metis
next
  case (step_usage goalID u now db db')
  then show ?case using goal_inv_same RecordUsageTx_keeps by metis
qed (blast intro: goal_inv_Create goal_inv_ReserveAttempt goal_inv_guardReplan goal_inv_DecideTx)+

abbreviation no_goals :: "GoalDB \<Rightarrow> bool" where
  "no_goals db \<equiv> db = empty_db"

interpretation goal_system: step_system no_goals goal_step goal_inv
proof
  show "goal_inv db" if "no_goals db" for db
    using that by (simp add: goal_inv_def goals_ok_def empty_db_def)
  show "goal_inv db'" if "goal_inv db" "goal_step db db'" for db db'
    using that(2,1) by (rule goal_inv_step)
qed


section \<open>Terminal goals, replays and permissions\<close>

lemma in_update_where_unless: "g \<in> set rows \<Longrightarrow> \<not> P g \<Longrightarrow> g \<in> set (update_where P f rows)"
  by (auto simp: in_update_where_iff)

lemma terminal_goal_step:
  assumes "goal_step db db'" "goal_inv db" "g \<in> set (goals db)" "terminal (gl_state g)"
  shows "g \<in> set (goals db')"
  using assms
proof (induction rule: goal_step.induct)
  case (step_create c now db db')
  then show ?case
    by (auto simp: Create_def Let_def insert_goal_def rbind_eq_Inr_iff insert_row_eq_Inr_iff split: if_splits)
next
  case (step_reserve goalID now db db')
  from step_reserve.hyps obtain x where x: "x \<in> set (goals db)" "gl_id x = goalID" "\<not> terminal (gl_state x)"
    and db': "goals db' = update_where (\<lambda>y. gl_id y = goalID \<and> gl_consumed_attempts y < gl_max_total_attempts x)
      (\<lambda>y. y\<lparr>gl_consumed_attempts := gl_consumed_attempts y + 1, gl_updated := now, gl_version := gl_version y + 1\<rparr>)
      (goals db)"
    by (auto simp: ReserveAttempt_def ReserveAttempt_tx_def db_Tx_Inr_iff rbind_eq_Inr_iff Let_def
        dest!: select_row_InrD split: if_splits)
  have "gl_id g \<noteq> goalID"
    using goals_unique [of db g x] step_reserve.prems x by (auto simp: goal_inv_def)
  then show ?case using step_reserve.prems(2) by (auto simp: db' intro: in_update_where_unless)
next
  case (step_guard publish op r now db d db')
  from step_guard.hyps(2) show ?case
  proof (cases rule: guardReplan_cases)
    case (replayed row)
    with step_guard.prems(2) replay_existing show ?thesis by blast
  next
    case (fresh q)
    from fresh(2) step_guard.hyps(1) show ?thesis
    proof (rule guard_evaluate_cases, goal_cases)
      case (1 x u code st)
      have "\<not> reservable r x g" "gl_state g \<in> {''SUCCEEDED'', ''FAILED'', ''CANCELED''}"
        using step_guard.prems(3) by (auto simp: reservable_def terminal_def)
      with guard_switch_states [OF 1(3)] 1(7-9) step_guard.prems(2) show ?case
        by (auto simp: guard_wait_def intro: in_update_where_unless)
    qed
  qed
next
  case (step_decide actor goalID req now now' db rcpt db')
  from step_decide.hyps show ?case
  proof (cases rule: DecideTx_cases)
    case (applied x state maxA maxR db1)
    have "\<not> terminal (gl_state x)" using applied(7) by (simp add: decide_state_ok_iff)
    then have "gl_id g \<noteq> goalID"
      using goals_unique [of db g x] step_decide.prems applied(3,4) by (auto simp: goal_inv_def)
    moreover have "goals db1 = goals db" using decide_effect_shape [OF applied(8)] by simp
    ultimately show ?thesis
      using decide_write_shape [OF applied(9)] step_decide.prems(2) by (auto intro: in_update_where_unless)
  qed (use step_decide.prems in simp)
qed (auto dest: RegisterPlanFingerprint_keeps RecordUsageTx_keeps)



text \<open>Replaying a decided request has no effect: the same request again, at any later time, gets the
  recorded decision marked as existing and the database does not change. For a published request this
  includes that the publication is still in place; a pending request that is presented again with a
  human approval is the only one evaluated anew.\<close>

theorem replan_replayed:
  assumes "publish_ok publish" "guardReplan publish op r now db = (Inr d, db')"
    and "publish = None \<or> op = [] \<or> \<not> dc_NeedsApproval d"
  shows "guardReplan publish op r later db' = (Inr (d\<lparr>dc_Existing := True\<rparr>), db')"
  using assms(2)
proof (cases rule: guardReplan_cases)
  case (replayed row)
  then have "guardReplan publish op r later db = guardReplan publish op r now db"
    by (auto simp: guardReplan_def guardReplan_tx_def db_Tx_def)
  with assms(2) replay_existing [OF replayed(3)] show ?thesis by simp
next
  case (fresh q)
  from fresh(2) assms(1) show ?thesis
  proof (rule guard_evaluate_cases, goal_cases)
    case (1 g u code st)
    let ?row = "replan_row r st code (dc_NextPlanRevision d) (dc_NextGraphGeneration d) now"
    let ?same = "\<lambda>q. rq_goal q = rr_GoalID r \<and> rq_evaluation q = rr_EvaluationID r"
    have find: "List.find ?same (replan_requests db') = Some ?row"
    proof -
      have "List.find ?same q = None" using fresh(3) by (simp only: find_None_all)
      then show ?thesis using 1(6) by (simp add: find_append replan_row_def)
    qed
    have noconf: "\<not> replay_conflict p r ?row" for p by (simp add: replay_conflict_def replan_row_def)
    have "\<not> (rq_state ?row = ''NEEDS_APPROVAL'' \<and> publish \<noteq> None \<and> op \<noteq> [])"
      using assms(3) 1(4) by (auto simp: replan_row_def decision_of_def)
    moreover have "guard_replay (publish \<noteq> None) r ?row db' = Inr (d\<lparr>dc_Existing := True\<rparr>, db')"
      using 1(4,7) by (auto simp: guard_replay_def replan_row_def decision_of_def)
    ultimately show ?case
      using find noconf fresh(1) by (auto simp: guardReplan_def guardReplan_tx_def db_Tx_def)
  qed
qed


section \<open>Examples\<close>

definition example_replan :: ReplanRequest where
  "example_replan = \<lparr>rr_ID = ''r1'', rr_GoalID = ''g1'', rr_EvaluationID = ''e1'', rr_ExpectedPlanRevision = 1,
     rr_ExpectedGraphGeneration = 1, rr_ReasonCode = ''retry'', rr_Evidence = example_evidence ''ci'',
     rr_ProposedPlan = example_plan, rr_StrategyDelta = \<lparr>sd_ChangedDimensions = [''tool''], sd_Summary = ''try''\<rparr>,
     rr_Progress = \<lparr>ps_AcceptedChecks = 1, ps_FailedChecks = 0, ps_UnknownChecks = 0, ps_ResolvedAssumptions = 0,
       ps_UnresolvedBlockers = 0\<rparr>\<rparr>"

lemma example_replan_valid: "guard_request_ok example_replan = Inr ()"
proof -
  have "trim_space ''ci'' \<noteq> []" "trim_space ''bisect'' \<noteq> []" "trim_space ''debug'' \<noteq> []" "trim_space ''d1'' \<noteq> []"
    "trim_space ''tool'' \<noteq> []" "trim_space ''try'' \<noteq> []"
    by code_simp+
  then show ?thesis
    by (simp add: guard_request_ok_def example_replan_def example_evidence_valid PlanCanonical_Validate_def
        example_plan_def StrategyDelta_Validate_def ProgressSnapshot_Validate_def)
qed

definition example_create :: CreateGoal where
  "example_create = \<lparr>cg_ID = ''g1'', cg_Owner = ''ann'', cg_Project = ''demo'',
     cg_Budget = \<lparr>bg_MaxReplans = 2, bg_MaxTotalAttempts = 4, bg_MaxWallTime = 1000000000, bg_DeadlineMS = 0\<rparr>\<rparr>"

definition example_created :: GoalDB where
  "example_created = empty_db\<lparr>goals := [example_goal\<lparr>gl_state := ''GOAL_CREATED'', gl_consumed_attempts := 0,
     gl_version := 1\<rparr>]\<rparr>"

lemma example_creation: "Create example_create 0 empty_db = Inr example_created"
  by (simp add: Create_def example_create_def example_created_def example_goal_def insert_goal_def goal_check_def
      goal_states_def insert_row_def empty_db_def milliseconds_def)

lemma example_reachable: "reachable no_goals goal_step example_created"
  by (rule reachable_step [where s = empty_db])
    (simp_all add: reachable_init step_create [OF example_creation])

text \<open>A goal without recorded evidence, plans, history or requests, whose usage is in order.\<close>

lemma guard_fresh_allowed:
  assumes "goals db = [g]" "gl_id g = ''g1''" "\<not> terminal (gl_state g)" "gl_active_plan_revision g = 1"
    "gl_active_graph_generation g = 1" "gl_consumed_attempts g < gl_max_total_attempts g"
    "gl_consumed_replans g < gl_max_replans g" "20 < gl_created g + gl_max_wall_time_ms g" "gl_deadline g = 0"
    "goal_evidence db = []" "plan_fingerprints db = []" "replan_history db = []" "replan_requests db = []"
    "CheckUsageTx db ''g1'' = Inr ()"
    "guard_permission (publish \<noteq> None) op example_replan g ''ALLOWED'' db = Inr db1"
    "replan_requests db1 = []" "goal_evidence db1 = []" "plan_fingerprints db1 = []" "replan_history db1 = []" "goals db1 = [g]"
  shows "\<exists>db3. guardReplan publish op example_replan 20 db =
      (case guard_publish publish example_replan (decision_of ''ALLOWED'' ''ALLOWED'' 2 2) db3 of
         Inl e \<Rightarrow> (Inl e, db) | Inr (d, db') \<Rightarrow> (Inr d, db')) \<and>
    goals db3 = [reserve_row 2 2 20 g] \<and> job_bindings db3 = job_bindings db1 \<and> goal_plans db3 = goal_plans db1 \<and>
    db_jobs db3 = db_jobs db1"
proof -
  have goal: "rr_GoalID example_replan = ''g1''" by (simp add: example_replan_def)
  have sel: "select_row (\<lambda>g. gl_id g = rr_GoalID example_replan) (goals db) = Inr g"
    using assms(1,2) by (simp add: select_row_def goal)
  have use: "usage_gate db (rr_GoalID example_replan) = Inr None"
    using assms(14) by (simp add: usage_gate_None goal)
  have sw: "guard_switch p ov example_replan g 20 None (guard_facts db example_replan g) = (''ALLOWED'', ''ALLOWED'')" for p ov
    unfolding guard_switch_allowed_iff using assms(2-12)
    by (simp add: replan_admissible_def guard_facts_def recent_history_def example_replan_def
        sameFailureMaxReplans_def)
  have ins: "insert_replan_request (replan_row example_replan ''ALLOWED'' ''ALLOWED'' 2 2 20) db1 =
      Inr (db1\<lparr>replan_requests := [replan_row example_replan ''ALLOWED'' ''ALLOWED'' 2 2 20]\<rparr>)"
    using assms by (simp add: insert_replan_request_def replan_row_def goal goal_exists_def insert_row_def)
  have "\<exists>db3. guard_reserve example_replan g f 2 2 20
       (db1\<lparr>replan_requests := [replan_row example_replan ''ALLOWED'' ''ALLOWED'' 2 2 20]\<rparr>) = Inr db3 \<and>
     goals db3 = [reserve_row 2 2 20 g] \<and> job_bindings db3 = job_bindings db1 \<and> goal_plans db3 = goal_plans db1 \<and>
     db_jobs db3 = db_jobs db1" for f
    using assms
    by (simp add: guard_reserve_def insert_evidence_def insert_plan_fingerprint_def insert_history_def insert_row_def
        goal goal_exists_def count_where_def reservable_def update_where_def terminal_def)
      (simp add: example_replan_def)
  then obtain db3 where db3: "guard_reserve example_replan g (guard_facts db example_replan g) 2 2 20
       (db1\<lparr>replan_requests := [replan_row example_replan ''ALLOWED'' ''ALLOWED'' 2 2 20]\<rparr>) = Inr db3"
     "goals db3 = [reserve_row 2 2 20 g]" "job_bindings db3 = job_bindings db1" "goal_plans db3 = goal_plans db1"
     "db_jobs db3 = db_jobs db1" by blast
  have "guard_evaluate publish op example_replan 20 db =
      guard_publish publish example_replan (decision_of ''ALLOWED'' ''ALLOWED'' 2 2) db3"
    unfolding guard_evaluate_def using sel use sw assms(4,5,15) ins db3(1) by (simp add: Let_def)
  then have "guardReplan publish op example_replan 20 db =
      (case guard_publish publish example_replan (decision_of ''ALLOWED'' ''ALLOWED'' 2 2) db3 of
         Inl e \<Rightarrow> (Inl e, db) | Inr (d, db') \<Rightarrow> (Inr d, db'))"
    using assms(13) by (simp add: guardReplan_def example_replan_valid guardReplan_tx_def db_Tx_def)
  with db3 show ?thesis by blast
qed

lemma example_guard:
  "\<exists>db'. guardReplan None [] example_replan 20 example_created = (Inr (decision_of ''ALLOWED'' ''ALLOWED'' 2 2), db')"
proof -
  have "CheckUsageTx example_created ''g1'' = Inr ()"
    by (simp add: CheckUsageTx_def RemainingUsageTx_def example_created_def empty_db_def)
  then have "\<exists>db3. guardReplan None [] example_replan 20 example_created =
      (case guard_publish None example_replan (decision_of ''ALLOWED'' ''ALLOWED'' 2 2) db3 of
         Inl e \<Rightarrow> (Inl e, example_created) | Inr (d, db') \<Rightarrow> (Inr d, db')) \<and>
    goals db3 = [reserve_row 2 2 20 (hd (goals example_created))] \<and>
    job_bindings db3 = job_bindings example_created \<and> goal_plans db3 = goal_plans example_created \<and>
    db_jobs db3 = db_jobs example_created"
    by (intro guard_fresh_allowed)
      (simp_all add: example_created_def example_goal_def terminal_def guard_permission_def empty_db_def)
  then show ?thesis by (auto simp: guard_publish_def)
qed


lemma example_created_ok: "goals_ok example_created"
  using goal_system.reachable_inv [OF example_reachable] by (simp add: goal_inv_def)

lemma replan_allowed_witness:
  "\<exists>d db' g'. guardReplan None [] example_replan 20 example_created = (Inr d, db') \<and> dc_NextPlanRevision d = 2 \<and>
     set (goals db') = {g'} \<and> gl_consumed_replans g' = 1"
proof -
  obtain db' where run: "guardReplan None [] example_replan 20 example_created =
    (Inr (decision_of ''ALLOWED'' ''ALLOWED'' 2 2), db')" using example_guard by blast
  have "\<exists>g g'. g \<in> set (goals example_created) \<and> set (goals db') = insert g' (set (goals example_created) - {g}) \<and>
      gl_consumed_replans g' = gl_consumed_replans g + 1"
    using replan_allowed [OF example_created_ok _ run] by (simp add: decision_of_def) blast
  with run show ?thesis
    by (auto simp: example_created_def example_goal_def decision_of_def)
qed


lemma replan_replayed_witness:
  "\<exists>d db'. guardReplan None [] example_replan 20 example_created = (Inr d, db') \<and>
     guardReplan None [] example_replan 900 db' = (Inr (d\<lparr>dc_Existing := True\<rparr>), db')"
proof -
  obtain db' where run: "guardReplan None [] example_replan 20 example_created =
    (Inr (decision_of ''ALLOWED'' ''ALLOWED'' 2 2), db')" using example_guard by blast
  with replan_replayed [OF _ run, of 900] show ?thesis by auto
qed

text \<open>An abort of the new goal, and a second goal created afterwards.\<close>

definition example_abort :: Request where
  "example_abort = example_request\<lparr>gr_ExpectedVersion := 1, gr_Action := ''ABORT''\<rparr>"

lemma example_aborted:
  "\<exists>rcpt db' g. DecideTx example_actor ''g1'' example_abort 10 11 example_created = Inr (rcpt, db') \<and>
     goals db' = [g] \<and> gl_id g = ''g1'' \<and> gl_state g = ''CANCELED''"
proof -
  let ?g = "hd (goals example_created)"
  have ok: "decide_request_ok example_actor example_abort = Inr ()"
    using example_request_ok
    by (simp add: decide_request_ok_iff example_abort_def example_request_def goal_actions_def)
  have sel: "select_row (\<lambda>g. gl_id g = ''g1'') (goals example_created) = Inr ?g"
    by (simp add: example_created_def select_row_def example_goal_def)
  have st: "decide_state_ok ?g example_abort = Inr ()"
    by (simp add: decide_state_ok_iff example_created_def example_goal_def example_abort_def example_request_def
        terminal_def changedBudget_def)
  have eff: "decide_effect example_actor ''g1'' example_abort ?g example_created =
      Inr (''CANCELED'', 4, 2, example_created)"
    by (simp add: decide_effect_def example_abort_def) (simp add: example_created_def example_goal_def)
  have wr: "\<exists>rcpt db' g. decide_write example_actor ''g1'' example_abort ?g 10 11 (''CANCELED'', 4, 2, example_created) =
      Inr (rcpt, db') \<and> goals db' = [g] \<and> gl_id g = ''g1'' \<and> gl_state g = ''CANCELED''"
    by (simp add: decide_write_def example_created_def empty_db_def insert_decision_def insert_row_def goal_exists_def
        update_where_def example_goal_def example_abort_def)
  show ?thesis
    using ok sel st eff wr
    by (simp add: DecideTx_def fail_if_def) (simp add: example_created_def example_goal_def example_actor_def empty_db_def)
qed


text \<open>A publication that commits a job with its binding and plan.\<close>

definition example_publication :: publication where
  "example_publication db d =
     rbind (insert_binding \<lparr>bd_job = ''j2'', bd_goal = ''g1'', bd_revision = dc_NextPlanRevision d,
              bd_generation = dc_NextGraphGeneration d\<rparr>
              (db\<lparr>db_jobs := db_jobs db @ [\<lparr>jb_id = ''j2'', jb_owner = ''ann'', jb_project = ''demo'', jb_spec = ''s''\<rparr>]\<rparr>))
       (insert_plan \<lparr>pl_goal = ''g1'', pl_revision = dc_NextPlanRevision d, pl_generation = dc_NextGraphGeneration d,
          pl_job = ''j2'', pl_frozen_spec = ''s'', pl_graph_json = ''[]'', pl_created = 20\<rparr>)"

lemma example_publication_ok: "publication_ok example_publication"
  by (auto simp: publication_ok_def example_publication_def rbind_eq_Inr_iff insert_binding_def insert_plan_def
      split: if_splits)

lemma example_usage_ok: "CheckUsageTx example_db ''g1'' = Inr ()" "CheckUsageTx example_decided ''g1'' = Inr ()"
proof -
  have rows: "usage_rows example_db ''g1'' = map Some (goal_usage example_db)"
    by (simp add: usage_rows_def example_db_def)
  then show one: "CheckUsageTx example_db ''g1'' = Inr ()"
    by (simp add: CheckUsageTx_def RemainingUsageTx_def)
      (simp add: example_db_def checkedUsageAdd_def MaxInt64_def remaining_of_def)
  have "usage_rows example_decided ''g1'' = usage_rows example_db ''g1''"
    by (simp add: usage_rows_def example_decided_def)
  with one show "CheckUsageTx example_decided ''g1'' = Inr ()"
    by (simp add: CheckUsageTx_def RemainingUsageTx_def example_decided_def cong: option.case_cong if_cong)
qed

lemma example_consumed:
  "\<exists>db'. guard_permission True ''op1'' example_replan (hd (goals example_decided)) ''ALLOWED'' example_decided = Inr db' \<and>
     db' = example_decided\<lparr>replan_permissions := replan_permissions db'\<rparr>"
proof -
  have "ValidKey ''op1''" by code_simp
  then show ?thesis
    by (simp add: guard_permission_def ConsumeReplanPermissionTx_def Let_def count_where_def permission_usable_def
        example_decided_def example_goal_def example_row_def example_replan_def)
qed

lemma example_published:
  "\<exists>d db'. GuardAndPublishReplan example_publication ''op1'' example_replan 20 example_decided = (Inr d, db') \<and>
     dc_Allowed d \<and> \<not> dc_Existing d"
proof -
  obtain p where perm: "guard_permission True ''op1'' example_replan (hd (goals example_decided)) ''ALLOWED''
      example_decided = Inr (example_decided\<lparr>replan_permissions := p\<rparr>)"
    using example_consumed by metis
  have "\<exists>db3. guardReplan (Some example_publication) ''op1'' example_replan 20 example_decided =
      (case guard_publish (Some example_publication) example_replan (decision_of ''ALLOWED'' ''ALLOWED'' 2 2) db3 of
         Inl e \<Rightarrow> (Inl e, example_decided) | Inr (d, db') \<Rightarrow> (Inr d, db')) \<and>
    goals db3 = [reserve_row 2 2 20 (hd (goals example_decided))] \<and>
    job_bindings db3 = job_bindings (example_decided\<lparr>replan_permissions := p\<rparr>) \<and>
    goal_plans db3 = goal_plans (example_decided\<lparr>replan_permissions := p\<rparr>) \<and>
    db_jobs db3 = db_jobs (example_decided\<lparr>replan_permissions := p\<rparr>)"
    using perm example_usage_ok
    by (intro guard_fresh_allowed)
      (simp_all add: example_decided_def example_db_def example_goal_def terminal_def empty_db_def)
  then obtain db3 where db3: "guardReplan (Some example_publication) ''op1'' example_replan 20 example_decided =
      (case guard_publish (Some example_publication) example_replan (decision_of ''ALLOWED'' ''ALLOWED'' 2 2) db3 of
         Inl e \<Rightarrow> (Inl e, example_decided) | Inr (d, db') \<Rightarrow> (Inr d, db'))"
    "goals db3 = [reserve_row 2 2 20 (example_goal\<lparr>gl_version := 4, gl_updated := 10\<rparr>)]"
    "job_bindings db3 = []" "goal_plans db3 = []" "db_jobs db3 = []"
    by (auto simp: example_decided_def example_db_def empty_db_def)
  then have "\<exists>db'. guard_publish (Some example_publication) example_replan (decision_of ''ALLOWED'' ''ALLOWED'' 2 2) db3 =
      Inr (decision_of ''ALLOWED'' ''ALLOWED'' 2 2, db')"
    by (simp add: guard_publish_def decision_of_def example_publication_def insert_binding_def insert_plan_def
        insert_row_def goal_exists_def publishedReplanExists_def example_goal_def example_replan_def)
  with db3(1) show ?thesis by (auto simp: GuardAndPublishReplan_def decision_of_def)
qed


text \<open>The guard-only entry point does not ask for a permission: it can allow a replan of a goal that waits
  for approval although no permission exists.\<close>

theorem guard_only_needs_no_permission:
  "\<exists>d db'. GuardReplan example_replan 20 example_db = (Inr d, db') \<and> dc_Allowed d \<and>
     map gl_state (goals example_db) = [''NEEDS_APPROVAL''] \<and> replan_permissions example_db = [] \<and>
     map gl_state (goals db') = [''REPLANNING'']"
proof -
  have "\<exists>db3. guardReplan None [] example_replan 20 example_db =
      (case guard_publish None example_replan (decision_of ''ALLOWED'' ''ALLOWED'' 2 2) db3 of
         Inl e \<Rightarrow> (Inl e, example_db) | Inr (d, db') \<Rightarrow> (Inr d, db')) \<and>
    goals db3 = [reserve_row 2 2 20 example_goal] \<and> job_bindings db3 = job_bindings example_db \<and>
    goal_plans db3 = goal_plans example_db \<and> db_jobs db3 = db_jobs example_db"
    using example_usage_ok
    by (intro guard_fresh_allowed)
      (simp_all add: guard_permission_def, simp_all add: example_db_def example_goal_def terminal_def empty_db_def)
  then show ?thesis
    by (auto simp: GuardReplan_def guard_publish_def decision_of_def example_db_def empty_db_def example_goal_def)
qed

end
