(* ===== verification/Graph_Span.thy ===== *)
theory Graph_Span
  imports Go_Digest Job_Spec
begin

text \<open>
  Sources and byte spans of the IU graph (\<open>internal/graph/spec.go\<close>, \<open>context.go\<close>, \<open>token.go\<close>): reading a
  span, the coverage test \<open>requiredEvidenceCovered\<close>, \<open>ReconstructSource\<close>, and the token-count receipts.

  Shown here: a span that reads names exactly the bytes between its bounds of an unmodified source; the
  sweep over sorted spans decides whether a required interval is contained in the union of the selected
  ones, for every order and overlap; reconstruction succeeds exactly on complete coverage and returns the
  source; a token receipt enforces the limit on the very input it was issued for.
\<close>

section \<open>Data\<close>

record Source =
  so_Role :: string
  so_MessageIndex :: int
  so_ID :: string
  so_Text :: string
  so_SHA256 :: string

record Span =
  sn_Source :: string
  sn_Start :: int
  sn_End :: int
  sn_SHA256 :: string

definition invalid :: "string \<Rightarrow> error" where
  "invalid reason = Error (''GRAPH_INVALID: '' @ reason)"

section \<open>Reading a span\<close>

text \<open>\<open>s[a:b]\<close> for \<open>0 <= a <= b <= len(s)\<close>.\<close>

definition slice :: "string \<Rightarrow> int \<Rightarrow> int \<Rightarrow> string" where
  "slice s a b = take (nat b - nat a) (drop (nat a) s)"

lemma length_slice: "0 \<le> a \<Longrightarrow> a \<le> b \<Longrightarrow> b \<le> int (length s) \<Longrightarrow> int (length (slice s a b)) = b - a"
  by (simp add: slice_def)

lemma nth_slice:
  "0 \<le> a \<Longrightarrow> b \<le> int (length s) \<Longrightarrow> i < length (slice s a b) \<Longrightarrow> slice s a b ! i = s ! (nat a + i)"
  by (simp add: slice_def)

definition readSpan :: "(string \<rightharpoonup> Source) \<Rightarrow> Span \<Rightarrow> string result" where
  "readSpan sources sp =
     (case sources (sn_Source sp) of
        None \<Rightarrow> Inl (invalid ''source span'')
      | Some src \<Rightarrow>
          if sn_SHA256 sp \<noteq> so_SHA256 src \<or> sn_Start sp < 0 \<or> sn_End sp \<le> sn_Start sp \<or>
             sn_End sp > int (length (so_Text src))
          then Inl (invalid ''source span'')
          else let part = slice (so_Text src) (sn_Start sp) (sn_End sp) in
            if \<not> utf8_valid part then Inl (invalid ''UTF-8 span boundary'') else Inr part)"

lemma readSpan_Inr_iff:
  "readSpan sources sp = Inr part \<longleftrightarrow>
     (\<exists>src. sources (sn_Source sp) = Some src \<and> sn_SHA256 sp = so_SHA256 src \<and> 0 \<le> sn_Start sp \<and>
        sn_Start sp < sn_End sp \<and> sn_End sp \<le> int (length (so_Text src)) \<and>
        part = slice (so_Text src) (sn_Start sp) (sn_End sp) \<and> utf8_valid part)"
  by (auto simp: readSpan_def Let_def split: option.splits if_splits)

section \<open>Coverage of a required span\<close>

text \<open>The loop over the spans of the same source in order of their start; \<open>e\<close> is the variable \<open>end\<close>.\<close>

fun covered_sweep :: "int \<Rightarrow> int \<Rightarrow> Span list \<Rightarrow> bool" where
  "covered_sweep target e [] = (e \<ge> target)"
| "covered_sweep target e (s # ss) =
     (if sn_End s \<le> e then covered_sweep target e ss
      else if sn_Start s > e then False
      else if sn_End s \<ge> target then True
      else covered_sweep target (sn_End s) ss)"

definition requiredEvidenceCovered :: "Span \<Rightarrow> Span list \<Rightarrow> bool" where
  "requiredEvidenceCovered required selected =
     covered_sweep (sn_End required) (sn_Start required)
       (sort_key sn_Start (filter (\<lambda>s. sn_Source s = sn_Source required \<and> sn_SHA256 s = sn_SHA256 required) selected))"

definition bytes_of :: "Span list \<Rightarrow> int set" where
  "bytes_of ss = (\<Union>s\<in>set ss. {sn_Start s..<sn_End s})"

lemma bytes_of_simps [simp]:
  "bytes_of [] = {}" "bytes_of (s # ss) = {sn_Start s..<sn_End s} \<union> bytes_of ss"
  by (simp_all add: bytes_of_def)

text \<open>The sweep is right for sorted spans: it answers whether the rest of the interval is covered.\<close>

lemma covered_sweep_iff:
  assumes "sorted (map sn_Start ss)" "e < target"
  shows "covered_sweep target e ss \<longleftrightarrow> {e..<target} \<subseteq> bytes_of ss"
  using assms
proof (induction target e ss rule: covered_sweep.induct)
  case (1 target e)
  then show ?case by auto
next
  case (2 target e s ss)
  have later: "x \<notin> bytes_of ss" if "x < sn_Start s" for x
    using that 2(3) by (auto simp: bytes_of_def)
  consider "sn_End s \<le> e" | "sn_End s > e" "sn_Start s > e" | "sn_End s > e" "sn_Start s \<le> e" "sn_End s \<ge> target"
    | "sn_End s > e" "sn_Start s \<le> e" "sn_End s < target" by linarith
  then show ?case
  proof cases
    case 1
    then have "{e..<target} \<inter> {sn_Start s..<sn_End s} = {}" by auto
    then have "{e..<target} \<subseteq> bytes_of (s # ss) \<longleftrightarrow> {e..<target} \<subseteq> bytes_of ss" by auto
    moreover have "covered_sweep target e ss \<longleftrightarrow> {e..<target} \<subseteq> bytes_of ss" using 1 2 by simp
    ultimately show ?thesis using 1 by simp
  next
    case 2
    then have "e \<notin> bytes_of (s # ss)" using later by simp
    moreover have "e \<in> {e..<target}" using \<open>e < target\<close> by simp
    ultimately have "\<not> {e..<target} \<subseteq> bytes_of (s # ss)" by blast
    with 2 show ?thesis by simp
  next
    case 3
    then show ?thesis by auto
  next
    case 4
    have "{e..<target} \<subseteq> bytes_of (s # ss) \<longleftrightarrow> {sn_End s..<target} \<subseteq> bytes_of ss"
    proof
      assume sub: "{e..<target} \<subseteq> bytes_of (s # ss)"
      show "{sn_End s..<target} \<subseteq> bytes_of ss"
      proof
        fix x assume x: "x \<in> {sn_End s..<target}"
        then have "x \<in> {e..<target}" using 4(1) by simp
        with sub have "x \<in> bytes_of (s # ss)" by blast
        with x show "x \<in> bytes_of ss" by simp
      qed
    next
      assume "{sn_End s..<target} \<subseteq> bytes_of ss"
      moreover have "{e..<target} \<subseteq> {sn_Start s..<sn_End s} \<union> {sn_End s..<target}" using 4 by auto
      ultimately show "{e..<target} \<subseteq> bytes_of (s # ss)" by auto
    qed
    moreover have "covered_sweep target (sn_End s) ss \<longleftrightarrow> {sn_End s..<target} \<subseteq> bytes_of ss"
      using 4 2 by simp
    ultimately show ?thesis using 4 by simp
  qed
qed

lemma bytes_of_sort [simp]: "bytes_of (sort_key k ss) = bytes_of ss"
  by (simp add: bytes_of_def)

lemma evidence_covered:
  assumes "sn_Start required < sn_End required"
  shows "requiredEvidenceCovered required selected \<longleftrightarrow>
    (\<forall>x. sn_Start required \<le> x \<and> x < sn_End required \<longrightarrow>
       (\<exists>s\<in>set selected. sn_Source s = sn_Source required \<and> sn_SHA256 s = sn_SHA256 required \<and>
          sn_Start s \<le> x \<and> x < sn_End s))"
proof -
  let ?ss = "filter (\<lambda>s. sn_Source s = sn_Source required \<and> sn_SHA256 s = sn_SHA256 required) selected"
  have "requiredEvidenceCovered required selected \<longleftrightarrow> {sn_Start required..<sn_End required} \<subseteq> bytes_of ?ss"
    unfolding requiredEvidenceCovered_def
    by (subst covered_sweep_iff) (simp_all add: assms)
  also have "\<dots> \<longleftrightarrow> (\<forall>x. sn_Start required \<le> x \<and> x < sn_End required \<longrightarrow> x \<in> bytes_of ?ss)"
    by auto
  also have "\<dots> \<longleftrightarrow> (\<forall>x. sn_Start required \<le> x \<and> x < sn_End required \<longrightarrow>
       (\<exists>s\<in>set selected. sn_Source s = sn_Source required \<and> sn_SHA256 s = sn_SHA256 required \<and>
          sn_Start s \<le> x \<and> x < sn_End s))"
    by (auto simp: bytes_of_def)
  finally show ?thesis .
qed

text \<open>C21: the coverage test is exact. A required span is reported covered exactly when every byte of it lies
  in some selected span of the same source revision, in whatever order and overlap the spans are given.\<close>

theorem required_evidence_covered_iff:
  assumes "sn_Start required < sn_End required"
  shows "requiredEvidenceCovered required selected \<longleftrightarrow>
    (\<forall>x. sn_Start required \<le> x \<and> x < sn_End required \<longrightarrow>
       (\<exists>s\<in>set selected. sn_Source s = sn_Source required \<and> sn_SHA256 s = sn_SHA256 required \<and>
          sn_Start s \<le> x \<and> x < sn_End s))"
  using assms by (rule evidence_covered)

section \<open>Reconstruction of a source\<close>

fun reconstruct_sweep :: "(string \<rightharpoonup> Source) \<Rightarrow> int \<Rightarrow> Span list \<Rightarrow> int result" where
  "reconstruct_sweep sources e [] = Inr e"
| "reconstruct_sweep sources e (s # ss) =
     rbind (readSpan sources s) (\<lambda>_.
       if sn_Start s > e then Inl (invalid ''source coverage gap'')
       else reconstruct_sweep sources (if sn_End s > e then sn_End s else e) ss)"

definition ReconstructSource :: "Source \<Rightarrow> Span list \<Rightarrow> string result" where
  "ReconstructSource src spans =
     (let h = Hash (so_Text src) in
      if so_SHA256 src \<noteq> [] \<and> so_SHA256 src \<noteq> h then Inl (invalid ''source hash'')
      else let src' = src\<lparr>so_SHA256 := h\<rparr> in
        rbind (reconstruct_sweep [so_ID src' \<mapsto> src'] 0 (sort_key sn_Start spans)) (\<lambda>e.
          if e \<noteq> int (length (so_Text src')) then Inl (invalid ''source coverage incomplete'')
          else Inr (so_Text src')))"

lemma reconstruct_sweep_iff:
  assumes "sorted (map sn_Start ss)" "0 \<le> e" "e \<le> n"
    and "\<And>s. s \<in> set ss \<Longrightarrow> \<exists>p. readSpan sources s = Inr p"
    and "\<And>s. s \<in> set ss \<Longrightarrow> sn_End s \<le> n"
  shows "reconstruct_sweep sources e ss = Inr n \<longleftrightarrow> {e..<n} \<subseteq> bytes_of ss"
  using assms
proof (induction ss arbitrary: e)
  case (Cons s ss)
  obtain p where p: "readSpan sources s = Inr p" using Cons.prems(4) by auto
  then have se: "sn_Start s < sn_End s" by (auto simp: readSpan_Inr_iff)
  have later: "x \<notin> bytes_of ss" if "x < sn_Start s" for x
    using that Cons.prems(1) by (auto simp: bytes_of_def)
  let ?e = "if sn_End s > e then sn_End s else e"
  have IH: "reconstruct_sweep sources ?e ss = Inr n \<longleftrightarrow> {?e..<n} \<subseteq> bytes_of ss"
    by (rule Cons.IH) (use Cons.prems in auto)
  show ?case
  proof (cases "sn_Start s > e")
    case True
    have "e \<in> {e..<n}" using True se Cons.prems(5) [of s] by simp
    moreover have "e \<notin> bytes_of (s # ss)" using True later by simp
    ultimately have "\<not> {e..<n} \<subseteq> bytes_of (s # ss)" by blast
    with True p show ?thesis by simp
  next
    case False
    have "{?e..<n} \<subseteq> bytes_of ss \<longleftrightarrow> {e..<n} \<subseteq> bytes_of (s # ss)"
    proof
      assume "{?e..<n} \<subseteq> bytes_of ss"
      moreover have "{e..<n} \<subseteq> {sn_Start s..<sn_End s} \<union> {?e..<n}" using False by auto
      ultimately show "{e..<n} \<subseteq> bytes_of (s # ss)" by auto
    next
      assume sub: "{e..<n} \<subseteq> bytes_of (s # ss)"
      show "{?e..<n} \<subseteq> bytes_of ss"
      proof
        fix x assume x: "x \<in> {?e..<n}"
        then have "e \<le> x" "x < n" "\<not> x < sn_End s" by (auto split: if_splits)
        with sub have "x \<in> bytes_of (s # ss)" by (meson atLeastLessThan_iff subsetD)
        with \<open>\<not> x < sn_End s\<close> show "x \<in> bytes_of ss" by simp
      qed
    qed
    with IH False p show ?thesis by simp
  qed
qed auto

lemma reconstruct_sweep_reads:
  "reconstruct_sweep sources e ss = Inr n \<Longrightarrow> s \<in> set ss \<Longrightarrow> \<exists>p. readSpan sources s = Inr p"
  by (induction sources e ss rule: reconstruct_sweep.induct)
    (auto simp: rbind_eq_Inr_iff split: if_splits)

text \<open>Reconstruction accepts exactly the complete covers. For a source with the right digest it returns
  the source text when every span reads and together they cover every byte, and fails otherwise.\<close>

theorem reconstruct_source_iff:
  assumes "so_SHA256 src = [] \<or> so_SHA256 src = Hash (so_Text src)"
  defines "sources \<equiv> [so_ID src \<mapsto> src\<lparr>so_SHA256 := Hash (so_Text src)\<rparr>]"
  shows "ReconstructSource src spans = Inr text \<longleftrightarrow>
    text = so_Text src \<and> (\<forall>s\<in>set spans. \<exists>p. readSpan sources s = Inr p) \<and>
    (\<forall>x. 0 \<le> x \<and> x < int (length (so_Text src)) \<longrightarrow> (\<exists>s\<in>set spans. sn_Start s \<le> x \<and> x < sn_End s))"
proof (cases "\<forall>s\<in>set spans. \<exists>p. readSpan sources s = Inr p")
  case True
  let ?n = "int (length (so_Text src))" and ?ss = "sort_key sn_Start spans"
  have ends: "sn_End s \<le> ?n" if "s \<in> set ?ss" for s
    using True that by (fastforce simp: sources_def readSpan_Inr_iff split: if_splits)
  have sweep: "reconstruct_sweep sources 0 ?ss = Inr ?n \<longleftrightarrow> {0..<?n} \<subseteq> bytes_of ?ss"
    using True ends by (intro reconstruct_sweep_iff) auto
  have cover: "{0..<?n} \<subseteq> bytes_of ?ss \<longleftrightarrow>
      (\<forall>x. 0 \<le> x \<and> x < ?n \<longrightarrow> (\<exists>s\<in>set spans. sn_Start s \<le> x \<and> x < sn_End s))"
    unfolding bytes_of_sort by (simp add: bytes_of_def subset_iff Bex_def)
  have "ReconstructSource src spans = Inr text \<longleftrightarrow> reconstruct_sweep sources 0 ?ss = Inr ?n \<and> text = so_Text src"
    using assms(1) by (auto simp: ReconstructSource_def Let_def sources_def rbind_eq_Inr_iff split: if_splits)
  with sweep cover True show ?thesis by auto
next
  case False
  then have "\<forall>n. reconstruct_sweep sources 0 (sort_key sn_Start spans) \<noteq> Inr n"
    using reconstruct_sweep_reads [of sources 0 "sort_key sn_Start spans"] by auto
  then have "ReconstructSource src spans \<noteq> Inr text"
    by (auto simp: ReconstructSource_def Let_def sources_def rbind_eq_Inr_iff split: if_splits)
  with False show ?thesis by blast
qed

section \<open>Token-count receipts\<close>

record InputCountRequest =
  ic_ModelID :: string
  ic_TokenizerVersion :: string
  ic_TemplateVersion :: string
  ic_AdapterVersion :: string
  ic_Coverage :: string
  ic_SerializedInput :: string

record InputCountReceipt =
  ir_Version :: string
  ir_BindingHash :: string
  ir_InputHash :: string
  ir_Count :: "int option"
  ir_Coverage :: string

definition count_binding :: "InputCountRequest \<Rightarrow> string" where
  "count_binding r = Hash (json_text (JObj
     [(''model_id'', JStr (ic_ModelID r)), (''tokenizer_version'', JStr (ic_TokenizerVersion r)),
      (''template_version'', JStr (ic_TemplateVersion r)), (''adapter_version'', JStr (ic_AdapterVersion r)),
      (''coverage'', JStr (ic_Coverage r))]))"

text \<open>\<open>counter\<close> is the pinned tokenizer, an argument of the code; \<open>None\<close> is a nil counter. The two reads of
  \<open>ctx.Err()\<close> are \<open>before\<close> and \<open>after\<close>.\<close>

definition CountInput ::
  "error option \<Rightarrow> error option \<Rightarrow> InputCountRequest \<Rightarrow> (InputCountRequest \<Rightarrow> int result) option \<Rightarrow>
   InputCountReceipt result" where
  "CountInput before after r counter =
     (let out = \<lparr>ir_Version = ''iu-input-count-v1'', ir_BindingHash = count_binding r,
                 ir_InputHash = Hash (ic_SerializedInput r), ir_Count = None, ir_Coverage = ''unknown''\<rparr> in
      if ic_ModelID r = [] \<or> ic_TokenizerVersion r = [] \<or> ic_TemplateVersion r = [] \<or> ic_AdapterVersion r = [] \<or>
         length (ic_ModelID r) > 256 \<or> length (ic_TokenizerVersion r) > 256 \<or> length (ic_TemplateVersion r) > 256 \<or>
         length (ic_AdapterVersion r) > 256 \<or> length (ic_SerializedInput r) > 1048576 \<or>
         ic_Coverage r \<noteq> ''serialized_prompt'' \<and> ic_Coverage r \<noteq> ''complete_model_request''
      then Inl (invalid ''count binding'')
      else (case counter of
          None \<Rightarrow> Inr out
        | Some f \<Rightarrow>
            (case before of Some e \<Rightarrow> Inl e | None \<Rightarrow>
              rbind (f r) (\<lambda>count.
                case after of Some e \<Rightarrow> Inl e | None \<Rightarrow>
                  if count < 0 then Inl (invalid ''negative count'')
                  else Inr (out\<lparr>ir_Count := Some count, ir_Coverage := ic_Coverage r\<rparr>)))))"

definition Matches :: "InputCountReceipt \<Rightarrow> InputCountRequest \<Rightarrow> bool" where
  "Matches c r \<longleftrightarrow> ir_Version c = ''iu-input-count-v1'' \<and> (case ir_Count c of Some n \<Rightarrow> n \<ge> 0 | None \<Rightarrow> False) \<and>
     ir_InputHash c = Hash (ic_SerializedInput r) \<and> ir_BindingHash c = count_binding r \<and> ir_Coverage c = ic_Coverage r"

definition EnforceInputTokenLimit :: "InputCountReceipt \<Rightarrow> InputCountRequest \<Rightarrow> int \<Rightarrow> string \<Rightarrow> unit result" where
  "EnforceInputTokenLimit c r limit adapterContractHash =
     (if \<not> ValidHash adapterContractHash \<or> ic_Coverage r \<noteq> ''complete_model_request'' \<or> \<not> Matches c r \<or> limit < 1
      then Inl (Error ''CONTEXT_TOKEN_BUDGET_UNSUPPORTED'')
      else if (case ir_Count c of Some n \<Rightarrow> n > limit | None \<Rightarrow> False)
      then Inl (Error ''CONTEXT_INSUFFICIENT: input tokens exceed limit'')
      else Inr ())"

text \<open>A receipt issued by \<open>CountInput\<close> lets a request through exactly when the count of the tokenizer for
  that very request is within the limit, the request declares complete coverage and the adapter contract
  is a digest.\<close>

theorem count_then_enforce:
  assumes "CountInput None None r (Some f) = Inr c"
  shows "EnforceInputTokenLimit c r limit h = Inr () \<longleftrightarrow>
    (\<exists>n. f r = Inr n \<and> 0 \<le> n \<and> n \<le> limit) \<and> 1 \<le> limit \<and> ic_Coverage r = ''complete_model_request'' \<and> ValidHash h"
  using assms
  by (auto simp: CountInput_def EnforceInputTokenLimit_def Matches_def Let_def rbind_eq_Inr_iff split: if_splits)

section \<open>Examples\<close>

definition example_source :: Source where
  "example_source = \<lparr>so_Role = ''user'', so_MessageIndex = 0, so_ID = ''s1'', so_Text = ''abcdef'', so_SHA256 = []\<rparr>"

definition example_span :: "int \<Rightarrow> int \<Rightarrow> Span" where
  "example_span a b = \<lparr>sn_Source = ''s1'', sn_Start = a, sn_End = b, sn_SHA256 = Hash ''abcdef''\<rparr>"

lemma required_evidence_covered_iff_witness:
  "requiredEvidenceCovered (example_span 1 5) [example_span 3 6, example_span 0 3]"
proof -
  have "sn_Start (example_span 1 5) < sn_End (example_span 1 5)" by (simp add: example_span_def)
  from required_evidence_covered_iff [OF this] show ?thesis
    by (auto simp: example_span_def)
qed

lemma reconstruct_source_iff_witness:
  "ReconstructSource example_source [example_span 3 6, example_span 0 4] = Inr ''abcdef''"
proof -
  have "so_SHA256 example_source = [] \<or> so_SHA256 example_source = Hash (so_Text example_source)"
    by (simp add: example_source_def)
  note iff = reconstruct_source_iff [OF this]
  have utf: "utf8_valid (slice ''abcdef'' 3 6)" "utf8_valid (slice ''abcdef'' 0 4)" by code_simp+
  show ?thesis
    unfolding iff using utf
    by (auto simp: example_source_def example_span_def readSpan_Inr_iff)
qed

definition example_count :: InputCountRequest where
  "example_count = \<lparr>ic_ModelID = ''m'', ic_TokenizerVersion = ''t'', ic_TemplateVersion = ''p'', ic_AdapterVersion = ''a'',
     ic_Coverage = ''complete_model_request'', ic_SerializedInput = ''hello''\<rparr>"

lemma count_then_enforce_witness:
  "\<exists>c. CountInput None None example_count (Some (\<lambda>r. Inr (int (length (ic_SerializedInput r))))) = Inr c \<and>
     EnforceInputTokenLimit c example_count 8 (Hash []) = Inr () \<and>
     EnforceInputTokenLimit c example_count 4 (Hash []) \<noteq> Inr ()"
proof -
  obtain c where c: "CountInput None None example_count (Some (\<lambda>r. Inr (int (length (ic_SerializedInput r))))) = Inr c"
    by (simp add: CountInput_def example_count_def)
  have "ValidHash (Hash [])" by (simp add: ValidHash_def)
  moreover from count_then_enforce [OF c] have
    "EnforceInputTokenLimit c example_count 8 (Hash []) = Inr () \<longleftrightarrow> ValidHash (Hash [])"
    "EnforceInputTokenLimit c example_count 4 (Hash []) \<noteq> Inr ()"
    by (simp_all add: example_count_def)
  ultimately show ?thesis using c by blast
qed

end
