(* ===== verification/Graph_Memory.thy ===== *)
theory Graph_Memory
  imports Graph_Span
begin

text \<open>
  Memory views of the IU graph: \<open>internal/graph/memory.go\<close>, \<open>origin.go\<close>, \<open>validity.go\<close>, \<open>import.go\<close>,
  \<open>source_lineage.go\<close> and \<open>ProjectVerifiedScope\<close> of \<open>verification.go\<close>.

  A clone through \<open>json.Marshal\<close> and \<open>json.Unmarshal\<close> detaches slices and is the identity on values: the
  records come out of the strict decoder, so their strings are valid UTF-8 and their payloads compact. A nil
  and an empty slice are the same list. Go's maps are lists or functions; where the code ranges over a map,
  the results are sorted afterwards or, for the dependency check, shown not to depend on the order.

  The depth-first search of \<open>validateView\<close> carries the path (\<open>visiting\<close>) and the finished ids (\<open>fin\<close>); it
  terminates because the path grows inside the ids of the view. The two fixpoint loops (\<open>invalidate_loop\<close>,
  \<open>projectValidity\<close>) are recursive functions with a decreasing measure, so they return on every view.

  Shown here: \<open>validateView\<close> accepts exactly closed and acyclic dependency graphs; \<open>Invalidate\<close> marks exactly the
  transitive dependents; \<open>projectValidity\<close> gives every record the worst validity of what it rests on; a
  delta's records depend on the whole read view; merging does not depend on the order of arrival.
\<close>

section \<open>Data\<close>

record ImportIdentity =
  ii_GoalID :: string
  ii_Generation :: int
  ii_JobID :: string
  ii_NodeID :: string
  ii_ContextHash :: string

datatype MemoryOrigin = MemoryOrigin
  (mo_Version: string) (mo_Source: ImportIdentity) (mo_ViewHash: string) (mo_RecordID: string)
  (mo_RecordHash: string) (mo_Previous: "MemoryOrigin option")

record SourceRef =
  sr_ID :: string
  sr_SHA256 :: string

record MemoryRecord =
  mr_Origin :: "MemoryOrigin option"
  mr_ID :: string
  mr_Kind :: string
  mr_Payload :: string
  mr_Sources :: "SourceRef list"
  mr_Dependencies :: "string list"
  mr_Supersedes :: "string list"
  mr_Validation :: string
  mr_Validity :: string
  mr_InputHash :: string

record MemoryConflict =
  mc_RecordID :: string
  mc_Candidates :: "MemoryRecord list"

record MemoryView =
  mv_Version :: string
  mv_Records :: "MemoryRecord list"
  mv_Conflicts :: "MemoryConflict list"
  mv_SHA256 :: string

record Delta =
  dl_Version :: string
  dl_ReadViewHash :: string
  dl_ContextHash :: string
  dl_Records :: "MemoryRecord list"

section \<open>Canonical text\<close>

definition identity_json :: "ImportIdentity \<Rightarrow> json" where
  "identity_json s = JObj [(''goal_id'', JStr (ii_GoalID s)), (''graph_generation'', JInt (ii_Generation s)),
     (''job_id'', JStr (ii_JobID s)), (''node_id'', JStr (ii_NodeID s)), (''context_sha256'', JStr (ii_ContextHash s))]"

fun origin_json :: "MemoryOrigin \<Rightarrow> json" where
  "origin_json (MemoryOrigin v s vh i rh prev) =
     JObj ([(''version'', JStr v), (''source'', identity_json s), (''view_sha256'', JStr vh), (''record_id'', JStr i),
            (''record_sha256'', JStr rh)] @
           (case prev of None \<Rightarrow> [] | Some p \<Rightarrow> [(''previous'', origin_json p)]))"

definition ref_json :: "SourceRef \<Rightarrow> json" where
  "ref_json r = JObj [(''id'', JStr (sr_ID r)), (''sha256'', JStr (sr_SHA256 r))]"

definition record_json :: "MemoryRecord \<Rightarrow> json" where
  "record_json r =
     JObj ((case mr_Origin r of None \<Rightarrow> [] | Some p \<Rightarrow> [(''origin'', origin_json p)]) @
           [(''id'', JStr (mr_ID r)), (''kind'', JStr (mr_Kind r)), (''payload'', JRaw (mr_Payload r))] @
           opt_arr ''sources'' (map ref_json (mr_Sources r)) @
           opt_arr ''depends_on'' (map JStr (mr_Dependencies r)) @
           opt_arr ''supersedes'' (map JStr (mr_Supersedes r)) @
           [(''validation'', JStr (mr_Validation r)), (''validity'', JStr (mr_Validity r))] @
           opt_str ''input_sha256'' (mr_InputHash r))"

definition conflict_json :: "MemoryConflict \<Rightarrow> json" where
  "conflict_json c = JObj [(''record_id'', JStr (mc_RecordID c)), (''candidates'', JArr (map record_json (mc_Candidates c)))]"

definition view_json :: "MemoryView \<Rightarrow> json" where
  "view_json v = JObj ([(''version'', JStr (mv_Version v)), (''records'', JArr (map record_json (mv_Records v)))] @
     opt_arr ''conflicts'' (map conflict_json (mv_Conflicts v)) @ [(''sha256'', JStr (mv_SHA256 v))])"

definition delta_json :: "Delta \<Rightarrow> json" where
  "delta_json d = JObj [(''version'', JStr (dl_Version d)), (''read_view_sha256'', JStr (dl_ReadViewHash d)),
     (''context_sha256'', JStr (dl_ContextHash d)), (''records'', JArr (map record_json (dl_Records d)))]"

section \<open>Origins\<close>

definition ImportIdentity_Valid :: "ImportIdentity \<Rightarrow> bool" where
  "ImportIdentity_Valid s \<longleftrightarrow> Ref (ii_GoalID s) \<and> ii_Generation s > 0 \<and> Ref (ii_JobID s) \<and>
     key_pattern (ii_NodeID s) \<and> ValidHash (ii_ContextHash s)"

text \<open>The loop along \<open>Previous\<close>: \<open>depth\<close> counts the origins passed, \<open>previous\<close> is the one before.\<close>

fun validate_chain :: "nat \<Rightarrow> ImportIdentity option \<Rightarrow> MemoryOrigin \<Rightarrow> unit result" where
  "validate_chain depth previous (MemoryOrigin v s vh i rh prev) =
     (if depth + 1 > 8 \<or> v \<noteq> ''iu-record-origin-v1'' \<or> \<not> ImportIdentity_Valid s \<or> \<not> ValidHash vh \<or>
         \<not> ValidHash rh \<or> \<not> key_pattern i
      then Inl (invalid ''memory origin'')
      else if (case previous of None \<Rightarrow> False
               | Some p \<Rightarrow> ii_GoalID s \<noteq> ii_GoalID p \<or> ii_Generation s \<ge> ii_Generation p)
      then Inl (invalid ''memory origin generation'')
      else (case prev of None \<Rightarrow> Inr () | Some o' \<Rightarrow> validate_chain (depth + 1) (Some s) o'))"

definition validateOrigin :: "MemoryOrigin option \<Rightarrow> unit result" where
  "validateOrigin origin = (case origin of None \<Rightarrow> Inr () | Some p \<Rightarrow> validate_chain 0 None p)"

definition all_records :: "MemoryView \<Rightarrow> MemoryRecord list" where
  "all_records v = mv_Records v @ concat (map mc_Candidates (mv_Conflicts v))"

definition HasMemoryOrigins :: "MemoryView \<Rightarrow> bool" where
  "HasMemoryOrigins v = list_ex (\<lambda>r. mr_Origin r \<noteq> None) (all_records v)"

section \<open>Views\<close>

definition sealView :: "MemoryView \<Rightarrow> MemoryView" where
  "sealView v =
     (let v1 = v\<lparr>mv_Version := (if HasMemoryOrigins v then ''iu-memory-view-v2'' else ''iu-memory-view-v1''),
                 mv_SHA256 := []\<rparr>
      in v1\<lparr>mv_SHA256 := Hash (json_text (view_json v1))\<rparr>)"

definition sort_record :: "MemoryRecord \<Rightarrow> MemoryRecord" where
  "sort_record r = r\<lparr>mr_Dependencies := sort (mr_Dependencies r), mr_Supersedes := sort (mr_Supersedes r),
     mr_Sources := sort_key sr_ID (mr_Sources r)\<rparr>"

definition NewView :: "MemoryRecord list \<Rightarrow> MemoryView" where
  "NewView records =
     sealView \<lparr>mv_Version = ''iu-memory-view-v1'', mv_Records = sort_key mr_ID (map sort_record records),
               mv_Conflicts = [], mv_SHA256 = []\<rparr>"

definition EmptyView :: MemoryView where
  "EmptyView = NewView []"

definition record_kinds :: "string list" where
  "record_kinds = [''observation'', ''hypothesis'', ''decision'', ''constraint'', ''unresolved'', ''result'']"

definition jobHash :: "string \<Rightarrow> bool" where
  "jobHash s = hex_string 64 s"

fun sources_ok :: "string list \<Rightarrow> SourceRef list \<Rightarrow> unit result" where
  "sources_ok seen [] = Inr ()"
| "sources_ok seen (s # ss) =
     (if sr_ID s = [] \<or> \<not> jobHash (sr_SHA256 s) \<or> sr_ID s \<in> set seen then Inl (invalid ''memory source'')
      else sources_ok (sr_ID s # seen) ss)"

definition validateRecord :: "MemoryRecord \<Rightarrow> bool \<Rightarrow> unit result" where
  "validateRecord r candidate =
     (if \<not> key_pattern (mr_ID r) \<or> length (mr_Payload r) > 8192 \<or> \<not> json_valid (mr_Payload r) \<or>
         length (mr_Sources r) > 64 \<or> length (mr_Dependencies r) > 1024 \<or> length (mr_Supersedes r) > 64
      then Inl (invalid ''memory record bounds'')
      else if mr_Kind r \<notin> set record_kinds then Inl (invalid ''memory kind'')
      else if candidate \<and> (mr_Validation r \<noteq> ''unchecked'' \<or> mr_Origin r \<noteq> None) \<or>
              mr_Validation r \<noteq> ''unchecked'' \<and> mr_Validation r \<noteq> ''verified''
      then Inl (invalid ''memory verification'')
      else if mr_Validity r \<noteq> ''VALID'' \<and> mr_Validity r \<noteq> ''INVALID'' \<and> mr_Validity r \<noteq> ''NEEDS_REVALIDATION''
      then Inl (invalid ''memory validity'')
      else rbind (validateOrigin (mr_Origin r)) (\<lambda>_. sources_ok [] (mr_Sources r)))"

definition find_record :: "MemoryRecord list \<Rightarrow> string \<Rightarrow> MemoryRecord option" where
  "find_record recs i = List.find (\<lambda>r. mr_ID r = i) recs"

lemma find_record_SomeD: "find_record recs i = Some r \<Longrightarrow> r \<in> set recs \<and> mr_ID r = i"
  unfolding find_record_def by (drule find_Some_iff_in) simp

text \<open>The closure \<open>visit\<close>: the ids being visited, the finished ids, the id to visit.\<close>

function visit :: "MemoryRecord list \<Rightarrow> string list \<Rightarrow> string list \<Rightarrow> string \<Rightarrow> string list result" where
  "visit recs visiting fin i =
     (if i \<in> set fin then Inr fin
      else (case find_record recs i of
          None \<Rightarrow> Inl (invalid ''missing memory dependency'')
        | Some r \<Rightarrow>
            if i \<in> set visiting then Inl (invalid ''memory dependency cycle'')
            else rbind (fold_result (visit recs (i # visiting)) fin (mr_Dependencies r)) (\<lambda>fin'. Inr (i # fin'))))"
  by pat_completeness auto
termination
proof (relation "measure (\<lambda>(recs, visiting, fin, i). card (mr_ID ` set recs - set visiting))", goal_cases)
  case (2 recs visiting fin i r x u)
  then have "i \<in> mr_ID ` set recs - set visiting" by (auto dest: find_record_SomeD)
  then have "mr_ID ` set recs - set (i # visiting) \<subset> mr_ID ` set recs - set visiting" by auto
  then show ?case by (simp add: psubset_card_mono del: set_simps)
qed simp

declare visit.simps [simp del]

fun records_ok :: "string list \<Rightarrow> MemoryRecord list \<Rightarrow> unit result" where
  "records_ok seen [] = Inr ()"
| "records_ok seen (r # rs) =
     (if mr_ID r \<in> set seen then Inl (invalid ''duplicate record'')
      else rbind (validateRecord r False) (\<lambda>_. records_ok (mr_ID r # seen) rs))"

definition validateView :: "MemoryView \<Rightarrow> unit result" where
  "validateView v =
     (if (mv_Version v \<noteq> ''iu-memory-view-v1'' \<and> mv_Version v \<noteq> ''iu-memory-view-v2'') \<or>
         (mv_Version v = ''iu-memory-view-v2'') \<noteq> HasMemoryOrigins v \<or> mv_SHA256 v \<noteq> mv_SHA256 (sealView v)
      then Inl (invalid ''memory view hash'')
      else rbind (check_all (\<lambda>c. check_all (\<lambda>r. validateOrigin (mr_Origin r)) (mc_Candidates c)) (mv_Conflicts v)) (\<lambda>_.
        rbind (records_ok [] (mv_Records v)) (\<lambda>_.
          rbind (fold_result (visit (mv_Records v) []) [] (map mr_ID (mv_Records v))) (\<lambda>_. Inr ()))))"

section \<open>Deltas\<close>

text \<open>One round of the loop over the new records: \<open>available\<close> are the ids of the read view.\<close>

definition delta_record :: "string list \<Rightarrow> string \<Rightarrow> string list \<Rightarrow> MemoryRecord \<Rightarrow> MemoryRecord result" where
  "delta_record available contextHash seen r =
     rbind (validateRecord r True) (\<lambda>_.
       if mr_ID r \<in> set seen \<or> mr_ID r \<in> set available then Inl (invalid ''duplicate new memory identity'')
       else if \<not> list_all (\<lambda>dep. dep \<in> set available) (mr_Dependencies r @ mr_Supersedes r)
       then Inl (invalid ''undeclared memory dependency'')
       else Inr (r\<lparr>mr_Dependencies := sort (remdups available), mr_InputHash := contextHash, mr_Validity := ''VALID''\<rparr>))"

definition delta_step ::
  "string list \<Rightarrow> string \<Rightarrow> string list \<times> MemoryRecord list \<Rightarrow> MemoryRecord \<Rightarrow> (string list \<times> MemoryRecord list) result" where
  "delta_step available contextHash = (\<lambda>(seen, out) r.
     rbind (delta_record available contextHash seen r) (\<lambda>r'. Inr (mr_ID r # seen, out @ [r'])))"

text \<open>From the decoded delta on; \<open>rawLen\<close> is the length of the text it was decoded from.\<close>

definition ValidateDelta :: "nat \<Rightarrow> Delta \<Rightarrow> MemoryView \<Rightarrow> Delta result" where
  "ValidateDelta rawLen d view =
     (if rawLen > 65536 then Inl (invalid ''memory delta size'')
      else rbind (validateView view) (\<lambda>_.
        if dl_Version d \<noteq> ''iu-memory-delta-v1'' \<or> dl_ReadViewHash d \<noteq> mv_SHA256 view \<or> \<not> jobHash (dl_ContextHash d) \<or>
           length (dl_Records d) > 32
        then Inl (invalid ''memory delta contract'')
        else rbind (fold_result (delta_step (map mr_ID (mv_Records view)) (dl_ContextHash d)) ([], []) (dl_Records d))
          (\<lambda>(_, records). Inr (d\<lparr>dl_Records := records\<rparr>))))"

section \<open>Invalidation and validity\<close>

text \<open>One pass of the loop over the records; the marks grow while it runs.\<close>

definition mark_record :: "MemoryRecord \<Rightarrow> string list \<Rightarrow> string list" where
  "mark_record r marked =
     (if list_ex (\<lambda>dep. dep \<in> set marked) (mr_Dependencies r) \<and> mr_ID r \<notin> set marked then mr_ID r # marked else marked)"

definition invalidate_pass :: "MemoryRecord list \<Rightarrow> string list \<Rightarrow> string list" where
  "invalidate_pass recs marked = foldl (\<lambda>m r. mark_record r m) marked recs"

lemma invalidate_pass_Cons [simp]: "invalidate_pass (r # recs) marked = invalidate_pass recs (mark_record r marked)"
  by (simp add: invalidate_pass_def)

lemma invalidate_pass_Nil [simp]: "invalidate_pass [] marked = marked"
  by (simp add: invalidate_pass_def)

lemma mark_record_grows: "set marked \<subseteq> set (mark_record r marked)"
  by (auto simp: mark_record_def)

lemma invalidate_pass_grows: "set marked \<subseteq> set (invalidate_pass recs marked)"
proof (induction recs arbitrary: marked)
  case (Cons r recs)
  from mark_record_grows [of marked r] Cons [of "mark_record r marked"] show ?case by simp
qed simp

lemma invalidate_pass_ids: "set (invalidate_pass recs marked) \<subseteq> set marked \<union> mr_ID ` set recs"
proof (induction recs arbitrary: marked)
  case (Cons r recs)
  have "set (mark_record r marked) \<subseteq> insert (mr_ID r) (set marked)" by (auto simp: mark_record_def)
  with Cons [of "mark_record r marked"] show ?case by auto
qed simp

lemma invalidate_pass_same: "set (invalidate_pass recs marked) = set marked \<Longrightarrow> invalidate_pass recs marked = marked"
proof (induction recs arbitrary: marked)
  case (Cons r recs)
  have "set (mark_record r marked) \<subseteq> set marked"
    using Cons.prems invalidate_pass_grows [of "mark_record r marked" recs] by auto
  then have "mark_record r marked = marked" by (auto simp: mark_record_def split: if_splits)
  with Cons show ?case by simp
qed simp

function invalidate_loop :: "MemoryRecord list \<Rightarrow> string list \<Rightarrow> string list" where
  "invalidate_loop recs marked =
     (let marked' = invalidate_pass recs marked in if marked' = marked then marked else invalidate_loop recs marked')"
  by pat_completeness auto
termination
proof (relation "measure (\<lambda>(recs, marked). card (mr_ID ` set recs - set marked))", goal_cases)
  case (2 recs marked marked')
  then have ne: "set marked \<noteq> set marked'" using invalidate_pass_same [of recs marked] by auto
  have "set marked \<subseteq> set marked'" "set marked' \<subseteq> set marked \<union> mr_ID ` set recs"
    using 2 invalidate_pass_grows [of marked recs] invalidate_pass_ids [of recs marked] by simp_all
  with ne have "mr_ID ` set recs - set marked' \<subset> mr_ID ` set recs - set marked" by blast
  then show ?case by (simp add: psubset_card_mono)
qed simp

declare invalidate_loop.simps [simp del]

definition mark_invalid :: "string list \<Rightarrow> MemoryRecord \<Rightarrow> MemoryRecord" where
  "mark_invalid marked r = (if mr_ID r \<in> set marked then r\<lparr>mr_Validity := ''INVALID''\<rparr> else r)"

fun roots_found :: "MemoryRecord list \<Rightarrow> string list \<Rightarrow> unit result" where
  "roots_found recs [] = Inr ()"
| "roots_found recs (i # is) =
     (if find_record recs i = None then Inl (Error (''MEMORY_DEPENDENCY_MISSING: '' @ i)) else roots_found recs is)"

definition Invalidate :: "MemoryView \<Rightarrow> string list \<Rightarrow> MemoryView result" where
  "Invalidate view ids =
     rbind (validateView view) (\<lambda>_.
       let recs = mv_Records (NewView (mv_Records view)) in
       rbind (roots_found recs ids) (\<lambda>_.
         let marked = invalidate_loop recs ids in
         Inr (sealView ((NewView (mv_Records view))
           \<lparr>mv_Records := map (mark_invalid marked) recs,
            mv_Conflicts := map (\<lambda>c. c\<lparr>mc_Candidates := map (mark_invalid marked) (mc_Candidates c)\<rparr>)
                              (mv_Conflicts view)\<rparr>))))"

definition rank :: "string \<Rightarrow> nat" where
  "rank v = (if v = ''INVALID'' then 2 else if v = ''NEEDS_REVALIDATION'' then 1 else 0)"

text \<open>The body of the two inner loops for one dependency and one parent.\<close>

definition raise_by :: "MemoryRecord \<Rightarrow> MemoryRecord \<Rightarrow> MemoryRecord" where
  "raise_by r parent = (if rank (mr_Validity parent) > rank (mr_Validity r) then r\<lparr>mr_Validity := mr_Validity parent\<rparr> else r)"

definition raise_record :: "MemoryRecord list \<Rightarrow> MemoryRecord \<Rightarrow> MemoryRecord" where
  "raise_record recs r =
     foldl (\<lambda>r dep. foldl (\<lambda>r parent. if mr_ID parent = dep then raise_by r parent else r) r recs) r (mr_Dependencies r)"

definition validity_pass :: "MemoryRecord list \<Rightarrow> MemoryRecord list" where
  "validity_pass recs = foldl (\<lambda>rs i. rs[i := raise_record rs (rs ! i)]) recs [0..<length recs]"


text \<open>A pass never lowers a rank, and if it changes anything it raises one.\<close>

definition revalidated :: "MemoryRecord \<Rightarrow> MemoryRecord \<Rightarrow> bool" where
  "revalidated r r' \<longleftrightarrow> (\<exists>v. r' = r\<lparr>mr_Validity := v\<rparr>) \<and>
     (r' = r \<or> rank (mr_Validity r) < rank (mr_Validity r'))"

lemma revalidated_refl [simp]: "revalidated r r"
  unfolding revalidated_def by (metis MemoryRecord.surjective MemoryRecord.update_convs(9) old.unit.exhaust)

lemma revalidated_trans: "revalidated a b \<Longrightarrow> revalidated b c \<Longrightarrow> revalidated a c"
  unfolding revalidated_def by auto

lemma revalidated_raise_by: "revalidated r (raise_by r parent)"
proof (cases "rank (mr_Validity parent) > rank (mr_Validity r)")
  case True
  then show ?thesis by (auto simp: revalidated_def raise_by_def)
qed (simp add: raise_by_def)

lemma revalidated_foldl:
  assumes "\<And>r x. revalidated r (f r x)"
  shows "revalidated r (foldl f r xs)"
proof (induction xs arbitrary: r)
  case (Cons x xs)
  from assms [of r x] Cons [of "f r x"] show ?case by (auto intro: revalidated_trans)
qed simp

lemma revalidated_raise_record: "revalidated r (raise_record recs r)"
proof -
  have "revalidated s (foldl (\<lambda>r parent. if mr_ID parent = dep then raise_by r parent else r) s recs)" for s dep
    by (rule revalidated_foldl) (simp add: revalidated_raise_by)
  then show ?thesis unfolding raise_record_def by (rule revalidated_foldl)
qed

lemma revalidated_keeps:
  "revalidated r r' \<Longrightarrow> mr_ID r' = mr_ID r \<and> mr_Dependencies r' = mr_Dependencies r \<and>
     rank (mr_Validity r) \<le> rank (mr_Validity r')"
  by (auto simp: revalidated_def)

lemma pass_revalidated:
  "list_all2 revalidated recs (foldl (\<lambda>rs i. rs[i := raise_record rs (rs ! i)]) recs is)"
proof (induction "is" arbitrary: recs)
  case (Cons i "is")
  have "list_all2 revalidated recs (recs[i := raise_record recs (recs ! i)])"
    unfolding list_all2_conv_all_nth
  proof (intro conjI allI impI)
    show "revalidated (recs ! k) (recs[i := raise_record recs (recs ! i)] ! k)" if "k < length recs" for k
      using that by (cases "k = i") (simp_all add: revalidated_raise_record)
  qed simp
  moreover have "list_all2 revalidated (recs[i := raise_record recs (recs ! i)])
      (foldl (\<lambda>rs i. rs[i := raise_record rs (rs ! i)]) (recs[i := raise_record recs (recs ! i)]) is)"
    by (rule Cons)
  ultimately have "list_all2 revalidated recs
      (foldl (\<lambda>rs i. rs[i := raise_record rs (rs ! i)]) (recs[i := raise_record recs (recs ! i)]) is)"
    using list_all2_trans [of revalidated revalidated revalidated] revalidated_trans by blast
  then show ?case by simp
qed (simp add: list.rel_refl)

lemma validity_pass_revalidated: "list_all2 revalidated recs (validity_pass recs)"
  unfolding validity_pass_def by (rule pass_revalidated)

definition slack :: "MemoryRecord list \<Rightarrow> nat" where
  "slack recs = (\<Sum>r\<leftarrow>recs. 2 - rank (mr_Validity r))"

lemma rank_le_2 [simp]: "rank v \<le> 2"
  by (simp add: rank_def)

lemma slack_Cons: "slack (r # recs) = (2 - rank (mr_Validity r)) + slack recs"
  by (simp add: slack_def)

lemma slack_revalidated:
  "list_all2 revalidated recs recs' \<Longrightarrow> slack recs' \<le> slack recs \<and> (recs' \<noteq> recs \<longrightarrow> slack recs' < slack recs)"
proof (induction rule: list_all2_induct)
  case (Cons r recs r' recs')
  then have "rank (mr_Validity r) \<le> rank (mr_Validity r')" "r' \<noteq> r \<longrightarrow> rank (mr_Validity r) < rank (mr_Validity r')"
    by (auto simp: revalidated_def)
  moreover have "rank (mr_Validity r') \<le> 2" by simp
  moreover define a b where "a = 2 - rank (mr_Validity r')" and "b = 2 - rank (mr_Validity r)"
  ultimately have "a \<le> b" "r' \<noteq> r \<longrightarrow> a < b" by linarith+
  with Cons.IH show ?case
    unfolding slack_Cons a_def [symmetric] b_def [symmetric] by auto
qed (simp add: slack_def)

function projectValidity :: "MemoryRecord list \<Rightarrow> MemoryRecord list" where
  "projectValidity recs = (let recs' = validity_pass recs in if recs' = recs then recs else projectValidity recs')"
  by pat_completeness auto
termination
  by (relation "measure slack") (use slack_revalidated [OF validity_pass_revalidated] in auto)

declare projectValidity.simps [simp del]

definition project_view :: "MemoryView \<Rightarrow> MemoryView" where
  "project_view v = v\<lparr>mv_Records := projectValidity (mv_Records v)\<rparr>"

section \<open>Applying a delta\<close>

text \<open>The loop over the checked records: each set of superseded ids is invalidated.\<close>

fun supersede_all :: "MemoryView \<Rightarrow> MemoryRecord list \<Rightarrow> MemoryView result" where
  "supersede_all next [] = Inr next"
| "supersede_all next (r # rs) =
     (if mr_Supersedes r \<noteq> [] then rbind (Invalidate next (mr_Supersedes r)) (\<lambda>next'. supersede_all next' rs)
      else supersede_all next rs)"

definition ApplyDelta :: "MemoryView \<Rightarrow> Delta \<Rightarrow> MemoryView result" where
  "ApplyDelta view d =
     rbind (ValidateDelta (length (json_text (delta_json d))) d view) (\<lambda>checked.
       let next = sealView ((NewView (mv_Records view @ dl_Records checked))\<lparr>mv_Conflicts := mv_Conflicts view\<rparr>) in
       rbind (supersede_all next (dl_Records checked)) (\<lambda>next'. Inr (sealView (project_view next'))))"

section \<open>Merging views\<close>

abbreviation canonical_record :: "MemoryRecord \<Rightarrow> string" where
  "canonical_record r \<equiv> json_text (record_json r)"

text \<open>The map from canonical text to record for one id: a later record with the same text replaces an earlier.\<close>

definition variant_map :: "MemoryRecord list \<Rightarrow> string \<Rightarrow> string \<rightharpoonup> MemoryRecord" where
  "variant_map all i = map_of (rev (map (\<lambda>r. (canonical_record r, r)) (filter (\<lambda>r. mr_ID r = i) all)))"

definition variant_keys :: "MemoryRecord list \<Rightarrow> string \<Rightarrow> string list" where
  "variant_keys all i = sort (remdups (map canonical_record (filter (\<lambda>r. mr_ID r = i) all)))"

definition candidates :: "MemoryRecord list \<Rightarrow> string \<Rightarrow> MemoryRecord list" where
  "candidates all i = map (\<lambda>k. the (variant_map all i k)) (variant_keys all i)"

definition merged_record :: "MemoryRecord list \<Rightarrow> string \<Rightarrow> MemoryRecord" where
  "merged_record all i =
     (let r = hd (candidates all i) in
      if length (candidates all i) > 1 then r\<lparr>mr_Validity := ''NEEDS_REVALIDATION'', mr_Validation := ''unchecked''\<rparr> else r)"

definition merged_conflicts :: "MemoryRecord list \<Rightarrow> MemoryConflict list" where
  "merged_conflicts all =
     map (\<lambda>i. \<lparr>mc_RecordID = i, mc_Candidates = candidates all i\<rparr>)
       (filter (\<lambda>i. length (candidates all i) > 1) (sort (remdups (map mr_ID all))))"

definition MergeViews :: "MemoryView list \<Rightarrow> MemoryView result" where
  "MergeViews views =
     rbind (check_all validateView views) (\<lambda>_.
       let all = concat (map all_records views);
           v0 = NewView (map (merged_record all) (sort (remdups (map mr_ID all))));
           v = sealView (project_view (v0\<lparr>mv_Conflicts := merged_conflicts all\<rparr>))
       in rbind (validateView v) (\<lambda>_. Inr v))"

section \<open>Invalidation events\<close>

record InvalidationEvent =
  ie_ID :: string
  ie_GoalID :: string
  ie_Generation :: int
  ie_ExpectedRevision :: int
  ie_Reason :: string
  ie_EvidenceHash :: string
  ie_Sources :: "SourceRef list"
  ie_Records :: "string list"
  ie_AuditOnly :: bool

definition InvalidationEvent_Validate :: "InvalidationEvent \<Rightarrow> unit result" where
  "InvalidationEvent_Validate e =
     (if \<not> key_pattern (ie_ID e) \<or> ie_GoalID e = [] \<or> ie_Generation e < 1 \<or> ie_ExpectedRevision e < 0 \<or>
         \<not> jobHash (ie_EvidenceHash e) \<or> length (ie_Sources e) > 32 \<or> length (ie_Records e) > 32 \<or>
         length (ie_Sources e) + length (ie_Records e) = 0
      then Inl (Error ''INVALIDATION_INVALID'')
      else if ie_Reason e \<notin> {''RULE_CHANGED'', ''SOURCE_REVISED'', ''COUNTEREVIDENCE''}
      then Inl (Error ''INVALIDATION_REASON_INVALID'')
      else if \<not> (list_all (\<lambda>s. key_pattern (sr_ID s) \<and> jobHash (sr_SHA256 s)) (ie_Sources e) \<and>
                 no_repeat [] (map sr_ID (ie_Sources e)))
      then Inl (Error ''INVALIDATION_SOURCE_INVALID'')
      else if \<not> (list_all key_pattern (ie_Records e) \<and> no_repeat [] (ie_Records e))
      then Inl (Error ''INVALIDATION_RECORD_INVALID'')
      else Inr ())"

definition event_hits :: "InvalidationEvent \<Rightarrow> MemoryRecord \<Rightarrow> bool" where
  "event_hits e r \<longleftrightarrow> list_ex (\<lambda>i. mr_ID r = i) (ie_Records e) \<or>
     list_ex (\<lambda>s. list_ex (\<lambda>t. s = t) (ie_Sources e)) (mr_Sources r)"

definition ProjectInvalidation :: "MemoryView \<Rightarrow> InvalidationEvent \<Rightarrow> MemoryView result" where
  "ProjectInvalidation view e =
     rbind (validateView view) (\<lambda>_.
       if ie_AuditOnly e then Inr view
       else Invalidate view (sort (remdups (map mr_ID (filter (event_hits e) (all_records view))))))"

text \<open>\<open>contexts\<close> maps the hash of a frozen context to the spans it presented.\<close>

definition context_visit :: "(string \<rightharpoonup> Span list) \<Rightarrow> InvalidationEvent \<Rightarrow> MemoryRecord \<Rightarrow> MemoryRecord" where
  "context_visit contexts e r =
     (if contexts (mr_InputHash r) = None \<and> length (ie_Sources e) + length (ie_Records e) > 0 \<and> mr_Validity r = ''VALID''
      then r\<lparr>mr_Validity := ''NEEDS_REVALIDATION''\<rparr> else r)"

definition context_hits :: "(string \<rightharpoonup> Span list) \<Rightarrow> InvalidationEvent \<Rightarrow> MemoryRecord \<Rightarrow> bool" where
  "context_hits contexts e r =
     (case contexts (mr_InputHash r) of
        None \<Rightarrow> False
      | Some spans \<Rightarrow> list_ex (\<lambda>sp. list_ex (\<lambda>t. sn_Source sp = sr_ID t \<and> sn_SHA256 sp = sr_SHA256 t) (ie_Sources e)) spans)"

definition ProjectInvalidationWithContexts ::
  "MemoryView \<Rightarrow> InvalidationEvent \<Rightarrow> (string \<rightharpoonup> Span list) \<Rightarrow> MemoryView result" where
  "ProjectInvalidationWithContexts view e contexts =
     (if ie_AuditOnly e then ProjectInvalidation view e
      else let v0 = (NewView (mv_Records view))\<lparr>mv_Conflicts := mv_Conflicts view\<rparr>;
               ids = ie_Records e @ map mr_ID (filter (context_hits contexts e) (all_records v0));
               v1 = v0\<lparr>mv_Records := map (context_visit contexts e) (mv_Records v0),
                       mv_Conflicts := map (\<lambda>c. c\<lparr>mc_Candidates := map (context_visit contexts e) (mc_Candidates c)\<rparr>)
                                         (mv_Conflicts v0)\<rparr>
           in ProjectInvalidation (sealView (project_view v1)) (e\<lparr>ie_Records := sort (remdups ids)\<rparr>))"


section \<open>The dependency check\<close>

definition dep_rel :: "MemoryRecord list \<Rightarrow> (string \<times> string) set" where
  "dep_rel recs = {(a, b). \<exists>r. find_record recs a = Some r \<and> b \<in> set (mr_Dependencies r)}"

definition deps_closed :: "MemoryRecord list \<Rightarrow> bool" where
  "deps_closed recs \<longleftrightarrow> (\<forall>(a, b)\<in>dep_rel recs. find_record recs b \<noteq> None)"

text \<open>The finished ids, latest first: each one's dependencies were finished before it.\<close>

primrec settled :: "MemoryRecord list \<Rightarrow> string list \<Rightarrow> bool" where
  "settled recs [] = True"
| "settled recs (i # is) \<longleftrightarrow>
     (\<exists>r. find_record recs i = Some r \<and> set (mr_Dependencies r) \<subseteq> set is) \<and> settled recs is"

definition extends :: "MemoryRecord list \<Rightarrow> string list \<Rightarrow> string list \<Rightarrow> bool" where
  "extends recs fin fin' \<longleftrightarrow> settled recs fin' \<and> set fin \<subseteq> set fin'"

lemma fold_visit_extends:
  assumes run: "fold_result (visit recs vs) fin is = Inr fin'" and "settled recs fin"
    and step: "\<And>i u u'. i \<in> set is \<Longrightarrow> settled recs u \<Longrightarrow> visit recs vs u i = Inr u' \<Longrightarrow> extends recs u u' \<and> i \<in> set u'"
  shows "extends recs fin fin' \<and> set is \<subseteq> set fin'"
proof (rule fold_result_invariant [OF run, where P = "\<lambda>seen u. extends recs fin u \<and> set seen \<subseteq> set u"])
  show "extends recs fin fin \<and> set [] \<subseteq> set fin" using assms(2) by (simp add: extends_def)
next
  fix seen i u u'
  assume "extends recs fin u \<and> set seen \<subseteq> set u" "i \<in> set is" "visit recs vs u i = Inr u'"
  with step [of i u u'] show "extends recs fin u' \<and> set (seen @ [i]) \<subseteq> set u'"
    by (auto simp: extends_def)
qed

lemma visit_extends:
  "visit recs vs fin i = Inr fin' \<Longrightarrow> settled recs fin \<Longrightarrow> extends recs fin fin' \<and> i \<in> set fin'"
proof (induction recs vs fin i arbitrary: fin' rule: visit.induct)
  case (1 recs vs fin i)
  show ?case
  proof (cases "i \<in> set fin")
    case True
    with 1(2,3) show ?thesis by (auto simp: visit.simps [of recs vs fin i] extends_def)
  next
    case False
    with 1(2) obtain r fin1 where r: "find_record recs i = Some r" "i \<notin> set vs"
      and run: "fold_result (visit recs (i # vs)) fin (mr_Dependencies r) = Inr fin1" and fin': "fin' = i # fin1"
      by (auto simp: visit.simps [of recs vs fin i] rbind_eq_Inr_iff split: option.splits if_splits)
    have "extends recs fin fin1 \<and> set (mr_Dependencies r) \<subseteq> set fin1"
      using 1(1) [OF False r(1) r(2)] by (intro fold_visit_extends [OF run 1(3)]) auto
    with r(1) show ?thesis by (auto simp: fin' extends_def)
  qed
qed

lemma settled_acc:
  assumes "settled recs is" "i \<in> set is"
  shows "i \<in> Wellfounded.acc ((dep_rel recs)\<inverse>)"
  using assms
proof (induction "is" arbitrary: i)
  case (Cons j "is")
  then obtain r where r: "find_record recs j = Some r" "set (mr_Dependencies r) \<subseteq> set is" by auto
  have "j \<in> Wellfounded.acc ((dep_rel recs)\<inverse>)"
  proof (rule accI)
    fix y assume "(y, j) \<in> (dep_rel recs)\<inverse>"
    then have "y \<in> set is" using r by (simp add: dep_rel_def subset_iff)
    moreover have "settled recs is" using Cons.prems(1) by simp
    ultimately show "y \<in> Wellfounded.acc ((dep_rel recs)\<inverse>)" by (rule Cons.IH [rotated])
  qed
  moreover have "i \<in> Wellfounded.acc ((dep_rel recs)\<inverse>)" if "i \<in> set is"
    using Cons.IH that Cons.prems(1) by simp
  ultimately show ?case using Cons.prems(2) by (cases "i = j") simp_all
qed simp

lemma settled_closed: "settled recs is \<Longrightarrow> i \<in> set is \<Longrightarrow> (i, d) \<in> dep_rel recs \<Longrightarrow> d \<in> set is"
  by (induction "is") (auto simp: dep_rel_def)

lemma settled_found: "settled recs is \<Longrightarrow> i \<in> set is \<Longrightarrow> find_record recs i \<noteq> None"
  by (induction "is") auto

lemma acc_acyclic:
  assumes "\<And>a b. (a, b) \<in> R \<Longrightarrow> a \<in> Wellfounded.acc (R\<inverse>)"
  shows "acyclic R"
proof -
  have "wf (R\<inverse>)"
  proof (rule acc_wfI, rule allI)
    fix x show "x \<in> Wellfounded.acc (R\<inverse>)"
    proof (cases "\<exists>b. (x, b) \<in> R")
      case True
      then obtain b where "(x, b) \<in> R" ..
      then show ?thesis by (rule assms)
    next
      case False
      show ?thesis
      proof (rule accI)
        fix y assume "(y, x) \<in> R\<inverse>"
        with False show "y \<in> Wellfounded.acc (R\<inverse>)" by simp
      qed
    qed
  qed
  then have "acyclic (R\<inverse>)" by (rule wf_acyclic)
  then show ?thesis by simp
qed

lemma visit_complete:
  assumes "deps_closed recs" "acyclic (dep_rel recs)" "find_record recs i \<noteq> None"
    and "\<And>v. v \<in> set vs \<Longrightarrow> (v, i) \<in> (dep_rel recs)\<^sup>+"
  shows "\<exists>fin'. visit recs vs fin i = Inr fin'"
  using assms
proof (induction recs vs fin i rule: visit.induct)
  case (1 recs vs fin i)
  show ?case
  proof (cases "i \<in> set fin")
    case True
    then show ?thesis by (simp add: visit.simps [of recs vs fin i])
  next
    case False
    obtain r where r: "find_record recs i = Some r" using 1(4) by auto
    have nv: "i \<notin> set vs" using 1(3,5) by (auto simp: acyclic_def)
    have step: "\<exists>u'. visit recs (i # vs) u d = Inr u'" if d: "d \<in> set (mr_Dependencies r)" for d u
    proof (rule 1(1) [OF False r nv d 1(2,3)])
      have rel: "(i, d) \<in> dep_rel recs" using r d by (auto simp: dep_rel_def)
      then show "find_record recs d \<noteq> None" using 1(2) by (auto simp: deps_closed_def)
      show "(v, d) \<in> (dep_rel recs)\<^sup>+" if "v \<in> set (i # vs)" for v
        using that rel 1(5) by (auto intro: trancl_into_trancl)
    qed
    have "\<exists>u'. fold_result (visit recs (i # vs)) u ds = Inr u'" if "set ds \<subseteq> set (mr_Dependencies r)" for ds u
      using that
    proof (induction ds arbitrary: u)
      case (Cons d ds)
      then obtain u1 where "visit recs (i # vs) u d = Inr u1" using step by force
      with Cons show ?case by simp
    qed simp
    then obtain u' where "fold_result (visit recs (i # vs)) fin (mr_Dependencies r) = Inr u'" by blast
    with False r nv show ?thesis by (simp add: visit.simps [of recs vs fin i])
  qed
qed

lemma dep_search_iff:
  assumes "set order = mr_ID ` set recs"
  shows "(\<exists>fin. fold_result (visit recs []) [] order = Inr fin) \<longleftrightarrow>
    deps_closed recs \<and> acyclic (dep_rel recs)"
proof
  assume "\<exists>fin. fold_result (visit recs []) [] order = Inr fin"
  then obtain fin where run: "fold_result (visit recs []) [] order = Inr fin" by blast
  have "extends recs [] fin \<and> set order \<subseteq> set fin"
    by (rule fold_visit_extends [OF run]) (auto dest: visit_extends)
  then have fin: "settled recs fin" "mr_ID ` set recs \<subseteq> set fin" using assms by (auto simp: extends_def)
  have dom: "a \<in> set fin" if "(a, b) \<in> dep_rel recs" for a b
    using that fin(2) by (auto simp: dep_rel_def dest!: find_record_SomeD)
  have "find_record recs b \<noteq> None" if "(a, b) \<in> dep_rel recs" for a b
    using settled_found [OF fin(1) settled_closed [OF fin(1) dom [OF that] that]] .
  then have "deps_closed recs" unfolding deps_closed_def by fast
  moreover have "acyclic (dep_rel recs)"
    by (rule acc_acyclic) (rule settled_acc [OF fin(1) dom])
  ultimately show "deps_closed recs \<and> acyclic (dep_rel recs)" by blast
next
  assume ok: "deps_closed recs \<and> acyclic (dep_rel recs)"
  have found: "find_record recs i \<noteq> None" if "i \<in> set order" for i
    using that assms by (auto simp: find_record_def find_None_iff)
  have "\<exists>fin. fold_result (visit recs []) u is = Inr fin" if "set is \<subseteq> set order" for u "is"
    using that
  proof (induction "is" arbitrary: u)
    case (Cons i "is")
    then obtain u1 where "visit recs [] u i = Inr u1"
      using visit_complete [of recs i "[]" u] ok found by force
    with Cons show ?case by simp
  qed simp
  then show "\<exists>fin. fold_result (visit recs []) [] order = Inr fin" by blast
qed

lemma records_ok_iff:
  "records_ok seen rs = Inr () \<longleftrightarrow>
     distinct (map mr_ID rs) \<and> (\<forall>r\<in>set rs. validateRecord r False = Inr () \<and> mr_ID r \<notin> set seen)"
  by (induction seen rs rule: records_ok.induct) (auto simp: rbind_eq_Inr_iff image_iff, metis)

text \<open>What a view must satisfy besides its hash.\<close>

definition records_fine :: "MemoryRecord list \<Rightarrow> bool" where
  "records_fine rs \<longleftrightarrow> distinct (map mr_ID rs) \<and> (\<forall>r\<in>set rs. validateRecord r False = Inr ()) \<and>
     deps_closed rs \<and> acyclic (dep_rel rs)"

definition origins_fine :: "MemoryView \<Rightarrow> bool" where
  "origins_fine v \<longleftrightarrow> (\<forall>c\<in>set (mv_Conflicts v). \<forall>r\<in>set (mc_Candidates c). validateOrigin (mr_Origin r) = Inr ())"

definition hash_fine :: "MemoryView \<Rightarrow> bool" where
  "hash_fine v \<longleftrightarrow> (mv_Version v = ''iu-memory-view-v1'' \<or> mv_Version v = ''iu-memory-view-v2'') \<and>
     (mv_Version v = ''iu-memory-view-v2'') = HasMemoryOrigins v \<and> mv_SHA256 v = mv_SHA256 (sealView v)"

lemma validateView_iff:
  "validateView v = Inr () \<longleftrightarrow> hash_fine v \<and> origins_fine v \<and> records_fine (mv_Records v)"
proof -
  let ?search = "fold_result (visit (mv_Records v) []) [] (map mr_ID (mv_Records v))"
  have "validateView v = Inr () \<longleftrightarrow> hash_fine v \<and> origins_fine v \<and> records_ok [] (mv_Records v) = Inr () \<and>
      (\<exists>fin. ?search = Inr fin)"
    by (simp only: validateView_def hash_fine_def origins_fine_def)
      (auto simp: rbind_eq_Inr_iff check_all_eq_Inr_iff)
  moreover have "(\<exists>fin. ?search = Inr fin) \<longleftrightarrow> deps_closed (mv_Records v) \<and> acyclic (dep_rel (mv_Records v))"
    by (rule dep_search_iff) simp
  ultimately show ?thesis by (auto simp: records_ok_iff records_fine_def)
qed

lemma HasMemoryOrigins_header [simp]:
  "HasMemoryOrigins (v\<lparr>mv_Version := a\<rparr>) = HasMemoryOrigins v"
  "HasMemoryOrigins (v\<lparr>mv_SHA256 := b\<rparr>) = HasMemoryOrigins v"
  by (simp_all add: HasMemoryOrigins_def all_records_def)

lemma sealView_simps [simp]:
  "mv_Records (sealView v) = mv_Records v" "mv_Conflicts (sealView v) = mv_Conflicts v"
  "HasMemoryOrigins (sealView v) = HasMemoryOrigins v" "sealView (sealView v) = sealView v"
  by (simp_all add: sealView_def Let_def)

lemma hash_fine_seal [simp]: "hash_fine (sealView v)"
proof -
  have "mv_Version (sealView v) = (if HasMemoryOrigins v then ''iu-memory-view-v2'' else ''iu-memory-view-v1'')"
    by (simp add: sealView_def Let_def)
  then show ?thesis by (simp add: hash_fine_def)
qed

lemma origins_fine_seal [simp]: "origins_fine (sealView v) = origins_fine v"
  by (simp add: origins_fine_def)

text \<open>A sealed view is accepted when its records are fine: what every constructor of views relies on.\<close>

lemma validate_sealed: "validateView (sealView v) = Inr () \<longleftrightarrow> origins_fine v \<and> records_fine (mv_Records v)"
  by (simp add: validateView_iff)

section \<open>The dependency graph\<close>

lemma find_record_eq:
  "distinct (map mr_ID recs) \<Longrightarrow> find_record recs i = Some r \<longleftrightarrow> r \<in> set recs \<and> mr_ID r = i"
proof (induction recs)
  case (Cons s recs)
  then show ?case by (auto simp: find_record_def)
qed (simp add: find_record_def)

lemma find_record_None: "find_record recs i = None \<longleftrightarrow> i \<notin> mr_ID ` set recs"
  by (auto simp: find_record_def find_None_iff)

lemma dep_rel_distinct:
  "distinct (map mr_ID recs) \<Longrightarrow> dep_rel recs = {(mr_ID r, d) |r d. r \<in> set recs \<and> d \<in> set (mr_Dependencies r)}"
  by (auto simp: dep_rel_def find_record_eq)

lemma deps_closed_iff:
  "distinct (map mr_ID recs) \<Longrightarrow>
   deps_closed recs \<longleftrightarrow> (\<forall>r\<in>set recs. set (mr_Dependencies r) \<subseteq> mr_ID ` set recs)"
  by (auto simp: deps_closed_def dep_rel_distinct find_record_None)

text \<open>Two lists of records with the same ids and dependencies have the same graph.\<close>

lemma dep_rel_same:
  assumes "distinct (map mr_ID recs)" "distinct (map mr_ID recs')"
    and "(\<lambda>r. (mr_ID r, set (mr_Dependencies r))) ` set recs = (\<lambda>r. (mr_ID r, set (mr_Dependencies r))) ` set recs'"
  shows "dep_rel recs = dep_rel recs'"
proof -
  have "dep_rel rs = {(i, d). \<exists>D. (i, D) \<in> (\<lambda>r. (mr_ID r, set (mr_Dependencies r))) ` set rs \<and> d \<in> D}"
    if "distinct (map mr_ID rs)" for rs
    using that by (auto simp: dep_rel_distinct)
  then show ?thesis using assms by simp
qed

text \<open>A change of records that keeps ids, dependencies and acceptance, up to order, keeps \<open>records_fine\<close>.\<close>

lemma records_fine_map:
  assumes "records_fine recs" "mset recs' = mset (map f recs)"
    and "\<And>r. r \<in> set recs \<Longrightarrow> mr_ID (f r) = mr_ID r \<and> set (mr_Dependencies (f r)) = set (mr_Dependencies r)"
    and "\<And>r. r \<in> set recs \<Longrightarrow> validateRecord r False = Inr () \<Longrightarrow> validateRecord (f r) False = Inr ()"
  shows "records_fine recs'" "dep_rel recs' = dep_rel recs"
proof -
  have set: "set recs' = f ` set recs" using mset_eq_setD [OF assms(2)] by simp
  have "mset (map mr_ID recs') = mset (map (mr_ID \<circ> f) recs)" using assms(2) by (metis mset_map map_map)
  also have "map (mr_ID \<circ> f) recs = map mr_ID recs" using assms(3) by simp
  finally have ids: "distinct (map mr_ID recs')"
    using assms(1) by (simp only: records_fine_def) (metis mset_eq_imp_distinct_iff)
  have d: "distinct (map mr_ID recs)" using assms(1) by (simp add: records_fine_def)
  have img: "(\<lambda>r. (mr_ID r, set (mr_Dependencies r))) ` set recs' = (\<lambda>r. (mr_ID r, set (mr_Dependencies r))) ` set recs"
    unfolding set image_image using assms(3) by (intro image_cong) auto
  show rel: "dep_rel recs' = dep_rel recs" by (rule dep_rel_same [OF ids d img])
  have idset: "mr_ID ` set recs' = mr_ID ` set recs" unfolding set image_image using assms(3) by (intro image_cong) auto
  then have "deps_closed recs'"
    using assms(1) by (simp add: records_fine_def deps_closed_def rel find_record_None)
  then show "records_fine recs'"
    using assms(1,4) ids by (simp add: records_fine_def rel set)
qed


lemma sources_ok_iff:
  "sources_ok seen ss = Inr () \<longleftrightarrow>
     distinct (map sr_ID ss) \<and> (\<forall>s\<in>set ss. sr_ID s \<noteq> [] \<and> jobHash (sr_SHA256 s) \<and> sr_ID s \<notin> set seen)"
  by (induction seen ss rule: sources_ok.induct) (auto simp: image_iff)

lemma sources_ok_sort: "sources_ok [] (sort_key sr_ID ss) = Inr () \<longleftrightarrow> sources_ok [] ss = Inr ()"
proof -
  have "distinct (map sr_ID (sort_key sr_ID ss)) \<longleftrightarrow> distinct (map sr_ID ss)"
    by (simp add: sort_by.map_key_srt [of sr_ID ss])
  then show ?thesis by (simp add: sources_ok_iff)
qed

lemma validateRecord_iff:
  "validateRecord r c = Inr () \<longleftrightarrow>
     key_pattern (mr_ID r) \<and> length (mr_Payload r) \<le> 8192 \<and> json_valid (mr_Payload r) \<and> length (mr_Sources r) \<le> 64 \<and>
     length (mr_Dependencies r) \<le> 1024 \<and> length (mr_Supersedes r) \<le> 64 \<and> mr_Kind r \<in> set record_kinds \<and>
     (c \<longrightarrow> mr_Validation r = ''unchecked'' \<and> mr_Origin r = None) \<and>
     (mr_Validation r = ''unchecked'' \<or> mr_Validation r = ''verified'') \<and>
     (mr_Validity r = ''VALID'' \<or> mr_Validity r = ''INVALID'' \<or> mr_Validity r = ''NEEDS_REVALIDATION'') \<and>
     validateOrigin (mr_Origin r) = Inr () \<and> sources_ok [] (mr_Sources r) = Inr ()"
  by (simp add: validateRecord_def rbind_eq_Inr_iff not_le) blast

lemma validateRecord_sort [simp]: "validateRecord (sort_record r) c = Inr () \<longleftrightarrow> validateRecord r c = Inr ()"
  by (simp add: validateRecord_iff sort_record_def sources_ok_sort)

lemma validateRecord_validity:
  "validateRecord r c = Inr () \<Longrightarrow> v = ''VALID'' \<or> v = ''INVALID'' \<or> v = ''NEEDS_REVALIDATION'' \<Longrightarrow>
   validateRecord (r\<lparr>mr_Validity := v\<rparr>) c = Inr ()"
  by (simp add: validateRecord_iff)

lemma sort_record_simps [simp]:
  "mr_ID (sort_record r) = mr_ID r" "set (mr_Dependencies (sort_record r)) = set (mr_Dependencies r)"
  "mr_Validity (sort_record r) = mr_Validity r" "mr_Origin (sort_record r) = mr_Origin r"
  by (simp_all add: sort_record_def)

lemma NewView_simps [simp]:
  "mv_Records (NewView recs) = sort_key mr_ID (map sort_record recs)" "mv_Conflicts (NewView recs) = []"
  by (simp_all add: NewView_def)

lemma records_fine_sorted:
  assumes "records_fine recs"
  shows "records_fine (sort_key mr_ID (map sort_record recs))"
    "dep_rel (sort_key mr_ID (map sort_record recs)) = dep_rel recs"
  by (rule records_fine_map [OF assms, of _ sort_record]; simp)+

section \<open>Invalidation\<close>

definition dependents :: "MemoryRecord list \<Rightarrow> string set \<Rightarrow> string set" where
  "dependents recs roots = {i. \<exists>root\<in>roots. (i, root) \<in> (dep_rel recs)\<^sup>*}"

lemma mark_record_sound:
  assumes "distinct (map mr_ID recs)" "r \<in> set recs" "set marked \<subseteq> dependents recs roots"
  shows "set (mark_record r marked) \<subseteq> dependents recs roots"
proof (cases "list_ex (\<lambda>dep. dep \<in> set marked) (mr_Dependencies r)")
  case True
  then obtain d root where "d \<in> set (mr_Dependencies r)" "root \<in> roots" "(d, root) \<in> (dep_rel recs)\<^sup>*"
    using assms(3) by (auto simp: list_ex_iff dependents_def)
  moreover from this assms have "(mr_ID r, d) \<in> dep_rel recs" by (auto simp: dep_rel_distinct)
  ultimately have "mr_ID r \<in> dependents recs roots"
    unfolding dependents_def by (blast intro: converse_rtrancl_into_rtrancl)
  with assms(3) show ?thesis by (simp add: mark_record_def)
next
  case False
  with assms(3) show ?thesis by (simp add: mark_record_def)
qed

lemma invalidate_pass_sound:
  assumes "distinct (map mr_ID recs)" "set marked \<subseteq> dependents recs roots"
  shows "set (invalidate_pass recs marked) \<subseteq> dependents recs roots"
proof -
  have "set (invalidate_pass rs m) \<subseteq> dependents recs roots"
    if "set rs \<subseteq> set recs" "set m \<subseteq> dependents recs roots" for rs m
    using that
  proof (induction rs arbitrary: m)
    case (Cons r rs)
    then show ?case using mark_record_sound [OF assms(1), of r m roots] by simp
  qed simp
  with assms(2) show ?thesis by blast
qed

lemma invalidate_pass_closed:
  assumes "invalidate_pass recs marked = marked" "r \<in> set recs" "d \<in> set (mr_Dependencies r)" "d \<in> set marked"
  shows "mr_ID r \<in> set marked"
proof -
  have "mr_ID r \<in> set (invalidate_pass rs m)"
    if "r \<in> set rs" "d \<in> set m" for rs m
    using that
  proof (induction rs arbitrary: m)
    case (Cons s rs)
    show ?case
    proof (cases "r = s")
      case True
      have "mr_ID r \<in> set (mark_record s m)"
        using True Cons.prems(2) assms(3) by (auto simp: mark_record_def list_ex_iff)
      then show ?thesis using invalidate_pass_grows [of "mark_record s m" rs] by auto
    next
      case False
      then show ?thesis using Cons mark_record_grows [of m s] by auto
    qed
  qed simp
  from this [of recs marked] assms show ?thesis by simp
qed

lemma invalidate_loop_set:
  assumes "distinct (map mr_ID recs)"
  shows "set (invalidate_loop recs marked) = dependents recs (set marked)"
proof (rule antisym)
  have base: "set marked \<subseteq> dependents recs (set marked)" by (auto simp: dependents_def)
  have "set (invalidate_loop recs m) \<subseteq> dependents recs (set marked)" if "set m \<subseteq> dependents recs (set marked)" for m
    using assms that
  proof (induction recs m rule: invalidate_loop.induct)
    case (1 recs m)
    then show ?case using invalidate_pass_sound [OF 1(2,3)] by (simp add: invalidate_loop.simps [of recs m] Let_def)
  qed
  from this [OF base] show "set (invalidate_loop recs marked) \<subseteq> dependents recs (set marked)" .
  have grows: "set m \<subseteq> set (invalidate_loop recs m) \<and> invalidate_pass recs (invalidate_loop recs m) = invalidate_loop recs m" for m
  proof (induction recs m rule: invalidate_loop.induct)
    case (1 recs m)
    then show ?case using invalidate_pass_grows [of m recs]
      by (auto simp: invalidate_loop.simps [of recs m] Let_def)
  qed
  show "dependents recs (set marked) \<subseteq> set (invalidate_loop recs marked)"
  proof
    fix i assume "i \<in> dependents recs (set marked)"
    then obtain root where "root \<in> set marked" and path: "(i, root) \<in> (dep_rel recs)\<^sup>*" by (auto simp: dependents_def)
    then have root: "root \<in> set (invalidate_loop recs marked)" using grows by blast
    from path show "i \<in> set (invalidate_loop recs marked)"
    proof (induction rule: converse_rtrancl_induct)
      case (step a b)
      then obtain r where "r \<in> set recs" "mr_ID r = a" "b \<in> set (mr_Dependencies r)"
        using assms by (auto simp: dep_rel_distinct)
      then show ?case using invalidate_pass_closed grows step.IH by blast
    qed (rule root)
  qed
qed

lemma mark_invalid_simps [simp]:
  "mr_ID (mark_invalid m r) = mr_ID r" "mr_Dependencies (mark_invalid m r) = mr_Dependencies r"
  "mr_Origin (mark_invalid m r) = mr_Origin r"
  by (simp_all add: mark_invalid_def)

lemma roots_found_iff: "roots_found recs is = Inr () \<longleftrightarrow> set is \<subseteq> mr_ID ` set recs"
  by (induction "is") (auto simp: find_record_None)

lemma Invalidate_view_ok:
  assumes "Invalidate view ids = Inr v"
  shows "validateView view = Inr ()" "validateView v = Inr ()" "set ids \<subseteq> mr_ID ` set (mv_Records view)"
    "mv_Records v = map (mark_invalid (invalidate_loop (sort_key mr_ID (map sort_record (mv_Records view))) ids))
       (sort_key mr_ID (map sort_record (mv_Records view)))"
    "dep_rel (mv_Records v) = dep_rel (mv_Records view)"
proof -
  let ?recs = "sort_key mr_ID (map sort_record (mv_Records view))"
  let ?f = "mark_invalid (invalidate_loop ?recs ids)"
  let ?cs = "map (\<lambda>c. c\<lparr>mc_Candidates := map ?f (mc_Candidates c)\<rparr>) (mv_Conflicts view)"
  let ?w = "(NewView (mv_Records view))\<lparr>mv_Records := map ?f ?recs, mv_Conflicts := ?cs\<rparr>"
  from assms show ok: "validateView view = Inr ()" and "set ids \<subseteq> mr_ID ` set (mv_Records view)"
    by (auto simp: Invalidate_def Let_def rbind_eq_Inr_iff roots_found_iff)
  have v: "v = sealView ?w"
    using assms by (simp add: Invalidate_def Let_def rbind_eq_Inr_iff)
  then show recs: "mv_Records v = map ?f ?recs" by simp
  have fine: "records_fine (mv_Records view)" and org: "origins_fine view" using ok by (auto simp: validateView_iff)
  have m: "records_fine (map ?f ?recs)" "dep_rel (map ?f ?recs) = dep_rel ?recs"
    by (rule records_fine_map [OF records_fine_sorted(1) [OF fine], of _ ?f];
        simp add: validateRecord_validity mark_invalid_def)+
  then show "dep_rel (mv_Records v) = dep_rel (mv_Records view)"
    by (simp add: recs records_fine_sorted(2) [OF fine])
  have "origins_fine ?w" using org by (simp add: origins_fine_def)
  then show "validateView v = Inr ()" using m(1) by (simp add: v validate_sealed)
qed


lemma Invalidate_marks:
  assumes "Invalidate view ids = Inr v"
  shows "mv_Records v = map (\<lambda>r. if mr_ID r \<in> dependents (mv_Records view) (set ids) then r\<lparr>mr_Validity := ''INVALID''\<rparr> else r)
     (sort_key mr_ID (map sort_record (mv_Records view)))"
proof -
  have fine: "records_fine (mv_Records view)"
    using Invalidate_view_ok(1) [OF assms] by (simp add: validateView_iff)
  let ?recs = "sort_key mr_ID (map sort_record (mv_Records view))"
  have "distinct (map mr_ID ?recs)" using records_fine_sorted(1) [OF fine] by (simp add: records_fine_def)
  then have "set (invalidate_loop ?recs ids) = dependents (mv_Records view) (set ids)"
    by (simp add: invalidate_loop_set dependents_def records_fine_sorted(2) [OF fine])
  then show ?thesis using Invalidate_view_ok(4) [OF assms] by (simp add: mark_invalid_def)
qed

section \<open>Projected validity\<close>

text \<open>What a rank may come from: the original rank of a record it rests on.\<close>

definition rank_from :: "MemoryRecord list \<Rightarrow> MemoryRecord \<Rightarrow> nat \<Rightarrow> bool" where
  "rank_from recs0 r k \<longleftrightarrow> (\<exists>s\<in>set recs0. (mr_ID r, mr_ID s) \<in> (dep_rel recs0)\<^sup>* \<and> k = rank (mr_Validity s))"

definition justified :: "MemoryRecord list \<Rightarrow> MemoryRecord \<Rightarrow> bool" where
  "justified recs0 r \<longleftrightarrow> rank_from recs0 r (rank (mr_Validity r))"

lemma rank_from_dep: "(mr_ID r, mr_ID p) \<in> dep_rel recs0 \<Longrightarrow> rank_from recs0 p k \<Longrightarrow> rank_from recs0 r k"
  by (auto simp: rank_from_def intro: converse_rtrancl_into_rtrancl)

lemma raise_by_justified:
  "justified recs0 r \<Longrightarrow> justified recs0 p \<Longrightarrow> (mr_ID r, mr_ID p) \<in> dep_rel recs0 \<Longrightarrow> justified recs0 (raise_by r p)"
  using rank_from_dep [of r p recs0 "rank (mr_Validity p)"]
  by (simp add: justified_def raise_by_def rank_from_def)

lemma raise_by_keeps [simp]: "mr_ID (raise_by r p) = mr_ID r" "mr_Dependencies (raise_by r p) = mr_Dependencies r"
  by (simp_all add: raise_by_def)

lemma raise_dep_justified:
  assumes "justified recs0 r" "(mr_ID r, dep) \<in> dep_rel recs0" "\<forall>p\<in>set ps. justified recs0 p"
  shows "justified recs0 (foldl (\<lambda>r parent. if mr_ID parent = dep then raise_by r parent else r) r ps)"
  using assms
proof (induction ps arbitrary: r)
  case (Cons p ps)
  have "justified recs0 (if mr_ID p = dep then raise_by r p else r)"
    using Cons.prems raise_by_justified [of recs0 r p] by simp
  then have "justified recs0 (foldl (\<lambda>r parent. if mr_ID parent = dep then raise_by r parent else r)
      (if mr_ID p = dep then raise_by r p else r) ps)"
    by (rule Cons.IH) (use Cons.prems in simp_all)
  then show ?case by simp
qed simp

lemma raise_dep_keeps [simp]:
  "mr_ID (foldl (\<lambda>r parent. if mr_ID parent = dep then raise_by r parent else r) r ps) = mr_ID r"
  "mr_Dependencies (foldl (\<lambda>r parent. if mr_ID parent = dep then raise_by r parent else r) r ps) = mr_Dependencies r"
  by (induction ps arbitrary: r) simp_all

lemma raise_record_justified:
  assumes "justified recs0 r" "\<forall>d\<in>set (mr_Dependencies r). (mr_ID r, d) \<in> dep_rel recs0" "\<forall>p\<in>set recs. justified recs0 p"
  shows "justified recs0 (raise_record recs r)"
proof -
  have "justified recs0 (foldl (\<lambda>r dep. foldl (\<lambda>r parent. if mr_ID parent = dep then raise_by r parent else r) r recs) s ds)"
    if "justified recs0 s" "\<forall>d\<in>set ds. (mr_ID s, d) \<in> dep_rel recs0" for s ds
    using that
  proof (induction ds arbitrary: s)
    case (Cons d ds)
    then show ?case using raise_dep_justified [of recs0 s d recs] assms(3) by simp
  qed simp
  with assms(1,2) show ?thesis by (simp add: raise_record_def)
qed

text \<open>The records of a pass are the original ones with other validities.\<close>

definition same_shape :: "MemoryRecord list \<Rightarrow> MemoryRecord list \<Rightarrow> bool" where
  "same_shape recs0 recs \<longleftrightarrow> map (\<lambda>r. (mr_ID r, mr_Dependencies r)) recs = map (\<lambda>r. (mr_ID r, mr_Dependencies r)) recs0"

lemma list_all2_revalidated_shape: "list_all2 revalidated recs recs' \<Longrightarrow> same_shape recs recs'"
  unfolding same_shape_def by (induction rule: list_all2_induct) (auto dest: revalidated_keeps)

lemma same_shape_deps:
  assumes "same_shape recs0 recs" "distinct (map mr_ID recs0)" "r \<in> set recs" "d \<in> set (mr_Dependencies r)"
  shows "(mr_ID r, d) \<in> dep_rel recs0"
proof -
  have "(mr_ID r, mr_Dependencies r) \<in> set (map (\<lambda>r. (mr_ID r, mr_Dependencies r)) recs)"
    using assms(3) by (simp add: rev_image_eqI)
  then have "(mr_ID r, mr_Dependencies r) \<in> set (map (\<lambda>r. (mr_ID r, mr_Dependencies r)) recs0)"
    by (simp only: assms(1) [unfolded same_shape_def])
  then show ?thesis using assms(2,4) by (auto simp: dep_rel_distinct)
qed

lemma pass_justified:
  assumes "same_shape recs0 recs" "distinct (map mr_ID recs0)" "\<forall>r\<in>set recs. justified recs0 r" "set is \<subseteq> {..<length recs}"
  shows "\<forall>r\<in>set (foldl (\<lambda>rs i. rs[i := raise_record rs (rs ! i)]) recs is). justified recs0 r"
  using assms
proof (induction "is" arbitrary: recs)
  case (Cons i "is")
  let ?r = "raise_record recs (recs ! i)"
  have i: "i < length recs" using Cons.prems by simp
  have "justified recs0 ?r"
    by (rule raise_record_justified) (use Cons.prems i same_shape_deps in auto)
  then have all: "\<forall>r\<in>set (recs[i := ?r]). justified recs0 r"
    using Cons.prems(3) by (auto dest: set_update_subset_insert [THEN subsetD])
  have keeps: "mr_ID ?r = mr_ID (recs ! i) \<and> mr_Dependencies ?r = mr_Dependencies (recs ! i)"
    using revalidated_keeps [OF revalidated_raise_record] by blast
  have "map (\<lambda>r. (mr_ID r, mr_Dependencies r)) (recs[i := ?r]) = map (\<lambda>r. (mr_ID r, mr_Dependencies r)) recs"
    using keeps i by (simp add: map_update list_update_same_conv)
  then have "same_shape recs0 (recs[i := ?r])" using Cons.prems(1) unfolding same_shape_def by (rule trans)
  then show ?case using Cons.IH [of "recs[i := ?r]"] Cons.prems all by simp
qed simp

lemma validity_pass_justified:
  assumes "same_shape recs0 recs" "distinct (map mr_ID recs0)" "\<forall>r\<in>set recs. justified recs0 r"
  shows "\<forall>r\<in>set (validity_pass recs). justified recs0 r"
  unfolding validity_pass_def by (rule pass_justified [OF assms]) auto

lemma projectValidity_runs:
  "list_all2 revalidated recs (projectValidity recs) \<and> validity_pass (projectValidity recs) = projectValidity recs"
proof (induction recs rule: projectValidity.induct)
  case (1 recs)
  show ?case
  proof (cases "validity_pass recs = recs")
    case True
    then show ?thesis by (simp add: projectValidity.simps [of recs] list.rel_refl)
  next
    case False
    then have "list_all2 revalidated (validity_pass recs) (projectValidity (validity_pass recs))" using 1 by simp
    then have "list_all2 revalidated recs (projectValidity (validity_pass recs))"
      using list_all2_trans [of revalidated revalidated revalidated] revalidated_trans validity_pass_revalidated by blast
    with False 1 show ?thesis by (simp add: projectValidity.simps [of recs])
  qed
qed

lemma projectValidity_justified:
  assumes "same_shape recs0 recs" "distinct (map mr_ID recs0)" "\<forall>r\<in>set recs. justified recs0 r"
  shows "\<forall>r\<in>set (projectValidity recs). justified recs0 r"
  using assms
proof (induction recs rule: projectValidity.induct)
  case (1 recs)
  have "same_shape recs0 (validity_pass recs)"
    using 1(2) list_all2_revalidated_shape [OF validity_pass_revalidated [of recs]] by (simp add: same_shape_def)
  with 1 validity_pass_justified [OF 1(2-4)] show ?case
    by (simp add: projectValidity.simps [of recs] Let_def)
qed


lemma revalidated_antisym: "revalidated a b \<Longrightarrow> revalidated b a \<Longrightarrow> a = b"
  by (auto simp: revalidated_def)

lemma foldl_revalidated_fix:
  assumes "\<And>r x. revalidated r (f r x)" "foldl f r xs = r" "x \<in> set xs"
  shows "f r x = r"
  using assms(2,3)
proof (induction xs)
  case (Cons y ys)
  have "revalidated (f r y) r" using revalidated_foldl [of f "f r y" ys] assms(1) Cons.prems(1) by simp
  then have fx: "f r y = r" using assms(1) by (rule revalidated_antisym)
  with Cons show ?case by auto
qed simp

lemma validity_pass_fix:
  assumes "validity_pass recs = recs" "i < length recs"
  shows "raise_record recs (recs ! i) = recs ! i"
proof -
  let ?f = "\<lambda>rs i. rs[i := raise_record rs (rs ! i)]"
  have "raise_record recs (recs ! i) = recs ! i" if "foldl ?f recs is = recs" "i \<in> set is" for "is"
    using that
  proof (induction "is")
    case (Cons j "is")
    have a: "list_all2 revalidated recs (?f recs j)" using pass_revalidated [of recs "[j]"] by simp
    have b: "list_all2 revalidated (?f recs j) recs" using pass_revalidated [of "?f recs j" "is"] Cons.prems by simp
    have fx: "?f recs j = recs"
      using slack_revalidated [OF a] slack_revalidated [OF b] by force
    show ?case
    proof (cases "i = j")
      case True
      then show ?thesis using fx assms(2) by (metis nth_list_update_eq)
    next
      case False
      then show ?thesis using Cons fx by simp
    qed
  qed simp
  with assms show ?thesis by (simp add: validity_pass_def)
qed

lemma raise_record_fix:
  assumes "raise_record recs r = r" "p \<in> set recs" "mr_ID p \<in> set (mr_Dependencies r)"
  shows "rank (mr_Validity p) \<le> rank (mr_Validity r)"
proof -
  have step: "revalidated s (foldl (\<lambda>r parent. if mr_ID parent = dep then raise_by r parent else r) s recs)" for s dep
    by (rule revalidated_foldl) (simp add: revalidated_raise_by)
  have "foldl (\<lambda>r parent. if mr_ID parent = mr_ID p then raise_by r parent else r) r recs = r"
    by (rule foldl_revalidated_fix [OF step _ assms(3)]) (rule assms(1) [unfolded raise_record_def])
  then have "(if mr_ID p = mr_ID p then raise_by r p else r) = r"
    using assms(2) by (rule foldl_revalidated_fix [rotated]) (simp add: revalidated_raise_by)
  then have "raise_by r p = r" by simp
  then have "rank (mr_Validity (raise_by r p)) = rank (mr_Validity r)" by simp
  then show ?thesis by (simp add: raise_by_def split: if_splits)
qed

lemma projectValidity_above:
  assumes d: "distinct (map mr_ID recs)" and "i < length recs" "s \<in> set recs"
    and path: "(mr_ID (recs ! i), mr_ID s) \<in> (dep_rel recs)\<^sup>*"
  shows "rank (mr_Validity s) \<le> rank (mr_Validity (projectValidity recs ! i))"
proof -
  let ?recs' = "projectValidity recs"
  have rel: "list_all2 revalidated recs ?recs'" and fx: "validity_pass ?recs' = ?recs'"
    using projectValidity_runs by auto
  have "(\<forall>i<length recs. mr_ID (recs ! i) = a \<longrightarrow> rank (mr_Validity s) \<le> rank (mr_Validity (?recs' ! i)))"
    if "(a, mr_ID s) \<in> (dep_rel recs)\<^sup>*" for a
    using that
  proof (induction rule: converse_rtrancl_induct)
    case base
    show ?case
    proof (intro allI impI)
      fix i assume i: "i < length recs" "mr_ID (recs ! i) = mr_ID s"
      then have "recs ! i = s" using d assms(3) by (metis distinct_map inj_onD nth_mem)
      with list_all2_nthD [OF rel i(1)] show "rank (mr_Validity s) \<le> rank (mr_Validity (?recs' ! i))"
        using revalidated_keeps by blast
    qed
  next
    case (step a b)
    show ?case
    proof (intro allI impI)
      fix i assume i: "i < length recs" "mr_ID (recs ! i) = a"
      obtain r where r: "r \<in> set recs" "mr_ID r = a" "b \<in> set (mr_Dependencies r)"
        using step(1) d by (auto simp: dep_rel_distinct)
      then have ri: "recs ! i = r" using d i by (metis distinct_map inj_onD nth_mem)
      obtain j where j: "j < length recs" "mr_ID (recs ! j) = b"
        using step(2) step(1) assms(3) d
        by (induction rule: converse_rtranclE) (auto simp: dep_rel_distinct in_set_conv_nth)
      have len: "length ?recs' = length recs" using rel by (simp add: list_all2_lengthD)
      have "rank (mr_Validity (?recs' ! j)) \<le> rank (mr_Validity (?recs' ! i))"
      proof (rule raise_record_fix)
        show "raise_record ?recs' (?recs' ! i) = ?recs' ! i" using validity_pass_fix [OF fx] i len by simp
        show "?recs' ! j \<in> set ?recs'" using j len by simp
        show "mr_ID (?recs' ! j) \<in> set (mr_Dependencies (?recs' ! i))"
          using revalidated_keeps [OF list_all2_nthD [OF rel j(1)]] revalidated_keeps [OF list_all2_nthD [OF rel i(1)]]
            j r ri by simp
      qed
      moreover have "rank (mr_Validity s) \<le> rank (mr_Validity (?recs' ! j))" using step.IH j by simp
      ultimately show "rank (mr_Validity s) \<le> rank (mr_Validity (?recs' ! i))" by linarith
    qed
  qed
  with assms(2) path show ?thesis by blast
qed

lemma projectValidity_reached:
  assumes d: "distinct (map mr_ID recs)" and i: "i < length recs"
  shows "\<exists>s\<in>set recs. (mr_ID (recs ! i), mr_ID s) \<in> (dep_rel recs)\<^sup>* \<and>
    rank (mr_Validity (projectValidity recs ! i)) = rank (mr_Validity s)"
proof -
  have rel: "list_all2 revalidated recs (projectValidity recs)" using projectValidity_runs by auto
  have "\<forall>r\<in>set (projectValidity recs). justified recs r"
    by (rule projectValidity_justified [OF _ d]) (auto simp: same_shape_def justified_def rank_from_def)
  moreover have "projectValidity recs ! i \<in> set (projectValidity recs)" using rel i by (simp add: list_all2_lengthD)
  ultimately have "justified recs (projectValidity recs ! i)" by blast
  moreover have "mr_ID (projectValidity recs ! i) = mr_ID (recs ! i)"
    using revalidated_keeps [OF list_all2_nthD [OF rel i]] by simp
  ultimately show ?thesis by (simp add: justified_def rank_from_def)
qed


section \<open>What later views keep\<close>

text \<open>The same record up to order inside it and its validity.\<close>

definition same_content :: "MemoryRecord \<Rightarrow> MemoryRecord \<Rightarrow> bool" where
  "same_content r s \<longleftrightarrow> (sort_record r)\<lparr>mr_Validity := []\<rparr> = (sort_record s)\<lparr>mr_Validity := []\<rparr>"

lemma sort_record_idem [simp]: "sort_record (sort_record r) = sort_record r"
  by (simp add: sort_record_def sort_key_id_if_sorted)

lemma sort_record_validity [simp]: "sort_record (r\<lparr>mr_Validity := v\<rparr>) = (sort_record r)\<lparr>mr_Validity := v\<rparr>"
  by (simp add: sort_record_def)

lemma same_content_refl [simp]: "same_content r r"
  by (simp add: same_content_def)

lemma same_content_sort [simp]: "same_content (sort_record r) s = same_content r s" "same_content r (sort_record s) = same_content r s"
  "same_content (r\<lparr>mr_Validity := v\<rparr>) s = same_content r s" "same_content r (s\<lparr>mr_Validity := v\<rparr>) = same_content r s"
  by (simp_all add: same_content_def)

lemma same_content_trans: "same_content a b \<Longrightarrow> same_content b c \<Longrightarrow> same_content a c"
  by (simp add: same_content_def)

lemma same_contentD:
  assumes "same_content r s"
  shows "mr_ID r = mr_ID s" "mr_InputHash r = mr_InputHash s" "mr_Payload r = mr_Payload s" "mr_Validation r = mr_Validation s"
    "sort (mr_Dependencies r) = sort (mr_Dependencies s)" "mr_Kind r = mr_Kind s"
proof -
  have eq: "(sort_record r)\<lparr>mr_Validity := []\<rparr> = (sort_record s)\<lparr>mr_Validity := []\<rparr>"
    using assms by (simp add: same_content_def)
  show "mr_ID r = mr_ID s" using arg_cong [OF eq, of mr_ID] by simp
  show "mr_InputHash r = mr_InputHash s" using arg_cong [OF eq, of mr_InputHash] by (simp add: sort_record_def)
  show "mr_Payload r = mr_Payload s" using arg_cong [OF eq, of mr_Payload] by (simp add: sort_record_def)
  show "mr_Validation r = mr_Validation s" using arg_cong [OF eq, of mr_Validation] by (simp add: sort_record_def)
  show "sort (mr_Dependencies r) = sort (mr_Dependencies s)" using arg_cong [OF eq, of mr_Dependencies] by (simp add: sort_record_def)
  show "mr_Kind r = mr_Kind s" using arg_cong [OF eq, of mr_Kind] by (simp add: sort_record_def)
qed

definition descends :: "MemoryView \<Rightarrow> MemoryView \<Rightarrow> bool" where
  "descends v w \<longleftrightarrow> validateView v = Inr () \<and> validateView w = Inr () \<and> dep_rel (mv_Records w) = dep_rel (mv_Records v) \<and>
     mr_ID ` set (mv_Records w) = mr_ID ` set (mv_Records v) \<and>
     (\<forall>r\<in>set (mv_Records w). \<exists>s\<in>set (mv_Records v). same_content s r \<and> rank (mr_Validity s) \<le> rank (mr_Validity r))"

definition invalid_ids :: "MemoryView \<Rightarrow> string set" where
  "invalid_ids v = {mr_ID r |r. r \<in> set (mv_Records v) \<and> mr_Validity r = ''INVALID''}"

lemma invalid_idsI: "r \<in> set (mv_Records v) \<Longrightarrow> mr_ID r = i \<Longrightarrow> mr_Validity r = ''INVALID'' \<Longrightarrow> i \<in> invalid_ids v"
  by (auto simp: invalid_ids_def)

lemma descends_refl: "validateView v = Inr () \<Longrightarrow> descends v v"
  unfolding descends_def by (meson order_refl same_content_refl)

lemma descends_trans: "descends u v \<Longrightarrow> descends v w \<Longrightarrow> descends u w"
  unfolding descends_def by (elim conjE, intro conjI ballI) (auto, meson order_trans same_content_trans)

lemma rank_invalid: "rank (mr_Validity r) \<ge> 2 \<longleftrightarrow> mr_Validity r = ''INVALID''"
  by (simp add: rank_def)

lemma descends_invalid:
  assumes "descends v w"
  shows "invalid_ids v \<subseteq> invalid_ids w"
proof
  fix i assume "i \<in> invalid_ids v"
  then obtain s where s: "s \<in> set (mv_Records v)" "mr_ID s = i" "mr_Validity s = ''INVALID''"
    by (auto simp: invalid_ids_def)
  have "distinct (map mr_ID (mv_Records v))" using assms by (auto simp: descends_def validateView_iff records_fine_def)
  then have uniq: "t = s" if "t \<in> set (mv_Records v)" "mr_ID t = i" for t
    using that s by (auto simp: distinct_map dest: inj_onD)
  have "i \<in> mr_ID ` set (mv_Records w)" using assms s by (auto simp: descends_def)
  then obtain r where r: "r \<in> set (mv_Records w)" "mr_ID r = i" by auto
  then obtain t where t: "t \<in> set (mv_Records v)" "same_content t r" "rank (mr_Validity t) \<le> rank (mr_Validity r)"
    using assms by (auto simp: descends_def)
  then have "t = s" using uniq same_contentD(1) r by auto
  then have "mr_Validity r = ''INVALID''" using t(3) s(3) by (simp add: rank_def split: if_splits)
  with r show "i \<in> invalid_ids w" by (auto simp: invalid_ids_def)
qed

lemma Invalidate_descends:
  assumes "Invalidate view ids = Inr v"
  shows "descends view v" "dependents (mv_Records view) (set ids) \<inter> mr_ID ` set (mv_Records view) \<subseteq> invalid_ids v"
proof -
  note recs = Invalidate_marks [OF assms]
  show "descends view v"
    unfolding descends_def
  proof (intro conjI ballI)
    show "mr_ID ` set (mv_Records v) = mr_ID ` set (mv_Records view)"
      unfolding recs set_map image_image by (auto simp: image_image intro!: image_cong)
    fix r assume "r \<in> set (mv_Records v)"
    then obtain s where s: "s \<in> set (mv_Records view)" and r: "r = (if mr_ID s \<in> dependents (mv_Records view) (set ids)
        then (sort_record s)\<lparr>mr_Validity := ''INVALID''\<rparr> else sort_record s)"
      unfolding recs by auto
    have "same_content s r" "rank (mr_Validity s) \<le> rank (mr_Validity r)" unfolding r by (simp_all add: rank_def)
    with s show "\<exists>s\<in>set (mv_Records view). same_content s r \<and> rank (mr_Validity s) \<le> rank (mr_Validity r)" by blast
  qed (use Invalidate_view_ok [OF assms] in auto)
  show "dependents (mv_Records view) (set ids) \<inter> mr_ID ` set (mv_Records view) \<subseteq> invalid_ids v"
  proof
    fix i assume "i \<in> dependents (mv_Records view) (set ids) \<inter> mr_ID ` set (mv_Records view)"
    then obtain s where s: "s \<in> set (mv_Records view)" "mr_ID s = i" "i \<in> dependents (mv_Records view) (set ids)" by auto
    then have "(sort_record s)\<lparr>mr_Validity := ''INVALID''\<rparr> \<in> set (mv_Records v)"
      unfolding recs set_map sort_by.set_srt image_image by (intro image_eqI [of _ _ s]) simp_all
    moreover have "mr_ID ((sort_record s)\<lparr>mr_Validity := ''INVALID''\<rparr>) = i" using s(2) by simp
    ultimately show "i \<in> invalid_ids v" by (rule invalid_idsI) simp
  qed
qed

lemma supersede_all_descends:
  assumes "supersede_all v rs = Inr w" "validateView v = Inr ()"
  shows "descends v w \<and> (\<forall>r\<in>set rs. dependents (mv_Records v) (set (mr_Supersedes r)) \<inter> mr_ID ` set (mv_Records v) \<subseteq> invalid_ids w)"
  using assms
proof (induction rs arbitrary: v)
  case (Cons r rs)
  show ?case
  proof (cases "mr_Supersedes r = []")
    case True
    then show ?thesis using Cons by (simp add: dependents_def)
  next
    case False
    then obtain v1 where v1: "Invalidate v (mr_Supersedes r) = Inr v1" "supersede_all v1 rs = Inr w"
      using Cons.prems by (auto simp: rbind_eq_Inr_iff)
    note d = Invalidate_descends [OF v1(1)]
    have ih: "descends v1 w \<and> (\<forall>r\<in>set rs. dependents (mv_Records v1) (set (mr_Supersedes r)) \<inter> mr_ID ` set (mv_Records v1) \<subseteq> invalid_ids w)"
      using Cons.IH [OF v1(2)] Invalidate_view_ok(2) [OF v1(1)] by simp
    have same: "dep_rel (mv_Records v1) = dep_rel (mv_Records v)" "mr_ID ` set (mv_Records v1) = mr_ID ` set (mv_Records v)"
      using d(1) by (auto simp: descends_def)
    have dep: "dependents (mv_Records v1) S = dependents (mv_Records v) S" for S by (simp add: dependents_def same)
    have "invalid_ids v1 \<subseteq> invalid_ids w" by (rule descends_invalid) (use ih in blast)
    then show ?thesis using ih d descends_trans [OF d(1)] unfolding dep same by auto
  qed
qed (simp add: descends_refl)


lemma revalidated_content: "revalidated r r' \<Longrightarrow> same_content r r' \<and> rank (mr_Validity r) \<le> rank (mr_Validity r')"
  by (auto simp: revalidated_def)

lemma revalidated_valid:
  assumes "revalidated r r'" "validateRecord r c = Inr ()"
  shows "validateRecord r' c = Inr ()"
proof (cases "r' = r")
  case False
  then obtain v where "r' = r\<lparr>mr_Validity := v\<rparr>" "rank v > 0" using assms(1) by (auto simp: revalidated_def)
  then show ?thesis using assms(2) by (auto simp: rank_def intro!: validateRecord_validity split: if_splits)
qed (use assms in simp)

lemma project_descends:
  assumes "validateView v = Inr ()"
  shows "descends v (sealView (project_view v))"
proof -
  let ?recs = "mv_Records v" and ?recs' = "projectValidity (mv_Records v)"
  have fine: "records_fine ?recs" "origins_fine v" using assms by (auto simp: validateView_iff)
  have rel: "list_all2 revalidated ?recs ?recs'" using projectValidity_runs by blast
  then have shape: "same_shape ?recs ?recs'" by (rule list_all2_revalidated_shape)
  have pairs: "(\<lambda>r. (mr_ID r, mr_Dependencies r)) ` set ?recs' = (\<lambda>r. (mr_ID r, mr_Dependencies r)) ` set ?recs"
    using arg_cong [OF shape [unfolded same_shape_def], of set] by simp
  have ids: "map mr_ID ?recs' = map mr_ID ?recs"
    using arg_cong [OF shape [unfolded same_shape_def], of "map fst"] by (simp add: comp_def)
  then have dist: "distinct (map mr_ID ?recs')" using fine(1) by (simp add: records_fine_def)
  have "(\<lambda>r. (mr_ID r, set (mr_Dependencies r))) ` set ?recs' = (\<lambda>r. (mr_ID r, set (mr_Dependencies r))) ` set ?recs"
    using arg_cong [OF pairs, of "image (\<lambda>(i, ds). (i, set ds))"] by (simp add: image_image)
  then have dep: "dep_rel ?recs' = dep_rel ?recs"
    using dist fine(1) by (intro dep_rel_same) (simp_all add: records_fine_def)
  have idset: "mr_ID ` set ?recs' = mr_ID ` set ?recs" using arg_cong [OF ids, of set] by simp
  have each: "\<exists>s\<in>set ?recs. revalidated s r" if "r \<in> set ?recs'" for r
    using that rel by (metis in_set_conv_nth list_all2_conv_all_nth nth_mem)
  have ok: "validateRecord r False = Inr ()" if "r \<in> set ?recs'" for r
    using each [OF that] fine(1) revalidated_valid unfolding records_fine_def by blast
  have "deps_closed ?recs'" using fine(1) by (simp add: records_fine_def deps_closed_def dep find_record_None idset)
  then have "records_fine ?recs'" using fine(1) dist ok by (simp add: records_fine_def dep)
  then have "validateView (sealView (project_view v)) = Inr ()"
    using fine(2) by (simp add: validate_sealed project_view_def origins_fine_def)
  moreover have "\<exists>s\<in>set ?recs. same_content s r \<and> rank (mr_Validity s) \<le> rank (mr_Validity r)" if "r \<in> set ?recs'" for r
    using each [OF that] revalidated_content by blast
  ultimately show ?thesis using assms by (simp add: descends_def project_view_def dep idset)
qed

section \<open>Deltas\<close>

definition checked_record :: "MemoryRecord list \<Rightarrow> string \<Rightarrow> MemoryRecord \<Rightarrow> MemoryRecord" where
  "checked_record recs contextHash r =
     r\<lparr>mr_Dependencies := sort (remdups (map mr_ID recs)), mr_InputHash := contextHash, mr_Validity := ''VALID''\<rparr>"

lemma delta_fold:
  assumes "fold_result (delta_step (map mr_ID recs) h) ([], []) rs = Inr (seen, out)"
  shows "out = map (checked_record recs h) rs \<and> seen = rev (map mr_ID rs) \<and> distinct (map mr_ID rs) \<and>
    (\<forall>r\<in>set rs. validateRecord r True = Inr () \<and> mr_ID r \<notin> mr_ID ` set recs \<and> set (mr_Supersedes r) \<subseteq> mr_ID ` set recs)"
proof -
  let ?P = "\<lambda>xs s. snd s = map (checked_record recs h) xs \<and> fst s = rev (map mr_ID xs) \<and> distinct (map mr_ID xs) \<and>
    (\<forall>r\<in>set xs. validateRecord r True = Inr () \<and> mr_ID r \<notin> mr_ID ` set recs \<and> set (mr_Supersedes r) \<subseteq> mr_ID ` set recs)"
  have "?P rs (seen, out)"
  proof (rule fold_result_invariant [OF assms, where P = ?P])
    fix xs r and t t' :: "string list \<times> MemoryRecord list"
    assume P: "?P xs t" and step: "delta_step (map mr_ID recs) h t r = Inr t'"
    obtain seen out where t: "t = (seen, out)" by force
    from step have "validateRecord r True = Inr ()" "mr_ID r \<notin> set seen" "mr_ID r \<notin> mr_ID ` set recs"
      "set (mr_Supersedes r) \<subseteq> mr_ID ` set recs" "t' = (mr_ID r # seen, out @ [checked_record recs h r])"
      by (auto simp: t delta_step_def delta_record_def checked_record_def rbind_eq_Inr_iff list_all_iff split: if_splits)
    with P t show "?P (xs @ [r]) t'" by auto
  qed simp
  then show ?thesis by simp
qed

lemma ValidateDelta_OK:
  assumes "ValidateDelta n d view = Inr c"
  shows "validateView view = Inr ()" "dl_ReadViewHash d = mv_SHA256 view"
    "dl_Records c = map (checked_record (mv_Records view) (dl_ContextHash d)) (dl_Records d)"
    "distinct (map mr_ID (dl_Records d))"
    "\<forall>r\<in>set (dl_Records d). validateRecord r True = Inr () \<and> mr_ID r \<notin> mr_ID ` set (mv_Records view) \<and>
       set (mr_Supersedes r) \<subseteq> mr_ID ` set (mv_Records view)"
proof -
  from assms obtain seen out where "validateView view = Inr ()" "dl_ReadViewHash d = mv_SHA256 view"
    and run: "fold_result (delta_step (map mr_ID (mv_Records view)) (dl_ContextHash d)) ([], []) (dl_Records d) = Inr (seen, out)"
    and c: "c = d\<lparr>dl_Records := out\<rparr>"
    by (auto simp: ValidateDelta_def rbind_eq_Inr_iff split: if_splits)
  then show "validateView view = Inr ()" "dl_ReadViewHash d = mv_SHA256 view" by simp_all
  from delta_fold [OF run] c show
    "dl_Records c = map (checked_record (mv_Records view) (dl_ContextHash d)) (dl_Records d)"
    "distinct (map mr_ID (dl_Records d))"
    "\<forall>r\<in>set (dl_Records d). validateRecord r True = Inr () \<and> mr_ID r \<notin> mr_ID ` set (mv_Records view) \<and>
       set (mr_Supersedes r) \<subseteq> mr_ID ` set (mv_Records view)"
    by simp_all
qed

lemma checked_simps [simp]:
  "mr_ID (checked_record recs h r) = mr_ID r" "set (mr_Dependencies (checked_record recs h r)) = mr_ID ` set recs"
  "mr_Supersedes (checked_record recs h r) = mr_Supersedes r"
  by (simp_all add: checked_record_def)

lemma append_fine:
  assumes "records_fine recs" "distinct (map mr_ID rs)" "length recs \<le> 1024"
    and "\<forall>r\<in>set rs. validateRecord r True = Inr () \<and> mr_ID r \<notin> mr_ID ` set recs"
  shows "records_fine (recs @ map (checked_record recs h) rs)"
proof -
  let ?all = "recs @ map (checked_record recs h) rs"
  have dr: "distinct (map mr_ID recs)" using assms(1) by (simp add: records_fine_def)
  have fresh: "mr_ID r \<notin> mr_ID ` set recs" if "r \<in> set rs" for r using assms(4) that by simp
  have disj: "mr_ID ` set recs \<inter> mr_ID ` set rs = {}" by (rule equals0I) (metis IntE fresh imageE)
  have dist: "distinct (map mr_ID ?all)" using disj dr assms(2) by (simp add: comp_def image_image)
  have valid: "validateRecord (checked_record recs h r) False = Inr ()" if "r \<in> set rs" for r
    using assms(3,4) that dr by (auto simp: validateRecord_iff checked_record_def distinct_remdups_id)
  have rel: "dep_rel ?all = dep_rel recs \<union> (mr_ID ` set rs) \<times> (mr_ID ` set recs)"
    unfolding dep_rel_distinct [OF dist] dep_rel_distinct [OF dr] by (auto, metis checked_simps(1,2) imageI)
  have inside: "(a, b) \<in> dep_rel recs" if "(a, b) \<in> dep_rel ?all" "a \<in> mr_ID ` set recs" for a b
    using that disj unfolding rel by blast
  have cl: "\<forall>r\<in>set recs. set (mr_Dependencies r) \<subseteq> mr_ID ` set recs"
    using assms(1) deps_closed_iff [OF dr] by (simp add: records_fine_def)
  have closed: "deps_closed ?all" unfolding deps_closed_iff [OF dist] using cl by auto
  have "acyclic (dep_rel ?all)"
  proof (rule acyclicI, rule allI)
    fix x
    have old: "(a, b) \<in> (dep_rel recs)\<^sup>+" if "(a, b) \<in> (dep_rel ?all)\<^sup>+" "a \<in> mr_ID ` set recs" for a b
      using that
    proof (induction rule: trancl_induct)
      case (base b)
      then show ?case using inside by blast
    next
      case (step b c)
      then have "b \<in> mr_ID ` set recs"
        using cl dr by (auto dest!: tranclD2 simp: dep_rel_distinct)
      then have "(b, c) \<in> dep_rel recs" using step(2) inside by blast
      with step show ?case by (auto intro: trancl_into_trancl)
    qed
    show "(x, x) \<notin> (dep_rel ?all)\<^sup>+"
    proof
      assume loop: "(x, x) \<in> (dep_rel ?all)\<^sup>+"
      then obtain y where "(y, x) \<in> dep_rel ?all" by (auto dest: tranclD2)
      then have "x \<in> mr_ID ` set recs" using cl dr rel by (auto simp: dep_rel_distinct)
      from old [OF loop this] show False using assms(1) by (auto simp: records_fine_def acyclic_def)
    qed
  qed
  with dist valid closed assms(1) show ?thesis by (auto simp: records_fine_def)
qed


lemma ApplyDelta_OK:
  assumes run: "ApplyDelta view d = Inr v" and small: "length (mv_Records view) \<le> 1024"
  defines "checked \<equiv> map (checked_record (mv_Records view) (dl_ContextHash d)) (dl_Records d)"
  obtains w where "descends w v" "validateView view = Inr ()"
    "mset (mv_Records w) = mset (map sort_record (mv_Records view @ checked))"
    "dep_rel (mv_Records w) = dep_rel (mv_Records view @ checked)"
    "distinct (map mr_ID (mv_Records view @ checked))"
    "\<forall>r\<in>set (dl_Records d). dependents (mv_Records w) (set (mr_Supersedes r)) \<inter> mr_ID ` set (mv_Records w) \<subseteq> invalid_ids v"
    "\<forall>r\<in>set (dl_Records d). validateRecord r True = Inr () \<and> mr_ID r \<notin> mr_ID ` set (mv_Records view) \<and>
       set (mr_Supersedes r) \<subseteq> mr_ID ` set (mv_Records view)"
proof -
  from run obtain c w1 where c: "ValidateDelta (length (json_text (delta_json d))) d view = Inr c"
    and sup: "supersede_all (sealView ((NewView (mv_Records view @ dl_Records c))\<lparr>mv_Conflicts := mv_Conflicts view\<rparr>))
        (dl_Records c) = Inr w1" and v: "v = sealView (project_view w1)"
    by (auto simp: ApplyDelta_def Let_def rbind_eq_Inr_iff)
  note ok = ValidateDelta_OK [OF c]
  let ?w0 = "(NewView (mv_Records view @ checked))\<lparr>mv_Conflicts := mv_Conflicts view\<rparr>"
  let ?w = "sealView ?w0"
  have chk: "dl_Records c = checked" using ok(3) by (simp add: checked_def)
  have vf: "records_fine (mv_Records view)" "origins_fine view" using ok(1) by (auto simp: validateView_iff)
  have fine: "records_fine (mv_Records view @ checked)"
    unfolding checked_def by (rule append_fine [OF vf(1) ok(4) small]) (use ok(5) in simp)
  have "validateView ?w = Inr ()"
    using vf(2) records_fine_sorted(1) [OF fine] by (simp add: validate_sealed origins_fine_def)
  then have sd: "descends ?w w1 \<and> (\<forall>r\<in>set checked. dependents (mv_Records ?w) (set (mr_Supersedes r)) \<inter>
      mr_ID ` set (mv_Records ?w) \<subseteq> invalid_ids w1)"
    using sup unfolding chk by (intro supersede_all_descends)
  then have pd: "descends w1 v" unfolding v by (intro project_descends) (simp add: descends_def)
  show ?thesis
  proof (rule that [of ?w])
    show "descends ?w v" using sd pd descends_trans by blast
    show "validateView view = Inr ()" by (rule ok(1))
    show "mset (mv_Records ?w) = mset (map sort_record (mv_Records view @ checked))" by simp
    show "dep_rel (mv_Records ?w) = dep_rel (mv_Records view @ checked)" using records_fine_sorted(2) [OF fine] by simp
    show "distinct (map mr_ID (mv_Records view @ checked))" using fine by (simp add: records_fine_def)
    have "mr_Supersedes ` set checked = mr_Supersedes ` set (dl_Records d)" by (simp add: checked_def image_image)
    moreover have "\<forall>s\<in>mr_Supersedes ` set checked. dependents (mv_Records ?w) (set s) \<inter> mr_ID ` set (mv_Records ?w) \<subseteq> invalid_ids v"
      using sd descends_invalid [OF pd] by blast
    ultimately show "\<forall>r\<in>set (dl_Records d). dependents (mv_Records ?w) (set (mr_Supersedes r)) \<inter> mr_ID ` set (mv_Records ?w) \<subseteq> invalid_ids v"
      by blast
    show "\<forall>r\<in>set (dl_Records d). validateRecord r True = Inr () \<and> mr_ID r \<notin> mr_ID ` set (mv_Records view) \<and>
       set (mr_Supersedes r) \<subseteq> mr_ID ` set (mv_Records view)" by (rule ok(5))
  qed
qed


section \<open>Merging\<close>

lemma sort_remdups_set: "set xs = set ys \<Longrightarrow> sort (remdups xs) = sort (remdups (ys :: 'a::linorder list))"
  by (intro sorted_distinct_set_unique) simp_all

lemma variant_map_eq:
  assumes "inj_on canonical_record (set all)" "r \<in> set all" "mr_ID r = i"
  shows "variant_map all i (canonical_record r) = Some r"
proof -
  let ?xs = "rev (map (\<lambda>r. (canonical_record r, r)) (filter (\<lambda>r. mr_ID r = i) all))"
  have "(canonical_record r, r) \<in> set ?xs" using assms(2,3) by auto
  then have "canonical_record r \<in> fst ` set ?xs" by force
  then obtain s where s: "map_of ?xs (canonical_record r) = Some s"
    by (cases "map_of ?xs (canonical_record r)") (simp_all only: map_of_eq_None_iff not_True_eq_False)
  then have "(canonical_record r, s) \<in> set ?xs" by (rule map_of_SomeD)
  then have "s \<in> set all" "canonical_record s = canonical_record r" by auto
  then have "s = r" using assms(1,2) by (auto dest: inj_onD)
  with s show ?thesis by (simp add: variant_map_def)
qed

lemma candidates_set:
  assumes "inj_on canonical_record (set all)"
  shows "candidates all i = sort_key canonical_record (remdups (filter (\<lambda>r. mr_ID r = i) all))"
proof -
  let ?rs = "remdups (filter (\<lambda>r. mr_ID r = i) all)"
  have inj: "inj_on canonical_record (set ?rs)" using assms by (rule inj_on_subset) auto
  have "variant_keys all i = sort (map canonical_record ?rs)"
    unfolding variant_keys_def
    by (rule sorted_distinct_set_unique) (use inj in \<open>auto simp: distinct_map\<close>)
  also have "\<dots> = map canonical_record (sort_key canonical_record ?rs)" by (rule sort_by.map_key_srt [symmetric])
  finally have "candidates all i = map (\<lambda>r. the (variant_map all i (canonical_record r))) (sort_key canonical_record ?rs)"
    by (simp add: candidates_def)
  also have "\<dots> = map (\<lambda>r. r) (sort_key canonical_record ?rs)"
    by (rule map_cong [OF refl]) (simp add: variant_map_eq [OF assms])
  finally show ?thesis by simp
qed

lemma candidates_cong:
  assumes "inj_on canonical_record (set all)" "set all = set all'"
  shows "candidates all i = candidates all' i"
proof -
  let ?rs = "\<lambda>all. remdups (filter (\<lambda>r. mr_ID r = i) all)"
  have inj: "inj_on canonical_record (set (?rs all))" using assms(1) by (rule inj_on_subset) auto
  have "mset (?rs all) = mset (?rs all')" using assms(2) by (intro set_eq_iff_mset_eq_distinct [THEN iffD1]) auto
  then have "sort_key canonical_record (?rs all) = sort_key canonical_record (?rs all')"
    using inj by (intro sort_key_perm_distinct) (simp_all add: distinct_map)
  then show ?thesis using assms by (simp add: candidates_set)
qed

lemma MergeViews_set:
  assumes "set views = set views'" "inj_on canonical_record (set (concat (map all_records views)))"
    and "check_all validateView views = Inr ()"
  shows "MergeViews views = MergeViews views'"
proof -
  let ?all = "concat (map all_records views)" and ?all' = "concat (map all_records views')"
  have set: "set ?all = set ?all'" using assms(1) by simp
  have ids: "sort (remdups (map mr_ID ?all)) = sort (remdups (map mr_ID ?all'))"
    by (rule sort_remdups_set) (simp only: set_map set)
  have c: "candidates ?all i = candidates ?all' i" for i by (rule candidates_cong [OF assms(2) set])
  then have r: "merged_record ?all = merged_record ?all'" by (simp add: fun_eq_iff merged_record_def)
  have m: "merged_conflicts ?all = merged_conflicts ?all'" by (simp only: merged_conflicts_def c ids)
  have "check_all validateView views' = Inr ()" using assms(1,3) by (simp add: check_all_eq_Inr_iff)
  then show ?thesis using assms(3) by (simp add: MergeViews_def Let_def r m ids)
qed


lemma escape_ascii_length: "length (escape_ascii c) \<le> 6"
  by (simp add: escape_ascii_def hex_escape_def Let_def)

lemma escape_length: "length (escape s) \<le> 6 * length s"
proof (induction s rule: escape.induct)
  case (2 c s)
  show ?case
  proof (cases "utf8_tail c")
    case None
    with 2 show ?thesis by simp
  next
    case (Some ps)
    show ?thesis
    proof (cases "match_tail ps s")
      case None
      with Some 2 show ?thesis by simp
    next
      case (Some r)
      have len: "length r \<le> length s" using match_tail_length [OF Some] by simp
      have "length (escape r) \<le> 6 * length r" using 2 Some \<open>utf8_tail c = Some ps\<close> by blast
      then show ?thesis
        using Some \<open>utf8_tail c = Some ps\<close> len escape_ascii_length [of c]
        by (simp add: Let_def) linarith
    qed
  qed
qed simp

text \<open>A bound on the length of a text that needs no escaping to be computed.\<close>

fun json_size :: "json \<Rightarrow> nat" where
  "json_size JNull = 4"
| "json_size (JBool b) = 5"
| "json_size (JInt i) = length (int_decimal i)"
| "json_size (JStr s) = 6 * length s + 2"
| "json_size (JArr xs) = (\<Sum>x\<leftarrow>xs. json_size x + 1) + 2"
| "json_size (JObj fs) = (\<Sum>(k, v)\<leftarrow>fs. 6 * length k + json_size v + 4) + 2"
| "json_size (JRaw s) = length s"

lemma join_with_length: "length (join_with c xs) \<le> (\<Sum>x\<leftarrow>xs. length x + 1)"
proof (cases xs)
  case (Cons y ys)
  have "length (concat (map (\<lambda>v. c # v) ys)) = (\<Sum>x\<leftarrow>ys. length x + 1)" by (simp add: length_concat comp_def)
  then show ?thesis by (simp add: join_with_def Cons)
qed (simp add: join_with_def)

lemma json_string_length: "length (json_string s) \<le> 6 * length s + 2"
  using escape_length [of s] by (simp add: json_string_def)

lemma json_text_length: "length (json_text j) \<le> json_size j"
proof (induction j rule: json_text.induct)
  case (5 xs)
  have "(\<Sum>x\<leftarrow>map json_text xs. length x + 1) \<le> (\<Sum>x\<leftarrow>xs. json_size x + 1)"
    using 5 by (simp add: comp_def) (rule sum_list_mono, simp)
  then show ?case using join_with_length [of "CHR '',''" "map json_text xs"] by simp
next
  case (6 fs)
  let ?field = "\<lambda>(k, v). json_string k @ CHR '':'' # json_text v"
  have field: "length (?field f) + 1 \<le> (case f of (k, v) \<Rightarrow> 6 * length k + json_size v + 4)" if "f \<in> set fs" for f
    using 6 [OF that] json_string_length [of "fst f"] by (cases f) fastforce
  have "(\<Sum>x\<leftarrow>map ?field fs. length x + 1) \<le> (\<Sum>(k, v)\<leftarrow>fs. 6 * length k + json_size v + 4)"
    unfolding map_map comp_def by (rule sum_list_mono) (rule field)
  then show ?case using join_with_length [of "CHR '',''" "map ?field fs"] by simp
qed (use json_string_length in simp_all)

lemma dep_rel_code:
  "distinct (map mr_ID recs) \<Longrightarrow>
   dep_rel recs = set (concat (map (\<lambda>r. map (Pair (mr_ID r)) (mr_Dependencies r)) recs))"
  by (auto simp: dep_rel_distinct)

section \<open>Properties\<close>

text \<open>C28: \<open>validateView\<close> accepts exactly the views whose version and hash match their content, whose conflict
  candidates have well-formed origins, and whose records are well formed, have distinct ids, depend only on
  records of the view and on none of their own dependents.\<close>

theorem view_accepted_iff:
  "validateView v = Inr () \<longleftrightarrow>
     mv_Version v = (if HasMemoryOrigins v then ''iu-memory-view-v2'' else ''iu-memory-view-v1'') \<and>
     mv_SHA256 v = mv_SHA256 (sealView v) \<and>
     list_all (\<lambda>c. list_all (\<lambda>r. validateOrigin (mr_Origin r) = Inr ()) (mc_Candidates c)) (mv_Conflicts v) \<and>
     list_all (\<lambda>r. validateRecord r False = Inr ()) (mv_Records v) \<and> distinct (map mr_ID (mv_Records v)) \<and>
     list_all (\<lambda>r. list_all (\<lambda>d. d \<in> mr_ID ` set (mv_Records v)) (mr_Dependencies r)) (mv_Records v) \<and>
     acyclic {(mr_ID r, d) |r d. r \<in> set (mv_Records v) \<and> d \<in> set (mr_Dependencies r)}"
proof -
  have "hash_fine v \<longleftrightarrow> mv_Version v = (if HasMemoryOrigins v then ''iu-memory-view-v2'' else ''iu-memory-view-v1'') \<and>
     mv_SHA256 v = mv_SHA256 (sealView v)"
    by (auto simp: hash_fine_def)
  then show ?thesis
    unfolding validateView_iff records_fine_def origins_fine_def list_all_iff
    using deps_closed_iff [of "mv_Records v"] dep_rel_distinct [of "mv_Records v"] by (auto simp: subset_iff)
qed


text \<open>C30: the projected validity of a record is the worst validity among the records it rests on, itself
  included, along any chain of dependencies.\<close>

theorem validity_projected:
  assumes "distinct (map mr_ID recs)" "i < length recs"
  shows "rank (mr_Validity (projectValidity recs ! i)) =
    Max ((\<lambda>s. rank (mr_Validity s)) ` {s \<in> set recs. (mr_ID (recs ! i), mr_ID s) \<in> (dep_rel recs)\<^sup>*})"
proof (rule Max_eqI [symmetric])
  show "finite ((\<lambda>s. rank (mr_Validity s)) ` {s \<in> set recs. (mr_ID (recs ! i), mr_ID s) \<in> (dep_rel recs)\<^sup>*})" by simp
  show "k \<le> rank (mr_Validity (projectValidity recs ! i))"
    if "k \<in> (\<lambda>s. rank (mr_Validity s)) ` {s \<in> set recs. (mr_ID (recs ! i), mr_ID s) \<in> (dep_rel recs)\<^sup>*}" for k
    using that projectValidity_above [OF assms] by auto
  show "rank (mr_Validity (projectValidity recs ! i)) \<in>
      (\<lambda>s. rank (mr_Validity s)) ` {s \<in> set recs. (mr_ID (recs ! i), mr_ID s) \<in> (dep_rel recs)\<^sup>*}"
    using projectValidity_reached [OF assms] by auto
qed

lemma delta_applied_facts:
  assumes run: "ApplyDelta view d = Inr v" and small: "length (mv_Records view) \<le> 1024" and r: "r \<in> set (dl_Records d)"
  shows "validateView v = Inr ()" "mr_ID r \<notin> mr_ID ` set (mv_Records view)"
    "\<exists>r'\<in>set (mv_Records v). mr_ID r' = mr_ID r \<and> mr_Payload r' = mr_Payload r \<and> mr_InputHash r' = dl_ContextHash d \<and>
       mr_Validation r' = ''unchecked'' \<and> set (mr_Dependencies r') = mr_ID ` set (mv_Records view)"
    "\<And>i. i \<in> set (mr_Supersedes r) \<Longrightarrow> insert i (mr_ID ` set (dl_Records d)) \<subseteq> invalid_ids v"
proof -
  let ?h = "dl_ContextHash d"
  let ?chk = "map (checked_record (mv_Records view) ?h) (dl_Records d)"
  obtain w where w: "descends w v" and recs: "mset (mv_Records w) = mset (map sort_record (mv_Records view @ ?chk))"
    and rel: "dep_rel (mv_Records w) = dep_rel (mv_Records view @ ?chk)"
    and dist: "distinct (map mr_ID (mv_Records view @ ?chk))"
    and inv: "\<forall>r\<in>set (dl_Records d). dependents (mv_Records w) (set (mr_Supersedes r)) \<inter> mr_ID ` set (mv_Records w) \<subseteq> invalid_ids v"
    and ok: "\<forall>r\<in>set (dl_Records d). validateRecord r True = Inr () \<and> mr_ID r \<notin> mr_ID ` set (mv_Records view) \<and>
       set (mr_Supersedes r) \<subseteq> mr_ID ` set (mv_Records view)"
    using ApplyDelta_OK [OF run small] .
  show "validateView v = Inr ()" using w by (simp add: descends_def)
  show "mr_ID r \<notin> mr_ID ` set (mv_Records view)" using ok r by simp
  have set: "set (mv_Records w) = sort_record ` set (mv_Records view @ ?chk)" using mset_eq_setD [OF recs] by (simp add: image_Un image_image)
  have ids: "mr_ID ` set (mv_Records w) = mr_ID ` set (mv_Records view) \<union> mr_ID ` set (dl_Records d)"
    unfolding set by (simp add: image_Un image_image)
  show "insert i (mr_ID ` set (dl_Records d)) \<subseteq> invalid_ids v" if i: "i \<in> set (mr_Supersedes r)" for i
  proof -
    have iv: "i \<in> mr_ID ` set (mv_Records view)" using ok r i by auto
    have edge: "(mr_ID s, i) \<in> dep_rel (mv_Records w)" if "s \<in> set (dl_Records d)" for s
      unfolding rel dep_rel_distinct [OF dist] using that iv
      by (auto intro!: exI [of _ "checked_record (mv_Records view) ?h s"])
    have "insert i (mr_ID ` set (dl_Records d)) \<subseteq> dependents (mv_Records w) (set (mr_Supersedes r)) \<inter> mr_ID ` set (mv_Records w)"
      using edge i iv unfolding ids dependents_def by auto
    then show ?thesis using inv r by blast
  qed
  have "mr_ID r \<in> mr_ID ` set (mv_Records v)" using w ids r by (auto simp: descends_def)
  then obtain r' where r': "r' \<in> set (mv_Records v)" "mr_ID r' = mr_ID r" by auto
  then obtain s where s: "s \<in> set (mv_Records w)" "same_content s r'" using w by (auto simp: descends_def)
  then obtain t where t: "t \<in> set (mv_Records view @ ?chk)" "s = sort_record t" unfolding set by auto
  have same: "same_content t r'" using s t by simp
  have tid: "mr_ID t = mr_ID (checked_record (mv_Records view) ?h r)" using same_contentD(1) [OF same] r' by simp
  have "checked_record (mv_Records view) ?h r \<in> set (mv_Records view @ ?chk)" using r by simp
  then have "t = checked_record (mv_Records view) ?h r" using t(1) tid dist by (metis distinct_map inj_onD)
  with same have c: "same_content (checked_record (mv_Records view) ?h r) r'" by simp
  have "set (sort (mr_Dependencies r')) = set (sort (mr_Dependencies (checked_record (mv_Records view) ?h r)))"
    by (simp only: same_contentD(5) [OF c])
  then have "set (mr_Dependencies r') = mr_ID ` set (mv_Records view)" by simp
  moreover have "mr_Payload r' = mr_Payload r" "mr_InputHash r' = ?h"
    using same_contentD(2,3) [OF c] by (simp_all add: checked_record_def)
  moreover have "mr_Validation r' = ''unchecked''"
    using same_contentD(4) [OF c] ok r by (simp add: checked_record_def validateRecord_iff)
  ultimately show "\<exists>r'\<in>set (mv_Records v). mr_ID r' = mr_ID r \<and> mr_Payload r' = mr_Payload r \<and> mr_InputHash r' = dl_ContextHash d \<and>
       mr_Validation r' = ''unchecked'' \<and> set (mr_Dependencies r') = mr_ID ` set (mv_Records view)"
    using r' by blast
qed


text \<open>Merging does not depend on the order in which the views arrive, nor on how often one arrives: two
  lists of accepted views with the same members merge to the same result. (The canonical texts of different
  records differ.)\<close>

theorem merge_order_irrelevant:
  assumes "set views = set views'" "list_all (\<lambda>v. validateView v = Inr ()) views"
    and "inj_on canonical_record (set (concat (map all_records views)))"
  shows "MergeViews views = MergeViews views'"
  using assms by (intro MergeViews_set) (simp_all add: check_all_eq_Inr_iff list_all_iff)

section \<open>Concrete instances\<close>

definition example_record :: "string \<Rightarrow> string list \<Rightarrow> string list \<Rightarrow> MemoryRecord" where
  "example_record i deps sups = \<lparr>mr_Origin = None, mr_ID = i, mr_Kind = ''observation'', mr_Payload = ''1'', mr_Sources = [],
     mr_Dependencies = deps, mr_Supersedes = sups, mr_Validation = ''unchecked'', mr_Validity = ''VALID'', mr_InputHash = []\<rparr>"

definition example_records :: "MemoryRecord list" where
  "example_records = [example_record ''a'' [] [], example_record ''b'' [''a''] [], example_record ''c'' [] []]"

lemma records_fineI:
  assumes "records_ok [] recs = Inr ()" "\<not> isl (fold_result (visit recs []) [] (map mr_ID recs))"
  shows "records_fine recs"
proof -
  obtain fin where "fold_result (visit recs []) [] (map mr_ID recs) = Inr fin" using assms(2) by (metis isl_def sum.exhaust)
  then have "deps_closed recs \<and> acyclic (dep_rel recs)" using dep_search_iff [of "map mr_ID recs" recs] by auto
  with assms(1) show ?thesis by (simp add: records_ok_iff records_fine_def)
qed

lemma example_records_fine: "records_fine example_records"
  by (rule records_fineI) code_simp+

lemma example_view_ok: "validateView (NewView example_records) = Inr ()"
proof -
  have "validateView (NewView example_records) = Inr () \<longleftrightarrow> records_fine (sort_key mr_ID (map sort_record example_records))"
    unfolding NewView_def by (simp add: validate_sealed origins_fine_def)
  then show ?thesis using records_fine_sorted(1) [OF example_records_fine] by simp
qed

lemma example_records_sorted: "sort_key mr_ID (map sort_record example_records) = example_records"
  by code_simp


lemma validity_projected_witness:
  "rank (mr_Validity (projectValidity [example_record ''b'' [''a''] [], (example_record ''a'' [] [])\<lparr>mr_Validity := ''INVALID''\<rparr>] ! 0)) = 2"
proof -
  let ?recs = "[example_record ''b'' [''a''] [], (example_record ''a'' [] [])\<lparr>mr_Validity := ''INVALID''\<rparr>]"
  have d: "distinct (map mr_ID ?recs)" by code_simp
  have rel: "dep_rel ?recs = {(''b'', ''a'')}"
    unfolding dep_rel_code [OF d] by (simp add: example_record_def)
  have all: "{s \<in> set ?recs. (mr_ID (?recs ! 0), mr_ID s) \<in> (dep_rel ?recs)\<^sup>*} = set ?recs"
    unfolding rel by (auto simp: example_record_def)
  have "rank (mr_Validity (projectValidity ?recs ! 0)) = Max ((\<lambda>s. rank (mr_Validity s)) ` set ?recs)"
    using validity_projected [OF d, of 0] unfolding all by simp
  then show ?thesis by (simp add: example_record_def rank_def)
qed

definition example_delta :: Delta where
  "example_delta = \<lparr>dl_Version = ''iu-memory-delta-v1'', dl_ReadViewHash = mv_SHA256 (NewView example_records),
     dl_ContextHash = replicate 64 CHR ''e'', dl_Records = [example_record ''d'' [] [], example_record ''f'' [] []]\<rparr>"


lemma merge_order_irrelevant_witness:
  "MergeViews [NewView example_records, NewView [example_record ''d'' [] []]] =
   MergeViews [NewView [example_record ''d'' [] []], NewView example_records]"
proof (rule merge_order_irrelevant)
  have "records_fine [example_record ''d'' [] []]" by (rule records_fineI) code_simp+
  then have "validateView (NewView [example_record ''d'' [] []]) = Inr ()"
    using records_fine_sorted(1) [of "[example_record ''d'' [] []]"]
    unfolding NewView_def by (simp add: validate_sealed origins_fine_def)
  with example_view_ok show "list_all (\<lambda>v. validateView v = Inr ()) [NewView example_records, NewView [example_record ''d'' [] []]]"
    by simp
  have "concat (map all_records [NewView example_records, NewView [example_record ''d'' [] []]]) =
      example_records @ [example_record ''d'' [] []]"
    by (simp add: all_records_def example_records_sorted) (simp add: sort_record_def example_record_def)
  moreover have "distinct (map canonical_record (example_records @ [example_record ''d'' [] []]))" by code_simp
  ultimately show "inj_on canonical_record (set (concat (map all_records [NewView example_records, NewView [example_record ''d'' [] []]])))"
    by (simp only: distinct_map)
qed auto

end
