(* ===== verification/Graph_Plan.thy ===== *)
theory Graph_Plan
  imports Graph_Memory
begin

text \<open>
  Frozen IU plans: \<open>internal/graph/spec.go\<close> (\<open>Compile\<close>, \<open>Lower\<close>), \<open>coverage.go\<close>, the context policy of
  \<open>token.go\<close>, \<open>CompileContext\<close> of \<open>context.go\<close> and \<open>recovery.go\<close>.

  \<open>Compile\<close> starts from the decoded request: the JSON clone at its beginning is the identity there and its
  length is the argument \<open>rawLen\<close>. The request schemas require the arrays, so none of them is null in the
  canonical text. \<open>resolvePortSchema\<close> ends in the third-party \<open>jsonschema\<close> package and is the argument
  \<open>resolve\<close>, which gives the error text of a definition it refuses. The maps from ids to declarations are
  searches of the lists they are filled from, from the end because a later entry replaces an earlier one.

  Shown here: the Kahn traversal returns a permutation of the nodes in which every edge goes forward, and
  reports a cycle exactly when there is one; the plan does not depend on the order of the declarations;
  a compiled plan satisfies its declared coverage, byte by byte; a compiled context presents all required
  evidence; an accepted recovery only adds to what the prior plan presents.
\<close>

section \<open>Data\<close>

record Port =
  po_Name :: string
  po_Schema :: string

record Operator =
  op_ID :: string
  op_Version :: string
  op_Kind :: string
  op_Inputs :: "Port list"
  op_Outputs :: "Port list"
  op_Execution :: "Execution option"
  op_CommandProfile :: string

record ContextPolicy =
  cp_Version :: string
  cp_MaxBytes :: int
  cp_MaxInputTokens :: "int option"
  cp_RequiredEvidence :: "Span list"

record Node =
  nd_ContextPolicy :: "ContextPolicy option"
  nd_Rules :: "Span list"
  nd_ReplayProfile :: string
  nd_ID :: string
  nd_Operator :: string
  nd_Instructions :: string
  nd_Spans :: "Span list"
  nd_ScopePaths :: "string list"
  nd_JoinPolicy :: string
  nd_Parameters :: string

record Edge =
  eg_FromNode :: string
  eg_FromPort :: string
  eg_ToNode :: string
  eg_ToPort :: string
  eg_Type :: string
  eg_When :: string

record Output =
  ou_Node :: string
  ou_Port :: string

record GraphLimits =
  gl_Parallelism :: int
  gl_TimeoutSeconds :: int
  gl_MaxAttemptsPerTask :: int
  gl_MaxReplans :: int
  gl_MaxCostUnits :: "int option"
  gl_MaxTokens :: "int option"

record ReuseBinding =
  rb_GrantID :: string
  rb_NodeID :: string

record ImportBinding =
  ib_GrantID :: string
  ib_NodeIDs :: "string list"

record CoverageObligation =
  co_ID :: string
  co_Sources :: "Span list"
  co_NodeIDs :: "string list"
  co_CheckID :: string

record CoverageCheckBinding =
  cb_ID :: string
  cb_Outputs :: "Output list"

record CoverageCatalog =
  cc_Version :: string
  cc_GoalSourceID :: string
  cc_GoalSpecHash :: string
  cc_Profile :: string
  cc_ProfileVersion :: string
  cc_Scope :: string
  cc_Obligations :: "CoverageObligation list"
  cc_Checks :: "CoverageCheckBinding list"
  cc_SHA256 :: string

record Evaluator =
  ev_Profile :: string
  ev_Version :: string

record GraphSpec =
  gs_Coverage :: "CoverageCatalog option"
  gs_Reuse :: "ReuseBinding list"
  gs_Imports :: "ImportBinding list"
  gs_Schemas :: "(string \<times> string) list"
  gs_Evaluator :: Evaluator
  gs_Version :: string
  gs_ProjectID :: string
  gs_Workspace :: Workspace
  gs_Sources :: "Source list"
  gs_Rules :: "Span list"
  gs_Operators :: "Operator list"
  gs_Nodes :: "Node list"
  gs_Edges :: "Edge list"
  gs_Outputs :: "Output list"
  gs_Limits :: GraphLimits

record Plan =
  pl_Spec :: GraphSpec
  pl_Digest :: string
  pl_Order :: "string list"
  pl_RequestedParallelism :: int
  pl_EffectiveParallelism :: int
  pl_BudgetMode :: string

section \<open>Canonical text\<close>

definition opt_int :: "string \<Rightarrow> int \<Rightarrow> (string \<times> json) list" where
  "opt_int k i = (if i = 0 then [] else [(k, JInt i)])"

definition opt_bool :: "string \<Rightarrow> bool \<Rightarrow> (string \<times> json) list" where
  "opt_bool k b = (if b then [(k, JBool True)] else [])"

definition opt_ptr :: "string \<Rightarrow> ('a \<Rightarrow> json) \<Rightarrow> 'a option \<Rightarrow> (string \<times> json) list" where
  "opt_ptr k f x = (case x of None \<Rightarrow> [] | Some v \<Rightarrow> [(k, f v)])"

definition opt_raw :: "string \<Rightarrow> string \<Rightarrow> (string \<times> json) list" where
  "opt_raw k s = (if s = [] then [] else [(k, JRaw s)])"

definition source_json :: "Source \<Rightarrow> json" where
  "source_json s = JObj (opt_str ''role'' (so_Role s) @ opt_int ''message_index'' (so_MessageIndex s) @
     [(''id'', JStr (so_ID s)), (''text'', JStr (so_Text s))] @ opt_str ''sha256'' (so_SHA256 s))"

definition span_json :: "Span \<Rightarrow> json" where
  "span_json s = JObj [(''source'', JStr (sn_Source s)), (''start'', JInt (sn_Start s)), (''end'', JInt (sn_End s)),
     (''sha256'', JStr (sn_SHA256 s))]"

definition port_json :: "Port \<Rightarrow> json" where
  "port_json p = JObj [(''name'', JStr (po_Name p)), (''schema'', JStr (po_Schema p))]"

definition execution_json :: "Execution \<Rightarrow> json" where
  "execution_json e = JObj (opt_str ''engine'' (ex_Engine e) @
     [(''runtime_profile'', JStr (ex_RuntimeProfile e)), (''model'', JStr (ex_Model e)),
      (''credential_ref'', JStr (ex_CredentialRef e)), (''policy_ref'', JStr (ex_PolicyRef e)),
      (''acceptance_profile'', JStr (ex_AcceptanceProfile e))] @
     opt_bool ''replay_safe'' (ex_ReplaySafe e) @ opt_arr ''tools'' (map JStr (ex_Tools e)) @
     opt_str ''environment'' (ex_Environment e))"

definition operator_json :: "Operator \<Rightarrow> json" where
  "operator_json op = JObj ([(''id'', JStr (op_ID op)), (''version'', JStr (op_Version op)), (''kind'', JStr (op_Kind op))] @
     opt_arr ''inputs'' (map port_json (op_Inputs op)) @ [(''outputs'', JArr (map port_json (op_Outputs op)))] @
     opt_ptr ''execution'' execution_json (op_Execution op) @ opt_str ''command_profile'' (op_CommandProfile op))"

definition policy_json :: "ContextPolicy \<Rightarrow> json" where
  "policy_json p = JObj ([(''version'', JStr (cp_Version p))] @ opt_int ''max_bytes'' (cp_MaxBytes p) @
     opt_ptr ''max_input_tokens'' JInt (cp_MaxInputTokens p) @
     opt_arr ''required_evidence'' (map span_json (cp_RequiredEvidence p)))"

definition node_json :: "Node \<Rightarrow> json" where
  "node_json n = JObj (opt_ptr ''context_policy'' policy_json (nd_ContextPolicy n) @
     opt_arr ''rules'' (map span_json (nd_Rules n)) @ opt_str ''replay_profile'' (nd_ReplayProfile n) @
     [(''id'', JStr (nd_ID n)), (''operator'', JStr (nd_Operator n))] @ opt_str ''instructions'' (nd_Instructions n) @
     opt_arr ''spans'' (map span_json (nd_Spans n)) @ opt_arr ''scope_paths'' (map JStr (nd_ScopePaths n)) @
     opt_str ''join_policy'' (nd_JoinPolicy n) @ opt_raw ''parameters'' (nd_Parameters n))"

definition edge_json :: "Edge \<Rightarrow> json" where
  "edge_json e = JObj ([(''from_node'', JStr (eg_FromNode e))] @ opt_str ''from_port'' (eg_FromPort e) @
     [(''to_node'', JStr (eg_ToNode e))] @ opt_str ''to_port'' (eg_ToPort e) @ [(''type'', JStr (eg_Type e))] @
     opt_str ''when'' (eg_When e))"

definition output_json :: "Output \<Rightarrow> json" where
  "output_json o' = JObj [(''node'', JStr (ou_Node o')), (''port'', JStr (ou_Port o'))]"

definition limits_json :: "GraphLimits \<Rightarrow> json" where
  "limits_json l = JObj ([(''parallelism'', JInt (gl_Parallelism l)), (''timeout_seconds'', JInt (gl_TimeoutSeconds l)),
     (''max_attempts_per_task'', JInt (gl_MaxAttemptsPerTask l))] @ opt_int ''max_replans'' (gl_MaxReplans l) @
     opt_ptr ''max_cost_units'' JInt (gl_MaxCostUnits l) @ opt_ptr ''max_tokens'' JInt (gl_MaxTokens l))"

definition obligation_json :: "CoverageObligation \<Rightarrow> json" where
  "obligation_json o' = JObj [(''constraint_id'', JStr (co_ID o')), (''sources'', JArr (map span_json (co_Sources o'))),
     (''node_ids'', json_strs (co_NodeIDs o')), (''check_id'', JStr (co_CheckID o'))]"

definition check_json :: "CoverageCheckBinding \<Rightarrow> json" where
  "check_json b = JObj [(''check_id'', JStr (cb_ID b)), (''outputs'', JArr (map output_json (cb_Outputs b)))]"

definition catalog_json :: "CoverageCatalog \<Rightarrow> json" where
  "catalog_json c = JObj [(''version'', JStr (cc_Version c)), (''goal_source_id'', JStr (cc_GoalSourceID c)),
     (''goal_spec_sha256'', JStr (cc_GoalSpecHash c)), (''profile'', JStr (cc_Profile c)),
     (''profile_version'', JStr (cc_ProfileVersion c)), (''scope'', JStr (cc_Scope c)),
     (''obligations'', JArr (map obligation_json (cc_Obligations c))), (''checks'', JArr (map check_json (cc_Checks c))),
     (''sha256'', JStr (cc_SHA256 c))]"

definition reuse_json :: "ReuseBinding \<Rightarrow> json" where
  "reuse_json b = JObj [(''grant_id'', JStr (rb_GrantID b)), (''node_id'', JStr (rb_NodeID b))]"

definition import_json :: "ImportBinding \<Rightarrow> json" where
  "import_json b = JObj [(''grant_id'', JStr (ib_GrantID b)), (''node_ids'', json_strs (ib_NodeIDs b))]"

text \<open>\<open>json.Marshal\<close> writes the members of a map in the order of their keys.\<close>

definition spec_json :: "GraphSpec \<Rightarrow> json" where
  "spec_json s = JObj (opt_ptr ''coverage'' catalog_json (gs_Coverage s) @ opt_arr ''reuse'' (map reuse_json (gs_Reuse s)) @
     opt_arr ''imports'' (map import_json (gs_Imports s)) @
     [(''schemas'', JObj (map (\<lambda>(k, v). (k, JRaw v)) (sort_key fst (gs_Schemas s)))),
      (''evaluator'', JObj [(''profile'', JStr (ev_Profile (gs_Evaluator s))), (''version'', JStr (ev_Version (gs_Evaluator s)))]),
      (''version'', JStr (gs_Version s)), (''project_id'', JStr (gs_ProjectID s)),
      (''workspace'', JObj [(''repository_ref'', JStr (ws_RepositoryRef (gs_Workspace s))),
                            (''base_commit'', JStr (ws_BaseCommit (gs_Workspace s)))]),
      (''sources'', JArr (map source_json (gs_Sources s)))] @ opt_arr ''rules'' (map span_json (gs_Rules s)) @
     [(''operators'', JArr (map operator_json (gs_Operators s))), (''nodes'', JArr (map node_json (gs_Nodes s))),
      (''edges'', JArr (map edge_json (gs_Edges s))), (''outputs'', JArr (map output_json (gs_Outputs s))),
      (''limits'', limits_json (gs_Limits s))])"

section \<open>Context policies and coverage\<close>

definition ContextPolicy_Validate :: "ContextPolicy \<Rightarrow> unit result" where
  "ContextPolicy_Validate p =
     (if cp_Version p \<noteq> ''iu-context-policy-v1'' \<or> cp_MaxBytes p < 0 \<or> cp_MaxBytes p > 65536 \<or>
         length (cp_RequiredEvidence p) > 128
      then Inl (invalid ''context policy'')
      else if cp_MaxInputTokens p \<noteq> None then Inl (Error ''CONTEXT_TOKEN_BUDGET_UNSUPPORTED'')
      else Inr ())"

definition find_node :: "Node list \<Rightarrow> string \<Rightarrow> Node option" where
  "find_node nodes i = List.find (\<lambda>n. nd_ID n = i) (rev nodes)"

definition find_op :: "Operator list \<Rightarrow> string \<Rightarrow> Operator option" where
  "find_op ops i = List.find (\<lambda>op. op_ID op = i) (rev ops)"

fun findPort :: "Port list \<Rightarrow> string \<Rightarrow> Port option" where
  "findPort [] name = None"
| "findPort (p # ps) name = (if po_Name p = name then Some p else findPort ps name)"

definition source_map :: "Source list \<Rightarrow> string \<rightharpoonup> Source" where
  "source_map srcs = map_of (rev (map (\<lambda>s. (so_ID s, s\<lparr>so_SHA256 := Hash (so_Text s)\<rparr>)) srcs))"

definition Catalog_Digest :: "CoverageCatalog \<Rightarrow> string" where
  "Catalog_Digest c = Hash (json_text (catalog_json (c\<lparr>cc_SHA256 := []\<rparr>)))"

definition CoverageRequiredSpans :: "GraphSpec \<Rightarrow> string \<Rightarrow> Span list" where
  "CoverageRequiredSpans s node =
     (case gs_Coverage s of
        None \<Rightarrow> []
      | Some c \<Rightarrow> concat (map co_Sources (filter (\<lambda>o'. node \<in> set (co_NodeIDs o')) (cc_Obligations c))))"

text \<open>First occurrences only, in order.\<close>

fun dedup :: "'a list \<Rightarrow> 'a list \<Rightarrow> 'a list" where
  "dedup seen [] = []"
| "dedup seen (x # xs) = (if x \<in> set seen then dedup seen xs else x # dedup (x # seen) xs)"

definition CoverageContextPolicy :: "GraphSpec \<Rightarrow> Node \<Rightarrow> ContextPolicy option result" where
  "CoverageContextPolicy s n =
     (if gs_Coverage s = None then Inr (nd_ContextPolicy n)
      else let p = (case nd_ContextPolicy n of
                      None \<Rightarrow> \<lparr>cp_Version = ''iu-context-policy-v1'', cp_MaxBytes = 0, cp_MaxInputTokens = None, cp_RequiredEvidence = []\<rparr>
                    | Some q \<Rightarrow> q);
               p' = p\<lparr>cp_RequiredEvidence := dedup [] (cp_RequiredEvidence p @ CoverageRequiredSpans s (nd_ID n))\<rparr>
           in rbind (ContextPolicy_Validate p') (\<lambda>_. Inr (Some p')))"

record CoverageGap =
  gp_ConstraintID :: string
  gp_NodeID :: string
  gp_SourceID :: string
  gp_Start :: int
  gp_End :: int
  gp_Reason :: string

record CoverageReport =
  cr_CatalogHash :: string
  cr_Complete :: bool
  cr_Gaps :: "CoverageGap list"

definition selected_spans :: "GraphSpec \<Rightarrow> Node \<Rightarrow> Span list" where
  "selected_spans s n = gs_Rules s @ nd_Rules n @ nd_Spans n"

text \<open>The loop over the checks of the catalogue: the ids seen so far.\<close>

definition check_step :: "Output list \<Rightarrow> string list \<Rightarrow> CoverageCheckBinding \<Rightarrow> string list result" where
  "check_step outputs seen b =
     (if \<not> key_pattern (cb_ID b) \<or> cb_ID b \<in> set seen \<or> length (cb_Outputs b) < 1 \<or> length (cb_Outputs b) > 32
      then Inl (invalid ''coverage checks'')
      else if \<not> (list_all (\<lambda>o'. o' \<in> set outputs) (cb_Outputs b) \<and> no_repeat [] (cb_Outputs b))
      then Inl (invalid ''coverage check output'')
      else Inr (cb_ID b # seen))"

definition executable_op :: "Operator list \<Rightarrow> string \<Rightarrow> bool" where
  "executable_op ops i = (case find_op ops i of None \<Rightarrow> False | Some op \<Rightarrow> op_Kind op = ''agent'' \<or> op_Kind op = ''command'')"

definition node_gaps :: "GraphSpec \<Rightarrow> CoverageObligation \<Rightarrow> Node \<Rightarrow> CoverageGap list" where
  "node_gaps s o' n =
     map (\<lambda>sp. \<lparr>gp_ConstraintID = co_ID o', gp_NodeID = nd_ID n, gp_SourceID = sn_Source sp, gp_Start = sn_Start sp,
                gp_End = sn_End sp, gp_Reason = ''REQUIRED_SOURCE_NOT_LOADED''\<rparr>)
       (filter (\<lambda>sp. \<not> requiredEvidenceCovered sp (selected_spans s n)) (co_Sources o'))"

definition obligation_node_step ::
  "GraphSpec \<Rightarrow> CoverageObligation \<Rightarrow> string list \<times> CoverageGap list \<Rightarrow> string \<Rightarrow> (string list \<times> CoverageGap list) result" where
  "obligation_node_step s o' = (\<lambda>(seen, gaps) i.
     (case find_node (gs_Nodes s) i of
        None \<Rightarrow> Inl (invalid ''coverage node'')
      | Some n \<Rightarrow>
          if i \<in> set seen \<or> \<not> executable_op (gs_Operators s) (nd_Operator n) then Inl (invalid ''coverage node'')
          else Inr (i # seen, gaps @ node_gaps s o' n)))"

definition obligation_step ::
  "GraphSpec \<Rightarrow> string list \<Rightarrow> string list \<times> string list \<times> CoverageGap list \<Rightarrow> CoverageObligation \<Rightarrow>
   (string list \<times> string list \<times> CoverageGap list) result" where
  "obligation_step s checks = (\<lambda>(ids, used, gaps) o'.
     (if \<not> key_pattern (co_ID o') \<or> co_ID o' \<in> set ids \<or> co_CheckID o' \<notin> set checks \<or> length (co_Sources o') < 1 \<or>
         length (co_Sources o') > 32 \<or> length (co_NodeIDs o') < 1 \<or> length (co_NodeIDs o') > 32
      then Inl (invalid ''coverage obligation'')
      else rbind (check_all (\<lambda>sp. rbind (readSpan (source_map (gs_Sources s)) sp) (\<lambda>_. Inr ())) (co_Sources o')) (\<lambda>_.
        rbind (fold_result (obligation_node_step s o') ([], gaps) (co_NodeIDs o')) (\<lambda>(_, gaps').
          Inr (co_ID o' # ids, co_CheckID o' # used, gaps')))))"

definition CheckCoverage :: "GraphSpec \<Rightarrow> CoverageReport result" where
  "CheckCoverage s =
     (if gs_Version s \<noteq> ''iu-graph-v5'' then
        (if gs_Coverage s \<noteq> None then Inl (invalid ''coverage version'')
         else Inr \<lparr>cr_CatalogHash = [], cr_Complete = True, cr_Gaps = []\<rparr>)
      else (case gs_Coverage s of
          None \<Rightarrow> Inl (invalid ''coverage catalog'')
        | Some c \<Rightarrow>
            if cc_Version c \<noteq> ''iu-coverage-v1'' \<or> cc_SHA256 c \<noteq> Catalog_Digest c \<or> \<not> key_pattern (cc_Profile c) \<or>
               \<not> key_pattern (cc_Scope c) \<or> cc_ProfileVersion c = [] \<or> length (cc_ProfileVersion c) > 256 \<or>
               length (cc_Obligations c) < 1 \<or> length (cc_Obligations c) > 64 \<or> length (cc_Checks c) < 1 \<or>
               length (cc_Checks c) > 32
            then Inl (invalid ''coverage catalog'')
            else if (case source_map (gs_Sources s) (cc_GoalSourceID c) of
                       None \<Rightarrow> True | Some src \<Rightarrow> so_SHA256 src \<noteq> cc_GoalSpecHash c)
            then Inl (invalid ''coverage goal source'')
            else rbind (fold_result (check_step (gs_Outputs s)) [] (cc_Checks c)) (\<lambda>checks.
              rbind (fold_result (obligation_step s checks) ([], [], []) (cc_Obligations c)) (\<lambda>(_, used, gaps).
                rbind (check_all (\<lambda>n. rbind (CoverageContextPolicy s n) (\<lambda>_. Inr ())) (gs_Nodes s)) (\<lambda>_.
                  if \<not> list_all (\<lambda>i. i \<in> set used) checks then Inl (invalid ''coverage check has no obligation'')
                  else Inr \<lparr>cr_CatalogHash = cc_SHA256 c, cr_Complete = (gaps = []), cr_Gaps = gaps\<rparr>)))))"

definition ValidateCoverage :: "GraphSpec \<Rightarrow> unit result" where
  "ValidateCoverage s =
     rbind (CheckCoverage s) (\<lambda>r.
       if \<not> cr_Complete r
       then Inl (Error (''COVERAGE_INSUFFICIENT: '' @ int_decimal (int (length (cr_Gaps r))) @ '' declared evidence gaps''))
       else Inr ())"

section \<open>Compile\<close>

definition graph_versions :: "string list" where
  "graph_versions = [''iu-graph-v1'', ''iu-graph-v2'', ''iu-graph-v3'', ''iu-graph-v4'', ''iu-graph-v5'']"

text \<open>\<open>s.Version != ReuseVersion && s.Version != ContextVersion && s.Version != CoverageVersion\<close>\<close>

definition before_reuse :: "string \<Rightarrow> bool" where
  "before_reuse v \<longleftrightarrow> v \<noteq> ''iu-graph-v3'' \<and> v \<noteq> ''iu-graph-v4'' \<and> v \<noteq> ''iu-graph-v5''"

definition header_ok :: "GraphSpec \<Rightarrow> unit result" where
  "header_ok s =
     (let l = gs_Limits s in
      if gs_Version s \<notin> set graph_versions \<or> \<not> Ref (gs_ProjectID s) \<or> \<not> Ref (ws_RepositoryRef (gs_Workspace s)) \<or>
         \<not> commitRE (ws_BaseCommit (gs_Workspace s))
      then Inl (invalid ''version, project or workspace'')
      else if \<not> Ref (ev_Profile (gs_Evaluator s)) \<or> \<not> Ref (ev_Version (gs_Evaluator s))
      then Inl (invalid ''frozen evaluator required'')
      else if gl_Parallelism l < 1 \<or> gl_Parallelism l > 8 \<or> gl_TimeoutSeconds l < 1 \<or> gl_TimeoutSeconds l > 86400 \<or>
              gl_MaxAttemptsPerTask l < 1 \<or> gl_MaxAttemptsPerTask l > 3 \<or> gl_MaxReplans l < 0 \<or> gl_MaxReplans l > 8
      then Inl (invalid ''limits'')
      else if gl_MaxTokens l \<noteq> None \<or> (case gl_MaxCostUnits l of None \<Rightarrow> False | Some c \<Rightarrow> c < 1)
      then Inl (Error ''GOAL_RUNTIME_BUDGET_UNSUPPORTED'')
      else if length (gs_Nodes s) < 1 \<or> length (gs_Nodes s) > 32 \<or> length (gs_Edges s) > 128 \<or>
              length (gs_Operators s) < 1 \<or> length (gs_Operators s) > 32 \<or> length (gs_Sources s) > 128 \<or>
              length (gs_Rules s) > 128 \<or> length (gs_Outputs s) < 1 \<or> length (gs_Outputs s) > 32
      then Inl (invalid ''graph size'')
      else Inr ())"

definition source_roles :: "string list" where
  "source_roles = [[], ''system'', ''developer'', ''user'', ''assistant'', ''tool'']"

text \<open>The loop over the sources: the ids seen; the hash is filled in place (\<open>hash_source\<close>).\<close>

definition source_step :: "string list \<Rightarrow> Source \<Rightarrow> string list result" where
  "source_step seen src =
     (if so_MessageIndex src < 0 \<or> so_Role src \<notin> set source_roles then Inl (invalid ''source message identity'')
      else if \<not> key_pattern (so_ID src) \<or> \<not> utf8_valid (so_Text src) then Inl (invalid ''source'')
      else if so_ID src \<in> set seen then Inl (invalid ''duplicate source'')
      else if so_SHA256 src \<noteq> [] \<and> so_SHA256 src \<noteq> Hash (so_Text src) then Inl (invalid ''source hash'')
      else Inr (so_ID src # seen))"

definition hash_source :: "Source \<Rightarrow> Source" where
  "hash_source src = src\<lparr>so_SHA256 := Hash (so_Text src)\<rparr>"

definition span_ok :: "(string \<rightharpoonup> Source) \<Rightarrow> Span \<Rightarrow> unit result" where
  "span_ok sources sp = rbind (readSpan sources sp) (\<lambda>_. Inr ())"

definition schema_ok :: "(string \<Rightarrow> string option) \<Rightarrow> string \<times> string \<Rightarrow> unit result" where
  "schema_ok resolve = (\<lambda>(name, d).
     (if \<not> Ref name \<or> length d > 65536 then Inl (invalid ''port schema bounds'')
      else (case resolve d of None \<Rightarrow> Inr () | Some e \<Rightarrow> Inl (invalid (''port schema: '' @ e)))))"

definition port_step :: "(string \<times> string) list \<Rightarrow> string list \<Rightarrow> Port \<Rightarrow> string list result" where
  "port_step schemas seen p =
     (if po_Schema p \<notin> fst ` set schemas then Inl (invalid ''port schema undefined'')
      else if \<not> key_pattern (po_Name p) \<or> \<not> Ref (po_Schema p) \<or> po_Name p \<in> set seen
      then Inl (invalid ''invalid or duplicate port'')
      else Inr (po_Name p # seen))"

definition operator_kind_ok :: "GraphLimits \<Rightarrow> Operator \<Rightarrow> unit result" where
  "operator_kind_ok l op =
     (if op_Kind op = ''agent'' then
        (case op_Execution op of
           None \<Rightarrow> Inl (invalid ''agent execution'')
         | Some e \<Rightarrow>
             if op_CommandProfile op \<noteq> [] then Inl (invalid ''agent execution'')
             else rbind (Execution_Validate e) (\<lambda>_.
               if gl_MaxAttemptsPerTask l > 1 \<and> \<not> ex_ReplaySafe e then Inl (invalid ''retry requires replay_safe'')
               else if gl_MaxCostUnits l \<noteq> None \<and> ex_RuntimeProfile e \<noteq> ''claude_http''
               then Inl (Error ''GOAL_RUNTIME_BUDGET_UNSUPPORTED'')
               else Inr ()))
      else if op_Kind op = ''command'' then
        (if \<not> key_pattern (op_CommandProfile op) \<or> op_Execution op \<noteq> None then Inl (invalid ''command profile'')
         else if gl_MaxCostUnits l \<noteq> None then Inl (Error ''GOAL_RUNTIME_BUDGET_UNSUPPORTED'')
         else if gl_MaxAttemptsPerTask l > 1 then Inl (invalid ''command retries require separate replay contract'')
         else Inr ())
      else if op_Kind op = ''join'' then
        (if op_Execution op \<noteq> None \<or> op_CommandProfile op \<noteq> [] then Inl (invalid ''join cannot execute'') else Inr ())
      else Inl (invalid ''operator kind''))"

definition operator_step :: "GraphLimits \<Rightarrow> (string \<times> string) list \<Rightarrow> string list \<Rightarrow> Operator \<Rightarrow> string list result" where
  "operator_step l schemas seen op =
     (if \<not> key_pattern (op_ID op) \<or> \<not> Ref (op_Version op) then Inl (invalid ''operator identity'')
      else if op_ID op \<in> set seen then Inl (invalid ''duplicate operator'')
      else if length (op_Inputs op) > 32 \<or> length (op_Outputs op) < 1 \<or> length (op_Outputs op) > 32
      then Inl (invalid ''operator ports'')
      else rbind (check_all (\<lambda>ports. rbind (fold_result (port_step schemas) [] ports) (\<lambda>_. Inr ())) [op_Inputs op, op_Outputs op]) (\<lambda>_.
        rbind (operator_kind_ok l op) (\<lambda>_. Inr (op_ID op # seen))))"

definition node_policy_ok :: "string \<Rightarrow> (string \<rightharpoonup> Source) \<Rightarrow> Node \<Rightarrow> unit result" where
  "node_policy_ok version sources n =
     (case nd_ContextPolicy n of
        None \<Rightarrow> Inr ()
      | Some p \<Rightarrow>
          if version \<noteq> ''iu-graph-v4'' \<and> version \<noteq> ''iu-graph-v5'' then Inl (invalid ''context policy version'')
          else rbind (ContextPolicy_Validate p) (\<lambda>_. check_all (span_ok sources) (cp_RequiredEvidence p)))"

definition node_operator_ok :: "Operator list \<Rightarrow> Node \<Rightarrow> unit result" where
  "node_operator_ok ops n =
     (case find_op ops (nd_Operator n) of
        None \<Rightarrow> Inl (invalid ''missing operator'')
      | Some op \<Rightarrow>
          if op_Kind op = ''join''
          then (if nd_JoinPolicy n \<noteq> ''all_success'' \<and> nd_JoinPolicy n \<noteq> ''selected_success''
                then Inl (invalid ''join policy'') else Inr ())
          else (if nd_JoinPolicy n \<noteq> [] then Inl (invalid ''non-join policy'') else Inr ()))"

definition node_step :: "string \<Rightarrow> (string \<rightharpoonup> Source) \<Rightarrow> Operator list \<Rightarrow> string list \<Rightarrow> Node \<Rightarrow> string list result" where
  "node_step version sources ops seen n =
     rbind (node_policy_ok version sources n) (\<lambda>_.
       if \<not> key_pattern (nd_ID n) \<or> \<not> utf8_valid (nd_Instructions n) \<or> length (nd_Instructions n) > 65536 \<or>
          length (nd_Spans n) > 128 \<or> length (nd_Rules n) > 128 \<or> length (nd_ScopePaths n) > 64
       then Inl (invalid ''node'')
       else if nd_ID n \<in> set seen then Inl (invalid ''duplicate node'')
       else if length (nd_Rules n) > 0 \<and> before_reuse version then Inl (invalid ''node rules version'')
       else if nd_ReplayProfile n \<noteq> [] \<and> (before_reuse version \<or> \<not> key_pattern (nd_ReplayProfile n))
       then Inl (invalid ''replay profile version'')
       else rbind (node_operator_ok ops n) (\<lambda>_.
         rbind (check_all (span_ok sources) (nd_Spans n @ nd_Rules n)) (\<lambda>_.
           if \<not> list_all ValidPath (nd_ScopePaths n) then Inl (invalid ''node scope'')
           else Inr (nd_ID n # seen))))"

text \<open>The loops over the reuse and import bindings: the grants seen and the nodes already reused.\<close>

definition reuse_step :: "Node list \<Rightarrow> string list \<times> string list \<Rightarrow> ReuseBinding \<Rightarrow> (string list \<times> string list) result" where
  "reuse_step nodes = (\<lambda>(grants, reused) b.
     (if (case find_node nodes (rb_NodeID b) of None \<Rightarrow> True | Some n \<Rightarrow> nd_ReplayProfile n = []) \<or>
         \<not> key_pattern (rb_GrantID b) \<or> rb_GrantID b \<in> set grants \<or> rb_NodeID b \<in> set reused
      then Inl (invalid ''reuse binding'')
      else Inr (rb_GrantID b # grants, rb_NodeID b # reused)))"

definition import_step :: "Node list \<Rightarrow> string list \<Rightarrow> ImportBinding \<Rightarrow> string list result" where
  "import_step nodes grants b =
     (if \<not> key_pattern (ib_GrantID b) \<or> ib_GrantID b \<in> set grants \<or> length (ib_NodeIDs b) < 1 \<or> length (ib_NodeIDs b) > 32
      then Inl (invalid ''import binding'')
      else if \<not> (list_all (\<lambda>i. find_node nodes i \<noteq> None) (ib_NodeIDs b) \<and> no_repeat [] (ib_NodeIDs b))
      then Inl (invalid ''import target'')
      else Inr (ib_GrantID b # grants))"

definition bindings_ok :: "GraphSpec \<Rightarrow> unit result" where
  "bindings_ok s =
     (if length (gs_Imports s) > 8 \<or> gs_Version s = ''iu-graph-v1'' \<and> length (gs_Imports s) > 0
      then Inl (invalid ''import version or bounds'')
      else if length (gs_Reuse s) > 32 \<or> length (gs_Reuse s) > 0 \<and> before_reuse (gs_Version s)
      then Inl (invalid ''reuse version or bounds'')
      else rbind (fold_result (reuse_step (gs_Nodes s)) ([], []) (gs_Reuse s)) (\<lambda>(grants, _).
        rbind (fold_result (import_step (gs_Nodes s)) grants (gs_Imports s)) (\<lambda>_. Inr ())))"

definition sort_import :: "ImportBinding \<Rightarrow> ImportBinding" where
  "sort_import b = b\<lparr>ib_NodeIDs := sort (ib_NodeIDs b)\<rparr>"

abbreviation canonical_edge :: "Edge \<Rightarrow> string" where
  "canonical_edge e \<equiv> json_text (edge_json e)"

abbreviation canonical_output :: "Output \<Rightarrow> string" where
  "canonical_output o' \<equiv> json_text (output_json o')"

definition slashed :: "string \<Rightarrow> string \<Rightarrow> string" where
  "slashed a b = a @ ''/'' @ b"

definition edge_condition_ok :: "Operator \<Rightarrow> Edge \<Rightarrow> bool" where
  "edge_condition_ok op e =
     (case findPort (op_Outputs op) (eg_FromPort e) of
        None \<Rightarrow> False
      | Some port \<Rightarrow> op_Kind op = ''command'' \<and> po_Schema port = ''verdict-v1'')"

text \<open>The inputs bound by data edges, as \<open>node/port\<close>.\<close>

definition edge_type_ok :: "Operator \<Rightarrow> Operator \<Rightarrow> string list \<Rightarrow> Edge \<Rightarrow> string list result" where
  "edge_type_ok opf opt bound e =
     (if eg_Type e = ''artifact'' \<or> eg_Type e = ''memory'' then
        (case (findPort (op_Outputs opf) (eg_FromPort e), findPort (op_Inputs opt) (eg_ToPort e)) of
           (Some a, Some b) \<Rightarrow>
             if po_Schema a \<noteq> po_Schema b then Inl (invalid ''edge port or schema'')
             else if slashed (eg_ToNode e) (eg_ToPort e) \<in> set bound then Inl (invalid ''duplicate input binding'')
             else Inr (slashed (eg_ToNode e) (eg_ToPort e) # bound)
         | _ \<Rightarrow> Inl (invalid ''edge port or schema''))
      else if eg_Type e = ''control'' then
        (if eg_ToPort e \<noteq> [] then Inl (invalid ''control input port'')
         else if eg_When e \<noteq> [] then
           (if findPort (op_Outputs opf) (eg_FromPort e) = None then Inl (invalid ''condition port'') else Inr bound)
         else if eg_FromPort e \<noteq> [] then Inl (invalid ''control output port'')
         else Inr bound)
      else Inl (invalid ''edge type''))"

text \<open>The operator of a declared node; an accepted node has one.\<close>

definition op_of :: "Operator list \<Rightarrow> Node list \<Rightarrow> string \<Rightarrow> Operator option" where
  "op_of ops nodes i = (case find_node nodes i of None \<Rightarrow> None | Some n \<Rightarrow> find_op ops (nd_Operator n))"

definition edge_step ::
  "Operator list \<Rightarrow> Node list \<Rightarrow> string list \<times> string list \<times> (string \<times> string) list \<Rightarrow> Edge \<Rightarrow>
   (string list \<times> string list \<times> (string \<times> string) list) result" where
  "edge_step ops nodes = (\<lambda>(seen, bound, conds) e.
     (case (op_of ops nodes (eg_FromNode e), op_of ops nodes (eg_ToNode e)) of
        (Some opf, Some opt) \<Rightarrow>
          if eg_FromNode e = eg_ToNode e then Inl (invalid ''edge node'')
          else if canonical_edge e \<in> set seen then Inl (invalid ''duplicate edge'')
          else if eg_When e \<notin> {[], ''PASS'', ''FAIL'', ''UNKNOWN''} then Inl (invalid ''edge condition'')
          else if eg_When e \<noteq> [] \<and> \<not> edge_condition_ok opf e
          then Inl (invalid ''condition requires trusted verdict-v1 command output'')
          else rbind (edge_type_ok opf opt bound e) (\<lambda>bound'.
            Inr (canonical_edge e # seen, bound',
                 if eg_When e \<noteq> [] then (slashed (eg_FromNode e) (eg_FromPort e), eg_When e) # conds else conds))
      | _ \<Rightarrow> Inl (invalid ''edge node'')))"

definition edges_ok :: "GraphSpec \<Rightarrow> unit result" where
  "edges_ok s =
     rbind (fold_result (edge_step (gs_Operators s) (gs_Nodes s)) ([], [], []) (gs_Edges s)) (\<lambda>(_, bound, conds).
       if \<not> list_all (\<lambda>(g, _). list_all (\<lambda>w. (g, w) \<in> set conds) [''PASS'', ''FAIL'', ''UNKNOWN'']) conds
       then Inl (invalid ''conditional output requires explicit PASS/FAIL/UNKNOWN handlers'')
       else if \<not> list_all (\<lambda>n. list_all (\<lambda>p. slashed (nd_ID n) (po_Name p) \<in> set bound)
                (case find_op (gs_Operators s) (nd_Operator n) of None \<Rightarrow> [] | Some op \<Rightarrow> op_Inputs op)) (gs_Nodes s)
       then Inl (invalid ''unbound required input'')
       else Inr ())"

text \<open>
  Kahn's traversal. \<open>indegree\<close> is a map with its keys in a list: \<open>delete\<close> removes a key and \<open>indegree[child]--\<close>
  would create a missing one. Every round appends one id, so the loop runs once per node.
\<close>

fun decrement :: "(string \<times> int) list \<Rightarrow> string \<Rightarrow> (string \<times> int) list" where
  "decrement [] i = [(i, -1)]"
| "decrement ((j, n) # m) i = (if j = i then (j, n - 1) # m else (j, n) # decrement m i)"

primrec kahn :: "(string \<Rightarrow> string list) \<Rightarrow> nat \<Rightarrow> (string \<times> int) list \<Rightarrow> string list result" where
  "kahn succs 0 indegree = Inr []"
| "kahn succs (Suc k) indegree =
     (case sort (map fst (filter (\<lambda>(i, n). n = 0) indegree)) of
        [] \<Rightarrow> Inl (invalid ''cycle'')
      | i # _ \<Rightarrow>
          rbind (kahn succs k (foldl decrement (filter (\<lambda>(j, n). j \<noteq> i) indegree) (succs i)))
            (\<lambda>rest. Inr (i # rest)))"

definition next_nodes :: "Edge list \<Rightarrow> string \<Rightarrow> string list" where
  "next_nodes edges i = map eg_ToNode (filter (\<lambda>e. eg_FromNode e = i) edges)"

definition indegrees :: "Edge list \<Rightarrow> string list \<Rightarrow> (string \<times> int) list" where
  "indegrees edges ids = map (\<lambda>i. (i, int (length (filter (\<lambda>e. eg_ToNode e = i) edges)))) ids"

definition plan_order :: "GraphSpec \<Rightarrow> string list result" where
  "plan_order s =
     kahn (next_nodes (gs_Edges s)) (length (gs_Nodes s)) (indegrees (gs_Edges s) (map nd_ID (gs_Nodes s)))"

definition output_step :: "Operator list \<Rightarrow> Node list \<Rightarrow> string list \<Rightarrow> Output \<Rightarrow> string list result" where
  "output_step ops nodes seen o' =
     (case op_of ops nodes (ou_Node o') of
        None \<Rightarrow> Inl (invalid ''output node'')
      | Some op \<Rightarrow>
          if findPort (op_Outputs op) (ou_Port o') = None then Inl (invalid ''output port'')
          else if slashed (ou_Node o') (ou_Port o') \<in> set seen then Inl (invalid ''duplicate graph output'')
          else Inr (slashed (ou_Node o') (ou_Port o') # seen))"

definition normalize :: "GraphSpec \<Rightarrow> GraphSpec" where
  "normalize s = s
     \<lparr>gs_Reuse := sort_key rb_NodeID (gs_Reuse s), gs_Imports := sort_key ib_GrantID (map sort_import (gs_Imports s)),
      gs_Sources := sort_key so_ID (map hash_source (gs_Sources s)), gs_Operators := sort_key op_ID (gs_Operators s),
      gs_Nodes := sort_key nd_ID (gs_Nodes s), gs_Edges := sort_key canonical_edge (gs_Edges s),
      gs_Outputs := sort_key canonical_output (gs_Outputs s)\<rparr>"

definition plan_of :: "GraphSpec \<Rightarrow> string list \<Rightarrow> Plan" where
  "plan_of s order =
     (let l = gs_Limits s; metered = gl_MaxCostUnits l \<noteq> None in
      \<lparr>pl_Spec = s, pl_Digest = Hash (json_text (spec_json s)), pl_Order = order, pl_RequestedParallelism = gl_Parallelism l,
       pl_EffectiveParallelism = (if metered then 1 else gl_Parallelism l),
       pl_BudgetMode = (if metered then ''claude_estimated_cost_serial'' else ''unmetered'')\<rparr>)"

definition declarations_ok :: "(string \<Rightarrow> string option) \<Rightarrow> GraphSpec \<Rightarrow> unit result" where
  "declarations_ok resolve s =
     rbind (fold_result source_step [] (gs_Sources s)) (\<lambda>_.
       rbind (check_all (span_ok (source_map (gs_Sources s))) (gs_Rules s)) (\<lambda>_.
         if length (gs_Schemas s) < 1 \<or> length (gs_Schemas s) > 64 then Inl (invalid ''frozen schemas required'')
         else rbind (check_all (schema_ok resolve) (gs_Schemas s)) (\<lambda>_.
           rbind (fold_result (operator_step (gs_Limits s) (gs_Schemas s)) [] (gs_Operators s)) (\<lambda>_.
             rbind (fold_result (node_step (gs_Version s) (source_map (gs_Sources s)) (gs_Operators s)) [] (gs_Nodes s))
               (\<lambda>_. Inr ())))))"

definition Compile :: "(string \<Rightarrow> string option) \<Rightarrow> nat \<Rightarrow> GraphSpec \<Rightarrow> Plan result" where
  "Compile resolve rawLen s =
     (if rawLen > 262144 then Inl (invalid ''request limit'')
      else rbind (header_ok s) (\<lambda>_.
        rbind (declarations_ok resolve s) (\<lambda>_.
          rbind (bindings_ok s) (\<lambda>_.
            rbind (edges_ok s) (\<lambda>_.
              rbind (plan_order s) (\<lambda>order.
                rbind (fold_result (output_step (gs_Operators s) (gs_Nodes s)) [] (gs_Outputs s)) (\<lambda>_.
                  rbind (ValidateCoverage s) (\<lambda>_. Inr (plan_of (normalize s) order)))))))))"

section \<open>Lowering a Job\<close>

definition legacy_operator :: "string \<Rightarrow> Execution \<Rightarrow> Port list \<Rightarrow> Operator" where
  "legacy_operator i e inputs = \<lparr>op_ID = i, op_Version = ''legacy-v02'', op_Kind = ''agent'', op_Inputs = inputs,
     op_Outputs = [\<lparr>po_Name = ''result'', po_Schema = ''legacy-result-bundle-v1''\<rparr>], op_Execution = Some e, op_CommandProfile = []\<rparr>"

definition legacy_node :: "string \<Rightarrow> string \<Rightarrow> string list \<Rightarrow> Node" where
  "legacy_node i text scopes = \<lparr>nd_ContextPolicy = None, nd_Rules = [], nd_ReplayProfile = [], nd_ID = i, nd_Operator = i,
     nd_Instructions = text, nd_Spans = [], nd_ScopePaths = scopes, nd_JoinPolicy = [], nd_Parameters = []\<rparr>"

definition map_id :: "string \<Rightarrow> string" where
  "map_id key = (let i = ''map_'' @ key in if length i > 64 then ''map_'' @ take 60 (Hash key) else i)"

definition legacy_spec :: "Spec \<Rightarrow> GraphSpec" where
  "legacy_spec s = \<lparr>gs_Coverage = None, gs_Reuse = [], gs_Imports = [], gs_Schemas = [(''legacy-result-bundle-v1'', [CHR 0x7B, CHR 0x7D])],
     gs_Evaluator = \<lparr>ev_Profile = ''job-artifact-v1'', ev_Version = ''1''\<rparr>, gs_Version = ''iu-graph-v1'', gs_ProjectID = sp_ProjectID s,
     gs_Workspace = sp_Workspace s, gs_Sources = [], gs_Rules = [], gs_Operators = [], gs_Nodes = [], gs_Edges = [], gs_Outputs = [],
     gs_Limits = \<lparr>gl_Parallelism = 1, gl_TimeoutSeconds = lm_TimeoutSeconds (sp_Limits s),
       gl_MaxAttemptsPerTask = lm_MaxAttemptsPerTask (sp_Limits s), gl_MaxReplans = 0, gl_MaxCostUnits = None, gl_MaxTokens = None\<rparr>\<rparr>"

definition two_lines :: "string \<Rightarrow> string \<Rightarrow> string" where
  "two_lines a b = a @ [CHR 0x0A, CHR 0x0A] @ b"

text \<open>\<open>None\<close> is a nil pointer, which an accepted request of that mode does not have.\<close>

definition Lower :: "Spec \<Rightarrow> GraphSpec option result" where
  "Lower spec =
     rbind (Spec_Validate spec 32 8) (\<lambda>s.
       let g = legacy_spec s in
       if sp_Mode s = ''single'' then
         (case sp_Execution s of
            None \<Rightarrow> Inr None
          | Some e \<Rightarrow> Inr (Some (g\<lparr>gs_Operators := [legacy_operator ''single'' e []],
              gs_Nodes := [legacy_node ''single'' (in_Text (sp_Input s)) []],
              gs_Outputs := [\<lparr>ou_Node = ''single'', ou_Port = ''result''\<rparr>]\<rparr>)))
       else (case (sp_Map s, sp_Reduce s) of
           (Some m, Some r) \<Rightarrow>
             if length (mp_Partitions m) > 31 then Inl (invalid ''legacy lowering requires at most 31 maps plus reduce'')
             else Inr (Some (g
               \<lparr>gs_Limits := (gs_Limits g)\<lparr>gl_Parallelism := mp_Parallelism m\<rparr>,
                gs_Operators := map (\<lambda>p. legacy_operator (map_id (pt_Key p)) (pt_Execution p) []) (mp_Partitions m) @
                  [legacy_operator ''reduce'' (rd_Execution r)
                     (map (\<lambda>p. \<lparr>po_Name = pt_Key p, po_Schema = ''legacy-result-bundle-v1''\<rparr>) (mp_Partitions m))],
                gs_Nodes := map (\<lambda>p. legacy_node (map_id (pt_Key p))
                    (two_lines (in_Text (sp_Input s)) (in_Text (pt_Input p))) (pt_ScopePaths p)) (mp_Partitions m) @
                  [legacy_node ''reduce'' (two_lines (in_Text (sp_Input s)) (in_Text (rd_Input r))) []],
                gs_Edges := map (\<lambda>p. \<lparr>eg_FromNode = map_id (pt_Key p), eg_FromPort = ''result'', eg_ToNode = ''reduce'',
                    eg_ToPort = pt_Key p, eg_Type = ''artifact'', eg_When = []\<rparr>) (mp_Partitions m),
                gs_Outputs := [\<lparr>ou_Node = ''reduce'', ou_Port = ''result''\<rparr>]\<rparr>))
         | _ \<Rightarrow> Inr None))"

section \<open>Contexts\<close>

record InputValue =
  iv_SourcePort :: string
  iv_Node :: string
  iv_Port :: string
  iv_ArtifactID :: string
  iv_SHA256 :: string
  iv_Value :: string

text \<open>A nil \<open>Inputs\<close> is \<open>None\<close>: it is written as \<open>null\<close>, an empty slice as \<open>[]\<close>.\<close>

record ContextRequest =
  cq_Policy :: "ContextPolicy option"
  cq_OutputSchema :: string
  cq_Parameters :: string
  cq_Sources :: "Source list"
  cq_Rules :: "Span list"
  cq_Spans :: "Span list"
  cq_Instructions :: string
  cq_View :: MemoryView
  cq_Inputs :: "InputValue list option"
  cq_Model :: string

record ContextManifest =
  cm_Version :: string
  cm_Text :: string
  cm_SHA256 :: string
  cm_ReadViewHash :: string
  cm_InputFingerprint :: string
  cm_Spans :: "Span list"
  cm_Model :: string
  cm_TokenCount :: "int option"
  cm_TokenCoverage :: string

record contextSpan =
  cs_Role :: string
  cs_MessageIndex :: int
  cs_Span :: Span
  cs_Text :: string

definition context_span_json :: "contextSpan \<Rightarrow> json" where
  "context_span_json c = JObj (opt_str ''role'' (cs_Role c) @ [(''message_index'', JInt (cs_MessageIndex c)),
     (''source'', span_json (cs_Span c)), (''text'', JStr (cs_Text c))])"

definition input_value_json :: "InputValue \<Rightarrow> json" where
  "input_value_json v = JObj (opt_str ''source_port'' (iv_SourcePort v) @ [(''node'', JStr (iv_Node v)), (''port'', JStr (iv_Port v)),
     (''artifact_id'', JStr (iv_ArtifactID v)), (''sha256'', JStr (iv_SHA256 v)), (''value'', JStr (iv_Value v))])"

text \<open>A slice built by \<open>append\<close> from nil: null when nothing was appended.\<close>

definition arr_or_null :: "json list \<Rightarrow> json" where
  "arr_or_null xs = (if xs = [] then JNull else JArr xs)"

definition body_json :: "ContextRequest \<Rightarrow> contextSpan list \<Rightarrow> contextSpan list \<Rightarrow> json" where
  "body_json r rules local =
     JObj ([(''version'', JStr ''iu-context-v1''), (''instructions'', JStr (cq_Instructions r)),
       (''rules'', arr_or_null (map context_span_json rules)), (''local'', arr_or_null (map context_span_json local)),
       (''memory'', view_json (cq_View r)),
       (''inputs'', case cq_Inputs r of None \<Rightarrow> JNull | Some vs \<Rightarrow> JArr (map input_value_json vs))] @
       opt_raw ''parameters'' (cq_Parameters r) @ opt_raw ''output_schema'' (cq_OutputSchema r))"

text \<open>The loop over the sources of the request.\<close>

definition context_source_step :: "string list \<Rightarrow> Source \<Rightarrow> string list result" where
  "context_source_step seen src =
     (if so_ID src \<in> set seen \<or> \<not> utf8_valid (so_Text src) then Inl (invalid ''source'')
      else if so_SHA256 src \<noteq> [] \<and> so_SHA256 src \<noteq> Hash (so_Text src) then Inl (invalid ''source hash'')
      else Inr (so_ID src # seen))"

definition insufficient :: "error \<Rightarrow> string \<Rightarrow> error" where
  "insufficient e prefix_text = (case e of Error t \<Rightarrow> Error (''CONTEXT_INSUFFICIENT: '' @ prefix_text @ t) | _ \<Rightarrow> e)"

definition evidence_ok :: "ContextRequest \<Rightarrow> Span \<Rightarrow> unit result" where
  "evidence_ok r required =
     (case readSpan (source_map (cq_Sources r)) required of
        Inl e \<Rightarrow> Inl (insufficient e ''required evidence: '')
      | Inr _ \<Rightarrow>
          if \<not> requiredEvidenceCovered required (cq_Rules r @ cq_Spans r)
          then Inl (Error ''CONTEXT_INSUFFICIENT: required evidence missing'')
          else Inr ())"

definition policy_ok :: "ContextRequest \<Rightarrow> unit result" where
  "policy_ok r =
     (case cq_Policy r of
        None \<Rightarrow> Inr ()
      | Some p \<Rightarrow> rbind (ContextPolicy_Validate p) (\<lambda>_. check_all (evidence_ok r) (cp_RequiredEvidence p)))"

definition max_bytes :: "ContextRequest \<Rightarrow> int" where
  "max_bytes r = (case cq_Policy r of None \<Rightarrow> 65536 | Some p \<Rightarrow> if cp_MaxBytes p > 0 then cp_MaxBytes p else 65536)"

definition segment_step :: "Source list \<Rightarrow> contextSpan list \<Rightarrow> Span \<Rightarrow> contextSpan list result" where
  "segment_step sources out sp =
     (case readSpan (source_map sources) sp of
        Inl e \<Rightarrow> Inl (insufficient e [])
      | Inr text \<Rightarrow>
          (case source_map sources (sn_Source sp) of
             None \<Rightarrow> Inl (invalid ''source span'')
           | Some src \<Rightarrow> Inr (out @ [\<lparr>cs_Role = so_Role src, cs_MessageIndex = so_MessageIndex src, cs_Span = sp, cs_Text = text\<rparr>])))"

definition CompileContext :: "ContextRequest \<Rightarrow> ContextManifest result" where
  "CompileContext r =
     (if \<not> utf8_valid (cq_Instructions r) \<or> cq_Model r = [] then Inl (Error ''CONTEXT_INVALID'')
      else rbind (fold_result context_source_step [] (cq_Sources r)) (\<lambda>_.
        rbind (validateView (cq_View r)) (\<lambda>_.
          rbind (policy_ok r) (\<lambda>_.
            rbind (fold_result (segment_step (cq_Sources r)) [] (cq_Rules r)) (\<lambda>rules.
              rbind (fold_result (segment_step (cq_Sources r)) [] (cq_Spans r)) (\<lambda>local.
                if \<not> list_all (\<lambda>v. utf8_valid (iv_Value v) \<and> iv_SHA256 v = Hash (iv_Value v))
                      (case cq_Inputs r of None \<Rightarrow> [] | Some vs \<Rightarrow> vs)
                then Inl (invalid ''context input hash'')
                else let raw = json_text (body_json r rules local) in
                  if int (length raw) > max_bytes r
                  then Inl (Error ''CONTEXT_INSUFFICIENT: serialized input exceeds byte policy'')
                  else Inr \<lparr>cm_Version = ''iu-context-v1'', cm_Text = raw, cm_SHA256 = Hash raw,
                         cm_ReadViewHash = mv_SHA256 (cq_View r),
                         cm_InputFingerprint = Hash (json_text (JObj [(''Body'', body_json r rules local), (''Model'', JStr (cq_Model r))])),
                         cm_Spans = cq_Rules r @ cq_Spans r, cm_Model = cq_Model r, cm_TokenCount = None,
                         cm_TokenCoverage = ''unknown''\<rparr>))))))"

definition ValidateInput :: "ContextManifest \<Rightarrow> string \<Rightarrow> string \<Rightarrow> unit result" where
  "ValidateInput m model text =
     (if cm_Version m \<noteq> ''iu-context-v1'' \<or> cm_Model m \<noteq> model \<or> cm_Text m \<noteq> text \<or> cm_SHA256 m \<noteq> Hash text \<or>
         cm_InputFingerprint m \<noteq> Hash (json_text (JObj [(''Body'', JRaw text), (''Model'', JStr model)]))
      then Inl (Error ''IU_CONTEXT_MISMATCH'') else Inr ())"

section \<open>Recovery\<close>

definition keeps_spans :: "Span list \<Rightarrow> Span list \<Rightarrow> bool" where
  "keeps_spans base new = list_all (\<lambda>sp. requiredEvidenceCovered sp new) base"

text \<open>The loop over the new nodes: whether anything was added, and the nodes with the three fields reset.\<close>

definition recovery_step :: "Node list \<Rightarrow> bool \<times> Node list \<Rightarrow> Node \<Rightarrow> (bool \<times> Node list) result" where
  "recovery_step old = (\<lambda>(changed, out) v.
     (case find_node old (nd_ID v) of
        None \<Rightarrow> Inl (invalid ''recovery instructions'')
      | Some base \<Rightarrow>
          if \<not> utf8_valid (nd_Instructions v) \<or> \<not> prefix (nd_Instructions base) (nd_Instructions v) \<or>
             int (length (nd_Instructions v)) - int (length (nd_Instructions base)) > 8192
          then Inl (invalid ''recovery instructions'')
          else if \<not> keeps_spans (nd_Spans base) (nd_Spans v) \<or> \<not> keeps_spans (nd_Rules base) (nd_Rules v)
          then Inl (invalid ''recovery removes required source'')
          else Inr (changed \<or> nd_Instructions v \<noteq> nd_Instructions base \<or> \<not> keeps_spans (nd_Spans v) (nd_Spans base) \<or>
                      \<not> keeps_spans (nd_Rules v) (nd_Rules base),
                    out @ [v\<lparr>nd_Instructions := nd_Instructions base, nd_Spans := nd_Spans base, nd_Rules := nd_Rules base\<rparr>])))"

definition ValidateRecovery :: "(string \<Rightarrow> string option) \<Rightarrow> nat \<Rightarrow> GraphSpec \<Rightarrow> GraphSpec \<Rightarrow> unit result" where
  "ValidateRecovery resolve rawLen prior next =
     (if gs_Version prior \<noteq> ''iu-graph-v5'' \<or> gs_Version next \<noteq> ''iu-graph-v5'' \<or> length (gs_Nodes prior) \<noteq> length (gs_Nodes next)
      then Inl (invalid ''recovery version or nodes'')
      else rbind (fold_result (recovery_step (gs_Nodes prior)) (False, []) (gs_Nodes next)) (\<lambda>(changed, nodes).
        if \<not> changed \<or> json_text (spec_json prior) \<noteq> json_text (spec_json (next\<lparr>gs_Nodes := nodes\<rparr>))
        then Inl (invalid ''recovery unsupported change'')
        else rbind (Compile resolve rawLen next) (\<lambda>_. Inr ())))"


section \<open>The traversal\<close>

definition edge_rel :: "Edge list \<Rightarrow> (string \<times> string) set" where
  "edge_rel edges = (\<lambda>e. (eg_FromNode e, eg_ToNode e)) ` set edges"

definition edges_within :: "Edge list \<Rightarrow> string set \<Rightarrow> bool" where
  "edges_within edges ids \<longleftrightarrow> (\<forall>e\<in>set edges. eg_FromNode e \<in> ids \<longrightarrow> eg_ToNode e \<in> ids)"

definition degree :: "Edge list \<Rightarrow> string set \<Rightarrow> string \<Rightarrow> int" where
  "degree edges R j = int (length (filter (\<lambda>e. eg_FromNode e \<in> R \<and> eg_ToNode e = j) edges))"

text \<open>The map \<open>indegree\<close> while the ids \<open>ids\<close> are left.\<close>

definition degrees :: "Edge list \<Rightarrow> string list \<Rightarrow> (string \<times> int) list" where
  "degrees edges ids = map (\<lambda>j. (j, degree edges (set ids) j)) ids"

lemma decrement_map:
  assumes "distinct (map fst m)" "i \<in> fst ` set m"
  shows "decrement m i = map (\<lambda>(j, n). (j, if j = i then n - 1 else n)) m"
  using assms
proof (induction m i rule: decrement.induct)
  case (2 j n m i)
  show ?case
  proof (cases "j = i")
    case True
    have "map (\<lambda>(j, n). (j, if j = i then n - 1 else n)) m = map (\<lambda>p. p) m"
      using 2(2) True by (intro map_cong) (auto simp: rev_image_eqI)
    with True show ?thesis by simp
  next
    case False
    with 2 show ?thesis by auto
  qed
qed simp

lemma foldl_decrement:
  assumes "distinct (map fst m)" "set cs \<subseteq> fst ` set m"
  shows "foldl decrement m cs = map (\<lambda>(j, n). (j, n - int (count_list cs j))) m"
  using assms
proof (induction cs arbitrary: m)
  case Nil
  then show ?case by (simp add: case_prod_beta)
next
  case (Cons c cs)
  let ?m = "map (\<lambda>(j, n). (j, if j = c then n - 1 else n)) m"
  have keys: "map fst ?m = map fst m" by (simp add: case_prod_beta comp_def)
  have "foldl decrement m (c # cs) = foldl decrement ?m cs" using Cons.prems by (simp add: decrement_map)
  also have "\<dots> = map (\<lambda>(j, n). (j, n - int (count_list cs j))) ?m"
    using Cons.prems by (intro Cons.IH) (simp only: keys, metis keys list.set_map set_subset_Cons subset_trans)
  also have "\<dots> = map (\<lambda>(j, n). (j, n - int (count_list (c # cs) j))) m" by (simp add: case_prod_beta comp_def)
  finally show ?case .
qed

lemma count_next: "count_list (next_nodes edges i) j = length (filter (\<lambda>e. eg_FromNode e = i \<and> eg_ToNode e = j) edges)"
  by (induction edges) (simp_all add: next_nodes_def)

lemma degree_split:
  "i \<in> R \<Longrightarrow> degree edges R j = degree edges (R - {i}) j + int (count_list (next_nodes edges i) j)"
  unfolding degree_def count_next by (induction edges) auto

lemma degrees_step:
  assumes "distinct ids" "i \<in> set ids" "edges_within edges (set ids)" "degree edges (set ids) i = 0"
  shows "foldl decrement (filter (\<lambda>(j, n). j \<noteq> i) (degrees edges ids)) (next_nodes edges i) = degrees edges (remove1 i ids)"
    and "edges_within edges (set (remove1 i ids))"
proof -
  have none: "\<not> (eg_FromNode e \<in> set ids \<and> eg_ToNode e = i)" if "e \<in> set edges" for e
    using assms(4) that by (auto simp: degree_def filter_empty_conv)
  have rm: "remove1 i ids = filter (\<lambda>j. j \<noteq> i) ids"
    using assms(1) by (simp add: distinct_remove1_removeAll removeAll_filter_not_eq eq_commute)
  have set: "set (remove1 i ids) = set ids - {i}" using assms(1) by simp
  have f: "filter (\<lambda>(j, n). j \<noteq> i) (degrees edges ids) = map (\<lambda>j. (j, degree edges (set ids) j)) (remove1 i ids)"
    by (simp add: degrees_def rm filter_map comp_def)
  have "foldl decrement (map (\<lambda>j. (j, degree edges (set ids) j)) (remove1 i ids)) (next_nodes edges i) =
      map (\<lambda>(j, n). (j, n - int (count_list (next_nodes edges i) j))) (map (\<lambda>j. (j, degree edges (set ids) j)) (remove1 i ids))"
  proof (rule foldl_decrement)
    show "distinct (map fst (map (\<lambda>j. (j, degree edges (set ids) j)) (remove1 i ids)))"
      using assms(1) by (simp add: comp_def)
    show "set (next_nodes edges i) \<subseteq> fst ` set (map (\<lambda>j. (j, degree edges (set ids) j)) (remove1 i ids))"
      using assms(2,3) none unfolding next_nodes_def edges_within_def by (force simp: image_image set)
  qed
  also have "\<dots> = degrees edges (remove1 i ids)"
    unfolding degrees_def set using assms(2) degree_split [of i "set ids" edges] by simp
  finally show "foldl decrement (filter (\<lambda>(j, n). j \<noteq> i) (degrees edges ids)) (next_nodes edges i) = degrees edges (remove1 i ids)"
    by (simp only: f)
  show "edges_within edges (set (remove1 i ids))"
    using assms(3) none unfolding edges_within_def set by auto
qed

lemma ready_eq: "map fst (filter (\<lambda>(i, n). n = 0) (degrees edges ids)) = filter (\<lambda>j. degree edges (set ids) j = 0) ids"
  by (simp add: degrees_def filter_map comp_def)

lemma kahn_Suc:
  assumes "distinct ids" "edges_within edges (set ids)" "length ids = Suc k"
  shows "kahn (next_nodes edges) (Suc k) (degrees edges ids) =
    (case sort (filter (\<lambda>j. degree edges (set ids) j = 0) ids) of
       [] \<Rightarrow> Inl (invalid ''cycle'')
     | i # _ \<Rightarrow> rbind (kahn (next_nodes edges) k (degrees edges (remove1 i ids))) (\<lambda>rest. Inr (i # rest)))"
proof (cases "sort (filter (\<lambda>j. degree edges (set ids) j = 0) ids)")
  case (Cons i js)
  then have "i \<in> set (filter (\<lambda>j. degree edges (set ids) j = 0) ids)" by (metis list.set_intros(1) set_sort)
  then have "i \<in> set ids" "degree edges (set ids) i = 0" by auto
  then show ?thesis using Cons degrees_step(1) [OF assms(1) _ assms(2)] by (simp add: ready_eq)
qed (simp add: ready_eq)

text \<open>The order found: a permutation in which no edge goes back.\<close>

lemma kahn_sound:
  assumes "distinct ids" "edges_within edges (set ids)" "kahn (next_nodes edges) (length ids) (degrees edges ids) = Inr order"
  shows "set order = set ids \<and> distinct order \<and> sorted_wrt (\<lambda>a b. (b, a) \<notin> edge_rel edges) order \<and>
    (\<forall>i\<in>set ids. (i, i) \<notin> edge_rel edges)"
  using assms
proof (induction "length ids" arbitrary: ids order)
  case (Suc k)
  obtain i js rest
    where c: "sort (filter (\<lambda>j. degree edges (set ids) j = 0) ids) = i # js"
      and rest: "kahn (next_nodes edges) k (degrees edges (remove1 i ids)) = Inr rest" and order: "order = i # rest"
    using Suc(5) unfolding Suc(2) [symmetric] kahn_Suc [OF Suc(3,4) Suc(2) [symmetric]]
    by (auto simp: rbind_eq_Inr_iff split: list.splits)
  have "i \<in> set (filter (\<lambda>j. degree edges (set ids) j = 0) ids)" using c by (metis list.set_intros(1) set_sort)
  then have i: "i \<in> set ids" "degree edges (set ids) i = 0" by auto
  have len: "k = length (remove1 i ids)" using Suc(2) i by (simp add: length_remove1)
  have ih: "set rest = set (remove1 i ids) \<and> distinct rest \<and> sorted_wrt (\<lambda>a b. (b, a) \<notin> edge_rel edges) rest \<and>
      (\<forall>j\<in>set (remove1 i ids). (j, j) \<notin> edge_rel edges)"
    by (rule Suc(1) [OF len distinct_remove1 [OF Suc(3)] degrees_step(2) [OF Suc(3) i(1) Suc(4) i(2)] rest [unfolded len]])
  have none: "(j, i) \<notin> edge_rel edges" if "j \<in> set ids" for j
    using i(2) that by (auto simp: degree_def edge_rel_def filter_empty_conv)
  have "set (remove1 i ids) = set ids - {i}" using Suc(3) by simp
  with ih i none show ?case by (auto simp: order)
qed simp

lemma kahn_complete:
  assumes "distinct ids" "edges_within edges (set ids)" "acyclic (edge_rel edges)"
  shows "\<exists>order. kahn (next_nodes edges) (length ids) (degrees edges ids) = Inr order"
  using assms
proof (induction "length ids" arbitrary: ids)
  case (Suc k)
  have "wf (edge_rel edges)" using Suc(5) by (intro finite_acyclic_wf) (simp_all add: edge_rel_def)
  moreover obtain x where "x \<in> set ids" using Suc(2) by (cases ids) auto
  ultimately obtain i where i: "i \<in> set ids" "\<And>j. (j, i) \<in> edge_rel edges \<Longrightarrow> j \<notin> set ids"
    by (rule wfE_min) blast
  then have "degree edges (set ids) i = 0" by (auto simp: degree_def edge_rel_def filter_empty_conv)
  with i have "i \<in> set (sort (filter (\<lambda>j. degree edges (set ids) j = 0) ids))" by simp
  then obtain i' js where c: "sort (filter (\<lambda>j. degree edges (set ids) j = 0) ids) = i' # js"
    by (cases "sort (filter (\<lambda>j. degree edges (set ids) j = 0) ids)") auto
  have "i' \<in> set (filter (\<lambda>j. degree edges (set ids) j = 0) ids)" using c by (metis list.set_intros(1) set_sort)
  then have i': "i' \<in> set ids" "degree edges (set ids) i' = 0" by auto
  have len: "k = length (remove1 i' ids)" using Suc(2) i' by (simp add: length_remove1)
  have "\<exists>rest. kahn (next_nodes edges) k (degrees edges (remove1 i' ids)) = Inr rest"
    using Suc(1) [OF len] Suc(3,5) degrees_step(2) [OF Suc(3) i'(1) Suc(4) i'(2)] len by simp
  then show ?case
    using kahn_Suc [OF Suc(3,4) Suc(2) [symmetric]] c unfolding Suc(2) [symmetric] by auto
qed simp

lemma kahn_only_cycle:
  assumes "distinct ids" "edges_within edges (set ids)" "kahn (next_nodes edges) (length ids) (degrees edges ids) = Inl e"
  shows "e = invalid ''cycle''"
  using assms
proof (induction "length ids" arbitrary: ids)
  case (Suc k)
  show ?case
  proof (cases "sort (filter (\<lambda>j. degree edges (set ids) j = 0) ids)")
    case Nil
    then show ?thesis using Suc(5) kahn_Suc [OF Suc(3,4) Suc(2) [symmetric]] unfolding Suc(2) [symmetric] by simp
  next
    case (Cons i js)
    then have "i \<in> set (filter (\<lambda>j. degree edges (set ids) j = 0) ids)" by (metis list.set_intros(1) set_sort)
    then have i: "i \<in> set ids" "degree edges (set ids) i = 0" by auto
    have len: "k = length (remove1 i ids)" using Suc(2) i by (simp add: length_remove1)
    have "kahn (next_nodes edges) k (degrees edges (remove1 i ids)) = Inl e"
      using Suc(5) Cons unfolding Suc(2) [symmetric] kahn_Suc [OF Suc(3,4) Suc(2) [symmetric]] by (simp add: rbind_eq_Inl_iff)
    then show ?thesis
      using Suc(1) [OF len] Suc(3) degrees_step(2) [OF Suc(3) i(1) Suc(4) i(2)] len by simp
  qed
qed simp

lemma sorted_wrt_acyclic:
  assumes "distinct order" "sorted_wrt (\<lambda>a b. (b, a) \<notin> R) order" "R \<subseteq> set order \<times> set order" "\<forall>i\<in>set order. (i, i) \<notin> R"
  shows "acyclic R"
proof -
  have "R \<subseteq> inv_image less_than (\<lambda>x. THE n. n < length order \<and> order ! n = x)"
  proof
    fix p assume "p \<in> R"
    obtain a b where p: "p = (a, b)" by force
    then have "a \<in> set order" "b \<in> set order" using \<open>p \<in> R\<close> assms(3) by auto
    then obtain m n where mn: "m < length order" "n < length order" "order ! m = a" "order ! n = b"
      by (metis in_set_conv_nth)
    have uniq: "(THE n. n < length order \<and> order ! n = order ! k) = k" if "k < length order" for k
      using that assms(1) by (intro the_equality) (auto simp: nth_eq_iff_index_eq)
    have "\<not> n < m" using assms(2) mn p \<open>p \<in> R\<close> by (auto simp: sorted_wrt_iff_nth_less)
    moreover have "m \<noteq> n" using assms(4) mn p \<open>p \<in> R\<close> by auto
    ultimately show "p \<in> inv_image less_than (\<lambda>x. THE n. n < length order \<and> order ! n = x)"
      using mn uniq p by (auto simp: inv_image_def)
  qed
  then have "wf R" by (rule wf_subset [rotated]) simp
  then show ?thesis by (rule wf_acyclic)
qed


section \<open>The loops of Compile\<close>

lemma source_step_iff:
  "source_step seen src = Inr r \<longleftrightarrow>
     (so_MessageIndex src \<ge> 0 \<and> so_Role src \<in> set source_roles \<and> key_pattern (so_ID src) \<and> utf8_valid (so_Text src) \<and>
      (so_SHA256 src = [] \<or> so_SHA256 src = Hash (so_Text src))) \<and> so_ID src \<notin> set seen \<and> r = so_ID src # seen"
  by (auto simp: source_step_def)

lemma port_step_iff:
  "port_step schemas seen p = Inr r \<longleftrightarrow>
     (po_Schema p \<in> fst ` set schemas \<and> key_pattern (po_Name p) \<and> Ref (po_Schema p)) \<and> po_Name p \<notin> set seen \<and> r = po_Name p # seen"
  by (auto simp: port_step_def)

definition operator_fine :: "GraphLimits \<Rightarrow> (string \<times> string) list \<Rightarrow> Operator \<Rightarrow> bool" where
  "operator_fine l schemas op \<longleftrightarrow> key_pattern (op_ID op) \<and> Ref (op_Version op) \<and> length (op_Inputs op) \<le> 32 \<and>
     op_Outputs op \<noteq> [] \<and> length (op_Outputs op) \<le> 32 \<and>
     (\<forall>p\<in>set (op_Inputs op) \<union> set (op_Outputs op). po_Schema p \<in> fst ` set schemas \<and> key_pattern (po_Name p) \<and> Ref (po_Schema p)) \<and>
     distinct (map po_Name (op_Inputs op)) \<and> distinct (map po_Name (op_Outputs op)) \<and> operator_kind_ok l op = Inr ()"

lemma operator_step_iff:
  "operator_step l schemas seen op = Inr r \<longleftrightarrow> operator_fine l schemas op \<and> op_ID op \<notin> set seen \<and> r = op_ID op # seen"
proof -
  have ports: "(\<exists>r. fold_result (port_step schemas) [] ps = Inr r) \<longleftrightarrow>
      (\<forall>p\<in>set ps. po_Schema p \<in> fst ` set schemas \<and> key_pattern (po_Name p) \<and> Ref (po_Schema p)) \<and> distinct (map po_Name ps)" for ps
    by (rule fold_seen_ok) (rule port_step_iff)
  have "check_all (\<lambda>ports. rbind (fold_result (port_step schemas) [] ports) (\<lambda>_. Inr ())) [op_Inputs op, op_Outputs op] = Inr () \<longleftrightarrow>
      (\<exists>r. fold_result (port_step schemas) [] (op_Inputs op) = Inr r) \<and> (\<exists>r. fold_result (port_step schemas) [] (op_Outputs op) = Inr r)"
    by (auto simp: check_all_eq_Inr_iff rbind_eq_Inr_iff)
  then have all: "check_all (\<lambda>ports. rbind (fold_result (port_step schemas) [] ports) (\<lambda>_. Inr ())) [op_Inputs op, op_Outputs op] = Inr () \<longleftrightarrow>
      (\<forall>p\<in>set (op_Inputs op) \<union> set (op_Outputs op). po_Schema p \<in> fst ` set schemas \<and> key_pattern (po_Name p) \<and> Ref (po_Schema p)) \<and>
      distinct (map po_Name (op_Inputs op)) \<and> distinct (map po_Name (op_Outputs op))"
    unfolding ports by blast
  show ?thesis
    unfolding operator_step_def operator_fine_def if_error_iff rbind_eq_Inr_iff unit_all_eq1 unit_all_eq2
    using all by (auto simp: not_less simp del: check_all.simps)
qed

definition node_fine :: "string \<Rightarrow> (string \<rightharpoonup> Source) \<Rightarrow> Operator list \<Rightarrow> Node \<Rightarrow> bool" where
  "node_fine version sources ops n \<longleftrightarrow> node_policy_ok version sources n = Inr () \<and> key_pattern (nd_ID n) \<and>
     utf8_valid (nd_Instructions n) \<and> length (nd_Instructions n) \<le> 65536 \<and> length (nd_Spans n) \<le> 128 \<and>
     length (nd_Rules n) \<le> 128 \<and> length (nd_ScopePaths n) \<le> 64 \<and> (nd_Rules n \<noteq> [] \<longrightarrow> \<not> before_reuse version) \<and>
     (nd_ReplayProfile n \<noteq> [] \<longrightarrow> \<not> before_reuse version \<and> key_pattern (nd_ReplayProfile n)) \<and>
     node_operator_ok ops n = Inr () \<and> (\<forall>sp\<in>set (nd_Spans n @ nd_Rules n). span_ok sources sp = Inr ()) \<and>
     list_all ValidPath (nd_ScopePaths n)"

lemma node_step_iff:
  "node_step version sources ops seen n = Inr r \<longleftrightarrow> node_fine version sources ops n \<and> nd_ID n \<notin> set seen \<and> r = nd_ID n # seen"
  unfolding node_step_def node_fine_def check_all_eq_Inr_iff [symmetric] if_error_iff rbind_eq_Inr_iff
  by (simp add: not_less) blast

lemma output_step_iff:
  "output_step ops nodes seen o' = Inr r \<longleftrightarrow>
     (\<exists>op. op_of ops nodes (ou_Node o') = Some op \<and> findPort (op_Outputs op) (ou_Port o') \<noteq> None) \<and>
     slashed (ou_Node o') (ou_Port o') \<notin> set seen \<and> r = slashed (ou_Node o') (ou_Port o') # seen"
  by (auto simp: output_step_def split: option.splits)

lemma import_step_iff:
  "import_step nodes grants b = Inr r \<longleftrightarrow>
     (key_pattern (ib_GrantID b) \<and> ib_NodeIDs b \<noteq> [] \<and> length (ib_NodeIDs b) \<le> 32 \<and>
      list_all (\<lambda>i. find_node nodes i \<noteq> None) (ib_NodeIDs b) \<and> distinct (ib_NodeIDs b)) \<and>
     ib_GrantID b \<notin> set grants \<and> r = ib_GrantID b # grants"
  by (auto simp: import_step_def not_less)

definition reuse_fine :: "Node list \<Rightarrow> ReuseBinding \<Rightarrow> bool" where
  "reuse_fine nodes b \<longleftrightarrow> (\<exists>n. find_node nodes (rb_NodeID b) = Some n \<and> nd_ReplayProfile n \<noteq> []) \<and> key_pattern (rb_GrantID b)"

lemma reuse_fold_iff:
  "fold_result (reuse_step nodes) (grants, reused) bs = Inr r \<longleftrightarrow>
     (\<forall>b\<in>set bs. reuse_fine nodes b) \<and> distinct (map rb_GrantID bs) \<and> rb_GrantID ` set bs \<inter> set grants = {} \<and>
     distinct (map rb_NodeID bs) \<and> rb_NodeID ` set bs \<inter> set reused = {} \<and>
     r = (rev (map rb_GrantID bs) @ grants, rev (map rb_NodeID bs) @ reused)"
proof (induction bs arbitrary: grants reused)
  case (Cons b bs)
  have "reuse_step nodes (grants, reused) b = Inr t \<longleftrightarrow> reuse_fine nodes b \<and> rb_GrantID b \<notin> set grants \<and>
      rb_NodeID b \<notin> set reused \<and> t = (rb_GrantID b # grants, rb_NodeID b # reused)" for t
    by (auto simp: reuse_step_def reuse_fine_def split: option.splits)
  then have "fold_result (reuse_step nodes) (grants, reused) (b # bs) = Inr r \<longleftrightarrow>
      reuse_fine nodes b \<and> rb_GrantID b \<notin> set grants \<and> rb_NodeID b \<notin> set reused \<and>
      fold_result (reuse_step nodes) (rb_GrantID b # grants, rb_NodeID b # reused) bs = Inr r"
    by (auto simp: rbind_eq_Inr_iff)
  then show ?case unfolding Cons by auto
qed auto

definition data_edge :: "Edge \<Rightarrow> bool" where
  "data_edge e \<longleftrightarrow> eg_Type e = ''artifact'' \<or> eg_Type e = ''memory''"

definition edge_input :: "Edge \<Rightarrow> string" where
  "edge_input e = slashed (eg_ToNode e) (eg_ToPort e)"

definition edge_branch :: "Edge \<Rightarrow> string \<times> string" where
  "edge_branch e = (slashed (eg_FromNode e) (eg_FromPort e), eg_When e)"

definition edge_fine :: "Operator list \<Rightarrow> Node list \<Rightarrow> Edge \<Rightarrow> bool" where
  "edge_fine ops nodes e \<longleftrightarrow>
     (\<exists>opf opt. op_of ops nodes (eg_FromNode e) = Some opf \<and> op_of ops nodes (eg_ToNode e) = Some opt \<and>
        eg_FromNode e \<noteq> eg_ToNode e \<and> eg_When e \<in> {[], ''PASS'', ''FAIL'', ''UNKNOWN''} \<and>
        (eg_When e \<noteq> [] \<longrightarrow> edge_condition_ok opf e) \<and> (\<exists>b. edge_type_ok opf opt [] e = Inr b))"

lemma edge_type_ok_iff:
  "edge_type_ok opf opt bound e = Inr b \<longleftrightarrow>
     (\<exists>b. edge_type_ok opf opt [] e = Inr b) \<and> (data_edge e \<longrightarrow> edge_input e \<notin> set bound) \<and>
     b = (if data_edge e then edge_input e # bound else bound)"
proof (cases "data_edge e")
  case True
  then show ?thesis
    unfolding edge_type_ok_def data_edge_def [symmetric] edge_input_def [symmetric]
    by (auto split: option.splits)
next
  case False
  define ctl where "ctl \<longleftrightarrow> eg_Type e = ''control''"
  from False show ?thesis
    unfolding edge_type_ok_def data_edge_def [symmetric] ctl_def [symmetric]
    by (cases ctl) (auto simp: if_error_iff split: if_splits)
qed

lemma edge_step_iff:
  "edge_step ops nodes (seen, bound, conds) e = Inr t \<longleftrightarrow>
     edge_fine ops nodes e \<and> canonical_edge e \<notin> set seen \<and> (data_edge e \<longrightarrow> edge_input e \<notin> set bound) \<and>
     t = (canonical_edge e # seen, if data_edge e then edge_input e # bound else bound,
          if eg_When e \<noteq> [] then edge_branch e # conds else conds)"
proof -
  have "edge_step ops nodes (seen, bound, conds) e = Inr t \<longleftrightarrow>
     (\<exists>opf opt b. op_of ops nodes (eg_FromNode e) = Some opf \<and> op_of ops nodes (eg_ToNode e) = Some opt \<and>
        eg_FromNode e \<noteq> eg_ToNode e \<and> canonical_edge e \<notin> set seen \<and> eg_When e \<in> {[], ''PASS'', ''FAIL'', ''UNKNOWN''} \<and>
        (eg_When e \<noteq> [] \<longrightarrow> edge_condition_ok opf e) \<and> edge_type_ok opf opt bound e = Inr b \<and>
        t = (canonical_edge e # seen, b, if eg_When e \<noteq> [] then edge_branch e # conds else conds))"
    unfolding edge_step_def edge_branch_def by (auto simp: rbind_eq_Inr_iff split: option.splits)
  also have "\<dots> \<longleftrightarrow> edge_fine ops nodes e \<and> canonical_edge e \<notin> set seen \<and> (data_edge e \<longrightarrow> edge_input e \<notin> set bound) \<and>
     t = (canonical_edge e # seen, if data_edge e then edge_input e # bound else bound,
          if eg_When e \<noteq> [] then edge_branch e # conds else conds)"
    unfolding edge_fine_def edge_type_ok_iff [of _ _ bound] by blast
  finally show ?thesis .
qed

lemma edge_fold_iff:
  "fold_result (edge_step ops nodes) (seen, bound, conds) es = Inr t \<longleftrightarrow>
     (\<forall>e\<in>set es. edge_fine ops nodes e) \<and> distinct (map canonical_edge es) \<and> canonical_edge ` set es \<inter> set seen = {} \<and>
     distinct (map edge_input (filter data_edge es)) \<and> edge_input ` set (filter data_edge es) \<inter> set bound = {} \<and>
     t = (rev (map canonical_edge es) @ seen, rev (map edge_input (filter data_edge es)) @ bound,
          rev (map edge_branch (filter (\<lambda>e. eg_When e \<noteq> []) es)) @ conds)"
proof (induction es arbitrary: seen bound conds)
  case (Cons e es)
  have "fold_result (edge_step ops nodes) (seen, bound, conds) (e # es) = Inr t \<longleftrightarrow>
      edge_fine ops nodes e \<and> canonical_edge e \<notin> set seen \<and> (data_edge e \<longrightarrow> edge_input e \<notin> set bound) \<and>
      fold_result (edge_step ops nodes) (canonical_edge e # seen, if data_edge e then edge_input e # bound else bound,
          if eg_When e \<noteq> [] then edge_branch e # conds else conds) es = Inr t"
    by (auto simp: rbind_eq_Inr_iff edge_step_iff)
  then show ?case unfolding Cons by (cases "data_edge e"; cases "eg_When e = []") auto
qed auto


section \<open>Order of the declarations\<close>

text \<open>The same request with its arrays in another order.\<close>

definition same_declarations :: "GraphSpec \<Rightarrow> GraphSpec \<Rightarrow> bool" where
  "same_declarations s t \<longleftrightarrow>
     t = s\<lparr>gs_Reuse := gs_Reuse t, gs_Imports := gs_Imports t, gs_Sources := gs_Sources t, gs_Operators := gs_Operators t,
           gs_Nodes := gs_Nodes t, gs_Edges := gs_Edges t, gs_Outputs := gs_Outputs t\<rparr> \<and>
     mset (gs_Reuse t) = mset (gs_Reuse s) \<and> mset (gs_Imports t) = mset (gs_Imports s) \<and>
     mset (gs_Sources t) = mset (gs_Sources s) \<and> mset (gs_Operators t) = mset (gs_Operators s) \<and>
     mset (gs_Nodes t) = mset (gs_Nodes s) \<and> mset (gs_Edges t) = mset (gs_Edges s) \<and> mset (gs_Outputs t) = mset (gs_Outputs s)"

lemma same_declarationsD:
  assumes "same_declarations s t"
  shows "gs_Coverage t = gs_Coverage s" "gs_Schemas t = gs_Schemas s" "gs_Evaluator t = gs_Evaluator s" "gs_Version t = gs_Version s"
    "gs_ProjectID t = gs_ProjectID s" "gs_Workspace t = gs_Workspace s" "gs_Rules t = gs_Rules s" "gs_Limits t = gs_Limits s"
proof -
  have eq: "t = s\<lparr>gs_Reuse := gs_Reuse t, gs_Imports := gs_Imports t, gs_Sources := gs_Sources t, gs_Operators := gs_Operators t,
           gs_Nodes := gs_Nodes t, gs_Edges := gs_Edges t, gs_Outputs := gs_Outputs t\<rparr>"
    using assms by (simp add: same_declarations_def)
  show "gs_Coverage t = gs_Coverage s" by (subst eq) simp
  show "gs_Schemas t = gs_Schemas s" by (subst eq) simp
  show "gs_Evaluator t = gs_Evaluator s" by (subst eq) simp
  show "gs_Version t = gs_Version s" by (subst eq) simp
  show "gs_ProjectID t = gs_ProjectID s" by (subst eq) simp
  show "gs_Workspace t = gs_Workspace s" by (subst eq) simp
  show "gs_Rules t = gs_Rules s" by (subst eq) simp
  show "gs_Limits t = gs_Limits s" by (subst eq) simp
qed

text \<open>What a successful compilation has checked.\<close>

definition compiled :: "(string \<Rightarrow> string option) \<Rightarrow> GraphSpec \<Rightarrow> bool" where
  "compiled resolve s \<longleftrightarrow> header_ok s = Inr () \<and> declarations_ok resolve s = Inr () \<and> bindings_ok s = Inr () \<and>
     edges_ok s = Inr () \<and> (\<exists>r. fold_result (output_step (gs_Operators s) (gs_Nodes s)) [] (gs_Outputs s) = Inr r) \<and>
     ValidateCoverage s = Inr ()"

lemma Compile_iff:
  "Compile resolve n s = Inr p \<longleftrightarrow> n \<le> 262144 \<and> compiled resolve s \<and> (\<exists>order. plan_order s = Inr order \<and> p = plan_of (normalize s) order)"
  unfolding Compile_def compiled_def if_error_iff rbind_eq_Inr_iff by (auto simp: not_less)

lemma declarations_iff:
  "declarations_ok resolve s = Inr () \<longleftrightarrow>
     (\<forall>src\<in>set (gs_Sources s). so_MessageIndex src \<ge> 0 \<and> so_Role src \<in> set source_roles \<and> key_pattern (so_ID src) \<and>
        utf8_valid (so_Text src) \<and> (so_SHA256 src = [] \<or> so_SHA256 src = Hash (so_Text src))) \<and>
     distinct (map so_ID (gs_Sources s)) \<and>
     (\<forall>sp\<in>set (gs_Rules s). span_ok (source_map (gs_Sources s)) sp = Inr ()) \<and>
     1 \<le> length (gs_Schemas s) \<and> length (gs_Schemas s) \<le> 64 \<and> (\<forall>d\<in>set (gs_Schemas s). schema_ok resolve d = Inr ()) \<and>
     (\<forall>op\<in>set (gs_Operators s). operator_fine (gs_Limits s) (gs_Schemas s) op) \<and> distinct (map op_ID (gs_Operators s)) \<and>
     (\<forall>n\<in>set (gs_Nodes s). node_fine (gs_Version s) (source_map (gs_Sources s)) (gs_Operators s) n) \<and>
     distinct (map nd_ID (gs_Nodes s))"
proof -
  have "declarations_ok resolve s = Inr () \<longleftrightarrow> (\<exists>r. fold_result source_step [] (gs_Sources s) = Inr r) \<and>
      (\<forall>sp\<in>set (gs_Rules s). span_ok (source_map (gs_Sources s)) sp = Inr ()) \<and>
      1 \<le> length (gs_Schemas s) \<and> length (gs_Schemas s) \<le> 64 \<and> (\<forall>d\<in>set (gs_Schemas s). schema_ok resolve d = Inr ()) \<and>
      (\<exists>r. fold_result (operator_step (gs_Limits s) (gs_Schemas s)) [] (gs_Operators s) = Inr r) \<and>
      (\<exists>r. fold_result (node_step (gs_Version s) (source_map (gs_Sources s)) (gs_Operators s)) [] (gs_Nodes s) = Inr r)"
    unfolding declarations_ok_def if_error_iff rbind_eq_Inr_iff by (auto simp: check_all_eq_Inr_iff not_less Suc_le_eq)
  then show ?thesis
    unfolding fold_seen_ok [of source_step, OF source_step_iff] fold_seen_ok [of "operator_step _ _", OF operator_step_iff]
      fold_seen_ok [of "node_step _ _ _", OF node_step_iff]
    by blast
qed

lemma source_map_perm:
  assumes "distinct (map so_ID xs)" "mset ys = mset xs"
  shows "source_map ys = source_map xs"
proof -
  let ?f = "\<lambda>s. (so_ID s, s\<lparr>so_SHA256 := Hash (so_Text s)\<rparr>)"
  have d: "distinct (map so_ID ys)" using assms distinct_map_perm by blast
  have "distinct (map fst (rev (map ?f zs)))" if "distinct (map so_ID zs)" for zs
    using that by (simp add: rev_map [symmetric] comp_def)
  then show ?thesis
    unfolding source_map_def using assms(1) d mset_eq_setD [OF assms(2)] by (subst map_of_inject_set) auto
qed

lemma find_node_perm: "distinct (map nd_ID xs) \<Longrightarrow> mset ys = mset xs \<Longrightarrow> find_node ys = find_node xs"
  unfolding find_node_def by (rule ext) (metis find_rev_perm)

lemma find_op_perm: "distinct (map op_ID xs) \<Longrightarrow> mset ys = mset xs \<Longrightarrow> find_op ys = find_op xs"
  unfolding find_op_def by (rule ext) (metis find_rev_perm)


lemma list_all_perm: "mset ys = mset xs \<Longrightarrow> list_all P ys = list_all P xs"
  by (metis list_all_iff mset_eq_setD)

lemma bindings_iff:
  "bindings_ok s = Inr () \<longleftrightarrow>
     length (gs_Imports s) \<le> 8 \<and> (gs_Version s = ''iu-graph-v1'' \<longrightarrow> gs_Imports s = []) \<and> length (gs_Reuse s) \<le> 32 \<and>
     (gs_Reuse s \<noteq> [] \<longrightarrow> \<not> before_reuse (gs_Version s)) \<and>
     (\<forall>b\<in>set (gs_Reuse s). reuse_fine (gs_Nodes s) b) \<and> distinct (map rb_GrantID (gs_Reuse s)) \<and>
     distinct (map rb_NodeID (gs_Reuse s)) \<and>
     (\<forall>b\<in>set (gs_Imports s). key_pattern (ib_GrantID b) \<and> ib_NodeIDs b \<noteq> [] \<and> length (ib_NodeIDs b) \<le> 32 \<and>
        list_all (\<lambda>i. find_node (gs_Nodes s) i \<noteq> None) (ib_NodeIDs b) \<and> distinct (ib_NodeIDs b)) \<and>
     distinct (map ib_GrantID (gs_Imports s)) \<and> ib_GrantID ` set (gs_Imports s) \<inter> rb_GrantID ` set (gs_Reuse s) = {}"
  unfolding bindings_ok_def if_error_iff rbind_eq_Inr_iff reuse_fold_iff case_prod_conv
    fold_seen [of "import_step _", OF import_step_iff]
  by (auto simp: not_less rbind_eq_Inr_iff fold_seen [of "import_step _", OF import_step_iff])

lemma edges_iff:
  "edges_ok s = Inr () \<longleftrightarrow>
     (\<forall>e\<in>set (gs_Edges s). edge_fine (gs_Operators s) (gs_Nodes s) e) \<and> distinct (map canonical_edge (gs_Edges s)) \<and>
     distinct (map edge_input (filter data_edge (gs_Edges s))) \<and>
     (\<forall>e\<in>set (gs_Edges s). eg_When e \<noteq> [] \<longrightarrow>
        (\<forall>w\<in>{''PASS'', ''FAIL'', ''UNKNOWN''}. \<exists>e'\<in>set (gs_Edges s). eg_When e' \<noteq> [] \<and> edge_branch e' = (fst (edge_branch e), w))) \<and>
     (\<forall>n\<in>set (gs_Nodes s). \<forall>p\<in>set (case find_op (gs_Operators s) (nd_Operator n) of None \<Rightarrow> [] | Some op \<Rightarrow> op_Inputs op).
        slashed (nd_ID n) (po_Name p) \<in> edge_input ` {e\<in>set (gs_Edges s). data_edge e})"
proof -
  let ?conds = "rev (map edge_branch (filter (\<lambda>e. eg_When e \<noteq> []) (gs_Edges s)))"
  let ?bound = "rev (map edge_input (filter data_edge (gs_Edges s)))"
  have conds: "list_all (\<lambda>(g, _). list_all (\<lambda>w. (g, w) \<in> set ?conds) [''PASS'', ''FAIL'', ''UNKNOWN'']) ?conds \<longleftrightarrow>
      (\<forall>e\<in>set (gs_Edges s). eg_When e \<noteq> [] \<longrightarrow>
        (\<forall>w\<in>{''PASS'', ''FAIL'', ''UNKNOWN''}. \<exists>e'\<in>set (gs_Edges s). eg_When e' \<noteq> [] \<and> edge_branch e' = (fst (edge_branch e), w)))"
  proof -
    have "(g, w) \<in> set ?conds \<longleftrightarrow> (\<exists>e'\<in>set (gs_Edges s). eg_When e' \<noteq> [] \<and> edge_branch e' = (g, w))" for g w
      by (auto simp: image_iff)
    then have "list_all (\<lambda>w. (g, w) \<in> set ?conds) [''PASS'', ''FAIL'', ''UNKNOWN''] \<longleftrightarrow>
        (\<forall>w\<in>{''PASS'', ''FAIL'', ''UNKNOWN''}. \<exists>e'\<in>set (gs_Edges s). eg_When e' \<noteq> [] \<and> edge_branch e' = (g, w))" for g
      by simp
    then show ?thesis unfolding list_all_iff [of _ ?conds] by (simp add: case_prod_beta) blast
  qed
  have "edges_ok s = Inr () \<longleftrightarrow>
     (\<forall>e\<in>set (gs_Edges s). edge_fine (gs_Operators s) (gs_Nodes s) e) \<and> distinct (map canonical_edge (gs_Edges s)) \<and>
     distinct (map edge_input (filter data_edge (gs_Edges s))) \<and>
     list_all (\<lambda>(g, _). list_all (\<lambda>w. (g, w) \<in> set ?conds) [''PASS'', ''FAIL'', ''UNKNOWN'']) ?conds \<and>
     list_all (\<lambda>n. list_all (\<lambda>p. slashed (nd_ID n) (po_Name p) \<in> set ?bound)
        (case find_op (gs_Operators s) (nd_Operator n) of None \<Rightarrow> [] | Some op \<Rightarrow> op_Inputs op)) (gs_Nodes s)"
    unfolding edges_ok_def rbind_eq_Inr_iff edge_fold_iff by (simp add: if_error_iff)
  also have "list_all (\<lambda>n. list_all (\<lambda>p. slashed (nd_ID n) (po_Name p) \<in> set ?bound)
        (case find_op (gs_Operators s) (nd_Operator n) of None \<Rightarrow> [] | Some op \<Rightarrow> op_Inputs op)) (gs_Nodes s) \<longleftrightarrow>
      (\<forall>n\<in>set (gs_Nodes s). \<forall>p\<in>set (case find_op (gs_Operators s) (nd_Operator n) of None \<Rightarrow> [] | Some op \<Rightarrow> op_Inputs op).
        slashed (nd_ID n) (po_Name p) \<in> edge_input ` {e\<in>set (gs_Edges s). data_edge e})"
    by (simp add: list_all_iff)
  finally show ?thesis unfolding conds .
qed

lemma coverage_perm:
  assumes st: "same_declarations s t" and d: "distinct (map nd_ID (gs_Nodes s))" "distinct (map op_ID (gs_Operators s))"
    "distinct (map so_ID (gs_Sources s))"
    and ok: "ValidateCoverage s = Inr ()"
  shows "ValidateCoverage t = Inr ()"
proof -
  note same = same_declarationsD [OF st]
  have perm: "mset (gs_Sources t) = mset (gs_Sources s)" "mset (gs_Operators t) = mset (gs_Operators s)"
    "mset (gs_Nodes t) = mset (gs_Nodes s)" "mset (gs_Outputs t) = mset (gs_Outputs s)"
    using st by (auto simp: same_declarations_def)
  note look = source_map_perm [OF d(3) perm(1)] find_op_perm [OF d(2) perm(2)] find_node_perm [OF d(1) perm(3)]
  have ex: "executable_op (gs_Operators t) = executable_op (gs_Operators s)" by (simp add: executable_op_def look fun_eq_iff)
  have gaps: "node_gaps t = node_gaps s" by (simp add: node_gaps_def selected_spans_def same fun_eq_iff)
  have on: "obligation_node_step t = obligation_node_step s" unfolding obligation_node_step_def [abs_def] look ex gaps ..
  have ob: "obligation_step t = obligation_step s" unfolding obligation_step_def [abs_def] look on ..
  have ch: "check_step (gs_Outputs t) = check_step (gs_Outputs s)"
    using mset_eq_setD [OF perm(4)] by (simp add: check_step_def fun_eq_iff)
  have pol: "CoverageContextPolicy t = CoverageContextPolicy s"
    unfolding CoverageContextPolicy_def [abs_def] CoverageRequiredSpans_def same ..
  have nodes: "check_all (\<lambda>n. rbind (CoverageContextPolicy s n) (\<lambda>_. Inr ())) (gs_Nodes t) = Inr () \<longleftrightarrow>
      check_all (\<lambda>n. rbind (CoverageContextPolicy s n) (\<lambda>_. Inr ())) (gs_Nodes s) = Inr ()"
    using mset_eq_setD [OF perm(3)] by (simp add: check_all_eq_Inr_iff)
  from ok obtain r where r: "CheckCoverage s = Inr r" "cr_Complete r"
    by (auto simp: ValidateCoverage_def rbind_eq_Inr_iff if_error_iff)
  have "CheckCoverage t = Inr r"
    using r(1) unfolding CheckCoverage_def same look ob ch pol
    by (auto simp: if_error_iff rbind_eq_Inr_iff nodes split: if_splits option.splits)
  with r(2) show ?thesis by (simp add: ValidateCoverage_def)
qed


lemma sort_perm: "mset xs = mset ys \<Longrightarrow> sort xs = sort ys"
  by (rule properties_for_sort) simp_all

lemma degree_perm: "mset es' = mset es \<Longrightarrow> degree es' R j = degree es R j"
  unfolding degree_def by (intro arg_cong [of _ _ int] mset_eq_length) simp

lemma kahn_perm:
  assumes "distinct ids" "edges_within es (set ids)" "mset es' = mset es" "mset ids' = mset ids"
  shows "kahn (next_nodes es') (length ids') (degrees es' ids') = kahn (next_nodes es) (length ids) (degrees es ids)"
  using assms
proof (induction "length ids" arbitrary: ids ids')
  case 0
  then show ?case by simp
next
  case (Suc k)
  have set: "set ids' = set ids" and dist: "distinct ids'" and len: "length ids' = Suc k"
    using Suc(2,3) mset_eq_setD [OF Suc(6)] mset_eq_imp_distinct_iff [OF Suc(6)] mset_eq_length [OF Suc(6)] by simp_all
  have within: "edges_within es' (set ids')" using Suc(4) mset_eq_setD [OF Suc(5)] by (simp add: edges_within_def set)
  have ready: "sort (filter (\<lambda>j. degree es' (set ids') j = 0) ids') = sort (filter (\<lambda>j. degree es (set ids) j = 0) ids)"
    unfolding set degree_perm [OF Suc(5)] by (rule sort_perm) (simp add: Suc(6))
  have rest: "kahn (next_nodes es') k (degrees es' (remove1 i ids')) = kahn (next_nodes es) k (degrees es (remove1 i ids))"
    if i: "i \<in> set ids" "degree es (set ids) i = 0" for i
  proof -
    have l: "k = length (remove1 i ids)" "k = length (remove1 i ids')"
      using Suc(2) len i(1) set by (simp_all add: length_remove1)
    have "kahn (next_nodes es') (length (remove1 i ids')) (degrees es' (remove1 i ids')) =
        kahn (next_nodes es) (length (remove1 i ids)) (degrees es (remove1 i ids))"
    proof (rule Suc(1) [OF l(1) distinct_remove1 [OF Suc(3)] degrees_step(2) [OF Suc(3) i(1) Suc(4) i(2)] Suc(5)])
      show "mset (remove1 i ids') = mset (remove1 i ids)" using Suc(6) by simp
    qed
    then show ?thesis unfolding l(1) [symmetric] l(2) [symmetric] .
  qed
  show ?case
    unfolding len Suc(2) [symmetric] kahn_Suc [OF dist within len] kahn_Suc [OF Suc(3,4) Suc(2) [symmetric]] ready
  proof (cases "sort (filter (\<lambda>j. degree es (set ids) j = 0) ids)")
    case (Cons i js)
    then have "i \<in> set (filter (\<lambda>j. degree es (set ids) j = 0) ids)" by (metis list.set_intros(1) set_sort)
    then show "(case sort (filter (\<lambda>j. degree es (set ids) j = 0) ids) of [] \<Rightarrow> Inl (invalid ''cycle'')
        | i # x \<Rightarrow> rbind (kahn (next_nodes es') k (degrees es' (remove1 i ids'))) (\<lambda>rest. Inr (i # rest))) =
      (case sort (filter (\<lambda>j. degree es (set ids) j = 0) ids) of [] \<Rightarrow> Inl (invalid ''cycle'')
        | i # x \<Rightarrow> rbind (kahn (next_nodes es) k (degrees es (remove1 i ids))) (\<lambda>rest. Inr (i # rest)))"
      using Cons rest by simp
  qed simp
qed

lemma indegrees_degrees:
  assumes "\<forall>e\<in>set es. eg_FromNode e \<in> set ids"
  shows "indegrees es ids = degrees es ids"
proof -
  have "filter (\<lambda>e. eg_ToNode e = i) es = filter (\<lambda>e. eg_FromNode e \<in> set ids \<and> eg_ToNode e = i) es" for i
    using assms by (intro filter_cong) auto
  then show ?thesis by (simp add: indegrees_def degrees_def degree_def)
qed

text \<open>An accepted edge joins two declared nodes.\<close>

lemma find_node_Some: "find_node nodes i = Some n \<Longrightarrow> n \<in> set nodes \<and> nd_ID n = i"
  unfolding find_node_def by (drule find_Some_iff_in) simp

lemma op_of_Some: "op_of ops nodes i = Some op \<Longrightarrow> i \<in> nd_ID ` set nodes"
  by (auto simp: op_of_def dest: find_node_Some split: option.splits)

lemma edge_fine_nodes: "edge_fine ops nodes e \<Longrightarrow> eg_FromNode e \<in> nd_ID ` set nodes \<and> eg_ToNode e \<in> nd_ID ` set nodes"
  by (auto simp: edge_fine_def dest: op_of_Some)

lemma compiled_edges:
  assumes "edges_ok s = Inr ()"
  shows "plan_order s = kahn (next_nodes (gs_Edges s)) (length (map nd_ID (gs_Nodes s))) (degrees (gs_Edges s) (map nd_ID (gs_Nodes s)))"
    and "edges_within (gs_Edges s) (set (map nd_ID (gs_Nodes s)))"
    and "edge_rel (gs_Edges s) \<subseteq> nd_ID ` set (gs_Nodes s) \<times> nd_ID ` set (gs_Nodes s)"
proof -
  have fine: "\<forall>e\<in>set (gs_Edges s). eg_FromNode e \<in> nd_ID ` set (gs_Nodes s) \<and> eg_ToNode e \<in> nd_ID ` set (gs_Nodes s)"
    using assms edge_fine_nodes by (auto simp: edges_iff)
  then show "plan_order s = kahn (next_nodes (gs_Edges s)) (length (map nd_ID (gs_Nodes s))) (degrees (gs_Edges s) (map nd_ID (gs_Nodes s)))"
    unfolding plan_order_def by (subst indegrees_degrees) simp_all
  show "edges_within (gs_Edges s) (set (map nd_ID (gs_Nodes s)))" using fine by (simp add: edges_within_def)
  show "edge_rel (gs_Edges s) \<subseteq> nd_ID ` set (gs_Nodes s) \<times> nd_ID ` set (gs_Nodes s)" using fine by (auto simp: edge_rel_def)
qed


lemma compiled_perm:
  assumes st: "same_declarations s t" and ok: "compiled resolve s"
  shows "compiled resolve t" "plan_order t = plan_order s"
proof -
  note same = same_declarationsD [OF st]
  have perm: "mset (gs_Reuse t) = mset (gs_Reuse s)" "mset (gs_Imports t) = mset (gs_Imports s)"
    "mset (gs_Sources t) = mset (gs_Sources s)" "mset (gs_Operators t) = mset (gs_Operators s)"
    "mset (gs_Nodes t) = mset (gs_Nodes s)" "mset (gs_Edges t) = mset (gs_Edges s)" "mset (gs_Outputs t) = mset (gs_Outputs s)"
    using st by (auto simp: same_declarations_def)
  note sets = perm [THEN mset_eq_setD] and lens = perm [THEN mset_eq_length]
  have decl: "declarations_ok resolve s = Inr ()" and bind: "bindings_ok s = Inr ()" and edg: "edges_ok s = Inr ()"
    and hdr: "header_ok s = Inr ()" and cov: "ValidateCoverage s = Inr ()"
    and out: "\<exists>r. fold_result (output_step (gs_Operators s) (gs_Nodes s)) [] (gs_Outputs s) = Inr r"
    using ok by (auto simp: compiled_def)
  have d: "distinct (map nd_ID (gs_Nodes s))" "distinct (map op_ID (gs_Operators s))" "distinct (map so_ID (gs_Sources s))"
    using decl by (auto simp: declarations_iff)
  note look = source_map_perm [OF d(3) perm(3)] find_op_perm [OF d(2) perm(4)] find_node_perm [OF d(1) perm(5)]
  have node: "node_fine v m (gs_Operators t) = node_fine v m (gs_Operators s)" for v m
    unfolding node_fine_def [abs_def] node_operator_ok_def look ..
  have opof: "op_of (gs_Operators t) (gs_Nodes t) = op_of (gs_Operators s) (gs_Nodes s)" unfolding op_of_def [abs_def] look ..
  have edge: "edge_fine (gs_Operators t) (gs_Nodes t) = edge_fine (gs_Operators s) (gs_Nodes s)" unfolding edge_fine_def [abs_def] opof ..
  have reuse: "reuse_fine (gs_Nodes t) = reuse_fine (gs_Nodes s)" unfolding reuse_fine_def [abs_def] look ..
  have dist: "distinct (map so_ID (gs_Sources t))" "distinct (map op_ID (gs_Operators t))" "distinct (map nd_ID (gs_Nodes t))"
    using d perm distinct_map_perm by blast+
  have nil: "gs_Imports t = [] \<longleftrightarrow> gs_Imports s = []" "gs_Reuse t = [] \<longleftrightarrow> gs_Reuse s = []"
    using lens(1,2) by auto
  have "declarations_ok resolve t = Inr ()"
    using decl dist unfolding declarations_iff same sets look node by blast
  moreover have "header_ok t = Inr ()" using hdr unfolding header_ok_def same lens .
  moreover have "bindings_ok t = Inr ()"
    using bind unfolding bindings_iff same sets look reuse lens nil distinct_map_perm [OF perm(1)] distinct_map_perm [OF perm(2)] .
  moreover have et: "edges_ok t = Inr ()"
  proof -
    have "mset (filter data_edge (gs_Edges t)) = mset (filter data_edge (gs_Edges s))" using perm(6) by simp
    then show ?thesis
      using edg distinct_map_perm [OF perm(6)] distinct_map_perm [of "filter data_edge (gs_Edges t)"]
      unfolding edges_iff same sets look edge by blast
  qed
  moreover have "\<exists>r. fold_result (output_step (gs_Operators t) (gs_Nodes t)) [] (gs_Outputs t) = Inr r"
    using out unfolding fold_seen_ok [of "output_step _ _", OF output_step_iff] opof sets distinct_map_perm [OF perm(7)] .
  ultimately show "compiled resolve t"
    using coverage_perm [OF st d cov] by (simp add: compiled_def)
  have "mset (map nd_ID (gs_Nodes t)) = mset (map nd_ID (gs_Nodes s))" using perm(5) by simp
  then show "plan_order t = plan_order s"
    unfolding compiled_edges(1) [OF edg] compiled_edges(1) [OF et]
    by (rule kahn_perm [OF d(1) compiled_edges(2) [OF edg] perm(6)])
qed


lemma plain_escape: "list_all (\<lambda>c. escape_ascii c = [c] \<and> byte c < 128) s \<Longrightarrow> escape s = s"
  by (induction s) (auto simp: utf8_tail_def Let_def)

lemma key_char_plain: "lower_letter c \<or> digit c \<or> c \<in> set ''_-'' \<Longrightarrow> escape_ascii c = [c] \<and> byte c < 128 \<and> c \<noteq> CHR 0x22"
proof -
  assume "lower_letter c \<or> digit c \<or> c \<in> set ''_-''"
  then have n: "97 \<le> byte c \<and> byte c \<le> 122 \<or> 48 \<le> byte c \<and> byte c \<le> 57 \<or> byte c = 95 \<or> byte c = 45"
    by (auto simp: lower_letter_def digit_def in_bytes_def byte_def)
  have ne: "c \<noteq> d" if "byte d \<in> {34, 38, 60, 62, 92}" for d using that n by auto
  have codes: "byte (CHR 0x22) = 34" "byte (CHR ''&'') = 38" "byte (CHR ''<'') = 60" "byte (CHR ''>'') = 62" "byte (CHR 0x5C) = 92"
    by (simp_all add: byte_def)
  have "c \<noteq> CHR 0x22" "c \<noteq> CHR ''&''" "c \<noteq> CHR ''<''" "c \<noteq> CHR ''>''" "c \<noteq> CHR 0x5C"
    by (rule ne; simp only: codes; simp)+
  moreover have "byte c \<noteq> 8" "byte c \<noteq> 12" "byte c \<noteq> 10" "byte c \<noteq> 13" "byte c \<noteq> 9" "\<not> byte c < 32" "byte c < 128"
    using n by auto
  ultimately show ?thesis unfolding escape_ascii_def Let_def by simp
qed

lemma key_pattern_chars: "key_pattern s \<Longrightarrow> list_all (\<lambda>c. lower_letter c \<or> digit c \<or> c \<in> set ''_-'') s"
  unfolding name_pattern_def by (cases s) auto


lemma key_pattern_escape: "key_pattern s \<Longrightarrow> escape s = s \<and> CHR 0x22 \<notin> set s"
proof -
  assume "key_pattern s"
  then have all: "\<forall>c\<in>set s. escape_ascii c = [c] \<and> byte c < 128 \<and> c \<noteq> CHR 0x22"
    using key_pattern_chars key_char_plain by (auto simp: list_all_iff)
  then have "escape s = s" by (intro plain_escape) (simp add: list_all_iff)
  with all show ?thesis by blast
qed

text \<open>Strings without a quote are told apart by what follows up to the next quote.\<close>

lemma quote_split: "a @ CHR 0x22 # x = b @ CHR 0x22 # y \<Longrightarrow> CHR 0x22 \<notin> set a \<Longrightarrow> CHR 0x22 \<notin> set b \<Longrightarrow> a = b \<and> x = y"
proof (induction a arbitrary: b)
  case Nil
  then show ?case by (cases b) auto
next
  case (Cons c a)
  then show ?case by (cases b) auto
qed

lemma canonical_output_inj:
  assumes "key_pattern (ou_Node a)" "key_pattern (ou_Port a)" "key_pattern (ou_Node b)" "key_pattern (ou_Port b)"
    and eq: "canonical_output a = canonical_output b"
  shows "a = b"
proof -
  obtain pre mid where canon: "canonical_output o' = pre @ escape (ou_Node o') @ CHR 0x22 # mid @ escape (ou_Port o') @ [CHR 0x22, CHR 0x7D]" for o'
  proof (rule that)
    fix o'
    show "canonical_output o' = (CHR 0x7B # json_string ''node'' @ [CHR '':'', CHR 0x22]) @ escape (ou_Node o') @ CHR 0x22 #
      (CHR '','' # json_string ''port'' @ [CHR '':'', CHR 0x22]) @ escape (ou_Port o') @ [CHR 0x22, CHR 0x7D]"
      by (simp add: output_json_def join_with_def json_string_def)
  qed
  note keys = key_pattern_escape [OF assms(1)] key_pattern_escape [OF assms(2)] key_pattern_escape [OF assms(3)] key_pattern_escape [OF assms(4)]
  have "ou_Node a @ CHR 0x22 # mid @ ou_Port a @ [CHR 0x22, CHR 0x7D] = ou_Node b @ CHR 0x22 # mid @ ou_Port b @ [CHR 0x22, CHR 0x7D]"
    using eq keys unfolding canon by simp
  then have n: "ou_Node a = ou_Node b" and "mid @ ou_Port a @ [CHR 0x22, CHR 0x7D] = mid @ ou_Port b @ [CHR 0x22, CHR 0x7D]"
    using quote_split keys by blast+
  then have "ou_Port a = ou_Port b" by simp
  with n show ?thesis by simp
qed

lemma findPort_Some: "findPort ps n = Some p \<Longrightarrow> p \<in> set ps \<and> po_Name p = n"
  by (induction ps) (auto split: if_splits)

lemma find_op_Some: "find_op ops i = Some op \<Longrightarrow> op \<in> set ops \<and> op_ID op = i"
  unfolding find_op_def by (drule find_Some_iff_in) simp

text \<open>The declared outputs name nodes and ports of the graph, so their canonical texts are distinct.\<close>

lemma outputs_distinct:
  assumes "compiled resolve s"
  shows "distinct (map canonical_output (gs_Outputs s))"
proof -
  have out: "\<forall>o'\<in>set (gs_Outputs s). \<exists>op. op_of (gs_Operators s) (gs_Nodes s) (ou_Node o') = Some op \<and> findPort (op_Outputs op) (ou_Port o') \<noteq> None"
    and d: "distinct (map (\<lambda>o'. slashed (ou_Node o') (ou_Port o')) (gs_Outputs s))"
    using assms unfolding compiled_def fold_seen_ok [of "output_step _ _", OF output_step_iff] by auto
  have decl: "\<forall>n\<in>set (gs_Nodes s). key_pattern (nd_ID n)"
    "\<forall>op\<in>set (gs_Operators s). \<forall>p\<in>set (op_Outputs op). key_pattern (po_Name p)"
    using assms by (auto simp: compiled_def declarations_iff node_fine_def operator_fine_def)
  have keys: "key_pattern (ou_Node o') \<and> key_pattern (ou_Port o')" if o: "o' \<in> set (gs_Outputs s)" for o'
  proof -
    obtain op p where op: "op_of (gs_Operators s) (gs_Nodes s) (ou_Node o') = Some op" "findPort (op_Outputs op) (ou_Port o') = Some p"
      using out o by blast
    then obtain n where n: "find_node (gs_Nodes s) (ou_Node o') = Some n" "find_op (gs_Operators s) (nd_Operator n) = Some op"
      by (auto simp: op_of_def split: option.splits)
    have "key_pattern (nd_ID n)" "key_pattern (po_Name p)"
      using decl find_node_Some [OF n(1)] find_op_Some [OF n(2)] findPort_Some [OF op(2)] by blast+
    then show ?thesis using find_node_Some [OF n(1)] findPort_Some [OF op(2)] by simp
  qed
  have "distinct (gs_Outputs s)" using d by (simp add: distinct_map)
  moreover have "inj_on canonical_output (set (gs_Outputs s))"
    by (rule inj_onI) (use keys canonical_output_inj in blast)
  ultimately show ?thesis by (simp add: distinct_map)
qed

lemma normalize_perm:
  assumes st: "same_declarations s t" and ok: "compiled resolve s"
  shows "normalize t = normalize s"
proof -
  have perm: "mset (gs_Reuse t) = mset (gs_Reuse s)" "mset (gs_Imports t) = mset (gs_Imports s)"
    "mset (gs_Sources t) = mset (gs_Sources s)" "mset (gs_Operators t) = mset (gs_Operators s)"
    "mset (gs_Nodes t) = mset (gs_Nodes s)" "mset (gs_Edges t) = mset (gs_Edges s)" "mset (gs_Outputs t) = mset (gs_Outputs s)"
    using st by (auto simp: same_declarations_def)
  have d: "distinct (map rb_NodeID (gs_Reuse s))" "distinct (map ib_GrantID (gs_Imports s))" "distinct (map so_ID (gs_Sources s))"
    "distinct (map op_ID (gs_Operators s))" "distinct (map nd_ID (gs_Nodes s))" "distinct (map canonical_edge (gs_Edges s))"
    using ok by (auto simp: compiled_def declarations_iff bindings_iff edges_iff)
  have d': "distinct (map ib_GrantID (map sort_import (gs_Imports s)))" "distinct (map so_ID (map hash_source (gs_Sources s)))"
    using d(2,3) by (simp_all add: comp_def sort_import_def hash_source_def)
  have m: "mset (map sort_import (gs_Imports s)) = mset (map sort_import (gs_Imports t))"
    "mset (map hash_source (gs_Sources s)) = mset (map hash_source (gs_Sources t))"
    using perm(2,3) by simp_all
  note sorts = sort_key_perm_distinct [OF d(1) perm(1) [symmetric]] sort_key_perm_distinct [OF d'(1) m(1)]
    sort_key_perm_distinct [OF d'(2) m(2)] sort_key_perm_distinct [OF d(4) perm(4) [symmetric]]
    sort_key_perm_distinct [OF d(5) perm(5) [symmetric]] sort_key_perm_distinct [OF d(6) perm(6) [symmetric]]
    sort_key_perm_distinct [OF outputs_distinct [OF ok] perm(7) [symmetric]]
  define u where "u = s\<lparr>gs_Reuse := gs_Reuse t, gs_Imports := gs_Imports t, gs_Sources := gs_Sources t, gs_Operators := gs_Operators t,
           gs_Nodes := gs_Nodes t, gs_Edges := gs_Edges t, gs_Outputs := gs_Outputs t\<rparr>"
  have "t = u" using st by (simp add: same_declarations_def u_def)
  moreover have "normalize u = normalize s" unfolding u_def normalize_def by (simp add: sorts)
  ultimately show ?thesis by (rule ssubst)
qed


lemma compiled_distinct: "compiled resolve s \<Longrightarrow> distinct (map nd_ID (gs_Nodes s)) \<and> edges_ok s = Inr ()"
  by (auto simp: compiled_def declarations_iff)

lemma forward_split:
  assumes "sorted_wrt (\<lambda>a b. (b, a) \<notin> R) order" "(a, b) \<in> R" "a \<noteq> b" "a \<in> set order" "b \<in> set order"
  shows "\<exists>pre mid post. order = pre @ a # mid @ b # post"
proof -
  obtain pre post where order: "order = pre @ a # post" using assms(4) by (auto dest: split_list)
  have "b \<notin> set pre" using assms(1,2) by (auto simp: order sorted_wrt_append)
  then have "b \<in> set post" using assms(3,5) by (auto simp: order)
  then obtain mid post' where "post = mid @ b # post'" by (auto dest: split_list)
  with order show ?thesis by blast
qed

section \<open>Coverage\<close>

definition presents :: "Span list \<Rightarrow> Span \<Rightarrow> bool" where
  "presents ss sp \<longleftrightarrow> (\<forall>x. sn_Start sp \<le> x \<and> x < sn_End sp \<longrightarrow>
     (\<exists>s\<in>set ss. sn_Source s = sn_Source sp \<and> sn_SHA256 s = sn_SHA256 sp \<and> sn_Start s \<le> x \<and> x < sn_End s))"

lemma covered_presents: "sn_Start sp < sn_End sp \<Longrightarrow> requiredEvidenceCovered sp ss \<longleftrightarrow> presents ss sp"
  unfolding presents_def by (rule evidence_covered)

lemma obligation_nodes_fold:
  assumes "fold_result (obligation_node_step s ob) (seen, gaps) is = Inr (seen', gaps')"
  shows "\<exists>more. gaps' = gaps @ more \<and> (\<forall>i\<in>set is. \<exists>n. find_node (gs_Nodes s) i = Some n \<and> set (node_gaps s ob n) \<subseteq> set more)"
  using assms
proof (induction "is" arbitrary: seen gaps)
  case (Cons i "is")
  then obtain n where n: "find_node (gs_Nodes s) i = Some n"
    and run: "fold_result (obligation_node_step s ob) (i # seen, gaps @ node_gaps s ob n) is = Inr (seen', gaps')"
    by (auto simp: obligation_node_step_def rbind_eq_Inr_iff split: option.splits if_splits)
  obtain more where more: "gaps' = (gaps @ node_gaps s ob n) @ more"
    "\<forall>i\<in>set is. \<exists>n. find_node (gs_Nodes s) i = Some n \<and> set (node_gaps s ob n) \<subseteq> set more"
    using Cons.IH [OF run] by blast
  show ?case
  proof (intro exI conjI)
    show "gaps' = gaps @ (node_gaps s ob n @ more)" using more(1) by simp
    show "\<forall>j\<in>set (i # is). \<exists>m. find_node (gs_Nodes s) j = Some m \<and> set (node_gaps s ob m) \<subseteq> set (node_gaps s ob n @ more)"
      using n more(2) by fastforce
  qed
qed simp

lemma obligations_fold:
  assumes "fold_result (obligation_step s checks) (ids, used, gaps) obs = Inr (ids', used', gaps')"
  shows "\<exists>more. gaps' = gaps @ more \<and>
    (\<forall>ob\<in>set obs. (\<forall>sp\<in>set (co_Sources ob). span_ok (source_map (gs_Sources s)) sp = Inr ()) \<and>
       (\<forall>i\<in>set (co_NodeIDs ob). \<exists>n. find_node (gs_Nodes s) i = Some n \<and> set (node_gaps s ob n) \<subseteq> set more))"
  using assms
proof (induction obs arbitrary: ids used gaps)
  case (Cons ob obs)
  obtain seen gaps1 where spans: "\<forall>sp\<in>set (co_Sources ob). span_ok (source_map (gs_Sources s)) sp = Inr ()"
    and nodes: "fold_result (obligation_node_step s ob) ([], gaps) (co_NodeIDs ob) = Inr (seen, gaps1)"
    and run: "fold_result (obligation_step s checks) (co_ID ob # ids, co_CheckID ob # used, gaps1) obs = Inr (ids', used', gaps')"
    using Cons.prems
    by (auto simp: obligation_step_def rbind_eq_Inr_iff if_error_iff check_all_eq_Inr_iff span_ok_def)
  obtain more1 where m1: "gaps1 = gaps @ more1"
    "\<forall>i\<in>set (co_NodeIDs ob). \<exists>n. find_node (gs_Nodes s) i = Some n \<and> set (node_gaps s ob n) \<subseteq> set more1"
    using obligation_nodes_fold [OF nodes] by blast
  obtain more2 where m2: "gaps' = gaps1 @ more2" "\<forall>ob\<in>set obs. (\<forall>sp\<in>set (co_Sources ob). span_ok (source_map (gs_Sources s)) sp = Inr ()) \<and>
       (\<forall>i\<in>set (co_NodeIDs ob). \<exists>n. find_node (gs_Nodes s) i = Some n \<and> set (node_gaps s ob n) \<subseteq> set more2)"
    using Cons.IH [OF run] by blast
  show ?case
  proof (intro exI conjI)
    show "gaps' = gaps @ (more1 @ more2)" using m1(1) m2(1) by simp
    show "\<forall>ob'\<in>set (ob # obs). (\<forall>sp\<in>set (co_Sources ob'). span_ok (source_map (gs_Sources s)) sp = Inr ()) \<and>
       (\<forall>i\<in>set (co_NodeIDs ob'). \<exists>n. find_node (gs_Nodes s) i = Some n \<and> set (node_gaps s ob' n) \<subseteq> set (more1 @ more2))"
      using spans m1(2) m2(2) by fastforce
  qed
qed simp

lemma coverage_gaps:
  assumes "ValidateCoverage s = Inr ()" "gs_Version s = ''iu-graph-v5''"
  obtains c where "gs_Coverage s = Some c" "\<forall>ob\<in>set (cc_Obligations c).
    (\<forall>sp\<in>set (co_Sources ob). span_ok (source_map (gs_Sources s)) sp = Inr ()) \<and>
    (\<forall>i\<in>set (co_NodeIDs ob). \<exists>n. find_node (gs_Nodes s) i = Some n \<and> node_gaps s ob n = [])"
proof -
  obtain c checks ids used gaps where c: "gs_Coverage s = Some c" "gaps = []"
    and run: "fold_result (obligation_step s checks) ([], [], []) (cc_Obligations c) = Inr (ids, used, gaps)"
    using assms
    by (auto simp: ValidateCoverage_def CheckCoverage_def rbind_eq_Inr_iff if_error_iff split: option.splits if_splits)
  have "\<forall>ob\<in>set (cc_Obligations c). (\<forall>sp\<in>set (co_Sources ob). span_ok (source_map (gs_Sources s)) sp = Inr ()) \<and>
    (\<forall>i\<in>set (co_NodeIDs ob). \<exists>n. find_node (gs_Nodes s) i = Some n \<and> node_gaps s ob n = [])"
    using obligations_fold [OF run] c(2) by fastforce
  with c(1) show ?thesis by (rule that)
qed

lemma span_ok_nonempty: "span_ok m sp = Inr () \<Longrightarrow> sn_Start sp < sn_End sp"
  by (auto simp: span_ok_def rbind_eq_Inr_iff readSpan_Inr_iff)

lemma node_gaps_Nil: "node_gaps s ob n = [] \<longleftrightarrow> (\<forall>sp\<in>set (co_Sources ob). requiredEvidenceCovered sp (selected_spans s n))"
  by (auto simp: node_gaps_def filter_empty_conv)

section \<open>Properties\<close>

text \<open>C12: the order of a compiled plan lists every node once, and every edge of the graph leads from an earlier
  to a later node.\<close>

theorem plan_order_topological:
  assumes "Compile resolve rawLen s = Inr p"
  shows "distinct (pl_Order p) \<and> set (pl_Order p) = nd_ID ` set (gs_Nodes s) \<and>
    (\<forall>e\<in>set (gs_Edges s). \<exists>pre mid post. pl_Order p = pre @ eg_FromNode e # mid @ eg_ToNode e # post)"
proof -
  obtain order where c: "compiled resolve s" and order: "plan_order s = Inr order" and p: "p = plan_of (normalize s) order"
    using assms by (auto simp: Compile_iff)
  then have po: "pl_Order p = order" by (simp add: plan_of_def Let_def)
  note ce = compiled_edges [OF conjunct2 [OF compiled_distinct [OF c]]]
  have k: "set order = nd_ID ` set (gs_Nodes s) \<and> distinct order \<and> sorted_wrt (\<lambda>a b. (b, a) \<notin> edge_rel (gs_Edges s)) order \<and>
      (\<forall>i\<in>nd_ID ` set (gs_Nodes s). (i, i) \<notin> edge_rel (gs_Edges s))"
    using kahn_sound [OF conjunct1 [OF compiled_distinct [OF c]] ce(2) order [unfolded ce(1)]] by simp
  have "\<exists>pre mid post. order = pre @ eg_FromNode e # mid @ eg_ToNode e # post" if "e \<in> set (gs_Edges s)" for e
  proof -
    have rel: "(eg_FromNode e, eg_ToNode e) \<in> edge_rel (gs_Edges s)" using that by (auto simp: edge_rel_def)
    have nodes: "eg_FromNode e \<in> set order" "eg_ToNode e \<in> set order" using rel ce(3) k by auto
    have "eg_FromNode e \<noteq> eg_ToNode e" using rel k nodes by auto
    then show ?thesis using k rel nodes by (intro forward_split) auto
  qed
  with k show ?thesis by (simp add: po)
qed

text \<open>C26: when all other checks pass, the traversal decides acyclicity: a graph without a cycle gets a plan, and a
  graph with one is refused as a cycle, whatever the order of its edges.\<close>

theorem cycle_exactly_rejected:
  assumes "compiled resolve s" "rawLen \<le> 262144"
  shows "if acyclic (edge_rel (gs_Edges s)) then \<exists>p. Compile resolve rawLen s = Inr p
         else Compile resolve rawLen s = Inl (invalid ''cycle'')"
proof -
  note d = conjunct1 [OF compiled_distinct [OF assms(1)]]
  note ce = compiled_edges [OF conjunct2 [OF compiled_distinct [OF assms(1)]]]
  show ?thesis
  proof (cases "acyclic (edge_rel (gs_Edges s))")
    case True
    then obtain order where "plan_order s = Inr order" using kahn_complete [OF d ce(2)] ce(1) by metis
    with assms True show ?thesis by (auto simp: Compile_iff)
  next
    case False
    have "\<not> (\<exists>order. plan_order s = Inr order)"
    proof
      assume "\<exists>order. plan_order s = Inr order"
      then obtain order where "plan_order s = Inr order" ..
      from kahn_sound [OF d ce(2) this [unfolded ce(1)]] have "acyclic (edge_rel (gs_Edges s))"
        using ce(3) by (intro sorted_wrt_acyclic) auto
      with False show False by blast
    qed
    then obtain e where e: "plan_order s = Inl e" by (metis sum.exhaust)
    then have "e = invalid ''cycle''" using kahn_only_cycle [OF d ce(2)] ce(1) by metis
    then have "Compile resolve rawLen s = Inl (invalid ''cycle'')"
      using assms e by (simp add: Compile_def compiled_def)
    with False show ?thesis by simp
  qed
qed

text \<open>The plan, its digest included, does not depend on the order in which reuse bindings, imports, sources,
  operators, nodes, edges and outputs are declared.\<close>

theorem plan_independent_of_order:
  assumes "same_declarations s t" "Compile resolve rawLen s = Inr p"
  shows "Compile resolve rawLen t = Inr p"
  using assms compiled_perm [OF assms(1)] normalize_perm [OF assms(1)] by (auto simp: Compile_iff)

text \<open>A version 5 plan meets its coverage catalogue: every byte of every source span of an obligation is
  presented to every node the obligation names, by a span of the same source revision among the rules of the
  graph and the rules and spans of the node.\<close>

theorem coverage_presented:
  assumes "ValidateCoverage s = Inr ()" "gs_Version s = ''iu-graph-v5''" "distinct (map nd_ID (gs_Nodes s))"
    and "gs_Coverage s = Some c" "ob \<in> set (cc_Obligations c)" "n \<in> set (gs_Nodes s)" "nd_ID n \<in> set (co_NodeIDs ob)"
    and "sp \<in> set (co_Sources ob)"
  shows "sn_Start sp < sn_End sp \<and> presents (gs_Rules s @ nd_Rules n @ nd_Spans n) sp"
proof -
  obtain m where m: "find_node (gs_Nodes s) (nd_ID n) = Some m" "node_gaps s ob m = []"
    and ok: "span_ok (source_map (gs_Sources s)) sp = Inr ()"
    using coverage_gaps [OF assms(1,2)] assms(4-8) by (metis option.inject)
  have "m = n" using find_node_Some [OF m(1)] assms(3,6) by (auto simp: distinct_map dest: inj_onD)
  with m(2) assms(8) have "requiredEvidenceCovered sp (selected_spans s n)" by (simp add: node_gaps_Nil)
  with span_ok_nonempty [OF ok] show ?thesis by (simp add: covered_presents selected_spans_def)
qed


text \<open>A manifest accepts exactly the input it was compiled for: checking the model and text that are about to be
  sent succeeds for the frozen pair and for no other.\<close>

theorem context_roundtrip:
  assumes "CompileContext r = Inr m"
  shows "ValidateInput m model text = Inr () \<longleftrightarrow> model = cq_Model r \<and> text = cm_Text m"
proof -
  from assms obtain rules local where m: "cm_Version m = ''iu-context-v1''" "cm_Text m = json_text (body_json r rules local)"
      "cm_SHA256 m = Hash (cm_Text m)" "cm_Model m = cq_Model r"
      "cm_InputFingerprint m = Hash (json_text (JObj [(''Body'', body_json r rules local), (''Model'', JStr (cq_Model r))]))"
    unfolding CompileContext_def if_error_iff rbind_eq_Inr_iff Let_def by auto
  have "json_text (JObj [(''Body'', body_json r rules local), (''Model'', JStr (cq_Model r))]) =
      json_text (JObj [(''Body'', JRaw (cm_Text m)), (''Model'', JStr (cq_Model r))])"
    by (simp add: m(2))
  then show ?thesis using m unfolding ValidateInput_def if_error_iff by auto
qed

text \<open>An accepted recovery only adds. Every node of the new plan extends the instructions of the node it
  replaces by at most 8192 bytes, and presents every non-empty span and rule the old node presented.\<close>

theorem recovery_only_adds:
  assumes "ValidateRecovery resolve rawLen prior next = Inr ()" "v \<in> set (gs_Nodes next)"
  shows "\<exists>base\<in>set (gs_Nodes prior). nd_ID base = nd_ID v \<and> prefix (nd_Instructions base) (nd_Instructions v) \<and>
    length (nd_Instructions v) \<le> length (nd_Instructions base) + 8192 \<and>
    (\<forall>sp\<in>set (nd_Spans base). sn_Start sp < sn_End sp \<longrightarrow> presents (nd_Spans v) sp) \<and>
    (\<forall>sp\<in>set (nd_Rules base). sn_Start sp < sn_End sp \<longrightarrow> presents (nd_Rules v) sp)"
proof -
  have step: "\<exists>base. find_node old (nd_ID v) = Some base \<and> prefix (nd_Instructions base) (nd_Instructions v) \<and>
      length (nd_Instructions v) \<le> length (nd_Instructions base) + 8192 \<and>
      keeps_spans (nd_Spans base) (nd_Spans v) \<and> keeps_spans (nd_Rules base) (nd_Rules v)"
    if "fold_result (recovery_step old) (ch, out) vs = Inr res" "v \<in> set vs" for old ch out vs res
    using that
  proof (induction vs arbitrary: ch out)
    case (Cons w vs)
    show ?case
    proof (cases "v = w")
      case True
      with Cons.prems show ?thesis
        by (auto simp: rbind_eq_Inr_iff recovery_step_def split: option.splits if_splits)
    next
      case False
      with Cons show ?thesis by (auto simp: rbind_eq_Inr_iff)
    qed
  qed simp
  from assms(1) obtain res where "fold_result (recovery_step (gs_Nodes prior)) (False, []) (gs_Nodes next) = Inr res"
    unfolding ValidateRecovery_def if_error_iff rbind_eq_Inr_iff by auto
  from step [OF this assms(2)] obtain base where b: "find_node (gs_Nodes prior) (nd_ID v) = Some base"
    "prefix (nd_Instructions base) (nd_Instructions v)" "length (nd_Instructions v) \<le> length (nd_Instructions base) + 8192"
    "keeps_spans (nd_Spans base) (nd_Spans v)" "keeps_spans (nd_Rules base) (nd_Rules v)" by blast
  have "presents ss sp" if "keeps_spans base' ss" "sp \<in> set base'" "sn_Start sp < sn_End sp" for base' ss sp
    using that by (auto simp: keeps_spans_def list_all_iff covered_presents)
  with b find_node_Some [OF b(1)] show ?thesis by blast
qed


section \<open>Concrete instances\<close>

definition goal_span :: Span where
  "goal_span = \<lparr>sn_Source = ''goal'', sn_Start = 0, sn_End = 2, sn_SHA256 = Hash ''ab''\<rparr>"

definition example_node :: "string \<Rightarrow> string \<Rightarrow> string \<Rightarrow> Node" where
  "example_node i op text = \<lparr>nd_ContextPolicy = None, nd_Rules = [], nd_ReplayProfile = [], nd_ID = i, nd_Operator = op,
     nd_Instructions = text, nd_Spans = [], nd_ScopePaths = [], nd_JoinPolicy = [], nd_Parameters = []\<rparr>"

definition example_operator :: "string \<Rightarrow> Port list \<Rightarrow> Operator" where
  "example_operator i ins = \<lparr>op_ID = i, op_Version = ''1'', op_Kind = ''command'', op_Inputs = ins,
     op_Outputs = [\<lparr>po_Name = ''out'', po_Schema = ''s1''\<rparr>], op_Execution = None, op_CommandProfile = ''run''\<rparr>"

definition example_output :: Output where
  "example_output = \<lparr>ou_Node = ''b'', ou_Port = ''out''\<rparr>"

definition example_edge :: Edge where
  "example_edge = \<lparr>eg_FromNode = ''a'', eg_FromPort = ''out'', eg_ToNode = ''b'', eg_ToPort = ''in'', eg_Type = ''artifact'', eg_When = []\<rparr>"

definition example_catalog :: "string \<Rightarrow> CoverageCatalog" where
  "example_catalog h = \<lparr>cc_Version = ''iu-coverage-v1'', cc_GoalSourceID = ''goal'', cc_GoalSpecHash = Hash ''ab'', cc_Profile = ''p'',
     cc_ProfileVersion = ''1'', cc_Scope = ''s'',
     cc_Obligations = [\<lparr>co_ID = ''o'', co_Sources = [goal_span], co_NodeIDs = [''a''], co_CheckID = ''k''\<rparr>],
     cc_Checks = [\<lparr>cb_ID = ''k'', cb_Outputs = [example_output]\<rparr>], cc_SHA256 = h\<rparr>"

definition example_spec :: "string \<Rightarrow> GraphSpec" where
  "example_spec ins = \<lparr>gs_Coverage = Some (example_catalog (Catalog_Digest (example_catalog []))), gs_Reuse = [], gs_Imports = [],
     gs_Schemas = [(''s1'', ''true'')], gs_Evaluator = \<lparr>ev_Profile = ''e'', ev_Version = ''1''\<rparr>, gs_Version = ''iu-graph-v5'',
     gs_ProjectID = ''p'', gs_Workspace = \<lparr>ws_RepositoryRef = ''r'', ws_BaseCommit = replicate 40 CHR ''a''\<rparr>,
     gs_Sources = [\<lparr>so_Role = [], so_MessageIndex = 0, so_ID = ''goal'', so_Text = ''ab'', so_SHA256 = []\<rparr>],
     gs_Rules = [goal_span],
     gs_Operators = [example_operator ''op1'' [], example_operator ''op2'' [\<lparr>po_Name = ''in'', po_Schema = ''s1''\<rparr>]],
     gs_Nodes = [example_node ''a'' ''op1'' ins, example_node ''b'' ''op2'' []], gs_Edges = [example_edge],
     gs_Outputs = [example_output],
     gs_Limits = \<lparr>gl_Parallelism = 1, gl_TimeoutSeconds = 60, gl_MaxAttemptsPerTask = 1, gl_MaxReplans = 0, gl_MaxCostUnits = None,
       gl_MaxTokens = None\<rparr>\<rparr>"

lemma example_refs: "Ref ''p''" "Ref ''r''" "Ref ''e''" "Ref ''1''" "Ref ''s1''" "commitRE (replicate 40 CHR ''a'')"
  "key_pattern ''goal''" "key_pattern ''op1''" "key_pattern ''op2''" "key_pattern ''in''" "key_pattern ''out''" "key_pattern ''run''"
  "key_pattern ''a''" "key_pattern ''b''" "key_pattern ''o''" "key_pattern ''k''" "key_pattern ''p''" "key_pattern ''s''"
  "utf8_valid ''ab''" "utf8_valid ''x''"
  by code_simp+

lemma example_read: "readSpan (source_map (gs_Sources (example_spec ins))) goal_span = Inr ''ab''"
  by (simp add: readSpan_Inr_iff source_map_def example_spec_def goal_span_def slice_def example_refs del: utf8_valid.simps)

lemma example_header: "header_ok (example_spec ins) = Inr ()"
  unfolding header_ok_def example_spec_def Let_def by (simp add: graph_versions_def example_refs)

lemma example_declarations:
  assumes "utf8_valid ins" "length ins \<le> 65536"
  shows "declarations_ok (\<lambda>_. None) (example_spec ins) = Inr ()"
proof -
  have ops: "operator_fine (gs_Limits (example_spec ins)) (gs_Schemas (example_spec ins)) op"
    if "op \<in> set (gs_Operators (example_spec ins))" for op
  proof -
    have "op = example_operator ''op1'' [] \<or> op = example_operator ''op2'' [\<lparr>po_Name = ''in'', po_Schema = ''s1''\<rparr>]"
      using that by (simp add: example_spec_def)
    moreover have "operator_fine (gs_Limits (example_spec ins)) (gs_Schemas (example_spec ins)) (example_operator i ps)"
      if "key_pattern i" "\<forall>p\<in>set ps. p = \<lparr>po_Name = ''in'', po_Schema = ''s1''\<rparr>" "length ps \<le> 1" for i ps
    proof -
      have "distinct (map po_Name ps)" using that(3) by (cases ps) auto
      then show ?thesis
        using that by (simp add: operator_fine_def operator_kind_ok_def example_operator_def ball_Un example_refs)
          (auto simp: example_spec_def example_refs)
    qed
    ultimately show ?thesis using example_refs by auto
  qed
  have nodes: "node_fine ''iu-graph-v5'' m (gs_Operators (example_spec ins)) n" if "n \<in> set (gs_Nodes (example_spec ins))" for n m
    using that assms
    by (auto simp: node_fine_def example_spec_def example_node_def node_policy_ok_def node_operator_ok_def find_op_def
        example_operator_def example_refs)
  show ?thesis
    unfolding declarations_iff
  proof (intro conjI)
    show "\<forall>sp\<in>set (gs_Rules (example_spec ins)). span_ok (source_map (gs_Sources (example_spec ins))) sp = Inr ()"
      using example_read [of ins] by (simp add: span_ok_def example_spec_def)
    show "\<forall>n\<in>set (gs_Nodes (example_spec ins)).
        node_fine (gs_Version (example_spec ins)) (source_map (gs_Sources (example_spec ins))) (gs_Operators (example_spec ins)) n"
      using nodes by (simp add: example_spec_def)
    show "\<forall>op\<in>set (gs_Operators (example_spec ins)). operator_fine (gs_Limits (example_spec ins)) (gs_Schemas (example_spec ins)) op"
      using ops by blast
  qed (simp_all add: example_spec_def source_roles_def schema_ok_def example_operator_def example_node_def example_refs
      del: utf8_valid.simps)
qed

lemma example_coverage: "ValidateCoverage (example_spec ins) = Inr ()"
proof -
  have digest: "Catalog_Digest (example_catalog h) = Catalog_Digest (example_catalog [])" for h
    by (simp add: Catalog_Digest_def example_catalog_def)
  have cov: "requiredEvidenceCovered goal_span [goal_span]"
    by (simp add: requiredEvidenceCovered_def goal_span_def)
  have src: "source_map (gs_Sources (example_spec ins)) ''goal'' \<noteq> None"
    "\<And>x. source_map (gs_Sources (example_spec ins)) ''goal'' = Some x \<Longrightarrow> so_SHA256 x = Hash ''ab''"
    by (auto simp: source_map_def example_spec_def)
  let ?c = "example_catalog (Catalog_Digest (example_catalog []))"
  have checks: "fold_result (check_step (gs_Outputs (example_spec ins))) [] (cc_Checks ?c) = Inr [''k'']"
    by (simp add: check_step_def example_catalog_def example_spec_def example_refs)
  have "find_node (gs_Nodes (example_spec ins)) ''a'' = Some (example_node ''a'' ''op1'' ins)"
    "executable_op (gs_Operators (example_spec ins)) ''op1''"
    by (simp_all add: find_node_def executable_op_def find_op_def example_spec_def example_node_def example_operator_def)
  moreover have "node_gaps (example_spec ins) ob (example_node ''a'' ''op1'' ins) = []" if "co_Sources ob = [goal_span]" for ob
    using cov that by (simp add: node_gaps_Nil selected_spans_def) (simp add: example_spec_def example_node_def)
  ultimately have obl: "fold_result (obligation_step (example_spec ins) [''k'']) ([], [], []) (cc_Obligations ?c) = Inr ([''o''], [''k''], [])"
    using example_read [of ins]
    by (simp add: obligation_step_def obligation_node_step_def example_catalog_def example_refs) (simp add: example_node_def)
  have pol: "check_all (\<lambda>n. rbind (CoverageContextPolicy (example_spec ins) n) (\<lambda>_. Inr ())) (gs_Nodes (example_spec ins)) = Inr ()"
    by (simp add: example_spec_def example_node_def CoverageContextPolicy_def CoverageRequiredSpans_def example_catalog_def ContextPolicy_Validate_def)
  have cat: "gs_Coverage (example_spec ins) = Some ?c" "gs_Version (example_spec ins) = ''iu-graph-v5''" by (simp_all add: example_spec_def)
  have sha: "cc_SHA256 ?c = Catalog_Digest ?c" by (subst digest) (simp add: example_catalog_def)
  have fields: "cc_Version ?c = ''iu-coverage-v1''" "cc_Profile ?c = ''p''" "cc_Scope ?c = ''s''"
    "cc_ProfileVersion ?c = ''1''" "length (cc_Obligations ?c) = 1" "length (cc_Checks ?c) = 1" "cc_GoalSourceID ?c = ''goal''"
    "cc_GoalSpecHash ?c = Hash ''ab''"
    by (simp_all add: example_catalog_def)
  show ?thesis
    unfolding ValidateCoverage_def CheckCoverage_def cat
    using src by (auto simp: sha [symmetric] fields checks obl pol example_refs split: option.splits)
qed

lemma example_compiled:
  assumes "utf8_valid ins" "length ins \<le> 65536"
  shows "compiled (\<lambda>_. None) (example_spec ins)"
proof -
  have nodes: "op_of (gs_Operators (example_spec ins)) (gs_Nodes (example_spec ins)) ''a'' = Some (example_operator ''op1'' [])"
    "op_of (gs_Operators (example_spec ins)) (gs_Nodes (example_spec ins)) ''b'' =
       Some (example_operator ''op2'' [\<lparr>po_Name = ''in'', po_Schema = ''s1''\<rparr>])"
    by (simp_all add: op_of_def find_node_def find_op_def example_spec_def example_node_def example_operator_def)
  have "edge_fine (gs_Operators (example_spec ins)) (gs_Nodes (example_spec ins)) example_edge"
    by (simp add: edge_fine_def example_edge_def nodes) (simp add: edge_type_ok_def example_operator_def)
  then have "edges_ok (example_spec ins) = Inr ()"
    unfolding edges_iff
    by (simp add: example_spec_def example_node_def find_op_def example_operator_def)
      (auto simp: example_edge_def edge_input_def data_edge_def image_iff)
  moreover have "bindings_ok (example_spec ins) = Inr ()" by (simp add: bindings_iff) (simp add: example_spec_def)
  moreover have "\<exists>r. fold_result (output_step (gs_Operators (example_spec ins)) (gs_Nodes (example_spec ins))) [] (gs_Outputs (example_spec ins)) = Inr r"
  proof -
    have "output_step (gs_Operators (example_spec ins)) (gs_Nodes (example_spec ins)) [] example_output = Inr [slashed ''b'' ''out'']"
      by (simp add: output_step_iff example_output_def nodes) (simp add: example_operator_def)
    moreover have "gs_Outputs (example_spec ins) = [example_output]" by (simp add: example_spec_def)
    ultimately show ?thesis by simp
  qed
  ultimately show ?thesis
    using example_header example_declarations [OF assms] example_coverage by (simp add: compiled_def)
qed

lemma example_order: "plan_order (example_spec ins) = Inr [''a'', ''b'']"
  by (simp add: plan_order_def example_spec_def example_node_def example_edge_def indegrees_def next_nodes_def numeral_2_eq_2)


lemma example_compile: "\<exists>p. Compile (\<lambda>_. None) 0 (example_spec []) = Inr p"
  using example_compiled [of "[]"] example_order by (simp add: Compile_iff)

lemma plan_order_topological_witness:
  "\<exists>p. Compile (\<lambda>_. None) 0 (example_spec []) = Inr p \<and> set (pl_Order p) = {''a'', ''b''}"
proof -
  obtain p where p: "Compile (\<lambda>_. None) 0 (example_spec []) = Inr p" using example_compile by blast
  have "nd_ID ` set (gs_Nodes (example_spec [])) = {''a'', ''b''}" by (simp add: example_spec_def example_node_def)
  with plan_order_topological [OF p] p show ?thesis by auto
qed

lemma cycle_exactly_rejected_witness: "\<exists>p. Compile (\<lambda>_. None) 0 (example_spec []) = Inr p"
proof -
  have "edge_rel (gs_Edges (example_spec [])) = {(''a'', ''b'')}" by (simp add: edge_rel_def example_spec_def example_edge_def)
  moreover have "acyclic {(''a'', ''b'')}" by (rule acyclic_insert [THEN iffD2]) (auto dest: rtranclD simp: wf_acyclic)
  ultimately show ?thesis
    using cycle_exactly_rejected [OF example_compiled [of "[]"], of 0] by simp
qed

lemma plan_independent_of_order_witness:
  "\<exists>p. Compile (\<lambda>_. None) 0 ((example_spec [])\<lparr>gs_Nodes := rev (gs_Nodes (example_spec []))\<rparr>) = Inr p"
proof -
  obtain p where p: "Compile (\<lambda>_. None) 0 (example_spec []) = Inr p" using example_compile by blast
  have "same_declarations (example_spec []) ((example_spec [])\<lparr>gs_Nodes := rev (gs_Nodes (example_spec []))\<rparr>)"
    by (simp add: same_declarations_def)
  from plan_independent_of_order [OF this p] show ?thesis by blast
qed

lemma coverage_presented_witness: "presents (gs_Rules (example_spec [])) goal_span"
proof -
  let ?n = "example_node ''a'' ''op1'' []"
  let ?ob = "\<lparr>co_ID = ''o'', co_Sources = [goal_span], co_NodeIDs = [''a''], co_CheckID = ''k''\<rparr>"
  have "presents (gs_Rules (example_spec []) @ nd_Rules ?n @ nd_Spans ?n) goal_span"
  proof (rule conjunct2 [OF coverage_presented [OF example_coverage [of "[]"]]])
    show "gs_Coverage (example_spec []) = Some (example_catalog (Catalog_Digest (example_catalog [])))" by (simp add: example_spec_def)
    show "?ob \<in> set (cc_Obligations (example_catalog (Catalog_Digest (example_catalog []))))" by (simp add: example_catalog_def)
    show "?n \<in> set (gs_Nodes (example_spec []))" by (simp add: example_spec_def)
    show "nd_ID ?n \<in> set (co_NodeIDs ?ob)" by (simp add: example_node_def)
    show "distinct (map nd_ID (gs_Nodes (example_spec [])))" by (simp add: example_spec_def example_node_def)
  qed (simp_all add: example_spec_def)
  then show ?thesis by (simp add: example_node_def)
qed

definition context_example :: ContextRequest where
  "context_example = \<lparr>cq_Policy = Some \<lparr>cp_Version = ''iu-context-policy-v1'', cp_MaxBytes = 0, cp_MaxInputTokens = None,
       cp_RequiredEvidence = [goal_span]\<rparr>,
     cq_OutputSchema = [], cq_Parameters = [], cq_Sources = gs_Sources (example_spec []), cq_Rules = [goal_span], cq_Spans = [],
     cq_Instructions = ''x'', cq_View = EmptyView, cq_Inputs = None, cq_Model = ''m''\<rparr>"

lemma context_example_fields:
  "cq_Policy context_example = Some \<lparr>cp_Version = ''iu-context-policy-v1'', cp_MaxBytes = 0, cp_MaxInputTokens = None,
       cp_RequiredEvidence = [goal_span]\<rparr>"
  "cq_OutputSchema context_example = []" "cq_Parameters context_example = []"
  "cq_Sources context_example = gs_Sources (example_spec [])" "cq_Rules context_example = [goal_span]"
  "cq_Spans context_example = []" "cq_Instructions context_example = ''x''" "cq_View context_example = EmptyView"
  "cq_Inputs context_example = None" "cq_Model context_example = ''m''"
  by (simp_all add: context_example_def)

lemma example_context: "\<exists>m. CompileContext context_example = Inr m"
proof -
  let ?src = "(hd (gs_Sources (example_spec [])))\<lparr>so_SHA256 := Hash ''ab''\<rparr>"
  let ?seg = "\<lparr>cs_Role = so_Role ?src, cs_MessageIndex = so_MessageIndex ?src, cs_Span = goal_span, cs_Text = ''ab''\<rparr>"
  have view: "validateView EmptyView = Inr ()"
    unfolding EmptyView_def NewView_def
    by (simp add: validate_sealed origins_fine_def records_fine_def deps_closed_def dep_rel_def find_record_def wf_acyclic)
  have src: "source_map (gs_Sources (example_spec [])) (sn_Source goal_span) = Some ?src"
    by (simp add: source_map_def example_spec_def goal_span_def)
  have sources: "fold_result context_source_step [] (gs_Sources (example_spec [])) = Inr [''goal'']"
    by (simp add: context_source_step_def example_spec_def example_refs del: utf8_valid.simps)
  have cov: "requiredEvidenceCovered goal_span [goal_span]"
    by (simp add: requiredEvidenceCovered_def goal_span_def)
  have pol: "policy_ok context_example = Inr ()"
    using cov example_read [of "[]"]
    by (simp add: policy_ok_def context_example_fields ContextPolicy_Validate_def evidence_ok_def)
  have rules: "fold_result (segment_step (gs_Sources (example_spec []))) [] [goal_span] = Inr [?seg]"
    using example_read [of "[]"] src by (simp add: segment_step_def)
  have "int_decimal 0 = ''0''" "int_decimal 2 = ''2''" by code_simp+
  moreover have "length (mv_SHA256 EmptyView) = 64" by (simp add: EmptyView_def NewView_def sealView_def Let_def)
  ultimately have "json_size (body_json context_example [?seg] []) \<le> 65536"
    by (simp add: body_json_def context_example_fields arr_or_null_def context_span_json_def span_json_def opt_str_def opt_raw_def
        view_json_def opt_arr_def)
      (simp add: EmptyView_def example_spec_def goal_span_def NewView_def sealView_def Let_def HasMemoryOrigins_def all_records_def)
  then have "length (json_text (body_json context_example [?seg] [])) \<le> 65536"
    using json_text_length order_trans by blast
  then show ?thesis
    unfolding CompileContext_def context_example_fields
    by (simp add: sources view pol rules example_refs max_bytes_def context_example_fields Let_def del: utf8_valid.simps fold_result.simps(2))
qed


lemma context_roundtrip_witness:
  "\<exists>m. CompileContext context_example = Inr m \<and> ValidateInput m ''m'' (cm_Text m) = Inr () \<and> ValidateInput m ''n'' (cm_Text m) \<noteq> Inr ()"
proof -
  obtain m where m: "CompileContext context_example = Inr m" using example_context by blast
  with context_roundtrip [OF m] show ?thesis by (auto simp: context_example_fields)
qed

lemma recovery_only_adds_witness:
  "ValidateRecovery (\<lambda>_. None) 0 (example_spec []) (example_spec ''x'') = Inr () \<and>
   (\<exists>base\<in>set (gs_Nodes (example_spec [])). nd_ID base = ''a'')"
proof -
  have nodes: "gs_Nodes (example_spec i) = [example_node ''a'' ''op1'' i, example_node ''b'' ''op2'' []]" for i by (simp add: example_spec_def)
  have found: "find_node (gs_Nodes (example_spec [])) ''a'' = Some (example_node ''a'' ''op1'' [])"
    "find_node (gs_Nodes (example_spec [])) ''b'' = Some (example_node ''b'' ''op2'' [])"
    by (simp_all add: find_node_def nodes) (simp_all add: example_node_def)
  have ids: "nd_ID (example_node i op x) = i" "nd_Instructions (example_node i op x) = x" "nd_Spans (example_node i op x) = []"
    "nd_Rules (example_node i op x) = []" for i op x by (simp_all add: example_node_def)
  have keep: "(example_node i op x)\<lparr>nd_Instructions := y, nd_Spans := [], nd_Rules := []\<rparr> = example_node i op y" for i op x y
    by (simp add: example_node_def)
  have run: "fold_result (recovery_step (gs_Nodes (example_spec []))) (False, []) (gs_Nodes (example_spec ''x'')) =
      Inr (True, gs_Nodes (example_spec []))"
    by (simp add: nodes [of "''x''"] recovery_step_def found ids keep keeps_spans_def example_refs del: utf8_valid.simps)
      (simp add: nodes)
  have "(example_spec ''x'')\<lparr>gs_Nodes := gs_Nodes (example_spec [])\<rparr> = example_spec []" by (simp add: example_spec_def)
  moreover have "\<exists>p. Compile (\<lambda>_. None) 0 (example_spec ''x'') = Inr p"
    using example_compiled [of "''x''"] example_order example_refs by (simp add: Compile_iff)
  moreover have "gs_Version (example_spec i) = ''iu-graph-v5''" for i by (simp add: example_spec_def)
  ultimately have ok: "ValidateRecovery (\<lambda>_. None) 0 (example_spec []) (example_spec ''x'') = Inr ()"
    using run by (auto simp: ValidateRecovery_def nodes)
  have "example_node ''a'' ''op1'' ''x'' \<in> set (gs_Nodes (example_spec ''x''))" by (simp add: nodes)
  from recovery_only_adds [OF ok this] ok show ?thesis by (auto simp: ids)
qed

end
