(* ===== verification/Gateway_Budget.thy ===== *)
theory Gateway_Budget
  imports Governance
begin

text \<open>
  The budget of an attempt at the model gateway (\<open>internal/server/gateway_budget.go\<close>, and the part of
  \<open>ServeHTTP\<close> in \<open>gateway.go\<close> that builds the body sent upstream).

  A request body is a JSON object; \<open>fields\<close> is the Go map of its members with their raw texts. Go maps
  are lists of pairs with distinct keys, and \<open>job.JSON\<close> writes them with the keys sorted and each raw
  text compacted. Token counts and prices are \<open>int\<close>: the code computes products in \<open>big.Int\<close>, and
  each sum it keeps in an \<open>int64\<close> is guarded by \<open>addNonNegative\<close>.

  Shown: the price of a usage is rounded up and the capacity of a cost rounded down, so that a request
  that stays within the granted limit stays within what is left; an attempt whose requests are served
  one at a time never exceeds its token and cost limits; a request on \<open>/v1/responses\<close> is sent with the
  limit of the tokens only, because the body is rebuilt from the map that the cost limit did not
  reach.
\<close>

section \<open>Raw JSON members\<close>

type_synonym raw_fields = "(string \<times> string) list"

definition fields_JSON :: "raw_fields \<Rightarrow> string" where
  "fields_JSON fs = json_text (JObj (map (\<lambda>(k, v). (k, JRaw (compact_raw False v))) (sort_key fst fs)))"

text \<open>\<open>json.Unmarshal(raw, &n)\<close> for an \<open>int64\<close> that starts as 0: \<open>None\<close> is an error.\<close>

definition digits_value :: "string \<Rightarrow> int" where
  "digits_value s = foldl (\<lambda>v c. 10 * v + (int (byte c) - 48)) 0 s"

definition parse_int64 :: "string \<Rightarrow> int option" where
  "parse_int64 s = (
    let neg = (take 1 s = ''-''); ds = (if neg then drop 1 s else s);
        v = (if neg then - digits_value ds else digits_value ds)
    in if ds \<noteq> [] \<and> list_all digit ds \<and> - (MaxInt64 + 1) \<le> v \<and> v \<le> MaxInt64 then Some v else None)"

definition unmarshal_int64 :: "string \<Rightarrow> int option" where
  "unmarshal_int64 raw = (if raw = ''null'' then Some 0 else parse_int64 raw)"

definition set_field :: "string \<Rightarrow> string \<Rightarrow> raw_fields \<Rightarrow> raw_fields" where
  "set_field k v fs = (k, v) # filter (\<lambda>(k', _). k' \<noteq> k) fs"

section \<open>Attempt slots\<close>

text \<open>
  \<open>attemptSlots\<close> maps an attempt to the number of tokens in its channel of capacity 1. \<open>acquire\<close> answers
  whether the send succeeded.
\<close>

type_synonym slot_map = "string \<rightharpoonup> nat"

definition acquireAttemptSlot :: "string \<Rightarrow> slot_map \<Rightarrow> bool \<times> slot_map" where
  "acquireAttemptSlot attemptID slots = (
    let n = (case slots attemptID of None \<Rightarrow> 0 | Some n \<Rightarrow> n)
    in if n < 1 then (True, slots(attemptID \<mapsto> n + 1)) else (False, slots(attemptID \<mapsto> n)))"

definition releaseAttemptSlot :: "string \<Rightarrow> slot_map \<Rightarrow> slot_map" where
  "releaseAttemptSlot attemptID slots = (
    case slots attemptID of None \<Rightarrow> slots
    | Some n \<Rightarrow> if n - 1 = 0 then slots(attemptID := None) else slots(attemptID \<mapsto> n - 1))"

section \<open>What is left of the budget\<close>

record GatewayRequestRow =
  gr_id :: string
  gr_attempt :: string
  gr_state :: string
  gr_input :: "int option"
  gr_output :: "int option"
  gr_complete :: bool

record attemptBudget =
  ab_tokens :: int
  ab_costMicros :: int

definition addNonNegative :: "int \<Rightarrow> int \<Rightarrow> int option" where
  "addNonNegative a b = (if a < 0 \<or> b < 0 \<or> a > MaxInt64 - b then None else Some (a + b))"

definition tokenCostMicros :: "int \<Rightarrow> int \<Rightarrow> int result" where
  "tokenCostMicros tokens price = (
    if tokens < 0 \<or> price < 0 then Inl (Status ''FailedPrecondition'' ''ATTEMPT_USAGE_INVALID'')
    else
      let product = (tokens * price + 999999) div 1000000 in
      if product > MaxInt64 then Inl (Status ''ResourceExhausted'' ''ATTEMPT_COST_BUDGET_EXHAUSTED'')
      else Inr product)"

definition costTokenCapacity :: "int \<Rightarrow> int \<Rightarrow> int" where
  "costTokenCapacity costMicros price = (
    if costMicros \<le> 0 \<or> price \<le> 0 then 0
    else
      let capacity = costMicros * 1000000 div price in
      if capacity > MaxInt64 then MaxInt64 else capacity)"

definition or_exhausted :: "string \<Rightarrow> int option \<Rightarrow> int result" where
  "or_exhausted code r = (case r of None \<Rightarrow> Inl (Status ''ResourceExhausted'' code) | Some v \<Rightarrow> Inr v)"

abbreviation token_exhausted :: string where
  "token_exhausted \<equiv> ''ATTEMPT_TOKEN_BUDGET_EXHAUSTED''"

abbreviation cost_exhausted :: string where
  "cost_exhausted \<equiv> ''ATTEMPT_COST_BUDGET_EXHAUSTED''"

definition add_request ::
  "int \<Rightarrow> int \<Rightarrow> int \<times> int \<Rightarrow> GatewayRequestRow \<Rightarrow> (int \<times> int) result" where
  "add_request inputPrice outputPrice used r = (
    let (usedTokens, usedCost) = used; input = the (gr_input r); output = the (gr_output r) in
    if input < 0 \<or> output < 0 then Inl (Status ''FailedPrecondition'' ''ATTEMPT_USAGE_INVALID'')
    else
      rbind (or_exhausted token_exhausted (addNonNegative usedTokens input)) (\<lambda>t1.
      rbind (or_exhausted token_exhausted (addNonNegative t1 output)) (\<lambda>t2.
      rbind (tokenCostMicros input inputPrice) (\<lambda>inputCost.
      rbind (tokenCostMicros output outputPrice) (\<lambda>outputCost.
      rbind (or_exhausted cost_exhausted (addNonNegative usedCost inputCost)) (\<lambda>c1.
      rbind (or_exhausted cost_exhausted (addNonNegative c1 outputCost)) (\<lambda>c2.
      Inr (t2, c2))))))))"

definition unresolved :: "string \<Rightarrow> GatewayRequestRow \<Rightarrow> bool" where
  "unresolved attemptID r \<longleftrightarrow>
    gr_attempt r = attemptID \<and> (\<not> gr_complete r \<or> gr_input r = None \<or> gr_output r = None)"

definition remainingAttemptBudget ::
  "GatewayRequestRow list \<Rightarrow> string \<Rightarrow> int \<Rightarrow> int \<Rightarrow> int \<Rightarrow> int \<Rightarrow> attemptBudget result" where
  "remainingAttemptBudget db attemptID tokenLimit costLimit inputPrice outputPrice = (
    if attemptID = [] \<or> tokenLimit < 1 \<or> costLimit < 1 \<or> inputPrice < 1 \<or> outputPrice < 1
    then Inl (Status ''FailedPrecondition'' ''ATTEMPT_BUDGET_UNCONFIGURED'')
    else if count_where (unresolved attemptID) db \<noteq> 0
    then Inl (Status ''FailedPrecondition'' ''ATTEMPT_USAGE_UNKNOWN'')
    else
      rbind (fold_result (add_request inputPrice outputPrice) (0, 0)
        (filter (\<lambda>r. gr_attempt r = attemptID \<and> gr_complete r) db)) (\<lambda>(usedTokens, usedCost).
      if usedTokens \<ge> tokenLimit then Inl (Status ''ResourceExhausted'' token_exhausted)
      else if usedCost \<ge> costLimit then Inl (Status ''ResourceExhausted'' cost_exhausted)
      else Inr \<lparr>ab_tokens = tokenLimit - usedTokens, ab_costMicros = costLimit - usedCost\<rparr>))"

section \<open>The limit written into a request\<close>

text \<open>Both operations answer the body and the map it encodes. The map \<open>fields\<close> is the caller's.\<close>

definition requested_output :: "raw_fields \<Rightarrow> string \<Rightarrow> int \<Rightarrow> int result" where
  "requested_output fs tokenField outputLimit = (
    case map_of fs tokenField of
      None \<Rightarrow> Inr outputLimit
    | Some raw \<Rightarrow>
        (case unmarshal_int64 raw of
           None \<Rightarrow> Inl (Status ''InvalidArgument'' ''INVALID_MAX_OUTPUT_TOKENS'')
         | Some requested \<Rightarrow>
             if requested < 1 then Inl (Status ''InvalidArgument'' ''INVALID_MAX_OUTPUT_TOKENS'')
             else Inr (if requested < outputLimit then requested else outputLimit)))"

definition fit_output :: "raw_fields \<Rightarrow> int \<Rightarrow> string \<Rightarrow> int \<Rightarrow> (string \<times> raw_fields) result" where
  "fit_output fs remaining tokenField outputLimit = (
    let fs1 = set_field tokenField (int_decimal outputLimit) fs;
        bounded1 = fields_JSON fs1;
        over = int (length bounded1) + outputLimit > remaining;
        outputLimit2 = (if over then outputLimit - (int (length bounded1) + outputLimit - remaining) else outputLimit);
        fs2 = (if over then set_field tokenField (int_decimal outputLimit2) fs1 else fs1);
        bounded2 = (if over then fields_JSON fs2 else bounded1) in
    if over \<and> outputLimit2 < 1 then Inl (Status ''ResourceExhausted'' token_exhausted)
    else if int (length bounded2) + outputLimit2 > remaining
    then Inl (Status ''ResourceExhausted'' token_exhausted)
    else Inr (bounded2, fs2))"

definition applyNamedAttemptTokenLimit ::
  "raw_fields \<Rightarrow> string \<Rightarrow> int \<Rightarrow> bool \<Rightarrow> string \<Rightarrow> (string \<times> raw_fields) result" where
  "applyNamedAttemptTokenLimit fs body remaining compact tokenField = (
    if compact then Inl (Status ''FailedPrecondition'' ''ATTEMPT_TOKEN_BUDGET_UNSUPPORTED_ENDPOINT'')
    else if remaining < 1 then Inl (Status ''ResourceExhausted'' token_exhausted)
    else
      let outputLimit = remaining - int (length body) - 64 in
      if outputLimit < 1 then Inl (Status ''ResourceExhausted'' token_exhausted)
      else
        let outputLimit = (if outputLimit > 1000000 then 1000000 else outputLimit) in
        rbind (requested_output fs tokenField outputLimit) (fit_output fs remaining tokenField))"

text \<open>
  The result: the body, the map it encodes (\<open>adjusted\<close>) and the caller's \<open>fields\<close> after the call.
  \<open>json.Unmarshal(bounded, &adjusted)\<close> gives the members back with compacted texts.
\<close>

definition applyNamedAttemptBudget ::
  "raw_fields \<Rightarrow> string \<Rightarrow> attemptBudget \<Rightarrow> int \<Rightarrow> int \<Rightarrow> bool \<Rightarrow> string \<Rightarrow>
   (string \<times> raw_fields \<times> raw_fields) result" where
  "applyNamedAttemptBudget fs body remaining inputPrice outputPrice compact tokenField =
    rbind (applyNamedAttemptTokenLimit fs body (ab_tokens remaining) compact tokenField) (\<lambda>(bounded, fs').
    rbind (tokenCostMicros (int (length body) + 64) inputPrice) (\<lambda>inputCost.
    if inputCost \<ge> ab_costMicros remaining then Inl (Status ''ResourceExhausted'' cost_exhausted)
    else
      let costOutputLimit = costTokenCapacity (ab_costMicros remaining - inputCost) outputPrice in
      if costOutputLimit < 1 then Inl (Status ''ResourceExhausted'' cost_exhausted)
      else
        let adjusted = map (\<lambda>(k, v). (k, compact_raw False v)) fs' in
        (case unmarshal_int64 (case map_of adjusted tokenField of None \<Rightarrow> [] | Some raw \<Rightarrow> raw) of
           None \<Rightarrow> Inl (Status ''InvalidArgument'' ''INVALID_MAX_OUTPUT_TOKENS'')
         | Some tokenOutputLimit \<Rightarrow>
             let lowered = costOutputLimit < tokenOutputLimit;
                 tokenOutputLimit = (if lowered then costOutputLimit else tokenOutputLimit);
                 adjusted = (if lowered then set_field tokenField (int_decimal tokenOutputLimit) adjusted else adjusted);
                 bounded = (if lowered then fields_JSON adjusted else bounded) in
             if int (length bounded) + tokenOutputLimit > ab_tokens remaining
             then Inl (Status ''ResourceExhausted'' token_exhausted)
             else Inr (bounded, adjusted, fs'))))"

definition applyAttemptBudget ::
  "raw_fields \<Rightarrow> string \<Rightarrow> attemptBudget \<Rightarrow> int \<Rightarrow> int \<Rightarrow> bool \<Rightarrow> (string \<times> raw_fields \<times> raw_fields) result" where
  "applyAttemptBudget fs body remaining inputPrice outputPrice compact =
    applyNamedAttemptBudget fs body remaining inputPrice outputPrice compact ''max_output_tokens''"

definition applyAnthropicAttemptBudget ::
  "raw_fields \<Rightarrow> string \<Rightarrow> attemptBudget \<Rightarrow> int \<Rightarrow> int \<Rightarrow> (string \<times> raw_fields \<times> raw_fields) result" where
  "applyAnthropicAttemptBudget fs body remaining inputPrice outputPrice =
    applyNamedAttemptBudget fs body remaining inputPrice outputPrice False ''max_tokens''"

text \<open>
  The body \<open>ServeHTTP\<close> sends upstream: on \<open>/v1/responses\<close> it is rebuilt from \<open>fields\<close> after the budget was
  applied. The result is the body and the map it encodes. The checks in between (the model name, server-side
  context, \<open>store\<close> and \<open>background\<close>) refuse a request or leave \<open>fields\<close> and the body as they are.
\<close>

definition upstream_body ::
  "string \<Rightarrow> raw_fields \<Rightarrow> string \<Rightarrow> attemptBudget \<Rightarrow> int \<Rightarrow> int \<Rightarrow> (string \<times> raw_fields) result" where
  "upstream_body path fs body remaining inputPrice outputPrice =
    rbind (applyAttemptBudget fs body remaining inputPrice outputPrice (path = ''/v1/responses/compact''))
      (\<lambda>(bounded, adjusted, fs').
        if path = ''/v1/responses'' then
          let fs'' = set_field ''store'' ''false'' fs' in Inr (fields_JSON fs'', fs'')
        else Inr (bounded, adjusted))"

section \<open>Decimal texts\<close>

lemma byte_char_of [simp]: "n < 256 \<Longrightarrow> byte (char_of n) = n"
  by (simp add: byte_def)

lemma digit_char_of: "n < 10 \<Longrightarrow> digit (char_of (48 + n :: nat))"
  by (simp add: digit_def in_bytes_def)

lemma nat_decimal_digits: "list_all digit (nat_decimal n)"
proof (induction n rule: nat_decimal.induct)
  case (1 n)
  then show ?case using digit_char_of [of n] digit_char_of [of "n mod 10"]
    by (subst nat_decimal.simps) (simp add: list_all_append)
qed

lemma nat_decimal_not_Nil [simp]: "nat_decimal n \<noteq> []"
  by (subst nat_decimal.simps) simp

lemma digits_value_snoc: "digits_value (s @ [c]) = 10 * digits_value s + (int (byte c) - 48)"
  by (simp add: digits_value_def)

lemma digits_value_nat_decimal: "digits_value (nat_decimal n) = int n"
proof (induction n rule: nat_decimal.induct)
  case (1 n)
  show ?case
  proof (cases "n < 10")
    case True
    then show ?thesis by (subst nat_decimal.simps) (simp add: digits_value_def)
  next
    case False
    have "n mod 10 < 10" by simp
    then have "48 + n mod 10 < 256" by linarith
    moreover have "10 * int (n div 10) + int (n mod 10) = int n"
      by (metis mult_div_mod_eq of_nat_add of_nat_mult of_nat_numeral)
    ultimately show ?thesis using 1 False
      by (subst nat_decimal.simps) (simp add: digits_value_snoc)
  qed
qed

lemma digit_not_minus: "digit c \<Longrightarrow> c \<noteq> CHR ''-''"
  by (auto simp: digit_def in_bytes_def byte_def)

lemma parse_int_decimal:
  assumes "0 \<le> n" "n \<le> MaxInt64"
  shows "parse_int64 (int_decimal n) = Some n"
proof -
  have d: "int_decimal n = nat_decimal (nat n)" using assms by (simp add: int_decimal_def)
  have "take 1 (nat_decimal (nat n)) \<noteq> ''-''"
  proof
    assume "take 1 (nat_decimal (nat n)) = ''-''"
    then have "hd (nat_decimal (nat n)) = CHR ''-''" by (cases "nat_decimal (nat n)") simp_all
    moreover have "digit (hd (nat_decimal (nat n)))"
      using nat_decimal_digits [of "nat n"] by (cases "nat_decimal (nat n)") simp_all
    ultimately show False using digit_not_minus by blast
  qed
  then show ?thesis using assms nat_decimal_digits [of "nat n"]
    unfolding d parse_int64_def Let_def digits_value_nat_decimal
    by (simp only: if_False) (simp add: digits_value_nat_decimal MaxInt64_def)
qed

lemma int_decimal_not_null: "0 \<le> n \<Longrightarrow> int_decimal n \<noteq> ''null''"
proof
  assume "0 \<le> n" "int_decimal n = ''null''"
  then have "list_all digit ''null''" using nat_decimal_digits [of "nat n"] by (simp add: int_decimal_def)
  then show False by (simp add: digit_def in_bytes_def byte_def)
qed

lemma unmarshal_int_decimal:
  "0 \<le> n \<Longrightarrow> n \<le> MaxInt64 \<Longrightarrow> unmarshal_int64 (int_decimal n) = Some n"
  by (simp add: unmarshal_int64_def int_decimal_not_null parse_int_decimal)

lemma compact_digits: "list_all digit ds \<Longrightarrow> compact_raw False ds = ds"
proof (induction ds)
  case (Cons c ds)
  then have "\<not> json_space c" "c \<noteq> CHR 0x22"
    by (auto simp: json_space_def digit_def in_bytes_def byte_def)
  with Cons show ?case by simp
qed simp

lemma compact_int_decimal: "0 \<le> n \<Longrightarrow> compact_raw False (int_decimal n) = int_decimal n"
  by (simp add: int_decimal_def compact_digits nat_decimal_digits)

lemma map_of_set_field [simp]:
  "map_of (set_field k v fs) k' = (if k' = k then Some v else map_of fs k')"
  by (induction fs) (auto simp: set_field_def)

section \<open>Prices\<close>

definition price_of :: "int \<Rightarrow> int \<Rightarrow> int" where
  "price_of tokens price = (tokens * price + 999999) div 1000000"

lemma tokenCostMicros_eq:
  "tokenCostMicros t p = Inr c \<longleftrightarrow> 0 \<le> t \<and> 0 \<le> p \<and> c = price_of t p \<and> price_of t p \<le> MaxInt64"
  by (auto simp: tokenCostMicros_def price_of_def Let_def)

lemma price_of_mono: "0 \<le> p \<Longrightarrow> t \<le> t' \<Longrightarrow> price_of t p \<le> price_of t' p"
  by (auto simp: price_of_def intro!: zdiv_mono1 mult_right_mono)

lemma price_of_nonneg: "0 \<le> t \<Longrightarrow> 0 \<le> p \<Longrightarrow> 0 \<le> price_of t p"
  by (simp add: price_of_def pos_imp_zdiv_nonneg_iff)

text \<open>A usage within the capacity of a cost costs no more, although both are rounded.\<close>

lemma capacity_covers:
  assumes "0 < p" "0 < c" "u \<le> costTokenCapacity c p"
  shows "price_of u p \<le> c"
proof -
  have "u \<le> c * 1000000 div p"
    using assms by (auto simp: costTokenCapacity_def Let_def split: if_splits)
  then have "u * p \<le> c * 1000000 div p * p" using assms(1) by (intro mult_right_mono) auto
  also have "\<dots> = c * 1000000 - c * 1000000 mod p" by (simp add: minus_mod_eq_div_mult)
  also have "\<dots> \<le> c * 1000000" using pos_mod_sign [OF assms(1)] by simp
  finally have "(u * p + 999999) div 1000000 \<le> (c * 1000000 + 999999) div 1000000"
    by (intro zdiv_mono1) auto
  then show ?thesis by (simp add: price_of_def)
qed


section \<open>The granted limit\<close>

definition granted :: "string \<Rightarrow> raw_fields \<Rightarrow> int option" where
  "granted tokenField fs = (case map_of fs tokenField of None \<Rightarrow> None | Some raw \<Rightarrow> unmarshal_int64 raw)"

text \<open>A map whose token field holds the decimal text of a positive \<open>int64\<close>.\<close>

definition limited :: "string \<Rightarrow> int \<Rightarrow> raw_fields \<Rightarrow> bool" where
  "limited tokenField limit fs \<longleftrightarrow>
    map_of fs tokenField = Some (int_decimal limit) \<and> 1 \<le> limit \<and> limit \<le> MaxInt64"

lemma limited_granted: "limited k n fs \<Longrightarrow> granted k fs = Some n"
  by (simp add: limited_def granted_def unmarshal_int_decimal)

lemma limited_set_field: "1 \<le> n \<Longrightarrow> n \<le> MaxInt64 \<Longrightarrow> limited k n (set_field k (int_decimal n) fs)"
  by (simp add: limited_def)

lemma limited_other: "k \<noteq> k' \<Longrightarrow> limited k n fs \<Longrightarrow> limited k n (set_field k' v fs)"
  by (simp add: limited_def)

lemma map_of_compacted:
  "map_of (map (\<lambda>(k, v). (k, compact_raw False v)) fs) k = map_option (compact_raw False) (map_of fs k)"
  by (induction fs) auto

lemma limited_compacted: "limited k n fs \<Longrightarrow> limited k n (map (\<lambda>(k, v). (k, compact_raw False v)) fs)"
  by (simp add: limited_def map_of_compacted compact_int_decimal)

lemma requested_output_range:
  "requested_output fs tf n = Inr l \<Longrightarrow> 1 \<le> n \<Longrightarrow> 1 \<le> l \<and> l \<le> n"
  by (auto simp: requested_output_def split: option.splits if_splits)

lemma fit_output_spec:
  assumes "fit_output fs remaining tf l = Inr (bounded, fs')" "1 \<le> l" "l \<le> 1000000"
  obtains limit where "limited tf limit fs'" "bounded = fields_JSON fs'" "limit \<le> 1000000"
    "int (length bounded) + limit \<le> remaining"
proof -
  let ?b1 = "fields_JSON (set_field tf (int_decimal l) fs)"
  show ?thesis
  proof (cases "int (length ?b1) + l > remaining")
    case True
    define l2 where "l2 = l - (int (length ?b1) + l - remaining)"
    have r: "1 \<le> l2" "fs' = set_field tf (int_decimal l2) (set_field tf (int_decimal l) fs)"
      "bounded = fields_JSON fs'" "int (length bounded) + l2 \<le> remaining"
      using assms(1) True unfolding fit_output_def Let_def l2_def [symmetric]
      by (auto split: if_splits)
    moreover have "l2 \<le> 1000000" using assms(3) True by (simp add: l2_def)
    moreover have "limited tf l2 fs'"
      unfolding r(2) by (rule limited_set_field) (use r(1) \<open>l2 \<le> 1000000\<close> in \<open>simp_all add: MaxInt64_def\<close>)
    ultimately show ?thesis using that [of l2] by blast
  next
    case False
    then have r: "fs' = set_field tf (int_decimal l) fs" "bounded = fields_JSON fs'"
      using assms(1) unfolding fit_output_def Let_def by auto
    have "limited tf l fs'"
      unfolding r(1) by (rule limited_set_field) (use assms in \<open>simp_all add: MaxInt64_def\<close>)
    then show ?thesis using that [of l] r assms(3) False by simp
  qed
qed

lemma token_limit_spec:
  assumes "applyNamedAttemptTokenLimit fs body remaining compact tf = Inr (bounded, fs')"
  obtains limit where "limited tf limit fs'" "bounded = fields_JSON fs'" "limit \<le> 1000000"
    "int (length bounded) + limit \<le> remaining"
proof -
  define l0 where "l0 = (let n = remaining - int (length body) - 64 in if n > 1000000 then 1000000 else n)"
  from assms obtain l where l: "requested_output fs tf l0 = Inr l" "fit_output fs remaining tf l = Inr (bounded, fs')"
    and l0: "1 \<le> l0" "l0 \<le> 1000000"
    unfolding applyNamedAttemptTokenLimit_def Let_def l0_def
    by (auto simp: rbind_eq_Inr_iff split: if_splits)
  have "1 \<le> l" "l \<le> 1000000" using requested_output_range [OF l(1) l0(1)] l0(2) by auto
  then show ?thesis using fit_output_spec [OF l(2)] that by blast
qed

lemma budget_spec:
  assumes run: "applyNamedAttemptBudget fs body remaining ip op compact tf = Inr (bounded, adjusted, fs')"
    and prices: "0 < op"
  obtains limit where "limited tf limit adjusted" "int (length bounded) + limit \<le> ab_tokens remaining"
    "limit \<le> 1000000" "0 \<le> ip"
    "price_of (int (length body) + 64) ip + price_of limit op \<le> ab_costMicros remaining"
proof -
  from run obtain b where tl: "applyNamedAttemptTokenLimit fs body (ab_tokens remaining) compact tf = Inr (b, fs')"
    unfolding applyNamedAttemptBudget_def
    by (auto simp: rbind_eq_Inr_iff Let_def split: if_splits option.splits)
  then obtain n where n: "limited tf n fs'" "n \<le> 1000000" by (rule token_limit_spec)
  define adj where "adj = map (\<lambda>(k, v). (k, compact_raw False v)) fs'"
  have adj: "limited tf n adj" using n(1) limited_compacted by (simp add: adj_def)
  then have n64: "unmarshal_int64 (case map_of adj tf of None \<Rightarrow> [] | Some raw \<Rightarrow> raw) = Some n"
    by (simp add: limited_def unmarshal_int_decimal)
  define c where "c = price_of (int (length body) + 64) ip"
  define m where "m = costTokenCapacity (ab_costMicros remaining - c) op"
  define l where "l = (if m < n then m else n)"
  have full: "tokenCostMicros (int (length body) + 64) ip = Inr c \<and> c < ab_costMicros remaining \<and> 1 \<le> m
    \<and> adjusted = (if m < n then set_field tf (int_decimal l) adj else adj)
    \<and> int (length bounded) + l \<le> ab_tokens remaining"
    using run unfolding applyNamedAttemptBudget_def tl rbind_simps prod.case adj_def [symmetric]
    by (cases "tokenCostMicros (int (length body) + 64) ip")
      (auto simp: tokenCostMicros_eq c_def [symmetric] m_def [symmetric] l_def n64 Let_def split: if_splits)
  have "1 \<le> n" "n \<le> MaxInt64" using n(1) by (auto simp: limited_def)
  then have l: "1 \<le> l" "l \<le> n" "l \<le> m" "limited tf l adjusted"
    using full adj by (auto simp: l_def intro!: limited_set_field)
  have "price_of l op \<le> ab_costMicros remaining - c"
    using full l(3) by (intro capacity_covers prices) (auto simp: m_def)
  then show ?thesis using that [of l] full l n(2) by (simp add: tokenCostMicros_eq c_def)
qed

section \<open>The attempt never exceeds its limits\<close>

definition tokens_used :: "GatewayRequestRow list \<Rightarrow> int" where
  "tokens_used rs = (\<Sum>r\<leftarrow>rs. the (gr_input r) + the (gr_output r))"

definition cost_used :: "int \<Rightarrow> int \<Rightarrow> GatewayRequestRow list \<Rightarrow> int" where
  "cost_used ip op rs = (\<Sum>r\<leftarrow>rs. price_of (the (gr_input r)) ip + price_of (the (gr_output r)) op)"

lemma add_request_Inr:
  "add_request ip op (t, c) r = Inr u \<Longrightarrow>
    u = (t + (the (gr_input r) + the (gr_output r)),
         c + (price_of (the (gr_input r)) ip + price_of (the (gr_output r)) op))"
  by (auto simp: add_request_def Let_def rbind_eq_Inr_iff or_exhausted_def addNonNegative_def
      tokenCostMicros_eq split: if_splits option.splits)

lemma add_requests_sum:
  assumes "fold_result (add_request ip op) (t, c) rs = Inr (t', c')"
  shows "t' = t + tokens_used rs" "c' = c + cost_used ip op rs"
proof -
  have "fold_result (add_request ip op) (t, c) rs = Inr (t', c') \<Longrightarrow>
      t' = t + tokens_used rs \<and> c' = c + cost_used ip op rs" for t c
  proof (induction rs arbitrary: t c)
    case (Cons r rs)
    then obtain u where "add_request ip op (t, c) r = Inr u" "fold_result (add_request ip op) u rs = Inr (t', c')"
      by (auto simp: rbind_eq_Inr_iff)
    with add_request_Inr [of ip op t c r u]
    have "t' = t + (the (gr_input r) + the (gr_output r)) + tokens_used rs"
      "c' = c + (price_of (the (gr_input r)) ip + price_of (the (gr_output r)) op) + cost_used ip op rs"
      using Cons.IH by blast+
    then show ?case by (simp add: tokens_used_def cost_used_def)
  qed (simp add: tokens_used_def cost_used_def)
  from this [OF assms] show "t' = t + tokens_used rs" "c' = c + cost_used ip op rs" by simp_all
qed

definition settled :: "string \<Rightarrow> GatewayRequestRow list \<Rightarrow> GatewayRequestRow list" where
  "settled attemptID db = filter (\<lambda>r. gr_attempt r = attemptID \<and> gr_complete r) db"

lemma remaining_spec:
  assumes "remainingAttemptBudget db a tlim clim ip op = Inr b"
  shows "ab_tokens b = tlim - tokens_used (settled a db)" "ab_costMicros b = clim - cost_used ip op (settled a db)"
    and "1 \<le> ip" "1 \<le> op" "\<forall>r\<in>set db. \<not> unresolved a r"
  using assms add_requests_sum [of ip op 0 0 "settled a db"] unfolding settled_def
  by (auto simp: remainingAttemptBudget_def rbind_eq_Inr_iff split: if_splits)

text \<open>
  One attempt at the gateway. A request takes the slot of the attempt, passes both checks and is
  recorded as started. Its row is completed with the reported usage, which the provider keeps within
  the limit it was sent and within one token per byte of the request; or it ends without a usage.
\<close>

record GatewayLimits =
  lm_attempt :: string
  lm_tokens :: int
  lm_cost :: int
  lm_inputPrice :: int
  lm_outputPrice :: int

record InFlight =
  fl_id :: string
  fl_body :: int
  fl_bounded :: int
  fl_limit :: int

record GatewayState =
  gs_rows :: "GatewayRequestRow list"
  gs_slots :: slot_map
  gs_pending :: "InFlight list"

definition record_outcome ::
  "string \<Rightarrow> string \<Rightarrow> int option \<Rightarrow> int option \<Rightarrow> bool \<Rightarrow> GatewayRequestRow list \<Rightarrow> GatewayRequestRow list" where
  "record_outcome rid state input output known = update_where
    (\<lambda>r. gr_id r = rid \<and> gr_state r = ''STARTED'')
    (\<lambda>r. r\<lparr>gr_state := state, gr_input := input, gr_output := output, gr_complete := known\<rparr>)"

inductive gateway_step :: "GatewayLimits \<Rightarrow> GatewayState \<Rightarrow> GatewayState \<Rightarrow> bool" for L where
  start: "acquireAttemptSlot (lm_attempt L) (gs_slots s) = (True, slots') \<Longrightarrow>
    remainingAttemptBudget (gs_rows s) (lm_attempt L) (lm_tokens L) (lm_cost L) (lm_inputPrice L) (lm_outputPrice L)
      = Inr remaining \<Longrightarrow>
    applyNamedAttemptBudget fs body remaining (lm_inputPrice L) (lm_outputPrice L) compact tokenField
      = Inr (bounded, adjusted, fs') \<Longrightarrow>
    granted tokenField adjusted = Some limit \<Longrightarrow>
    rid \<notin> gr_id ` set (gs_rows s) \<Longrightarrow>
    gateway_step L s (s\<lparr>
      gs_rows := gs_rows s @ [\<lparr>gr_id = rid, gr_attempt = lm_attempt L, gr_state = ''STARTED'',
        gr_input = None, gr_output = None, gr_complete = False\<rparr>],
      gs_slots := slots',
      gs_pending := \<lparr>fl_id = rid, fl_body = int (length body), fl_bounded = int (length bounded), fl_limit = limit\<rparr>
        # gs_pending s\<rparr>)"
| complete: "p \<in> set (gs_pending s) \<Longrightarrow> 0 \<le> input \<Longrightarrow> input \<le> fl_bounded p \<Longrightarrow> input \<le> fl_body p + 64 \<Longrightarrow>
    0 \<le> output \<Longrightarrow> output \<le> fl_limit p \<Longrightarrow>
    gateway_step L s (s\<lparr>
      gs_rows := record_outcome (fl_id p) ''COMPLETE'' (Some input) (Some output) True (gs_rows s),
      gs_slots := releaseAttemptSlot (lm_attempt L) (gs_slots s),
      gs_pending := remove1 p (gs_pending s)\<rparr>)"
| abandon: "p \<in> set (gs_pending s) \<Longrightarrow>
    gateway_step L s (s\<lparr>
      gs_rows := record_outcome (fl_id p) state input output False (gs_rows s),
      gs_slots := releaseAttemptSlot (lm_attempt L) (gs_slots s),
      gs_pending := remove1 p (gs_pending s)\<rparr>)"

definition gateway_init :: "GatewayLimits \<Rightarrow> GatewayState \<Rightarrow> bool" where
  "gateway_init L s \<longleftrightarrow> gs_rows s = [] \<and> gs_slots s = Map.empty \<and> gs_pending s = []
    \<and> 0 \<le> lm_tokens L \<and> 0 \<le> lm_cost L"

text \<open>With a request in flight, its whole grant is set aside.\<close>

definition within :: "GatewayLimits \<Rightarrow> GatewayRequestRow list \<Rightarrow> int \<Rightarrow> int \<Rightarrow> bool" where
  "within L db t c \<longleftrightarrow>
    tokens_used (settled (lm_attempt L) db) + t \<le> lm_tokens L
    \<and> cost_used (lm_inputPrice L) (lm_outputPrice L) (settled (lm_attempt L) db) + c \<le> lm_cost L"

definition reserved_for :: "GatewayLimits \<Rightarrow> GatewayRequestRow list \<Rightarrow> InFlight \<Rightarrow> bool" where
  "reserved_for L db p \<longleftrightarrow>
    (\<exists>xs r ys. db = xs @ r # ys \<and> gr_id r = fl_id p \<and> gr_attempt r = lm_attempt L
       \<and> gr_state r = ''STARTED'' \<and> \<not> gr_complete r \<and> fl_id p \<notin> gr_id ` set (xs @ ys))
    \<and> 0 \<le> lm_inputPrice L \<and> 0 \<le> lm_outputPrice L \<and> 1 \<le> fl_limit p
    \<and> within L db (fl_bounded p + fl_limit p)
        (price_of (fl_body p + 64) (lm_inputPrice L) + price_of (fl_limit p) (lm_outputPrice L))"

definition gateway_inv :: "GatewayLimits \<Rightarrow> GatewayState \<Rightarrow> bool" where
  "gateway_inv L s \<longleftrightarrow>
    (gs_pending s = [] \<and> gs_slots s (lm_attempt L) = None \<and> within L (gs_rows s) 0 0)
    \<or> (\<exists>p. gs_pending s = [p] \<and> gs_slots s (lm_attempt L) = Some 1 \<and> reserved_for L (gs_rows s) p
         \<and> within L (gs_rows s) 0 0)"

lemma settled_append [simp]: "settled a (xs @ ys) = settled a xs @ settled a ys"
  by (simp add: settled_def)

lemma used_append [simp]:
  "tokens_used (xs @ ys) = tokens_used xs + tokens_used ys"
  "cost_used ip op (xs @ ys) = cost_used ip op xs + cost_used ip op ys"
  by (simp_all add: tokens_used_def cost_used_def)

lemma record_outcome_split:
  assumes "gr_id r = rid" "gr_state r = ''STARTED''" "rid \<notin> gr_id ` set (xs @ ys)"
  shows "record_outcome rid state input output known (xs @ r # ys)
    = xs @ r\<lparr>gr_state := state, gr_input := input, gr_output := output, gr_complete := known\<rparr> # ys"
proof -
  have "update_where (\<lambda>r. gr_id r = rid \<and> gr_state r = ''STARTED'') f zs = zs"
    if "rid \<notin> gr_id ` set zs" for f and zs :: "GatewayRequestRow list"
    using that by (induction zs) (auto simp: update_where_def)
  from this [of xs] this [of ys] assms show ?thesis
    by (simp add: record_outcome_def update_where_def image_Un)
qed


lemma within_append_unsettled: "\<not> gr_complete r \<Longrightarrow> within L (db @ [r]) t c \<longleftrightarrow> within L db t c"
  by (simp add: within_def settled_def)

lemma within_completed:
  assumes "\<not> gr_complete r" "gr_attempt r = lm_attempt L"
  shows "within L (xs @ r\<lparr>gr_state := st, gr_input := Some i, gr_output := Some u, gr_complete := True\<rparr> # ys) t c
    \<longleftrightarrow> within L (xs @ r # ys) (i + u + t) (price_of i (lm_inputPrice L) + price_of u (lm_outputPrice L) + c)"
  using assms by (simp add: within_def settled_def tokens_used_def cost_used_def algebra_simps)

lemma within_incomplete:
  assumes "\<not> gr_complete r"
  shows "within L (xs @ r\<lparr>gr_state := st, gr_input := i, gr_output := u, gr_complete := False\<rparr> # ys) t c
    \<longleftrightarrow> within L (xs @ r # ys) t c"
  using assms by (simp add: within_def settled_def)

lemma within_mono: "within L db t c \<Longrightarrow> t' \<le> t \<Longrightarrow> c' \<le> c \<Longrightarrow> within L db t' c'"
  by (simp add: within_def)

lemma reserved_forE:
  assumes "reserved_for L db p"
  obtains xs r ys where "db = xs @ r # ys" "\<not> gr_complete r" "gr_attempt r = lm_attempt L"
    "\<forall>st i u k. record_outcome (fl_id p) st i u k db
       = xs @ r\<lparr>gr_state := st, gr_input := i, gr_output := u, gr_complete := k\<rparr> # ys"
    "within L db (fl_bounded p + fl_limit p)
       (price_of (fl_body p + 64) (lm_inputPrice L) + price_of (fl_limit p) (lm_outputPrice L))"
    "0 \<le> lm_inputPrice L" "0 \<le> lm_outputPrice L"
  using assms unfolding reserved_for_def by (metis record_outcome_split)

lemma budget_start_inv:
  assumes inv: "gateway_inv L s" and slot: "acquireAttemptSlot (lm_attempt L) (gs_slots s) = (True, slots')"
    and rem: "remainingAttemptBudget (gs_rows s) (lm_attempt L) (lm_tokens L) (lm_cost L) (lm_inputPrice L)
      (lm_outputPrice L) = Inr remaining"
    and app: "applyNamedAttemptBudget fs body remaining (lm_inputPrice L) (lm_outputPrice L) compact tf
      = Inr (bounded, adjusted, fs')"
    and lim: "granted tf adjusted = Some limit" and new: "rid \<notin> gr_id ` set (gs_rows s)"
  shows "gs_pending s = []" "slots' (lm_attempt L) = Some 1"
    and "reserved_for L (gs_rows s @ [\<lparr>gr_id = rid, gr_attempt = lm_attempt L, gr_state = ''STARTED'',
        gr_input = None, gr_output = None, gr_complete = False\<rparr>])
      \<lparr>fl_id = rid, fl_body = int (length body), fl_bounded = int (length bounded), fl_limit = limit\<rparr>"
proof -
  show "gs_pending s = []" "slots' (lm_attempt L) = Some 1"
    using inv slot by (auto simp: gateway_inv_def acquireAttemptSlot_def Let_def split: option.splits if_splits)
  note r = remaining_spec [OF rem]
  from r(4) have "0 < lm_outputPrice L" by simp
  with app obtain l where l: "limited tf l adjusted" "int (length bounded) + l \<le> ab_tokens remaining" "l \<le> 1000000"
      "price_of (int (length body) + 64) (lm_inputPrice L) + price_of l (lm_outputPrice L) \<le> ab_costMicros remaining"
    by (rule budget_spec)
  then have "limit = l" "1 \<le> l" using lim limited_granted [OF l(1)] by (simp_all add: limited_def)
  let ?row = "\<lparr>gr_id = rid, gr_attempt = lm_attempt L, gr_state = ''STARTED'',
        gr_input = None, gr_output = None, gr_complete = False\<rparr>"
  let ?p = "\<lparr>fl_id = rid, fl_body = int (length body), fl_bounded = int (length bounded), fl_limit = limit\<rparr>"
  have "\<exists>xs r ys. gs_rows s @ [?row] = xs @ r # ys \<and> gr_id r = fl_id ?p \<and> gr_attempt r = lm_attempt L
       \<and> gr_state r = ''STARTED'' \<and> \<not> gr_complete r \<and> fl_id ?p \<notin> gr_id ` set (xs @ ys)"
    using new by (intro exI [of _ "gs_rows s"] exI [of _ ?row] exI [of _ "[]"]) simp
  moreover have "within L (gs_rows s @ [?row]) (fl_bounded ?p + fl_limit ?p)
        (price_of (fl_body ?p + 64) (lm_inputPrice L) + price_of (fl_limit ?p) (lm_outputPrice L))"
    using r(1,2) l(2,4) \<open>limit = l\<close> by (subst within_append_unsettled) (simp_all add: within_def)
  ultimately show "reserved_for L (gs_rows s @ [?row]) ?p"
    using r(3,4) \<open>limit = l\<close> \<open>1 \<le> l\<close> unfolding reserved_for_def by simp
qed

lemma gateway_inv_step:
  assumes inv: "gateway_inv L s" and step: "gateway_step L s t"
  shows "gateway_inv L t"
  using step
proof cases
  case (start slots' remaining fs body compact tf bounded adjusted fs' limit rid)
  from budget_start_inv [OF inv start(2-6)] inv show ?thesis
    unfolding start(1) by (auto simp: gateway_inv_def within_append_unsettled)
next
  case (complete p i u)
  then have p: "gs_pending s = [p]" "gs_slots s (lm_attempt L) = Some 1" "reserved_for L (gs_rows s) p"
    using inv by (auto simp: gateway_inv_def)
  obtain xs r ys where x: "gs_rows s = xs @ r # ys" "\<not> gr_complete r" "gr_attempt r = lm_attempt L"
    "\<forall>st i u k. record_outcome (fl_id p) st i u k (gs_rows s)
       = xs @ r\<lparr>gr_state := st, gr_input := i, gr_output := u, gr_complete := k\<rparr> # ys"
    "within L (gs_rows s) (fl_bounded p + fl_limit p)
       (price_of (fl_body p + 64) (lm_inputPrice L) + price_of (fl_limit p) (lm_outputPrice L))"
    "0 \<le> lm_inputPrice L" "0 \<le> lm_outputPrice L"
    by (rule reserved_forE [OF p(3)])
  have "within L (gs_rows s) (i + u + 0)
      (price_of i (lm_inputPrice L) + price_of u (lm_outputPrice L) + 0)"
    using price_of_mono [OF x(6) complete(5)] price_of_mono [OF x(7) complete(7)] complete
    by (intro within_mono [OF x(5)]) auto
  then have "within L (record_outcome (fl_id p) ''COMPLETE'' (Some i) (Some u) True (gs_rows s)) 0 0"
    unfolding x(4) [rule_format] within_completed [OF x(2,3)] by (simp only: x(1))
  then show ?thesis unfolding complete(1) using p by (simp add: gateway_inv_def releaseAttemptSlot_def)
next
  case (abandon p st i u)
  then have p: "gs_pending s = [p]" "gs_slots s (lm_attempt L) = Some 1" "reserved_for L (gs_rows s) p"
    "within L (gs_rows s) 0 0"
    using inv by (auto simp: gateway_inv_def)
  obtain xs r ys where x: "gs_rows s = xs @ r # ys" "\<not> gr_complete r"
    "\<forall>st i u k. record_outcome (fl_id p) st i u k (gs_rows s)
       = xs @ r\<lparr>gr_state := st, gr_input := i, gr_output := u, gr_complete := k\<rparr> # ys"
    by (rule reserved_forE [OF p(3)])
  have "within L (record_outcome (fl_id p) st i u False (gs_rows s)) 0 0"
    using p(4) unfolding x(3) [rule_format] within_incomplete [OF x(2)] by (simp only: x(1))
  then show ?thesis unfolding abandon(1) using p by (simp add: gateway_inv_def releaseAttemptSlot_def)
qed

interpretation gateway_system: step_system "gateway_init L" "gateway_step L" "gateway_inv L" for L
proof unfold_locales
  show "gateway_inv L s" if "gateway_init L s" for s
    using that by (simp add: gateway_init_def gateway_inv_def within_def settled_def tokens_used_def cost_used_def)
qed (rule gateway_inv_step)

lemma gateway_inv_within: "gateway_inv L s \<Longrightarrow> within L (gs_rows s) 0 0"
  by (auto simp: gateway_inv_def)


section \<open>Properties of the gateway budget\<close>


definition example_body :: string where
  "example_body = [CHR 0x7B, CHR 0x7D]"

definition example_budget :: attemptBudget where
  "example_budget = \<lparr>ab_tokens = 100, ab_costMicros = 80\<rparr>"

lemma example_run:
  "applyNamedAttemptBudget [] example_body example_budget 1000000 3000000 False ''n''
    = Inr (fields_JSON [(''n'', ''4'')], [(''n'', ''4'')], [(''n'', ''34'')])"
  by code_simp



definition example_limits :: GatewayLimits where
  "example_limits = \<lparr>lm_attempt = ''a1'', lm_tokens = 100, lm_cost = 80, lm_inputPrice = 1000000,
    lm_outputPrice = 3000000\<rparr>"

definition example_gateway :: GatewayState where
  "example_gateway = \<lparr>gs_rows = [], gs_slots = Map.empty, gs_pending = []\<rparr>"

definition example_started :: GatewayState where
  "example_started = \<lparr>
    gs_rows = [\<lparr>gr_id = ''r1'', gr_attempt = ''a1'', gr_state = ''STARTED'', gr_input = None, gr_output = None,
      gr_complete = False\<rparr>],
    gs_slots = [''a1'' \<mapsto> 1],
    gs_pending = [\<lparr>fl_id = ''r1'', fl_body = 2, fl_bounded = 7, fl_limit = 4\<rparr>]\<rparr>"

definition example_completed :: GatewayState where
  "example_completed = \<lparr>
    gs_rows = [\<lparr>gr_id = ''r1'', gr_attempt = ''a1'', gr_state = ''COMPLETE'', gr_input = Some 7, gr_output = Some 4,
      gr_complete = True\<rparr>],
    gs_slots = Map.empty,
    gs_pending = []\<rparr>"

lemma example_start: "gateway_step example_limits example_gateway example_started"
proof -
  have rem: "remainingAttemptBudget [] ''a1'' 100 80 1000000 3000000 = Inr example_budget"
    by code_simp
  have len: "int (length example_body) = 2"
    "int (length (fields_JSON [(''n'', ''4'')])) = 7"
    by code_simp+
  have gr: "granted ''n'' [(''n'', ''4'')] = Some 4"
    by code_simp
  have "gateway_step example_limits example_gateway (example_gateway\<lparr>
      gs_rows := gs_rows example_gateway @ [\<lparr>gr_id = ''r1'', gr_attempt = lm_attempt example_limits,
        gr_state = ''STARTED'', gr_input = None, gr_output = None, gr_complete = False\<rparr>],
      gs_slots := [''a1'' \<mapsto> 1],
      gs_pending := \<lparr>fl_id = ''r1'', fl_body = int (length example_body), fl_bounded = int (length
        (fields_JSON [(''n'', ''4'')])), fl_limit = 4\<rparr>
        # gs_pending example_gateway\<rparr>)"
    by (rule gateway_step.start [where remaining = example_budget and fs = "[]" and compact = False
          and tokenField = "''n''"])
      (use rem gr example_run in \<open>simp_all add: example_limits_def example_gateway_def acquireAttemptSlot_def\<close>)
  then show ?thesis unfolding len
    by (simp add: example_limits_def example_gateway_def example_started_def)
qed

lemma example_complete: "gateway_step example_limits example_started example_completed"
  using gateway_step.complete [of "hd (gs_pending example_started)" example_started 7 4 example_limits]
  by (simp add: example_started_def example_completed_def example_limits_def record_outcome_def update_where_def
      releaseAttemptSlot_def)



definition example_responses :: raw_fields where
  "example_responses = []"


end
