(* ===== verification/Control_Store.thy ===== *)
theory Control_Store
  imports Governance
begin

text \<open>
  The server's execution database: the identity of a caller (\<open>internal/rpcutil\<close>), the execution
  tables (\<open>jobs\<close>, \<open>stages\<close>, \<open>tasks\<close>, \<open>attempts\<close>, \<open>workers\<close>, \<open>commands\<close>, \<open>events\<close>, \<open>event_dedup\<close>, \<open>controls\<close>,
  \<open>artifacts\<close>, \<open>artifact_refs\<close>, \<open>job_events\<close>) and the control tables (\<open>control_operations\<close>,
  \<open>approval_requests\<close>, \<open>control_write_leases\<close>), as far as the modelled operations
  use their columns. The conventions are those of the goal tables: a table is a list of rows, an
  insert against a constraint fails, a transaction that fails keeps the old database. \<open>store.Now()\<close> is
  the argument \<open>now\<close>; the new identifiers of \<open>store.ID()\<close> are arguments too.

  \<open>ct_goal\<close> is the goal database (theory \<open>Goal_Store\<close>) of the same server: the statements of the server that
  touch both kinds of tables run in one transaction. Its \<open>db_jobs\<close> are the columns of \<open>jobs\<close> that the goal
  queries read, written together with \<open>ct_jobs\<close>. \<open>goal_evaluations\<close>, \<open>traces\<close>, \<open>attempt_metrics\<close>, \<open>gateway_requests\<close>,
  \<open>iu_nodes\<close> and \<open>iu_admissions\<close> follow with the columns the execution path uses.

  A command's body is stored as the command, not as its protobuf text.
\<close>

section \<open>Callers\<close>

record IdentityLimits =
  il_MaxActiveJobs :: int
  il_MaxQueuedJobs :: int
  il_MaxModelRequests :: int

record Identity =
  id_GoalActorID :: string
  id_GoalActorKind :: string
  id_TraceOwner :: string
  id_TokenFile :: string
  id_Owner :: string
  id_Projects :: "string list"
  id_Credentials :: "string list"
  id_WorkerID :: string
  id_Scopes :: "string list"
  id_ModelProject :: string
  id_ModelRoute :: string
  id_ConversationProfile :: string
  id_Limits :: IdentityLimits
  id_ClientCertSHA256 :: "string list"

record Principal =
  pr_ManagedKeyDigest :: string
  pr_Identity :: Identity
  pr_Worker :: bool

abbreviation pr_Owner :: "Principal \<Rightarrow> string" where
  "pr_Owner p \<equiv> id_Owner (pr_Identity p)"

definition User :: "Principal option \<Rightarrow> Principal result" where
  "User ctx = (
    case ctx of None \<Rightarrow> Inl (Status ''PermissionDenied'' ''user identity required'')
    | Some p \<Rightarrow>
      if pr_Worker p \<or> id_Scopes (pr_Identity p) = [''models:invoke'']
      then Inl (Status ''PermissionDenied'' ''user identity required'') else Inr p)"

definition Require :: "Principal option \<Rightarrow> string \<Rightarrow> bool \<Rightarrow> Principal result" where
  "Require ctx scope legacy =
    rbind (User ctx) (\<lambda>p.
      if legacy \<and> id_Scopes (pr_Identity p) = [] \<or> scope \<in> set (id_Scopes (pr_Identity p)) then Inr p
      else Inl (Status ''PermissionDenied'' ''scope not granted''))"

section \<open>Tables\<close>

text \<open>
  \<open>j_spec\<close>, \<open>j_digests\<close>, \<open>j_routes\<close> and \<open>j_route_digests\<close> are the parts of \<open>frozen\<close>, what \<open>readJob\<close> decodes from the
  column \<open>spec\<close>. \<open>j_graph\<close> is present for a graph job, whose frozen graph names its goal and generation.
\<close>

record ExecJobRow =
  j_id :: string
  j_owner :: string
  j_project :: string
  j_idem :: string
  j_request_hash :: string
  j_mode :: string
  j_state :: string
  j_version :: int
  j_seq :: int
  j_created :: int
  j_updated :: int
  j_deadline :: int
  j_parallelism :: int
  j_stop_reason :: string
  j_error_code :: string
  j_spec :: Spec
  j_digests :: "(string \<times> string) list"
  j_routes :: "(string \<times> string) list"
  j_route_digests :: "(string \<times> string) list"
  j_manifest :: "json option"
  j_manifest_hash :: string
  j_result :: "json option"
  j_spec_hash :: string
  j_trace :: string
  j_graph :: "(string \<times> int) option"

record TaskRow =
  t_id :: string
  t_owner :: string
  t_project :: string
  t_idem :: string
  t_hash :: string
  t_spec :: TaskSpec
  t_state :: string
  t_attempt :: string
  t_worker :: string
  t_created :: int
  t_updated :: int
  t_seq :: int
  t_error_code :: string
  t_error_message :: string
  t_result :: string
  t_native_session :: string
  t_blocker :: string
  t_priority :: int
  t_deadline :: int
  t_job :: "string option"
  t_stage :: string
  t_partition :: string
  t_stage_id :: "string option"
  t_generation :: int
  t_retry_after :: int
  t_event_floor :: int

abbreviation t_profile :: "TaskRow \<Rightarrow> string" where
  "t_profile t \<equiv> ts_RuntimeProfile (t_spec t)"

record AttemptRow =
  a_id :: string
  a_task :: string
  a_worker :: string
  a_epoch :: string
  a_generation :: int
  a_token :: string
  a_lease_until :: int
  a_released :: bool
  a_final_hash :: string
  a_worker_seq :: int
  a_last_renewed :: int
  a_model_token :: "string option"

record WorkerRow =
  wk_id :: string
  wk_epoch :: string
  wk_seen :: int

record EventRow =
  e_task :: string
  e_seq :: int
  e_attempt :: string
  e_worker_seq :: "int option"
  e_id :: "string option"
  e_hash :: string
  e_type :: string
  e_payload :: "json option"

record DedupRow =
  dd_attempt :: string
  dd_worker_seq :: int
  dd_hash :: string

record ControlsRow =
  cl_task :: string
  cl_id :: string
  cl_hash :: string

record ArtifactRow =
  af_id :: string
  af_task :: string
  af_attempt :: string
  af_generation :: int
  af_kind :: string
  af_hash :: string
  af_size :: int
  af_path :: string
  af_state :: string
  af_created :: int
  af_updated :: int
  af_gc_after :: int
  af_deleted_at :: int

record ArtifactRefRow =
  rf_artifact :: string
  rf_type :: string
  rf_ref :: string
  rf_created :: int

record StageRow =
  sg_id :: string
  sg_job :: string
  sg_kind :: string
  sg_ordinal :: int
  sg_state :: string
  sg_updated :: int

record EvaluationRow =
  el_goal :: string
  el_generation :: int
  el_job :: string
  el_job_version :: int
  el_evaluator :: string
  el_verdict :: string
  el_evidence :: json
  el_created :: int

record TraceRow =
  tr_id :: string
  tr_owner :: string
  tr_project :: string
  tr_scope :: string
  tr_created :: int

text \<open>The measurements a runtime reports for an attempt (\<open>telemetry.Attempt\<close>).\<close>

record Tokens =
  tk_Input :: int
  tk_Output :: int
  tk_CachedInput :: int

record ProcessUse =
  pu_WallMS :: int
  pu_UserCPUMS :: int
  pu_SystemCPUMS :: int
  pu_PeakRSSBytes :: int

record AttemptMetrics =
  mt_UsageComplete :: bool
  mt_Source :: string
  mt_Usage :: "Tokens option"
  mt_CostUnits :: "int option"
  mt_CostComplete :: bool
  mt_BudgetReached :: bool
  mt_Process :: "ProcessUse option"
  mt_NativeFinal :: bool

record MetricsRow =
  am_attempt :: string
  am_payload :: AttemptMetrics
  am_recorded :: int

record GatewayRow =
  gw_attempt :: "string option"
  gw_input :: "int option"
  gw_output :: "int option"

record NodeRow =
  nd_goal :: string
  nd_generation :: int
  nd_node :: string
  nd_task :: "string option"

record AdmissionRow =
  ad_goal :: string
  ad_generation :: int
  ad_node :: string
  ad_artifact :: string
  ad_port :: string
  ad_hash :: string
  ad_state :: string
  ad_receipt :: string
  ad_created :: int

record JobEventRow =
  je_job :: string
  je_seq :: int
  je_type :: string
  je_recorded :: int
  je_body :: json
  je_operation :: "(string \<times> string) option"

text \<open>\<open>operation_key\<close> and \<open>operation_hash\<close> are both null or both present, hence one optional pair.\<close>

record ControlCommand =
  cc_OperationId :: string
  cc_TaskId :: string
  cc_AttemptId :: string
  cc_Generation :: int
  cc_SessionRef :: string
  cc_Action :: string
  cc_Mode :: string
  cc_Input :: "string option"
  cc_ApprovalId :: string
  cc_RequestVersion :: int
  cc_Decision :: string
  cc_PrincipalId :: string

text \<open>
  What an assignment tells the worker about its job, its access to the model gateway and its budget. The input
  manifest and the invocation of a graph node are held as JSON trees.
\<close>

record JobExecution =
  jx_JobId :: string
  jx_Stage :: string
  jx_PartitionKey :: string
  jx_ScopePaths :: "string list"
  jx_Strategy :: string
  jx_TemplateDigest :: string
  jx_InputManifest :: "json option"
  jx_InputManifestSha256 :: string
  jx_InputLimitBytes :: int
  jx_GraphExecution :: "json option"

record GatewayAccess =
  ga_BaseUrl :: string
  ga_Route :: string

record RuntimeBudget =
  rb_RemainingCostUnits :: "int option"
  rb_CostSemantics :: string

record Assignment =
  as_TaskId :: string
  as_AttemptId :: string
  as_Generation :: int
  as_LeaseToken :: string
  as_LeaseTtlMs :: int
  as_DeadlineMs :: int
  as_Spec :: "TaskSpec option"
  as_Job :: "JobExecution option"
  as_Gateway :: "GatewayAccess option"
  as_RuntimeBudget :: "RuntimeBudget option"

record CommandRow =
  cm_id :: string
  cm_task :: string
  cm_attempt :: string
  cm_worker :: string
  cm_kind :: string
  cm_control :: "ControlCommand option"
  cm_assignment :: "Assignment option"
  cm_acked :: bool

record ControlOperationReceipt =
  rc_OperationID :: string
  rc_State :: string
  rc_Existing :: bool
  rc_JobID :: string
  rc_TaskID :: string
  rc_AttemptID :: string
  rc_Generation :: int
  rc_ResourceVersion :: int
  rc_ErrorCode :: string
  rc_ErrorMessage :: string

record ControlOpRow =
  co_principal :: string
  co_operation :: string
  co_type :: string
  co_resource_type :: string
  co_resource_id :: string
  co_job :: string
  co_task :: string
  co_attempt :: string
  co_generation :: int
  co_version :: int
  co_hash :: string
  co_state :: string
  co_receipt :: ControlOperationReceipt
  co_created :: int
  co_updated :: int

record ApprovalRow =
  ap_id :: string
  ap_version :: int
  ap_job :: string
  ap_task :: string
  ap_attempt :: string
  ap_generation :: int
  ap_session :: string
  ap_tool :: string
  ap_action :: string
  ap_risk :: string
  ap_summary :: string
  ap_policy :: json
  ap_hash :: string
  ap_requested :: int
  ap_expires :: int
  ap_state :: string
  ap_decision :: string
  ap_decided_by :: string
  ap_decided_at :: int

record LeaseRow =
  lz_job :: string
  lz_principal :: string
  lz_holder :: string
  lz_token_hash :: string
  lz_expires :: int
  lz_updated :: int

record ControlDB =
  ct_jobs :: "ExecJobRow list"
  ct_tasks :: "TaskRow list"
  ct_attempts :: "AttemptRow list"
  ct_commands :: "CommandRow list"
  ct_job_events :: "JobEventRow list"
  ct_operations :: "ControlOpRow list"
  ct_approvals :: "ApprovalRow list"
  ct_leases :: "LeaseRow list"
  ct_workers :: "WorkerRow list"
  ct_events :: "EventRow list"
  ct_dedup :: "DedupRow list"
  ct_controls :: "ControlsRow list"
  ct_artifacts :: "ArtifactRow list"
  ct_refs :: "ArtifactRefRow list"
  ct_stages :: "StageRow list"
  ct_goal :: GoalDB
  ct_evaluations :: "EvaluationRow list"
  ct_traces :: "TraceRow list"
  ct_metrics :: "MetricsRow list"
  ct_gateway :: "GatewayRow list"
  ct_nodes :: "NodeRow list"
  ct_admissions :: "AdmissionRow list"

definition empty_control_db :: ControlDB where
  "empty_control_db = \<lparr>ct_jobs = [], ct_tasks = [], ct_attempts = [], ct_commands = [], ct_job_events = [],
    ct_operations = [], ct_approvals = [], ct_leases = [], ct_workers = [], ct_events = [], ct_dedup = [],
    ct_controls = [], ct_artifacts = [], ct_refs = [], ct_stages = [], ct_goal = empty_db, ct_evaluations = [],
    ct_traces = [], ct_metrics = [], ct_gateway = [], ct_nodes = [], ct_admissions = []\<rparr>"

section \<open>Shared operations\<close>

definition job_terminal :: "string \<Rightarrow> bool" where
  "job_terminal s \<longleftrightarrow> s = ''SUCCEEDED'' \<or> s = ''FAILED'' \<or> s = ''CANCELED''"

definition dbErr :: "error \<Rightarrow> error" where
  "dbErr e = (case e of Status c m \<Rightarrow> Status c m | Sql_no_rows \<Rightarrow> Status ''NotFound'' ''not found''
    | _ \<Rightarrow> Status ''Unavailable'' ''storage operation failed'')"

definition map_error :: "(error \<Rightarrow> error) \<Rightarrow> 'a result \<Rightarrow> 'a result" where
  "map_error f r = (case r of Inl e \<Rightarrow> Inl (f e) | Inr x \<Rightarrow> Inr x)"

lemma map_error_simps [simp]:
  "map_error f (Inl e) = Inl (f e)" "map_error f (Inr x) = Inr x"
  "map_error f r = Inr x \<longleftrightarrow> r = Inr x"
  by (auto simp: map_error_def split: sum.splits)

definition jobAuthorized :: "Principal option \<Rightarrow> string \<Rightarrow> string \<Rightarrow> ControlDB \<Rightarrow> ExecJobRow result" where
  "jobAuthorized ctx jid scope db =
    rbind (Require ctx scope False) (\<lambda>p.
    rbind (map_error dbErr (select_row (\<lambda>j. j_id j = jid) (ct_jobs db))) (\<lambda>j.
    if j_owner j \<noteq> pr_Owner p \<or> j_project j \<notin> set (id_Projects (pr_Identity p))
    then Inl (Status ''NotFound'' ''NOT_FOUND'') else Inr j))"

text \<open>
  \<open>UPDATE jobs SET seq=seq+1 ... RETURNING seq\<close> answers no row for an unknown job. A job event has the
  key (job, seq), and (job, operation) is unique for events with an operation.
\<close>

definition appendJobEvent ::
  "string \<Rightarrow> string \<Rightarrow> json \<Rightarrow> string \<Rightarrow> string \<Rightarrow> int \<Rightarrow> ControlDB \<Rightarrow> ControlDB result" where
  "appendJobEvent jid typ body op hash now db =
    rbind (select_row (\<lambda>j. j_id j = jid) (ct_jobs db)) (\<lambda>j.
      let seq = j_seq j + 1;
          jobs' = update_where (\<lambda>x. j_id x = jid) (\<lambda>x. x\<lparr>j_seq := j_seq x + 1, j_updated := now\<rparr>) (ct_jobs db);
          operation = (if op \<noteq> [] then Some (op, hash) else None);
          ev = \<lparr>je_job = jid, je_seq = seq, je_type = typ, je_recorded = now, je_body = body, je_operation = operation\<rparr>
      in rbind (insert_row (\<lambda>r x. je_job r = je_job x \<and> (je_seq r = je_seq x
            \<or> (case (je_operation r, je_operation x) of (Some (o1, _), Some (o2, _)) \<Rightarrow> o1 = o2 | _ \<Rightarrow> False)))
          ev (ct_job_events db)) (\<lambda>events. Inr (db\<lparr>ct_jobs := jobs', ct_job_events := events\<rparr>)))"

end
