(* ===== verification/Control_Lease.thy ===== *)
theory Control_Lease
  imports Control_Store
begin

text \<open>
  The write lease of the control plane (\<open>internal/server/control_lease.go\<close>): acquire, renew, release, and
  the check that guards every write (\<open>requireControlWriteLease\<close>).

  A lease is kept per job with the hash of its token. Time is an argument of each operation; a run is
  a sequence of operations at times that do not decrease. The state of a run is the database together
  with the grants that were handed out, each with its token and the time until which it was promised.
  \<open>store.ID()\<close> gives a fresh token each time; tokens with different texts are taken to have different
  hashes (the only assumption about SHA-256 in this theory).

  Shown: at most one holder can write at any time, and a grant stays good until it expires, is
  released, or is replaced by its own holder.
\<close>

section \<open>Operations\<close>

definition controlWriteLeaseTTL :: int where
  "controlWriteLeaseTTL = 30000"

record ControlWriteLease =
  cw_JobID :: string
  cw_HolderID :: string
  cw_LeaseToken :: string
  cw_ExpiresAtMS :: int

definition validateLeaseHolder :: "string \<Rightarrow> unit result" where
  "validateLeaseHolder holder0 = (
    let holder = trim_space holder0 in
    if holder = [] \<or> length holder > 128
    then Inl (Status ''InvalidArgument'' ''invalid control lease holder'') else Inr ())"

text \<open>\<open>INSERT ... ON CONFLICT(job_id) DO UPDATE\<close>; the job must exist.\<close>

definition upsert_lease :: "LeaseRow \<Rightarrow> ControlDB \<Rightarrow> ControlDB result" where
  "upsert_lease l db = (
    if \<not> list_ex (\<lambda>j. j_id j = lz_job l) (ct_jobs db) then Inl Sql_constraint
    else if list_ex (\<lambda>x. lz_job x = lz_job l) (ct_leases db)
    then Inr (db\<lparr>ct_leases := update_where (\<lambda>x. lz_job x = lz_job l) (\<lambda>_. l) (ct_leases db)\<rparr>)
    else Inr (db\<lparr>ct_leases := ct_leases db @ [l]\<rparr>))"

definition acquire_tx :: "string \<Rightarrow> string \<Rightarrow> string \<Rightarrow> string \<Rightarrow> int \<Rightarrow> ControlDB \<Rightarrow> ControlDB result" where
  "acquire_tx owner jobID holder token now db = (
    case List.find (\<lambda>l. lz_job l = jobID) (ct_leases db) of
      Some old \<Rightarrow>
        if lz_expires old > now \<and> (lz_principal old \<noteq> owner \<or> lz_holder old \<noteq> holder)
        then Inl (Status ''AlreadyExists'' ''WRITE_LEASE_HELD'')
        else upsert_lease \<lparr>lz_job = jobID, lz_principal = owner, lz_holder = holder, lz_token_hash = Hash token,
               lz_expires = now + controlWriteLeaseTTL, lz_updated = now\<rparr> db
    | None \<Rightarrow> upsert_lease \<lparr>lz_job = jobID, lz_principal = owner, lz_holder = holder, lz_token_hash = Hash token,
               lz_expires = now + controlWriteLeaseTTL, lz_updated = now\<rparr> db)"

definition acquireControlWriteLease ::
  "Principal option \<Rightarrow> string \<Rightarrow> string \<Rightarrow> string \<Rightarrow> int \<Rightarrow> ControlDB \<Rightarrow> (ControlWriteLease \<times> ControlDB) result" where
  "acquireControlWriteLease ctx jobID holder token now db =
    rbind (Require ctx ''jobs:control'' False) (\<lambda>principal.
    rbind (validateLeaseHolder holder) (\<lambda>_.
    rbind (jobAuthorized ctx jobID ''jobs:read'' db) (\<lambda>j.
    if j_owner j \<noteq> pr_Owner principal then Inl (Status ''NotFound'' ''NOT_FOUND'')
    else rbind (map_error dbErr (acquire_tx (pr_Owner principal) jobID holder token now db)) (\<lambda>db'.
      Inr (\<lparr>cw_JobID = jobID, cw_HolderID = holder, cw_LeaseToken = token,
            cw_ExpiresAtMS = now + controlWriteLeaseTTL\<rparr>, db')))))"

definition lease_match :: "string \<Rightarrow> string \<Rightarrow> string \<Rightarrow> string \<Rightarrow> LeaseRow \<Rightarrow> bool" where
  "lease_match jobID owner holder token l \<longleftrightarrow>
    lz_job l = jobID \<and> lz_principal l = owner \<and> lz_holder l = holder \<and> lz_token_hash l = Hash token"

definition renewControlWriteLease ::
  "Principal option \<Rightarrow> string \<Rightarrow> string \<Rightarrow> string \<Rightarrow> int \<Rightarrow> ControlDB \<Rightarrow> (ControlWriteLease \<times> ControlDB) result" where
  "renewControlWriteLease ctx jobID holder token now db =
    rbind (Require ctx ''jobs:control'' False) (\<lambda>principal.
    rbind (validateLeaseHolder holder) (\<lambda>_.
    if token = [] then Inl (Status ''FailedPrecondition'' ''WRITE_LEASE_REQUIRED'')
    else
      let expires = now + controlWriteLeaseTTL;
          hit = (\<lambda>l. lease_match jobID (pr_Owner principal) holder token l \<and> lz_expires l > now)
      in if count_where hit (ct_leases db) \<noteq> 1 then Inl (Status ''FailedPrecondition'' ''WRITE_LEASE_INVALID'')
         else Inr (\<lparr>cw_JobID = jobID, cw_HolderID = holder, cw_LeaseToken = token, cw_ExpiresAtMS = expires\<rparr>,
           db\<lparr>ct_leases := update_where hit (\<lambda>l. l\<lparr>lz_expires := expires, lz_updated := now\<rparr>) (ct_leases db)\<rparr>)))"

definition releaseControlWriteLease ::
  "Principal option \<Rightarrow> string \<Rightarrow> string \<Rightarrow> string \<Rightarrow> ControlDB \<Rightarrow> ControlDB result" where
  "releaseControlWriteLease ctx jobID holder token db =
    rbind (Require ctx ''jobs:control'' False) (\<lambda>principal.
    rbind (validateLeaseHolder holder) (\<lambda>_.
    if token = [] then Inl (Status ''FailedPrecondition'' ''WRITE_LEASE_REQUIRED'')
    else
      let hit = lease_match jobID (pr_Owner principal) holder token
      in if count_where hit (ct_leases db) \<noteq> 1 then Inl (Status ''FailedPrecondition'' ''WRITE_LEASE_INVALID'')
         else Inr (db\<lparr>ct_leases := filter (\<lambda>l. \<not> hit l) (ct_leases db)\<rparr>)))"

text \<open>\<open>header\<close> is the list of values of \<open>X-Control-Lease\<close>.\<close>

definition requireControlWriteLease ::
  "Principal option \<Rightarrow> string list \<Rightarrow> string \<Rightarrow> int \<Rightarrow> ControlDB \<Rightarrow> unit result" where
  "requireControlWriteLease ctx header jobID now db =
    rbind (Require ctx ''jobs:control'' False) (\<lambda>principal.
    if length header \<noteq> 1 \<or> trim_space (hd header) = []
    then Inl (Status ''FailedPrecondition'' ''WRITE_LEASE_REQUIRED'')
    else if count_where (\<lambda>l. lz_job l = jobID \<and> lz_principal l = pr_Owner principal
        \<and> lz_token_hash l = Hash (hd header) \<and> lz_expires l > now) (ct_leases db) \<noteq> 1
    then Inl (Status ''FailedPrecondition'' ''WRITE_LEASE_INVALID'') else Inr ())"

section \<open>One row per job\<close>

definition leases_ok :: "ControlDB \<Rightarrow> bool" where
  "leases_ok db \<longleftrightarrow> distinct (map lz_job (ct_leases db))"

lemma leases_ok_find:
  "leases_ok db \<Longrightarrow> l \<in> set (ct_leases db) \<Longrightarrow> List.find (\<lambda>x. lz_job x = lz_job l) (ct_leases db) = Some l"
  by (simp add: leases_ok_def find_unique_key)

lemma leases_ok_unique:
  "leases_ok db \<Longrightarrow> l \<in> set (ct_leases db) \<Longrightarrow> m \<in> set (ct_leases db) \<Longrightarrow> lz_job l = lz_job m \<Longrightarrow> l = m"
  by (auto simp: leases_ok_def distinct_map dest: inj_onD)

lemma count_one:
  assumes "leases_ok db" "l \<in> set (ct_leases db)" "P l" "\<And>m. P m \<Longrightarrow> lz_job m = lz_job l"
  shows "count_where P (ct_leases db) = 1"
proof -
  have "distinct (ct_leases db)" using assms(1) by (simp add: leases_ok_def distinct_map)
  moreover have "set (filter P (ct_leases db)) = {l}"
    using assms leases_ok_unique [OF assms(1)] by auto
  ultimately show ?thesis unfolding count_where_def
    by (metis One_nat_def card.empty card.insert distinct_card distinct_filter empty_iff finite.emptyI)
qed

lemma count_one_ex: "count_where P xs = 1 \<Longrightarrow> \<exists>x\<in>set xs. P x"
  by (metis count_where_0_iff zero_neq_one)

lemma upsert_lease_Inr:
  assumes "upsert_lease l db = Inr db'" "leases_ok db"
  shows "leases_ok db'"
    and "set (ct_leases db') = insert l {x \<in> set (ct_leases db). lz_job x \<noteq> lz_job l}"
proof -
  have "leases_ok db' \<and> set (ct_leases db') = insert l {x \<in> set (ct_leases db). lz_job x \<noteq> lz_job l}"
  proof (cases "list_ex (\<lambda>x. lz_job x = lz_job l) (ct_leases db)")
    case True
    then have db': "ct_leases db' = update_where (\<lambda>x. lz_job x = lz_job l) (\<lambda>_. l) (ct_leases db)"
      using assms(1) by (auto simp: upsert_lease_def split: if_splits)
    have "map lz_job (ct_leases db') = map lz_job (ct_leases db)"
      unfolding db' by (rule map_update_where) simp
    moreover have "x \<in> set (ct_leases db') \<longleftrightarrow> x \<in> insert l {x \<in> set (ct_leases db). lz_job x \<noteq> lz_job l}" for x
      unfolding db' in_update_where_iff using True by (auto simp: list_ex_iff)
    ultimately show ?thesis using assms(2) by (auto simp: leases_ok_def)
  next
    case False
    then have db': "ct_leases db' = ct_leases db @ [l]"
      using assms(1) by (auto simp: upsert_lease_def split: if_splits)
    then show ?thesis using assms(2) False by (auto simp: leases_ok_def list_ex_iff)
  qed
  then show "leases_ok db'" "set (ct_leases db') = insert l {x \<in> set (ct_leases db). lz_job x \<noteq> lz_job l}"
    by simp_all
qed

section \<open>The operations on the lease of one job\<close>

lemma acquire_Inr:
  assumes "acquireControlWriteLease ctx jobID holder token now db = Inr (w, db')"
  obtains p where "ctx = Some p"
    "upsert_lease \<lparr>lz_job = jobID, lz_principal = pr_Owner p, lz_holder = holder, lz_token_hash = Hash token,
       lz_expires = now + controlWriteLeaseTTL, lz_updated = now\<rparr> db = Inr db'"
    "\<forall>old. List.find (\<lambda>l. lz_job l = jobID) (ct_leases db) = Some old \<longrightarrow>
       lz_expires old \<le> now \<or> lz_principal old = pr_Owner p \<and> lz_holder old = holder"
  using assms
  by (auto simp: acquireControlWriteLease_def acquire_tx_def Require_def User_def rbind_eq_Inr_iff
      split: if_splits option.splits)

lemma renew_Inr:
  assumes "renewControlWriteLease ctx jobID holder token now db = Inr (w, db')"
  obtains p where "ctx = Some p"
    "db' = db\<lparr>ct_leases := update_where (\<lambda>l. lease_match jobID (pr_Owner p) holder token l \<and> lz_expires l > now)
       (\<lambda>l. l\<lparr>lz_expires := now + controlWriteLeaseTTL, lz_updated := now\<rparr>) (ct_leases db)\<rparr>"
  using assms
  by (auto simp: renewControlWriteLease_def Require_def User_def rbind_eq_Inr_iff Let_def
      split: if_splits option.splits)

lemma release_Inr:
  assumes "releaseControlWriteLease ctx jobID holder token db = Inr db'"
  obtains p where "ctx = Some p"
    "db' = db\<lparr>ct_leases := filter (\<lambda>l. \<not> lease_match jobID (pr_Owner p) holder token l) (ct_leases db)\<rparr>"
  using assms
  by (auto simp: releaseControlWriteLease_def Require_def User_def rbind_eq_Inr_iff Let_def
      split: if_splits option.splits)

section \<open>Runs\<close>

datatype lease_op =
    Acquire "Principal option" string string string
  | Renew "Principal option" string string string
  | Release "Principal option" string string string

fun exec_lease :: "lease_op \<Rightarrow> int \<Rightarrow> ControlDB \<Rightarrow> ControlDB" where
  "exec_lease (Acquire ctx jobID holder token) now db =
    (case acquireControlWriteLease ctx jobID holder token now db of Inl _ \<Rightarrow> db | Inr (_, db') \<Rightarrow> db')"
| "exec_lease (Renew ctx jobID holder token) now db =
    (case renewControlWriteLease ctx jobID holder token now db of Inl _ \<Rightarrow> db | Inr (_, db') \<Rightarrow> db')"
| "exec_lease (Release ctx jobID holder token) now db =
    (case releaseControlWriteLease ctx jobID holder token db of Inl _ \<Rightarrow> db | Inr db' \<Rightarrow> db')"

fun run_lease :: "(lease_op \<times> int) list \<Rightarrow> ControlDB \<Rightarrow> ControlDB" where
  "run_lease [] db = db"
| "run_lease ((op, now) # ops) db = run_lease ops (exec_lease op now db)"

text \<open>The operations by which a holder itself gives up or replaces its lease.\<close>

fun own_op :: "string \<Rightarrow> string \<Rightarrow> string \<Rightarrow> lease_op \<Rightarrow> bool" where
  "own_op owner jobID holder (Acquire ctx j h _) = (map_option pr_Owner ctx = Some owner \<and> j = jobID \<and> h = holder)"
| "own_op owner jobID holder (Release ctx j h _) = (map_option pr_Owner ctx = Some owner \<and> j = jobID \<and> h = holder)"
| "own_op owner jobID holder (Renew _ _ _ _) = False"

text \<open>The database holds a lease of that holder with that token until at least \<open>until\<close>.\<close>

definition held :: "string \<Rightarrow> string \<Rightarrow> string \<Rightarrow> string \<Rightarrow> int \<Rightarrow> ControlDB \<Rightarrow> bool" where
  "held jobID owner holder token until db \<longleftrightarrow>
    leases_ok db \<and> (\<exists>l\<in>set (ct_leases db). lease_match jobID owner holder token l \<and> until \<le> lz_expires l)"

lemma map_job_renewed:
  "map lz_job (update_where P (\<lambda>l. l\<lparr>lz_expires := e, lz_updated := u\<rparr>) ls) = map lz_job ls"
  by (rule map_update_where) simp

lemma leases_ok_exec: "leases_ok db \<Longrightarrow> leases_ok (exec_lease op now db)"
proof (cases op)
  case (Acquire ctx j h tok)
  assume "leases_ok db"
  with Acquire show ?thesis
    by (auto split: sum.splits elim!: acquire_Inr dest: upsert_lease_Inr(1))
next
  case (Renew ctx j h tok)
  assume ok: "leases_ok db"
  with Renew show ?thesis
    by (auto simp: leases_ok_def map_job_renewed split: sum.splits elim!: renew_Inr)
next
  case (Release ctx j h tok)
  assume "leases_ok db"
  with Release show ?thesis
    by (auto simp: leases_ok_def distinct_map_filter split: sum.splits elim!: release_Inr)
qed

lemma held_exec:
  assumes h: "held jobID owner holder token until db"
    and t: "t < until" "until \<le> t + controlWriteLeaseTTL" and o: "\<not> own_op owner jobID holder op"
  shows "held jobID owner holder token until (exec_lease op t db)"
proof -
  from h obtain l where ok: "leases_ok db" and l: "l \<in> set (ct_leases db)"
      "lease_match jobID owner holder token l" "until \<le> lz_expires l"
    by (auto simp: held_def)
  have lj: "lz_job l = jobID" using l(2) by (simp add: lease_match_def)
  have "\<exists>m\<in>set (ct_leases (exec_lease op t db)). lease_match jobID owner holder token m \<and> until \<le> lz_expires m"
  proof (cases op)
    case (Acquire ctx j h tok)
    show ?thesis
    proof (cases "acquireControlWriteLease ctx j h tok t db")
      case (Inr r)
      then obtain w db' where r: "acquireControlWriteLease ctx j h tok t db = Inr (w, db')" by (cases r) auto
      then obtain p where p: "ctx = Some p"
        "upsert_lease \<lparr>lz_job = j, lz_principal = pr_Owner p, lz_holder = h, lz_token_hash = Hash tok,
           lz_expires = t + controlWriteLeaseTTL, lz_updated = t\<rparr> db = Inr db'"
        "\<forall>old. List.find (\<lambda>l. lz_job l = j) (ct_leases db) = Some old \<longrightarrow>
           lz_expires old \<le> t \<or> lz_principal old = pr_Owner p \<and> lz_holder old = h"
        by (rule acquire_Inr)
      have "j \<noteq> jobID"
      proof
        assume "j = jobID"
        then have "lz_expires l \<le> t \<or> lz_principal l = pr_Owner p \<and> lz_holder l = h"
          using p(3) leases_ok_find [OF ok l(1)] lj by simp
        then show False using l t(1) o p(1) \<open>j = jobID\<close> unfolding Acquire
          by (auto simp: lease_match_def)
      qed
      then have "l \<in> set (ct_leases db')" using upsert_lease_Inr(2) [OF p(2) ok] l(1) lj by simp
      then show ?thesis using l Acquire r by auto
    qed (use Acquire l in auto)
  next
    case (Renew ctx j h tok)
    show ?thesis
    proof (cases "renewControlWriteLease ctx j h tok t db")
      case (Inr r)
      then obtain w db' where r: "renewControlWriteLease ctx j h tok t db = Inr (w, db')" by (cases r) auto
      then obtain p where p: "db' = db\<lparr>ct_leases := update_where (\<lambda>l. lease_match j (pr_Owner p) h tok l \<and> lz_expires l > t)
         (\<lambda>l. l\<lparr>lz_expires := t + controlWriteLeaseTTL, lz_updated := t\<rparr>) (ct_leases db)\<rparr>"
        by (rule renew_Inr)
      let ?m = "if lease_match j (pr_Owner p) h tok l \<and> lz_expires l > t
        then l\<lparr>lz_expires := t + controlWriteLeaseTTL, lz_updated := t\<rparr> else l"
      have "?m \<in> set (ct_leases db')" using l(1) by (auto simp: p in_update_where_iff)
      moreover have "lease_match jobID owner holder token ?m \<and> until \<le> lz_expires ?m"
        using l t(2) by (auto simp: lease_match_def)
      ultimately show ?thesis using Renew r by auto
    qed (use Renew l in auto)
  next
    case (Release ctx j h tok)
    show ?thesis
    proof (cases "releaseControlWriteLease ctx j h tok db")
      case (Inr db')
      then obtain p where p: "ctx = Some p"
          "db' = db\<lparr>ct_leases := filter (\<lambda>l. \<not> lease_match j (pr_Owner p) h tok l) (ct_leases db)\<rparr>"
        by (rule release_Inr)
      have "\<not> lease_match j (pr_Owner p) h tok l" using o l(2) p(1) Release by (auto simp: lease_match_def)
      then show ?thesis using l Release Inr p(2) by auto
    qed (use Release l in auto)
  qed
  with leases_ok_exec [OF ok] show ?thesis by (simp add: held_def)
qed

lemma held_run:
  assumes "held jobID owner holder token until db"
    and "\<forall>(op, t)\<in>set ops. t < until \<and> until \<le> t + controlWriteLeaseTTL \<and> \<not> own_op owner jobID holder op"
  shows "held jobID owner holder token until (run_lease ops db)"
  using assms
proof (induction ops arbitrary: db)
  case (Cons x ops)
  then show ?case using held_exec by (cases x) auto
qed simp


lemma leases_ok_run: "leases_ok db \<Longrightarrow> leases_ok (run_lease ops db)"
  by (induction ops db rule: run_lease.induct) (auto intro: leases_ok_exec)

lemma acquired_held:
  assumes "acquireControlWriteLease (Some p) jobID holder token now db = Inr (w, db')" "leases_ok db"
  shows "held jobID (pr_Owner p) holder token (now + controlWriteLeaseTTL) db'"
proof -
  from assms(1) have u: "upsert_lease \<lparr>lz_job = jobID, lz_principal = pr_Owner p, lz_holder = holder,
      lz_token_hash = Hash token, lz_expires = now + controlWriteLeaseTTL, lz_updated = now\<rparr> db = Inr db'"
    by (rule acquire_Inr) simp
  show ?thesis using upsert_lease_Inr [OF u assms(2)] by (auto simp: held_def lease_match_def)
qed

lemma held_require:
  assumes "held jobID (pr_Owner p) holder token until db" "t < until"
    and "Require (Some p) ''jobs:control'' False = Inr p" "trim_space token \<noteq> []"
  shows "requireControlWriteLease (Some p) [token] jobID t db = Inr ()"
proof -
  from assms(1) obtain l where l: "leases_ok db" "l \<in> set (ct_leases db)"
      "lease_match jobID (pr_Owner p) holder token l" "until \<le> lz_expires l"
    by (auto simp: held_def)
  have "count_where (\<lambda>l. lz_job l = jobID \<and> lz_principal l = pr_Owner p
        \<and> lz_token_hash l = Hash token \<and> lz_expires l > t) (ct_leases db) = 1"
    by (rule count_one [OF l(1,2)]) (use l(3,4) assms(2) in \<open>auto simp: lease_match_def\<close>)
  then show ?thesis using assms(3,4) by (simp add: requireControlWriteLease_def)
qed

lemma held_excludes:
  assumes "held jobID owner holder token until db" "t < until"
  shows "requireControlWriteLease ctx [token'] jobID t db = Inr () \<Longrightarrow>
      Hash token' = Hash token \<and> map_option pr_Owner ctx = Some owner"
    and "acquireControlWriteLease ctx jobID holder' token' t db = Inr r \<Longrightarrow>
      holder' = holder \<and> map_option pr_Owner ctx = Some owner"
proof -
  from assms(1) obtain l where l: "leases_ok db" "l \<in> set (ct_leases db)"
      "lease_match jobID owner holder token l" "until \<le> lz_expires l"
    by (auto simp: held_def)
  have lj: "lz_job l = jobID" using l(3) by (simp add: lease_match_def)
  show "Hash token' = Hash token \<and> map_option pr_Owner ctx = Some owner"
    if "requireControlWriteLease ctx [token'] jobID t db = Inr ()"
  proof -
    from that obtain p where p: "ctx = Some p"
        "count_where (\<lambda>l. lz_job l = jobID \<and> lz_principal l = pr_Owner p
          \<and> lz_token_hash l = Hash token' \<and> lz_expires l > t) (ct_leases db) = 1"
      by (auto simp: requireControlWriteLease_def Require_def User_def rbind_eq_Inr_iff split: if_splits option.splits)
    from count_one_ex [OF p(2)] obtain m where "m \<in> set (ct_leases db)" "lz_job m = jobID"
        "lz_principal m = pr_Owner p" "lz_token_hash m = Hash token'" by blast
    with leases_ok_unique [OF l(1) this(1) l(2)] lj l(3) p(1) show ?thesis by (simp add: lease_match_def)
  qed
  show "holder' = holder \<and> map_option pr_Owner ctx = Some owner"
    if "acquireControlWriteLease ctx jobID holder' token' t db = Inr r"
  proof -
    obtain w db' where "r = (w, db')" by (cases r)
    with that have "acquireControlWriteLease ctx jobID holder' token' t db = Inr (w, db')" by simp
    then obtain p where p: "ctx = Some p"
        "\<forall>old. List.find (\<lambda>l. lz_job l = jobID) (ct_leases db) = Some old \<longrightarrow>
           lz_expires old \<le> t \<or> lz_principal old = pr_Owner p \<and> lz_holder old = holder'"
      by (rule acquire_Inr)
    then show ?thesis using leases_ok_find [OF l(1,2)] lj l(3,4) assms(2) by (auto simp: lease_match_def)
  qed
qed

text \<open>The lease table as a transition system: unique rows are an invariant of every operation.\<close>

interpretation lease_system: step_system "\<lambda>db. ct_leases db = []" "\<lambda>db db'. \<exists>op now. db' = exec_lease op now db" leases_ok
proof unfold_locales
  show "leases_ok db" if "ct_leases db = []" for db using that by (simp add: leases_ok_def)
qed (auto intro: leases_ok_exec)

section \<open>Properties of the write lease\<close>

text \<open>C13: A granted lease is exclusive. After a successful acquire, and whatever other operations follow
  during its 30 seconds (at times no earlier than the grant), as long as the holder itself does not
  acquire again or release: the granted token passes the write check, no other token and no other
  principal passes it, and no other holder or principal can acquire the lease.\<close>

theorem lease_exclusive:
  assumes "acquireControlWriteLease (Some p) jobID holder token now db = Inr (w, db0)"
    and "leases_ok db"
    and "trim_space token \<noteq> []"
    and "\<forall>(op, t)\<in>set ops. now \<le> t \<and> t < now + controlWriteLeaseTTL \<and> \<not> own_op (pr_Owner p) jobID holder op"
    and "now \<le> t'" "t' < now + controlWriteLeaseTTL"
  shows "requireControlWriteLease (Some p) [token] jobID t' (run_lease ops db0) = Inr ()
    \<and> (\<forall>ctx' token'. requireControlWriteLease ctx' [token'] jobID t' (run_lease ops db0) = Inr () \<longrightarrow>
         Hash token' = Hash token \<and> map_option pr_Owner ctx' = Some (pr_Owner p))
    \<and> (\<forall>ctx' holder' token' r.
         acquireControlWriteLease ctx' jobID holder' token' t' (run_lease ops db0) = Inr r \<longrightarrow>
         holder' = holder \<and> map_option pr_Owner ctx' = Some (pr_Owner p))"
proof -
  have h: "held jobID (pr_Owner p) holder token (now + controlWriteLeaseTTL) (run_lease ops db0)"
    using assms(4) by (intro held_run acquired_held [OF assms(1,2)]) auto
  have "Require (Some p) ''jobs:control'' False = Inr p"
    using assms(1) by (auto simp: acquireControlWriteLease_def Require_def User_def rbind_eq_Inr_iff split: if_splits)
  then have 1: "requireControlWriteLease (Some p) [token] jobID t' (run_lease ops db0) = Inr ()"
    by (intro held_require [OF h assms(6) _ assms(3)])
  have 2: "\<forall>ctx' token'. requireControlWriteLease ctx' [token'] jobID t' (run_lease ops db0) = Inr () \<longrightarrow>
      Hash token' = Hash token \<and> map_option pr_Owner ctx' = Some (pr_Owner p)"
    by (intro allI impI held_excludes(1) [OF h assms(6)])
  have 3: "\<forall>ctx' holder' token' r.
      acquireControlWriteLease ctx' jobID holder' token' t' (run_lease ops db0) = Inr r \<longrightarrow>
      holder' = holder \<and> map_option pr_Owner ctx' = Some (pr_Owner p)"
    by (intro allI impI held_excludes(2) [OF h assms(6)])
  from 1 2 3 show ?thesis by blast
qed

definition example_principal :: Principal where
  "example_principal = \<lparr>pr_ManagedKeyDigest = [], pr_Identity = \<lparr>id_GoalActorID = [], id_GoalActorKind = [], id_TraceOwner = [], id_TokenFile = [],
    id_Owner = ''ann'', id_Projects = [''p''], id_Credentials = [], id_WorkerID = [], id_Scopes = [''jobs:control'', ''jobs:read''],
    id_ModelProject = [], id_ModelRoute = [], id_ConversationProfile = [],
    id_Limits = \<lparr>il_MaxActiveJobs = 8, il_MaxQueuedJobs = 32, il_MaxModelRequests = 4\<rparr>, id_ClientCertSHA256 = []\<rparr>, pr_Worker = False\<rparr>"

definition example_rival :: Principal where
  "example_rival = example_principal\<lparr>pr_Identity := (pr_Identity example_principal)\<lparr>id_Owner := ''bob''\<rparr>\<rparr>"

definition example_job_spec :: Spec where
  "example_job_spec = \<lparr>sp_SchemaVersion = ''v1'', sp_ProjectID = ''p'', sp_Mode = ''single'',
    sp_Workspace = \<lparr>ws_RepositoryRef = ''repo'', ws_BaseCommit = ''c''\<rparr>, sp_Input = \<lparr>in_Text = ''do''\<rparr>,
    sp_Execution = Some \<lparr>ex_Engine = [], ex_RuntimeProfile = ''p'', ex_Model = ''m'', ex_CredentialRef = ''k'',
      ex_PolicyRef = ''r'', ex_AcceptanceProfile = ''x'', ex_ReplaySafe = True, ex_Tools = [], ex_Environment = []\<rparr>,
    sp_Map = None, sp_Reduce = None,
    sp_Limits = \<lparr>lm_TimeoutSeconds = 60, lm_MaxAttemptsPerTask = 2, lm_Priority = 0\<rparr>\<rparr>"

definition example_control_db :: ControlDB where
  "example_control_db = empty_control_db\<lparr>ct_jobs := [\<lparr>j_id = ''j'', j_owner = ''ann'', j_project = ''p'',
    j_idem = ''k'', j_request_hash = [], j_mode = ''single'', j_state = ''EXECUTING'', j_version = 1, j_seq = 0,
    j_created = 0, j_updated = 0, j_deadline = 90000,
    j_parallelism = 1, j_stop_reason = [], j_error_code = [], j_spec = example_job_spec, j_digests = [], j_routes = [],
    j_route_digests = [], j_manifest = None, j_manifest_hash = [], j_result = None, j_spec_hash = [],
    j_trace = [], j_graph = None\<rparr>]\<rparr>"

theorem lease_exclusive_witness:
  "\<exists>w db0. acquireControlWriteLease (Some example_principal) ''j'' ''tab1'' ''t1'' 1000 example_control_db = Inr (w, db0)
    \<and> requireControlWriteLease (Some example_principal) [''t1''] ''j'' 5000
        (run_lease [(Acquire (Some example_principal) ''j'' ''tab2'' ''t2'', 2000)] db0) = Inr ()"
proof -
  have blank: "trim_space ''tab1'' = ''tab1''" "trim_space ''t1'' = ''t1''" by code_simp+
  let ?lease = "\<lparr>lz_job = ''j'', lz_principal = ''ann'', lz_holder = ''tab1'', lz_token_hash = Hash ''t1'',
      lz_expires = 31000, lz_updated = 1000\<rparr>"
  have a: "acquireControlWriteLease (Some example_principal) ''j'' ''tab1'' ''t1'' 1000 example_control_db
      = Inr (\<lparr>cw_JobID = ''j'', cw_HolderID = ''tab1'', cw_LeaseToken = ''t1'', cw_ExpiresAtMS = 31000\<rparr>,
          example_control_db\<lparr>ct_leases := [?lease]\<rparr>)"
    by (simp add: acquireControlWriteLease_def Require_def User_def example_principal_def validateLeaseHolder_def
        blank jobAuthorized_def example_control_db_def empty_control_db_def select_row_def acquire_tx_def
        upsert_lease_def controlWriteLeaseTTL_def Let_def)
  have "leases_ok example_control_db" by (simp add: leases_ok_def example_control_db_def empty_control_db_def)
  from lease_exclusive [OF a this, of "[(Acquire (Some example_principal) ''j'' ''tab2'' ''t2'', 2000)]" 5000] a
  show ?thesis by (simp add: blank controlWriteLeaseTTL_def)
qed

section \<open>Refinement of a table of locks\<close>

text \<open>
  The abstract component: a lock per job with its owner, its holder, the hash of its token and the
  time it expires.
\<close>

type_synonym locks = "string \<rightharpoonup> string \<times> string \<times> string \<times> int"

definition lock_acquire :: "string \<Rightarrow> string \<Rightarrow> string \<Rightarrow> string \<Rightarrow> int \<Rightarrow> locks \<Rightarrow> locks option" where
  "lock_acquire owner jobID holder token now L = (
    case L jobID of
      Some (own, hol, key, expires) \<Rightarrow>
        if expires > now \<and> (own, hol) \<noteq> (owner, holder) then None
        else Some (L(jobID \<mapsto> (owner, holder, Hash token, now + controlWriteLeaseTTL)))
    | None \<Rightarrow> Some (L(jobID \<mapsto> (owner, holder, Hash token, now + controlWriteLeaseTTL))))"

definition lock_renew :: "string \<Rightarrow> string \<Rightarrow> string \<Rightarrow> string \<Rightarrow> int \<Rightarrow> locks \<Rightarrow> locks option" where
  "lock_renew owner jobID holder token now L = (
    case L jobID of
      Some (own, hol, key, expires) \<Rightarrow>
        if expires > now \<and> (own, hol, key) = (owner, holder, Hash token)
        then Some (L(jobID \<mapsto> (own, hol, key, now + controlWriteLeaseTTL))) else None
    | None \<Rightarrow> None)"

definition lock_release :: "string \<Rightarrow> string \<Rightarrow> string \<Rightarrow> string \<Rightarrow> locks \<Rightarrow> locks option" where
  "lock_release owner jobID holder token L = (
    case L jobID of
      Some (own, hol, key, expires) \<Rightarrow>
        if (own, hol, key) = (owner, holder, Hash token) then Some (L(jobID := None)) else None
    | None \<Rightarrow> None)"

definition lock_of :: "LeaseRow \<Rightarrow> string \<times> string \<times> string \<times> int" where
  "lock_of l = (lz_principal l, lz_holder l, lz_token_hash l, lz_expires l)"

definition abs_locks :: "ControlDB \<Rightarrow> locks" where
  "abs_locks db jobID = map_option lock_of (List.find (\<lambda>l. lz_job l = jobID) (ct_leases db))"

lemma abs_locks_Some:
  assumes "leases_ok db"
  shows "abs_locks db j = Some x \<longleftrightarrow> (\<exists>l\<in>set (ct_leases db). lz_job l = j \<and> lock_of l = x)"
  using leases_ok_find [OF assms] by (fastforce simp: abs_locks_def dest: find_Some_iff_in)

lemma abs_locks_None: "abs_locks db j = None \<longleftrightarrow> (\<forall>l\<in>set (ct_leases db). lz_job l \<noteq> j)"
  by (auto simp: abs_locks_def find_None_all)

lemma abs_locks_eqI:
  assumes "leases_ok db" "\<And>j x. L j = Some x \<longleftrightarrow> (\<exists>l\<in>set (ct_leases db). lz_job l = j \<and> lock_of l = x)"
  shows "abs_locks db = L"
proof
  fix j
  have "abs_locks db j = Some x \<longleftrightarrow> L j = Some x" for x using assms abs_locks_Some by simp
  then show "abs_locks db j = L j" by (metis not_None_eq)
qed

lemma abs_upsert:
  assumes "upsert_lease l db = Inr db'" "leases_ok db"
  shows "abs_locks db' = (abs_locks db)(lz_job l \<mapsto> lock_of l)"
proof (rule abs_locks_eqI)
  note u = upsert_lease_Inr [OF assms]
  show "leases_ok db'" by (rule u(1))
  show "((abs_locks db)(lz_job l \<mapsto> lock_of l)) j = Some x \<longleftrightarrow>
      (\<exists>l\<in>set (ct_leases db'). lz_job l = j \<and> lock_of l = x)" for j x
    unfolding u(2) by (auto simp: abs_locks_Some [OF assms(2)])
qed

lemma acquire_refines:
  assumes "leases_ok db" "Require (Some p) ''jobs:control'' False = Inr p" "validateLeaseHolder holder = Inr ()"
    "jobAuthorized (Some p) jobID ''jobs:read'' db = Inr j"
  shows "map_option abs_locks (case acquireControlWriteLease (Some p) jobID holder token now db of
      Inl _ \<Rightarrow> None | Inr (_, db') \<Rightarrow> Some db')
    = lock_acquire (pr_Owner p) jobID holder token now (abs_locks db)"
proof -
  let ?l = "\<lparr>lz_job = jobID, lz_principal = pr_Owner p, lz_holder = holder, lz_token_hash = Hash token,
       lz_expires = now + controlWriteLeaseTTL, lz_updated = now\<rparr>"
  have j: "j \<in> set (ct_jobs db)" "j_id j = jobID" "j_owner j = pr_Owner p"
    using assms(4) by (auto simp: jobAuthorized_def rbind_eq_Inr_iff Require_def User_def
        dest!: select_row_InrD split: if_splits)
  then have "list_ex (\<lambda>j. j_id j = lz_job ?l) (ct_jobs db)" by (auto simp: list_ex_iff)
  then obtain db' where u: "upsert_lease ?l db = Inr db'"
    unfolding upsert_lease_def by (cases "list_ex (\<lambda>x. lz_job x = lz_job ?l) (ct_leases db)") simp_all
  have a: "abs_locks db' = (abs_locks db)(jobID \<mapsto> (pr_Owner p, holder, Hash token, now + controlWriteLeaseTTL))"
    using abs_upsert [OF u assms(1)] by (simp add: lock_of_def)
  show ?thesis
  proof (cases "List.find (\<lambda>l. lz_job l = jobID) (ct_leases db)")
    case None
    then show ?thesis using assms j u a
      by (simp add: acquireControlWriteLease_def acquire_tx_def lock_acquire_def abs_locks_def [of db jobID])
  next
    case (Some old)
    then show ?thesis using assms j u a
      by (simp add: acquireControlWriteLease_def acquire_tx_def lock_acquire_def abs_locks_def [of db jobID]
          lock_of_def [of old])
  qed
qed

lemma count_hit:
  assumes "leases_ok db" "\<And>l. P l \<Longrightarrow> lz_job l = j"
  shows "count_where P (ct_leases db) = 1 \<longleftrightarrow> (\<exists>l\<in>set (ct_leases db). P l)"
proof
  assume "\<exists>l\<in>set (ct_leases db). P l"
  then obtain l where l: "l \<in> set (ct_leases db)" "P l" by blast
  show "count_where P (ct_leases db) = 1"
    by (rule count_one [of db l P]) (use assms l in simp_all)
qed (rule count_one_ex)

lemma renew_refines:
  assumes "leases_ok db" "Require (Some p) ''jobs:control'' False = Inr p" "validateLeaseHolder holder = Inr ()"
    "token \<noteq> []"
  shows "map_option abs_locks (case renewControlWriteLease (Some p) jobID holder token now db of
      Inl _ \<Rightarrow> None | Inr (_, db') \<Rightarrow> Some db')
    = lock_renew (pr_Owner p) jobID holder token now (abs_locks db)"
proof -
  define hit where "hit = (\<lambda>l. lease_match jobID (pr_Owner p) holder token l \<and> lz_expires l > now)"
  define db' where "db' = db\<lparr>ct_leases := update_where hit
      (\<lambda>l. l\<lparr>lz_expires := now + controlWriteLeaseTTL, lz_updated := now\<rparr>) (ct_leases db)\<rparr>"
  have one: "count_where hit (ct_leases db) = 1 \<longleftrightarrow> (\<exists>l\<in>set (ct_leases db). hit l)"
    by (rule count_hit [OF assms(1), of _ jobID]) (simp add: hit_def lease_match_def)
  have r: "(case renewControlWriteLease (Some p) jobID holder token now db of
      Inl _ \<Rightarrow> None | Inr (_, db') \<Rightarrow> Some db') = (if \<exists>l\<in>set (ct_leases db). hit l then Some db' else None)"
    using assms(2-4) one by (simp add: renewControlWriteLease_def Let_def hit_def [symmetric] db'_def)
  show ?thesis
  proof (cases "\<exists>l\<in>set (ct_leases db). hit l")
    case True
    then obtain l where l: "l \<in> set (ct_leases db)" "hit l" by blast
    have lk: "abs_locks db jobID = Some (pr_Owner p, holder, Hash token, lz_expires l)" "lz_expires l > now"
      using l abs_locks_Some [OF assms(1)] by (auto simp: hit_def lease_match_def lock_of_def)
    have ok: "leases_ok db'" using assms(1) by (simp add: leases_ok_def db'_def map_job_renewed)
    let ?n = "l\<lparr>lz_expires := now + controlWriteLeaseTTL, lz_updated := now\<rparr>"
    have only: "m = l" if "m \<in> set (ct_leases db)" "lz_job m = jobID" for m
      using leases_ok_unique [OF assms(1) that(1) l(1)] that(2) l(2) by (simp add: hit_def lease_match_def)
    have hj: "lz_job m = jobID" if "hit m" for m using that by (simp add: hit_def lease_match_def)
    have set': "set (ct_leases db') = insert ?n (set (ct_leases db) - {l})"
    proof -
      have "set (update_where hit (\<lambda>l. l\<lparr>lz_expires := now + controlWriteLeaseTTL, lz_updated := now\<rparr>) (ct_leases db))
          = insert ?n (set (ct_leases db) - {l})"
        by (rule set_update_where_one [of l _ hit]) (use l only hj in blast)+
      then show ?thesis by (simp add: db'_def)
    qed
    have nj: "lz_job ?n = jobID" "lock_of ?n = (pr_Owner p, holder, Hash token, now + controlWriteLeaseTTL)"
      using l(2) by (simp_all add: hit_def lease_match_def lock_of_def)
    have "abs_locks db' = (abs_locks db)(jobID \<mapsto> (pr_Owner p, holder, Hash token, now + controlWriteLeaseTTL))"
    proof (rule abs_locks_eqI [OF ok])
      fix j x
      show "((abs_locks db)(jobID \<mapsto> (pr_Owner p, holder, Hash token, now + controlWriteLeaseTTL))) j = Some x
        \<longleftrightarrow> (\<exists>l\<in>set (ct_leases db'). lz_job l = j \<and> lock_of l = x)"
      proof (cases "j = jobID")
        case True
        then show ?thesis unfolding set' using nj only by auto
      next
        case False
        then show ?thesis unfolding set' using nj(1) hj [OF l(2)] by (auto simp: abs_locks_Some [OF assms(1)])
      qed
    qed
    then show ?thesis unfolding r using True lk by (simp add: lock_renew_def)
  next
    case False
    have "lock_renew (pr_Owner p) jobID holder token now (abs_locks db) = None"
    proof (cases "abs_locks db jobID")
      case (Some x)
      then obtain l where "l \<in> set (ct_leases db)" "lz_job l = jobID" "x = lock_of l"
        using abs_locks_Some [OF assms(1)] by auto
      then show ?thesis using False Some by (auto simp: lock_renew_def lock_of_def hit_def lease_match_def)
    qed (simp add: lock_renew_def)
    then show ?thesis unfolding r using False by simp
  qed
qed

lemma release_refines:
  assumes "leases_ok db" "Require (Some p) ''jobs:control'' False = Inr p" "validateLeaseHolder holder = Inr ()"
    "token \<noteq> []"
  shows "map_option abs_locks (case releaseControlWriteLease (Some p) jobID holder token db of
      Inl _ \<Rightarrow> None | Inr db' \<Rightarrow> Some db')
    = lock_release (pr_Owner p) jobID holder token (abs_locks db)"
proof -
  define hit where "hit = lease_match jobID (pr_Owner p) holder token"
  define db' where "db' = db\<lparr>ct_leases := filter (\<lambda>l. \<not> hit l) (ct_leases db)\<rparr>"
  have one: "count_where hit (ct_leases db) = 1 \<longleftrightarrow> (\<exists>l\<in>set (ct_leases db). hit l)"
    by (rule count_hit [OF assms(1), of _ jobID]) (simp add: hit_def lease_match_def)
  have r: "(case releaseControlWriteLease (Some p) jobID holder token db of
      Inl _ \<Rightarrow> None | Inr db' \<Rightarrow> Some db') = (if \<exists>l\<in>set (ct_leases db). hit l then Some db' else None)"
    using assms(2-4) one by (simp add: releaseControlWriteLease_def Let_def hit_def [symmetric] db'_def)
  show ?thesis
  proof (cases "\<exists>l\<in>set (ct_leases db). hit l")
    case True
    then obtain l where l: "l \<in> set (ct_leases db)" "hit l" by blast
    have only: "hit m \<longleftrightarrow> lz_job m = jobID" if "m \<in> set (ct_leases db)" for m
      using leases_ok_unique [OF assms(1) that l(1)] l(2) by (auto simp: hit_def lease_match_def)
    have lk: "abs_locks db jobID = Some (pr_Owner p, holder, Hash token, lz_expires l)"
      using l abs_locks_Some [OF assms(1)] by (auto simp: hit_def lease_match_def lock_of_def)
    have "leases_ok db'" using assms(1) by (simp add: leases_ok_def db'_def distinct_map_filter)
    then have "abs_locks db' = (abs_locks db)(jobID := None)"
      by (rule abs_locks_eqI) (auto simp: abs_locks_Some [OF assms(1)] db'_def only)
    then show ?thesis unfolding r using True lk by (simp add: lock_release_def)
  next
    case False
    have "lock_release (pr_Owner p) jobID holder token (abs_locks db) = None"
    proof (cases "abs_locks db jobID")
      case (Some x)
      then obtain l where "l \<in> set (ct_leases db)" "lz_job l = jobID" "x = lock_of l"
        using abs_locks_Some [OF assms(1)] by auto
      then show ?thesis using False Some by (auto simp: lock_release_def lock_of_def hit_def lease_match_def)
    qed (simp add: lock_release_def)
    then show ?thesis unfolding r using False by simp
  qed
qed

text \<open>C33: The lease table implements a table of locks. In every reachable database, for a caller with the
  control scope, a valid holder name, a token that is not empty and an authorised job, the three
  operations succeed exactly when the corresponding operation of the abstract lock table does, and
  leave exactly its result.\<close>

theorem leases_refine_locks:
  assumes "reachable (\<lambda>db. ct_leases db = []) (\<lambda>db db'. \<exists>op now. db' = exec_lease op now db) db"
    and "Require (Some p) ''jobs:control'' False = Inr p" "validateLeaseHolder holder = Inr ()" "token \<noteq> []"
    and "jobAuthorized (Some p) jobID ''jobs:read'' db = Inr j"
  shows "map_option abs_locks (case acquireControlWriteLease (Some p) jobID holder token now db of
        Inl _ \<Rightarrow> None | Inr (_, db') \<Rightarrow> Some db')
      = lock_acquire (pr_Owner p) jobID holder token now (abs_locks db)
    \<and> map_option abs_locks (case renewControlWriteLease (Some p) jobID holder token now db of
        Inl _ \<Rightarrow> None | Inr (_, db') \<Rightarrow> Some db')
      = lock_renew (pr_Owner p) jobID holder token now (abs_locks db)
    \<and> map_option abs_locks (case releaseControlWriteLease (Some p) jobID holder token db of
        Inl _ \<Rightarrow> None | Inr db' \<Rightarrow> Some db')
      = lock_release (pr_Owner p) jobID holder token (abs_locks db)"
proof -
  have ok: "leases_ok db" by (rule lease_system.reachable_inv [OF assms(1)])
  show ?thesis
    using acquire_refines [OF ok assms(2,3,5)] renew_refines [OF ok assms(2-4)] release_refines [OF ok assms(2-4)]
    by blast
qed

theorem leases_refine_locks_witness:
  "lock_acquire ''ann'' ''j'' ''tab1'' ''t1'' 1000 (abs_locks example_control_db)
    = map_option abs_locks (case acquireControlWriteLease (Some example_principal) ''j'' ''tab1'' ''t1'' 1000
        example_control_db of Inl _ \<Rightarrow> None | Inr (_, db') \<Rightarrow> Some db')"
proof -
  have b: "trim_space ''tab1'' = ''tab1''" by code_simp
  have "reachable (\<lambda>db. ct_leases db = []) (\<lambda>db db'. \<exists>op now. db' = exec_lease op now db) example_control_db"
    by (rule reachable_init) (simp add: example_control_db_def empty_control_db_def)
  moreover have "Require (Some example_principal) ''jobs:control'' False = Inr example_principal"
    by (simp add: Require_def User_def example_principal_def)
  moreover have "jobAuthorized (Some example_principal) ''j'' ''jobs:read'' example_control_db = Inr (hd (ct_jobs example_control_db))"
    by (simp add: jobAuthorized_def Require_def User_def example_principal_def example_control_db_def
        empty_control_db_def select_row_def)
  moreover have "validateLeaseHolder ''tab1'' = Inr ()" by (simp add: validateLeaseHolder_def b)
  ultimately have "map_option abs_locks (case acquireControlWriteLease (Some example_principal) ''j'' ''tab1'' ''t1'' 1000
        example_control_db of Inl _ \<Rightarrow> None | Inr (_, db') \<Rightarrow> Some db')
      = lock_acquire (pr_Owner example_principal) ''j'' ''tab1'' ''t1'' 1000 (abs_locks example_control_db)"
    using leases_refine_locks [of example_control_db example_principal "''tab1''" "''t1''" "''j''"] by simp
  then show ?thesis by (simp add: example_principal_def)
qed

end
