(* ===== verification/Control_Plane.thy ===== *)
theory Control_Plane
  imports Control_Lease
begin

text \<open>
  The write path of the agent control protocol: the acceptance of an operation
  (\<open>control_write.go\<close>), its dispatch to the worker and the worker's acknowledgement
  (\<open>control_dispatch.go\<close>), the delivery check of a command (\<open>commandDeliverable\<close> in \<open>server.go\<close>), the
  approval requests of a runtime (\<open>approval.go\<close>), and the validation of the protocol's messages
  (\<open>internal/control\<close>).

  An operation is kept in \<open>control_operations\<close> under its principal and its identifier, with the hash of
  the request and a receipt. Every state change is checked against the current attempt of the task and
  its generation (the fence).

  A JSON payload is held as its syntax tree. Times of the protocol are milliseconds, with 0 for the
  zero \<open>time.Time\<close>. \<open>encode\<close>, the protobuf text of a command, comes from a third-party package and is
  an argument.
\<close>

section \<open>Messages of the protocol\<close>

definition ProtocolV1Alpha1 :: string where
  "ProtocolV1Alpha1 = ''control.v1alpha1''"

definition knownCapabilities :: "string list" where
  "knownCapabilities = [''stream_output'', ''structured_output'', ''session_resume'', ''interactive_input'',
    ''queue_next_input'', ''steer_current'', ''approval'', ''interrupt'', ''cancel'', ''plan'', ''diff'',
    ''file_read'', ''file_write'', ''terminal'', ''tool_events'', ''usage'', ''artifact_export'']"

text \<open>\<open>%q\<close> for the names the protocol uses: a quoted text without escapes.\<close>

definition quoted :: "string \<Rightarrow> string" where
  "quoted s = CHR 0x22 # s @ [CHR 0x22]"

definition check_capability :: "string list \<Rightarrow> string \<Rightarrow> string list result" where
  "check_capability seen c = (
    if c \<notin> set knownCapabilities then Inl (Error (''unknown control capability: '' @ quoted c))
    else if c \<in> set seen then Inl (Error (''duplicate control capability: '' @ quoted c))
    else Inr (c # seen))"

definition ValidateCapabilities :: "string list \<Rightarrow> unit result" where
  "ValidateCapabilities cs = rbind (fold_result check_capability [] cs) (\<lambda>_. Inr ())"

definition NormalizeCapabilities :: "string list \<Rightarrow> string list result" where
  "NormalizeCapabilities cs = rbind (ValidateCapabilities cs) (\<lambda>_. Inr (sort cs))"

record VersionRange =
  vr_Min :: string
  vr_Max :: string

definition Negotiate :: "VersionRange \<Rightarrow> VersionRange \<Rightarrow> string result" where
  "Negotiate client server = (
    if vr_Min client = [] \<or> vr_Max client = [] \<or> vr_Min server = [] \<or> vr_Max server = []
    then Inl (Error ''protocol version range is incomplete'')
    else if vr_Min client \<noteq> ProtocolV1Alpha1 \<or> vr_Max client \<noteq> ProtocolV1Alpha1
      \<or> vr_Min server \<noteq> ProtocolV1Alpha1 \<or> vr_Max server \<noteq> ProtocolV1Alpha1
    then Inl (Error ''no compatible control protocol version'')
    else Inr ProtocolV1Alpha1)"

definition knownRiskClasses :: "string list" where
  "knownRiskClasses = [''LOW'', ''MEDIUM'', ''HIGH'', ''CRITICAL'']"

definition knownApprovalStates :: "string list" where
  "knownApprovalStates = [''PENDING'', ''ACCEPTED'', ''REJECTED'', ''EXPIRED'', ''SUPERSEDED'']"

record ApprovalRequest =
  ar_ProtocolVersion :: string
  ar_ApprovalID :: string
  ar_JobID :: string
  ar_TaskID :: string
  ar_AttemptID :: string
  ar_Generation :: int
  ar_SessionID :: string
  ar_Tool :: string
  ar_Action :: string
  ar_RiskClass :: string
  ar_RequestVersion :: int
  ar_RequestedAt :: int
  ar_ExpiresAt :: int
  ar_State :: string

text \<open>
  The required fields are a Go map, so which missing field is reported is not determined; the model
  reports the first in the order of the source.
\<close>

definition require_fields :: "(string \<times> string) list \<Rightarrow> unit result" where
  "require_fields fs = check_all (\<lambda>(field, v). if blank v then Inl (Error (field @ '' required'')) else Inr ()) fs"

definition ApprovalRequest_Validate :: "ApprovalRequest \<Rightarrow> unit result" where
  "ApprovalRequest_Validate a = (
    if ar_ProtocolVersion a \<noteq> ProtocolV1Alpha1
    then Inl (Error (''unsupported control protocol: '' @ quoted (ar_ProtocolVersion a)))
    else rbind (require_fields [(''approval_id'', ar_ApprovalID a), (''job_id'', ar_JobID a), (''task_id'', ar_TaskID a),
        (''attempt_id'', ar_AttemptID a), (''session_id'', ar_SessionID a), (''tool'', ar_Tool a),
        (''action'', ar_Action a), (''risk_class'', ar_RiskClass a)]) (\<lambda>_.
      if ar_Generation a < 1 then Inl (Error ''generation must be positive'')
      else if ar_RequestVersion a < 1 then Inl (Error ''request_version must be positive'')
      else if ar_RequestedAt a = 0 then Inl (Error ''requested_at required'')
      else if ar_ExpiresAt a \<noteq> 0 \<and> ar_ExpiresAt a \<le> ar_RequestedAt a
      then Inl (Error ''expires_at must be after requested_at'')
      else if ar_RiskClass a \<notin> set knownRiskClasses
      then Inl (Error (''unknown approval risk class: '' @ quoted (ar_RiskClass a)))
      else if ar_State a \<notin> set knownApprovalStates
      then Inl (Error (''unknown approval state: '' @ quoted (ar_State a)))
      else Inr ()))"

section \<open>Approval requests\<close>

text \<open>
  \<open>ra_PolicyContext\<close> is the policy object as the encoder writes it, \<open>None\<close> for a nil map.
  \<open>ev_Approval\<close> is what \<open>json.Unmarshal\<close> makes of the payload of an event, \<open>None\<close> for an error.
\<close>

record runtimeApprovalPayload =
  ra_ApprovalID :: string
  ra_SessionID :: string
  ra_Tool :: string
  ra_Action :: string
  ra_RiskClass :: string
  ra_ArgumentsSummary :: string
  ra_PolicyContext :: "(string \<times> json) list option"
  ra_RequestVersion :: int
  ra_RequestedAtMS :: int
  ra_ExpiresAtMS :: int

record RuntimeEvent =
  ev_Type :: string
  ev_TaskId :: string
  ev_AttemptId :: string
  ev_Generation :: int
  ev_Approval :: "runtimeApprovalPayload option"

definition opt_nonzero :: "string \<Rightarrow> int \<Rightarrow> (string \<times> json) list" where
  "opt_nonzero k i = (if i = 0 then [] else [(k, JInt i)])"

definition approval_policy_json :: "(string \<times> json) list option \<Rightarrow> json" where
  "approval_policy_json p = (case p of None \<Rightarrow> JNull | Some fs \<Rightarrow> JObj fs)"

definition approval_payload_json :: "runtimeApprovalPayload \<Rightarrow> json" where
  "approval_payload_json p = JObj (
    [(''approval_id'', JStr (ra_ApprovalID p))] @ opt_str ''session_id'' (ra_SessionID p)
    @ [(''tool'', JStr (ra_Tool p)), (''action'', JStr (ra_Action p)), (''risk_class'', JStr (ra_RiskClass p))]
    @ opt_str ''arguments_summary'' (ra_ArgumentsSummary p)
    @ (case ra_PolicyContext p of None \<Rightarrow> [] | Some [] \<Rightarrow> [] | Some fs \<Rightarrow> [(''policy_context'', JObj fs)])
    @ [(''request_version'', JInt (ra_RequestVersion p))]
    @ opt_nonzero ''requested_at_ms'' (ra_RequestedAtMS p) @ opt_nonzero ''expires_at_ms'' (ra_ExpiresAtMS p))"

definition insert_approval :: "ApprovalRow \<Rightarrow> ControlDB \<Rightarrow> ControlDB result" where
  "insert_approval a db = (
    if ap_version a < 1 \<or> ap_generation a < 1 \<or> ap_risk a \<notin> set knownRiskClasses
      \<or> ap_state a \<notin> set knownApprovalStates
      \<or> \<not> list_ex (\<lambda>j. j_id j = ap_job a) (ct_jobs db) \<or> \<not> list_ex (\<lambda>t. t_id t = ap_task a) (ct_tasks db)
    then Inl Sql_constraint
    else rbind (insert_row (\<lambda>r x. ap_id r = ap_id x \<and> ap_version r = ap_version x) a (ct_approvals db))
      (\<lambda>rows. Inr (db\<lparr>ct_approvals := rows\<rparr>)))"

definition approval_model :: "RuntimeEvent \<Rightarrow> runtimeApprovalPayload \<Rightarrow> string \<Rightarrow> int \<Rightarrow> ApprovalRequest" where
  "approval_model ev p jobID requestedMS = \<lparr>
    ar_ProtocolVersion = ProtocolV1Alpha1, ar_ApprovalID = ra_ApprovalID p, ar_JobID = jobID,
    ar_TaskID = ev_TaskId ev, ar_AttemptID = ev_AttemptId ev, ar_Generation = ev_Generation ev,
    ar_SessionID = ra_SessionID p, ar_Tool = ra_Tool p, ar_Action = ra_Action p, ar_RiskClass = ra_RiskClass p,
    ar_RequestVersion = ra_RequestVersion p, ar_RequestedAt = requestedMS,
    ar_ExpiresAt = (if ra_ExpiresAtMS p > 0 then ra_ExpiresAtMS p else 0), ar_State = ''PENDING''\<rparr>"

definition approval_row ::
  "RuntimeEvent \<Rightarrow> runtimeApprovalPayload \<Rightarrow> string \<Rightarrow> int \<Rightarrow> ApprovalRow" where
  "approval_row ev p jobID requestedMS = \<lparr>
    ap_id = ra_ApprovalID p, ap_version = ra_RequestVersion p, ap_job = jobID, ap_task = ev_TaskId ev,
    ap_attempt = ev_AttemptId ev, ap_generation = ev_Generation ev, ap_session = ra_SessionID p,
    ap_tool = ra_Tool p, ap_action = ra_Action p, ap_risk = ra_RiskClass p, ap_summary = ra_ArgumentsSummary p,
    ap_policy = approval_policy_json (ra_PolicyContext p), ap_hash = Hash (json_text (approval_payload_json p)),
    ap_requested = requestedMS, ap_expires = ra_ExpiresAtMS p, ap_state = ''PENDING'',
    ap_decision = [], ap_decided_by = [], ap_decided_at = 0\<rparr>"

definition persistApprovalRequested :: "RuntimeEvent \<Rightarrow> int \<Rightarrow> ControlDB \<Rightarrow> ControlDB result" where
  "persistApprovalRequested ev now db = (
    if ev_Type ev \<noteq> ''approval.requested'' then Inr db
    else case ev_Approval ev of
      None \<Rightarrow> Inl (Status ''InvalidArgument'' ''invalid approval request payload'')
    | Some p0 \<Rightarrow>
        let p = (if ra_SessionID p0 = [] then p0\<lparr>ra_SessionID := ev_AttemptId ev\<rparr> else p0);
            requestedMS = (if ra_RequestedAtMS p \<le> 0 then now else ra_RequestedAtMS p)
        in rbind (select_row (\<lambda>t. t_id t = ev_TaskId ev) (ct_tasks db)) (\<lambda>t.
          case t_job t of
            None \<Rightarrow> Inl (Status ''FailedPrecondition'' ''approval requires managed job'')
          | Some jobID \<Rightarrow>
            if jobID = [] then Inl (Status ''FailedPrecondition'' ''approval requires managed job'')
            else if ApprovalRequest_Validate (approval_model ev p jobID requestedMS) \<noteq> Inr ()
            then Inl (Status ''InvalidArgument'' ''invalid approval request payload'')
            else
              (case List.find (\<lambda>a. ap_id a = ra_ApprovalID p \<and> ap_version a = ra_RequestVersion p) (ct_approvals db) of
                 Some old \<Rightarrow>
                   if ap_hash old \<noteq> ap_hash (approval_row ev p jobID requestedMS)
                   then Inl (Status ''AlreadyExists'' ''APPROVAL_VERSION_CONFLICT'') else Inr db
               | None \<Rightarrow>
                   insert_approval (approval_row ev p jobID requestedMS)
                     (db\<lparr>ct_approvals := update_where
                       (\<lambda>a. ap_id a = ra_ApprovalID p \<and> ap_state a = ''PENDING'' \<and> ap_version a < ra_RequestVersion p)
                       (\<lambda>a. a\<lparr>ap_state := ''SUPERSEDED''\<rparr>) (ct_approvals db)\<rparr>))))"

definition expired_json :: "ApprovalRow \<Rightarrow> json" where
  "expired_json a = JObj [(''approval_id'', JStr (ap_id a)), (''attempt_id'', JStr (ap_attempt a)),
    (''generation'', JInt (ap_generation a)), (''protocol_version'', JStr ProtocolV1Alpha1),
    (''request_version'', JInt (ap_version a)), (''task_id'', JStr (ap_task a))]"

definition expire_one :: "string \<Rightarrow> int \<Rightarrow> ControlDB \<Rightarrow> ApprovalRow \<Rightarrow> ControlDB result" where
  "expire_one jobID now db x = (
    let hit = (\<lambda>a. ap_id a = ap_id x \<and> ap_version a = ap_version x \<and> ap_state a = ''PENDING'');
        db' = db\<lparr>ct_approvals := update_where hit (\<lambda>a. a\<lparr>ap_state := ''EXPIRED''\<rparr>) (ct_approvals db)\<rparr>
    in if count_where hit (ct_approvals db) = 1
       then appendJobEvent jobID ''approval.expired'' (expired_json x)
         (''approval-expired:'' @ ap_id x @ '':'' @ int_decimal (ap_version x)) [] now db'
       else Inr db')"

definition overdue :: "string \<Rightarrow> int \<Rightarrow> ApprovalRow \<Rightarrow> bool" where
  "overdue jobID now a \<longleftrightarrow>
    ap_job a = jobID \<and> ap_state a = ''PENDING'' \<and> ap_decision a = [] \<and> ap_expires a > 0 \<and> ap_expires a \<le> now"

definition expireJobApprovals :: "string \<Rightarrow> int \<Rightarrow> ControlDB \<Rightarrow> ControlDB result" where
  "expireJobApprovals jobID now db =
    fold_result (expire_one jobID now) db (filter (overdue jobID now) (ct_approvals db))"

section \<open>Operations\<close>

record ControlOperationRequest =
  rq_OperationID :: string
  rq_OperationType :: string
  rq_ResourceType :: string
  rq_ResourceID :: string
  rq_TaskID :: string
  rq_ExpectedAttemptID :: string
  rq_ExpectedGeneration :: int
  rq_ExpectedResourceVersion :: int
  rq_Payload :: "json option"

definition operation_request_json :: "ControlOperationRequest \<Rightarrow> json" where
  "operation_request_json r = JObj (
    [(''operation_id'', JStr (rq_OperationID r)), (''operation_type'', JStr (rq_OperationType r)),
     (''resource_type'', JStr (rq_ResourceType r)), (''resource_id'', JStr (rq_ResourceID r)),
     (''task_id'', JStr (rq_TaskID r)), (''expected_attempt_id'', JStr (rq_ExpectedAttemptID r)),
     (''expected_generation'', JInt (rq_ExpectedGeneration r)),
     (''expected_resource_version'', JInt (rq_ExpectedResourceVersion r))]
    @ (case rq_Payload r of None \<Rightarrow> [] | Some p \<Rightarrow> [(''payload'', p)]))"

definition request_hash :: "ControlOperationRequest \<Rightarrow> string" where
  "request_hash r = Hash (json_text (operation_request_json r))"

definition validateControlOperationRequest :: "ControlOperationRequest \<Rightarrow> unit result" where
  "validateControlOperationRequest r = (
    if \<not> ValidKey (rq_OperationID r) \<or> rq_OperationType r = [] \<or> rq_ResourceType r = [] \<or> rq_ResourceID r = []
      \<or> rq_TaskID r = [] \<or> rq_ExpectedAttemptID r = []
      \<or> rq_ExpectedGeneration r < 1 \<or> rq_ExpectedResourceVersion r < 1
    then Inl (Status ''InvalidArgument'' ''invalid control operation'')
    else if rq_OperationType r \<notin> {''input'', ''interrupt'', ''cancel'', ''approval'', ''resume''}
    then Inl (Status ''InvalidArgument'' ''invalid control operation type'')
    else Inr ())"

definition attempt_fenced :: error where
  "attempt_fenced = Status ''Aborted'' ''ATTEMPT_FENCED''"

definition validateControlFence :: "string \<Rightarrow> ControlOperationRequest \<Rightarrow> ControlDB \<Rightarrow> unit result" where
  "validateControlFence jobID r db = (
    case List.find (\<lambda>t. t_id t = rq_TaskID r) (ct_tasks db) of
      None \<Rightarrow> Inl (Status ''NotFound'' ''NOT_FOUND'')
    | Some t \<Rightarrow>
      if t_job t \<noteq> Some jobID then Inl (Status ''NotFound'' ''NOT_FOUND'')
      else if t_attempt t \<noteq> rq_ExpectedAttemptID r \<or> t_generation t \<noteq> rq_ExpectedGeneration r
      then Inl attempt_fenced
      else rbind (select_row (\<lambda>j. j_id j = jobID) (ct_jobs db)) (\<lambda>j.
        if j_version j \<noteq> rq_ExpectedResourceVersion r
        then Inl (Status ''Aborted'' ''RESOURCE_VERSION_CONFLICT'')
        else if job_terminal (j_state j) \<or> j_state j = ''STOPPING'' \<or> j_state j = ''RECONCILING''
        then Inl (Status ''FailedPrecondition'' ''EXECUTION_UNVERIFIABLE'')
        else
          (case List.find (\<lambda>a. a_id a = rq_ExpectedAttemptID r \<and> a_task a = rq_TaskID r
              \<and> a_generation a = rq_ExpectedGeneration r) (ct_attempts db) of
             None \<Rightarrow> Inl attempt_fenced
           | Some a \<Rightarrow> if a_released a then Inl attempt_fenced else Inr ())))"

definition accepted_receipt :: "string \<Rightarrow> ControlOperationRequest \<Rightarrow> string \<Rightarrow> ControlOperationReceipt" where
  "accepted_receipt jobID r state = \<lparr>rc_OperationID = rq_OperationID r, rc_State = state, rc_Existing = False,
    rc_JobID = jobID, rc_TaskID = rq_TaskID r, rc_AttemptID = rq_ExpectedAttemptID r,
    rc_Generation = rq_ExpectedGeneration r, rc_ResourceVersion = rq_ExpectedResourceVersion r,
    rc_ErrorCode = [], rc_ErrorMessage = []\<rparr>"

abbreviation op_key :: "string \<Rightarrow> string \<Rightarrow> ControlOpRow \<Rightarrow> bool" where
  "op_key owner oid \<equiv> \<lambda>x. co_principal x = owner \<and> co_operation x = oid"

definition find_operation :: "string \<Rightarrow> string \<Rightarrow> ControlDB \<Rightarrow> ControlOpRow option" where
  "find_operation owner oid db = List.find (op_key owner oid) (ct_operations db)"

definition operation_states :: "string list" where
  "operation_states = [''ACCEPTED'', ''DISPATCHED'', ''COMPLETED'', ''REJECTED'']"

definition insert_operation :: "ControlOpRow \<Rightarrow> ControlDB \<Rightarrow> ControlDB result" where
  "insert_operation r db = (
    if co_state r \<notin> set operation_states then Inl Sql_constraint
    else rbind (insert_row (\<lambda>r x. co_principal r = co_principal x \<and> co_operation r = co_operation x) r
        (ct_operations db)) (\<lambda>rows. Inr (db\<lparr>ct_operations := rows\<rparr>)))"

definition accept_tx ::
  "string \<Rightarrow> string \<Rightarrow> ControlOperationRequest \<Rightarrow> int \<Rightarrow> (ControlDB, ControlOperationReceipt) tx" where
  "accept_tx owner jobID r now db = (
    case find_operation owner (rq_OperationID r) db of
      Some old \<Rightarrow>
        if co_hash old \<noteq> request_hash r then Inl (Status ''AlreadyExists'' ''OPERATION_CONFLICT'')
        else Inr ((co_receipt old)\<lparr>rc_Existing := True\<rparr>, db)
    | None \<Rightarrow>
        rbind (validateControlFence jobID r db) (\<lambda>_.
        rbind (insert_operation \<lparr>co_principal = owner, co_operation = rq_OperationID r, co_type = rq_OperationType r,
            co_resource_type = rq_ResourceType r, co_resource_id = rq_ResourceID r, co_job = jobID,
            co_task = rq_TaskID r, co_attempt = rq_ExpectedAttemptID r, co_generation = rq_ExpectedGeneration r,
            co_version = rq_ExpectedResourceVersion r, co_hash = request_hash r, co_state = ''ACCEPTED'',
            co_receipt = accepted_receipt jobID r ''ACCEPTED'', co_created = now, co_updated = now\<rparr> db) (\<lambda>db'.
        Inr (accepted_receipt jobID r ''ACCEPTED'', db'))))"

definition acceptControlOperation ::
  "Principal option \<Rightarrow> string \<Rightarrow> ControlOperationRequest \<Rightarrow> int \<Rightarrow> ControlDB \<Rightarrow>
   ControlOperationReceipt result \<times> ControlDB" where
  "acceptControlOperation ctx jobID r now db = (
    case rbind (validateControlOperationRequest r) (\<lambda>_.
         rbind (Require ctx ''jobs:control'' False) (\<lambda>p.
         rbind (jobAuthorized ctx jobID ''jobs:read'' db) (\<lambda>j.
         if j_owner j \<noteq> pr_Owner p then Inl (Status ''NotFound'' ''NOT_FOUND'') else Inr p))) of
      Inl e \<Rightarrow> (Inl e, db)
    | Inr p \<Rightarrow> apfst (map_error dbErr) (db_Tx (accept_tx (pr_Owner p) jobID r now) db))"

section \<open>Dispatch\<close>

text \<open>
  \<open>json.Unmarshal\<close> of an object into a struct: a member is matched to a field without regard to case, a
  later member overrides an earlier one, \<open>null\<close> leaves the field, a value of another type is an error.
\<close>

fun unmarshal_string :: "string \<Rightarrow> string \<Rightarrow> (string \<times> json) list \<Rightarrow> string option" where
  "unmarshal_string name v [] = Some v"
| "unmarshal_string name v ((k, j) # fs) = (
    if \<not> equal_fold k name then unmarshal_string name v fs
    else case j of JStr s \<Rightarrow> unmarshal_string name s fs
      | JNull \<Rightarrow> unmarshal_string name v fs
      | _ \<Rightarrow> None)"

fun unmarshal_integer :: "string \<Rightarrow> int \<Rightarrow> (string \<times> json) list \<Rightarrow> int option" where
  "unmarshal_integer name v [] = Some v"
| "unmarshal_integer name v ((k, j) # fs) = (
    if \<not> equal_fold k name then unmarshal_integer name v fs
    else case j of JInt i \<Rightarrow> if - (MaxInt64 + 1) \<le> i \<and> i \<le> MaxInt64 then unmarshal_integer name i fs else None
      | JNull \<Rightarrow> unmarshal_integer name v fs
      | _ \<Rightarrow> None)"

definition object_members :: "json \<Rightarrow> (string \<times> json) list option" where
  "object_members j = (case j of JNull \<Rightarrow> Some [] | JObj fs \<Rightarrow> Some fs | _ \<Rightarrow> None)"

record controlDispatchPayload =
  dp_Mode :: string
  dp_Content :: string
  dp_ApprovalID :: string
  dp_RequestVersion :: int
  dp_Decision :: string

definition empty_payload :: controlDispatchPayload where
  "empty_payload = \<lparr>dp_Mode = [], dp_Content = [], dp_ApprovalID = [], dp_RequestVersion = 0, dp_Decision = []\<rparr>"

definition unmarshal_dispatch :: "json \<Rightarrow> controlDispatchPayload option" where
  "unmarshal_dispatch j =
    Option.bind (object_members j) (\<lambda>fs.
    Option.bind (unmarshal_string ''mode'' [] fs) (\<lambda>mode.
    Option.bind (unmarshal_string ''content'' [] fs) (\<lambda>content.
    Option.bind (unmarshal_string ''approval_id'' [] fs) (\<lambda>approval.
    Option.bind (unmarshal_integer ''request_version'' 0 fs) (\<lambda>version.
    Option.bind (unmarshal_string ''decision'' [] fs) (\<lambda>decision.
    Some \<lparr>dp_Mode = mode, dp_Content = content, dp_ApprovalID = approval, dp_RequestVersion = version,
          dp_Decision = decision\<rparr>))))))"

definition unmarshal_decision :: "json \<Rightarrow> controlDispatchPayload option" where
  "unmarshal_decision j =
    Option.bind (object_members j) (\<lambda>fs.
    Option.bind (unmarshal_string ''approval_id'' [] fs) (\<lambda>approval.
    Option.bind (unmarshal_integer ''request_version'' 0 fs) (\<lambda>version.
    Option.bind (unmarshal_string ''decision'' [] fs) (\<lambda>decision.
    Some (empty_payload\<lparr>dp_ApprovalID := approval, dp_RequestVersion := version, dp_Decision := decision\<rparr>)))))"

definition input_capability :: "string \<Rightarrow> string option" where
  "input_capability mode = (
    if mode = [] \<or> mode = ''interactive'' then Some ''interactive_input''
    else if mode = ''queue_next'' then Some ''queue_next_input''
    else if mode = ''steer_current'' then Some ''steer_current''
    else None)"

definition decision_ok :: "controlDispatchPayload \<Rightarrow> bool" where
  "decision_ok d \<longleftrightarrow> dp_ApprovalID d \<noteq> [] \<and> dp_RequestVersion d \<ge> 1
    \<and> (dp_Decision d = ''ACCEPT'' \<or> dp_Decision d = ''REJECT'')"

definition requiredControlCapability ::
  "ControlOperationRequest \<Rightarrow> (string \<times> controlDispatchPayload) result" where
  "requiredControlCapability r = (
    if rq_OperationType r = ''input'' then
      (case rq_Payload r of None \<Rightarrow> Inl (Status ''InvalidArgument'' ''control input payload required'')
       | Some j \<Rightarrow>
         (case unmarshal_dispatch j of None \<Rightarrow> Inl (Status ''InvalidArgument'' ''invalid control input payload'')
          | Some p \<Rightarrow>
            if dp_Content p = [] then Inl (Status ''InvalidArgument'' ''control input content required'')
            else case input_capability (dp_Mode p) of
              None \<Rightarrow> Inl (Status ''InvalidArgument'' ''invalid control input mode'')
            | Some c \<Rightarrow> Inr (c, p)))
    else if rq_OperationType r = ''interrupt'' then Inr (''interrupt'', empty_payload)
    else if rq_OperationType r = ''resume'' then Inr (''session_resume'', empty_payload)
    else if rq_OperationType r = ''approval'' then
      (case Option.bind (rq_Payload r) unmarshal_decision of
         None \<Rightarrow> Inl (Status ''InvalidArgument'' ''invalid approval decision payload'')
       | Some d \<Rightarrow>
         if \<not> decision_ok d then Inl (Status ''InvalidArgument'' ''invalid approval decision payload'')
         else Inr (''approval'', d))
    else Inl (Status ''FailedPrecondition'' ''CAPABILITY_UNSUPPORTED''))"

text \<open>A connected worker offers runtimes, each with a profile and its capability texts.\<close>

type_synonym peers = "string \<rightharpoonup> (string \<times> string list) list"

definition capability_of :: "string \<Rightarrow> string list" where
  "capability_of v = (
    if v = ''event_stream'' \<or> v = ''runtime:event_stream'' then [''stream_output'', ''structured_output'']
    else if v = ''cancel'' \<or> v = ''runtime:cancel'' then [''cancel'']
    else if prefix ''control:'' v then
      let c = drop (length ''control:'') v in if ValidateCapabilities [c] = Inr () then [c] else []
    else [])"

definition controlCapabilities :: "string list \<Rightarrow> string list" where
  "controlCapabilities vs = sort (remdups (concat (map capability_of vs)))"

definition workerHasControlCapability :: "peers \<Rightarrow> string \<Rightarrow> string \<Rightarrow> string \<Rightarrow> bool" where
  "workerHasControlCapability peers worker profile want = (
    case peers worker of None \<Rightarrow> False
    | Some runtimes \<Rightarrow> list_ex (\<lambda>(prof, caps). prof = profile \<and> want \<in> set (controlCapabilities caps)) runtimes)"

definition validateApprovalDecision ::
  "string \<Rightarrow> ControlOperationRequest \<Rightarrow> controlDispatchPayload \<Rightarrow> int \<Rightarrow> (ControlDB, unit) tx" where
  "validateApprovalDecision jobID r d now db = (
    if \<not> decision_ok d then Inl (Status ''InvalidArgument'' ''invalid approval decision'')
    else if rq_ResourceType r \<noteq> ''approval'' \<or> rq_ResourceID r \<noteq> dp_ApprovalID d
    then Inl (Status ''InvalidArgument'' ''approval resource mismatch'')
    else rbind (expireJobApprovals jobID now db) (\<lambda>db'.
      case List.find (\<lambda>a. ap_id a = dp_ApprovalID d \<and> ap_version a = dp_RequestVersion d \<and> ap_job a = jobID)
          (ct_approvals db') of
        None \<Rightarrow> Inl (Status ''NotFound'' ''NOT_FOUND'')
      | Some a \<Rightarrow>
        if ap_task a \<noteq> rq_TaskID r \<or> ap_attempt a \<noteq> rq_ExpectedAttemptID r
          \<or> ap_generation a \<noteq> rq_ExpectedGeneration r then Inl attempt_fenced
        else if ap_state a = ''PENDING'' then
          if ap_decision a \<noteq> [] then Inl (Status ''AlreadyExists'' ''APPROVAL_DECISION_IN_FLIGHT'') else Inr ((), db')
        else if ap_state a = ''EXPIRED'' \<or> ap_state a = ''SUPERSEDED''
        then Inl (Status ''Aborted'' ''RESOURCE_VERSION_CONFLICT'')
        else if ap_state a = ''ACCEPTED'' \<or> ap_state a = ''REJECTED''
        then Inl (Status ''AlreadyExists'' ''APPROVAL_ALREADY_DECIDED'')
        else Inl (Status ''FailedPrecondition'' ''EXECUTION_UNVERIFIABLE'')))"

definition command_id :: "string \<Rightarrow> string \<Rightarrow> string" where
  "command_id owner oid = ''control-'' @ Hash (owner @ [CHR 0x00] @ oid)"

definition control_command ::
  "string \<Rightarrow> ControlOperationRequest \<Rightarrow> controlDispatchPayload \<Rightarrow> string \<Rightarrow> ControlCommand" where
  "control_command owner r p native = \<lparr>
    cc_OperationId = rq_OperationID r, cc_TaskId = rq_TaskID r, cc_AttemptId = rq_ExpectedAttemptID r,
    cc_Generation = rq_ExpectedGeneration r, cc_SessionRef = native, cc_Action = rq_OperationType r,
    cc_Mode = dp_Mode p,
    cc_Input = (if rq_OperationType r = ''input'' then Some (dp_Content p) else None),
    cc_ApprovalId = (if rq_OperationType r = ''approval'' then dp_ApprovalID p else []),
    cc_RequestVersion = (if rq_OperationType r = ''approval'' then dp_RequestVersion p else 0),
    cc_Decision = (if rq_OperationType r = ''approval'' then dp_Decision p else []),
    cc_PrincipalId = owner\<rparr>"

definition save_control_command ::
  "(string \<Rightarrow> ControlCommand \<Rightarrow> string) \<Rightarrow> string \<Rightarrow> ControlOperationRequest \<Rightarrow> string \<Rightarrow> ControlCommand \<Rightarrow>
   ControlDB \<Rightarrow> ControlDB result" where
  "save_control_command encode cid r worker cmd db = (
    case List.find (\<lambda>c. cm_id c = cid) (ct_commands db) of
      Some old \<Rightarrow>
        if (case cm_control old of None \<Rightarrow> True | Some c \<Rightarrow> Hash (encode cid c) \<noteq> Hash (encode cid cmd))
        then Inl (Status ''AlreadyExists'' ''OPERATION_CONFLICT'') else Inr db
    | None \<Rightarrow> Inr (db\<lparr>ct_commands := ct_commands db @ [\<lparr>cm_id = cid, cm_task = rq_TaskID r,
        cm_attempt = rq_ExpectedAttemptID r, cm_worker = worker, cm_kind = ''control'', cm_control = Some cmd,
        cm_assignment = None, cm_acked = False\<rparr>]\<rparr>))"

definition mark_decision ::
  "string \<Rightarrow> ControlOperationRequest \<Rightarrow> controlDispatchPayload \<Rightarrow> int \<Rightarrow> ControlDB \<Rightarrow> ControlDB result" where
  "mark_decision owner r p now db = (
    if rq_OperationType r \<noteq> ''approval'' then Inr db
    else
      let hit = (\<lambda>a. ap_id a = dp_ApprovalID p \<and> ap_version a = dp_RequestVersion p
          \<and> ap_attempt a = rq_ExpectedAttemptID r \<and> ap_generation a = rq_ExpectedGeneration r
          \<and> ap_state a = ''PENDING'' \<and> ap_decision a = [])
      in if count_where hit (ct_approvals db) \<noteq> 1 then Inl (Status ''Aborted'' ''RESOURCE_VERSION_CONFLICT'')
         else Inr (db\<lparr>ct_approvals := update_where hit
           (\<lambda>a. a\<lparr>ap_decision := dp_Decision p, ap_decided_by := owner, ap_decided_at := now\<rparr>) (ct_approvals db)\<rparr>))"

definition dispatched_json :: "ControlOperationRequest \<Rightarrow> json" where
  "dispatched_json r = JObj [(''attempt_id'', JStr (rq_ExpectedAttemptID r)),
    (''generation'', JInt (rq_ExpectedGeneration r)), (''operation_id'', JStr (rq_OperationID r)),
    (''protocol_version'', JStr ProtocolV1Alpha1), (''state'', JStr ''DISPATCHED''), (''task_id'', JStr (rq_TaskID r))]"

definition dispatch_tx ::
  "(string \<Rightarrow> ControlCommand \<Rightarrow> string) \<Rightarrow> string \<Rightarrow> string \<Rightarrow> ControlOperationRequest \<Rightarrow> controlDispatchPayload \<Rightarrow>
   int \<Rightarrow> (ControlDB, unit) tx" where
  "dispatch_tx encode owner jobID r p now db =
    rbind (select_row (op_key owner (rq_OperationID r)) (ct_operations db)) (\<lambda>x.
    if co_state x \<in> {''COMPLETED'', ''REJECTED'', ''DISPATCHED''} then Inr ((), db)
    else if co_state x \<noteq> ''ACCEPTED'' then Inl (Status ''FailedPrecondition'' ''EXECUTION_UNVERIFIABLE'')
    else rbind (validateControlFence jobID r db) (\<lambda>_.
    rbind (select_row (\<lambda>t. t_id t = rq_TaskID r) (ct_tasks db)) (\<lambda>t.
    if rq_OperationType r = ''resume'' \<and> t_native_session t = []
    then Inl (Status ''FailedPrecondition'' ''EXECUTION_UNVERIFIABLE'')
    else
      let cid = command_id owner (rq_OperationID r);
          cmd = control_command owner r p (t_native_session t)
      in rbind (save_control_command encode cid r (t_worker t) cmd db) (\<lambda>db1.
         rbind (mark_decision owner r p now db1) (\<lambda>db2.
           let db3 = db2\<lparr>ct_operations := update_where
                 (\<lambda>x. op_key owner (rq_OperationID r) x \<and> co_state x = ''ACCEPTED'')
                 (\<lambda>x. x\<lparr>co_state := ''DISPATCHED'', co_receipt := accepted_receipt jobID r ''DISPATCHED'', co_updated := now\<rparr>)
                 (ct_operations db2)\<rparr>
           in rbind (appendJobEvent jobID ''control.accepted'' (dispatched_json r)
                (''control-dispatch:'' @ owner @ '':'' @ rq_OperationID r) (Hash (encode cid cmd)) now db3) (\<lambda>db4.
              Inr ((), db4)))))))"

definition finished_receipt :: "ControlOperationReceipt \<Rightarrow> bool" where
  "finished_receipt rc \<longleftrightarrow> rc_State rc \<in> {''DISPATCHED'', ''COMPLETED'', ''REJECTED''}"

text \<open>
  \<open>acceptAndDispatchControlOperation\<close>. Its parts are separate transactions; what an earlier one wrote
  stays when a later one fails.
\<close>

definition operation_checks ::
  "peers \<Rightarrow> string \<Rightarrow> ControlOperationRequest \<Rightarrow> int \<Rightarrow> ControlDB \<Rightarrow> controlDispatchPayload result \<times> ControlDB" where
  "operation_checks peers jobID r now db = (
    case map_error dbErr (validateControlFence jobID r db) of Inl e \<Rightarrow> (Inl e, db)
    | Inr _ \<Rightarrow>
      (case requiredControlCapability r of Inl e \<Rightarrow> (Inl e, db)
       | Inr (required, p) \<Rightarrow>
         let (checked, db1) = (if rq_OperationType r = ''approval''
               then apfst (map_error dbErr) (db_Tx (validateApprovalDecision jobID r p now) db) else (Inr (), db))
         in (case checked of Inl e \<Rightarrow> (Inl e, db1)
             | Inr _ \<Rightarrow>
               (case List.find (\<lambda>t. t_id t = rq_TaskID r \<and> t_job t = Some jobID) (ct_tasks db1) of
                  None \<Rightarrow> (Inl (Status ''NotFound'' ''NOT_FOUND''), db1)
                | Some t \<Rightarrow>
                  if \<not> workerHasControlCapability peers (t_worker t) (t_profile t) required
                  then (Inl (Status ''FailedPrecondition'' ''CAPABILITY_UNSUPPORTED''), db1)
                  else (Inr p, db1)))))"

definition acceptAndDispatchControlOperation ::
  "(string \<Rightarrow> ControlCommand \<Rightarrow> string) \<Rightarrow> peers \<Rightarrow> Principal option \<Rightarrow> string \<Rightarrow> ControlOperationRequest \<Rightarrow> int \<Rightarrow>
   ControlDB \<Rightarrow> ControlOperationReceipt result \<times> ControlDB" where
  "acceptAndDispatchControlOperation encode peers ctx jobID r now db = (
    case rbind (Require ctx ''jobs:control'' False) (\<lambda>p.
         rbind (validateControlOperationRequest r) (\<lambda>_.
         rbind (jobAuthorized ctx jobID ''jobs:read'' db) (\<lambda>j.
         if j_owner j \<noteq> pr_Owner p then Inl (Status ''NotFound'' ''NOT_FOUND'') else Inr p))) of
      Inl e \<Rightarrow> (Inl e, db)
    | Inr pr \<Rightarrow>
      let owner = pr_Owner pr; old = find_operation owner (rq_OperationID r) db in
      if (case old of Some x \<Rightarrow> co_hash x \<noteq> request_hash r | None \<Rightarrow> False)
      then (Inl (Status ''AlreadyExists'' ''OPERATION_CONFLICT''), db)
      else if (case old of Some x \<Rightarrow> finished_receipt (co_receipt x) | None \<Rightarrow> False)
      then (Inr ((co_receipt (the old))\<lparr>rc_Existing := True\<rparr>), db)
      else
        (case operation_checks peers jobID r now db of
           (Inl e, db1) \<Rightarrow> (Inl e, db1)
         | (Inr p, db1) \<Rightarrow>
           (case acceptControlOperation ctx jobID r now db1 of
              (Inl e, db2) \<Rightarrow> (Inl e, db2)
            | (Inr receipt, db2) \<Rightarrow>
              (case db_Tx (dispatch_tx encode owner jobID r p now) db2 of
                 (Inl e, db3) \<Rightarrow> (Inl (dbErr e), db3)
               | (Inr _, db3) \<Rightarrow> (Inr (receipt\<lparr>rc_State := ''DISPATCHED''\<rparr>), db3)))))"

section \<open>The worker's answer\<close>

record CommandAck =
  ak_CommandId :: string
  ak_State :: string
  ak_OperationId :: string
  ak_ErrorCode :: string
  ak_ErrorMessage :: string

definition applyApprovalControlResult :: "ControlCommand \<Rightarrow> CommandAck \<Rightarrow> int \<Rightarrow> ControlDB \<Rightarrow> ControlDB result" where
  "applyApprovalControlResult cmd ack now db = (
    if cc_Action cmd \<noteq> ''approval'' \<or> cc_ApprovalId cmd = [] \<or> cc_RequestVersion cmd < 1 then Inr db
    else if ak_State ack \<noteq> ''COMPLETED'' then Inr db
    else
      let state = (if cc_Decision cmd = ''ACCEPT'' then ''ACCEPTED'' else ''REJECTED'');
          hit = (\<lambda>a. ap_id a = cc_ApprovalId cmd \<and> ap_version a = cc_RequestVersion cmd
            \<and> ap_attempt a = cc_AttemptId cmd \<and> ap_generation a = cc_Generation cmd \<and> ap_state a = ''PENDING'')
      in if count_where hit (ct_approvals db) \<noteq> 1 then Inl (Status ''Aborted'' ''RESOURCE_VERSION_CONFLICT'')
         else Inr (db\<lparr>ct_approvals := update_where hit
           (\<lambda>a. a\<lparr>ap_state := state, ap_decision := cc_Decision cmd, ap_decided_by := cc_PrincipalId cmd,
                ap_decided_at := now\<rparr>) (ct_approvals db)\<rparr>))"

definition ack_outcome :: "CommandAck \<Rightarrow> string \<times> string \<times> string \<times> string" where
  "ack_outcome ack = (
    if ak_State ack = ''COMPLETED'' then (''COMPLETED'', ''control.completed'', ak_ErrorCode ack, ak_ErrorMessage ack)
    else if ak_State ack = ''UNKNOWN'' then (''REJECTED'', ''control.rejected'', ''EXECUTION_UNVERIFIABLE'',
      if ak_ErrorMessage ack = [] then ''worker could not prove whether control side effect completed''
      else ak_ErrorMessage ack)
    else (''REJECTED'', ''control.rejected'', ak_ErrorCode ack, ak_ErrorMessage ack))"

text \<open>\<open>tasks t JOIN attempts a ON a.id=t.attempt AND a.task=t.id\<close>: is this the current, unreleased attempt?\<close>

definition current_attempt :: "ControlDB \<Rightarrow> string \<Rightarrow> string \<Rightarrow> int \<Rightarrow> string \<Rightarrow> nat" where
  "current_attempt db task attempt generation worker =
    length (filter (\<lambda>(t, a). a_id a = t_attempt t \<and> a_task a = t_id t \<and> t_id t = task \<and> t_attempt t = attempt
      \<and> t_generation t = generation \<and> a_generation a = generation \<and> \<not> a_released a \<and> a_worker a = worker)
      (List.product (ct_tasks db) (ct_attempts db)))"

definition outcome_json :: "string \<Rightarrow> string \<Rightarrow> string \<Rightarrow> json" where
  "outcome_json state code msg = JObj [(''error_code'', JStr code), (''error_message'', JStr msg), (''state'', JStr state)]"

definition result_json :: "CommandAck \<Rightarrow> ControlCommand \<Rightarrow> string \<Rightarrow> string \<Rightarrow> string \<Rightarrow> json" where
  "result_json ack cmd state code msg = JObj [(''attempt_id'', JStr (cc_AttemptId cmd)),
    (''error_code'', JStr code), (''error_message'', JStr msg), (''generation'', JInt (cc_Generation cmd)),
    (''operation_id'', JStr (ak_OperationId ack)), (''protocol_version'', JStr ProtocolV1Alpha1),
    (''state'', JStr state), (''task_id'', JStr (cc_TaskId cmd))]"

definition commit_ack :: "string \<Rightarrow> CommandAck \<Rightarrow> ControlCommand \<Rightarrow> ControlOpRow \<Rightarrow> int \<Rightarrow> ControlDB \<Rightarrow> ControlDB result" where
  "commit_ack worker ack cmd x now db = (
    let (state, typ, code, msg) = ack_outcome ack;
        receipt = (co_receipt x)\<lparr>rc_State := state, rc_ErrorCode := code, rc_ErrorMessage := msg\<rparr>
    in rbind (applyApprovalControlResult cmd ack now db) (\<lambda>db1.
       let db2 = db1\<lparr>
         ct_operations := update_where (op_key (cc_PrincipalId cmd) (ak_OperationId ack))
           (\<lambda>x. x\<lparr>co_state := state, co_receipt := receipt, co_updated := now\<rparr>) (ct_operations db1),
         ct_commands := update_where (\<lambda>c. cm_id c = ak_CommandId ack \<and> cm_worker c = worker)
           (\<lambda>c. c\<lparr>cm_acked := True\<rparr>) (ct_commands db1)\<rparr>
       in appendJobEvent (co_job x) typ (result_json ack cmd state code msg)
            (''control-result:'' @ cc_PrincipalId cmd @ '':'' @ ak_OperationId ack)
            (Hash (json_text (outcome_json state code msg))) now db2))"

definition ack_tx :: "string \<Rightarrow> CommandAck \<Rightarrow> int \<Rightarrow> (ControlDB, unit) tx" where
  "ack_tx worker ack now db =
    rbind (select_row (\<lambda>c. cm_id c = ak_CommandId ack \<and> cm_worker c = worker \<and> cm_kind c = ''control'') (ct_commands db))
      (\<lambda>c. case cm_control c of
        None \<Rightarrow> Inl (Status ''InvalidArgument'' ''control ACK identity mismatch'')
      | Some cmd \<Rightarrow>
        if cc_OperationId cmd \<noteq> ak_OperationId ack \<or> cc_PrincipalId cmd = []
        then Inl (Status ''InvalidArgument'' ''control ACK identity mismatch'')
        else
          let (state, typ, code, msg) = ack_outcome ack in
          rbind (select_row (op_key (cc_PrincipalId cmd) (ak_OperationId ack)) (ct_operations db)) (\<lambda>x.
          let receipt = co_receipt x in
          if rc_State receipt = ''COMPLETED'' \<or> rc_State receipt = ''REJECTED'' then
            if rc_State receipt \<noteq> state \<or> rc_ErrorCode receipt \<noteq> code \<or> rc_ErrorMessage receipt \<noteq> msg
            then Inl (Status ''AlreadyExists'' ''OPERATION_CONFLICT'') else Inr ((), db)
          else if current_attempt db (cc_TaskId cmd) (cc_AttemptId cmd) (cc_Generation cmd) worker \<noteq> 1
          then Inl attempt_fenced
          else rbind (commit_ack worker ack cmd x now db) (\<lambda>db'. Inr ((), db'))))"

definition applyControlAck :: "string \<Rightarrow> CommandAck \<Rightarrow> int \<Rightarrow> ControlDB \<Rightarrow> unit result \<times> ControlDB" where
  "applyControlAck worker ack now db = (
    if ak_CommandId ack = [] \<or> ak_OperationId ack = []
    then (Inl (Status ''InvalidArgument'' ''invalid control command ACK''), db)
    else if ak_State ack \<notin> {''COMPLETED'', ''REJECTED'', ''UNKNOWN''}
    then (Inl (Status ''InvalidArgument'' ''invalid control command ACK state''), db)
    else db_Tx (ack_tx worker ack now) db)"

text \<open>The control branch of \<open>commandDeliverable\<close>: the command is sent only to the current attempt.\<close>

definition control_deliverable :: "ControlCommand \<Rightarrow> string \<Rightarrow> string \<Rightarrow> ControlDB \<Rightarrow> bool" where
  "control_deliverable x worker epoch db \<longleftrightarrow>
    length (filter (\<lambda>(a, t, y). t_id t = a_task a \<and> co_principal y = cc_PrincipalId x \<and> co_operation y = cc_OperationId x
      \<and> a_id a = cc_AttemptId x \<and> a_task a = cc_TaskId x \<and> a_worker a = worker \<and> a_epoch a = epoch
      \<and> a_generation a = cc_Generation x \<and> \<not> a_released a
      \<and> t_attempt t = a_id a \<and> t_generation t = a_generation a
      \<and> co_task y = t_id t \<and> co_attempt y = a_id a \<and> co_generation y = a_generation a \<and> co_state y = ''DISPATCHED'')
      (List.product (ct_attempts db) (List.product (ct_tasks db) (ct_operations db)))) = 1"

end
