(* ===== verification/Server_Config.thy ===== *)
theory Server_Config
  imports Control_Plane
begin

text \<open>
  The configuration the server's execution path reads (\<open>internal/config\<close>): limits of the queue and of jobs, the
  job templates, and the routes of the model gateway with the digest that freezes a route in a job.
\<close>

record CodexCLI =
  cli_Executable :: string
  cli_Version :: string

record ModelRoute =
  mo_Backend :: string
  mo_CLI :: "CodexCLI option"
  mo_BaseURL :: string
  mo_APIKeyRef :: string
  mo_ProtocolVersion :: string
  mo_AllowedModels :: "string list"
  mo_MaxInflight :: int
  mo_MaxAttemptTokens :: int
  mo_MaxAttemptCostMicros :: int
  mo_InputCostPerMillionTokensMicros :: int
  mo_OutputCostPerMillionTokensMicros :: int

definition zero_route :: ModelRoute where
  "zero_route = \<lparr>mo_Backend = [], mo_CLI = None, mo_BaseURL = [], mo_APIKeyRef = [], mo_ProtocolVersion = [],
    mo_AllowedModels = [], mo_MaxInflight = 0, mo_MaxAttemptTokens = 0, mo_MaxAttemptCostMicros = 0,
    mo_InputCostPerMillionTokensMicros = 0, mo_OutputCostPerMillionTokensMicros = 0\<rparr>"

text \<open>\<open>strings.TrimRight(s, "/")\<close>.\<close>

definition trim_slashes :: "string \<Rightarrow> string" where
  "trim_slashes s = rev (dropWhile (\<lambda>c. c = slash) (rev s))"

definition cli_json :: "CodexCLI option \<Rightarrow> json" where
  "cli_json c = (case c of None \<Rightarrow> JNull
    | Some x \<Rightarrow> JObj [(''Executable'', JStr (cli_Executable x)), (''Version'', JStr (cli_Version x))])"

text \<open>
  The entries of a Go map are written in the order of their keys. A nil list of models stays nil in the
  copy that is sorted, hence \<open>null\<close>.
\<close>

definition models_json :: "ModelRoute \<Rightarrow> json" where
  "models_json r = (if mo_AllowedModels r = [] then JNull else json_strs (sort (mo_AllowedModels r)))"

definition route_costs :: "ModelRoute \<Rightarrow> (string \<times> json) \<times> (string \<times> json) \<times> (string \<times> json) \<times> (string \<times> json)" where
  "route_costs r = ((''input_cost_per_million_tokens_microusd'', JInt (mo_InputCostPerMillionTokensMicros r)),
    (''max_attempt_cost_microusd'', JInt (mo_MaxAttemptCostMicros r)), (''max_attempt_tokens'', JInt (mo_MaxAttemptTokens r)),
    (''output_cost_per_million_tokens_microusd'', JInt (mo_OutputCostPerMillionTokensMicros r)))"

definition route_json :: "ModelRoute \<Rightarrow> json" where
  "route_json r = (
    let (inputCost, attemptCost, attemptTokens, outputCost) = route_costs r; models = (''models'', models_json r);
        url = (''base_url'', JStr (trim_slashes (mo_BaseURL r))) in
    if mo_Backend r = ''codex_cli'' then
      JObj [(''cli'', cli_json (mo_CLI r)), inputCost, attemptCost, attemptTokens, models, outputCost, (''version'', JStr ''codex-cli-route-v1'')]
    else if mo_Backend r = ''anthropic_messages'' then
      JObj [(''api_key_ref'', JStr (mo_APIKeyRef r)), url, inputCost, attemptCost, attemptTokens,
        (''max_inflight'', JInt (mo_MaxInflight r)), models, outputCost, (''protocol_version'', JStr (mo_ProtocolVersion r)),
        (''version'', JStr ''anthropic-messages-route-v1'')]
    else JObj [url, inputCost, attemptCost, attemptTokens, models, outputCost, (''version'', JStr ''model-route-v1'')])"

definition RouteDigest :: "ModelRoute \<Rightarrow> string" where
  "RouteDigest r = Hash (json_text (route_json r))"

record JobTemplate =
  jt_RuntimeProfile :: string
  jt_PolicyRef :: string
  jt_AcceptanceProfile :: string
  jt_Digest :: string

definition profile_execution :: "string \<Rightarrow> string \<Rightarrow> string \<Rightarrow> Execution" where
  "profile_execution profile policy acceptance = \<lparr>ex_Engine = [], ex_RuntimeProfile = profile, ex_Model = [], ex_CredentialRef = [],
    ex_PolicyRef = policy, ex_AcceptanceProfile = acceptance, ex_ReplaySafe = False, ex_Tools = [], ex_Environment = []\<rparr>"

definition JobTemplate_Key :: "JobTemplate \<Rightarrow> string" where
  "JobTemplate_Key t = TemplateKey (profile_execution (jt_RuntimeProfile t) (jt_PolicyRef t) (jt_AcceptanceProfile t))"

record ServerConfig =
  cf_Maintenance :: bool
  cf_Models :: "(string \<times> string) list"
  cf_Credentials :: "(string \<times> int) list"
  cf_MaxProjectTasks :: int
  cf_LeaseSeconds :: int
  cf_ScoreEnabled :: bool
  cf_PublicExecutionMode :: string
  cf_GatewayEnabled :: bool
  cf_GatewayPublicBaseURL :: string
  cf_GatewayRoutes :: "(string \<times> ModelRoute) list"
  cf_CredentialRoutes :: "(string \<times> string) list"
  cf_JobsEnabled :: bool
  cf_MaxPartitions :: int
  cf_MaxParallelism :: int
  cf_MaxRequestBytes :: int
  cf_MaxManifestBytes :: int
  cf_MaxReduceInputBytes :: int
  cf_MaxTotalRuntimeSeconds :: int
  cf_MaxDeadlineExtendSeconds :: int
  cf_MaxTaskEvents :: int
  cf_SchedulerAgingSeconds :: int
  cf_MaxQueuedTasks :: int
  cf_MaxQueuedTasksPerProject :: int
  cf_Templates :: "JobTemplate list"

text \<open>Reading a Go map: the zero value for a key that is not there.\<close>

definition map_get :: "(string \<times> string) list \<Rightarrow> string \<Rightarrow> string" where
  "map_get m k = (case map_of m k of None \<Rightarrow> [] | Some v \<Rightarrow> v)"

definition credential_slots :: "ServerConfig \<Rightarrow> string \<Rightarrow> int" where
  "credential_slots cfg ref = (case map_of (cf_Credentials cfg) ref of None \<Rightarrow> 0 | Some n \<Rightarrow> n)"

definition gateway_route :: "ServerConfig \<Rightarrow> string \<Rightarrow> ModelRoute" where
  "gateway_route cfg name = (case map_of (cf_GatewayRoutes cfg) name of None \<Rightarrow> zero_route | Some r \<Rightarrow> r)"

end
