(* ===== verification/Task_State.thy ===== *)
theory Task_State
  imports Server_Config
begin

text \<open>
  What every operation on tasks shares (\<open>internal/server/tasks.go\<close>, \<open>jobs.go\<close>, \<open>server.go\<close>): events of a task,
  the change of a task's state, stages and state of its job, commands to a worker, admission to the
  queue, and the references that keep an artifact.

  An event's payload is held as its syntax tree. \<open>enc\<close> is the protobuf text of an event, from a third-party
  package. An identifier that \<open>store.ID\<close> draws for an event of the server is never read back and
  is kept as \<open>None\<close>; other identifiers that an operation draws are its arguments.
\<close>

section \<open>A transaction per item\<close>

text \<open>A loop that runs one transaction after the other and stops at the first that fails.\<close>

fun each_tx :: "('s \<Rightarrow> 'a \<Rightarrow> 's result) \<Rightarrow> 's \<Rightarrow> 'a list \<Rightarrow> unit result \<times> 's" where
  "each_tx f db [] = (Inr (), db)"
| "each_tx f db (x # xs) = (case f db x of Inl e \<Rightarrow> (Inl e, db) | Inr db' \<Rightarrow> each_tx f db' xs)"

lemma each_tx_invariant:
  assumes "P db" "\<And>d x d'. P d \<Longrightarrow> x \<in> set xs \<Longrightarrow> f d x = Inr d' \<Longrightarrow> P d'"
  shows "P (snd (each_tx f db xs))"
  using assms
proof (induction xs arbitrary: db)
  case (Cons x xs)
  show ?case
  proof (cases "f db x")
    case (Inl e)
    with Cons.prems(1) show ?thesis by simp
  next
    case (Inr d)
    have "P d" by (rule Cons.prems(2) [OF Cons.prems(1) _ Inr]) simp
    then have "P (snd (each_tx f d xs))" by (rule Cons.IH) (rule Cons.prems(2), simp_all)
    with Inr show ?thesis by simp
  qed
qed simp

section \<open>Events of a task\<close>

text \<open>
  \<open>ev_Payload\<close> is \<open>None\<close> for a payload that is not JSON; \<open>ev_Metrics\<close>, like \<open>ev_Approval\<close>, is what
  \<open>json.Unmarshal\<close> makes of it for the event type that needs it, \<open>None\<close> for an error.
\<close>

record TaskEvent = RuntimeEvent +
  ev_EventId :: string
  ev_WorkerSeq :: int
  ev_Seq :: int
  ev_RecordedAtMs :: int
  ev_Payload :: "json option"
  ev_PayloadLength :: int
  ev_Metrics :: "AttemptMetrics option"

definition server_event :: "string \<Rightarrow> string \<Rightarrow> int \<Rightarrow> string \<Rightarrow> json \<Rightarrow> TaskEvent" where
  "server_event task attempt generation kind payload = \<lparr>ev_Type = kind, ev_TaskId = task, ev_AttemptId = attempt,
    ev_Generation = generation, ev_Approval = None, ev_EventId = [], ev_WorkerSeq = 0, ev_Seq = 0, ev_RecordedAtMs = 0,
    ev_Payload = Some payload, ev_PayloadLength = int (length (json_text payload)), ev_Metrics = None\<rparr>"

text \<open>
  The keys of \<open>events\<close>: (task, seq), (attempt, worker_seq) where the second is not null, and (task, id).
\<close>

definition event_conflict :: "EventRow \<Rightarrow> EventRow \<Rightarrow> bool" where
  "event_conflict r x \<longleftrightarrow> e_task r = e_task x \<and> e_seq r = e_seq x
    \<or> e_attempt r = e_attempt x \<and> e_worker_seq r \<noteq> None \<and> e_worker_seq r = e_worker_seq x
    \<or> e_task r = e_task x \<and> e_id r \<noteq> None \<and> e_id r = e_id x"

definition save_dedup :: "string \<Rightarrow> int option \<Rightarrow> string \<Rightarrow> ControlDB \<Rightarrow> ControlDB" where
  "save_dedup attempt workerSeq hash db = (
    case workerSeq of None \<Rightarrow> db
    | Some n \<Rightarrow>
      if list_ex (\<lambda>d. dd_attempt d = attempt \<and> dd_worker_seq d = n) (ct_dedup db) then db
      else db\<lparr>ct_dedup := ct_dedup db @ [\<lparr>dd_attempt = attempt, dd_worker_seq = n, dd_hash = hash\<rparr>]\<rparr>)"

definition appendEvent ::
  "(TaskEvent \<Rightarrow> string) \<Rightarrow> TaskEvent \<Rightarrow> int option \<Rightarrow> int \<Rightarrow> ControlDB \<Rightarrow> ControlDB result" where
  "appendEvent enc ev workerSeq now db =
    rbind (select_row (\<lambda>t. t_id t = ev_TaskId ev) (ct_tasks db)) (\<lambda>t.
      let hash = Hash (enc ev);
          tasks' = update_where (\<lambda>x. t_id x = ev_TaskId ev) (\<lambda>x. x\<lparr>t_seq := t_seq x + 1, t_updated := now\<rparr>) (ct_tasks db);
          row = \<lparr>e_task = ev_TaskId ev, e_seq = t_seq t + 1, e_attempt = ev_AttemptId ev, e_worker_seq = workerSeq,
            e_id = (if ev_EventId ev \<noteq> [] then Some (ev_EventId ev) else None), e_hash = hash, e_type = ev_Type ev,
            e_payload = ev_Payload ev\<rparr>
      in rbind (insert_row event_conflict row (ct_events db)) (\<lambda>events.
           Inr (save_dedup (ev_AttemptId ev) workerSeq hash (db\<lparr>ct_tasks := tasks', ct_events := events\<rparr>))))"

section \<open>State of a task\<close>

definition state_json :: "string \<Rightarrow> string \<Rightarrow> string \<Rightarrow> string \<Rightarrow> json" where
  "state_json old state code msg = JObj [(''code'', JStr code), (''from'', JStr old), (''message'', JStr msg), (''to'', JStr state)]"

definition task_state_json :: "string \<Rightarrow> string \<Rightarrow> string \<Rightarrow> string \<Rightarrow> json" where
  "task_state_json task old state code = JObj [(''code'', JStr code), (''from'', JStr old), (''task_id'', JStr task), (''to'', JStr state)]"

definition setState ::
  "(TaskEvent \<Rightarrow> string) \<Rightarrow> string \<Rightarrow> string \<Rightarrow> string \<Rightarrow> string \<Rightarrow> int \<Rightarrow> ControlDB \<Rightarrow> ControlDB result" where
  "setState enc task state code msg now db =
    rbind (select_row (\<lambda>t. t_id t = task) (ct_tasks db)) (\<lambda>t.
    if t_state t = state \<or> job_terminal (t_state t) then Inr db
    else
      let db1 = db\<lparr>ct_tasks := update_where (\<lambda>x. t_id x = task)
            (\<lambda>x. x\<lparr>t_state := state, t_error_code := code, t_error_message := msg, t_updated := now\<rparr>) (ct_tasks db)\<rparr>;
          kind = (if job_terminal state then ''task.completed'' else ''task.state_changed'')
      in rbind (appendEvent enc (server_event task [] 0 kind (state_json (t_state t) state code msg)) None now db1) (\<lambda>db2.
         case t_job t of None \<Rightarrow> Inr db2
         | Some jid \<Rightarrow> appendJobEvent jid ''job.task_state'' (task_state_json task (t_state t) state code) [] [] now db2))"

section \<open>Stages and jobs\<close>

definition stage_json :: "string \<Rightarrow> string \<Rightarrow> string \<Rightarrow> string \<Rightarrow> json" where
  "stage_json sid kind old new = JObj [(''from'', JStr old), (''kind'', JStr kind), (''stage_id'', JStr sid), (''to'', JStr new)]"

definition setStageState :: "string \<Rightarrow> string \<Rightarrow> int \<Rightarrow> ControlDB \<Rightarrow> ControlDB result" where
  "setStageState sid state now db = (
    if sid = [] then Inr db
    else rbind (select_row (\<lambda>g. sg_id g = sid) (ct_stages db)) (\<lambda>g.
      if sg_state g = state \<or> job_terminal (sg_state g) then Inr db
      else appendJobEvent (sg_job g) ''job.stage_state'' (stage_json sid (sg_kind g) (sg_state g) state) [] [] now
        (db\<lparr>ct_stages := update_where (\<lambda>x. sg_id x = sid) (\<lambda>x. x\<lparr>sg_state := state, sg_updated := now\<rparr>) (ct_stages db)\<rparr>)))"

definition setTaskStageState :: "string \<Rightarrow> string \<Rightarrow> int \<Rightarrow> ControlDB \<Rightarrow> ControlDB result" where
  "setTaskStageState task state now db =
    rbind (select_row (\<lambda>t. t_id t = task) (ct_tasks db)) (\<lambda>t.
    case t_stage_id t of None \<Rightarrow> Inr db
    | Some sid \<Rightarrow> if sid = [] then Inr db else setStageState sid state now db)"

definition readJob :: "string \<Rightarrow> ControlDB \<Rightarrow> ExecJobRow result" where
  "readJob jid db = select_row (\<lambda>j. j_id j = jid) (ct_jobs db)"

text \<open>May the job of a task still execute?\<close>

definition jobAllowsExecution :: "string \<Rightarrow> int \<Rightarrow> ControlDB \<Rightarrow> bool" where
  "jobAllowsExecution task now db \<longleftrightarrow>
    length (filter (\<lambda>t. t_id t = task \<and> (case t_job t of None \<Rightarrow> True
      | Some jid \<Rightarrow> list_ex (\<lambda>j. j_id j = jid \<and> j_stop_reason j = []
          \<and> j_state j \<in> {''QUEUED'', ''EXECUTING'', ''MAPPING'', ''REDUCING''} \<and> j_deadline j > now) (ct_jobs db)))
      (ct_tasks db)) = 1"

section \<open>Commands\<close>

definition saveCommand :: "string \<Rightarrow> string \<Rightarrow> string \<Rightarrow> Assignment \<Rightarrow> ControlDB \<Rightarrow> ControlDB result" where
  "saveCommand cid worker kind a db =
    rbind (insert_row (\<lambda>r x. cm_id r = cm_id x) \<lparr>cm_id = cid, cm_task = as_TaskId a, cm_attempt = as_AttemptId a, cm_worker = worker,
        cm_kind = kind, cm_control = None, cm_assignment = Some a, cm_acked = False\<rparr> (ct_commands db))
      (\<lambda>cs. Inr (db\<lparr>ct_commands := cs\<rparr>))"

definition stopCommand :: "string \<Rightarrow> TaskRow \<Rightarrow> ControlDB \<Rightarrow> ControlDB result" where
  "stopCommand cid t db = (
    if list_ex (\<lambda>c. cm_attempt c = t_attempt t \<and> cm_kind c = ''stop'') (ct_commands db) then Inr db
    else rbind (select_row (\<lambda>a. a_id a = t_attempt t) (ct_attempts db)) (\<lambda>a.
      saveCommand cid (t_worker t) ''stop'' \<lparr>as_TaskId = t_id t, as_AttemptId = t_attempt t, as_Generation = a_generation a,
        as_LeaseToken = a_token a, as_LeaseTtlMs = 0, as_DeadlineMs = 0, as_Spec = None, as_Job = None, as_Gateway = None,
        as_RuntimeBudget = None\<rparr> db))"

text \<open>The branch of \<open>commandDeliverable\<close> for start and stop commands.\<close>

definition assignment_deliverable :: "CommandRow \<Rightarrow> string \<Rightarrow> string \<Rightarrow> ControlDB \<Rightarrow> bool" where
  "assignment_deliverable c worker epoch db = (
    case cm_assignment c of None \<Rightarrow> False
    | Some a \<Rightarrow> (cm_kind c = ''start'' \<or> cm_kind c = ''stop'') \<and>
      length (filter (\<lambda>(x, t). t_id t = a_task x \<and> a_id x = as_AttemptId a \<and> a_task x = as_TaskId a \<and> a_worker x = worker
        \<and> a_epoch x = epoch \<and> a_generation x = as_Generation a \<and> a_token x = as_LeaseToken a \<and> \<not> a_released x
        \<and> t_attempt t = a_id x \<and> t_generation t = a_generation x)
        (List.product (ct_attempts db) (ct_tasks db))) = 1)"

definition commandDeliverable :: "CommandRow \<Rightarrow> string \<Rightarrow> string \<Rightarrow> ControlDB \<Rightarrow> bool" where
  "commandDeliverable c worker epoch db = (
    case (cm_kind c = ''control'', cm_control c) of
      (True, Some x) \<Rightarrow> control_deliverable x worker epoch db
    | _ \<Rightarrow> assignment_deliverable c worker epoch db)"

section \<open>Admission to the queue\<close>

definition checkQueueAdmission :: "ServerConfig \<Rightarrow> string \<Rightarrow> int \<Rightarrow> ControlDB \<Rightarrow> unit result" where
  "checkQueueAdmission cfg project additional db = (
    if additional < 1 then Inr ()
    else
      let total = int (count_where (\<lambda>t. t_state t = ''QUEUED'') (ct_tasks db));
          projectTotal = int (count_where (\<lambda>t. t_state t = ''QUEUED'' \<and> t_project t = project) (ct_tasks db)) in
      if total + additional > cf_MaxQueuedTasks cfg then Inl (Status ''ResourceExhausted'' ''QUEUE_BACKPRESSURE_GLOBAL'')
      else if projectTotal + additional > cf_MaxQueuedTasksPerProject cfg
      then Inl (Status ''ResourceExhausted'' ''QUEUE_BACKPRESSURE_PROJECT'')
      else Inr ())"

section \<open>Artifacts\<close>

definition artifactOrphanRetentionMS :: int where
  "artifactOrphanRetentionMS = 24 * 60 * 60 * 1000"

definition pinArtifactRef :: "string \<Rightarrow> string \<Rightarrow> string \<Rightarrow> int \<Rightarrow> ControlDB \<Rightarrow> ControlDB result" where
  "pinArtifactRef artifact refType refID now db =
    rbind (select_row (\<lambda>x. af_id x = artifact) (ct_artifacts db)) (\<lambda>x.
    if af_state x \<noteq> ''ACCEPTED'' then Inl (Error ''artifact reference requires ACCEPTED artifact'')
    else if list_ex (\<lambda>r. rf_artifact r = artifact \<and> rf_type r = refType \<and> rf_ref r = refID) (ct_refs db) then Inr db
    else Inr (db\<lparr>ct_refs := ct_refs db @ [\<lparr>rf_artifact = artifact, rf_type = refType, rf_ref = refID, rf_created = now\<rparr>]\<rparr>))"

definition acceptArtifact :: "string \<Rightarrow> string \<Rightarrow> string \<Rightarrow> int \<Rightarrow> int \<Rightarrow> ControlDB \<Rightarrow> ControlDB result" where
  "acceptArtifact artifact attempt task generation now db = (
    let hit = (\<lambda>x. af_id x = artifact \<and> af_attempt x = attempt \<and> af_generation x = generation \<and> af_state x = ''STAGED'') in
    if count_where hit (ct_artifacts db) \<noteq> 1 then Inl (Error ''artifact acceptance lost generation ownership'')
    else pinArtifactRef artifact ''task_result'' task now
      (db\<lparr>ct_artifacts := update_where hit (\<lambda>x. x\<lparr>af_state := ''ACCEPTED'', af_updated := now, af_gc_after := 0\<rparr>) (ct_artifacts db)\<rparr>))"

definition orphanStagedArtifacts :: "string \<Rightarrow> int \<Rightarrow> int \<Rightarrow> ControlDB \<Rightarrow> ControlDB" where
  "orphanStagedArtifacts attempt generation now db = db\<lparr>ct_artifacts := update_where
    (\<lambda>x. af_attempt x = attempt \<and> af_generation x = generation \<and> af_state x = ''STAGED'')
    (\<lambda>x. x\<lparr>af_state := ''ORPHANED'', af_updated := now, af_gc_after := now + artifactOrphanRetentionMS\<rparr>) (ct_artifacts db)\<rparr>"

end
