(* ===== verification/Goal_Execution.thy ===== *)
theory Goal_Execution
  imports Task_State
begin

text \<open>
  Goals of jobs (\<open>internal/server/goal_execution.go\<close>, \<open>goal_governance.go\<close>, \<open>goal_runtime_budget.go\<close>): every job
  is bound to a goal with a plan, each of its attempts is reserved against the goal's budget and its
  usage is recorded, and the end of the job is evaluated. The job contract is frozen as its JSON text
  (\<open>internal/job\<close>). \<open>jobState\<close>, the change of a job's state, evaluates the goal when the job ends.
\<close>

section \<open>The frozen contract as text\<close>

definition map_put :: "string \<Rightarrow> string \<Rightarrow> (string \<times> string) list \<Rightarrow> (string \<times> string) list" where
  "map_put k v m = (k, v) # filter (\<lambda>(k', _). k' \<noteq> k) m"

text \<open>\<open>json.Marshal\<close> writes the entries of a map in the order of their keys.\<close>

definition map_json :: "(string \<times> string) list \<Rightarrow> json" where
  "map_json m = JObj (map (\<lambda>(k, v). (k, JStr v)) (sort_key fst m))"

definition opt_map :: "string \<Rightarrow> (string \<times> string) list \<Rightarrow> (string \<times> json) list" where
  "opt_map k m = (if m = [] then [] else [(k, map_json m)])"

definition opt_true :: "string \<Rightarrow> bool \<Rightarrow> (string \<times> json) list" where
  "opt_true k b = (if b then [(k, JBool True)] else [])"

definition input_json :: "Input \<Rightarrow> json" where
  "input_json i = JObj [(''text'', JStr (in_Text i))]"

definition job_execution_json :: "Execution \<Rightarrow> json" where
  "job_execution_json e = JObj (opt_str ''engine'' (ex_Engine e)
    @ [(''runtime_profile'', JStr (ex_RuntimeProfile e)), (''model'', JStr (ex_Model e)),
       (''credential_ref'', JStr (ex_CredentialRef e)), (''policy_ref'', JStr (ex_PolicyRef e)),
       (''acceptance_profile'', JStr (ex_AcceptanceProfile e))]
    @ opt_true ''replay_safe'' (ex_ReplaySafe e) @ opt_arr ''tools'' (map JStr (ex_Tools e))
    @ opt_str ''environment'' (ex_Environment e))"

definition partition_json :: "Partition \<Rightarrow> json" where
  "partition_json p = JObj [(''key'', JStr (pt_Key p)), (''scope_paths'', json_strs (pt_ScopePaths p)),
    (''input'', input_json (pt_Input p)), (''execution'', job_execution_json (pt_Execution p))]"

definition map_stage_json :: "Map \<Rightarrow> json" where
  "map_stage_json m = JObj [(''parallelism'', JInt (mp_Parallelism m)), (''partitions'', JArr (map partition_json (mp_Partitions m)))]"

definition reduce_stage_json :: "Reduce \<Rightarrow> json" where
  "reduce_stage_json r = JObj [(''strategy'', JStr (rd_Strategy r)), (''input'', input_json (rd_Input r)),
    (''execution'', job_execution_json (rd_Execution r))]"

definition job_limits_json :: "Limits \<Rightarrow> json" where
  "job_limits_json l = JObj ([(''timeout_seconds'', JInt (lm_TimeoutSeconds l)),
    (''max_attempts_per_task'', JInt (lm_MaxAttemptsPerTask l))] @ opt_nonzero ''priority'' (lm_Priority l))"

definition opt_json :: "string \<Rightarrow> ('a \<Rightarrow> json) \<Rightarrow> 'a option \<Rightarrow> (string \<times> json) list" where
  "opt_json k f v = (case v of None \<Rightarrow> [] | Some x \<Rightarrow> [(k, f x)])"

definition job_spec_json :: "Spec \<Rightarrow> json" where
  "job_spec_json s = JObj ([(''schema_version'', JStr (sp_SchemaVersion s)), (''project_id'', JStr (sp_ProjectID s)),
      (''mode'', JStr (sp_Mode s)),
      (''workspace'', JObj [(''repository_ref'', JStr (ws_RepositoryRef (sp_Workspace s))),
         (''base_commit'', JStr (ws_BaseCommit (sp_Workspace s)))]),
      (''input'', input_json (sp_Input s))]
    @ opt_json ''execution'' job_execution_json (sp_Execution s) @ opt_json ''map'' map_stage_json (sp_Map s)
    @ opt_json ''reduce'' reduce_stage_json (sp_Reduce s) @ [(''limits'', job_limits_json (sp_Limits s))])"

definition frozen_json :: "ExecJobRow \<Rightarrow> json" where
  "frozen_json j = JObj ([(''spec'', job_spec_json (j_spec j)), (''template_digests'', map_json (j_digests j))]
    @ opt_map ''gateway_routes'' (j_routes j) @ opt_map ''gateway_route_digests'' (j_route_digests j))"

section \<open>The plan of a job\<close>

record goalGraphNode =
  gn_ID :: string
  gn_Stage :: string
  gn_DependsOn :: "string list"

definition compileJobGraph :: "Spec \<Rightarrow> goalGraphNode list" where
  "compileJobGraph spec = (
    case sp_Map spec of None \<Rightarrow> [\<lparr>gn_ID = ''single'', gn_Stage = ''single'', gn_DependsOn = []\<rparr>]
    | Some m \<Rightarrow>
        let ids = map (\<lambda>p. ''map:'' @ pt_Key p) (mp_Partitions m) in
        map (\<lambda>i. \<lparr>gn_ID = i, gn_Stage = ''map'', gn_DependsOn = []\<rparr>) ids
        @ [\<lparr>gn_ID = ''reduce'', gn_Stage = ''reduce'', gn_DependsOn = ids\<rparr>])"

definition goalGraph_json :: "goalGraphNode list \<Rightarrow> json" where
  "goalGraph_json g = JArr (map (\<lambda>n. JObj [(''id'', JStr (gn_ID n)), (''stage'', JStr (gn_Stage n)),
    (''depends_on'', json_strs (gn_DependsOn n))]) g)"

section \<open>Binding\<close>

definition update_goal :: "(GoalDB \<Rightarrow> GoalDB result) \<Rightarrow> ControlDB \<Rightarrow> ControlDB result" where
  "update_goal f db = rbind (f (ct_goal db)) (\<lambda>g. Inr (db\<lparr>ct_goal := g\<rparr>))"

text \<open>\<open>attempts a JOIN tasks t ON a.task=t.id\<close>.\<close>

definition attempts_with_tasks :: "ControlDB \<Rightarrow> (AttemptRow \<times> TaskRow) list" where
  "attempts_with_tasks db = [(a, t). a \<leftarrow> ct_attempts db, t \<leftarrow> ct_tasks db, a_task a = t_id t]"

definition job_attempts :: "string \<Rightarrow> ControlDB \<Rightarrow> AttemptRow list" where
  "job_attempts jid db = map fst (filter (\<lambda>(a, t). t_job t = Some jid) (attempts_with_tasks db))"

definition bind_goal :: "ExecJobRow \<Rightarrow> string \<Rightarrow> string list \<Rightarrow> int \<Rightarrow> GoalDB \<Rightarrow> GoalDB result" where
  "bind_goal j goalID used now g =
    (let graph = compileJobGraph (j_spec j);
         maxPerTask = max 1 (lm_MaxAttemptsPerTask (sp_Limits (j_spec j)));
         maximum = max (int (length graph) * maxPerTask) (int (length used));
         wall = max 1 (j_deadline j - j_created j) in
     rbind (insert_goal \<lparr>gl_id = goalID, gl_owner = j_owner j, gl_project = j_project j, gl_state = ''RUNNING'',
         gl_active_plan_revision = 1, gl_active_graph_generation = 1, gl_max_replans = 0,
         gl_max_total_attempts = maximum, gl_max_wall_time_ms = wall, gl_consumed_replans = 0,
         gl_consumed_attempts = int (length used), gl_created = j_created j, gl_updated = now,
         gl_deadline = j_deadline j, gl_version = 1\<rparr> g) (\<lambda>g1.
     rbind (insert_binding \<lparr>bd_job = j_id j, bd_goal = goalID, bd_revision = 1, bd_generation = 1\<rparr> g1) (\<lambda>g2.
     rbind (insert_plan \<lparr>pl_goal = goalID, pl_revision = 1, pl_generation = 1, pl_job = j_id j,
         pl_frozen_spec = json_text (frozen_json j), pl_graph_json = json_text (goalGraph_json graph), pl_created = now\<rparr> g2) (\<lambda>g3.
     fold_result (\<lambda>h aid. insert_reservation \<lparr>rs_attempt = aid, rs_goal = goalID, rs_revision = 1, rs_generation = 1,
         rs_created = now\<rparr> h) g3 used))))"

definition ensureGoalBinding :: "ExecJobRow \<Rightarrow> int \<Rightarrow> ControlDB \<Rightarrow> (string \<times> ControlDB) result" where
  "ensureGoalBinding j now db = (
    case List.find (\<lambda>b. bd_job b = j_id j) (job_bindings (ct_goal db)) of
      Some b \<Rightarrow> Inr (bd_goal b, db)
    | None \<Rightarrow>
        let goalID = ''goal_'' @ j_id j in
        rbind (update_goal (bind_goal j goalID (map a_id (job_attempts (j_id j) db)) now) db) (\<lambda>db'. Inr (goalID, db')))"

definition goal_runnable :: "string \<Rightarrow> bool" where
  "goal_runnable s \<longleftrightarrow> s = ''RUNNING'' \<or> s = ''GRAPH_READY'' \<or> s = ''REPLANNING''"

definition goal_open :: "int \<Rightarrow> GoalRow \<Rightarrow> bool" where
  "goal_open now g \<longleftrightarrow> goal_runnable (gl_state g) \<and> gl_consumed_attempts g < gl_max_total_attempts g
    \<and> (gl_deadline g = 0 \<or> gl_deadline g > now) \<and> gl_created g + gl_max_wall_time_ms g > now"

definition binds_active :: "string \<Rightarrow> GoalRow \<Rightarrow> BindingRow \<Rightarrow> bool" where
  "binds_active jid g b \<longleftrightarrow> bd_job b = jid \<and> bd_goal b = gl_id g
    \<and> bd_revision b = gl_active_plan_revision g \<and> bd_generation b = gl_active_graph_generation g"

text \<open>The gate of \<open>assign\<close>: how many bound goals let the job execute.\<close>

definition goal_gate :: "string \<Rightarrow> int \<Rightarrow> GoalDB \<Rightarrow> nat" where
  "goal_gate jid now d = length [(g, b). g \<leftarrow> goals d, b \<leftarrow> job_bindings d, binds_active jid g b \<and> goal_open now g]"

definition reserve_tx :: "ExecJobRow \<Rightarrow> string \<Rightarrow> string \<Rightarrow> int \<Rightarrow> GoalDB \<Rightarrow> GoalDB result" where
  "reserve_tx j goalID attempt now d = (
    let hit = (\<lambda>g. gl_id g = goalID \<and> goal_open now g \<and> list_ex (binds_active (j_id j) g) (job_bindings d)) in
    if count_where hit (goals d) \<noteq> 1 then Inl (Error ''GOAL_EXECUTION_FENCED'')
    else fold_result (\<lambda>h b. insert_reservation \<lparr>rs_attempt = attempt, rs_goal = bd_goal b, rs_revision = bd_revision b,
           rs_generation = bd_generation b, rs_created = now\<rparr> h)
         (d\<lparr>goals := update_where hit (\<lambda>g. g\<lparr>gl_consumed_attempts := gl_consumed_attempts g + 1,
            gl_version := gl_version g + 1, gl_updated := now\<rparr>) (goals d)\<rparr>)
         (filter (\<lambda>b. bd_job b = j_id j) (job_bindings d)))"

definition reserveGoalAttempt :: "ExecJobRow option \<Rightarrow> string \<Rightarrow> int \<Rightarrow> ControlDB \<Rightarrow> ControlDB result" where
  "reserveGoalAttempt oj attempt now db = (
    case oj of None \<Rightarrow> Inr db
    | Some j \<Rightarrow> rbind (ensureGoalBinding j now db) (\<lambda>(goalID, db1).
        if list_ex (\<lambda>r. rs_attempt r = attempt) (attempt_reservations (ct_goal db1)) then Inr db1
        else update_goal (reserve_tx j goalID attempt now) db1))"

section \<open>Usage of an attempt\<close>

text \<open>\<open>sum(input_tokens+output_tokens)\<close>: null when no row has both.\<close>

definition gateway_tokens :: "string \<Rightarrow> ControlDB \<Rightarrow> int option" where
  "gateway_tokens attempt db = (
    let xs = [i + n. r \<leftarrow> ct_gateway db, gw_attempt r = Some attempt,
      i \<leftarrow> (case gw_input r of None \<Rightarrow> [] | Some i \<Rightarrow> [i]), n \<leftarrow> (case gw_output r of None \<Rightarrow> [] | Some n \<Rightarrow> [n])]
    in if xs = [] then None else Some (sum_list xs))"

definition metrics_usage :: "AttemptMetrics \<Rightarrow> Usage \<Rightarrow> Usage" where
  "metrics_usage m u = (
    let tokens = (case mt_Usage m of None \<Rightarrow> ug_Tokens u | Some k \<Rightarrow> Some (tk_Input k + tk_Output k)) in
    u\<lparr>ug_Source := mt_Source m, ug_Tokens := tokens, ug_CostUnits := mt_CostUnits m,
      ug_Complete := mt_NativeFinal m \<and> mt_UsageComplete m \<and> mt_CostComplete m \<and> tokens \<noteq> None \<and> mt_CostUnits m \<noteq> None\<rparr>)"

definition attempt_usage :: "ExecJobRow \<Rightarrow> string \<Rightarrow> string \<Rightarrow> ControlDB \<Rightarrow> Usage" where
  "attempt_usage j credential aid db = (
    let u = \<lparr>ug_ID = ''runtime-'' @ aid, ug_AttemptID = aid, ug_Source = ''runtime-unavailable'', ug_Tokens = None,
      ug_CostUnits = None, ug_Complete = False\<rparr> in
    if map_get (j_routes j) credential \<noteq> []
    then u\<lparr>ug_Source := ''model-gateway'', ug_Tokens := gateway_tokens aid db\<rparr>
    else case List.find (\<lambda>m. am_attempt m = aid) (ct_metrics db) of None \<Rightarrow> u
      | Some m \<Rightarrow> metrics_usage (am_payload m) u)"

definition recordGoalAttemptUsage :: "ExecJobRow \<Rightarrow> string \<Rightarrow> string \<Rightarrow> int \<Rightarrow> ControlDB \<Rightarrow> ControlDB result" where
  "recordGoalAttemptUsage j goalID aid now db =
    rbind (select_row (\<lambda>(a, t). a_id a = aid) (attempts_with_tasks db)) (\<lambda>(a, t).
      update_goal (RecordUsageTx goalID (attempt_usage j (ts_CredentialRef (t_spec t)) aid db) now) db)"

definition recordBoundGoalAttemptUsage :: "string \<Rightarrow> string \<Rightarrow> int \<Rightarrow> ControlDB \<Rightarrow> ControlDB result" where
  "recordBoundGoalAttemptUsage task attempt now db =
    rbind (select_row (\<lambda>t. t_id t = task) (ct_tasks db)) (\<lambda>t.
    case t_job t of None \<Rightarrow> Inr db
    | Some jid \<Rightarrow>
        rbind (readJob jid db) (\<lambda>j.
        rbind (ensureGoalBinding j now db) (\<lambda>(goalID, db1). recordGoalAttemptUsage j goalID attempt now db1)))"

section \<open>Evaluation of a finished job\<close>

definition missing_usage :: "string \<Rightarrow> GoalDB \<Rightarrow> string list" where
  "missing_usage goalID d = map rs_attempt (filter (\<lambda>r. rs_goal r = goalID
    \<and> \<not> list_ex (\<lambda>u. us_attempt u = rs_attempt r) (goal_usage d)) (attempt_reservations d))"

definition active_binding :: "string \<Rightarrow> GoalDB \<Rightarrow> BindingRow option" where
  "active_binding jid d = List.find (\<lambda>b. list_ex (\<lambda>g. binds_active jid g b) (goals d)) (job_bindings d)"

text \<open>The accepted artifacts that are pinned as the job's result by the current, released attempts.\<close>

definition job_evidence :: "string \<Rightarrow> ControlDB \<Rightarrow> ArtifactRow list" where
  "job_evidence jid db = sort_key af_id [a. a \<leftarrow> ct_artifacts db, r \<leftarrow> ct_refs db, t \<leftarrow> ct_tasks db, x \<leftarrow> ct_attempts db,
    rf_artifact r = af_id a \<and> t_id t = af_task a \<and> a_id x = af_attempt a
    \<and> rf_type r = ''job_result'' \<and> rf_ref r = jid \<and> af_state a = ''ACCEPTED'' \<and> t_job t = Some jid
    \<and> t_attempt t = af_attempt a \<and> t_generation t = af_generation a \<and> a_generation x = af_generation a \<and> a_released x]"

definition evidence_json :: "ExecJobRow \<Rightarrow> string \<Rightarrow> int \<Rightarrow> ArtifactRow list \<Rightarrow> json" where
  "evidence_json j reason revision evidence = JObj [
    (''artifacts'', JArr (map (\<lambda>a. JObj [(''artifact_id'', JStr (af_id a)), (''sha256'', JStr (af_hash a)),
       (''attempt_id'', JStr (af_attempt a)), (''generation'', JInt (af_generation a))]) evidence)),
    (''job_id'', JStr (j_id j)), (''job_state'', JStr (j_state j)), (''plan_revision'', JInt revision), (''reason'', JStr reason)]"

definition insert_evaluation :: "EvaluationRow \<Rightarrow> ControlDB \<Rightarrow> ControlDB result" where
  "insert_evaluation e db = (
    if \<not> job_terminal (el_verdict e) \<or> \<not> goal_exists (ct_goal db) (el_goal e) \<or> \<not> list_ex (\<lambda>j. j_id j = el_job e) (ct_jobs db)
    then Inl Sql_constraint
    else rbind (insert_row (\<lambda>r x. el_goal r = el_goal x \<and> el_generation r = el_generation x \<and> el_job_version r = el_job_version x)
        e (ct_evaluations db)) (\<lambda>rows. Inr (db\<lparr>ct_evaluations := rows\<rparr>)))"

definition finish_goal :: "string \<Rightarrow> BindingRow \<Rightarrow> string \<Rightarrow> int \<Rightarrow> GoalDB \<Rightarrow> GoalDB result" where
  "finish_goal goalID b verdict now d =
    rbind (if verdict = ''FAILED'' then rbind (select_row (\<lambda>g. gl_id g = goalID) (goals d)) (\<lambda>g. Inr (gl_max_replans g > 0)) else Inr False) (\<lambda>guard.
    let state = (if guard then ''REPLAN_GUARDING'' else verdict) in
    Inr (d\<lparr>goals := update_where (\<lambda>g. gl_id g = goalID \<and> gl_active_plan_revision g = bd_revision b
        \<and> gl_active_graph_generation g = bd_generation b \<and> \<not> job_terminal (gl_state g))
      (\<lambda>g. g\<lparr>gl_state := state, gl_version := gl_version g + 1, gl_updated := now\<rparr>) (goals d)\<rparr>))"

text \<open>The verdict on the job under the plan \<open>b\<close> that is active; a version of a job is judged once.\<close>

definition evaluate_binding :: "ExecJobRow \<Rightarrow> string \<Rightarrow> BindingRow \<Rightarrow> int \<Rightarrow> ControlDB \<Rightarrow> ControlDB result" where
  "evaluate_binding j goalID b now db = (
    if list_ex (\<lambda>e. el_goal e = goalID \<and> el_generation e = bd_generation b \<and> el_job_version e = j_version j) (ct_evaluations db)
    then Inr db
    else
      let evidence = job_evidence (j_id j) db;
          unverified = (j_state j = ''SUCCEEDED'' \<and> evidence = []);
          verdict = (if unverified then ''FAILED'' else j_state j);
          reason = (if unverified then ''ARTIFACT_PROVENANCE_UNVERIFIED'' else j_error_code j) in
      rbind (insert_evaluation \<lparr>el_goal = goalID, el_generation = bd_generation b, el_job = j_id j, el_job_version = j_version j,
          el_evaluator = ''job-artifact-v1'', el_verdict = verdict,
          el_evidence = evidence_json j reason (bd_revision b) evidence, el_created = now\<rparr> db)
        (update_goal (finish_goal goalID b verdict now)))"

definition evaluate_plan_job :: "ExecJobRow \<Rightarrow> int \<Rightarrow> ControlDB \<Rightarrow> ControlDB result" where
  "evaluate_plan_job j now db =
    rbind (ensureGoalBinding j now db) (\<lambda>(goalID, db1).
    rbind (fold_result (\<lambda>d aid. recordGoalAttemptUsage j goalID aid now d) db1 (missing_usage goalID (ct_goal db1))) (\<lambda>db2.
    case active_binding (j_id j) (ct_goal db2) of None \<Rightarrow> Inr db2
    | Some b \<Rightarrow> evaluate_binding j goalID b now db2))"

definition evaluate_graph_job :: "ExecJobRow \<Rightarrow> string \<Rightarrow> int \<Rightarrow> int \<Rightarrow> ControlDB \<Rightarrow> ControlDB" where
  "evaluate_graph_job j goalID generation now db = db\<lparr>ct_goal := (ct_goal db)\<lparr>goals := update_where
    (\<lambda>g. gl_id g = goalID \<and> gl_active_graph_generation g = generation \<and> goal_runnable (gl_state g))
    (\<lambda>g. g\<lparr>gl_state := (if j_state j = ''CANCELED'' then ''CANCELED'' else ''EVALUATING''), gl_updated := now,
      gl_version := gl_version g + 1\<rparr>) (goals (ct_goal db))\<rparr>\<rparr>"

definition evaluateBoundJob :: "ExecJobRow \<Rightarrow> int \<Rightarrow> ControlDB \<Rightarrow> ControlDB result" where
  "evaluateBoundJob j now db = (
    if \<not> job_terminal (j_state j) then Inr db
    else case j_graph j of Some (goalID, generation) \<Rightarrow> Inr (evaluate_graph_job j goalID generation now db)
      | None \<Rightarrow> evaluate_plan_job j now db)"

section \<open>State of a job\<close>

definition job_state_json :: "string \<Rightarrow> string \<Rightarrow> string \<Rightarrow> string \<Rightarrow> json" where
  "job_state_json old state reason code = JObj [(''code'', JStr code), (''from'', JStr old), (''reason'', JStr reason), (''to'', JStr state)]"

text \<open>
  \<open>jobState\<close> works on the job \<open>j\<close> as it was read and updates the row only if its version is still the
  same. It answers the job with the new state.
\<close>

definition jobState ::
  "ExecJobRow \<Rightarrow> string \<Rightarrow> string \<Rightarrow> string \<Rightarrow> int \<Rightarrow> ControlDB \<Rightarrow> (ExecJobRow \<times> ControlDB) result" where
  "jobState j state reason code now db = (
    if job_terminal (j_state j) then Inr (j, db)
    else if j_state j = state \<and> j_stop_reason j = reason \<and> j_error_code j = code then Inr (j, db)
    else
      let hit = (\<lambda>x. j_id x = j_id j \<and> j_version x = j_version j) in
      if count_where hit (ct_jobs db) \<noteq> 1 then Inl (Error ''job version conflict'')
      else
        let db1 = db\<lparr>ct_jobs := update_where hit (\<lambda>x. x\<lparr>j_state := state, j_stop_reason := reason, j_error_code := code,
              j_version := j_version x + 1, j_updated := now\<rparr>) (ct_jobs db)\<rparr>;
            j' = j\<lparr>j_state := state, j_stop_reason := reason, j_error_code := code, j_version := j_version j + 1\<rparr>
        in rbind (if job_terminal state then evaluateBoundJob j' now db1 else Inr db1) (\<lambda>db2.
           rbind (appendJobEvent (j_id j) ''job.state_changed'' (job_state_json (j_state j) state reason code) [] [] now db2)
             (\<lambda>db3. Inr (j', db3))))"

section \<open>The runtime budget of an assignment\<close>

definition claudeEstimatedUSDBudgetCapability :: string where
  "claudeEstimatedUSDBudgetCapability = ''runtime:budget_claude_estimated_usd_v1''"

definition claudeEstimatedUSDMicros :: string where
  "claudeEstimatedUSDMicros = ''usd_micros_client_estimate''"

text \<open>\<open>Executions\<close> panics on a contract without any execution; the transaction then ends with an error.\<close>

definition goal_in_flight :: "string \<Rightarrow> ControlDB \<Rightarrow> bool" where
  "goal_in_flight goalID db \<longleftrightarrow> list_ex (\<lambda>r. rs_goal r = goalID
    \<and> list_ex (\<lambda>a. a_id a = rs_attempt r \<and> \<not> a_released a) (ct_attempts db)) (attempt_reservations (ct_goal db))"

definition cost_budget :: "ExecJobRow \<Rightarrow> TaskRow \<Rightarrow> PolicyRow \<Rightarrow> string \<Rightarrow> ControlDB \<Rightarrow> (RuntimeBudget option \<times> string list) result" where
  "cost_budget j t p goalID db = (
    if bp_max_tokens p \<noteq> None \<or> bp_max_cost p = None \<or> t_profile t \<noteq> ''claude_http''
    then Inl (Error ''GOAL_RUNTIME_BUDGET_UNSUPPORTED'')
    else case Executions (j_spec j) of None \<Rightarrow> Inl (Error ''nil pointer dereference'')
    | Some exs \<Rightarrow>
        if list_ex (\<lambda>e. ex_RuntimeProfile e \<noteq> ''claude_http'') exs then Inl (Error ''GOAL_RUNTIME_BUDGET_UNSUPPORTED'')
        else if goal_in_flight goalID db then Inl (Error ''GOAL_BUDGET_IN_FLIGHT'')
        else rbind (RemainingUsageTx (ct_goal db) goalID) (\<lambda>r.
          Inr (Some \<lparr>rb_RemainingCostUnits = ub_RemainingCostUnits r, rb_CostSemantics = claudeEstimatedUSDMicros\<rparr>,
               [claudeEstimatedUSDBudgetCapability])))"

definition buildGoalRuntimeBudget ::
  "ExecJobRow \<Rightarrow> TaskRow \<Rightarrow> int \<Rightarrow> ControlDB \<Rightarrow> ((RuntimeBudget option \<times> string list) result \<times> ControlDB) result" where
  "buildGoalRuntimeBudget j t now db =
    rbind (ensureGoalBinding j now db) (\<lambda>(goalID, db1).
    Inr (case List.find (\<lambda>p. bp_goal p = goalID) (budget_policy (ct_goal db1)) of None \<Rightarrow> Inr (None, [])
      | Some p \<Rightarrow> if bp_max_tokens p = None \<and> bp_max_cost p = None then Inr (None, []) else cost_budget j t p goalID db1, db1))"

text \<open>The scheduler's loop gives jobs without a goal their binding, sixteen at a time.\<close>

definition unbound_jobs :: "ControlDB \<Rightarrow> string list" where
  "unbound_jobs db = map j_id (take 16 (sort_key (\<lambda>j. (j_created j, j_id j))
    (filter (\<lambda>j. \<not> list_ex (\<lambda>b. bd_job b = j_id j) (job_bindings (ct_goal db))) (ct_jobs db))))"

definition bind_unbound :: "int \<Rightarrow> ControlDB \<Rightarrow> string \<Rightarrow> ControlDB result" where
  "bind_unbound now db jid =
    rbind (readJob jid db) (\<lambda>j. rbind (ensureGoalBinding j now db) (\<lambda>(_, db1). evaluateBoundJob j now db1))"

definition reconcileGoalBindings :: "int \<Rightarrow> ControlDB \<Rightarrow> unit result \<times> ControlDB" where
  "reconcileGoalBindings now db = each_tx (bind_unbound now) db (unbound_jobs db)"

end
