(* ===== verification/Task_Report.thy ===== *)
theory Task_Report
  imports Goal_Execution
begin

text \<open>
  What a worker reports about an attempt (\<open>internal/server/results.go\<close>, \<open>retry.go\<close>, parts of \<open>server.go\<close>,
  \<open>trace.go\<close>, \<open>control_read.go\<close>, \<open>graph_memory.go\<close>) and how the server closes it: the fence of an attempt, lease
  renewal, batches of events, completion, the automatic retry, the reconciliation of lost attempts, and the
  manual retry of a failed job (\<open>manual_retry.go\<close>).

  An attempt is addressed by its identifier, generation and lease token. A report counts only if the
  attempt is the current one of its task; the worker's epoch tells a restarted worker from the one the
  attempt was given to.

  The protobuf texts (\<open>enc\<close> of an event, \<open>encr\<close> of a completion) come from a third-party package and
  are arguments.
\<close>

section \<open>The fence of an attempt\<close>

definition WorkerCaller :: "Principal option \<Rightarrow> Principal result" where
  "WorkerCaller ctx = (
    case ctx of None \<Rightarrow> Inl (Status ''PermissionDenied'' ''worker identity required'')
    | Some p \<Rightarrow> if pr_Worker p then Inr p else Inl (Status ''PermissionDenied'' ''worker identity required''))"

record AttemptRef =
  at_AttemptId :: string
  at_Generation :: int
  at_LeaseToken :: string

record attemptRow =
  aw_task :: string
  aw_worker :: string
  aw_token :: string
  aw_epoch :: string
  aw_currentAttempt :: string
  aw_currentEpoch :: string
  aw_generation :: int
  aw_currentGeneration :: int
  aw_until :: int
  aw_seq :: int
  aw_released :: bool
  aw_finalHash :: string

text \<open>\<open>coalesce(w.epoch,'')\<close> of the left join with \<open>workers\<close>.\<close>

definition worker_epoch :: "string \<Rightarrow> ControlDB \<Rightarrow> string" where
  "worker_epoch worker db = (case List.find (\<lambda>w. wk_id w = worker) (ct_workers db) of None \<Rightarrow> [] | Some w \<Rightarrow> wk_epoch w)"

definition stale_attempt :: error where
  "stale_attempt = Status ''FailedPrecondition'' ''STALE_ATTEMPT''"

definition attempt_view :: "AttemptRow \<Rightarrow> TaskRow \<Rightarrow> ControlDB \<Rightarrow> attemptRow" where
  "attempt_view a t db = \<lparr>aw_task = a_task a, aw_worker = a_worker a, aw_token = a_token a, aw_epoch = a_epoch a,
    aw_currentAttempt = t_attempt t, aw_currentEpoch = worker_epoch (a_worker a) db, aw_generation = a_generation a,
    aw_currentGeneration = t_generation t, aw_until = a_lease_until a, aw_seq = a_worker_seq a,
    aw_released = a_released a, aw_finalHash = a_final_hash a\<rparr>"

definition readAttemptIdentity :: "string \<Rightarrow> AttemptRef option \<Rightarrow> ControlDB \<Rightarrow> attemptRow result" where
  "readAttemptIdentity worker ref db = (
    case ref of None \<Rightarrow> Inl (Status ''InvalidArgument'' ''attempt required'')
    | Some r \<Rightarrow>
        rbind (select_row (\<lambda>(a, t). a_id a = at_AttemptId r) (attempts_with_tasks db)) (\<lambda>(a, t).
        let v = attempt_view a t db in
        if aw_worker v \<noteq> worker \<or> aw_generation v \<noteq> at_Generation r \<or> aw_token v \<noteq> at_LeaseToken r
          \<or> aw_currentAttempt v \<noteq> at_AttemptId r \<or> aw_currentGeneration v \<noteq> at_Generation r
        then Inl stale_attempt else Inr v))"

definition checkAttempt :: "string \<Rightarrow> AttemptRef option \<Rightarrow> ControlDB \<Rightarrow> attemptRow result" where
  "checkAttempt worker ref db =
    rbind (readAttemptIdentity worker ref db) (\<lambda>v.
    if aw_currentEpoch v = [] \<or> aw_epoch v \<noteq> aw_currentEpoch v then Inl stale_attempt else Inr v)"

section \<open>Lease renewal\<close>

record LeaseGrant =
  lg_AttemptId :: string
  lg_TtlMs :: int
  lg_Valid :: bool

definition renew_tx :: "ServerConfig \<Rightarrow> string \<Rightarrow> AttemptRef \<Rightarrow> int \<Rightarrow> (ControlDB, bool) tx" where
  "renew_tx cfg worker ref now db = (
    case checkAttempt worker (Some ref) db of Inl _ \<Rightarrow> Inr (False, db)
    | Inr v \<Rightarrow>
        rbind (select_row (\<lambda>t. t_id t = aw_task v) (ct_tasks db)) (\<lambda>t.
        if aw_released v \<or> aw_until v \<le> now \<or> t_state t = ''CANCELING'' \<or> t_state t = ''RECONCILING'' \<or> job_terminal (t_state t)
        then Inr (False, db)
        else if \<not> jobAllowsExecution (aw_task v) now db then Inr (False, db)
        else Inr (True, db\<lparr>ct_attempts := update_where (\<lambda>a. a_id a = at_AttemptId ref)
          (\<lambda>a. a\<lparr>a_lease_until := now + cf_LeaseSeconds cfg * 1000, a_last_renewed := now\<rparr>) (ct_attempts db)\<rparr>)))"

fun renew_all :: "ServerConfig \<Rightarrow> string \<Rightarrow> int \<Rightarrow> ControlDB \<Rightarrow> AttemptRef list \<Rightarrow> LeaseGrant list result \<times> ControlDB" where
  "renew_all cfg worker now db [] = (Inr [], db)"
| "renew_all cfg worker now db (r # rs) = (
    case renew_tx cfg worker r now db of Inl e \<Rightarrow> (Inl (dbErr e), db)
    | Inr (valid, db1) \<Rightarrow>
        let grant = \<lparr>lg_AttemptId = at_AttemptId r, lg_TtlMs = cf_LeaseSeconds cfg * 1000, lg_Valid = valid\<rparr> in
        (case renew_all cfg worker now db1 rs of (Inl e, db2) \<Rightarrow> (Inl e, db2)
         | (Inr grants, db2) \<Rightarrow> (Inr (grant # grants), db2)))"

datatype WorkerFrame = Ack_frame CommandAck | Renew_frame "AttemptRef list" | Other_frame

text \<open>
  \<open>receive\<close> for a frame of the connection of \<open>worker\<close> with the given epoch. \<open>current\<close> says whether the
  connection is still the one the server holds for the worker.
\<close>

definition ack_received :: "string \<Rightarrow> string \<Rightarrow> ControlDB \<Rightarrow> ControlDB" where
  "ack_received cid worker db = db\<lparr>ct_commands := update_where (\<lambda>c. cm_id c = cid \<and> cm_worker c = worker)
    (\<lambda>c. c\<lparr>cm_acked := True\<rparr>) (ct_commands db)\<rparr>"

definition worker_seen :: "string \<Rightarrow> string \<Rightarrow> int \<Rightarrow> ControlDB \<Rightarrow> ControlDB" where
  "worker_seen worker epoch now db = db\<lparr>ct_workers := update_where (\<lambda>w. wk_id w = worker \<and> wk_epoch w = epoch)
    (\<lambda>w. w\<lparr>wk_seen := now\<rparr>) (ct_workers db)\<rparr>"

definition receive ::
  "ServerConfig \<Rightarrow> bool \<Rightarrow> string \<Rightarrow> string \<Rightarrow> WorkerFrame \<Rightarrow> int \<Rightarrow> ControlDB \<Rightarrow> LeaseGrant list result \<times> ControlDB" where
  "receive cfg current worker epoch frame now db = (
    if \<not> current then (Inl (Status ''FailedPrecondition'' ''STALE_CONNECTION''), db)
    else case frame of
      Ack_frame a \<Rightarrow>
        if ak_State a = ''RECEIVED'' then (Inr [], ack_received (ak_CommandId a) worker db)
        else if ak_State a \<in> {''COMPLETED'', ''REJECTED'', ''UNKNOWN''}
        then (case applyControlAck worker a now db of (Inl e, db1) \<Rightarrow> (Inl (dbErr e), db1) | (Inr _, db1) \<Rightarrow> (Inr [], db1))
        else (Inl (Status ''InvalidArgument'' ''invalid command ACK''), db)
    | Renew_frame refs \<Rightarrow>
        if length refs > 64 then (Inl (Status ''ResourceExhausted'' ''too many attempts''), db)
        else renew_all cfg worker now (worker_seen worker epoch now db) refs
    | Other_frame \<Rightarrow> (Inl (Status ''InvalidArgument'' ''expected renew or ACK''), db))"

text \<open>The registration of a worker, and a command that is not deliverable any more.\<close>

definition register_worker :: "string \<Rightarrow> string \<Rightarrow> int \<Rightarrow> ControlDB \<Rightarrow> ControlDB" where
  "register_worker worker epoch now db = (
    if list_ex (\<lambda>w. wk_id w = worker) (ct_workers db)
    then db\<lparr>ct_workers := update_where (\<lambda>w. wk_id w = worker) (\<lambda>w. w\<lparr>wk_epoch := epoch, wk_seen := now\<rparr>) (ct_workers db)\<rparr>
    else db\<lparr>ct_workers := ct_workers db @ [\<lparr>wk_id = worker, wk_epoch = epoch, wk_seen = now\<rparr>]\<rparr>)"

definition deliver_tx :: "CommandRow \<Rightarrow> string \<Rightarrow> string \<Rightarrow> ControlDB \<Rightarrow> bool \<times> ControlDB" where
  "deliver_tx c worker epoch db = (
    if commandDeliverable c worker epoch db then (True, db)
    else (False, db\<lparr>ct_commands := update_where (\<lambda>x. cm_id x = cm_id c \<and> cm_worker x = worker \<and> \<not> cm_acked x)
      (\<lambda>x. x\<lparr>cm_acked := True\<rparr>) (ct_commands db)\<rparr>))"

section \<open>Events of a worker\<close>

text \<open>The field \<open>session_ref\<close> of a payload.\<close>

definition session_ref_of :: "json \<Rightarrow> string option" where
  "session_ref_of j = Option.bind (object_members j) (unmarshal_string ''session_ref'' [])"

definition persistRuntimeSessionRef :: "TaskEvent \<Rightarrow> int \<Rightarrow> ControlDB \<Rightarrow> ControlDB result" where
  "persistRuntimeSessionRef ev now db = (
    if ev_Type ev \<noteq> ''session.started'' then Inr db
    else case Option.bind (ev_Payload ev) session_ref_of of
      None \<Rightarrow> Inl (Status ''InvalidArgument'' ''invalid session.started payload'')
    | Some ref \<Rightarrow>
        if ref = [] \<or> length ref > 4096 then Inl (Status ''InvalidArgument'' ''invalid session.started payload'')
        else
          let own = (\<lambda>t. t_id t = ev_TaskId ev \<and> t_attempt t = ev_AttemptId ev \<and> t_generation t = ev_Generation ev) in
          rbind (select_row own (ct_tasks db)) (\<lambda>t.
          if t_native_session t \<noteq> [] \<and> t_native_session t \<noteq> ref then Inl (Status ''AlreadyExists'' ''SESSION_REF_CONFLICT'')
          else if t_native_session t = ref then Inr db
          else
            let hit = (\<lambda>x. own x \<and> t_native_session x = []) in
            if count_where hit (ct_tasks db) \<noteq> 1 then Inl (Status ''Aborted'' ''SESSION_REF_FENCED'')
            else Inr (db\<lparr>ct_tasks := update_where hit (\<lambda>x. x\<lparr>t_native_session := ref, t_updated := now\<rparr>) (ct_tasks db)\<rparr>)))"

text \<open>
  The payload is mirrored as its syntax tree; the order of keys and the number format that decoding and
  encoding it again give the stored text are not represented.
\<close>

definition runtime_event_json :: "TaskEvent \<Rightarrow> json" where
  "runtime_event_json ev = JObj [(''attempt_id'', JStr (ev_AttemptId ev)), (''event_id'', JStr (ev_EventId ev)),
    (''generation'', JInt (ev_Generation ev)),
    (''payload'', case ev_Payload ev of None \<Rightarrow> JObj [] | Some p \<Rightarrow> p), (''protocol_version'', JStr ProtocolV1Alpha1),
    (''task_id'', JStr (ev_TaskId ev)), (''type'', JStr (ev_Type ev)), (''worker_seq'', JInt (ev_WorkerSeq ev))]"

definition mirrorRuntimeEventToJob :: "TaskEvent \<Rightarrow> int \<Rightarrow> ControlDB \<Rightarrow> ControlDB result" where
  "mirrorRuntimeEventToJob ev now db = (
    if ev_TaskId ev = [] then Inr db
    else rbind (select_row (\<lambda>t. t_id t = ev_TaskId ev) (ct_tasks db)) (\<lambda>t.
      case t_job t of None \<Rightarrow> Inr db
      | Some jid \<Rightarrow> appendJobEvent jid ''control.runtime_event'' (runtime_event_json ev) [] [] now db))"

definition count_ok :: "int \<Rightarrow> bool" where
  "count_ok n \<longleftrightarrow> 0 \<le> n \<and> n \<le> 1000000000000000"

definition metrics_ok :: "AttemptMetrics \<Rightarrow> bool" where
  "metrics_ok m \<longleftrightarrow> \<not> (mt_UsageComplete m \<and> mt_Usage m = None)
    \<and> (case mt_CostUnits m of None \<Rightarrow> True | Some c \<Rightarrow> 0 \<le> c \<and> c \<le> 2000000000000000)
    \<and> \<not> (mt_CostComplete m \<and> mt_CostUnits m = None \<or> mt_BudgetReached m \<and> (\<not> mt_CostComplete m \<or> mt_CostUnits m = None))
    \<and> (case mt_Usage m of None \<Rightarrow> True | Some u \<Rightarrow> count_ok (tk_Input u) \<and> count_ok (tk_Output u) \<and> count_ok (tk_CachedInput u))
    \<and> (case mt_Process m of None \<Rightarrow> True | Some p \<Rightarrow> 0 \<le> pu_WallMS p \<and> 0 \<le> pu_UserCPUMS p \<and> 0 \<le> pu_SystemCPUMS p \<and> 0 \<le> pu_PeakRSSBytes p)"

definition invalid_metrics :: error where
  "invalid_metrics = Status ''InvalidArgument'' ''INVALID_ATTEMPT_METRICS''"

definition saveAttemptMetrics :: "string \<Rightarrow> int \<Rightarrow> AttemptMetrics option \<Rightarrow> int \<Rightarrow> ControlDB \<Rightarrow> ControlDB result" where
  "saveAttemptMetrics attempt len metrics now db = (
    case (len > 4096, metrics) of
      (False, Some m) \<Rightarrow>
        if mt_Source m = [] \<or> length (mt_Source m) > 128 then Inl invalid_metrics
        else rbind (select_row (\<lambda>(a, t). a_id a = attempt) (attempts_with_tasks db)) (\<lambda>(a, t).
          if mt_Source m \<noteq> t_profile t \<or> \<not> metrics_ok m then Inl invalid_metrics
          else rbind (insert_row (\<lambda>r x. am_attempt r = am_attempt x) \<lparr>am_attempt = attempt, am_payload = m, am_recorded = now\<rparr>
            (ct_metrics db)) (\<lambda>rows. Inr (db\<lparr>ct_metrics := rows\<rparr>)))
    | _ \<Rightarrow> Inl invalid_metrics)"

definition event_identity_ok :: "attemptRow \<Rightarrow> string \<Rightarrow> TaskEvent \<Rightarrow> bool" where
  "event_identity_ok v attempt ev \<longleftrightarrow> ev_TaskId ev = aw_task v \<and> ev_AttemptId ev = attempt \<and> ev_Generation ev = aw_generation v
    \<and> ev_EventId ev \<noteq> [] \<and> ev_WorkerSeq ev \<ge> 1 \<and> ev_Seq ev = 0 \<and> ev_RecordedAtMs ev = 0
    \<and> ev_PayloadLength ev \<le> 4 * 2 ^ 20 \<and> ev_Payload ev \<noteq> None"

definition start_running :: "(TaskEvent \<Rightarrow> string) \<Rightarrow> attemptRow \<Rightarrow> TaskEvent \<Rightarrow> int \<Rightarrow> ControlDB \<Rightarrow> ControlDB result" where
  "start_running enc v ev now db = (
    if ev_Type ev \<noteq> ''attempt.started'' then Inr db
    else rbind (select_row (\<lambda>t. t_id t = aw_task v) (ct_tasks db)) (\<lambda>t.
      if t_state t = ''STARTING'' \<and> aw_until v > now \<and> jobAllowsExecution (aw_task v) now db
      then setState enc (aw_task v) ''RUNNING'' [] [] now db else Inr db))"

definition accept_event :: "(TaskEvent \<Rightarrow> string) \<Rightarrow> attemptRow \<Rightarrow> TaskEvent \<Rightarrow> int \<Rightarrow> ControlDB \<Rightarrow> ControlDB result" where
  "accept_event enc v ev now db =
    rbind (appendEvent enc ev (Some (ev_WorkerSeq ev)) now db) (\<lambda>db1.
    rbind (persistApprovalRequested (RuntimeEvent.truncate ev) now db1) (\<lambda>db2.
    rbind (persistRuntimeSessionRef ev now db2) (\<lambda>db3.
    rbind (mirrorRuntimeEventToJob ev now db3) (\<lambda>db4.
    rbind (if ev_Type ev = ''attempt.metrics'' then saveAttemptMetrics (ev_AttemptId ev) (ev_PayloadLength ev) (ev_Metrics ev) now db4
      else Inr db4) (\<lambda>db5.
    start_running enc v ev now db5)))))"

fun report_event ::
  "(TaskEvent \<Rightarrow> string) \<Rightarrow> attemptRow \<Rightarrow> string \<Rightarrow> int \<Rightarrow> int \<times> ControlDB \<Rightarrow> TaskEvent \<Rightarrow> (int \<times> ControlDB) result" where
  "report_event enc v attempt now (through, db) ev = (
    if \<not> event_identity_ok v attempt ev then Inl (Status ''InvalidArgument'' ''invalid event identity or payload'')
    else if ev_Type ev = ''task.completed'' \<or> ev_Type ev = ''task.state_changed''
    then Inl (Status ''PermissionDenied'' ''task state events are server-owned'')
    else if ev_WorkerSeq ev \<le> through then
      rbind (select_row (\<lambda>d. dd_attempt d = attempt \<and> dd_worker_seq d = ev_WorkerSeq ev) (ct_dedup db)) (\<lambda>d.
      if dd_hash d \<noteq> Hash (enc ev) then Inl (Status ''AlreadyExists'' ''event hash conflict'') else Inr (through, db))
    else if aw_released v then Inl (Status ''FailedPrecondition'' ''attempt already completed'')
    else if ev_WorkerSeq ev \<noteq> through + 1 then Inl (Status ''FailedPrecondition'' ''event gap'')
    else rbind (accept_event enc v ev now db) (\<lambda>db'. Inr (ev_WorkerSeq ev, db')))"

definition report_tx :: "(TaskEvent \<Rightarrow> string) \<Rightarrow> string \<Rightarrow> AttemptRef option \<Rightarrow> TaskEvent list \<Rightarrow> int \<Rightarrow> (ControlDB, int) tx" where
  "report_tx enc worker ref evs now db =
    rbind (checkAttempt worker ref db) (\<lambda>v.
    let attempt = at_AttemptId (the ref) in
    rbind (fold_result (report_event enc v attempt now) (aw_seq v, db) evs) (\<lambda>(through, db').
    Inr (through, db'\<lparr>ct_attempts := update_where (\<lambda>a. a_id a = attempt) (\<lambda>a. a\<lparr>a_worker_seq := through\<rparr>) (ct_attempts db')\<rparr>)))"

definition ReportEvents ::
  "(TaskEvent \<Rightarrow> string) \<Rightarrow> Principal option \<Rightarrow> AttemptRef option \<Rightarrow> TaskEvent list \<Rightarrow> int \<Rightarrow> ControlDB \<Rightarrow> int result \<times> ControlDB" where
  "ReportEvents enc ctx ref evs now db = (
    case WorkerCaller ctx of Inl e \<Rightarrow> (Inl e, db)
    | Inr p \<Rightarrow>
        if length evs > 64 then (Inl (Status ''ResourceExhausted'' ''event batch too large''), db)
        else apfst (map_error dbErr) (db_Tx (report_tx enc (id_WorkerID (pr_Identity p)) ref evs now) db))"

section \<open>Retry\<close>

record retryPlan =
  rp_retry :: bool
  rp_exhausted :: bool
  rp_retryAt :: int
  rp_maxAttempts :: int
  rp_reason :: string
  rp_jobID :: string

definition no_retry :: retryPlan where
  "no_retry = \<lparr>rp_retry = False, rp_exhausted = False, rp_retryAt = 0, rp_maxAttempts = 0, rp_reason = [], rp_jobID = []\<rparr>"

definition retryableAttemptError :: "string \<Rightarrow> bool" where
  "retryableAttemptError code \<longleftrightarrow> code = ''RUNTIME_FAILED'' \<or> code = ''WORKER_RESTARTED''
    \<or> code = ''STORAGE_UNAVAILABLE'' \<or> code = ''ARTIFACT_ERROR''"

definition retryBackoffMS :: "int \<Rightarrow> int" where
  "retryBackoffMS generation = (
    let g = (if generation < 1 then 1 else generation);
        shift = (if g - 1 > 6 then 6 else g - 1);
        ms = push_bit (nat shift) (500::int)
    in if ms > 30000 then 30000 else ms)"

definition planRetry :: "string \<Rightarrow> string \<Rightarrow> int \<Rightarrow> int \<Rightarrow> ControlDB \<Rightarrow> retryPlan result" where
  "planRetry task code generation now db = (
    if \<not> retryableAttemptError code then Inr no_retry
    else rbind (select_row (\<lambda>t. t_id t = task) (ct_tasks db)) (\<lambda>t.
      case t_job t of None \<Rightarrow> Inr no_retry
      | Some jid \<Rightarrow>
          rbind (readJob jid db) (\<lambda>j.
          if job_terminal (j_state j) \<or> j_stop_reason j \<noteq> [] \<or> j_state j = ''RECONCILING'' then Inr no_retry
          else
            let maximum = lm_MaxAttemptsPerTask (sp_Limits (j_spec j)) in
            case ExecutionFor (j_spec j) (t_stage t) (t_partition t) of None \<Rightarrow> Inr no_retry
            | Some ex \<Rightarrow>
                if \<not> ex_ReplaySafe ex \<or> maximum \<le> 1 then Inr no_retry
                else
                  let plan = no_retry\<lparr>rp_jobID := j_id j, rp_maxAttempts := maximum\<rparr> in
                  if generation \<ge> maximum then Inr (plan\<lparr>rp_exhausted := True, rp_reason := ''MAX_ATTEMPTS''\<rparr>)
                  else
                    let at = now + retryBackoffMS generation in
                    if at \<ge> t_deadline t then Inr (plan\<lparr>rp_retryAt := at, rp_exhausted := True, rp_reason := ''DEADLINE''\<rparr>)
                    else Inr (plan\<lparr>rp_retryAt := at, rp_retry := True\<rparr>))))"

definition requeue :: "string \<Rightarrow> int \<Rightarrow> int \<Rightarrow> TaskRow \<Rightarrow> TaskRow" where
  "requeue blocker retryAt now t = t\<lparr>t_state := ''QUEUED'', t_attempt := [], t_worker := [], t_error_code := [], t_error_message := [],
    t_result := [], t_native_session := [], t_blocker := blocker, t_retry_after := retryAt, t_updated := now\<rparr>"

definition scheduleRetry ::
  "(TaskEvent \<Rightarrow> string) \<Rightarrow> TaskRow \<Rightarrow> string \<Rightarrow> int \<Rightarrow> string \<Rightarrow> string \<Rightarrow> retryPlan \<Rightarrow> int \<Rightarrow> ControlDB \<Rightarrow> ControlDB result" where
  "scheduleRetry enc t attempt generation code msg plan now db = (
    let hit = (\<lambda>x. t_id x = t_id t \<and> t_attempt x = attempt \<and> t_generation x = generation) in
    if count_where hit (ct_tasks db) \<noteq> 1 then Inl (Error ''retry lost current attempt ownership'')
    else
      let db1 = db\<lparr>ct_tasks := update_where hit (requeue ''RETRY_BACKOFF'' (rp_retryAt plan) now) (ct_tasks db)\<rparr> in
      rbind (appendEvent enc (server_event (t_id t) [] 0 ''task.state_changed''
          (JObj [(''from'', JStr (t_state t)), (''to'', JStr ''QUEUED'')])) None now db1) (\<lambda>db2.
      rbind (appendEvent enc (server_event (t_id t) attempt generation ''task.retry_scheduled''
          (JObj [(''error_code'', JStr code), (''error_message'', JStr msg), (''max_attempts'', JInt (rp_maxAttempts plan)),
             (''next_generation'', JInt (generation + 1)), (''retry_after_ms'', JInt (rp_retryAt plan))])) None now db2) (\<lambda>db3.
      appendJobEvent (rp_jobID plan) ''job.task_retry_scheduled''
        (JObj [(''attempt_id'', JStr attempt), (''error_code'', JStr code), (''generation'', JInt generation),
           (''max_attempts'', JInt (rp_maxAttempts plan)), (''next_generation'', JInt (generation + 1)),
           (''retry_after_ms'', JInt (rp_retryAt plan)), (''task_id'', JStr (t_id t))]) [] [] now db3)))"

definition appendRetryExhausted ::
  "(TaskEvent \<Rightarrow> string) \<Rightarrow> TaskRow \<Rightarrow> string \<Rightarrow> int \<Rightarrow> string \<Rightarrow> retryPlan \<Rightarrow> int \<Rightarrow> ControlDB \<Rightarrow> ControlDB result" where
  "appendRetryExhausted enc t attempt generation code plan now db = (
    if \<not> rp_exhausted plan then Inr db
    else rbind (appendEvent enc (server_event (t_id t) attempt generation ''task.retry_exhausted''
          (JObj [(''error_code'', JStr code), (''max_attempts'', JInt (rp_maxAttempts plan)), (''reason'', JStr (rp_reason plan))]))
        None now db) (\<lambda>db1.
      appendJobEvent (rp_jobID plan) ''job.task_retry_exhausted''
        (JObj [(''attempt_id'', JStr attempt), (''error_code'', JStr code), (''generation'', JInt generation),
           (''max_attempts'', JInt (rp_maxAttempts plan)), (''reason'', JStr (rp_reason plan)), (''task_id'', JStr (t_id t))])
        [] [] now db1))"

section \<open>Completion\<close>

record CompleteRequest =
  cr_Attempt :: "AttemptRef option"
  cr_FinalWorkerSeq :: int
  cr_Success :: bool
  cr_CleanupConfirmed :: bool
  cr_ErrorCode :: string
  cr_ErrorMessage :: string
  cr_Result :: string
  cr_NativeSessionId :: string
  cr_ArtifactIds :: "string list"

definition resolveRuntimeSessionRef :: "string \<Rightarrow> string \<Rightarrow> string result" where
  "resolveRuntimeSessionRef current final = (
    if final = [] then Inr current
    else if current \<noteq> [] \<and> current \<noteq> final then Inl (Status ''AlreadyExists'' ''SESSION_REF_CONFLICT'')
    else Inr final)"

definition error_text :: "error \<Rightarrow> string" where
  "error_text e = (case e of Error m \<Rightarrow> m | Status c m \<Rightarrow> ''rpc error: code = '' @ c @ '' desc = '' @ m
    | Sql_no_rows \<Rightarrow> ''sql: no rows in result set'' | Sql_constraint \<Rightarrow> ''constraint failed'')"

text \<open>
  The candidates of a node of a graph job: one admission and one reference per accepted artifact.
  \<open>rid\<close> gives the identifier drawn for the receipt of an artifact.
\<close>

definition admission_key :: "AdmissionRow \<Rightarrow> AdmissionRow \<Rightarrow> bool" where
  "admission_key r x \<longleftrightarrow> ad_goal r = ad_goal x \<and> ad_generation r = ad_generation x \<and> ad_node r = ad_node x
    \<and> ad_artifact r = ad_artifact x \<and> ad_port r = ad_port x \<or> ad_receipt r = ad_receipt x"

definition enqueue_candidate :: "(string \<Rightarrow> string) \<Rightarrow> NodeRow \<Rightarrow> string \<Rightarrow> int \<Rightarrow> ControlDB \<Rightarrow> string \<Rightarrow> ControlDB result" where
  "enqueue_candidate rid n task now db artifact =
    rbind (select_row (\<lambda>x. af_id x = artifact \<and> af_task x = task \<and> af_state x = ''ACCEPTED'') (ct_artifacts db)) (\<lambda>x.
    case List.find (\<lambda>d. ad_goal d = nd_goal n \<and> ad_generation d = nd_generation n \<and> ad_node d = nd_node n
        \<and> ad_artifact d = artifact \<and> ad_port d = ''memory'') (ct_admissions db) of
      Some d \<Rightarrow> if ad_hash d \<noteq> af_hash x then Inl (Error ''IDEMPOTENCY_CONFLICT'') else Inr db
    | None \<Rightarrow>
        rbind (insert_row admission_key \<lparr>ad_goal = nd_goal n, ad_generation = nd_generation n, ad_node = nd_node n,
            ad_artifact = artifact, ad_port = ''memory'', ad_hash = af_hash x, ad_state = ''PENDING'',
            ad_receipt = ''receipt_'' @ rid artifact, ad_created = now\<rparr> (ct_admissions db)) (\<lambda>rows.
        pinArtifactRef artifact ''iu_pending'' (nd_goal n @ ''/'' @ int_decimal (nd_generation n) @ ''/'' @ nd_node n) now
          (db\<lparr>ct_admissions := rows\<rparr>)))"

definition enqueueGraphCandidates :: "(string \<Rightarrow> string) \<Rightarrow> string \<Rightarrow> string list \<Rightarrow> int \<Rightarrow> ControlDB \<Rightarrow> ControlDB result" where
  "enqueueGraphCandidates rid task artifacts now db = (
    case List.find (\<lambda>n. nd_task n = Some task) (ct_nodes db) of None \<Rightarrow> Inr db
    | Some n \<Rightarrow> fold_result (enqueue_candidate rid n task now) db artifacts)"

definition epoch_changed :: "attemptRow \<Rightarrow> bool" where
  "epoch_changed v \<longleftrightarrow> aw_currentEpoch v \<noteq> [] \<and> aw_epoch v \<noteq> aw_currentEpoch v"

definition staged_for :: "attemptRow \<Rightarrow> string \<Rightarrow> string \<Rightarrow> ControlDB \<Rightarrow> bool" where
  "staged_for v attempt artifact db \<longleftrightarrow> count_where (\<lambda>x. af_id x = artifact \<and> af_attempt x = attempt
    \<and> af_generation x = aw_generation v \<and> af_state x = ''STAGED'') (ct_artifacts db) = 1"

definition managed :: "string \<Rightarrow> ControlDB \<Rightarrow> bool" where
  "managed task db \<longleftrightarrow> count_where (\<lambda>t. t_id t = task \<and> t_job t \<noteq> None) (ct_tasks db) \<noteq> 0"

definition one_bundle :: "string list \<Rightarrow> ControlDB \<Rightarrow> bool" where
  "one_bundle ids db \<longleftrightarrow> length ids = 1
    \<and> count_where (\<lambda>x. af_id x = hd ids \<and> af_kind x = ''result-bundle'') (ct_artifacts db) = 1"

text \<open>The state of the task that the completion leads to, with its error code and message.\<close>

definition complete_outcome ::
  "CompleteRequest \<Rightarrow> attemptRow \<Rightarrow> TaskRow \<Rightarrow> int \<Rightarrow> ControlDB \<Rightarrow> (string \<times> string \<times> string) result" where
  "complete_outcome r v t now db = (
    if t_state t = ''CANCELING'' then
      if t_error_code t = ''DEADLINE_EXCEEDED'' then Inr (''FAILED'', t_error_code t, t_error_message t)
      else Inr (''CANCELED'', [], [])
    else if epoch_changed v then Inr (''FAILED'', ''WORKER_RESTARTED'', ''execution interrupted by worker restart'')
    else if t_state t = ''RECONCILING'' \<or> aw_until v \<le> now then Inr (''FAILED'', ''WORKER_LOST'', ''lease lost; execution stopped'')
    else if \<not> jobAllowsExecution (aw_task v) now db then Inr (''FAILED'', ''JOB_STOPPING'', ''job no longer accepts success'')
    else if cr_Success r then
      if cr_ArtifactIds r = [] then Inl (Status ''FailedPrecondition'' ''successful task needs verification artifact'')
      else if managed (aw_task v) db \<and> \<not> one_bundle (cr_ArtifactIds r) db
      then Inl (Status ''FailedPrecondition'' ''Job success requires exactly one result-bundle'')
      else Inr (''SUCCEEDED'', [], [])
    else Inr (''FAILED'', cr_ErrorCode r, cr_ErrorMessage r))"

definition as_precondition :: "'a result \<Rightarrow> 'a result" where
  "as_precondition m = map_error (\<lambda>e. Status ''FailedPrecondition'' (error_text e)) m"

definition publish_success ::
  "(TaskEvent \<Rightarrow> string) \<Rightarrow> (string \<Rightarrow> string) \<Rightarrow> CompleteRequest \<Rightarrow> attemptRow \<Rightarrow> string \<Rightarrow> TaskRow \<Rightarrow> int \<Rightarrow> ControlDB \<Rightarrow> ControlDB result" where
  "publish_success enc rid r v attempt t now db =
    rbind (setState enc (t_id t) ''VERIFYING'' [] [] now db) (\<lambda>db1.
    rbind (fold_result (\<lambda>d i. as_precondition (acceptArtifact i attempt (t_id t) (aw_generation v) now d)) db1 (cr_ArtifactIds r)) (\<lambda>db2.
    enqueueGraphCandidates rid (t_id t) (cr_ArtifactIds r) now db2))"

definition ids_json :: "string list \<Rightarrow> json" where
  "ids_json ids = (if ids = [] then JNull else json_strs ids)"

text \<open>The attempt is closed: its result and usage are recorded, it is released and its commands are settled.\<close>

definition close_attempt ::
  "(TaskEvent \<Rightarrow> string) \<Rightarrow> string \<Rightarrow> CompleteRequest \<Rightarrow> attemptRow \<Rightarrow> string \<Rightarrow> TaskRow \<Rightarrow> int \<Rightarrow> ControlDB \<Rightarrow> ControlDB result" where
  "close_attempt enc hash r v attempt t now db =
    rbind (resolveRuntimeSessionRef (t_native_session t) (cr_NativeSessionId r)) (\<lambda>ref.
    rbind (appendEvent enc (server_event (t_id t) attempt (aw_generation v) ''attempt.completed''
        (JObj [(''artifact_ids'', ids_json (cr_ArtifactIds r)), (''cleanup_confirmed'', JBool True), (''success'', JBool (cr_Success r))]))
      None now (db\<lparr>ct_tasks := update_where (\<lambda>x. t_id x = t_id t) (\<lambda>x. x\<lparr>t_result := cr_Result r, t_native_session := ref\<rparr>) (ct_tasks db)\<rparr>)) (\<lambda>db1.
    rbind (recordBoundGoalAttemptUsage (t_id t) attempt now db1) (\<lambda>db2.
    Inr (db2\<lparr>ct_attempts := update_where (\<lambda>a. a_id a = attempt) (\<lambda>a. a\<lparr>a_released := True, a_final_hash := hash\<rparr>) (ct_attempts db2),
      ct_commands := update_where (\<lambda>c. cm_attempt c = attempt) (\<lambda>c. c\<lparr>cm_acked := True\<rparr>) (ct_commands db2)\<rparr>))))"

definition settle_task ::
  "(TaskEvent \<Rightarrow> string) \<Rightarrow> attemptRow \<Rightarrow> string \<Rightarrow> TaskRow \<Rightarrow> string \<Rightarrow> string \<Rightarrow> string \<Rightarrow> int \<Rightarrow> ControlDB \<Rightarrow> ControlDB result" where
  "settle_task enc v attempt t state code msg now db = (
    if state = ''FAILED'' then
      rbind (planRetry (t_id t) code (aw_generation v) now db) (\<lambda>plan.
      if rp_retry plan then scheduleRetry enc t attempt (aw_generation v) code msg plan now db
      else rbind (appendRetryExhausted enc t attempt (aw_generation v) code plan now db) (setState enc (t_id t) state code msg now))
    else setState enc (t_id t) state code msg now db)"

definition complete_confirmed ::
  "(TaskEvent \<Rightarrow> string) \<Rightarrow> (string \<Rightarrow> string) \<Rightarrow> string \<Rightarrow> CompleteRequest \<Rightarrow> attemptRow \<Rightarrow> string \<Rightarrow> TaskRow \<Rightarrow> int \<Rightarrow> ControlDB \<Rightarrow> ControlDB result" where
  "complete_confirmed enc rid hash r v attempt t now db = (
    if \<not> list_all (\<lambda>i. staged_for v attempt i db) (cr_ArtifactIds r)
    then Inl (Status ''FailedPrecondition'' ''artifact not registered for current generation'')
    else rbind (complete_outcome r v t now db) (\<lambda>(state, code, msg).
      rbind (if state = ''SUCCEEDED'' then publish_success enc rid r v attempt t now db else Inr db) (\<lambda>db1.
      rbind (close_attempt enc hash r v attempt t now (orphanStagedArtifacts attempt (aw_generation v) now db1))
        (settle_task enc v attempt t state code msg now))))"

definition complete_tx ::
  "(TaskEvent \<Rightarrow> string) \<Rightarrow> (string \<Rightarrow> string) \<Rightarrow> string \<Rightarrow> string \<Rightarrow> CompleteRequest \<Rightarrow> int \<Rightarrow> ControlDB \<Rightarrow> ControlDB result" where
  "complete_tx enc rid hash worker r now db =
    rbind (readAttemptIdentity worker (cr_Attempt r) db) (\<lambda>v.
    let attempt = at_AttemptId (the (cr_Attempt r)) in
    if aw_currentEpoch v = [] then Inl stale_attempt
    else if epoch_changed v \<and> (\<not> cr_CleanupConfirmed r \<or> cr_Success r \<or> cr_ErrorCode r \<noteq> ''WORKER_RESTARTED'' \<or> cr_ArtifactIds r \<noteq> [])
    then Inl stale_attempt
    else if aw_finalHash v \<noteq> [] then
      if aw_finalHash v \<noteq> hash then Inl (Status ''AlreadyExists'' ''completion hash conflict'') else Inr db
    else if \<not> epoch_changed v \<and> aw_seq v \<noteq> cr_FinalWorkerSeq r
    then Inl (Status ''FailedPrecondition'' ''final event watermark not committed'')
    else rbind (select_row (\<lambda>t. t_id t = aw_task v) (ct_tasks db)) (\<lambda>t.
      if \<not> cr_CleanupConfirmed r then
        if t_state t \<noteq> ''CANCELING''
        then setState enc (t_id t) ''RECONCILING'' ''CLEANUP_UNCONFIRMED'' ''worker could not prove cleanup'' now db
        else Inr db
      else complete_confirmed enc rid hash r v attempt t now db))"

definition CompleteAttempt ::
  "(TaskEvent \<Rightarrow> string) \<Rightarrow> (CompleteRequest \<Rightarrow> string) \<Rightarrow> (string \<Rightarrow> string) \<Rightarrow> Principal option \<Rightarrow> CompleteRequest \<Rightarrow> int \<Rightarrow> ControlDB \<Rightarrow>
   string result \<times> ControlDB" where
  "CompleteAttempt enc encr rid ctx r now db = (
    case WorkerCaller ctx of Inl e \<Rightarrow> (Inl e, db)
    | Inr p \<Rightarrow>
        if length (cr_Result r) > 2 ^ 20 \<or> length (cr_ErrorMessage r) > 8192 \<or> cr_FinalWorkerSeq r < 0
        then (Inl (Status ''ResourceExhausted'' ''completion too large''), db)
        else case complete_tx enc rid (Hash (encr r)) (id_WorkerID (pr_Identity p)) r now db of
          Inl e \<Rightarrow> (Inl (dbErr e), db)
        | Inr db' \<Rightarrow> (Inr (if cr_CleanupConfirmed r then ''COMMITTED'' else ''RECONCILING''), db'))"

section \<open>Lost and overdue attempts\<close>

text \<open>\<open>tasks t JOIN attempts a ON a.id=t.attempt\<close>, unreleased and not finished. \<open>cid\<close> gives the identifier of a stop command.\<close>

definition running_items :: "ControlDB \<Rightarrow> (string \<times> int \<times> int) list" where
  "running_items db = [(t_id t, t_deadline t, a_lease_until a). t \<leftarrow> ct_tasks db, a \<leftarrow> ct_attempts db,
    a_id a = t_attempt t \<and> \<not> a_released a \<and> \<not> job_terminal (t_state t)]"

fun reconcile_item :: "(TaskEvent \<Rightarrow> string) \<Rightarrow> (string \<Rightarrow> string) \<Rightarrow> int \<Rightarrow> ControlDB \<Rightarrow> string \<times> int \<times> int \<Rightarrow> ControlDB result" where
  "reconcile_item enc cid now db (task, deadline, lease) =
    rbind (select_row (\<lambda>t. t_id t = task) (ct_tasks db)) (\<lambda>t.
    if t_state t = ''CANCELING'' then Inr db
    else if deadline \<le> now then
      rbind (setState enc task ''CANCELING'' ''DEADLINE_EXCEEDED'' ''deadline reached'' now db) (stopCommand (cid task) t)
    else if lease \<le> now then
      rbind (setState enc task ''RECONCILING'' ''WORKER_LOST'' ''awaiting cleanup evidence'' now db) (stopCommand (cid task) t)
    else Inr db)"

definition reconcile :: "(TaskEvent \<Rightarrow> string) \<Rightarrow> (string \<Rightarrow> string) \<Rightarrow> int \<Rightarrow> ControlDB \<Rightarrow> ControlDB result" where
  "reconcile enc cid now db = fold_result (reconcile_item enc cid now) db (running_items db)"

section \<open>Manual retry\<close>

record ManualRetryRequest =
  mr_OperationID :: string
  mr_TaskID :: string
  mr_ExpectedAttemptID :: string
  mr_ExpectedGeneration :: int

record ManualRetryReceipt =
  mc_OperationID :: string
  mc_JobID :: string
  mc_TaskID :: string
  mc_AttemptID :: string
  mc_Generation :: int
  mc_NextGeneration :: int
  mc_State :: string
  mc_Existing :: bool

definition validateManualRetryRequest :: "ManualRetryRequest \<Rightarrow> unit result" where
  "validateManualRetryRequest r = (
    if \<not> ValidKey (mr_OperationID r) \<or> mr_TaskID r = [] \<or> mr_ExpectedAttemptID r = [] \<or> mr_ExpectedGeneration r < 1
    then Inl (Status ''InvalidArgument'' ''invalid manual retry request'') else Inr ())"

definition manualRetryNotAllowed :: "string \<Rightarrow> error" where
  "manualRetryNotAllowed reason = Status ''FailedPrecondition'' (if reason = [] then ''MANUAL_RETRY_NOT_ALLOWED'' else reason)"

definition manual_request_json :: "ManualRetryRequest \<Rightarrow> json" where
  "manual_request_json r = JObj [(''operation_id'', JStr (mr_OperationID r)), (''task_id'', JStr (mr_TaskID r)),
    (''expected_attempt_id'', JStr (mr_ExpectedAttemptID r)), (''expected_generation'', JInt (mr_ExpectedGeneration r))]"

definition manual_receipt :: "string \<Rightarrow> ManualRetryRequest \<Rightarrow> bool \<Rightarrow> ManualRetryReceipt" where
  "manual_receipt jobID r existing = \<lparr>mc_OperationID = mr_OperationID r, mc_JobID = jobID, mc_TaskID = mr_TaskID r,
    mc_AttemptID = mr_ExpectedAttemptID r, mc_Generation = mr_ExpectedGeneration r,
    mc_NextGeneration = mr_ExpectedGeneration r + 1, mc_State = ''ACCEPTED'', mc_Existing = existing\<rparr>"

definition manual_receipt_json :: "ManualRetryReceipt \<Rightarrow> json" where
  "manual_receipt_json c = JObj ([(''operation_id'', JStr (mc_OperationID c)), (''job_id'', JStr (mc_JobID c)),
    (''task_id'', JStr (mc_TaskID c)), (''attempt_id'', JStr (mc_AttemptID c)), (''generation'', JInt (mc_Generation c)),
    (''next_generation'', JInt (mc_NextGeneration c)), (''state'', JStr (mc_State c))] @ opt_true ''existing'' (mc_Existing c))"

text \<open>The event that recorded an operation of a job: the hash of its request.\<close>

definition find_job_operation :: "string \<Rightarrow> string \<Rightarrow> ControlDB \<Rightarrow> string option" where
  "find_job_operation jobID key db =
    map_option (\<lambda>e. snd (the (je_operation e)))
      (List.find (\<lambda>e. je_job e = jobID \<and> (case je_operation e of Some (k, _) \<Rightarrow> k = key | None \<Rightarrow> False)) (ct_job_events db))"

definition retry_job_ok :: "ExecJobRow \<Rightarrow> int \<Rightarrow> unit result" where
  "retry_job_ok j now = (
    if j_mode j \<noteq> ''single'' then Inl (manualRetryNotAllowed ''MANUAL_RETRY_SINGLE_ONLY'')
    else if j_state j \<noteq> ''FAILED'' \<or> j_stop_reason j \<noteq> ''CHILD_FAILED'' then Inl (manualRetryNotAllowed ''MANUAL_RETRY_JOB_STATE'')
    else if j_deadline j \<le> now then Inl (manualRetryNotAllowed ''MANUAL_RETRY_DEADLINE_EXHAUSTED'')
    else Inr ())"

definition retry_task_ok :: "ExecJobRow \<Rightarrow> ManualRetryRequest \<Rightarrow> TaskRow \<Rightarrow> ControlDB \<Rightarrow> unit result" where
  "retry_task_ok j r t db = (
    if t_attempt t \<noteq> mr_ExpectedAttemptID r \<or> t_generation t \<noteq> mr_ExpectedGeneration r then Inl attempt_fenced
    else if t_state t \<noteq> ''FAILED'' then Inl (manualRetryNotAllowed ''MANUAL_RETRY_TASK_STATE'')
    else rbind (select_row (\<lambda>a. a_id a = t_attempt t \<and> a_task a = mr_TaskID r) (ct_attempts db)) (\<lambda>a.
      if a_generation a \<noteq> t_generation t then Inl attempt_fenced
      else if \<not> a_released a then Inl (manualRetryNotAllowed ''EXECUTION_UNVERIFIABLE'')
      else case ExecutionFor (j_spec j) (t_stage t) (t_partition t) of
        None \<Rightarrow> Inl (manualRetryNotAllowed ''MANUAL_RETRY_REPLAY_UNSAFE'')
      | Some ex \<Rightarrow>
          if \<not> ex_ReplaySafe ex then Inl (manualRetryNotAllowed ''MANUAL_RETRY_REPLAY_UNSAFE'')
          else if t_generation t \<ge> lm_MaxAttemptsPerTask (sp_Limits (j_spec j))
          then Inl (manualRetryNotAllowed ''MANUAL_RETRY_ATTEMPTS_EXHAUSTED'')
          else Inr ()))"

definition retry_stage :: "string \<Rightarrow> TaskRow \<Rightarrow> ControlDB \<Rightarrow> string result" where
  "retry_stage jobID t db = (
    case t_stage_id t of None \<Rightarrow> Inl (Error ''converting NULL to string is unsupported'')
    | Some sid \<Rightarrow> rbind (select_row (\<lambda>g. sg_id g = sid \<and> sg_job g = jobID) (ct_stages db)) (\<lambda>g.
        if sg_state g \<noteq> ''FAILED'' then Inl (manualRetryNotAllowed ''MANUAL_RETRY_STAGE_STATE'') else Inr sid))"

definition reopen_goal :: "string \<Rightarrow> int \<Rightarrow> GoalDB \<Rightarrow> GoalDB" where
  "reopen_goal jobID now d = d\<lparr>goals := update_where
    (\<lambda>g. (case List.find (\<lambda>b. bd_job b = jobID) (job_bindings d) of None \<Rightarrow> False | Some b \<Rightarrow> gl_id g = bd_goal b) \<and> gl_state g = ''FAILED'')
    (\<lambda>g. g\<lparr>gl_state := ''RUNNING'', gl_version := gl_version g + 1, gl_updated := now\<rparr>) (goals d)\<rparr>"

definition reopen_task :: "string \<Rightarrow> ManualRetryRequest \<Rightarrow> TaskRow \<Rightarrow> int \<Rightarrow> ControlDB \<Rightarrow> ControlDB result" where
  "reopen_task jobID r t now db = (
    let hit = (\<lambda>x. t_id x = mr_TaskID r \<and> t_job x = Some jobID \<and> t_state x = ''FAILED'' \<and> t_attempt x = t_attempt t \<and> t_generation x = t_generation t) in
    if count_where hit (ct_tasks db) \<noteq> 1 then Inl attempt_fenced
    else Inr (db\<lparr>ct_tasks := update_where hit (requeue [] 0 now) (ct_tasks db)\<rparr>))"

definition reopen_stage :: "string \<Rightarrow> string \<Rightarrow> int \<Rightarrow> ControlDB \<Rightarrow> ControlDB result" where
  "reopen_stage jobID sid now db = (
    let hit = (\<lambda>g. sg_id g = sid \<and> sg_job g = jobID \<and> sg_state g = ''FAILED'') in
    if count_where hit (ct_stages db) \<noteq> 1 then Inl (manualRetryNotAllowed ''MANUAL_RETRY_STAGE_STATE'')
    else Inr (db\<lparr>ct_stages := update_where hit (\<lambda>g. g\<lparr>sg_state := ''READY'', sg_updated := now\<rparr>) (ct_stages db)\<rparr>))"

definition reopen_job :: "ExecJobRow \<Rightarrow> int \<Rightarrow> ControlDB \<Rightarrow> ControlDB result" where
  "reopen_job j now db = (
    let hit = (\<lambda>x. j_id x = j_id j \<and> j_state x = ''FAILED'' \<and> j_version x = j_version j) in
    if count_where hit (ct_jobs db) \<noteq> 1 then Inl (Status ''Aborted'' ''RESOURCE_VERSION_CONFLICT'')
    else Inr (db\<lparr>ct_jobs := update_where hit (\<lambda>x. x\<lparr>j_state := ''QUEUED'', j_stop_reason := [], j_error_code := [],
      j_result := None, j_version := j_version x + 1, j_updated := now\<rparr>) (ct_jobs db)\<rparr>))"

definition reopen_events ::
  "(TaskEvent \<Rightarrow> string) \<Rightarrow> string \<Rightarrow> ManualRetryRequest \<Rightarrow> TaskRow \<Rightarrow> string \<Rightarrow> string \<Rightarrow> int \<Rightarrow> ControlDB \<Rightarrow> ControlDB result" where
  "reopen_events enc jobID r t key digest now db =
    rbind (appendEvent enc (server_event (mr_TaskID r) (t_attempt t) (t_generation t) ''task.manual_retry_requested''
        (JObj [(''error_code'', JStr (t_error_code t)), (''next_generation'', JInt (t_generation t + 1)),
           (''operation_id'', JStr (mr_OperationID r))])) None now db) (\<lambda>db1.
    appendJobEvent jobID ''job.task_manual_retry_requested'' (manual_receipt_json (manual_receipt jobID r False)) key digest now db1)"

definition manual_retry_tx :: "(TaskEvent \<Rightarrow> string) \<Rightarrow> string \<Rightarrow> ManualRetryRequest \<Rightarrow> int \<Rightarrow> (ControlDB, ManualRetryReceipt) tx" where
  "manual_retry_tx enc jobID r now db = (
    let digest = Hash (json_text (manual_request_json r)); key = ''manual-retry:'' @ mr_OperationID r in
    case find_job_operation jobID key db of
      Some old \<Rightarrow>
        if old \<noteq> digest then Inl (Status ''AlreadyExists'' ''OPERATION_CONFLICT'')
        else Inr (manual_receipt jobID r True, db)
    | None \<Rightarrow>
        rbind (readJob jobID db) (\<lambda>j.
        rbind (retry_job_ok j now) (\<lambda>_.
        case List.find (\<lambda>t. t_id t = mr_TaskID r \<and> t_job t = Some jobID) (ct_tasks db) of
          None \<Rightarrow> Inl (Status ''NotFound'' ''NOT_FOUND'')
        | Some t \<Rightarrow>
            rbind (retry_task_ok j r t db) (\<lambda>_.
            rbind (retry_stage jobID t db) (\<lambda>sid.
            rbind (reopen_task jobID r t now db) (\<lambda>db1.
            rbind (reopen_stage jobID sid now db1) (\<lambda>db2.
            rbind (reopen_job j now db2) (\<lambda>db3.
            rbind (reopen_events enc jobID r t key digest now (db3\<lparr>ct_goal := reopen_goal jobID now (ct_goal db3)\<rparr>)) (\<lambda>db4.
            Inr (manual_receipt jobID r False, db4))))))))))"

definition ManualRetry ::
  "(TaskEvent \<Rightarrow> string) \<Rightarrow> Principal option \<Rightarrow> string \<Rightarrow> ManualRetryRequest \<Rightarrow> int \<Rightarrow> ControlDB \<Rightarrow> ManualRetryReceipt result \<times> ControlDB" where
  "ManualRetry enc ctx jobID r now db = (
    case rbind (validateManualRetryRequest r) (\<lambda>_. jobAuthorized ctx jobID ''jobs:retry'' db) of
      Inl e \<Rightarrow> (Inl e, db)
    | Inr _ \<Rightarrow> apfst (map_error dbErr) (db_Tx (manual_retry_tx enc jobID r now) db))"

end
