(* ===== verification/Scheduler.thy ===== *)
theory Scheduler
  imports Goal_Store
begin

text \<open>
  The order in which queued work is offered to workers (\<open>internal/server/job_schedule.go\<close>), the
  freshness of readiness hints (\<open>internal/readiness/signal.go\<close>), and the choice of a worker
  (\<open>worker_scoring.go\<close>, \<open>worker_selection.go\<close>).

  Go's \<open>int\<close> and \<open>int64\<close> are \<open>int\<close>; the one conversion that can lose bits, \<open>int32(...)\<close> in
  \<open>effectivePriority\<close>, is written out. A Go map read with a missing key gives the zero value, so the
  two cursor maps are total functions whose default is the empty string. The iteration over the map
  of projects has no order in Go, but the names are sorted before use.

  Shown: aging raises a priority monotonically to the maximum and never above it; the order of one
  scheduling pass is a permutation of the groups sorted by priority; inside one priority no project
  gets two turns more than another that still has work; a backlogged project is served within as
  many passes as there are projects; the chosen worker is eligible and no eligible one scores better
  or is less loaded.
\<close>

section \<open>Priorities\<close>

definition int32 :: "int \<Rightarrow> int" where
  "int32 n = (n + 2 ^ 31) mod 2 ^ 32 - 2 ^ 31"

record queueGroup =
  qg_project :: string
  qg_group :: string
  qg_base :: int
  qg_effective :: int
  qg_oldest :: int

definition clampPriority :: "int \<Rightarrow> int" where
  "clampPriority b = (let b = (if b < 0 then 0 else b) in if b > 10 then 10 else b)"

definition effectivePriority :: "int \<Rightarrow> int \<Rightarrow> int \<Rightarrow> int \<Rightarrow> int" where
  "effectivePriority base0 queuedAt now agingMS = (
    let base = clampPriority base0 in
    if agingMS \<le> 0 \<or> queuedAt \<le> 0 \<or> now \<le> queuedAt then base
    else
      let boost = int32 ((now - queuedAt) div agingMS);
          boost = (if boost > 10 - base then 10 - base else boost)
      in base + boost)"

section \<open>Rotation\<close>

text \<open>\<open>sort.Search\<close> of the Go library.\<close>

function go_search :: "(nat \<Rightarrow> bool) \<Rightarrow> nat \<Rightarrow> nat \<Rightarrow> nat" where
  "go_search f i j = (
    if i < j then
      let h = (i + j) div 2 in
      if f h then go_search f i h else go_search f (h + 1) j
    else i)"
  by pat_completeness auto
termination
  by (relation "measure (\<lambda>(f, i, j). j - i)") auto

definition SearchStrings :: "string list \<Rightarrow> string \<Rightarrow> nat" where
  "SearchStrings vals x = go_search (\<lambda>i. vals ! i \<ge> x) 0 (length vals)"

function skip_upto :: "string list \<Rightarrow> string \<Rightarrow> nat \<Rightarrow> nat" where
  "skip_upto vals after i = (
    if i < length vals \<and> vals ! i \<le> after then skip_upto vals after (i + 1) else i)"
  by pat_completeness auto
termination
  by (relation "measure (\<lambda>(vals, after, i). length vals - i)") auto

declare go_search.simps [simp del] skip_upto.simps [simp del]

definition rotateStrings :: "string list \<Rightarrow> string \<Rightarrow> string list" where
  "rotateStrings vals after = (
    if length vals < 2 \<or> after = [] then vals
    else
      let i = skip_upto vals after (SearchStrings vals after) in
      if i = 0 \<or> i \<ge> length vals then vals
      else drop i vals @ take i vals)"

fun rotateGroups_at :: "queueGroup list \<Rightarrow> string \<Rightarrow> nat \<Rightarrow> queueGroup list \<Rightarrow> queueGroup list" where
  "rotateGroups_at vals after i [] = vals"
| "rotateGroups_at vals after i (v # vs) = (
    if qg_group v \<noteq> after then rotateGroups_at vals after (i + 1) vs
    else
      let n = (i + 1) mod length vals in
      if n = 0 then vals else drop n vals @ take n vals)"

definition rotateGroups :: "queueGroup list \<Rightarrow> string \<Rightarrow> queueGroup list" where
  "rotateGroups vals after = (
    if length vals < 2 \<or> after = [] then vals else rotateGroups_at vals after 0 vals)"

section \<open>The order of one pass\<close>

type_synonym project_cursor = "int \<Rightarrow> string"
type_synonym group_cursor = "string \<Rightarrow> string"

text \<open>\<open>fmt.Sprintf("%d:%s", priority, project)\<close>\<close>

definition cursor_key :: "int \<Rightarrow> string \<Rightarrow> string" where
  "cursor_key priority name = int_decimal priority @ '':'' @ name"

text \<open>\<open>for remaining { ... }\<close>: each round takes the head of every queue that is not empty.\<close>

lemma rounds_decrease:
  "\<not> list_all (\<lambda>q. q = []) qs \<Longrightarrow> sum_list (map (length \<circ> tl) qs) < sum_list (map length qs)"
proof (induction qs)
  case (Cons q qs)
  have "sum_list (map (length \<circ> tl) qs) \<le> sum_list (map length qs)"
    by (rule sum_list_mono) simp
  with Cons show ?case by (cases q) (auto simp: comp_def)
qed simp

function rounds :: "'a list list \<Rightarrow> 'a list" where
  "rounds qs = (
    if list_all (\<lambda>q. q = []) qs then []
    else concat (map (take 1) qs) @ rounds (map tl qs))"
  by pat_completeness auto
termination
  by (relation "measure (\<lambda>qs. sum_list (map length qs))") (auto dest: rounds_decrease)

declare rounds.simps [simp del]

definition level_names :: "queueGroup list \<Rightarrow> string list" where
  "level_names bucket = sort (remdups (map qg_project bucket))"

definition level_queue :: "group_cursor \<Rightarrow> int \<Rightarrow> queueGroup list \<Rightarrow> string \<Rightarrow> queueGroup list" where
  "level_queue groupCursor priority bucket name =
    rotateGroups
      (sort_key (\<lambda>g. (qg_oldest g, qg_group g)) (filter (\<lambda>g. qg_project g = name) bucket))
      (groupCursor (cursor_key priority name))"

definition level_order ::
  "project_cursor \<Rightarrow> group_cursor \<Rightarrow> queueGroup list \<Rightarrow> int \<Rightarrow> queueGroup list" where
  "level_order projectCursor groupCursor groups priority = (
    let bucket = filter (\<lambda>g. qg_effective g = priority) groups;
        names = rotateStrings (level_names bucket) (projectCursor priority)
    in rounds (map (level_queue groupCursor priority bucket) names))"

definition priorities :: "int list" where
  "priorities = [10, 9, 8, 7, 6, 5, 4, 3, 2, 1, 0]"

definition fairGroupOrder ::
  "queueGroup list \<Rightarrow> project_cursor \<Rightarrow> group_cursor \<Rightarrow> queueGroup list" where
  "fairGroupOrder groups projectCursor groupCursor =
    concat (map (level_order projectCursor groupCursor groups) priorities)"

section \<open>Readiness hints\<close>

record ExecutionSignal =
  ObservedAtMs :: int
  MeasuredAtMs :: int
  RuntimeReady :: "string list"
  EnvironmentReady :: "string list"
  TemplateFingerprints :: "string list"
  RepositoryRefs :: "string list"
  WorkspacePrepareP50Ms :: int
  EnvironmentStartupP50Ms :: int
  FreeSlots :: int

definition TTLMS :: int where
  "TTLMS = 30000"

definition signal_list_ok :: "string list \<Rightarrow> bool" where
  "signal_list_ok xs \<longleftrightarrow> length xs \<le> 32 \<and> list_all (\<lambda>v. \<not> blank v \<and> length v \<le> 512) xs"

definition Fresh :: "ExecutionSignal option \<Rightarrow> int \<Rightarrow> int \<Rightarrow> ExecutionSignal option" where
  "Fresh signal received now = (
    case signal of None \<Rightarrow> None
    | Some s \<Rightarrow>
      if received \<le> 0 \<or> received > now \<or> now - received > TTLMS
        \<or> ObservedAtMs s \<le> 0 \<or> ObservedAtMs s > now + 5000 \<or> now - ObservedAtMs s > TTLMS
        \<or> MeasuredAtMs s \<le> 0 \<or> MeasuredAtMs s > ObservedAtMs s \<or> now - MeasuredAtMs s > TTLMS
        \<or> WorkspacePrepareP50Ms s < 0 \<or> WorkspacePrepareP50Ms s > 3600000
        \<or> EnvironmentStartupP50Ms s < 0 \<or> EnvironmentStartupP50Ms s > 3600000
        \<or> FreeSlots s < 0 \<or> FreeSlots s > 1024 then None
      else if list_all signal_list_ok
        [RuntimeReady s, EnvironmentReady s, TemplateFingerprints s, RepositoryRefs s] then Some s
      else None)"

section \<open>The choice of a worker\<close>

record workerScoreInput =
  in_now :: int
  in_receivedAt :: int
  in_active :: int
  in_slots :: int
  in_runtimeProfile :: string
  in_environmentName :: string
  in_repositoryRef :: string
  in_signal :: "ExecutionSignal option"

record workerScore =
  RuntimeEnvironment :: int
  Affinity :: int
  PrepareCost :: int
  Capacity :: int
  Total :: int

definition maxPrepareMS :: int where
  "maxPrepareMS = 60000"

definition runtime_score :: "workerScoreInput \<Rightarrow> ExecutionSignal \<Rightarrow> int" where
  "runtime_score input s =
    (if in_runtimeProfile input \<in> set (RuntimeReady s) then 50 else 0)
    + (if in_environmentName input \<in> set (EnvironmentReady s) then 50 else 0)"

definition prepare_score :: "ExecutionSignal \<Rightarrow> int" where
  "prepare_score s = (
    if WorkspacePrepareP50Ms s > 0 \<and> WorkspacePrepareP50Ms s \<le> maxPrepareMS
    then (maxPrepareMS - WorkspacePrepareP50Ms s) * 100 div maxPrepareMS else 0)"

definition scoreWorker :: "workerScoreInput \<Rightarrow> workerScore" where
  "scoreWorker input = (
    let sig = Fresh (in_signal input) (in_receivedAt input) (in_now input);
        re = (case sig of None \<Rightarrow> 0 | Some s \<Rightarrow> runtime_score input s);
        af = (case sig of None \<Rightarrow> 0 | Some s \<Rightarrow>
          if in_repositoryRef input \<in> set (RepositoryRefs s) then 100 else 0);
        pc = (case sig of None \<Rightarrow> 0 | Some s \<Rightarrow> prepare_score s);
        ca = (if in_slots input > 0 \<and> in_active input < in_slots input
          then (in_slots input - in_active input) * 100 div in_slots input else 0)
    in \<lparr>RuntimeEnvironment = re, Affinity = af, PrepareCost = pc, Capacity = ca,
        Total = (35 * re + 30 * af + 20 * pc + 15 * ca + 50) div 100\<rparr>)"

definition environment_prefix :: string where
  "environment_prefix = ''environment:''"

definition requiredEnvironmentName :: "string list \<Rightarrow> string" where
  "requiredEnvironmentName capabilities = (
    case List.find (\<lambda>c. prefix environment_prefix c) capabilities of
      Some c \<Rightarrow> drop (length environment_prefix) c
    | None \<Rightarrow> ''process'')"

text \<open>
  A load names its peer by the worker id of the session's hello; \<open>None\<close> is a nil peer or a nil hello.
\<close>

record workerLoad =
  wl_peer :: "string option"
  wl_active :: int
  wl_score :: int

definition selected_index :: "string list \<Rightarrow> string \<Rightarrow> nat" where
  "selected_index ids cursor = (
    if cursor = [] then 0
    else case List.find (\<lambda>i. ids ! i > cursor) [0..<length ids] of Some i \<Rightarrow> i | None \<Rightarrow> 0)"

definition min_active :: "workerLoad list \<Rightarrow> int" where
  "min_active loads = foldl (\<lambda>m l. if wl_active l < m then wl_active l else m)
    (wl_active (hd loads)) (tl loads)"

definition chooseLeastLoadedWorker :: "workerLoad list \<Rightarrow> string \<Rightarrow> string option \<times> string" where
  "chooseLeastLoadedWorker loads cursor = (
    if loads = [] then (None, cursor)
    else
      let m = min_active loads;
          eligible = filter (\<lambda>l. wl_peer l \<noteq> None \<and> wl_active l = m) loads;
          ids = map (the \<circ> wl_peer) (sort_key (the \<circ> wl_peer) eligible)
      in if eligible = [] then (None, cursor)
         else let peer = ids ! selected_index ids cursor in (Some peer, peer))"

text \<open>The comparison of \<open>chooseHighestScoredWorker\<close>: score down, load up, worker id up.\<close>

definition load_key :: "workerLoad \<Rightarrow> int \<times> int \<times> string" where
  "load_key l = (- wl_score l, wl_active l, the (wl_peer l))"

definition chooseHighestScoredWorker :: "workerLoad list \<Rightarrow> string \<Rightarrow> string option \<times> string" where
  "chooseHighestScoredWorker loads cursor = (
    if loads = [] then (None, cursor)
    else
      let ordered = sort_key load_key loads;
          top = hd ordered;
          tied = takeWhile (\<lambda>c. wl_score c = wl_score top \<and> wl_active c = wl_active top) ordered
      in chooseLeastLoadedWorker tied cursor)"

section \<open>Aging\<close>

lemma int32_id: "- (2 ^ 31) \<le> n \<Longrightarrow> n < 2 ^ 31 \<Longrightarrow> int32 n = n"
  by (simp add: int32_def)

lemma int32_range: "- (2 ^ 31) \<le> int32 n" "int32 n < 2 ^ 31"
  by (simp_all add: int32_def)

lemma clampPriority_range [simp]: "0 \<le> clampPriority b" "clampPriority b \<le> 10"
  by (simp_all add: clampPriority_def Let_def)

lemma clampPriority_id: "0 \<le> b \<Longrightarrow> b \<le> 10 \<Longrightarrow> clampPriority b = b"
  by (simp add: clampPriority_def Let_def)

lemma effectivePriority_le: "effectivePriority b q n a \<le> 10"
  by (simp add: effectivePriority_def Let_def)

text \<open>Without a wait of more than \<open>2 ^ 31\<close> aging periods no bits are lost.\<close>

lemma effectivePriority_eq:
  assumes "(n - q) div a < 2 ^ 31"
  shows "effectivePriority b q n a = (
    if a \<le> 0 \<or> q \<le> 0 \<or> n \<le> q then clampPriority b
    else min 10 (clampPriority b + (n - q) div a))"
proof (cases "a \<le> 0 \<or> q \<le> 0 \<or> n \<le> q")
  case False
  then have "0 \<le> (n - q) div a" by (simp add: pos_imp_zdiv_nonneg_iff)
  then have "int32 ((n - q) div a) = (n - q) div a" using assms by (intro int32_id) auto
  with False show ?thesis by (simp add: effectivePriority_def Let_def min_def)
qed (simp add: effectivePriority_def Let_def)

section \<open>Rotation\<close>

lemma mset_rotate_eq: "mset (rotate k xs) = mset xs"
proof -
  have "mset (rotate k xs) = mset (take (k mod length xs) xs) + mset (drop (k mod length xs) xs)"
    by (simp add: rotate_drop_take)
  then show ?thesis by (simp flip: mset_append)
qed

text \<open>Both rotations and the loop over the groups keep the list, turned by some amount.\<close>

locale cursor_rotation =
  fixes rot :: "'a list \<Rightarrow> 'c \<Rightarrow> 'a list"
  assumes rot_rotate: "\<exists>k. rot xs c = rotate k xs"
begin

lemma mset_rot [simp]: "mset (rot xs c) = mset xs"
  using rot_rotate [of xs c] by (auto simp: mset_rotate_eq)

lemma set_rot [simp]: "set (rot xs c) = set xs"
  using mset_rot mset_eq_setD by blast

lemma distinct_rot [simp]: "distinct (rot xs c) \<longleftrightarrow> distinct xs"
  using mset_rot mset_eq_imp_distinct_iff by blast

lemma length_rot [simp]: "length (rot xs c) = length xs"
  using mset_rot mset_eq_length by blast

end

lemma rotate_cut: "k < length xs \<Longrightarrow> rotate k xs = drop k xs @ take k xs"
  by (simp add: rotate_drop_take)

lemma rotate_none: "\<exists>k. xs = rotate k xs"
  by (rule exI [of _ 0]) simp

interpretation by_name: cursor_rotation rotateStrings
proof unfold_locales
  fix xs c
  show "\<exists>k. rotateStrings xs c = rotate k xs"
    using rotate_none by (auto simp: rotateStrings_def Let_def rotate_cut [symmetric])
qed

lemma rotateGroups_at_rotate: "\<exists>k. rotateGroups_at xs c i vs = rotate k xs"
proof (induction xs c i vs rule: rotateGroups_at.induct)
  case (2 xs c i v vs)
  have "\<exists>k. drop n xs @ take n xs = rotate k xs" if "n = (i + 1) mod length xs" for n
    using that rotate_drop_take by metis
  with 2 show ?case using rotate_none by (auto simp: Let_def)
qed (simp add: rotate_none)

interpretation by_group: cursor_rotation rotateGroups
  by unfold_locales (simp add: rotateGroups_def rotate_none rotateGroups_at_rotate)

text \<open>\<open>sort.Search\<close> stops behind elements that fail the test.\<close>

lemma go_search_below:
  assumes "\<And>x y. x \<le> y \<Longrightarrow> y < n \<Longrightarrow> f x \<Longrightarrow> f y" "i \<le> j" "j \<le> n" "\<And>x. x < i \<Longrightarrow> \<not> f x"
  shows "go_search f i j \<le> n \<and> (\<forall>x<go_search f i j. \<not> f x)"
  using assms
proof (induction f i j rule: go_search.induct)
  case (1 f i j)
  show ?case
  proof (cases "i < j")
    case True
    define h where "h = (i + j) div 2"
    then have h: "i \<le> h" "h < j" using True by auto
    have step: "go_search f i j = (if f h then go_search f i h else go_search f (h + 1) j)"
      using True by (subst go_search.simps) (simp add: h_def Let_def)
    show ?thesis
    proof (cases "f h")
      case True
      note fh = True
      have "go_search f i h \<le> n \<and> (\<forall>x<go_search f i h. \<not> f x)"
        by (rule "1.IH"(1) [OF \<open>i < j\<close> h_def fh]) (use "1.prems" h in auto)
      with fh step show ?thesis by simp
    next
      case False
      have "go_search f (h + 1) j \<le> n \<and> (\<forall>x<go_search f (h + 1) j. \<not> f x)"
      proof (rule "1.IH"(2) [OF \<open>i < j\<close> h_def False])
        show "\<not> f x" if "x < h + 1" for x
          using "1.prems"(1) [of x h] "1.prems"(3) False h that by auto
      qed (use "1.prems" h in auto)
      with False step show ?thesis by simp
    qed
  next
    case False
    with "1.prems" show ?thesis by (subst (1 2) go_search.simps) auto
  qed
qed

lemma skip_upto_takeWhile:
  assumes "i \<le> length (takeWhile (\<lambda>x. x \<le> c) vs)"
  shows "skip_upto vs c i = length (takeWhile (\<lambda>x. x \<le> c) vs)"
  using assms
proof (induction vs c i rule: skip_upto.induct)
  case (1 vs c i)
  let ?w = "takeWhile (\<lambda>x. x \<le> c) vs"
  show ?case
  proof (cases "i < length ?w")
    case True
    then have "i < length vs" using length_takeWhile_le [of "\<lambda>x. x \<le> c" vs] by simp
    moreover have "vs ! i \<le> c"
      using True by (metis nth_mem set_takeWhileD takeWhile_nth)
    ultimately show ?thesis using 1 True by (subst skip_upto.simps) simp
  next
    case False
    then have "i = length ?w" using 1 by simp
    then have "\<not> (i < length vs \<and> vs ! i \<le> c)"
      using nth_length_takeWhile [of "\<lambda>x. x \<le> c" vs] by auto
    then have "skip_upto vs c i = i" by (subst skip_upto.simps) (simp only: if_False)
    then show ?thesis using \<open>i = length ?w\<close> by simp
  qed
qed

lemma skip_search:
  assumes "sorted vs"
  shows "skip_upto vs c (SearchStrings vs c) = length (takeWhile (\<lambda>x. x \<le> c) vs)"
proof (rule skip_upto_takeWhile)
  let ?r = "SearchStrings vs c"
  have "?r \<le> length vs \<and> (\<forall>x<?r. \<not> vs ! x \<ge> c)"
    unfolding SearchStrings_def
    by (rule go_search_below) (use assms in \<open>auto simp: sorted_iff_nth_mono intro: order_trans\<close>)
  then have r: "?r \<le> length vs" "\<And>x. x < ?r \<Longrightarrow> vs ! x \<le> c" by (auto simp: not_le)
  show "?r \<le> length (takeWhile (\<lambda>x. x \<le> c) vs)"
  proof (rule ccontr)
    assume "\<not> ?thesis"
    then have "length (takeWhile (\<lambda>x. x \<le> c) vs) < length vs \<and>
      vs ! length (takeWhile (\<lambda>x. x \<le> c) vs) \<le> c"
      using r by auto
    then show False using nth_length_takeWhile by blast
  qed
qed

lemma takeWhile_sorted: "sorted xs \<Longrightarrow> takeWhile (\<lambda>x. x \<le> (c::'a::linorder)) xs = filter (\<lambda>x. x \<le> c) xs"
  by (induction xs) (auto intro!: filter_False [symmetric] dest: order_trans)

lemma dropWhile_sorted: "sorted xs \<Longrightarrow> dropWhile (\<lambda>x. x \<le> (c::'a::linorder)) xs = filter (\<lambda>x. c < x) xs"
  by (induction xs) (auto simp: filter_id_conv not_le intro!: filter_True [symmetric])

text \<open>The names behind the cursor come first.\<close>

lemma rotateStrings_eq:
  assumes "sorted names" "c \<noteq> []"
  shows "rotateStrings names c = filter (\<lambda>x. c < x) names @ filter (\<lambda>x. x \<le> c) names"
proof -
  let ?i = "length (takeWhile (\<lambda>x. x \<le> c) names)"
  have "rotateStrings names c = drop ?i names @ take ?i names"
  proof (cases "length names < 2")
    case True
    then show ?thesis by (cases names) (auto simp: rotateStrings_def Suc_le_eq)
  next
    case False
    then show ?thesis using assms skip_search [OF assms(1), of c]
      by (auto simp: rotateStrings_def Let_def)
  qed
  also have "drop ?i names = dropWhile (\<lambda>x. x \<le> c) names" by (simp add: dropWhile_eq_drop)
  also have "take ?i names = takeWhile (\<lambda>x. x \<le> c) names" by (simp add: takeWhile_eq_take [symmetric])
  finally show ?thesis using assms by (simp add: takeWhile_sorted dropWhile_sorted)
qed


section \<open>One pass over the queue\<close>

lemma mset_rounds: "mset (rounds qs) = mset (concat qs)"
proof (induction qs rule: rounds.induct)
  case (1 qs)
  have heads: "mset (concat (map (take 1) xs)) + mset (concat (map tl xs)) = mset (concat xs)" for xs :: "'a list list"
  proof (induction xs)
    case (Cons x xs)
    then show ?case by (cases x) (auto simp: ac_simps)
  qed simp
  show ?case
  proof (cases "list_all (\<lambda>q. q = []) qs")
    case True
    then have "rounds qs = []" by (simp add: rounds.simps)
    moreover from True have "concat qs = []" by (simp add: list_all_iff)
    ultimately show ?thesis by simp
  next
    case False
    then have "mset (rounds qs) = mset (concat (map (take 1) qs)) + mset (rounds (map tl qs))"
      by (subst rounds.simps) simp
    then show ?thesis using 1 [OF False] heads [of qs] by simp
  qed
qed

lemma set_rounds [simp]: "set (rounds qs) = \<Union> (set ` set qs)"
  using mset_eq_setD [OF mset_rounds [of qs]] by auto

lemma mset_level_queue: "mset (level_queue gc p bucket n) = mset (filter (\<lambda>g. qg_project g = n) bucket)"
  by (simp add: level_queue_def)

lemma mset_concat_partition:
  assumes "distinct ns" "\<And>x. x \<in> set xs \<Longrightarrow> f x \<in> set ns"
  shows "mset (concat (map (\<lambda>n. filter (\<lambda>x. f x = n) xs) ns)) = mset xs"
  using assms
proof (induction ns arbitrary: xs)
  case Nil
  then have "xs = []" by (cases xs) auto
  then show ?case by simp
next
  case (Cons n ns)
  have "mset (concat (map (\<lambda>n'. filter (\<lambda>x. f x = n') (filter (\<lambda>x. f x \<noteq> n) xs)) ns))
      = mset (filter (\<lambda>x. f x \<noteq> n) xs)"
    using Cons.prems by (intro Cons.IH) auto
  moreover have "map (\<lambda>n'. filter (\<lambda>x. f x = n') (filter (\<lambda>x. f x \<noteq> n) xs)) ns
      = map (\<lambda>n'. filter (\<lambda>x. f x = n') xs) ns"
    using Cons.prems(1) by (auto intro!: filter_cong)
  ultimately have "mset (concat (map (\<lambda>n'. filter (\<lambda>x. f x = n') xs) ns)) = mset (filter (\<lambda>x. f x \<noteq> n) xs)"
    by (simp only:)
  then show ?case using multiset_partition [of "mset xs" "\<lambda>x. f x = n"] by simp
qed

lemma mset_concat_map_cong:
  "(\<And>x. x \<in> set xs \<Longrightarrow> mset (f x) = mset (g x)) \<Longrightarrow> mset (concat (map f xs)) = mset (concat (map g xs))"
  by (induction xs) auto

lemma level_names_set [simp]: "set (level_names bucket) = qg_project ` set bucket"
  by (simp add: level_names_def)

lemma level_names_sorted [simp]: "sorted (level_names bucket)" "distinct (level_names bucket)"
  by (simp_all add: level_names_def)

lemma mset_level_order:
  "mset (level_order pc gc groups p) = mset (filter (\<lambda>g. qg_effective g = p) groups)"
proof -
  let ?b = "filter (\<lambda>g. qg_effective g = p) groups"
  let ?names = "rotateStrings (level_names ?b) (pc p)"
  have "mset (level_order pc gc groups p) = mset (concat (map (level_queue gc p ?b) ?names))"
    by (simp only: level_order_def Let_def mset_rounds)
  also have "\<dots> = mset (concat (map (\<lambda>n. filter (\<lambda>g. qg_project g = n) ?b) ?names))"
    by (rule mset_concat_map_cong) (rule mset_level_queue)
  also have "\<dots> = mset ?b"
    by (rule mset_concat_partition) auto
  finally show ?thesis .
qed

lemma set_level_order [simp]:
  "set (level_order pc gc groups p) = {g \<in> set groups. qg_effective g = p}"
  using mset_eq_setD [OF mset_level_order [of pc gc groups p]] by auto

lemma set_priorities: "set priorities = {0..10}"
proof (rule set_eqI)
  fix p :: int
  have "p \<in> set priorities \<longleftrightarrow> 0 \<le> p \<and> p \<le> 10"
    unfolding priorities_def by (simp only: list.set insert_iff empty_iff) presburger
  then show "p \<in> set priorities \<longleftrightarrow> p \<in> {0..10}" by simp
qed

lemma mset_fairGroupOrder:
  "mset (fairGroupOrder groups pc gc) = mset (filter (\<lambda>g. 0 \<le> qg_effective g \<and> qg_effective g \<le> 10) groups)"
proof -
  let ?gs = "filter (\<lambda>g. 0 \<le> qg_effective g \<and> qg_effective g \<le> 10) groups"
  have "mset (fairGroupOrder groups pc gc)
      = mset (concat (map (\<lambda>p. filter (\<lambda>g. qg_effective g = p) ?gs) priorities))"
    unfolding fairGroupOrder_def
  proof (rule mset_concat_map_cong)
    fix p assume "p \<in> set priorities"
    then have "filter (\<lambda>g. qg_effective g = p) ?gs = filter (\<lambda>g. qg_effective g = p) groups"
      by (auto simp: set_priorities intro!: filter_cong)
    then show "mset (level_order pc gc groups p) = mset (filter (\<lambda>g. qg_effective g = p) ?gs)"
      by (simp only: mset_level_order)
  qed
  also have "\<dots> = mset ?gs"
    by (rule mset_concat_partition) (auto simp: set_priorities, simp add: priorities_def)
  finally show ?thesis .
qed

lemma sorted_wrt_concat_map:
  assumes "sorted_wrt R ps" "\<And>p x. p \<in> set ps \<Longrightarrow> x \<in> set (f p) \<Longrightarrow> key x = p" "\<And>p. Q p p" "\<And>p q. R p q \<Longrightarrow> Q p q"
  shows "sorted_wrt (\<lambda>x y. Q (key x) (key y)) (concat (map f ps))"
  using assms(1,2)
proof (induction ps)
  case (Cons p ps)
  have "sorted_wrt (\<lambda>x y. Q (key x) (key y)) (f p)"
  proof (rule sorted_wrt_mono_rel)
    show "sorted_wrt (\<lambda>x y. True) (f p)" by (simp add: sorted_wrt_iff_nth_less)
    show "Q (key x) (key y)" if "x \<in> set (f p)" "y \<in> set (f p)" for x y
      using Cons.prems(2) [of p x] Cons.prems(2) [of p y] that assms(3) by simp
  qed
  moreover have "Q (key x) (key y)" if "x \<in> set (f p)" "y \<in> set (concat (map f ps))" for x y
  proof -
    from that obtain q where q: "q \<in> set ps" "y \<in> set (f q)" by auto
    with that Cons.prems have "key x = p" "key y = q" "R p q" by auto
    then show ?thesis using assms(4) by blast
  qed
  ultimately show ?case using Cons by (auto simp: sorted_wrt_append)
qed simp

lemma fairGroupOrder_sorted:
  "sorted_wrt (\<lambda>x y. qg_effective x \<ge> qg_effective y) (fairGroupOrder groups pc gc)"
  unfolding fairGroupOrder_def
  by (rule sorted_wrt_concat_map [where R = "(>)" and Q = "(\<ge>)"]) (auto simp: priorities_def)


section \<open>Fairness between projects\<close>

definition turns :: "string \<Rightarrow> queueGroup list \<Rightarrow> nat" where
  "turns p gs = length (filter (\<lambda>g. qg_project g = p) gs)"

lemma turns_append [simp]: "turns p (xs @ ys) = turns p xs + turns p ys"
  by (simp add: turns_def)

lemma turns_0_iff: "turns p xs = 0 \<longleftrightarrow> (\<forall>g\<in>set xs. qg_project g \<noteq> p)"
  by (auto simp: turns_def filter_empty_conv)

lemma turns_take_le: "turns p (take k xs) \<le> turns p xs"
  by (metis append_take_drop_id le_add1 turns_append)

text \<open>The queue of each name holds groups of that project only.\<close>

abbreviation queues_of :: "string list \<Rightarrow> queueGroup list list \<Rightarrow> bool" where
  "queues_of \<equiv> list_all2 (\<lambda>n q. \<forall>g\<in>set q. qg_project g = n)"

lemma queues_of_project:
  "queues_of names qs \<Longrightarrow> q \<in> set qs \<Longrightarrow> g \<in> set q \<Longrightarrow> qg_project g \<in> set names"
  by (induction names qs rule: list_all2_induct) auto

lemma turns_heads:
  assumes "queues_of names qs" "distinct names"
  shows "turns p (concat (map (take 1) qs)) = (if \<exists>q\<in>set qs. \<exists>g\<in>set q. qg_project g = p then 1 else 0)"
  using assms
proof (induction names qs rule: list_all2_induct)
  case (Cons n names q qs)
  have IH: "turns p (concat (map (take 1) qs)) = (if \<exists>q\<in>set qs. \<exists>g\<in>set q. qg_project g = p then 1 else 0)"
    using Cons by simp
  have split: "turns p (concat (map (take 1) (q # qs))) = turns p (take 1 q) + turns p (concat (map (take 1) qs))"
    by (simp only: list.map concat.simps turns_append)
  show ?case
  proof (cases "\<exists>g\<in>set q. qg_project g = p")
    case True
    then have "p = n" and "q \<noteq> []" using Cons.hyps(1) by auto
    then have "turns p (take 1 q) = 1" using Cons.hyps(1) by (cases q) (auto simp: turns_def)
    moreover have "\<not> (\<exists>q\<in>set qs. \<exists>g\<in>set q. qg_project g = p)"
      using queues_of_project [OF Cons.hyps(2)] Cons.prems \<open>p = n\<close> by auto
    ultimately show ?thesis unfolding split IH using True by simp
  next
    case False
    then have "turns p (take 1 q) = 0" by (auto simp: turns_0_iff dest: in_set_takeD)
    then show ?thesis unfolding split IH using False by simp
  qed
qed (simp add: turns_def)

lemma in_set_tlD: "x \<in> set (tl xs) \<Longrightarrow> x \<in> set xs"
  by (cases xs) auto

lemma queues_of_tl: "queues_of names qs \<Longrightarrow> queues_of names (map tl qs)"
  by (auto simp: list_all2_conv_all_nth dest: in_set_tlD)

text \<open>
  After any number of turns a project has had at most one turn more than another one, unless the other
  has no work left.
\<close>

lemma rounds_fair:
  assumes "queues_of names qs" "distinct names"
  shows "turns p (take k (rounds qs)) \<le> turns q (take k (rounds qs)) + 1
    \<or> turns q (take k (rounds qs)) = turns q (rounds qs)"
  using assms(1)
proof (induction qs arbitrary: k rule: rounds.induct)
  case (1 qs)
  show ?case
  proof (cases "list_all (\<lambda>q. q = []) qs")
    case True
    then show ?thesis by (simp add: rounds.simps [of qs] turns_def)
  next
    case False
    let ?h = "concat (map (take 1) qs)" and ?r = "rounds (map tl qs)"
    have r: "rounds qs = ?h @ ?r" using False by (subst rounds.simps) simp
    note heads = turns_heads [OF "1.prems" assms(2)]
    show ?thesis
    proof (cases "k \<le> length ?h")
      case True
      then have "turns p (take k (rounds qs)) \<le> turns p ?h" by (simp add: r turns_take_le)
      also have "\<dots> \<le> 1" unfolding heads by simp
      finally show ?thesis by simp
    next
      case k: False
      then have split: "take k (rounds qs) = ?h @ take (k - length ?h) ?r" by (simp add: r)
      show ?thesis
      proof (cases "\<exists>x\<in>set qs. \<exists>g\<in>set x. qg_project g = q")
        case True
        then have "turns q ?h = 1" "turns p ?h \<le> 1" unfolding heads by simp_all
        with "1.IH" [OF False queues_of_tl [OF "1.prems"], of "k - length ?h"] show ?thesis
          unfolding split unfolding r turns_append by linarith
      next
        case no: False
        then have "turns q (rounds qs) = 0" by (auto simp: turns_0_iff)
        then show ?thesis using turns_take_le [of q k "rounds qs"] by simp
      qed
    qed
  qed
qed

lemma level_queues_of: "queues_of names (map (level_queue gc p bucket) names)"
proof -
  have "set (level_queue gc p bucket n) = {g \<in> set bucket. qg_project g = n}" for n
    using mset_eq_setD [OF mset_level_queue [of gc p bucket n]] by auto
  then show ?thesis by (simp add: list_all2_conv_all_nth)
qed

lemma level_order_fair:
  "turns a (take k (level_order pc gc groups p)) \<le> turns b (take k (level_order pc gc groups p)) + 1
    \<or> turns b (take k (level_order pc gc groups p)) = turns b (level_order pc gc groups p)"
  unfolding level_order_def Let_def
  by (rule rounds_fair [OF level_queues_of]) simp


section \<open>No project starves\<close>

text \<open>
  One pass in which only the first group gets a worker: \<open>dispatchGroup\<close> stores its group and
  \<open>scheduleQueued\<close> its project.
\<close>

definition serve_first ::
  "queueGroup list \<Rightarrow> project_cursor \<times> group_cursor \<Rightarrow> project_cursor \<times> group_cursor" where
  "serve_first groups = (\<lambda>(pc, gc).
    let g = hd (fairGroupOrder groups pc gc)
    in (pc(qg_effective g := qg_project g), gc(cursor_key (qg_effective g) (qg_project g) := qg_group g)))"

fun passes :: "queueGroup list \<Rightarrow> nat \<Rightarrow> project_cursor \<times> group_cursor \<Rightarrow> project_cursor \<times> group_cursor" where
  "passes groups 0 cs = cs"
| "passes groups (Suc k) cs = serve_first groups (passes groups k cs)"

definition served :: "queueGroup list \<Rightarrow> project_cursor \<times> group_cursor \<Rightarrow> nat \<Rightarrow> queueGroup" where
  "served groups cs k = (case passes groups k cs of (pc, gc) \<Rightarrow> hd (fairGroupOrder groups pc gc))"

lemma hd_rounds:
  assumes "qs \<noteq> []" "hd qs \<noteq> []"
  shows "hd (rounds qs) = hd (hd qs)"
proof -
  from assms obtain x q qs' where qs: "qs = (x # q) # qs'"
    by (cases qs; cases "hd qs") auto
  show ?thesis unfolding qs by (subst rounds.simps) simp
qed

lemma hd_level_order:
  assumes "g \<in> set groups" "qg_effective g = p"
  shows "qg_effective (hd (level_order pc gc groups p)) = p"
    and "qg_project (hd (level_order pc gc groups p))
      = hd (rotateStrings (level_names (filter (\<lambda>g. qg_effective g = p) groups)) (pc p))"
proof -
  let ?b = "filter (\<lambda>g. qg_effective g = p) groups"
  let ?names = "rotateStrings (level_names ?b) (pc p)"
  have ne: "level_order pc gc groups p \<noteq> []"
    using assms set_level_order [of pc gc groups p] by (metis (mono_tags) empty_iff empty_set mem_Collect_eq)
  then have "hd (level_order pc gc groups p) \<in> set (level_order pc gc groups p)" by (rule hd_in_set)
  then show "qg_effective (hd (level_order pc gc groups p)) = p" by simp
  have "qg_project g \<in> set (level_names ?b)" using assms by auto
  then have "?names \<noteq> []" by (metis by_name.set_rot empty_iff empty_set)
  then have "hd ?names \<in> set (level_names ?b)" by (metis by_name.set_rot hd_in_set)
  then have q: "level_queue gc p ?b (hd ?names) \<noteq> []"
    using mset_level_queue [of gc p ?b "hd ?names"] by (auto simp: filter_empty_conv)
  then have "hd (level_order pc gc groups p) = hd (level_queue gc p ?b (hd ?names))"
    unfolding level_order_def Let_def using \<open>?names \<noteq> []\<close>
    by (subst hd_rounds) (simp_all add: hd_map)
  moreover have "hd (level_queue gc p ?b (hd ?names)) \<in> set (filter (\<lambda>g. qg_project g = hd ?names) ?b)"
    using q mset_eq_setD [OF mset_level_queue [of gc p ?b "hd ?names"]] by (metis hd_in_set)
  ultimately show "qg_project (hd (level_order pc gc groups p)) = hd ?names" by simp
qed

lemma hd_concat_first:
  assumes "x \<in> set xs" "f x \<noteq> []" "sorted_wrt R xs" "\<And>y. R y x \<Longrightarrow> f y = []"
  shows "hd (concat (map f xs)) = hd (f x)"
  using assms(1,3)
proof (induction xs)
  case (Cons y xs)
  show ?case
  proof (cases "y = x")
    case False
    then have "f y = []" using Cons.prems assms(4) by auto
    with False Cons show ?thesis by simp
  qed (use assms(2) in simp)
qed simp

text \<open>The first group of a pass has the highest priority, and its project follows the cursor.\<close>

lemma hd_fairGroupOrder:
  assumes "g \<in> set groups" "qg_effective g = p" "0 \<le> p" "p \<le> 10" "\<forall>x\<in>set groups. qg_effective x \<le> p"
  shows "hd (fairGroupOrder groups pc gc) = hd (level_order pc gc groups p)"
  unfolding fairGroupOrder_def
proof (rule hd_concat_first [where R = "(>)"])
  show "p \<in> set priorities" using assms by (simp add: set_priorities)
  show "level_order pc gc groups p \<noteq> []"
    using assms(1,2) set_level_order [of pc gc groups p] by (metis (mono_tags) empty_iff empty_set mem_Collect_eq)
  show "level_order pc gc groups y = []" if "y > p" for y
  proof -
    have "set (level_order pc gc groups y) = {}" using that assms(5) by auto
    then show ?thesis by (simp only: set_empty)
  qed
qed (simp add: priorities_def)

lemma rotateStrings_nth:
  assumes "sorted names" "distinct names" "i < length names" "names ! i \<noteq> []"
  shows "hd (rotateStrings names (names ! i)) = names ! (Suc i mod length names)"
proof -
  let ?P = "\<lambda>x. x \<le> names ! i"
  have tw: "takeWhile ?P names = take (Suc i) names"
  proof (rule takeWhile_eq_take_P_nth)
    show "names ! j \<le> names ! i" if "j < Suc i" "j < length names" for j
      using that assms by (simp add: sorted_iff_nth_mono less_Suc_eq_le)
    show "\<not> names ! Suc i \<le> names ! i" if "Suc i < length names"
      using that assms by (metis antisym_conv lessI less_imp_le nth_eq_iff_index_eq sorted_iff_nth_mono n_not_Suc_n assms(2))
  qed
  have "rotateStrings names (names ! i) = dropWhile ?P names @ takeWhile ?P names"
    using assms by (simp add: rotateStrings_eq takeWhile_sorted dropWhile_sorted)
  also have "\<dots> = drop (Suc i) names @ take (Suc i) names"
    using tw by (metis append_take_drop_id same_append_eq takeWhile_dropWhile_id)
  also have "\<dots> = rotate (Suc i) names"
    using assms(3) by (cases "Suc i = length names") (simp_all add: rotate_drop_take)
  finally have "hd (rotateStrings names (names ! i)) = hd (rotate (Suc i) names)" by (rule arg_cong)
  also have "\<dots> = names ! (Suc i mod length names)" using assms(3) by (intro hd_rotate_conv_nth) auto
  finally show ?thesis .
qed


lemma served_project:
  fixes groups p
  defines "names \<equiv> level_names (filter (\<lambda>g. qg_effective g = p) groups)"
  assumes top: "g \<in> set groups" "qg_effective g = p" "0 \<le> p" "p \<le> 10"
      "\<forall>x\<in>set groups. qg_effective x \<le> p"
  shows "qg_project (served groups cs 0) \<in> set names"
    and "qg_project (served groups cs (Suc k)) = hd (rotateStrings names (qg_project (served groups cs k)))"
proof -
  note head = hd_fairGroupOrder [OF top] and level = hd_level_order [OF top(1,2)]
  have pr: "qg_project (hd (fairGroupOrder groups pc gc)) = hd (rotateStrings names (pc p))"
    and ef: "qg_effective (hd (fairGroupOrder groups pc gc)) = p" for pc gc
    unfolding head by (simp_all add: level names_def)
  have "qg_project g \<in> set names" using top(1,2) by (auto simp: names_def)
  then have "names \<noteq> []" by auto
  then have "hd (rotateStrings names c) \<in> set names" for c
    by (metis by_name.length_rot by_name.set_rot hd_in_set length_0_conv)
  then show "qg_project (served groups cs 0) \<in> set names"
    by (simp add: served_def pr split: prod.split)
  show "qg_project (served groups cs (Suc k)) = hd (rotateStrings names (qg_project (served groups cs k)))"
    by (simp add: served_def serve_first_def pr ef Let_def split: prod.split)
qed

lemma served_every_project:
  assumes top: "g \<in> set groups" "qg_effective g = p" "0 \<le> p" "p \<le> 10"
      "\<forall>x\<in>set groups. qg_effective x \<le> p"
    and named: "\<forall>x\<in>set groups. qg_project x \<noteq> []"
  shows "\<exists>k < card (qg_project ` {x \<in> set groups. qg_effective x = p}).
    qg_project (served groups cs k) = qg_project g"
proof -
  let ?names = "level_names (filter (\<lambda>g. qg_effective g = p) groups)"
  let ?n = "length ?names"
  have card: "card (qg_project ` {x \<in> set groups. qg_effective x = p}) = ?n"
    using distinct_card [of ?names] by simp
  have ne: "m \<noteq> []" if "m \<in> set ?names" for m using that named by auto
  have "qg_project (served groups cs 0) \<in> set ?names" by (rule served_project(1) [OF top])
  then obtain i where i: "i < ?n" "qg_project (served groups cs 0) = ?names ! i"
    by (metis in_set_conv_nth)
  have step: "qg_project (served groups cs k) = ?names ! ((i + k) mod ?n)" for k
  proof (induction k)
    case (Suc k)
    have "(i + k) mod ?n < ?n" using i(1) by (intro mod_less_divisor) linarith
    then have "qg_project (served groups cs (Suc k)) = ?names ! (Suc ((i + k) mod ?n) mod ?n)"
      unfolding served_project(2) [OF top] Suc by (intro rotateStrings_nth ne nth_mem level_names_sorted)
    then show ?case by (simp add: mod_Suc_eq)
  qed (use i in simp)
  have "qg_project g \<in> set ?names" using top(1,2) by auto
  then obtain j where j: "j < ?n" "?names ! j = qg_project g" by (metis in_set_conv_nth)
  let ?k = "(j + ?n - i) mod ?n"
  have "(i + ?k) mod ?n = (i + (j + ?n - i)) mod ?n" by (rule mod_add_right_eq)
  also have "\<dots> = j" using i(1) j(1) by simp
  finally have "qg_project (served groups cs ?k) = qg_project g" using step [of ?k] j(2) by simp
  moreover have "?k < ?n" using i(1) by (intro mod_less_divisor) linarith
  ultimately show ?thesis unfolding card by blast
qed


section \<open>The choice of a worker\<close>

lemma Fresh_Some: "Fresh sig r n = Some s \<Longrightarrow> sig = Some s \<and> 0 \<le> WorkspacePrepareP50Ms s"
  by (cases sig) (auto simp: Fresh_def split: if_splits)

lemma percent_range:
  fixes a b :: int
  assumes "0 < b" "0 \<le> a" "a \<le> b"
  shows "0 \<le> a * 100 div b" "a * 100 div b \<le> 100"
proof -
  have "a * 100 div b \<le> b * 100 div b" using assms by (intro zdiv_mono1) auto
  then show "a * 100 div b \<le> 100" using assms by simp
qed (use assms in \<open>simp add: pos_imp_zdiv_nonneg_iff\<close>)

lemma prepare_score_range: "0 \<le> prepare_score s" "prepare_score s \<le> 100"
  using percent_range [of maxPrepareMS "maxPrepareMS - WorkspacePrepareP50Ms s"]
  by (auto simp: prepare_score_def maxPrepareMS_def)

lemma min_active_le:
  assumes "loads \<noteq> []"
  shows "\<forall>l\<in>set loads. min_active loads \<le> wl_active l" "\<exists>l\<in>set loads. wl_active l = min_active loads"
proof -
  have fold: "(\<forall>x\<in>set xs. foldl (\<lambda>m l. if wl_active l < m then wl_active l else m) m xs \<le> wl_active x)
      \<and> foldl (\<lambda>m l. if wl_active l < m then wl_active l else m) m xs \<le> m
      \<and> (foldl (\<lambda>m l. if wl_active l < m then wl_active l else m) m xs = m \<or>
         (\<exists>x\<in>set xs. foldl (\<lambda>m l. if wl_active l < m then wl_active l else m) m xs = wl_active x))"
    for m and xs :: "workerLoad list"
  proof (induction xs arbitrary: m)
    case (Cons x xs)
    show ?case using Cons [of "if wl_active x < m then wl_active x else m"]
      by (auto split: if_splits)
  qed simp
  obtain x xs where l: "loads = x # xs" using assms by (cases loads) auto
  show "\<forall>l\<in>set loads. min_active loads \<le> wl_active l" "\<exists>l\<in>set loads. wl_active l = min_active loads"
    using fold [of xs "wl_active x"] by (auto simp: l min_active_def)
qed

lemma selected_index_less: "ids \<noteq> [] \<Longrightarrow> selected_index ids cursor < length ids"
  by (auto simp: selected_index_def split: option.split dest: find_Some_iff_in)

text \<open>
  The least loaded choice: with every peer present, the result is one of the least loaded workers, and
  it is the first one behind the cursor, or the first one of all when none is behind it.
\<close>

lemma chooseLeastLoadedWorker_spec:
  assumes "loads \<noteq> []" "\<forall>l\<in>set loads. wl_peer l \<noteq> None"
  obtains w l where "chooseLeastLoadedWorker loads cursor = (Some w, w)"
    "l \<in> set loads" "wl_peer l = Some w" "\<forall>m\<in>set loads. wl_active l \<le> wl_active m"
proof -
  define e where "e = filter (\<lambda>l. wl_peer l \<noteq> None \<and> wl_active l = min_active loads) loads"
  define ids where "ids = map (the \<circ> wl_peer) (sort_key (the \<circ> wl_peer) e)"
  define w where "w = ids ! selected_index ids cursor"
  have e: "e \<noteq> []"
    unfolding e_def filter_empty_conv using min_active_le(2) [OF assms(1)] assms(2) by blast
  then have "length ids \<noteq> 0" by (simp add: ids_def)
  then have "w \<in> set ids" unfolding w_def by (intro nth_mem selected_index_less) simp
  then obtain l where "l \<in> set e" "w = the (wl_peer l)" by (auto simp: ids_def)
  then have l: "l \<in> set loads" "wl_active l = min_active loads" "wl_peer l = Some w" by (auto simp: e_def)
  have "chooseLeastLoadedWorker loads cursor = (Some w, w)"
    using assms(1) e unfolding chooseLeastLoadedWorker_def Let_def e_def [symmetric] ids_def [symmetric] w_def [symmetric]
    by simp
  moreover have "\<forall>m\<in>set loads. wl_active l \<le> wl_active m"
    using min_active_le(1) [OF assms(1)] unfolding l(2) .
  ultimately show ?thesis using that l by blast
qed

lemma load_key_le:
  "load_key l \<le> load_key m \<Longrightarrow>
   wl_score m \<le> wl_score l \<and> (wl_score m = wl_score l \<longrightarrow> wl_active l \<le> wl_active m)"
  by (auto simp: load_key_def)

lemma hd_sort_key_le:
  assumes "m \<in> set xs"
  shows "key (hd (sort_key key xs)) \<le> key m"
proof -
  have "m \<in> set (sort_key key xs)" using assms by simp
  then obtain y ys where ys: "sort_key key xs = y # ys" by (cases "sort_key key xs") auto
  moreover have "sorted (map key (sort_key key xs))" by simp
  ultimately show ?thesis using \<open>m \<in> set (sort_key key xs)\<close> by auto
qed

lemma chooseHighestScoredWorker_spec:
  assumes "loads \<noteq> []" "\<forall>l\<in>set loads. wl_peer l \<noteq> None"
  obtains w l where "chooseHighestScoredWorker loads cursor = (Some w, w)"
    "l \<in> set loads" "wl_peer l = Some w"
    "\<forall>m\<in>set loads. wl_score m \<le> wl_score l \<and> (wl_score m = wl_score l \<longrightarrow> wl_active l \<le> wl_active m)"
proof -
  define xs where "xs = sort_key load_key loads"
  define tied where
    "tied = takeWhile (\<lambda>c. wl_score c = wl_score (hd xs) \<and> wl_active c = wl_active (hd xs)) xs"
  have "length xs \<noteq> 0" using assms(1) by (simp add: xs_def)
  then have "tied \<noteq> []" unfolding tied_def by (cases xs) auto
  have tied: "l \<in> set loads \<and> wl_score l = wl_score (hd xs) \<and> wl_active l = wl_active (hd xs)" if "l \<in> set tied" for l
    using that unfolding tied_def by (auto simp: xs_def dest: set_takeWhileD)
  then have "\<forall>l\<in>set tied. wl_peer l \<noteq> None" using assms(2) by blast
  then obtain w l where w: "chooseLeastLoadedWorker tied cursor = (Some w, w)" "l \<in> set tied" "wl_peer l = Some w"
    using chooseLeastLoadedWorker_spec [OF \<open>tied \<noteq> []\<close>, of cursor] by metis
  have "wl_score m \<le> wl_score l \<and> (wl_score m = wl_score l \<longrightarrow> wl_active l \<le> wl_active m)"
    if "m \<in> set loads" for m
    using load_key_le [OF hd_sort_key_le [OF that, of load_key]] tied [OF w(2)] unfolding xs_def by simp
  moreover have "chooseHighestScoredWorker loads cursor = (Some w, w)"
    using w(1) assms(1)
    unfolding chooseHighestScoredWorker_def Let_def xs_def [symmetric] tied_def [symmetric] by simp
  ultimately show ?thesis using that w(3) tied [OF w(2)] by blast
qed


lemma filter_concat_level:
  assumes "distinct ps" "\<And>p x. x \<in> set (f p) \<Longrightarrow> key x = p"
  shows "filter (\<lambda>x. key x = q) (concat (map f ps)) = (if q \<in> set ps then f q else [])"
  using assms(1)
proof (induction ps)
  case (Cons p ps)
  have "filter (\<lambda>x. key x = q) (f p) = (if p = q then f p else [])"
    using assms(2) [of _ p] by (auto simp: filter_empty_conv filter_id_conv)
  then show ?case using Cons by auto
qed simp

lemma pass_level_fair:
  fixes groups pc gc p
  defines "level \<equiv> filter (\<lambda>g. qg_effective g = p) (fairGroupOrder groups pc gc)"
  shows "turns a (take k level) \<le> turns b (take k level) + 1 \<or> turns b (take k level) = turns b level"
proof -
  have "level = (if p \<in> set priorities then level_order pc gc groups p else [])"
    unfolding level_def fairGroupOrder_def by (rule filter_concat_level) (auto simp: priorities_def)
  then show ?thesis using level_order_fair [of a k pc gc groups p b] by (simp add: turns_def)
qed

section \<open>Properties of the scheduler\<close>

lemma effectivePriority_wraps: "effectivePriority 5 1 (1 + 1000 * 2 ^ 31) 1000 = 5 - 2 ^ 31"
  by (simp add: effectivePriority_def clampPriority_def int32_def Let_def)

lemma effectivePriority_mono:
  assumes "(n' - q) div a < 2 ^ 31" "n \<le> n'"
  shows "clampPriority b \<le> effectivePriority b q n a"
    and "effectivePriority b q n a \<le> effectivePriority b q n' a"
proof -
  have d: "(n - q) div a \<le> (n' - q) div a" if "0 < a" using assms(2) that by (intro zdiv_mono1) auto
  have e': "effectivePriority b q n' a = (
      if a \<le> 0 \<or> q \<le> 0 \<or> n' \<le> q then clampPriority b else min 10 (clampPriority b + (n' - q) div a))"
    by (rule effectivePriority_eq [OF assms(1)])
  have e: "effectivePriority b q n a = (
      if a \<le> 0 \<or> q \<le> 0 \<or> n \<le> q then clampPriority b else min 10 (clampPriority b + (n - q) div a))"
  proof (cases "0 < a")
    case True
    then show ?thesis using d assms(1) by (intro effectivePriority_eq) simp
  qed (simp add: effectivePriority_def Let_def)
  have nn: "0 \<le> (n - q) div a" "0 \<le> (n' - q) div a" if "0 < a" "q < n"
    using that assms(2) by (simp_all add: pos_imp_zdiv_nonneg_iff)
  have nn': "0 \<le> (n' - q) div a" if "0 < a" "q < n'"
    using that by (simp add: pos_imp_zdiv_nonneg_iff)
  show "clampPriority b \<le> effectivePriority b q n a"
    unfolding e using nn clampPriority_range(2) [of b] by (auto simp: not_le)
  show "effectivePriority b q n a \<le> effectivePriority b q n' a"
    unfolding e e' using d nn' assms(2) clampPriority_range(2) [of b] by (auto simp: not_le)
qed

lemma effectivePriority_top:
  assumes "(n - q) div a < 2 ^ 31" "0 < a" "0 < q" "q < n" "q + (10 - clampPriority b) * a \<le> n"
  shows "effectivePriority b q n a = 10"
proof -
  have "(10 - clampPriority b) * a div a \<le> (n - q) div a" using assms by (intro zdiv_mono1) auto
  then show ?thesis using assms by (simp add: effectivePriority_eq)
qed

text \<open>C31: Aging. As long as a task has waited for fewer than \<open>2 ^ 31\<close> aging periods, the effective priority
  is never below the clamped base priority, never decreases while time passes, never exceeds 10, and
  is 10 as soon as the task has waited for one period per missing priority level.\<close>

theorem aging_raises_to_maximum:
  assumes "(now' - queuedAt) div agingMS < 2 ^ 31" "now \<le> now'"
  shows "clampPriority base \<le> effectivePriority base queuedAt now agingMS
    \<and> effectivePriority base queuedAt now agingMS \<le> effectivePriority base queuedAt now' agingMS
    \<and> effectivePriority base queuedAt now' agingMS \<le> 10
    \<and> (0 < agingMS \<and> 0 < queuedAt \<and> queuedAt < now' \<and> queuedAt + (10 - clampPriority base) * agingMS \<le> now'
        \<longrightarrow> effectivePriority base queuedAt now' agingMS = 10)"
  using effectivePriority_mono [OF assms] effectivePriority_le effectivePriority_top [OF assms(1)] by simp

theorem aging_raises_to_maximum_witness:
  "effectivePriority 3 1000 2101000 300000 = 10 \<and> effectivePriority 3 1000 301000 300000 = 4
    \<and> (clampPriority 3 \<le> effectivePriority 3 1000 301000 300000
      \<and> effectivePriority 3 1000 301000 300000 \<le> effectivePriority 3 1000 2101000 300000)"
proof (intro conjI)
  note w = aging_raises_to_maximum [of 2101000 1000 300000 301000 3]
  show "effectivePriority 3 1000 2101000 300000 = 10"
    using w by (simp add: clampPriority_def Let_def)
  show "clampPriority 3 \<le> effectivePriority 3 1000 301000 300000"
    "effectivePriority 3 1000 301000 300000 \<le> effectivePriority 3 1000 2101000 300000"
    using w by simp_all
  show "effectivePriority 3 1000 301000 300000 = 4"
    by (simp add: effectivePriority_def clampPriority_def int32_def Let_def)
qed

text \<open>One pass. The order of a scheduling pass offers every group whose effective priority is within
  0 to 10 exactly once, higher priorities first; among the groups of one priority, after any number of
  turns no project has had more than one turn more than another project that still has groups left.\<close>

theorem pass_is_fair:
  "mset (fairGroupOrder groups projectCursor groupCursor)
      = mset (filter (\<lambda>g. 0 \<le> qg_effective g \<and> qg_effective g \<le> 10) groups)
    \<and> sorted_wrt (\<lambda>x y. qg_effective x \<ge> qg_effective y) (fairGroupOrder groups projectCursor groupCursor)
    \<and> (let level = filter (\<lambda>g. qg_effective g = priority) (fairGroupOrder groups projectCursor groupCursor)
       in turns a (take k level) \<le> turns b (take k level) + 1 \<or> turns b (take k level) = turns b level)"
  using mset_fairGroupOrder fairGroupOrder_sorted pass_level_fair by (simp add: Let_def)


definition example_groups :: "queueGroup list" where
  "example_groups = [
    \<lparr>qg_project = ''a'', qg_group = ''j1'', qg_base = 5, qg_effective = 5, qg_oldest = 10\<rparr>,
    \<lparr>qg_project = ''a'', qg_group = ''j2'', qg_base = 5, qg_effective = 5, qg_oldest = 20\<rparr>,
    \<lparr>qg_project = ''b'', qg_group = ''j3'', qg_base = 5, qg_effective = 5, qg_oldest = 90\<rparr>]"


text \<open>The choice of a worker. From a non-empty list of connected candidates the scored choice names a
  candidate with the highest score and, among those, the lowest load; the unscored choice names one
  with the lowest load; both remember the chosen worker as the new cursor.\<close>

theorem chosen_worker_is_best:
  assumes "loads \<noteq> []" "\<forall>l\<in>set loads. wl_peer l \<noteq> None"
  shows "(\<exists>l\<in>set loads. \<exists>w. wl_peer l = Some w \<and> chooseHighestScoredWorker loads cursor = (Some w, w)
      \<and> (\<forall>m\<in>set loads. wl_score m \<le> wl_score l \<and> (wl_score m = wl_score l \<longrightarrow> wl_active l \<le> wl_active m)))
    \<and> (\<exists>l\<in>set loads. \<exists>w. wl_peer l = Some w \<and> chooseLeastLoadedWorker loads cursor = (Some w, w)
      \<and> (\<forall>m\<in>set loads. wl_active l \<le> wl_active m))"
proof -
  obtain w l where "chooseHighestScoredWorker loads cursor = (Some w, w)" "l \<in> set loads" "wl_peer l = Some w"
      "\<forall>m\<in>set loads. wl_score m \<le> wl_score l \<and> (wl_score m = wl_score l \<longrightarrow> wl_active l \<le> wl_active m)"
    by (rule chooseHighestScoredWorker_spec [OF assms])
  moreover obtain w' l' where "chooseLeastLoadedWorker loads cursor = (Some w', w')" "l' \<in> set loads"
      "wl_peer l' = Some w'" "\<forall>m\<in>set loads. wl_active l' \<le> wl_active m"
    by (rule chooseLeastLoadedWorker_spec [OF assms])
  ultimately show ?thesis by blast
qed

definition example_loads :: "workerLoad list" where
  "example_loads = [
    \<lparr>wl_peer = Some ''w1'', wl_active = 2, wl_score = 40\<rparr>,
    \<lparr>wl_peer = Some ''w2'', wl_active = 1, wl_score = 40\<rparr>,
    \<lparr>wl_peer = Some ''w3'', wl_active = 0, wl_score = 15\<rparr>]"

theorem chosen_worker_is_best_witness:
  "(\<exists>l\<in>set example_loads. \<exists>w. wl_peer l = Some w
      \<and> chooseHighestScoredWorker example_loads [] = (Some w, w)
      \<and> (\<forall>m\<in>set example_loads. wl_score m \<le> wl_score l
          \<and> (wl_score m = wl_score l \<longrightarrow> wl_active l \<le> wl_active m)))
    \<and> chooseHighestScoredWorker example_loads [] = (Some ''w2'', ''w2'')
    \<and> chooseLeastLoadedWorker example_loads [] = (Some ''w3'', ''w3'')"
proof (intro conjI)
  show "\<exists>l\<in>set example_loads. \<exists>w. wl_peer l = Some w
      \<and> chooseHighestScoredWorker example_loads [] = (Some w, w)
      \<and> (\<forall>m\<in>set example_loads. wl_score m \<le> wl_score l
          \<and> (wl_score m = wl_score l \<longrightarrow> wl_active l \<le> wl_active m))"
    using chosen_worker_is_best [of example_loads "[]"] by (simp add: example_loads_def)
qed (simp_all add: example_loads_def chooseHighestScoredWorker_def chooseLeastLoadedWorker_def load_key_def
      min_active_def selected_index_def Let_def)

end
