(* ===== verification/Task_Assign.thy ===== *)
theory Task_Assign
  imports Task_Report Scheduler
begin

text \<open>
  How a task enters the queue and how it is given to a worker (\<open>internal/server/tasks.go\<close>, \<open>job_schedule.go\<close>,
  \<open>public_execution.go\<close>, \<open>readiness.go\<close>, \<open>gateway.go\<close>, \<open>assign\<close> in \<open>server.go\<close>): submission and cancellation of a
  task, the fit of a worker, the assignment with its checks in the order of the code, and one pass of the
  scheduler over the fair order of theory \<open>Scheduler\<close>.

  \<open>encq\<close> and \<open>encc\<close> are the protobuf texts of a task request and of a cancellation. The description of a graph
  node for its worker (\<open>assignmentGraph\<close>) is the argument \<open>gx\<close>.
\<close>

section \<open>Access to a task\<close>

definition authorizedOwner :: "Principal option \<Rightarrow> string \<Rightarrow> ControlDB \<Rightarrow> TaskRow result" where
  "authorizedOwner ctx task db =
    rbind (User ctx) (\<lambda>p.
    rbind (map_error dbErr (select_row (\<lambda>t. t_id t = task) (ct_tasks db))) (\<lambda>t.
    if t_owner t \<noteq> pr_Owner p \<or> ts_ProjectId (t_spec t) \<notin> set (id_Projects (pr_Identity p))
    then Inl (Status ''NotFound'' ''not found'') else Inr t))"

definition taskJobReadScope :: "Principal option \<Rightarrow> string \<Rightarrow> ControlDB \<Rightarrow> unit result" where
  "taskJobReadScope ctx task db =
    rbind (User ctx) (\<lambda>p.
    if id_Scopes (pr_Identity p) = [] then Inr ()
    else rbind (Require ctx (if managed task db then ''jobs:read'' else ''tasks:read'') False) (\<lambda>_. Inr ()))"

definition authorized :: "Principal option \<Rightarrow> string \<Rightarrow> ControlDB \<Rightarrow> TaskRow result" where
  "authorized ctx task db =
    rbind (authorizedOwner ctx task db) (\<lambda>t. rbind (taskJobReadScope ctx task db) (\<lambda>_. Inr t))"

definition GetTask :: "Principal option \<Rightarrow> string \<Rightarrow> ControlDB \<Rightarrow> TaskRow result" where
  "GetTask ctx task db = authorized ctx task db"

section \<open>Submission\<close>

text \<open>\<open>tq_HasInput\<close> and \<open>tq_HasWorkspace\<close> say whether the message fields are present.\<close>

record TaskRequest = TaskSpec +
  tq_HasInput :: bool
  tq_HasWorkspace :: bool
  tq_SessionRef :: string
  tq_ProviderRef :: string

definition any_hex :: "char \<Rightarrow> bool" where
  "any_hex c \<longleftrightarrow> lower_hex c \<or> c \<in> set ''ABCDEF''"

definition task_commitRE :: "string \<Rightarrow> bool" where
  "task_commitRE s \<longleftrightarrow> (length s = 40 \<or> length s = 64) \<and> list_all any_hex s"

definition capabilityNameRE :: "string \<Rightarrow> bool" where
  "capabilityNameRE s = name_pattern ''_.-'' s"

definition validRequiredCapability :: "string \<Rightarrow> bool" where
  "validRequiredCapability v = (
    if v = ''event_stream'' \<or> v = ''cancel'' then True
    else
      let namespace = takeWhile (\<lambda>c. c \<noteq> CHR '':'') v; rest = dropWhile (\<lambda>c. c \<noteq> CHR '':'') v in
      rest \<noteq> [] \<and> capabilityNameRE (tl rest)
        \<and> (namespace = ''runtime'' \<or> namespace = ''tool'' \<or> namespace = ''environment''))"

fun capabilities_ok :: "string list \<Rightarrow> string list \<Rightarrow> unit result" where
  "capabilities_ok seen [] = Inr ()"
| "capabilities_ok seen (c # cs) = (
    if \<not> validRequiredCapability c \<or> c \<in> set seen
    then Inl (Status ''FailedPrecondition'' (''unsupported or duplicate capability: '' @ c))
    else capabilities_ok (c # seen) cs)"

definition default_profile :: "TaskRequest \<Rightarrow> TaskRequest" where
  "default_profile r = (if ts_RuntimeProfile r = [] then r\<lparr>ts_RuntimeProfile := LegacyRuntimeProfile (ts_Engine r)\<rparr> else r)"

definition default_isolation :: "TaskRequest \<Rightarrow> TaskRequest" where
  "default_isolation r = (if ts_IsolationProfile r = [] then r\<lparr>ts_IsolationProfile := ''trusted-worktree-process''\<rparr> else r)"

definition default_model :: "ServerConfig \<Rightarrow> TaskRequest \<Rightarrow> TaskRequest" where
  "default_model cfg r = (if ts_Model r = [] then r\<lparr>ts_Model := map_get (cf_Models cfg) (ts_RuntimeProfile r)\<rparr> else r)"

definition default_timeout :: "TaskRequest \<Rightarrow> TaskRequest" where
  "default_timeout r = (if ts_TimeoutSeconds r = 0 then r\<lparr>ts_TimeoutSeconds := 1800\<rparr> else r)"

definition request_fields_ok :: "TaskRequest \<Rightarrow> bool" where
  "request_fields_ok r \<longleftrightarrow> ts_IdempotencyKey r \<noteq> [] \<and> length (ts_IdempotencyKey r) \<le> 200 \<and> tq_HasInput r
    \<and> length (ts_InputText r) \<noteq> 0 \<and> length (ts_InputText r) \<le> 2 ^ 20 \<and> tq_HasWorkspace r
    \<and> ts_RepositoryRef r \<noteq> [] \<and> task_commitRE (ts_BaseCommit r)"

definition validate_execution :: "TaskRequest \<Rightarrow> TaskRequest result" where
  "validate_execution r0 = (
    let r = default_profile r0 in
    if \<not> Ref (ts_RuntimeProfile r) \<or> ts_Engine r \<noteq> [] \<and> LegacyRuntimeProfile (ts_Engine r) \<noteq> ts_RuntimeProfile r
    then Inl (Status ''FailedPrecondition'' ''unsupported runtime'')
    else if tq_SessionRef r \<noteq> [] \<or> tq_ProviderRef r \<noteq> []
    then Inl (Status ''FailedPrecondition'' ''session resume and provider override not enabled in v0.1'')
    else if length (ts_RequiredCapabilities r) > 32 then Inl (Status ''InvalidArgument'' ''too many required capabilities'')
    else rbind (capabilities_ok [] (ts_RequiredCapabilities r)) (\<lambda>_. Inr (default_isolation r)))"

definition validate_policy :: "ServerConfig \<Rightarrow> TaskRequest \<Rightarrow> TaskRequest result" where
  "validate_policy cfg r0 = (
    if ts_IsolationProfile r0 \<noteq> ''trusted-worktree-process''
    then Inl (Status ''FailedPrecondition'' ''only trusted process execution implemented'')
    else if ts_PolicyRef r0 = [] \<or> ts_AcceptanceProfile r0 = []
    then Inl (Status ''InvalidArgument'' ''policy_ref and acceptance_profile required'')
    else
      let r = default_model cfg r0 in
      if ts_Model r = [] \<or> prefix ''-'' (ts_Model r)
      then Inl (Status ''InvalidArgument'' ''explicit model or configured model default required'')
      else if credential_slots cfg (ts_CredentialRef r) < 1 then Inl (Status ''InvalidArgument'' ''unknown credential'')
      else
        let r' = default_timeout r in
        if ts_TimeoutSeconds r' < 1 \<or> ts_TimeoutSeconds r' > 86400 \<or> ts_Priority r' < 0 \<or> ts_Priority r' > 10
        then Inl (Status ''InvalidArgument'' ''invalid timeout or priority'') else Inr r')"

definition validate_task :: "ServerConfig \<Rightarrow> Principal \<Rightarrow> TaskRequest \<Rightarrow> TaskRequest result" where
  "validate_task cfg p r = (
    if cf_Maintenance cfg then Inl (Status ''Unavailable'' ''maintenance mode'')
    else if prefix ''__job/'' (ts_IdempotencyKey r) then Inl (Status ''InvalidArgument'' ''reserved idempotency prefix'')
    else if ts_ProjectId r \<notin> set (id_Projects (pr_Identity p)) \<or> ts_CredentialRef r \<notin> set (id_Credentials (pr_Identity p))
    then Inl (Status ''PermissionDenied'' ''project or credential not allowed'')
    else if \<not> request_fields_ok r
    then Inl (Status ''InvalidArgument'' ''idempotency_key, input and repository with fixed commit required'')
    else rbind (validate_execution r) (validate_policy cfg))"

text \<open>
  The keys of \<open>tasks\<close>: the identifier, (owner, project, idem), and (job, stage, partition) for tasks of a job. The job of
  a task is a foreign key.
\<close>

definition task_conflict :: "TaskRow \<Rightarrow> TaskRow \<Rightarrow> bool" where
  "task_conflict r x \<longleftrightarrow> t_id r = t_id x \<or> t_owner r = t_owner x \<and> t_project r = t_project x \<and> t_idem r = t_idem x
    \<or> t_job r \<noteq> None \<and> t_job r = t_job x \<and> t_stage r = t_stage x \<and> t_partition r = t_partition x"

definition new_task :: "string \<Rightarrow> string \<Rightarrow> string \<Rightarrow> string \<Rightarrow> string \<Rightarrow> TaskSpec \<Rightarrow> int \<Rightarrow> int \<Rightarrow> TaskRow" where
  "new_task tid owner project idem hash spec deadline now = \<lparr>t_id = tid, t_owner = owner, t_project = project, t_idem = idem,
    t_hash = hash, t_spec = spec, t_state = ''QUEUED'', t_attempt = [], t_worker = [], t_created = now, t_updated = now, t_seq = 0,
    t_error_code = [], t_error_message = [], t_result = [], t_native_session = [], t_blocker = [], t_priority = ts_Priority spec,
    t_deadline = deadline, t_job = None, t_stage = [], t_partition = [], t_stage_id = None, t_generation = 0, t_retry_after = 0,
    t_event_floor = 0\<rparr>"

definition job_known :: "string option \<Rightarrow> ControlDB \<Rightarrow> bool" where
  "job_known oj db = (case oj of None \<Rightarrow> True | Some jid \<Rightarrow> list_ex (\<lambda>j. j_id j = jid) (ct_jobs db))"

definition insert_task :: "(TaskEvent \<Rightarrow> string) \<Rightarrow> TaskRow \<Rightarrow> int \<Rightarrow> ControlDB \<Rightarrow> ControlDB result" where
  "insert_task enc t now db = (
    if \<not> job_known (t_job t) db \<or> t_stage t \<notin> {[], ''single'', ''map'', ''reduce''} then Inl Sql_constraint
    else rbind (insert_row task_conflict t (ct_tasks db)) (\<lambda>rows.
      appendEvent enc (server_event (t_id t) [] 0 ''task.state_changed'' (JObj [(''to'', JStr ''QUEUED'')])) None now
        (db\<lparr>ct_tasks := rows\<rparr>)))"

definition submit_tx ::
  "(TaskEvent \<Rightarrow> string) \<Rightarrow> ServerConfig \<Rightarrow> Principal \<Rightarrow> TaskRequest \<Rightarrow> string \<Rightarrow> string \<Rightarrow> int \<Rightarrow> (ControlDB, string \<times> bool) tx" where
  "submit_tx enc cfg p r hash tid now db = (
    case List.find (\<lambda>t. t_owner t = pr_Owner p \<and> t_project t = ts_ProjectId r \<and> t_idem t = ts_IdempotencyKey r) (ct_tasks db) of
      Some old \<Rightarrow>
        if t_hash old \<noteq> hash then Inl (Status ''AlreadyExists'' ''IDEMPOTENCY_CONFLICT'') else Inr ((t_id old, True), db)
    | None \<Rightarrow>
        rbind (checkQueueAdmission cfg (ts_ProjectId r) 1 db) (\<lambda>_.
        rbind (insert_task enc (new_task tid (pr_Owner p) (ts_ProjectId r) (ts_IdempotencyKey r) hash (TaskSpec.truncate r)
          (now + ts_TimeoutSeconds r * 1000) now) now db) (\<lambda>db'. Inr ((tid, False), db'))))"

definition SubmitTask ::
  "(TaskEvent \<Rightarrow> string) \<Rightarrow> (TaskRequest \<Rightarrow> string) \<Rightarrow> ServerConfig \<Rightarrow> Principal option \<Rightarrow> TaskRequest \<Rightarrow> string \<Rightarrow> int \<Rightarrow> ControlDB \<Rightarrow>
   (TaskRow \<times> bool) result \<times> ControlDB" where
  "SubmitTask enc encq cfg ctx req tid now db = (
    case rbind (Require ctx ''tasks:submit'' True) (\<lambda>p. rbind (validate_task cfg p req) (\<lambda>r. Inr (p, r))) of
      Inl e \<Rightarrow> (Inl e, db)
    | Inr (p, r) \<Rightarrow>
        (case db_Tx (submit_tx enc cfg p r (Hash (encq r)) tid now) db of
           (Inl e, db1) \<Rightarrow> (Inl (dbErr e), db1)
         | (Inr (i, existing), db1) \<Rightarrow>
             (rbind (map_error dbErr (select_row (\<lambda>t. t_id t = i) (ct_tasks db1))) (\<lambda>t. Inr (t, existing)), db1)))"

section \<open>Cancellation\<close>

record CancelRequest =
  ca_TaskId :: string
  ca_ControlId :: string
  ca_Reason :: string

definition cancel_tx :: "(TaskEvent \<Rightarrow> string) \<Rightarrow> string \<Rightarrow> CancelRequest \<Rightarrow> string \<Rightarrow> int \<Rightarrow> ControlDB \<Rightarrow> ControlDB result" where
  "cancel_tx enc hash r cid now db = (
    case List.find (\<lambda>x. cl_task x = ca_TaskId r \<and> cl_id x = ca_ControlId r) (ct_controls db) of
      Some old \<Rightarrow> if cl_hash old \<noteq> hash then Inl (Status ''AlreadyExists'' ''IDEMPOTENCY_CONFLICT'') else Inr db
    | None \<Rightarrow>
        let db1 = db\<lparr>ct_controls := ct_controls db @ [\<lparr>cl_task = ca_TaskId r, cl_id = ca_ControlId r, cl_hash = hash\<rparr>]\<rparr> in
        rbind (select_row (\<lambda>t. t_id t = ca_TaskId r) (ct_tasks db1)) (\<lambda>t.
        if job_terminal (t_state t) then Inr db1
        else if t_attempt t = [] then setState enc (t_id t) ''CANCELED'' [] [] now db1
        else rbind (setState enc (t_id t) ''CANCELING'' [] [] now db1) (stopCommand cid t)))"

definition CancelTask ::
  "(TaskEvent \<Rightarrow> string) \<Rightarrow> (CancelRequest \<Rightarrow> string) \<Rightarrow> Principal option \<Rightarrow> CancelRequest \<Rightarrow> string \<Rightarrow> int \<Rightarrow> ControlDB \<Rightarrow>
   TaskRow result \<times> ControlDB" where
  "CancelTask enc encc ctx r cid now db = (
    case rbind (Require ctx ''tasks:cancel'' True) (\<lambda>_.
      if ca_ControlId r = [] \<or> length (ca_Reason r) > 1000
      then Inl (Status ''InvalidArgument'' ''control_id required and reason must be bounded'')
      else rbind (authorizedOwner ctx (ca_TaskId r) db) (\<lambda>_.
        if managed (ca_TaskId r) db then Inl (Status ''FailedPrecondition'' ''MANAGED_JOB_TASK'') else Inr ())) of
      Inl e \<Rightarrow> (Inl e, db)
    | Inr _ \<Rightarrow>
        (case cancel_tx enc (Hash (encc r)) r cid now db of Inl e \<Rightarrow> (Inl (dbErr e), db)
         | Inr db' \<Rightarrow> (authorizedOwner ctx (ca_TaskId r) db', db')))"

section \<open>The fit of a worker\<close>

record Runtime =
  ru_Profile :: string
  ru_Models :: "string list"
  ru_Credentials :: "string list"
  ru_Capabilities :: "string list"
  ru_Repositories :: "string list"
  ru_Policies :: "string list"
  ru_Verifiers :: "string list"
  ru_TemplateDigests :: "(string \<times> string) list"

record session =
  ss_WorkerId :: string
  ss_Epoch :: string
  ss_Slots :: int
  ss_Runtimes :: "Runtime list"
  ss_Projects :: "string list"
  ss_Readiness :: "ExecutionSignal option"
  ss_ReadinessReceived :: int

definition runtime_serves :: "Runtime \<Rightarrow> TaskSpec \<Rightarrow> bool" where
  "runtime_serves r s \<longleftrightarrow> ru_Profile r = ts_RuntimeProfile s \<and> ts_Model s \<in> set (ru_Models r)
    \<and> ts_CredentialRef s \<in> set (ru_Credentials r) \<and> ts_RepositoryRef s \<in> set (ru_Repositories r)
    \<and> ts_PolicyRef s \<in> set (ru_Policies r) \<and> ts_AcceptanceProfile s \<in> set (ru_Verifiers r)"

definition fitsWithCapabilities :: "session \<Rightarrow> TaskSpec \<Rightarrow> string list \<Rightarrow> bool" where
  "fitsWithCapabilities p s additional \<longleftrightarrow> ts_ProjectId s \<in> set (ss_Projects p)
    \<and> list_ex (\<lambda>r. runtime_serves r s \<and> list_all (\<lambda>c. c \<in> set (ru_Capabilities r)) (ts_RequiredCapabilities s @ additional)) (ss_Runtimes p)"

definition fits :: "session \<Rightarrow> TaskSpec \<Rightarrow> bool" where
  "fits p s = fitsWithCapabilities p s []"

definition fitsJob :: "session \<Rightarrow> TaskSpec \<Rightarrow> JobExecution \<Rightarrow> bool" where
  "fitsJob p s jc = (
    let key = TemplateKey (profile_execution (ts_RuntimeProfile s) (ts_PolicyRef s) (ts_AcceptanceProfile s)) in
    list_ex (\<lambda>r. ru_Profile r = ts_RuntimeProfile s \<and> map_get (ru_TemplateDigests r) key = jx_TemplateDigest jc) (ss_Runtimes p))"

text \<open>\<open>environment.RequiredName\<close>: the one environment asked for, or the empty name for two different ones.\<close>

definition RequiredName :: "string list \<Rightarrow> string" where
  "RequiredName required = (
    let names = map (drop (length environment_prefix)) (filter (prefix environment_prefix) required) in
    case dropWhile (\<lambda>n. n = []) names of [] \<Rightarrow> ''process''
    | n # rest \<Rightarrow> if list_ex (\<lambda>v. v \<noteq> n) rest then [] else n)"

definition route_metered :: "ModelRoute \<Rightarrow> string \<Rightarrow> bool" where
  "route_metered r model \<longleftrightarrow> mo_BaseURL r \<noteq> [] \<and> mo_Backend r \<noteq> ''codex_cli'' \<and> model \<in> set (mo_AllowedModels r)
    \<and> mo_MaxAttemptTokens r \<ge> 1 \<and> mo_MaxAttemptCostMicros r \<ge> 1
    \<and> mo_InputCostPerMillionTokensMicros r \<ge> 1 \<and> mo_OutputCostPerMillionTokensMicros r \<ge> 1"

definition publicExecutionRequirements :: "ServerConfig \<Rightarrow> TaskSpec \<Rightarrow> string list option" where
  "publicExecutionRequirements cfg s = (
    if cf_PublicExecutionMode cfg \<noteq> ''isolated_only'' then Some []
    else
      let name = map_get (cf_CredentialRoutes cfg) (ts_CredentialRef s); route = gateway_route cfg name in
      if RequiredName (ts_RequiredCapabilities s) \<noteq> ''container'' \<or> \<not> cf_GatewayEnabled cfg
        \<or> cf_GatewayPublicBaseURL cfg = [] \<or> name = [] then None
      else if \<not> route_metered route (ts_Model s) then None
      else if ts_RuntimeProfile s = ''codex_http'' \<and> mo_Backend route \<noteq> ''anthropic_messages''
      then Some [''environment:container'', ''gateway_inference_v1'']
      else if ts_RuntimeProfile s = ''claude_http'' \<and> mo_Backend route = ''anthropic_messages''
      then Some [''environment:container'', ''gateway_anthropic_messages_v1'']
      else None)"

section \<open>The job of an assignment\<close>

definition plan_assignment :: "ServerConfig \<Rightarrow> ExecJobRow \<Rightarrow> TaskRow \<Rightarrow> JobExecution result" where
  "plan_assignment cfg j t = (
    let s = j_spec j;
        jc = \<lparr>jx_JobId = j_id j, jx_Stage = t_stage t, jx_PartitionKey = t_partition t, jx_ScopePaths = [], jx_Strategy = [],
          jx_TemplateDigest = [], jx_InputManifest = None, jx_InputManifestSha256 = [],
          jx_InputLimitBytes = cf_MaxReduceInputBytes cfg, jx_GraphExecution = None\<rparr>;
        digest = (\<lambda>ex. map_get (j_digests j) (TemplateKey ex)) in
    if t_stage t = ''single'' then
      (case sp_Execution s of None \<Rightarrow> Inl (Error ''nil pointer dereference'')
       | Some ex \<Rightarrow> Inr (jc\<lparr>jx_TemplateDigest := digest ex\<rparr>))
    else case sp_Reduce s of None \<Rightarrow> Inl (Error ''nil pointer dereference'')
    | Some rd \<Rightarrow>
        let jc1 = jc\<lparr>jx_Strategy := rd_Strategy rd\<rparr> in
        if t_stage t = ''reduce'' then
          Inr (jc1\<lparr>jx_InputManifest := j_manifest j, jx_InputManifestSha256 := j_manifest_hash j,
            jx_TemplateDigest := digest (rd_Execution rd)\<rparr>)
        else case sp_Map s of None \<Rightarrow> Inl (Error ''nil pointer dereference'')
        | Some m \<Rightarrow>
            (case List.find (\<lambda>p. pt_Key p = t_partition t) (mp_Partitions m) of None \<Rightarrow> Inl (Error ''unknown partition'')
             | Some p \<Rightarrow> Inr (jc1\<lparr>jx_ScopePaths := pt_ScopePaths p, jx_TemplateDigest := digest (pt_Execution p)\<rparr>)))"

type_synonym graph_assignment = "ExecJobRow \<Rightarrow> string \<Rightarrow> string \<Rightarrow> ControlDB \<Rightarrow> JobExecution result"

definition assignmentJob ::
  "graph_assignment \<Rightarrow> ServerConfig \<Rightarrow> string \<Rightarrow> ControlDB \<Rightarrow> (JobExecution \<times> ExecJobRow) option result" where
  "assignmentJob gx cfg task db =
    rbind (select_row (\<lambda>t. t_id t = task) (ct_tasks db)) (\<lambda>t.
    case t_job t of None \<Rightarrow> Inr None
    | Some jid \<Rightarrow>
        rbind (readJob jid db) (\<lambda>j.
        rbind (if j_graph j \<noteq> None then gx j task (t_partition t) db else plan_assignment cfg j t) (\<lambda>jc. Inr (Some (jc, j)))))"

section \<open>Candidates\<close>

definition stale_worker :: "ServerConfig \<Rightarrow> int \<Rightarrow> WorkerRow \<Rightarrow> bool" where
  "stale_worker cfg now w \<longleftrightarrow> now - wk_seen w > cf_LeaseSeconds cfg * 1000"

definition active_on :: "string \<Rightarrow> ControlDB \<Rightarrow> int" where
  "active_on worker db = int (count_where (\<lambda>a. a_worker a = worker \<and> \<not> a_released a) (ct_attempts db))"

text \<open>Why a connected worker is or is not a candidate for a task.\<close>

definition candidate_reason ::
  "ServerConfig \<Rightarrow> TaskSpec \<Rightarrow> JobExecution option \<Rightarrow> string list \<Rightarrow> string list \<Rightarrow> int \<Rightarrow> ControlDB \<Rightarrow> session \<Rightarrow> string result" where
  "candidate_reason cfg s jc budgetCaps publicCaps now db p =
    rbind (select_row (\<lambda>w. wk_id w = ss_WorkerId p) (ct_workers db)) (\<lambda>w.
    Inr (if stale_worker cfg now w then ''STALE_WORKER''
      else if \<not> (fits p s \<and> (case jc of None \<Rightarrow> True | Some x \<Rightarrow> fitsJob p s x)) \<or> \<not> fitsWithCapabilities p s (budgetCaps @ publicCaps)
      then ''TEMPLATE_OR_CAPABILITY_MISMATCH''
      else if active_on (ss_WorkerId p) db \<ge> ss_Slots p then ''WORKER_CAPACITY_EXHAUSTED''
      else ''ELIGIBLE''))"

definition budget_mismatch ::
  "TaskSpec \<Rightarrow> JobExecution option \<Rightarrow> string list \<Rightarrow> string list \<Rightarrow> session \<times> string \<Rightarrow> bool" where
  "budget_mismatch s jc budgetCaps publicCaps = (\<lambda>(p, reason). reason = ''TEMPLATE_OR_CAPABILITY_MISMATCH''
    \<and> fits p s \<and> (case jc of None \<Rightarrow> True | Some x \<Rightarrow> fitsJob p s x) \<and> budgetCaps \<noteq> [])"

fun assign_candidates ::
  "(session \<Rightarrow> string result) \<Rightarrow> session list \<Rightarrow> (session \<times> string) list result" where
  "assign_candidates f [] = Inr []"
| "assign_candidates f (p # ps) = rbind (f p) (\<lambda>r. rbind (assign_candidates f ps) (\<lambda>cs. Inr ((p, r) # cs)))"

text \<open>The blocker that is written when no worker is chosen.\<close>

definition no_worker_blocker :: "TaskSpec \<Rightarrow> JobExecution option \<Rightarrow> string list \<Rightarrow> string list \<Rightarrow> (session \<times> string) list \<Rightarrow> string" where
  "no_worker_blocker s jc budgetCaps publicCaps cs = (
    if list_all (\<lambda>(p, r). r = ''STALE_WORKER'') cs then ''NO_READY_WORKER''
    else if list_ex (budget_mismatch s jc budgetCaps publicCaps) cs then ''GOAL_RUNTIME_BUDGET_UNSUPPORTED''
    else if \<not> list_ex (\<lambda>(p, r). r = ''WORKER_CAPACITY_EXHAUSTED'' \<or> r = ''ELIGIBLE'') cs then ''TEMPLATE_OR_CAPABILITY_MISMATCH''
    else ''WORKER_CAPACITY_EXHAUSTED'')"

definition session_score :: "TaskSpec \<Rightarrow> int \<Rightarrow> ControlDB \<Rightarrow> session \<Rightarrow> workerScore" where
  "session_score s now db p = scoreWorker \<lparr>in_now = now, in_receivedAt = ss_ReadinessReceived p, in_active = active_on (ss_WorkerId p) db,
    in_slots = ss_Slots p, in_runtimeProfile = ts_RuntimeProfile s,
    in_environmentName = requiredEnvironmentName (ts_RequiredCapabilities s), in_repositoryRef = ts_RepositoryRef s,
    in_signal = ss_Readiness p\<rparr>"

definition worker_loads :: "ServerConfig \<Rightarrow> TaskSpec \<Rightarrow> int \<Rightarrow> ControlDB \<Rightarrow> (session \<times> string) list \<Rightarrow> workerLoad list" where
  "worker_loads cfg s now db cs = map (\<lambda>(p, r). \<lparr>wl_peer = Some (ss_WorkerId p), wl_active = active_on (ss_WorkerId p) db,
    wl_score = (if cf_ScoreEnabled cfg then Total (session_score s now db p) else 0)\<rparr>) (filter (\<lambda>(p, r). r = ''ELIGIBLE'') cs)"

definition choose_worker :: "ServerConfig \<Rightarrow> workerLoad list \<Rightarrow> string \<Rightarrow> string option \<times> string" where
  "choose_worker cfg loads cursor = (
    if cf_ScoreEnabled cfg then chooseHighestScoredWorker loads cursor else chooseLeastLoadedWorker loads cursor)"

section \<open>The observation of the scheduler\<close>

record candidateObservation =
  ob_WorkerID :: string
  ob_Reason :: string
  ob_SignalState :: string
  ob_RepositoryAffinity :: bool
  ob_PrepareP50MS :: "int option"
  ob_Score :: "workerScore option"
  ob_SelectedReason :: string

definition observeCandidate :: "session \<Rightarrow> TaskSpec \<Rightarrow> string \<Rightarrow> int \<Rightarrow> candidateObservation" where
  "observeCandidate p s reason now = (
    let out = \<lparr>ob_WorkerID = ss_WorkerId p, ob_Reason = reason, ob_SignalState = ''UNKNOWN'', ob_RepositoryAffinity = False,
          ob_PrepareP50MS = None, ob_Score = None, ob_SelectedReason = []\<rparr> in
    if ts_ProjectId s \<notin> set (ss_Projects p) then out\<lparr>ob_WorkerID := [], ob_Reason := ''SECURITY_CONSTRAINT''\<rparr>
    else case Fresh (ss_Readiness p) (ss_ReadinessReceived p) now of
      None \<Rightarrow> if ss_Readiness p \<noteq> None then out\<lparr>ob_SignalState := ''STALE_OR_INVALID''\<rparr> else out
    | Some sig \<Rightarrow>
        let fresh = out\<lparr>ob_SignalState := ''FRESH''\<rparr> in
        if reason = ''ELIGIBLE''
        then fresh\<lparr>ob_RepositoryAffinity := ts_RepositoryRef s \<in> set (RepositoryRefs sig), ob_PrepareP50MS := Some (WorkspacePrepareP50Ms sig)\<rparr>
        else fresh)"

definition score_json :: "workerScore \<Rightarrow> json" where
  "score_json x = JObj [(''runtime_environment'', JInt (RuntimeEnvironment x)), (''affinity'', JInt (Affinity x)),
    (''prepare_cost'', JInt (PrepareCost x)), (''capacity'', JInt (Capacity x)), (''total'', JInt (Total x))]"

definition observation_json :: "candidateObservation \<Rightarrow> json" where
  "observation_json x = JObj (opt_str ''worker_id'' (ob_WorkerID x)
    @ [(''reason'', JStr (ob_Reason x)), (''signal_state'', JStr (ob_SignalState x)),
       (''repository_affinity'', JBool (ob_RepositoryAffinity x))]
    @ opt_json ''prepare_p50_ms'' JInt (ob_PrepareP50MS x) @ opt_json ''score'' score_json (ob_Score x)
    @ opt_str ''selected_reason'' (ob_SelectedReason x))"

text \<open>
  The first 32 peers are observed. With scoring, an eligible worker's score is put into the first eligible observation that bears
  its name.
\<close>

definition observations :: "ServerConfig \<Rightarrow> TaskSpec \<Rightarrow> int \<Rightarrow> ControlDB \<Rightarrow> (session \<times> string) list \<Rightarrow> candidateObservation list" where
  "observations cfg s now db cs = (
    let obs = map (\<lambda>(p, r). observeCandidate p s r now) (take 32 cs);
        put = (\<lambda>xs (p, r). if r \<noteq> ''ELIGIBLE'' then xs
          else case List.find (\<lambda>i. ob_WorkerID (xs ! i) = ss_WorkerId p \<and> ob_Reason (xs ! i) = ''ELIGIBLE'') [0..<length xs] of
            None \<Rightarrow> xs
          | Some i \<Rightarrow> xs[i := (xs ! i)\<lparr>ob_Score := Some (session_score s now db p)\<rparr>]) in
    if cf_ScoreEnabled cfg then foldl put obs cs else obs)"

definition selected_observation :: "ServerConfig \<Rightarrow> TaskSpec \<Rightarrow> int \<Rightarrow> ControlDB \<Rightarrow> session \<Rightarrow> candidateObservation" where
  "selected_observation cfg s now db p = (
    let x = observeCandidate p s ''ELIGIBLE'' now in
    if cf_ScoreEnabled cfg
    then x\<lparr>ob_Score := Some (session_score s now db p), ob_SelectedReason := ''HIGHEST_SCORE_THEN_LOWEST_ACTIVE_THEN_ROTATION''\<rparr>
    else x\<lparr>ob_SelectedReason := ''LOWEST_ACTIVE_THEN_ROTATION''\<rparr>)"

definition workerScoreVersion :: string where
  "workerScoreVersion = ''readiness-v1''"

definition scheduler_json ::
  "ServerConfig \<Rightarrow> session \<Rightarrow> candidateObservation \<Rightarrow> candidateObservation list \<Rightarrow> nat \<Rightarrow> json" where
  "scheduler_json cfg p sel obs peers = JObj (
    [(''candidates'', JArr (map observation_json obs)), (''candidates_truncated'', JBool (peers > 32))]
    @ (if cf_ScoreEnabled cfg then [(''score_version'', JStr workerScoreVersion)] else [])
    @ [(''scoring_enabled'', JBool (cf_ScoreEnabled cfg)), (''selected'', observation_json sel),
       (''selected_worker'', JStr (ss_WorkerId p))])"

section \<open>Assignment\<close>

definition set_blocker :: "string \<Rightarrow> string \<Rightarrow> ControlDB \<Rightarrow> ControlDB" where
  "set_blocker task blocker db = db\<lparr>ct_tasks := update_where (\<lambda>t. t_id t = task) (\<lambda>t. t\<lparr>t_blocker := blocker\<rparr>) (ct_tasks db)\<rparr>"

definition budget_blockers :: "string list" where
  "budget_blockers = [''GOAL_RUNTIME_BUDGET_UNSUPPORTED'', ''GOAL_USAGE_EXHAUSTED'', ''GOAL_USAGE_UNKNOWN'',
    ''GOAL_USAGE_OVERFLOW'', ''GOAL_BUDGET_IN_FLIGHT'']"

definition route_changed :: "ServerConfig \<Rightarrow> ExecJobRow \<Rightarrow> string \<Rightarrow> bool" where
  "route_changed cfg j credential = (
    let route = map_get (j_routes j) credential in
    route \<noteq> [] \<and> (\<not> cf_GatewayEnabled cfg \<or> map_get (j_route_digests j) route \<noteq> RouteDigest (gateway_route cfg route)))"

text \<open>
  The gate of a job's task: \<open>Inl\<close> when the assignment ends here, otherwise the runtime budget and the
  capabilities it needs.
\<close>

definition job_gate ::
  "ServerConfig \<Rightarrow> (JobExecution \<times> ExecJobRow) option \<Rightarrow> TaskRow \<Rightarrow> int \<Rightarrow> ControlDB \<Rightarrow>
   (ControlDB + RuntimeBudget option \<times> string list \<times> ControlDB) result" where
  "job_gate cfg oj t now db = (
    case oj of None \<Rightarrow> Inr (Inr (None, [], db))
    | Some (jc, j) \<Rightarrow>
        if j_stop_reason j \<noteq> [] \<or> job_terminal (j_state j) \<or> j_state j = ''RECONCILING'' \<or> j_deadline j \<le> now then Inr (Inl db)
        else if route_changed cfg j (ts_CredentialRef (t_spec t)) then Inr (Inl (set_blocker (t_id t) ''GATEWAY_ROUTE_CHANGED'' db))
        else rbind (buildGoalRuntimeBudget j t now db) (\<lambda>(b, db1).
          case b of
            Inl e \<Rightarrow> if error_text e \<in> set budget_blockers then Inr (Inl (set_blocker (t_id t) (error_text e) db1)) else Inl e
          | Inr (budget, caps) \<Rightarrow>
              if int (count_where (\<lambda>a. \<not> a_released a) (job_attempts (j_id j) db1)) \<ge> j_parallelism j
              then Inr (Inl (set_blocker (t_id t) ''JOB_CAPACITY_EXHAUSTED'' db1))
              else Inr (Inr (budget, caps, db1))))"

definition unreleased_where :: "(TaskRow \<Rightarrow> bool) \<Rightarrow> ControlDB \<Rightarrow> int" where
  "unreleased_where P db = int (length (filter (\<lambda>(a, t). \<not> a_released a \<and> P t) (attempts_with_tasks db)))"

definition capacity_blocker :: "ServerConfig \<Rightarrow> TaskSpec \<Rightarrow> ControlDB \<Rightarrow> string option" where
  "capacity_blocker cfg s db = (
    if publicExecutionRequirements cfg s = None then Some ''PUBLIC_ISOLATION_REQUIRED''
    else if unreleased_where (\<lambda>t. ts_CredentialRef (t_spec t) = ts_CredentialRef s) db \<ge> credential_slots cfg (ts_CredentialRef s)
    then Some ''CREDENTIAL_CONCURRENCY_EXHAUSTED''
    else if unreleased_where (\<lambda>t. t_project t = ts_ProjectId s) db \<ge> cf_MaxProjectTasks cfg
    then Some ''PROJECT_CONCURRENCY_EXHAUSTED''
    else None)"

text \<open>The keys of \<open>attempts\<close>: the identifier, (task, generation), one unreleased attempt per task, the model token.\<close>

definition attempt_conflict :: "AttemptRow \<Rightarrow> AttemptRow \<Rightarrow> bool" where
  "attempt_conflict r x \<longleftrightarrow> a_id r = a_id x \<or> a_task r = a_task x \<and> a_generation r = a_generation x
    \<or> a_task r = a_task x \<and> \<not> a_released r \<and> \<not> a_released x"

definition insert_attempt :: "AttemptRow \<Rightarrow> ControlDB \<Rightarrow> ControlDB result" where
  "insert_attempt a db = (
    if \<not> list_ex (\<lambda>t. t_id t = a_task a) (ct_tasks db) then Inl Sql_constraint
    else rbind (insert_row attempt_conflict a (ct_attempts db)) (\<lambda>rows. Inr (db\<lparr>ct_attempts := rows\<rparr>)))"

definition modelAttemptToken :: "Assignment \<Rightarrow> string" where
  "modelAttemptToken a = ''ccma_'' @ Hash (json_text (json_strs [''computecloud-model-token-v1'', as_AttemptId a,
    int_decimal (as_Generation a), as_LeaseToken a]))"

definition bindGateway :: "ServerConfig \<Rightarrow> Assignment \<Rightarrow> ExecJobRow option \<Rightarrow> ControlDB \<Rightarrow> (Assignment \<times> ControlDB) result" where
  "bindGateway cfg a oj db = (
    case (oj, as_Spec a) of
      (Some j, Some s) \<Rightarrow>
        let route = map_get (j_routes j) (ts_CredentialRef s); r = gateway_route cfg route;
            token = Hash (modelAttemptToken a) in
        if route = [] then Inr (a, db)
        else if \<not> cf_GatewayEnabled cfg \<or> mo_BaseURL r = [] \<or> map_get (j_route_digests j) route \<noteq> RouteDigest r
        then Inl (Status ''FailedPrecondition'' ''GATEWAY_ROUTE_CHANGED'')
        else if list_ex (\<lambda>x. a_id x \<noteq> as_AttemptId a \<and> a_model_token x = Some token) (ct_attempts db) then Inl Sql_constraint
        else Inr (a\<lparr>as_Gateway := Some \<lparr>ga_BaseUrl = cf_GatewayPublicBaseURL cfg, ga_Route = route\<rparr>\<rparr>,
          db\<lparr>ct_attempts := update_where (\<lambda>x. a_id x = as_AttemptId a) (\<lambda>x. x\<lparr>a_model_token := Some token\<rparr>) (ct_attempts db)\<rparr>)
    | _ \<Rightarrow> Inr (a, db))"

text \<open>The identifiers an assignment draws: of the attempt, its lease token and its start command.\<close>

record Draw =
  dw_attempt :: string
  dw_token :: string
  dw_command :: string

definition new_attempt :: "ServerConfig \<Rightarrow> Draw \<Rightarrow> TaskRow \<Rightarrow> session \<Rightarrow> int \<Rightarrow> AttemptRow" where
  "new_attempt cfg d t p now = \<lparr>a_id = dw_attempt d, a_task = t_id t, a_worker = ss_WorkerId p, a_epoch = ss_Epoch p,
    a_generation = t_generation t + 1, a_token = dw_token d, a_lease_until = now + cf_LeaseSeconds cfg * 1000,
    a_released = False, a_final_hash = [], a_worker_seq = 0, a_last_renewed = now, a_model_token = None\<rparr>"

definition new_assignment ::
  "ServerConfig \<Rightarrow> Draw \<Rightarrow> TaskRow \<Rightarrow> JobExecution option \<Rightarrow> RuntimeBudget option \<Rightarrow> Assignment" where
  "new_assignment cfg d t jc budget = \<lparr>as_TaskId = t_id t, as_AttemptId = dw_attempt d, as_Generation = t_generation t + 1,
    as_LeaseToken = dw_token d, as_LeaseTtlMs = cf_LeaseSeconds cfg * 1000, as_DeadlineMs = t_deadline t, as_Spec = Some (t_spec t),
    as_Job = jc, as_Gateway = None, as_RuntimeBudget = budget\<rparr>"

definition occupy_task :: "string \<Rightarrow> string \<Rightarrow> string \<Rightarrow> int \<Rightarrow> ControlDB \<Rightarrow> ControlDB" where
  "occupy_task task attempt worker generation db = db\<lparr>ct_tasks := update_where (\<lambda>t. t_id t = task)
    (\<lambda>t. t\<lparr>t_attempt := attempt, t_worker := worker, t_generation := generation, t_blocker := [], t_retry_after := 0\<rparr>) (ct_tasks db)\<rparr>"

definition start_job :: "ExecJobRow option \<Rightarrow> int \<Rightarrow> ControlDB \<Rightarrow> ControlDB result" where
  "start_job oj now db = (
    case oj of None \<Rightarrow> Inr db
    | Some j \<Rightarrow>
        if j_state j = ''QUEUED''
        then rbind (jobState j (if j_mode j = ''single'' then ''EXECUTING'' else ''MAPPING'') [] [] now db) (\<lambda>(_, db'). Inr db')
        else Inr db)"

definition dispatch_task ::
  "(TaskEvent \<Rightarrow> string) \<Rightarrow> ServerConfig \<Rightarrow> Draw \<Rightarrow> TaskRow \<Rightarrow> (JobExecution \<times> ExecJobRow) option \<Rightarrow> RuntimeBudget option \<Rightarrow>
   session \<Rightarrow> json \<Rightarrow> int \<Rightarrow> ControlDB \<Rightarrow> ControlDB result" where
  "dispatch_task enc cfg d t oj budget p observed now db =
    rbind (insert_attempt (new_attempt cfg d t p now) db) (\<lambda>db1.
    rbind (reserveGoalAttempt (map_option snd oj) (dw_attempt d) now db1) (\<lambda>db2.
    rbind (bindGateway cfg (new_assignment cfg d t (map_option fst oj) budget) (map_option snd oj) db2) (\<lambda>(a, db3).
    rbind (setState enc (t_id t) ''STARTING'' [] [] now
      (occupy_task (t_id t) (dw_attempt d) (ss_WorkerId p) (t_generation t + 1) db3)) (\<lambda>db4.
    rbind (setTaskStageState (t_id t) ''RUNNING'' now db4) (\<lambda>db5.
    rbind (start_job (map_option snd oj) now db5) (\<lambda>db6.
    rbind (appendEvent enc (server_event (t_id t) (dw_attempt d) (t_generation t + 1) ''scheduler.observation'' observed) None now db6)
      (saveCommand (dw_command d) (ss_WorkerId p) ''start'' a)))))))"

text \<open>
  The transaction of \<open>assign\<close>. Its answer is the worker identifier that becomes the cursor of the worker choice, empty when the
  choice was not reached.
\<close>

definition assign_chosen ::
  "(TaskEvent \<Rightarrow> string) \<Rightarrow> ServerConfig \<Rightarrow> Draw \<Rightarrow> TaskRow \<Rightarrow> (JobExecution \<times> ExecJobRow) option \<Rightarrow> RuntimeBudget option \<Rightarrow>
   session \<Rightarrow> json \<Rightarrow> int \<Rightarrow> ControlDB \<Rightarrow> ControlDB result" where
  "assign_chosen enc cfg d t oj budget p observed now db = (
    case oj of None \<Rightarrow> dispatch_task enc cfg d t oj budget p observed now db
    | Some (jc, j) \<Rightarrow>
        rbind (ensureGoalBinding j now db) (\<lambda>(_, db1).
        if goal_gate (j_id j) now (ct_goal db1) \<noteq> 1 then Inr (set_blocker (t_id t) ''GOAL_EXECUTION_FENCED'' db1)
        else dispatch_task enc cfg d t oj budget p observed now db1))"

definition assign_worker ::
  "(TaskEvent \<Rightarrow> string) \<Rightarrow> ServerConfig \<Rightarrow> session list \<Rightarrow> string \<Rightarrow> Draw \<Rightarrow> TaskRow \<Rightarrow> (JobExecution \<times> ExecJobRow) option \<Rightarrow>
   RuntimeBudget option \<Rightarrow> string list \<Rightarrow> int \<Rightarrow> (ControlDB, string) tx" where
  "assign_worker enc cfg peers cursor d t oj budget budgetCaps now db = (
    let s = t_spec t; jc = map_option fst oj in
    case capacity_blocker cfg s db of Some b \<Rightarrow> Inr ([], set_blocker (t_id t) b db)
    | None \<Rightarrow>
        let publicCaps = the (publicExecutionRequirements cfg s) in
        rbind (assign_candidates (candidate_reason cfg s jc budgetCaps publicCaps now db) peers) (\<lambda>cs.
        let (chosen, cursor') = choose_worker cfg (worker_loads cfg s now db cs) cursor in
        case Option.bind chosen (\<lambda>w. List.find (\<lambda>p. ss_WorkerId p = w) (map fst (filter (\<lambda>(p, r). r = ''ELIGIBLE'') cs))) of
          None \<Rightarrow> Inr (cursor', set_blocker (t_id t) (no_worker_blocker s jc budgetCaps publicCaps cs) db)
        | Some p \<Rightarrow>
            rbind (assign_chosen enc cfg d t oj budget p
              (scheduler_json cfg p (selected_observation cfg s now db p) (observations cfg s now db cs) (length peers)) now db)
              (\<lambda>db'. Inr (cursor', db'))))"

definition assign_tx ::
  "graph_assignment \<Rightarrow> (TaskEvent \<Rightarrow> string) \<Rightarrow> ServerConfig \<Rightarrow> session list \<Rightarrow> string \<Rightarrow> Draw \<Rightarrow> string \<Rightarrow> int \<Rightarrow> (ControlDB, string) tx" where
  "assign_tx gx enc cfg peers cursor d task now db =
    rbind (select_row (\<lambda>t. t_id t = task) (ct_tasks db)) (\<lambda>t.
    if t_state t \<noteq> ''QUEUED'' then Inr ([], db)
    else
      rbind (assignmentJob gx cfg task db) (\<lambda>oj.
      rbind (job_gate cfg oj t now db) (\<lambda>g.
      case g of Inl db' \<Rightarrow> Inr ([], db')
      | Inr (budget, caps, db1) \<Rightarrow>
          if t_deadline t \<le> now
          then rbind (setState enc task ''FAILED'' ''DEADLINE_EXCEEDED'' ''deadline reached before dispatch'' now db1) (\<lambda>db2. Inr ([], db2))
          else if t_retry_after t > now then Inr ([], db1)
          else assign_worker enc cfg peers cursor d t oj budget caps now db1)))"

text \<open>The state of the scheduler beside the database: its cursors.\<close>

record SchedulerState =
  sc_workerCursor :: string
  sc_projectCursor :: project_cursor
  sc_groupCursor :: group_cursor
  sc_jobCursor :: string

definition assign ::
  "graph_assignment \<Rightarrow> (TaskEvent \<Rightarrow> string) \<Rightarrow> ServerConfig \<Rightarrow> session list \<Rightarrow> Draw \<Rightarrow> string \<Rightarrow> int \<Rightarrow>
   SchedulerState \<times> ControlDB \<Rightarrow> unit result \<times> (SchedulerState \<times> ControlDB)" where
  "assign gx enc cfg peers d task now = (\<lambda>(sc, db).
    case assign_tx gx enc cfg peers (sc_workerCursor sc) d task now db of
      Inl e \<Rightarrow> (Inl e, (sc, db))
    | Inr (w, db') \<Rightarrow> (Inr (), (if w \<noteq> [] then sc\<lparr>sc_workerCursor := w\<rparr> else sc, db')))"

section \<open>One pass of the scheduler\<close>

definition runnable :: "int \<Rightarrow> TaskRow \<Rightarrow> bool" where
  "runnable now t \<longleftrightarrow> t_state t = ''QUEUED'' \<and> t_retry_after t \<le> now \<and> t_deadline t > now"

definition task_group :: "TaskRow \<Rightarrow> string" where
  "task_group t = (case t_job t of None \<Rightarrow> t_id t | Some j \<Rightarrow> j)"

definition maxSchedulerGroups :: nat where
  "maxSchedulerGroups = 512"

definition group_row :: "int \<Rightarrow> int \<Rightarrow> TaskRow list \<Rightarrow> string \<times> string \<Rightarrow> queueGroup" where
  "group_row aging now ts = (\<lambda>(project, grp).
    let members = filter (\<lambda>t. t_project t = project \<and> task_group t = grp) ts;
        base = Max (set (map t_priority members)); oldest = Min (set (map t_updated members)) in
    \<lparr>qg_project = project, qg_group = grp, qg_base = base, qg_effective = effectivePriority base oldest now aging, qg_oldest = oldest\<rparr>)"

definition queuedGroups :: "ServerConfig \<Rightarrow> int \<Rightarrow> ControlDB \<Rightarrow> queueGroup list" where
  "queuedGroups cfg now db = (
    let ts = filter (runnable now) (ct_tasks db);
        keys = remdups (map (\<lambda>t. (t_project t, task_group t)) ts);
        rows = map (group_row (cf_SchedulerAgingSeconds cfg * 1000) now ts) keys in
    take maxSchedulerGroups (sort_key (\<lambda>g. (qg_oldest g, qg_project g, qg_group g)) rows))"

definition group_tasks :: "queueGroup \<Rightarrow> int \<Rightarrow> ControlDB \<Rightarrow> string list" where
  "group_tasks g now db = map t_id (take 32 (sort_key (\<lambda>t. (- t_priority t, t_updated t, t_created t, t_id t))
    (filter (\<lambda>t. runnable now t \<and> t_project t = qg_project g
      \<and> (case t_job t of Some j \<Rightarrow> j = qg_group g | None \<Rightarrow> t_id t = qg_group g)) (ct_tasks db))))"

type_synonym draws = "string \<Rightarrow> ControlDB \<Rightarrow> Draw"

fun dispatch_ids ::
  "graph_assignment \<Rightarrow> (TaskEvent \<Rightarrow> string) \<Rightarrow> ServerConfig \<Rightarrow> session list \<Rightarrow> draws \<Rightarrow> queueGroup \<Rightarrow> int \<Rightarrow>
   SchedulerState \<times> ControlDB \<Rightarrow> string list \<Rightarrow> bool result \<times> (SchedulerState \<times> ControlDB)" where
  "dispatch_ids gx enc cfg peers draw g now st [] = (Inr False, st)"
| "dispatch_ids gx enc cfg peers draw g now st (task # rest) = (
    case assign gx enc cfg peers (draw task (snd st)) task now st of
      (Inl e, st1) \<Rightarrow> (Inl e, st1)
    | (Inr _, (sc, db)) \<Rightarrow>
        (case select_row (\<lambda>t. t_id t = task) (ct_tasks db) of
           Inl e \<Rightarrow> (Inl e, (sc, db))
         | Inr t \<Rightarrow>
             if t_state t = ''STARTING''
             then (Inr True, (sc\<lparr>sc_groupCursor := (sc_groupCursor sc)(cursor_key (qg_effective g) (qg_project g) := qg_group g)\<rparr>, db))
             else dispatch_ids gx enc cfg peers draw g now (sc, db) rest))"

definition dispatchGroup ::
  "graph_assignment \<Rightarrow> (TaskEvent \<Rightarrow> string) \<Rightarrow> ServerConfig \<Rightarrow> session list \<Rightarrow> draws \<Rightarrow> queueGroup \<Rightarrow> int \<Rightarrow>
   SchedulerState \<times> ControlDB \<Rightarrow> bool result \<times> (SchedulerState \<times> ControlDB)" where
  "dispatchGroup gx enc cfg peers draw g now st = dispatch_ids gx enc cfg peers draw g now st (group_tasks g now (snd st))"

fun serve_groups ::
  "graph_assignment \<Rightarrow> (TaskEvent \<Rightarrow> string) \<Rightarrow> ServerConfig \<Rightarrow> session list \<Rightarrow> draws \<Rightarrow> int \<Rightarrow>
   SchedulerState \<times> ControlDB \<Rightarrow> queueGroup list \<Rightarrow> unit result \<times> (SchedulerState \<times> ControlDB)" where
  "serve_groups gx enc cfg peers draw now st [] = (Inr (), st)"
| "serve_groups gx enc cfg peers draw now st (g # gs) = (
    case dispatchGroup gx enc cfg peers draw g now st of
      (Inl e, st1) \<Rightarrow> (Inl e, st1)
    | (Inr assigned, (sc, db)) \<Rightarrow>
        serve_groups gx enc cfg peers draw now
          (if assigned then sc\<lparr>sc_projectCursor := (sc_projectCursor sc)(qg_effective g := qg_project g)\<rparr> else sc, db) gs)"

definition scheduleQueued ::
  "graph_assignment \<Rightarrow> (TaskEvent \<Rightarrow> string) \<Rightarrow> ServerConfig \<Rightarrow> session list \<Rightarrow> draws \<Rightarrow> int \<Rightarrow>
   SchedulerState \<times> ControlDB \<Rightarrow> unit result \<times> (SchedulerState \<times> ControlDB)" where
  "scheduleQueued gx enc cfg peers draw now st = (
    let groups = fairGroupOrder (queuedGroups cfg now (snd st)) (sc_projectCursor (fst st)) (sc_groupCursor (fst st)) in
    serve_groups gx enc cfg peers draw now st groups)"

end
