(* ===== verification/Job_Engine.thy ===== *)
theory Job_Engine
  imports Task_Assign
begin

text \<open>
  The job engine (\<open>internal/server/jobs.go\<close>, \<open>long_running.go\<close>, \<open>trace.go\<close>): a job is submitted once per idempotency
  key, its contract is frozen, its tasks enter the queue by stage (one task, or the partitions of a map and
  then their reduce), a tick advances it from the states of its tasks, and it ends with a result. A running
  job can be cancelled and its deadline extended; old events of a task are compacted.

  \<open>request\<close> is what the strict JSON decoder and the request schema make of the submitted text (a third-party
  package validates the schema); \<open>encs\<close> is the protobuf text of a task. Identifiers of tasks are given by a
  function of stage and partition.
\<close>

section \<open>Traces\<close>

definition authorizeTrace :: "string \<Rightarrow> string \<Rightarrow> string \<Rightarrow> ControlDB \<Rightarrow> unit result" where
  "authorizeTrace trace owner project db = (
    if count_where (\<lambda>x. tr_id x = trace \<and> tr_owner x = owner \<and> tr_project x = project) (ct_traces db) \<noteq> 1
    then Inl (Status ''NotFound'' ''TRACE_NOT_FOUND'') else Inr ())"

definition createTrace :: "string \<Rightarrow> string \<Rightarrow> string \<Rightarrow> string \<Rightarrow> int \<Rightarrow> ControlDB \<Rightarrow> ControlDB" where
  "createTrace trace owner project scope now db = (
    if list_ex (\<lambda>x. tr_id x = trace) (ct_traces db) then db
    else db\<lparr>ct_traces := ct_traces db @ [\<lparr>tr_id = trace, tr_owner = owner, tr_project = project, tr_scope = scope, tr_created = now\<rparr>]\<rparr>)"

section \<open>Stages and tasks of a job\<close>

definition stage_kinds :: "string list" where
  "stage_kinds = [''single'', ''map'', ''reduce'', ''verify'']"

definition stage_kind_ok :: "string \<Rightarrow> bool" where
  "stage_kind_ok kind \<longleftrightarrow> kind \<in> set stage_kinds \<or> prefix ''node:'' kind \<and> length kind \<le> 69"

definition insertStage :: "string \<Rightarrow> string \<Rightarrow> int \<Rightarrow> string \<Rightarrow> int \<Rightarrow> ControlDB \<Rightarrow> ControlDB result" where
  "insertStage jid kind ordinal state now db = (
    if \<not> stage_kind_ok kind \<or> \<not> list_ex (\<lambda>j. j_id j = jid) (ct_jobs db) then Inl Sql_constraint
    else rbind (insert_row (\<lambda>r x. sg_id r = sg_id x \<or> sg_job r = sg_job x \<and> (sg_kind r = sg_kind x \<or> sg_ordinal r = sg_ordinal x))
        \<lparr>sg_id = jid @ '':'' @ kind, sg_job = jid, sg_kind = kind, sg_ordinal = ordinal, sg_state = state, sg_updated = now\<rparr> (ct_stages db))
      (\<lambda>rows. Inr (db\<lparr>ct_stages := rows\<rparr>)))"

definition job_task_spec :: "ServerConfig \<Rightarrow> string \<Rightarrow> string \<Rightarrow> string \<Rightarrow> Spec \<Rightarrow> Execution \<Rightarrow> string \<Rightarrow> (string \<times> string) list \<Rightarrow> TaskSpec" where
  "job_task_spec cfg jid stage key spec ex txt routes = (
    let t = Task ex spec (''__job/'' @ jid @ ''/'' @ stage @ ''/'' @ key) txt;
        reduceCaps = (if stage = ''reduce'' then [''artifact_inputs_v1''] else []);
        route = map_get routes (ex_CredentialRef ex);
        gatewayCaps = (if route = [] then []
          else if mo_Backend (gateway_route cfg route) = ''anthropic_messages'' then [''gateway_anthropic_messages_v1'']
          else [''gateway_inference_v1'']) in
    t\<lparr>ts_RequiredCapabilities := ts_RequiredCapabilities t @ reduceCaps @ gatewayCaps\<rparr>)"

definition insertJobTask ::
  "(TaskEvent \<Rightarrow> string) \<Rightarrow> (TaskSpec \<Rightarrow> string) \<Rightarrow> ServerConfig \<Rightarrow> string \<Rightarrow> string \<Rightarrow> int \<Rightarrow> string \<Rightarrow> string \<Rightarrow> Spec \<Rightarrow> Execution \<Rightarrow>
   string \<Rightarrow> (string \<times> string) list \<Rightarrow> string \<Rightarrow> int \<Rightarrow> ControlDB \<Rightarrow> ControlDB result" where
  "insertJobTask enc encs cfg jid owner deadline stage key spec ex txt routes tid now db = (
    let s = job_task_spec cfg jid stage key spec ex txt routes in
    rbind (select_row (\<lambda>g. sg_job g = jid \<and> sg_kind g = stage) (ct_stages db)) (\<lambda>g.
    insert_task enc ((new_task tid owner (sp_ProjectID spec) (ts_IdempotencyKey s) (Hash (encs s)) s deadline now)
      \<lparr>t_job := Some jid, t_stage := stage, t_stage_id := Some (sg_id g), t_partition := key\<rparr>) now db))"

section \<open>Submission\<close>

definition effective_limits :: "IdentityLimits \<Rightarrow> IdentityLimits" where
  "effective_limits l = (
    if l = \<lparr>il_MaxActiveJobs = 0, il_MaxQueuedJobs = 0, il_MaxModelRequests = 0\<rparr>
    then \<lparr>il_MaxActiveJobs = 8, il_MaxQueuedJobs = 32, il_MaxModelRequests = 4\<rparr> else l)"

definition check_identity_limits :: "Principal \<Rightarrow> string \<Rightarrow> ControlDB \<Rightarrow> unit result" where
  "check_identity_limits p project db = (
    let l = effective_limits (id_Limits (pr_Identity p)); own = (\<lambda>j. j_owner j = pr_Owner p \<and> j_project j = project) in
    if int (count_where (\<lambda>j. own j \<and> \<not> job_terminal (j_state j)) (ct_jobs db)) \<ge> il_MaxActiveJobs l
    then Inl (Status ''ResourceExhausted'' ''IDENTITY_ACTIVE_JOB_LIMIT'')
    else if int (count_where (\<lambda>j. own j \<and> j_state j = ''QUEUED'') (ct_jobs db)) \<ge> il_MaxQueuedJobs l
    then Inl (Status ''ResourceExhausted'' ''IDENTITY_QUEUED_JOB_LIMIT'')
    else Inr ())"

text \<open>What is frozen besides the contract: template digests, gateway routes and their digests.\<close>

type_synonym frozen_maps = "(string \<times> string) list \<times> (string \<times> string) list \<times> (string \<times> string) list"

definition route_compatible :: "Execution \<Rightarrow> ModelRoute \<Rightarrow> bool" where
  "route_compatible ex r \<longleftrightarrow> ex_Engine ex = ''codex'' \<and> ex_RuntimeProfile ex \<noteq> ''claude_http'' \<and> mo_Backend r \<noteq> ''anthropic_messages''
    \<or> ex_Engine ex = ''claude'' \<and> ex_RuntimeProfile ex = ''claude_http'' \<and> mo_Backend r = ''anthropic_messages''"

definition template_digest :: "ServerConfig \<Rightarrow> string \<Rightarrow> string" where
  "template_digest cfg key = (case List.find (\<lambda>t. JobTemplate_Key t = key) (cf_Templates cfg) of None \<Rightarrow> [] | Some t \<Rightarrow> jt_Digest t)"

definition freeze_execution :: "ServerConfig \<Rightarrow> Principal \<Rightarrow> frozen_maps \<Rightarrow> Execution \<Rightarrow> frozen_maps result" where
  "freeze_execution cfg p = (\<lambda>(digests, routes, routeDigests) ex.
    if ex_CredentialRef ex \<notin> set (id_Credentials (pr_Identity p)) \<or> credential_slots cfg (ex_CredentialRef ex) < 1
    then Inl (Status ''PermissionDenied'' ''credential not authorized'')
    else
      let key = TemplateKey ex;
          digests' = (if list_ex (\<lambda>t. JobTemplate_Key t = key) (cf_Templates cfg) then map_put key (template_digest cfg key) digests else digests);
          route = map_get (cf_CredentialRoutes cfg) (ex_CredentialRef ex);
          r = gateway_route cfg route in
      if map_get digests' key = [] then Inl (Status ''FailedPrecondition'' ''TEMPLATE_NOT_CONFIGURED'')
      else if route = [] then Inr (digests', routes, routeDigests)
      else if \<not> cf_GatewayEnabled cfg \<or> \<not> route_compatible ex r \<or> ex_Model ex \<notin> set (mo_AllowedModels r)
      then Inl (Status ''FailedPrecondition'' ''GATEWAY_ROUTE_UNAVAILABLE'')
      else Inr (digests', map_put (ex_CredentialRef ex) route routes, map_put route (RouteDigest r) routeDigests))"

definition new_job :: "string \<Rightarrow> Principal \<Rightarrow> string \<Rightarrow> string \<Rightarrow> Spec \<Rightarrow> frozen_maps \<Rightarrow> string \<Rightarrow> int \<Rightarrow> ExecJobRow" where
  "new_job jid p key requestHash spec fz trace now = (
    let (digests, routes, routeDigests) = fz;
        deadline = now + lm_TimeoutSeconds (sp_Limits spec) * 1000;
        j = \<lparr>j_id = jid, j_owner = pr_Owner p, j_project = sp_ProjectID spec, j_idem = key, j_request_hash = requestHash,
          j_mode = sp_Mode spec, j_state = ''QUEUED'', j_version = 1, j_seq = 0, j_created = now, j_updated = now,
          j_deadline = deadline, j_parallelism = (case sp_Map spec of None \<Rightarrow> 1 | Some m \<Rightarrow> mp_Parallelism m),
          j_stop_reason = [], j_error_code = [], j_spec = spec, j_digests = digests, j_routes = routes,
          j_route_digests = routeDigests, j_manifest = None, j_manifest_hash = [], j_result = None, j_spec_hash = [],
          j_trace = trace, j_graph = None\<rparr> in
    j\<lparr>j_spec_hash := Hash (json_text (JObj [(''Frozen'', frozen_json j), (''Deadline'', JInt deadline)]))\<rparr>)"

definition insert_job :: "ExecJobRow \<Rightarrow> ControlDB \<Rightarrow> ControlDB result" where
  "insert_job j db = (
    if j_mode j \<notin> {''single'', ''map_reduce'', ''iu_graph''} \<or> j_parallelism j < 1 \<or> j_parallelism j > 8 then Inl Sql_constraint
    else rbind (insert_row (\<lambda>r x. j_id r = j_id x \<or> j_owner r = j_owner x \<and> j_project r = j_project x \<and> j_idem r = j_idem x) j (ct_jobs db))
      (\<lambda>rows. Inr (db\<lparr>ct_jobs := rows, ct_goal := (ct_goal db)\<lparr>db_jobs := db_jobs (ct_goal db) @
         [\<lparr>jb_id = j_id j, jb_owner = j_owner j, jb_project = j_project j, jb_spec = json_text (frozen_json j)\<rparr>]\<rparr>\<rparr>)))"

definition insert_job_work ::
  "(TaskEvent \<Rightarrow> string) \<Rightarrow> (TaskSpec \<Rightarrow> string) \<Rightarrow> ServerConfig \<Rightarrow> (string \<Rightarrow> string \<Rightarrow> string) \<Rightarrow> ExecJobRow \<Rightarrow> int \<Rightarrow> ControlDB \<Rightarrow> ControlDB result" where
  "insert_job_work enc encs cfg tids j now db = (
    let s = j_spec j; jid = j_id j; txt = in_Text (sp_Input s);
        put = (\<lambda>stage key ex t. insertJobTask enc encs cfg jid (j_owner j) (j_deadline j) stage key s ex t (j_routes j) (tids stage key) now) in
    if sp_Mode s = ''single'' then
      rbind (insertStage jid ''single'' 0 ''READY'' now db) (\<lambda>db1.
      case sp_Execution s of None \<Rightarrow> Inl (Error ''nil pointer dereference'')
      | Some ex \<Rightarrow> put ''single'' ''_single'' ex txt db1)
    else
      rbind (insertStage jid ''map'' 0 ''READY'' now db) (\<lambda>db1.
      rbind (insertStage jid ''reduce'' 1 ''PENDING'' now db1) (\<lambda>db2.
      case sp_Map s of None \<Rightarrow> Inl (Error ''nil pointer dereference'')
      | Some m \<Rightarrow> fold_result (\<lambda>d p. put ''map'' (pt_Key p) (pt_Execution p)
          (txt @ [CHR 0x0A, CHR 0x0A] @ in_Text (pt_Input p)) d) db2 (mp_Partitions m))))"

definition submit_job_tx ::
  "(TaskEvent \<Rightarrow> string) \<Rightarrow> (TaskSpec \<Rightarrow> string) \<Rightarrow> ServerConfig \<Rightarrow> Principal \<Rightarrow> string \<Rightarrow> Spec \<Rightarrow> string \<Rightarrow> string \<Rightarrow> string \<Rightarrow>
   (string \<Rightarrow> string \<Rightarrow> string) \<Rightarrow> int \<Rightarrow> (ControlDB, string \<times> bool) tx" where
  "submit_job_tx enc encs cfg p key spec trace jid newTrace tids now db = (
    let requestHash = Hash (json_text (job_spec_json spec)); project = sp_ProjectID spec in
    rbind (if trace \<noteq> [] then authorizeTrace trace (pr_Owner p) project db else Inr ()) (\<lambda>_.
    case List.find (\<lambda>j. j_owner j = pr_Owner p \<and> j_project j = project \<and> j_idem j = key) (ct_jobs db) of
      Some old \<Rightarrow>
        if j_request_hash old \<noteq> requestHash then Inl (Status ''AlreadyExists'' ''IDEMPOTENCY_CONFLICT'')
        else if trace \<noteq> [] \<and> trace \<noteq> j_trace old then Inl (Status ''AlreadyExists'' ''IDEMPOTENCY_TRACE_CONFLICT'')
        else Inr ((j_id old, True), db)
    | None \<Rightarrow>
        rbind (check_identity_limits p project db) (\<lambda>_.
        rbind (case Executions spec of None \<Rightarrow> Inl (Error ''nil pointer dereference'')
          | Some exs \<Rightarrow> fold_result (freeze_execution cfg p) ([], [], []) exs) (\<lambda>fz.
        rbind (checkQueueAdmission cfg project (case sp_Map spec of None \<Rightarrow> 1 | Some m \<Rightarrow> int (length (mp_Partitions m))) db) (\<lambda>_.
        let t = (if trace = [] then ''trc_'' @ newTrace else trace);
            db1 = (if trace = [] then createTrace t (pr_Owner p) project ''job'' now db else db);
            j = new_job jid p key requestHash spec fz t now in
        rbind (insert_job j db1) (\<lambda>db2.
        rbind (insert_job_work enc encs cfg tids j now db2) (\<lambda>db3.
        rbind (readJob jid db3) (\<lambda>created.
        rbind (ensureGoalBinding created now db3) (\<lambda>(_, db4).
        rbind (appendJobEvent jid ''job.created'' (JObj [(''mode'', JStr (sp_Mode spec))]) [] [] now db4) (\<lambda>db5.
        Inr ((jid, False), db5)))))))))))"

definition SubmitJob ::
  "(TaskEvent \<Rightarrow> string) \<Rightarrow> (TaskSpec \<Rightarrow> string) \<Rightarrow> ServerConfig \<Rightarrow> Principal option \<Rightarrow> string \<Rightarrow> nat \<Rightarrow> Spec result \<Rightarrow> string \<Rightarrow> string \<Rightarrow>
   string \<Rightarrow> (string \<Rightarrow> string \<Rightarrow> string) \<Rightarrow> int \<Rightarrow> ControlDB \<Rightarrow> (ExecJobRow \<times> bool) result \<times> ControlDB" where
  "SubmitJob enc encs cfg ctx key len request trace jid newTrace tids now db = (
    case rbind (Require ctx ''jobs:submit'' False) (\<lambda>p.
      if \<not> cf_JobsEnabled cfg then Inl (Status ''FailedPrecondition'' ''JOBS_DISABLED'')
      else if cf_Maintenance cfg then Inl (Status ''Unavailable'' ''MAINTENANCE'')
      else if \<not> ValidKey key \<or> int len > cf_MaxRequestBytes cfg
      then Inl (Status ''InvalidArgument'' ''invalid idempotency key or request size'')
      else rbind (map_error (\<lambda>e. Status ''InvalidArgument'' (error_text e))
          (if len > 256 * 1024 then Inl (Error ''request too large'')
           else rbind request (\<lambda>s. Spec_Validate s (cf_MaxPartitions cfg) (cf_MaxParallelism cfg)))) (\<lambda>spec.
        if sp_ProjectID spec \<notin> set (id_Projects (pr_Identity p)) then Inl (Status ''PermissionDenied'' ''project not authorized'')
        else Inr (p, spec))) of
      Inl e \<Rightarrow> (Inl e, db)
    | Inr (p, spec) \<Rightarrow>
        (case db_Tx (submit_job_tx enc encs cfg p key spec trace jid newTrace tids now) db of
           (Inl e, db1) \<Rightarrow> (Inl (dbErr e), db1)
         | (Inr (i, existing), db1) \<Rightarrow> (rbind (map_error dbErr (readJob i db1)) (\<lambda>j. Inr (j, existing)), db1)))"

section \<open>The result of a task\<close>

record jobChild =
  jc_id :: string
  jc_state :: string
  jc_code :: string
  jc_stage :: string
  jc_key :: string
  jc_attempt :: string
  jc_released :: bool

text \<open>\<open>coalesce(a.released,1)\<close>: a task without an attempt counts as released.\<close>

definition attempt_released :: "string \<Rightarrow> ControlDB \<Rightarrow> bool" where
  "attempt_released attempt db = (case List.find (\<lambda>a. a_id a = attempt) (ct_attempts db) of None \<Rightarrow> True | Some a \<Rightarrow> a_released a)"

definition jobChildren :: "string \<Rightarrow> ControlDB \<Rightarrow> jobChild list" where
  "jobChildren jid db = map (\<lambda>t. \<lparr>jc_id = t_id t, jc_state = t_state t, jc_code = t_error_code t, jc_stage = t_stage t,
      jc_key = t_partition t, jc_attempt = t_attempt t, jc_released = attempt_released (t_attempt t) db\<rparr>)
    (sort_key (\<lambda>t. (t_stage t, t_partition t)) (filter (\<lambda>t. t_job t = Some jid) (ct_tasks db)))"

fun strings_of :: "json list \<Rightarrow> string list option" where
  "strings_of [] = Some []"
| "strings_of (j # js) = (case j of
      JStr s \<Rightarrow> map_option ((#) s) (strings_of js)
    | JNull \<Rightarrow> map_option ((#) []) (strings_of js)
    | _ \<Rightarrow> None)"

fun unmarshal_strings :: "string \<Rightarrow> string list \<Rightarrow> (string \<times> json) list \<Rightarrow> string list option" where
  "unmarshal_strings name v [] = Some v"
| "unmarshal_strings name v ((k, j) # fs) = (
    if \<not> equal_fold k name then unmarshal_strings name v fs
    else case j of JArr xs \<Rightarrow> Option.bind (strings_of xs) (\<lambda>v'. unmarshal_strings name v' fs)
      | JNull \<Rightarrow> unmarshal_strings name [] fs
      | _ \<Rightarrow> None)"

definition completed_ids :: "json \<Rightarrow> string list option" where
  "completed_ids j = Option.bind (object_members j) (unmarshal_strings ''artifact_ids'' [])"

definition completion_event :: "jobChild \<Rightarrow> EventRow \<Rightarrow> bool" where
  "completion_event c e \<longleftrightarrow> e_task e = jc_id c \<and> e_attempt e = jc_attempt c \<and> e_worker_seq e = None \<and> e_type e = ''attempt.completed''"

definition result_artifact :: "jobChild \<Rightarrow> string \<Rightarrow> ControlDB \<Rightarrow> ArtifactRow option" where
  "result_artifact c artifact db = List.find (\<lambda>x. af_id x = artifact \<and> af_task x = jc_id c \<and> af_attempt x = jc_attempt c
      \<and> af_kind x = ''result-bundle'' \<and> af_state x = ''ACCEPTED'' \<and> af_deleted_at x = 0
      \<and> list_ex (\<lambda>(a, t). t_id t = af_task x \<and> a_id a = af_attempt x \<and> af_generation x = a_generation a
          \<and> t_attempt t = a_id a \<and> t_generation t = a_generation a) (List.product (ct_attempts db) (ct_tasks db))
      \<and> list_ex (\<lambda>r. rf_artifact r = af_id x \<and> rf_type r = ''task_result'' \<and> rf_ref r = af_task x) (ct_refs db)) (ct_artifacts db)"

definition selectedResultArtifact :: "jobChild \<Rightarrow> ControlDB \<Rightarrow> ArtifactRow option result" where
  "selectedResultArtifact c db = (
    case rev (sort_key e_seq (filter (completion_event c) (ct_events db))) of
      [] \<Rightarrow> Inl Sql_no_rows
    | e # _ \<Rightarrow>
        (case Option.bind (e_payload e) completed_ids of None \<Rightarrow> Inl (Error ''invalid completion payload'')
         | Some ids \<Rightarrow> if length ids \<noteq> 1 then Inr None else Inr (result_artifact c (hd ids) db)))"

section \<open>The end of a job\<close>

text \<open>The first runes of a text; an invalid byte counts as one rune and becomes U+FFFD.\<close>

fun take_runes :: "nat \<Rightarrow> string \<Rightarrow> string" where
  "take_runes 0 s = []"
| "take_runes (Suc n) [] = []"
| "take_runes (Suc n) (c # s) = (
    case Option.bind (utf8_tail c) (\<lambda>ps. match_tail ps s) of
      None \<Rightarrow> bytes [239, 191, 189] @ take_runes n s
    | Some r \<Rightarrow> c # take (length s - length r) s @ take_runes n r)"

definition result_summary :: "string \<Rightarrow> string" where
  "result_summary s = (if length s > 4096 then take_runes 1024 s else s)"

definition artifact_json :: "ArtifactRow \<Rightarrow> json" where
  "artifact_json x = JObj (opt_str ''artifact_id'' (af_id x) @ opt_str ''task_id'' (af_task x) @ opt_str ''attempt_id'' (af_attempt x)
    @ opt_str ''kind'' (af_kind x) @ opt_str ''sha256'' (af_hash x) @ opt_nonzero ''size'' (af_size x))"

definition failure_json :: "jobChild \<Rightarrow> json" where
  "failure_json c = JObj [(''error_code'', JStr (jc_code c)), (''partition_key'', JStr (jc_key c)), (''stage'', JStr (jc_stage c)),
    (''task_id'', JStr (jc_id c))]"

record finish_state =
  fs_finals :: "ArtifactRow list"
  fs_failures :: "jobChild list"
  fs_summary :: string
  fs_db :: ControlDB

definition finish_child :: "ExecJobRow \<Rightarrow> string \<Rightarrow> int \<Rightarrow> finish_state \<Rightarrow> jobChild \<Rightarrow> finish_state result" where
  "finish_child j state now st c = (
    if \<not> jc_released c then Inl (Error ''cannot publish job before cleanup'')
    else
      let st1 = (if jc_state c = ''FAILED'' then st\<lparr>fs_failures := fs_failures st @ [c]\<rparr> else st) in
      if state = ''SUCCEEDED'' \<and> (jc_stage c = ''single'' \<or> jc_stage c = ''reduce'') then
        rbind (selectedResultArtifact c (fs_db st1)) (\<lambda>sel.
        case sel of None \<Rightarrow> Inl (Error ''missing completed result artifact'')
        | Some x \<Rightarrow>
            rbind (pinArtifactRef (af_id x) ''job_result'' (j_id j) now (fs_db st1)) (\<lambda>db1.
            rbind (select_row (\<lambda>t. t_id t = jc_id c) (ct_tasks db1)) (\<lambda>t.
            Inr (st1\<lparr>fs_finals := fs_finals st1 @ [x], fs_summary := result_summary (t_result t), fs_db := db1\<rparr>))))
      else Inr st1)"

definition job_result_json :: "ExecJobRow \<Rightarrow> string \<Rightarrow> finish_state \<Rightarrow> json" where
  "job_result_json j state st = JObj [(''base_commit'', JStr (ws_BaseCommit (sp_Workspace (j_spec j)))),
    (''child_failures'', JArr (map failure_json (fs_failures st))), (''error_code'', JStr (j_error_code j)),
    (''final_artifacts'', JArr (map artifact_json (fs_finals st))), (''job_id'', JStr (j_id j)),
    (''manifest_sha256'', JStr (j_manifest_hash j)), (''state'', JStr state), (''stop_reason'', JStr (j_stop_reason j)),
    (''summary'', JStr (fs_summary st))]"

definition finish_stages :: "string \<Rightarrow> string \<Rightarrow> int \<Rightarrow> ControlDB \<Rightarrow> ControlDB result" where
  "finish_stages jid state now db = fold_result (\<lambda>d g. if sg_state g = ''SUCCEEDED'' then Inr d else setStageState (sg_id g) state now d) db
    (sort_key sg_ordinal (filter (\<lambda>g. sg_job g = jid) (ct_stages db)))"

definition finishJob :: "ExecJobRow \<Rightarrow> jobChild list \<Rightarrow> string \<Rightarrow> int \<Rightarrow> ControlDB \<Rightarrow> ControlDB result" where
  "finishJob j children state now db =
    rbind (fold_result (finish_child j state now) \<lparr>fs_finals = [], fs_failures = [], fs_summary = [], fs_db = db\<rparr> children) (\<lambda>st.
    let db1 = fs_db st;
        db2 = db1\<lparr>ct_jobs := update_where (\<lambda>x. j_id x = j_id j) (\<lambda>x. x\<lparr>j_result := Some (job_result_json j state st)\<rparr>) (ct_jobs db1)\<rparr> in
    rbind (finish_stages (j_id j) state now db2) (\<lambda>db3.
    rbind (jobState j state (j_stop_reason j) (j_error_code j) now db3) (\<lambda>(_, db4). Inr db4)))"

section \<open>The reduce barrier\<close>

record ManifestItem =
  mi_PartitionKey :: string
  mi_TaskID :: string
  mi_AttemptID :: string
  mi_Generation :: int
  mi_TemplateDigest :: string
  mi_ScopePaths :: "string list"
  mi_ArtifactID :: string
  mi_SHA256 :: string
  mi_Size :: int

definition manifest_item_json :: "ManifestItem \<Rightarrow> json" where
  "manifest_item_json i = JObj [(''partition_key'', JStr (mi_PartitionKey i)), (''task_id'', JStr (mi_TaskID i)),
    (''attempt_id'', JStr (mi_AttemptID i)), (''generation'', JInt (mi_Generation i)), (''template_digest'', JStr (mi_TemplateDigest i)),
    (''scope_paths'', json_strs (mi_ScopePaths i)), (''artifact_id'', JStr (mi_ArtifactID i)), (''sha256'', JStr (mi_SHA256 i)),
    (''size'', JInt (mi_Size i))]"

definition manifest_json :: "string \<Rightarrow> ManifestItem list \<Rightarrow> json" where
  "manifest_json base items = JObj [(''version'', JStr ''inputs.v1''), (''base_commit'', JStr base),
    (''items'', JArr (map manifest_item_json items))]"

text \<open>\<open>Inr None\<close>: an input artifact is missing and the job stops.\<close>

definition manifest_item :: "ExecJobRow \<Rightarrow> Map \<Rightarrow> ControlDB \<Rightarrow> jobChild \<Rightarrow> ManifestItem option result" where
  "manifest_item j m db c = (
    case List.find (\<lambda>p. pt_Key p = jc_key c) (mp_Partitions m) of None \<Rightarrow> Inl (Error ''unexpected map partition'')
    | Some part \<Rightarrow>
        rbind (selectedResultArtifact c db) (\<lambda>sel.
        case sel of None \<Rightarrow> Inr None
        | Some x \<Rightarrow>
            rbind (select_row (\<lambda>a. a_id a = jc_attempt c \<and> a_released a) (ct_attempts db)) (\<lambda>a.
            Inr (Some \<lparr>mi_PartitionKey = jc_key c, mi_TaskID = jc_id c, mi_AttemptID = jc_attempt c, mi_Generation = a_generation a,
              mi_TemplateDigest = map_get (j_digests j) (TemplateKey (pt_Execution part)), mi_ScopePaths = pt_ScopePaths part,
              mi_ArtifactID = af_id x, mi_SHA256 = af_hash x, mi_Size = af_size x\<rparr>))))"

fun manifest_items :: "(jobChild \<Rightarrow> ManifestItem option result) \<Rightarrow> jobChild list \<Rightarrow> ManifestItem list option result" where
  "manifest_items f [] = Inr (Some [])"
| "manifest_items f (c # cs) = rbind (f c) (\<lambda>i. case i of None \<Rightarrow> Inr None
    | Some x \<Rightarrow> rbind (manifest_items f cs) (\<lambda>xs. Inr (map_option ((#) x) xs)))"

definition drop_job :: "(ExecJobRow \<times> ControlDB) result \<Rightarrow> ControlDB result" where
  "drop_job r = rbind r (\<lambda>(_, db). Inr db)"

definition commit_manifest :: "ExecJobRow \<Rightarrow> json \<Rightarrow> string \<Rightarrow> ControlDB \<Rightarrow> ControlDB result" where
  "commit_manifest j raw digest db = (
    let hit = (\<lambda>x. j_id x = j_id j \<and> j_manifest_hash x = []) in
    if count_where hit (ct_jobs db) \<noteq> 1 then Inl (Error ''reduce barrier already committed'')
    else Inr (db\<lparr>ct_jobs := update_where hit (\<lambda>x. x\<lparr>j_manifest := Some raw, j_manifest_hash := digest\<rparr>) (ct_jobs db)\<rparr>))"

definition open_reduce ::
  "(TaskEvent \<Rightarrow> string) \<Rightarrow> (TaskSpec \<Rightarrow> string) \<Rightarrow> ServerConfig \<Rightarrow> (string \<Rightarrow> string \<Rightarrow> string) \<Rightarrow> ExecJobRow \<Rightarrow> Reduce \<Rightarrow> ManifestItem list \<Rightarrow>
   string \<Rightarrow> int \<Rightarrow> ControlDB \<Rightarrow> ControlDB result" where
  "open_reduce enc encs cfg tids j rd items digest now db =
    rbind (fold_result (\<lambda>d i. pinArtifactRef (mi_ArtifactID i) ''reduce_input'' (j_id j @ '':reduce'') now d) db items) (\<lambda>db1.
    rbind (setStageState (j_id j @ '':map'') ''SUCCEEDED'' now db1) (\<lambda>db2.
    rbind (setStageState (j_id j @ '':reduce'') ''READY'' now db2) (\<lambda>db3.
    rbind (insertJobTask enc encs cfg (j_id j) (j_owner j) (j_deadline j) ''reduce'' ''_reduce'' (j_spec j) (rd_Execution rd)
      (in_Text (sp_Input (j_spec j)) @ [CHR 0x0A, CHR 0x0A] @ in_Text (rd_Input rd)) (j_routes j) (tids ''reduce'' ''_reduce'') now db3) (\<lambda>db4.
    rbind (drop_job (jobState j ''REDUCING'' [] [] now db4)) (\<lambda>db5.
    appendJobEvent (j_id j) ''job.reduce_created'' (JObj [(''manifest_sha256'', JStr digest), (''partitions'', JInt (int (length items)))])
      [] [] now db5)))))"

definition createReduce ::
  "(TaskEvent \<Rightarrow> string) \<Rightarrow> (TaskSpec \<Rightarrow> string) \<Rightarrow> ServerConfig \<Rightarrow> (string \<Rightarrow> string \<Rightarrow> string) \<Rightarrow> ExecJobRow \<Rightarrow> Map \<Rightarrow> jobChild list \<Rightarrow>
   int \<Rightarrow> ControlDB \<Rightarrow> ControlDB result" where
  "createReduce enc encs cfg tids j m children now db =
    rbind (manifest_items (manifest_item j m db) children) (\<lambda>r.
    case r of None \<Rightarrow> drop_job (jobState j ''STOPPING'' ''INVALID_INPUT_ARTIFACT'' ''INVALID_INPUT_ARTIFACT'' now db)
    | Some items \<Rightarrow>
        let raw = manifest_json (ws_BaseCommit (sp_Workspace (j_spec j))) items; digest = Hash (json_text raw) in
        if sum_list (map mi_Size items) > cf_MaxReduceInputBytes cfg \<or> int (length (json_text raw)) > cf_MaxManifestBytes cfg
        then drop_job (jobState j ''STOPPING'' ''INPUT_LIMIT'' ''INPUT_LIMIT'' now db)
        else case sp_Reduce (j_spec j) of None \<Rightarrow> Inl (Error ''nil pointer dereference'')
          | Some rd \<Rightarrow> rbind (commit_manifest j raw digest db) (open_reduce enc encs cfg tids j rd items digest now))"

section \<open>Advancing a job\<close>

definition deadline_reason :: "ExecJobRow \<Rightarrow> int \<Rightarrow> string \<times> string \<Rightarrow> string \<times> string" where
  "deadline_reason j now = (\<lambda>(reason, code).
    if reason = [] \<and> j_deadline j \<le> now then (''DEADLINE_EXCEEDED'', ''DEADLINE_EXCEEDED'') else (reason, code))"

fun child_reason :: "bool \<times> string \<times> string \<Rightarrow> jobChild \<Rightarrow> bool \<times> string \<times> string" where
  "child_reason (unknown, reason, code) c = (
    let (unknown1, reason1, code1) = (if jc_state c = ''RECONCILING''
          then (True, if reason = [] then (''EXECUTION_UNCERTAIN'', jc_code c) else (reason, code)) else (unknown, reason, code)) in
    if (jc_state c = ''FAILED'' \<or> jc_state c = ''CANCELED'') \<and> reason1 = [] then (unknown1, ''CHILD_FAILED'', jc_code c)
    else (unknown1, reason1, code1))"

definition stop_reason :: "ExecJobRow \<Rightarrow> jobChild list \<Rightarrow> int \<Rightarrow> bool \<times> string \<times> string" where
  "stop_reason j children now = (
    let (unknown, r) = foldl child_reason (False, deadline_reason j now (j_stop_reason j, j_error_code j)) children in
    (unknown, deadline_reason j now r))"

text \<open>One child of a stopping job: a task that has not started is cancelled, a running one is asked to stop.\<close>

definition stop_child ::
  "(TaskEvent \<Rightarrow> string) \<Rightarrow> (string \<Rightarrow> string) \<Rightarrow> string \<Rightarrow> int \<Rightarrow> jobChild list \<times> ControlDB \<Rightarrow> jobChild \<Rightarrow> (jobChild list \<times> ControlDB) result" where
  "stop_child enc cid reason now = (\<lambda>(out, db) c.
    if job_terminal (jc_state c) then Inr (out @ [c], db)
    else rbind (select_row (\<lambda>t. t_id t = jc_id c) (ct_tasks db)) (\<lambda>t.
      if jc_attempt c = []
      then rbind (setState enc (jc_id c) ''CANCELED'' [] [] now db) (\<lambda>db1. Inr (out @ [c\<lparr>jc_state := ''CANCELED''\<rparr>], db1))
      else
        rbind (if jc_state c \<noteq> ''RECONCILING'' then setState enc (jc_id c) ''CANCELING'' reason ''job stopping'' now db else Inr db) (\<lambda>db1.
        rbind (stopCommand (cid (jc_id c)) t db1) (\<lambda>db2. Inr (out @ [c], db2)))))"

definition stop_job ::
  "(TaskEvent \<Rightarrow> string) \<Rightarrow> (string \<Rightarrow> string) \<Rightarrow> ExecJobRow \<Rightarrow> jobChild list \<Rightarrow> bool \<Rightarrow> string \<Rightarrow> string \<Rightarrow> int \<Rightarrow> ControlDB \<Rightarrow> ControlDB result" where
  "stop_job enc cid j children unknown reason code now db =
    rbind (jobState j (if unknown then ''RECONCILING'' else ''STOPPING'') reason code now db) (\<lambda>(j1, db1).
    rbind (fold_result (stop_child enc cid reason now) ([], db1) children) (\<lambda>(cs, db2).
    if list_all (\<lambda>c. job_terminal (jc_state c) \<and> jc_released c) cs
    then finishJob j1 cs (if reason = ''USER_CANCEL'' then ''CANCELED'' else ''FAILED'') now db2
    else Inr db2))"

definition stage_state :: "string \<Rightarrow> string \<Rightarrow> ControlDB \<Rightarrow> string result" where
  "stage_state jid kind db = rbind (select_row (\<lambda>g. sg_job g = jid \<and> sg_kind g = kind) (ct_stages db)) (\<lambda>g. Inr (sg_state g))"

definition advance_single :: "ExecJobRow \<Rightarrow> jobChild list \<Rightarrow> int \<Rightarrow> ControlDB \<Rightarrow> ControlDB result" where
  "advance_single j children now db = (
    case children of
      [c] \<Rightarrow> if jc_state c = ''SUCCEEDED'' \<and> jc_released c then finishJob j children ''SUCCEEDED'' now db else Inr db
    | _ \<Rightarrow> Inl (Error ''invalid single job child count''))"

definition advance_map_reduce ::
  "(TaskEvent \<Rightarrow> string) \<Rightarrow> (TaskSpec \<Rightarrow> string) \<Rightarrow> ServerConfig \<Rightarrow> (string \<Rightarrow> string \<Rightarrow> string) \<Rightarrow> ExecJobRow \<Rightarrow> jobChild list \<Rightarrow> int \<Rightarrow>
   ControlDB \<Rightarrow> ControlDB result" where
  "advance_map_reduce enc encs cfg tids j children now db =
    rbind (stage_state (j_id j) ''map'' db) (\<lambda>mapStage.
    rbind (stage_state (j_id j) ''reduce'' db) (\<lambda>reduceStage.
    if mapStage \<noteq> ''SUCCEEDED'' then
      let maps = filter (\<lambda>c. jc_stage c = ''map'') children in
      if \<not> list_all (\<lambda>c. jc_state c = ''SUCCEEDED'' \<and> jc_released c) maps then Inr db
      else case sp_Map (j_spec j) of None \<Rightarrow> Inl (Error ''nil pointer dereference'')
        | Some m \<Rightarrow>
            if length maps \<noteq> length (mp_Partitions m) then Inl (Error ''map partition set mismatch'')
            else createReduce enc encs cfg tids j m children now db
    else if (reduceStage = ''READY'' \<or> reduceStage = ''RUNNING'' \<or> reduceStage = ''SUCCEEDED'')
        \<and> list_ex (\<lambda>c. jc_stage c = ''reduce'' \<and> jc_state c = ''SUCCEEDED'' \<and> jc_released c) children
      then finishJob j children ''SUCCEEDED'' now db
    else Inr db))"

text \<open>\<open>ga\<close> stands for \<open>advanceGraphTx\<close>, the step of a graph job.\<close>

definition advance_tx ::
  "(ExecJobRow \<Rightarrow> ControlDB \<Rightarrow> ControlDB result) \<Rightarrow> (TaskEvent \<Rightarrow> string) \<Rightarrow> (TaskSpec \<Rightarrow> string) \<Rightarrow> ServerConfig \<Rightarrow> (string \<Rightarrow> string) \<Rightarrow>
   (string \<Rightarrow> string \<Rightarrow> string) \<Rightarrow> string \<Rightarrow> int \<Rightarrow> ControlDB \<Rightarrow> ControlDB result" where
  "advance_tx ga enc encs cfg cid tids jid now db =
    rbind (readJob jid db) (\<lambda>j.
    if job_terminal (j_state j) then Inr db
    else if j_graph j \<noteq> None then ga j db
    else
      let children = jobChildren jid db; (unknown, reason, code) = stop_reason j children now in
      if reason \<noteq> [] then stop_job enc cid j children unknown reason code now db
      else if j_mode j = ''single'' then advance_single j children now db
      else advance_map_reduce enc encs cfg tids j children now db)"

text \<open>\<open>advanceJobs\<close> advances up to 64 jobs behind its cursor, each in its own transaction; the cursor starts again at the end.\<close>

definition due_jobs :: "string \<Rightarrow> ControlDB \<Rightarrow> string list" where
  "due_jobs cursor db = take 64 (sort (map j_id (filter (\<lambda>j. \<not> job_terminal (j_state j) \<and> j_id j > cursor) (ct_jobs db))))"

fun advance_each :: "(string \<Rightarrow> ControlDB \<Rightarrow> ControlDB result) \<Rightarrow> string \<times> ControlDB \<Rightarrow> string list \<Rightarrow> unit result \<times> string \<times> ControlDB" where
  "advance_each f (cursor, db) [] = (Inr (), cursor, db)"
| "advance_each f (cursor, db) (jid # rest) = (case f jid db of Inl e \<Rightarrow> (Inl e, cursor, db) | Inr db' \<Rightarrow> advance_each f (jid, db') rest)"

definition advanceJobs ::
  "(ExecJobRow \<Rightarrow> ControlDB \<Rightarrow> ControlDB result) \<Rightarrow> (TaskEvent \<Rightarrow> string) \<Rightarrow> (TaskSpec \<Rightarrow> string) \<Rightarrow> ServerConfig \<Rightarrow> (string \<Rightarrow> string) \<Rightarrow>
   (string \<Rightarrow> string \<Rightarrow> string) \<Rightarrow> int \<Rightarrow> string \<times> ControlDB \<Rightarrow> unit result \<times> string \<times> ControlDB" where
  "advanceJobs ga enc encs cfg cid tids now st = (
    case due_jobs (fst st) (snd st) of [] \<Rightarrow> (Inr (), [], snd st)
    | ids \<Rightarrow> advance_each (\<lambda>jid. advance_tx ga enc encs cfg cid tids jid now) st ids)"

section \<open>Cancellation and deadline of a job\<close>

record CancelJobRequest =
  cj_ControlID :: string
  cj_Reason :: string

definition cancel_request_json :: "CancelJobRequest \<Rightarrow> json" where
  "cancel_request_json r = JObj [(''control_id'', JStr (cj_ControlID r)), (''reason'', JStr (cj_Reason r))]"

definition cancel_goal :: "ExecJobRow \<Rightarrow> int \<Rightarrow> GoalDB \<Rightarrow> GoalDB" where
  "cancel_goal j now d = (
    case j_graph j of None \<Rightarrow> d
    | Some (goalID, generation) \<Rightarrow>
        if \<not> job_terminal (j_state j) then d
        else d\<lparr>goals := update_where (\<lambda>g. gl_id g = goalID \<and> gl_active_graph_generation g = generation \<and> \<not> job_terminal (gl_state g))
          (\<lambda>g. g\<lparr>gl_state := ''CANCELED'', gl_updated := now, gl_version := gl_version g + 1\<rparr>) (goals d)\<rparr>)"

definition cancel_job_tx :: "string \<Rightarrow> CancelJobRequest \<Rightarrow> int \<Rightarrow> (ControlDB, bool) tx" where
  "cancel_job_tx jid r now db = (
    let digest = Hash (json_text (cancel_request_json r)) in
    case find_job_operation jid (cj_ControlID r) db of
      Some old \<Rightarrow> if old \<noteq> digest then Inl (Status ''AlreadyExists'' ''IDEMPOTENCY_CONFLICT'') else Inr (True, db)
    | None \<Rightarrow>
        rbind (readJob jid db) (\<lambda>j.
        rbind (if \<not> job_terminal (j_state j) \<and> j_stop_reason j = [] then jobState j ''STOPPING'' ''USER_CANCEL'' [] now db else Inr (j, db)) (\<lambda>(j1, db1).
        rbind (appendJobEvent jid ''job.cancel_requested'' (JObj [(''reason'', JStr (cj_Reason r))]) (cj_ControlID r) digest now
          (db1\<lparr>ct_goal := cancel_goal j1 now (ct_goal db1)\<rparr>)) (\<lambda>db2. Inr (False, db2)))))"

definition job_operation ::
  "Principal option \<Rightarrow> string \<Rightarrow> string \<Rightarrow> bool \<Rightarrow> string \<Rightarrow> (ControlDB, bool) tx \<Rightarrow> ControlDB \<Rightarrow> (ExecJobRow \<times> bool) result \<times> ControlDB" where
  "job_operation ctx jid scope valid invalid tx db = (
    case rbind (if valid then Inr () else Inl (Status ''InvalidArgument'' invalid)) (\<lambda>_. jobAuthorized ctx jid scope db) of
      Inl e \<Rightarrow> (Inl e, db)
    | Inr _ \<Rightarrow>
        (case db_Tx tx db of (Inl e, db1) \<Rightarrow> (Inl (dbErr e), db1)
         | (Inr replayed, db1) \<Rightarrow> (rbind (map_error dbErr (readJob jid db1)) (\<lambda>j. Inr (j, replayed)), db1)))"

definition CancelJob :: "Principal option \<Rightarrow> string \<Rightarrow> CancelJobRequest \<Rightarrow> int \<Rightarrow> ControlDB \<Rightarrow> (ExecJobRow \<times> bool) result \<times> ControlDB" where
  "CancelJob ctx jid r now db = job_operation ctx jid ''jobs:cancel'' (ValidKey (cj_ControlID r) \<and> length (cj_Reason r) \<le> 1000)
    ''invalid cancellation'' (cancel_job_tx jid r now) db"

record ExtendDeadlineRequest =
  xd_OperationID :: string
  xd_NewDeadlineMS :: int

definition extend_request_json :: "ExtendDeadlineRequest \<Rightarrow> json" where
  "extend_request_json r = JObj [(''operation_id'', JStr (xd_OperationID r)), (''new_deadline_ms'', JStr (int_decimal (xd_NewDeadlineMS r)))]"

definition extension_ok :: "ServerConfig \<Rightarrow> ExecJobRow \<Rightarrow> int \<Rightarrow> int \<Rightarrow> unit result" where
  "extension_ok cfg j deadline now = (
    if job_terminal (j_state j) \<or> j_stop_reason j \<noteq> [] \<or> j_state j = ''STOPPING'' \<or> j_state j = ''RECONCILING''
    then Inl (Status ''FailedPrecondition'' ''JOB_NOT_EXTENDABLE'')
    else if deadline \<le> now \<or> deadline \<le> j_deadline j
    then Inl (Status ''InvalidArgument'' ''deadline must increase and remain in the future'')
    else if deadline - j_deadline j > cf_MaxDeadlineExtendSeconds cfg * 1000
    then Inl (Status ''InvalidArgument'' ''deadline extension exceeds per-operation limit'')
    else if deadline > j_created j + cf_MaxTotalRuntimeSeconds cfg * 1000
    then Inl (Status ''InvalidArgument'' ''deadline exceeds total runtime limit'')
    else Inr ())"

definition extend_goal :: "string \<Rightarrow> int \<Rightarrow> int \<Rightarrow> GoalDB \<Rightarrow> GoalDB" where
  "extend_goal jid deadline now d = d\<lparr>goals := update_where
    (\<lambda>g. (case List.find (\<lambda>b. bd_job b = jid) (job_bindings d) of None \<Rightarrow> False | Some b \<Rightarrow> gl_id g = bd_goal b) \<and> \<not> job_terminal (gl_state g))
    (\<lambda>g. g\<lparr>gl_deadline := deadline, gl_max_wall_time_ms := deadline - gl_created g, gl_updated := now, gl_version := gl_version g + 1\<rparr>) (goals d)\<rparr>"

definition extend_rows :: "ExecJobRow \<Rightarrow> int \<Rightarrow> int \<Rightarrow> ControlDB \<Rightarrow> ControlDB" where
  "extend_rows j deadline now db = db\<lparr>
    ct_jobs := update_where (\<lambda>x. j_id x = j_id j \<and> j_version x = j_version j)
      (\<lambda>x. x\<lparr>j_deadline := deadline, j_version := j_version x + 1, j_updated := now\<rparr>) (ct_jobs db),
    ct_tasks := update_where (\<lambda>t. t_job t = Some (j_id j) \<and> \<not> job_terminal (t_state t) \<and> t_deadline t < deadline)
      (\<lambda>t. t\<lparr>t_deadline := deadline\<rparr>) (ct_tasks db),
    ct_goal := extend_goal (j_id j) deadline now (ct_goal db)\<rparr>"

definition extend_tx :: "ServerConfig \<Rightarrow> string \<Rightarrow> ExtendDeadlineRequest \<Rightarrow> int \<Rightarrow> (ControlDB, bool) tx" where
  "extend_tx cfg jid r now db = (
    let digest = Hash (json_text (extend_request_json r)); deadline = xd_NewDeadlineMS r in
    case find_job_operation jid (xd_OperationID r) db of
      Some old \<Rightarrow> if old \<noteq> digest then Inl (Status ''AlreadyExists'' ''IDEMPOTENCY_CONFLICT'') else Inr (True, db)
    | None \<Rightarrow>
        rbind (readJob jid db) (\<lambda>j.
        rbind (extension_ok cfg j deadline now) (\<lambda>_.
        if count_where (\<lambda>x. j_id x = jid \<and> j_version x = j_version j) (ct_jobs db) \<noteq> 1 then Inl (Status ''Aborted'' ''job version conflict'')
        else rbind (appendJobEvent jid ''job.deadline_extended''
            (JObj [(''from_deadline_ms'', JInt (j_deadline j)), (''to_deadline_ms'', JInt deadline)]) (xd_OperationID r) digest now
            (extend_rows j deadline now db)) (\<lambda>db1. Inr (False, db1)))))"

definition ExtendJobDeadline ::
  "ServerConfig \<Rightarrow> Principal option \<Rightarrow> string \<Rightarrow> ExtendDeadlineRequest \<Rightarrow> int \<Rightarrow> ControlDB \<Rightarrow> (ExecJobRow \<times> bool) result \<times> ControlDB" where
  "ExtendJobDeadline cfg ctx jid r now db = job_operation ctx jid ''jobs:extend'' (ValidKey (xd_OperationID r) \<and> xd_NewDeadlineMS r > 0)
    ''invalid deadline extension'' (extend_tx cfg jid r now) db"

section \<open>Compaction of events\<close>

definition compact_candidates :: "int \<Rightarrow> ControlDB \<Rightarrow> (string \<times> int \<times> int) list" where
  "compact_candidates maxEvents db = map (\<lambda>t. (t_id t, t_seq t, t_event_floor t)) (take 32 (sort_key (\<lambda>t. (t_updated t, t_id t))
    (filter (\<lambda>t. t_seq t - t_event_floor t > maxEvents) (ct_tasks db))))"

fun compact_task :: "int \<Rightarrow> ControlDB \<Rightarrow> string \<times> int \<times> int \<Rightarrow> ControlDB result" where
  "compact_task maxEvents db (task, seq, floor) = (
    if seq - maxEvents \<le> floor then Inr db
    else rbind (select_row (\<lambda>t. t_id t = task) (ct_tasks db)) (\<lambda>t.
      let target = t_seq t - maxEvents in
      if target \<le> t_event_floor t then Inr db
      else Inr (db\<lparr>ct_events := filter (\<lambda>e. \<not> (e_task e = task \<and> e_seq e \<le> target)) (ct_events db),
        ct_tasks := update_where (\<lambda>x. t_id x = task \<and> t_event_floor x < target) (\<lambda>x. x\<lparr>t_event_floor := target\<rparr>) (ct_tasks db)\<rparr>)))"

definition compactTaskEvents :: "ServerConfig \<Rightarrow> ControlDB \<Rightarrow> unit result \<times> ControlDB" where
  "compactTaskEvents cfg db = (
    if cf_MaxTaskEvents cfg \<le> 0 then (Inr (), db)
    else each_tx (compact_task (cf_MaxTaskEvents cfg)) db (compact_candidates (cf_MaxTaskEvents cfg) db))"

end
