(* ===== verification/Task_Lifecycle.thy ===== *)
theory Task_Lifecycle
  imports Control_Store
begin

text \<open>
  The abstract lifecycle of tasks and attempts, the specification that the operations on the database implement.
  A task waits in the queue without an attempt, is given an attempt of the next generation, moves between
  active states, and is finished or put back into the queue when its attempt is released. A failed task may be
  reopened while its generation is below its limit.
\<close>

section \<open>The machine\<close>

record TaskCore =
  k_id :: string
  k_limit :: int
  k_state :: string
  k_attempt :: string
  k_generation :: int

record AttemptCore =
  l_id :: string
  l_task :: string
  l_generation :: int
  l_released :: bool

record Lifecycle =
  lc_tasks :: "TaskCore list"
  lc_attempts :: "AttemptCore list"

definition active_states :: "string set" where
  "active_states = {''STARTING'', ''RUNNING'', ''VERIFYING'', ''CANCELING'', ''RECONCILING''}"

definition put_task :: "string \<Rightarrow> (TaskCore \<Rightarrow> TaskCore) \<Rightarrow> Lifecycle \<Rightarrow> Lifecycle" where
  "put_task i f L = L\<lparr>lc_tasks := update_where (\<lambda>t. k_id t = i) f (lc_tasks L)\<rparr>"

definition release :: "string \<Rightarrow> Lifecycle \<Rightarrow> Lifecycle" where
  "release a L = L\<lparr>lc_attempts := update_where (\<lambda>x. l_id x = a) (\<lambda>x. x\<lparr>l_released := True\<rparr>) (lc_attempts L)\<rparr>"

definition start_attempt :: "TaskCore \<Rightarrow> string \<Rightarrow> Lifecycle \<Rightarrow> Lifecycle" where
  "start_attempt t a L = (put_task (k_id t)
      (\<lambda>x. x\<lparr>k_state := ''STARTING'', k_attempt := a, k_generation := k_generation t + 1\<rparr>) L)
    \<lparr>lc_attempts := lc_attempts L @ [\<lparr>l_id = a, l_task = k_id t, l_generation = k_generation t + 1, l_released = False\<rparr>]\<rparr>"

inductive life :: "Lifecycle \<Rightarrow> Lifecycle \<Rightarrow> bool" where
  enqueue: "\<lbrakk>k_id t \<notin> k_id ` set (lc_tasks L); k_state t = ''QUEUED''; k_attempt t = []; k_generation t = 0; 1 \<le> k_limit t\<rbrakk>
    \<Longrightarrow> life L (L\<lparr>lc_tasks := lc_tasks L @ [t]\<rparr>)"
| assign: "\<lbrakk>t \<in> set (lc_tasks L); k_state t = ''QUEUED''; a \<noteq> []; a \<notin> l_id ` set (lc_attempts L)\<rbrakk>
    \<Longrightarrow> life L (start_attempt t a L)"
| move: "\<lbrakk>t \<in> set (lc_tasks L); k_state t \<in> active_states; s \<in> active_states\<rbrakk>
    \<Longrightarrow> life L (put_task (k_id t) (\<lambda>x. x\<lparr>k_state := s\<rparr>) L)"
| drop: "\<lbrakk>t \<in> set (lc_tasks L); k_state t = ''QUEUED''; s = ''CANCELED'' \<or> s = ''FAILED''\<rbrakk>
    \<Longrightarrow> life L (put_task (k_id t) (\<lambda>x. x\<lparr>k_state := s\<rparr>) L)"
| finish: "\<lbrakk>t \<in> set (lc_tasks L); k_state t \<in> active_states; job_terminal s\<rbrakk>
    \<Longrightarrow> life L (release (k_attempt t) (put_task (k_id t) (\<lambda>x. x\<lparr>k_state := s\<rparr>) L))"
| retry: "\<lbrakk>t \<in> set (lc_tasks L); k_state t \<in> active_states; k_generation t < k_limit t\<rbrakk>
    \<Longrightarrow> life L (release (k_attempt t) (put_task (k_id t) (\<lambda>x. x\<lparr>k_state := ''QUEUED'', k_attempt := []\<rparr>) L))"
| reopen: "\<lbrakk>t \<in> set (lc_tasks L); k_state t = ''FAILED''; k_generation t < k_limit t\<rbrakk>
    \<Longrightarrow> life L (put_task (k_id t) (\<lambda>x. x\<lparr>k_state := ''QUEUED'', k_attempt := []\<rparr>) L)"

section \<open>The invariant\<close>

definition holds_attempt :: "Lifecycle \<Rightarrow> TaskCore \<Rightarrow> AttemptCore \<Rightarrow> bool" where
  "holds_attempt L t a \<longleftrightarrow> a \<in> set (lc_attempts L) \<and> l_id a = k_attempt t \<and> l_task a = k_id t \<and> l_generation a = k_generation t"

definition task_ok :: "Lifecycle \<Rightarrow> TaskCore \<Rightarrow> bool" where
  "task_ok L t \<longleftrightarrow> (k_state t = ''QUEUED'' \<or> k_state t \<in> active_states \<or> job_terminal (k_state t))
    \<and> 0 \<le> k_generation t \<and> k_generation t \<le> k_limit t
    \<and> (k_state t = ''QUEUED'' \<longrightarrow> k_attempt t = [] \<and> k_generation t < k_limit t)
    \<and> (k_state t \<in> active_states \<longrightarrow> (\<exists>a. holds_attempt L t a \<and> \<not> l_released a))
    \<and> (k_attempt t \<noteq> [] \<longrightarrow> (\<exists>a. holds_attempt L t a))"

definition attempt_ok :: "Lifecycle \<Rightarrow> AttemptCore \<Rightarrow> bool" where
  "attempt_ok L a \<longleftrightarrow> l_id a \<noteq> [] \<and> 1 \<le> l_generation a
    \<and> (\<exists>t\<in>set (lc_tasks L). k_id t = l_task a \<and> l_generation a \<le> k_generation t
        \<and> (\<not> l_released a \<longrightarrow> k_attempt t = l_id a \<and> k_state t \<in> active_states))"

definition life_inv :: "Lifecycle \<Rightarrow> bool" where
  "life_inv L \<longleftrightarrow> distinct (map k_id (lc_tasks L)) \<and> distinct (map l_id (lc_attempts L))
    \<and> distinct (map (\<lambda>a. (l_task a, l_generation a)) (lc_attempts L))
    \<and> (\<forall>t\<in>set (lc_tasks L). task_ok L t) \<and> (\<forall>a\<in>set (lc_attempts L). attempt_ok L a)"

lemma distinct_key: "distinct (map f xs) \<Longrightarrow> x \<in> set xs \<Longrightarrow> y \<in> set xs \<Longrightarrow> f x = f y \<Longrightarrow> x = y"
  by (simp add: distinct_map inj_on_def)

lemma state_disjoint [simp]:
  "''QUEUED'' \<notin> active_states" "''SUCCEEDED'' \<notin> active_states" "''FAILED'' \<notin> active_states" "''CANCELED'' \<notin> active_states"
  "\<not> job_terminal ''QUEUED''" "job_terminal ''SUCCEEDED''" "job_terminal ''FAILED''" "job_terminal ''CANCELED''"
  "''STARTING'' \<in> active_states" "''RUNNING'' \<in> active_states" "''VERIFYING'' \<in> active_states"
  "''CANCELING'' \<in> active_states" "''RECONCILING'' \<in> active_states"
  by (simp_all add: active_states_def job_terminal_def)

lemma active_not_terminal: "s \<in> active_states \<Longrightarrow> \<not> job_terminal s"
  by (auto simp: active_states_def job_terminal_def)

lemma active_not_queued: "s \<in> active_states \<Longrightarrow> s \<noteq> ''QUEUED''"
  by (auto simp: active_states_def)

lemma life_inv_empty: "life_inv \<lparr>lc_tasks = [], lc_attempts = []\<rparr>"
  by (simp add: life_inv_def)

lemma put_task_simps [simp]:
  "lc_attempts (put_task i f L) = lc_attempts L" "lc_tasks (put_task i f L) = update_where (\<lambda>t. k_id t = i) f (lc_tasks L)"
  "lc_tasks (release a L) = lc_tasks L"
  "lc_attempts (release a L) = update_where (\<lambda>x. l_id x = a) (\<lambda>x. x\<lparr>l_released := True\<rparr>) (lc_attempts L)"
  by (simp_all add: put_task_def release_def)

lemma task_ok_attempts: "lc_attempts L' = lc_attempts L \<Longrightarrow> task_ok L' t = task_ok L t"
  by (simp add: task_ok_def holds_attempt_def)

lemma put_task_rows:
  assumes "life_inv L" "t \<in> set (lc_tasks L)"
  shows "update_where (\<lambda>x. k_id x = k_id t) f (lc_tasks L) = map (\<lambda>x. if x = t then f t else x) (lc_tasks L)"
proof -
  have "k_id x = k_id t \<longleftrightarrow> x = t" if "x \<in> set (lc_tasks L)" for x
    using distinct_key [of k_id "lc_tasks L" x t] assms that by (auto simp: life_inv_def)
  then show ?thesis by (simp add: update_where_def)
qed

text \<open>One task is rewritten.\<close>

lemma put_task_inv:
  assumes inv: "life_inv L" and t: "t \<in> set (lc_tasks L)"
    and f: "k_id (f t) = k_id t" "task_ok L (f t)" "k_generation t \<le> k_generation (f t)"
    and own: "\<And>a. \<lbrakk>a \<in> set (lc_attempts L); l_task a = k_id t; \<not> l_released a\<rbrakk> \<Longrightarrow> k_attempt (f t) = l_id a \<and> k_state (f t) \<in> active_states"
  shows "life_inv (put_task (k_id t) f L)"
proof -
  note rows = put_task_rows [OF inv t, of f]
  have ids: "map k_id (update_where (\<lambda>x. k_id x = k_id t) f (lc_tasks L)) = map k_id (lc_tasks L)"
    using f(1) by (simp add: rows)
  have "task_ok (put_task (k_id t) f L) x" if "x \<in> set (lc_tasks (put_task (k_id t) f L))" for x
    using that inv f(2) task_ok_attempts [of "put_task (k_id t) f L" L] by (auto simp: rows life_inv_def split: if_splits)
  moreover have "attempt_ok (put_task (k_id t) f L) a" if a: "a \<in> set (lc_attempts L)" for a
  proof -
    from inv a obtain x where x: "x \<in> set (lc_tasks L)" "k_id x = l_task a" "l_generation a \<le> k_generation x"
        "\<not> l_released a \<longrightarrow> k_attempt x = l_id a \<and> k_state x \<in> active_states" and l: "l_id a \<noteq> []" "1 \<le> l_generation a"
      by (auto simp: life_inv_def attempt_ok_def)
    show ?thesis
    proof (cases "x = t")
      case True
      have "f t \<in> set (lc_tasks (put_task (k_id t) f L))" using t by (force simp: rows)
      then show ?thesis using True x f own [OF a] l unfolding attempt_ok_def by (metis order_trans)
    next
      case False
      then have "x \<in> set (lc_tasks (put_task (k_id t) f L))" using x(1) by (force simp: rows)
      then show ?thesis using x l unfolding attempt_ok_def by blast
    qed
  qed
  ultimately show ?thesis using inv ids by (simp add: life_inv_def)
qed

text \<open>The attempt an active task holds is the only unreleased one of the task.\<close>

lemma active_attempt:
  assumes inv: "life_inv L" and t: "t \<in> set (lc_tasks L)" "k_state t \<in> active_states"
  obtains a where "holds_attempt L t a" "\<not> l_released a"
    "\<forall>b\<in>set (lc_attempts L). l_id b = k_attempt t \<longrightarrow> b = a"
    "\<forall>b\<in>set (lc_attempts L). l_task b = k_id t \<longrightarrow> \<not> l_released b \<longrightarrow> b = a"
proof -
  from inv t obtain a where a: "holds_attempt L t a" "\<not> l_released a" by (auto simp: life_inv_def task_ok_def)
  have u: "b = a" if "b \<in> set (lc_attempts L)" "l_id b = k_attempt t" for b
    using distinct_key [of l_id "lc_attempts L" b a] inv a that by (simp add: life_inv_def holds_attempt_def)
  have m: "b = a" if b: "b \<in> set (lc_attempts L)" "l_task b = k_id t" "\<not> l_released b" for b
  proof -
    from inv b obtain x where x: "x \<in> set (lc_tasks L)" "k_id x = l_task b" "k_attempt x = l_id b"
      by (auto simp: life_inv_def attempt_ok_def)
    have "x = t" using distinct_key [of k_id "lc_tasks L" x t] inv t x b by (simp add: life_inv_def)
    with x u [OF b(1)] show ?thesis by simp
  qed
  show thesis using u m by (intro that [OF a]) simp_all
qed

text \<open>A task leaves the active states and its attempt is released.\<close>

lemma settle_inv:
  assumes inv: "life_inv L" and t: "t \<in> set (lc_tasks L)" "k_state t \<in> active_states"
    and f: "k_id (f t) = k_id t" "k_generation (f t) = k_generation t" "k_limit (f t) = k_limit t"
      "k_state (f t) = ''QUEUED'' \<and> k_attempt (f t) = [] \<and> k_generation t < k_limit t
       \<or> job_terminal (k_state (f t)) \<and> k_attempt (f t) = k_attempt t"
  shows "life_inv (release (k_attempt t) (put_task (k_id t) f L))"
proof -
  define L' where "L' = release (k_attempt t) (put_task (k_id t) f L)"
  obtain a where a: "holds_attempt L t a" "\<not> l_released a"
    and only: "\<forall>b\<in>set (lc_attempts L). l_id b = k_attempt t \<longrightarrow> b = a"
    and mine: "\<forall>b\<in>set (lc_attempts L). l_task b = k_id t \<longrightarrow> \<not> l_released b \<longrightarrow> b = a"
    by (rule active_attempt [OF inv t])
  let ?r = "\<lambda>x. if x = a then x\<lparr>l_released := True\<rparr> else x"
  have "l_id b = k_attempt t \<longleftrightarrow> b = a" if "b \<in> set (lc_attempts L)" for b
    using only a(1) that unfolding holds_attempt_def by metis
  then have as: "lc_attempts L' = map ?r (lc_attempts L)" by (simp add: update_where_def L'_def)
  have ts: "lc_tasks L' = map (\<lambda>x. if x = t then f t else x) (lc_tasks L)"
    by (simp add: put_task_rows [OF inv t(1)] L'_def)
  have rk: "l_id (?r x) = l_id x" "l_task (?r x) = l_task x" "l_generation (?r x) = l_generation x" for x by simp_all
  have holds: "holds_attempt L' x (?r b)" if "holds_attempt L x b" for x b
    using that by (auto simp: holds_attempt_def as)
  have tok: "task_ok L t" using inv t by (simp add: life_inv_def)
  have na: "k_state (f t) \<notin> active_states" using f(4) active_not_terminal by auto
  have "task_ok L' (f t)"
  proof -
    have h: "\<exists>b. holds_attempt L' (f t) b" if "k_attempt (f t) \<noteq> []"
      using holds [OF a(1)] f that by (auto simp: holds_attempt_def)
    have g: "0 \<le> k_generation t" "k_generation t \<le> k_limit t" using tok by (simp_all add: task_ok_def)
    have q: "k_state (f t) \<noteq> ''QUEUED''" if "job_terminal (k_state (f t))" using that by auto
    from f(4) show ?thesis
      by (rule disjE) (simp_all add: task_ok_def f g na h q)
  qed
  moreover have "task_ok L' x" if x: "x \<in> set (lc_tasks L)" "x \<noteq> t" for x
  proof -
    have xk: "task_ok L x" using inv x by (simp add: life_inv_def)
    have ne: "b \<noteq> a" if "holds_attempt L x b" for b
      using that a x t distinct_key [of k_id "lc_tasks L" x t] inv by (auto simp: holds_attempt_def life_inv_def)
    have "\<exists>b. holds_attempt L' x b \<and> \<not> l_released b" if "k_state x \<in> active_states"
      using xk that holds ne unfolding task_ok_def by metis
    moreover have "\<exists>b. holds_attempt L' x b" if "k_attempt x \<noteq> []" using xk that holds unfolding task_ok_def by blast
    ultimately show ?thesis using xk unfolding task_ok_def by blast
  qed
  ultimately have tasks: "\<forall>x\<in>set (lc_tasks L'). task_ok L' x" by (auto simp: ts)
  have ok: "attempt_ok L' (?r b)" if b: "b \<in> set (lc_attempts L)" for b
  proof -
    from inv b obtain x where x: "x \<in> set (lc_tasks L)" "k_id x = l_task b" "l_generation b \<le> k_generation x"
        "\<not> l_released b \<longrightarrow> k_attempt x = l_id b \<and> k_state x \<in> active_states" "l_id b \<noteq> []" "1 \<le> l_generation b"
      by (auto simp: life_inv_def attempt_ok_def)
    have "b = a \<or> l_released b" if "x = t" using mine b x that by metis
    moreover have "(if x = t then f t else x) \<in> set (lc_tasks L')" using x(1) by (auto simp: ts)
    ultimately show ?thesis using x f unfolding attempt_ok_def by (cases "x = t") (force, auto)
  qed
  have "\<forall>b\<in>set (lc_attempts L'). attempt_ok L' b" unfolding as set_map using ok by blast
  moreover have "map k_id (lc_tasks L') = map k_id (lc_tasks L)" using f(1) by (simp add: ts)
  moreover have "map l_id (lc_attempts L') = map l_id (lc_attempts L)"
      "map (\<lambda>a. (l_task a, l_generation a)) (lc_attempts L') = map (\<lambda>a. (l_task a, l_generation a)) (lc_attempts L)"
    by (simp_all add: as)
  ultimately have "life_inv L'" using inv tasks unfolding life_inv_def by simp
  then show ?thesis by (simp add: L'_def)
qed

lemma start_inv:
  assumes inv: "life_inv L" and t: "t \<in> set (lc_tasks L)" "k_state t = ''QUEUED''" and a: "a \<noteq> []" "a \<notin> l_id ` set (lc_attempts L)"
  shows "life_inv (start_attempt t a L)"
proof -
  define n where "n = \<lparr>l_id = a, l_task = k_id t, l_generation = k_generation t + 1, l_released = False\<rparr>"
  define f where "f = (\<lambda>x::TaskCore. x\<lparr>k_state := ''STARTING'', k_attempt := a, k_generation := k_generation t + 1\<rparr>)"
  define L' where "L' = start_attempt t a L"
  have as: "lc_attempts L' = lc_attempts L @ [n]" by (simp add: L'_def start_attempt_def n_def)
  have ts: "lc_tasks L' = map (\<lambda>x. if x = t then f t else x) (lc_tasks L)"
    using put_task_rows [OF inv t(1), of f] by (simp add: L'_def start_attempt_def f_def)
  have tok: "task_ok L t" using inv t by (simp add: life_inv_def)
  have holds: "holds_attempt L' x b" if "holds_attempt L x b" for x b using that by (simp add: holds_attempt_def as)
  have older: "l_generation b \<le> k_generation t \<and> l_released b" if b: "b \<in> set (lc_attempts L)" "l_task b = k_id t" for b
  proof -
    have "attempt_ok L b" using inv b by (simp add: life_inv_def)
    then obtain x where x: "x \<in> set (lc_tasks L)" "k_id x = l_task b" "l_generation b \<le> k_generation x"
        "\<not> l_released b \<longrightarrow> k_state x \<in> active_states" by (auto simp: attempt_ok_def)
    have "x = t" using distinct_key [of k_id "lc_tasks L" x t] inv t x b by (simp add: life_inv_def)
    with x t show ?thesis by auto
  qed
  have "task_ok L' (f t)"
  proof -
    have "holds_attempt L' (f t) n" by (simp add: holds_attempt_def as f_def n_def)
    moreover have "\<not> l_released n" by (simp add: n_def)
    moreover have "0 \<le> k_generation t" "k_generation t + 1 \<le> k_limit t" using tok t by (simp_all add: task_ok_def)
    ultimately show ?thesis unfolding task_ok_def by (auto simp: f_def)
  qed
  moreover have "task_ok L' x" if "x \<in> set (lc_tasks L)" for x
  proof -
    have "task_ok L x" using inv that by (simp add: life_inv_def)
    then show ?thesis using holds unfolding task_ok_def by blast
  qed
  ultimately have tasks: "\<forall>x\<in>set (lc_tasks L'). task_ok L' x" by (auto simp: ts)
  have ft: "f t \<in> set (lc_tasks L')" using t by (auto simp: ts)
  have "0 \<le> k_generation t" using tok by (simp add: task_ok_def)
  then have "attempt_ok L' n" unfolding attempt_ok_def using a ft by (auto simp: n_def intro!: bexI [of _ "f t"]) (simp_all add: f_def)
  moreover have "attempt_ok L' b" if b: "b \<in> set (lc_attempts L)" for b
  proof (cases "l_task b = k_id t")
    case True
    have "l_id b \<noteq> []" "1 \<le> l_generation b" using inv b by (auto simp: life_inv_def attempt_ok_def)
    moreover have "k_id (f t) = l_task b" "l_generation b \<le> k_generation (f t)" "l_released b"
      using older [OF b True] True by (simp_all add: f_def)
    ultimately show ?thesis using ft unfolding attempt_ok_def by blast
  next
    case False
    have "attempt_ok L b" using inv b by (simp add: life_inv_def)
    then obtain x where x: "x \<in> set (lc_tasks L)" "k_id x = l_task b" "l_generation b \<le> k_generation x"
        "\<not> l_released b \<longrightarrow> k_attempt x = l_id b \<and> k_state x \<in> active_states" "l_id b \<noteq> []" "1 \<le> l_generation b"
      by (auto simp: attempt_ok_def)
    moreover have "x \<in> set (lc_tasks L')" using x(1,2) False by (force simp: ts)
    ultimately show ?thesis unfolding attempt_ok_def by blast
  qed
  ultimately have attempts: "\<forall>b\<in>set (lc_attempts L'). attempt_ok L' b" by (auto simp: as)
  have "(k_id t, k_generation t + 1) \<notin> (\<lambda>b. (l_task b, l_generation b)) ` set (lc_attempts L)" using older by force
  moreover have "map k_id (lc_tasks L') = map k_id (lc_tasks L)" by (simp add: ts f_def)
  ultimately have "life_inv L'" using inv tasks attempts a unfolding life_inv_def by (simp add: as n_def)
  then show ?thesis by (simp add: L'_def)
qed

lemma enqueue_inv:
  assumes inv: "life_inv L" and t: "k_id t \<notin> k_id ` set (lc_tasks L)" "k_state t = ''QUEUED''" "k_attempt t = []"
    "k_generation t = 0" "1 \<le> k_limit t"
  shows "life_inv (L\<lparr>lc_tasks := lc_tasks L @ [t]\<rparr>)"
proof -
  let ?L = "L\<lparr>lc_tasks := lc_tasks L @ [t]\<rparr>"
  have "task_ok ?L x \<longleftrightarrow> task_ok L x" for x by (simp add: task_ok_def holds_attempt_def)
  moreover have "task_ok L t" using t by (simp add: task_ok_def)
  moreover have "attempt_ok ?L a" if "attempt_ok L a" for a using that by (auto simp: attempt_ok_def)
  ultimately show ?thesis using inv t by (simp add: life_inv_def)
qed

lemma no_unreleased:
  assumes "life_inv L" "t \<in> set (lc_tasks L)" "k_state t \<notin> active_states" "a \<in> set (lc_attempts L)" "l_task a = k_id t"
  shows "l_released a"
proof -
  have "attempt_ok L a" using assms by (simp add: life_inv_def)
  then obtain x where "x \<in> set (lc_tasks L)" "k_id x = k_id t" "\<not> l_released a \<longrightarrow> k_state x \<in> active_states"
    using assms(5) by (auto simp: attempt_ok_def)
  then show ?thesis using distinct_key [of k_id "lc_tasks L" x t] assms by (auto simp: life_inv_def)
qed

lemma active_move_ok:
  assumes "task_ok L t" "k_state t \<in> active_states" "s \<in> active_states"
  shows "task_ok L (t\<lparr>k_state := s\<rparr>)"
  using assms active_not_queued [of s] by (auto simp: task_ok_def holds_attempt_def)

theorem life_preserves_inv:
  assumes "life L L'" "life_inv L"
  shows "life_inv L'"
  using assms
proof (induction rule: life.induct)
  case (enqueue t L)
  then show ?case by (intro enqueue_inv)
next
  case (assign t L a)
  then show ?case by (intro start_inv)
next
  case (move t L s)
  have ok: "task_ok L t" using move by (simp add: life_inv_def)
  show ?case
  proof (rule put_task_inv [OF move.prems move.hyps(1)])
    show "task_ok L (t\<lparr>k_state := s\<rparr>)" by (rule active_move_ok [OF ok move.hyps(2,3)])
    fix a assume a: "a \<in> set (lc_attempts L)" "l_task a = k_id t" "\<not> l_released a"
    obtain b where "holds_attempt L t b" "\<forall>c\<in>set (lc_attempts L). l_task c = k_id t \<longrightarrow> \<not> l_released c \<longrightarrow> c = b"
      by (rule active_attempt [OF move.prems move.hyps(1,2)])
    with a have "holds_attempt L t a" by metis
    then show "k_attempt (t\<lparr>k_state := s\<rparr>) = l_id a \<and> k_state (t\<lparr>k_state := s\<rparr>) \<in> active_states"
      using move.hyps(3) by (simp add: holds_attempt_def)
  qed simp_all
next
  case (drop t L s)
  have ok: "task_ok L t" using drop by (simp add: life_inv_def)
  have s: "job_terminal s" "s \<noteq> ''QUEUED''" "s \<notin> active_states" using drop.hyps(3) by auto
  show ?case
  proof (rule put_task_inv [OF drop.prems drop.hyps(1)])
    show "task_ok L (t\<lparr>k_state := s\<rparr>)" using ok s drop.hyps(2) by (simp add: task_ok_def holds_attempt_def)
    fix a assume "a \<in> set (lc_attempts L)" "l_task a = k_id t" "\<not> l_released a"
    then show "k_attempt (t\<lparr>k_state := s\<rparr>) = l_id a \<and> k_state (t\<lparr>k_state := s\<rparr>) \<in> active_states"
      using no_unreleased [OF drop.prems drop.hyps(1)] drop.hyps(2) by simp
  qed simp_all
next
  case (finish t L s)
  then show ?case by (intro settle_inv) simp_all
next
  case (retry t L)
  then show ?case by (intro settle_inv) simp_all
next
  case (reopen t L)
  have ok: "task_ok L t" using reopen by (simp add: life_inv_def)
  show ?case
  proof (rule put_task_inv [OF reopen.prems reopen.hyps(1)])
    show "task_ok L (t\<lparr>k_state := ''QUEUED'', k_attempt := []\<rparr>)" using ok reopen.hyps(3) by (simp add: task_ok_def)
    fix a assume "a \<in> set (lc_attempts L)" "l_task a = k_id t" "\<not> l_released a"
    then show "k_attempt (t\<lparr>k_state := ''QUEUED'', k_attempt := []\<rparr>) = l_id a
        \<and> k_state (t\<lparr>k_state := ''QUEUED'', k_attempt := []\<rparr>) \<in> active_states"
      using no_unreleased [OF reopen.prems reopen.hyps(1)] reopen.hyps(2) by simp
  qed simp_all
qed

section \<open>How tasks and attempts evolve\<close>

definition task_evolves :: "TaskCore \<Rightarrow> TaskCore \<Rightarrow> bool" where
  "task_evolves t t' \<longleftrightarrow> k_id t' = k_id t \<and> k_limit t' = k_limit t \<and> k_generation t \<le> k_generation t'
    \<and> (k_state t = ''SUCCEEDED'' \<or> k_state t = ''CANCELED'' \<longrightarrow> t' = t)
    \<and> (k_state t = ''FAILED'' \<longrightarrow> t' = t \<or> k_generation t < k_limit t)"

lemma task_evolves_refl [simp]: "task_evolves t t"
  by (simp add: task_evolves_def)

lemma task_evolves_trans: "task_evolves t u \<Longrightarrow> task_evolves u v \<Longrightarrow> task_evolves t v"
  by (auto simp: task_evolves_def)

lemma active_evolves:
  "k_state t \<in> active_states \<Longrightarrow> k_id (f t) = k_id t \<Longrightarrow> k_limit (f t) = k_limit t \<Longrightarrow> k_generation t \<le> k_generation (f t)
    \<Longrightarrow> task_evolves t (f t)"
  by (auto simp: task_evolves_def)

lemma put_task_evolves:
  assumes "life_inv L" "t \<in> set (lc_tasks L)" "task_evolves t (f t)" "x \<in> set (lc_tasks L)"
  shows "\<exists>x'\<in>set (update_where (\<lambda>t'. k_id t' = k_id t) f (lc_tasks L)). task_evolves x x'"
  unfolding put_task_rows [OF assms(1,2)] using assms(3,4) by (cases "x = t") force+

lemma life_evolves:
  assumes "life L L'" "life_inv L" "x \<in> set (lc_tasks L)"
  shows "\<exists>x'\<in>set (lc_tasks L'). task_evolves x x'"
  using assms
proof (induction rule: life.induct)
  case (enqueue t L)
  then show ?case by (auto intro: bexI [of _ x])
next
  case (assign t L a)
  have "task_evolves t (t\<lparr>k_state := ''STARTING'', k_attempt := a, k_generation := k_generation t + 1\<rparr>)"
    using assign.hyps(2) by (simp add: task_evolves_def)
  then show ?case using put_task_evolves [OF assign.prems(1) assign.hyps(1) _ assign.prems(2)] by (simp add: start_attempt_def)
next
  case (move t L s)
  then show ?case using put_task_evolves [OF move.prems(1) move.hyps(1) _ move.prems(2)]
    by (simp add: active_evolves [of t "\<lambda>t. t\<lparr>k_state := s\<rparr>"])
next
  case (drop t L s)
  have "task_evolves t (t\<lparr>k_state := s\<rparr>)" using drop.hyps(2) by (simp add: task_evolves_def)
  then show ?case using put_task_evolves [OF drop.prems(1) drop.hyps(1) _ drop.prems(2)] by simp
next
  case (finish t L s)
  then show ?case using put_task_evolves [OF finish.prems(1) finish.hyps(1) _ finish.prems(2)]
    by (simp add: active_evolves [of t "\<lambda>t. t\<lparr>k_state := s\<rparr>"])
next
  case (retry t L)
  then show ?case using put_task_evolves [OF retry.prems(1) retry.hyps(1) _ retry.prems(2)]
    by (simp add: active_evolves [of t "\<lambda>t. t\<lparr>k_state := ''QUEUED'', k_attempt := []\<rparr>"])
next
  case (reopen t L)
  have "task_evolves t (t\<lparr>k_state := ''QUEUED'', k_attempt := []\<rparr>)" using reopen.hyps by (simp add: task_evolves_def)
  then show ?case using put_task_evolves [OF reopen.prems(1) reopen.hyps(1) _ reopen.prems(2)] by simp
qed

text \<open>Attempts stay, and a released one stays released. A superseded attempt never becomes current again.\<close>

definition attempt_evolves :: "AttemptCore \<Rightarrow> AttemptCore \<Rightarrow> bool" where
  "attempt_evolves a a' \<longleftrightarrow> l_id a' = l_id a \<and> l_task a' = l_task a \<and> l_generation a' = l_generation a
    \<and> (l_released a \<longrightarrow> l_released a')"

lemma attempt_evolves_refl [simp]: "attempt_evolves a a"
  by (simp add: attempt_evolves_def)

lemma attempt_evolves_trans: "attempt_evolves a b \<Longrightarrow> attempt_evolves b c \<Longrightarrow> attempt_evolves a c"
  by (simp add: attempt_evolves_def)

lemma release_evolves:
  assumes "x \<in> set xs"
  shows "\<exists>x'\<in>set (update_where P (\<lambda>x. x\<lparr>l_released := True\<rparr>) xs). attempt_evolves x x'"
proof -
  have "(if P x then x\<lparr>l_released := True\<rparr> else x) \<in> set (update_where P (\<lambda>x. x\<lparr>l_released := True\<rparr>) xs)"
    using assms by (auto simp: update_where_def)
  moreover have "attempt_evolves x (if P x then x\<lparr>l_released := True\<rparr> else x)" by (simp add: attempt_evolves_def)
  ultimately show ?thesis by blast
qed

lemma life_attempts_evolve:
  assumes "life L L'" "a \<in> set (lc_attempts L)"
  shows "\<exists>a'\<in>set (lc_attempts L'). attempt_evolves a a'"
  using assms
  by (induction rule: life.induct) (auto simp: start_attempt_def release_evolves intro: bexI [of _ a])

definition superseded :: "Lifecycle \<Rightarrow> string \<Rightarrow> bool" where
  "superseded L i \<longleftrightarrow> i \<in> l_id ` set (lc_attempts L) \<and> i \<notin> k_attempt ` set (lc_tasks L)"

lemma life_superseded:
  assumes "life L L'" "life_inv L" "superseded L i"
  shows "superseded L' i"
proof -
  have i: "i \<in> l_id ` set (lc_attempts L)" "\<forall>t\<in>set (lc_tasks L). k_attempt t \<noteq> i"
    using assms(3) unfolding superseded_def by (blast, force)
  then have ne: "i \<noteq> []" using assms(2) by (auto simp: life_inv_def attempt_ok_def)
  obtain a where a: "a \<in> set (lc_attempts L)" "i = l_id a" using i(1) by blast
  obtain a' where a': "a' \<in> set (lc_attempts L')" "attempt_evolves a a'" using life_attempts_evolve [OF assms(1) a(1)] by blast
  have "l_id a' = i" using a(2) a'(2) by (simp add: attempt_evolves_def)
  then have "i \<in> l_id ` set (lc_attempts L')" using a'(1) by force
  moreover have "k_attempt t' \<noteq> i" if "t' \<in> set (lc_tasks L')" for t'
    using assms(1) i ne that
    by (cases rule: life.cases) (auto simp: start_attempt_def in_update_where_iff split: if_splits)
  ultimately show ?thesis unfolding superseded_def by blast
qed

section \<open>Runs\<close>

lemma life_run_inv: "life\<^sup>*\<^sup>* L L' \<Longrightarrow> life_inv L \<Longrightarrow> life_inv L'"
  by (induction rule: rtranclp_induct) (auto intro: life_preserves_inv)

lemma life_run_evolves:
  assumes "life\<^sup>*\<^sup>* L L'" "life_inv L" "t \<in> set (lc_tasks L)"
  shows "\<exists>t'\<in>set (lc_tasks L'). task_evolves t t'"
  using assms(1)
proof (induction rule: rtranclp_induct)
  case base
  show ?case using assms(3) task_evolves_refl by blast
next
  case (step M N)
  then obtain u where "u \<in> set (lc_tasks M)" "task_evolves t u" by blast
  moreover from this obtain v where "v \<in> set (lc_tasks N)" "task_evolves u v"
    using life_evolves [OF step.hyps(2) life_run_inv [OF step.hyps(1) assms(2)]] by blast
  ultimately show ?case using task_evolves_trans by blast
qed

lemma life_run_superseded: "life\<^sup>*\<^sup>* L L' \<Longrightarrow> life_inv L \<Longrightarrow> superseded L i \<Longrightarrow> superseded L' i"
  by (induction rule: rtranclp_induct) (auto intro: life_superseded life_run_inv)

lemma life_run_attempts:
  "life\<^sup>*\<^sup>* L L' \<Longrightarrow> a \<in> set (lc_attempts L) \<Longrightarrow> \<exists>a'\<in>set (lc_attempts L'). attempt_evolves a a'"
proof (induction rule: rtranclp_induct)
  case base
  then show ?case using attempt_evolves_refl by blast
next
  case (step M N)
  then obtain b where "b \<in> set (lc_attempts M)" "attempt_evolves a b" by blast
  then show ?case using life_attempts_evolve [OF step.hyps(2)] attempt_evolves_trans by blast
qed

end
