(* ===== verification/Artifact_Store.thy ===== *)
theory Artifact_Store
  imports Task_Assign
begin

text \<open>
  Artifacts (\<open>internal/server/artifacts.go\<close>, \<open>artifact_lifecycle.go\<close>): a worker uploads a file in chunks, the server
  checks its size and digest, publishes it under its identifier and registers a row; a completion accepts the row or leaves it orphaned;
  a sweep removes orphans after their retention and files that no row names.

  The directory of artifacts is the list of its entries. A call of the operating system may fail: \<open>fault\<close> gives
  the error of a call, if it has one. An upload writes a temporary file that is gone when the handler returns, so only the published
  file shows. A directory that is missing reads like an empty one.
\<close>

section \<open>Files\<close>

record Entry =
  en_dir :: bool
  en_content :: string
  en_modified :: int

type_synonym files = "(string \<times> Entry) list"

datatype io_call = MkdirAll | CreateTemp | Write_chunk nat | Sync_file | Close_file | Link_file | Open_existing | Copy_existing
  | Open_dir | Sync_dir | Remove_file string | Read_dir | Entry_info string | Open_artifact | Read_artifact

type_synonym faults = "io_call \<Rightarrow> error option"

definition io :: "faults \<Rightarrow> io_call \<Rightarrow> unit result" where
  "io fault c = (case fault c of None \<Rightarrow> Inr () | Some e \<Rightarrow> Inl e)"

definition remove_entry :: "string \<Rightarrow> files \<Rightarrow> files" where
  "remove_entry name fs = filter (\<lambda>(n, e). n \<noteq> name) fs"

definition artifactID :: "string \<Rightarrow> bool" where
  "artifactID s \<longleftrightarrow> hex_string 32 s"

section \<open>Upload\<close>

record Artifact =
  ar_ArtifactId :: string
  ar_TaskId :: string
  ar_AttemptId :: string
  ar_Kind :: string
  ar_Sha256 :: string
  ar_Size :: int

record ArtifactChunk =
  ch_Metadata :: "Artifact option"
  ch_Attempt :: "AttemptRef option"
  ch_Data :: string

text \<open>One write: the number of the chunk, what is stored so far and the chunk.\<close>

definition write_chunk :: "faults \<Rightarrow> int \<Rightarrow> nat \<Rightarrow> string \<Rightarrow> string \<Rightarrow> string result" where
  "write_chunk fault limit n stored b = (
    if length b > 256 * 1024 \<or> int (length stored + length b) > limit then Inl (Status ''ResourceExhausted'' ''artifact size limit'')
    else rbind (io fault (Write_chunk n)) (\<lambda>_. Inr (stored @ b)))"

text \<open>The chunks that \<open>Recv\<close> gives, an error where it fails; the end of the list is the end of the stream.\<close>

fun receive_chunks :: "faults \<Rightarrow> int \<Rightarrow> nat \<Rightarrow> string \<Rightarrow> ArtifactChunk result list \<Rightarrow> string result" where
  "receive_chunks fault limit n stored [] = Inr stored"
| "receive_chunks fault limit n stored (r # rs) =
    rbind r (\<lambda>c.
    if ch_Metadata c \<noteq> None \<or> ch_Attempt c \<noteq> None then Inl (Status ''InvalidArgument'' ''metadata only in first chunk'')
    else rbind (write_chunk fault limit n stored (ch_Data c)) (\<lambda>stored'. receive_chunks fault limit (Suc n) stored' rs))"

definition metadata_ok :: "int \<Rightarrow> Artifact \<Rightarrow> bool" where
  "metadata_ok maxBytes m \<longleftrightarrow> artifactID (ar_ArtifactId m) \<and> 0 \<le> ar_Size m \<and> ar_Size m \<le> maxBytes \<and> length (ar_Sha256 m) = 64"

definition matches :: "Artifact \<Rightarrow> string \<Rightarrow> bool" where
  "matches m content \<longleftrightarrow> int (length content) = ar_Size m \<and> Hash content = ar_Sha256 m"

text \<open>The file is linked under its identifier; a file that is there already stays if it has the content announced.\<close>

definition publish_file :: "faults \<Rightarrow> Artifact \<Rightarrow> string \<Rightarrow> int \<Rightarrow> files \<Rightarrow> unit result \<times> files" where
  "publish_file fault m content now fs = (
    case fault Link_file of Some _ \<Rightarrow> (Inl (Status ''Unavailable'' ''artifact publish failed''), fs)
    | None \<Rightarrow>
        case map_of fs (ar_ArtifactId m) of
          None \<Rightarrow> (Inr (), (ar_ArtifactId m, \<lparr>en_dir = False, en_content = content, en_modified = now\<rparr>) # fs)
        | Some e \<Rightarrow>
            case io fault Open_existing of Inl err \<Rightarrow> (Inl err, fs)
            | Inr _ \<Rightarrow>
                if fault Copy_existing \<noteq> None \<or> en_dir e \<or> \<not> matches m (en_content e)
                then (Inl (Status ''AlreadyExists'' ''artifact ID conflict''), fs) else (Inr (), fs))"

text \<open>Up to the transaction: the metadata, the fence of the attempt, the content, the published file.\<close>

definition receive_content :: "faults \<Rightarrow> int \<Rightarrow> string \<Rightarrow> ArtifactChunk \<Rightarrow> ArtifactChunk result list \<Rightarrow> ControlDB \<Rightarrow> (Artifact \<times> string) result" where
  "receive_content fault maxBytes worker first rest db = (
    case ch_Metadata first of None \<Rightarrow> Inl (Status ''InvalidArgument'' ''invalid artifact metadata'')
    | Some m \<Rightarrow>
        if ch_Attempt first = None \<or> \<not> metadata_ok maxBytes m then Inl (Status ''InvalidArgument'' ''invalid artifact metadata'')
        else rbind (map_error dbErr (checkAttempt worker (ch_Attempt first) db)) (\<lambda>v.
          if ar_TaskId m \<noteq> aw_task v \<or> ar_AttemptId m \<noteq> at_AttemptId (the (ch_Attempt first)) \<or> aw_released v
          then Inl (Status ''FailedPrecondition'' ''artifact attempt mismatch or released'')
          else
            rbind (map_error (\<lambda>_. Status ''Unavailable'' ''artifact storage unavailable'') (io fault MkdirAll)) (\<lambda>_.
            rbind (map_error (\<lambda>_. Status ''Unavailable'' ''artifact storage unavailable'') (io fault CreateTemp)) (\<lambda>_.
            rbind (write_chunk fault (ar_Size m) 0 [] (ch_Data first)) (\<lambda>stored.
            rbind (receive_chunks fault (ar_Size m) 1 stored rest) (\<lambda>content.
            if \<not> matches m content then Inl (Status ''InvalidArgument'' ''artifact size/hash mismatch'')
            else
              rbind (map_error (\<lambda>_. Status ''Unavailable'' ''artifact sync failed'') (io fault Sync_file)) (\<lambda>_.
              rbind (io fault Close_file) (\<lambda>_. Inr (m, content)))))))))"

definition artifact_row :: "Artifact \<Rightarrow> int \<Rightarrow> int \<Rightarrow> ArtifactRow" where
  "artifact_row m generation now = \<lparr>af_id = ar_ArtifactId m, af_task = ar_TaskId m, af_attempt = ar_AttemptId m, af_generation = generation,
    af_kind = ar_Kind m, af_hash = ar_Sha256 m, af_size = ar_Size m, af_path = ar_ArtifactId m, af_state = ''STAGED'',
    af_created = now, af_updated = now, af_gc_after = 0, af_deleted_at = 0\<rparr>"

definition artifact_agrees :: "Artifact \<Rightarrow> int \<Rightarrow> ArtifactRow \<Rightarrow> bool" where
  "artifact_agrees m generation x \<longleftrightarrow> af_task x = ar_TaskId m \<and> af_attempt x = ar_AttemptId m \<and> af_kind x = ar_Kind m
    \<and> af_hash x = ar_Sha256 m \<and> af_size x = ar_Size m \<and> af_generation x = generation \<and> af_state x = ''STAGED''"

definition register_tx :: "string \<Rightarrow> AttemptRef option \<Rightarrow> Artifact \<Rightarrow> int \<Rightarrow> ControlDB \<Rightarrow> ControlDB result" where
  "register_tx worker ref m now db =
    rbind (checkAttempt worker ref db) (\<lambda>v.
    if aw_released v then Inl (Status ''FailedPrecondition'' ''attempt already completed'')
    else
      case List.find (\<lambda>x. af_id x = ar_ArtifactId m) (ct_artifacts db) of
        Some x \<Rightarrow> if artifact_agrees m (aw_generation v) x then Inr db
          else Inl (Status ''AlreadyExists'' ''artifact metadata conflict'')
      | None \<Rightarrow>
          if \<not> list_ex (\<lambda>t. t_id t = ar_TaskId m) (ct_tasks db) then Inl Sql_constraint
          else Inr (db\<lparr>ct_artifacts := ct_artifacts db @ [artifact_row m (aw_generation v) now]\<rparr>))"

text \<open>The handler: \<open>db\<close> is the database that the first check reads, \<open>db1\<close> the one that the transaction finds.\<close>

definition UploadArtifact ::
  "faults \<Rightarrow> int \<Rightarrow> Principal option \<Rightarrow> ArtifactChunk result \<Rightarrow> ArtifactChunk result list \<Rightarrow> int \<Rightarrow> ControlDB \<Rightarrow> ControlDB \<Rightarrow> files
    \<Rightarrow> Artifact result \<times> ControlDB \<times> files" where
  "UploadArtifact fault maxBytes ctx r rest now db db1 fs = (
    case rbind (WorkerCaller ctx) (\<lambda>p. rbind r (\<lambda>first.
        rbind (receive_content fault maxBytes (id_WorkerID (pr_Identity p)) first rest db) (\<lambda>(m, content). Inr (p, first, m, content)))) of
      Inl e \<Rightarrow> (Inl e, db1, fs)
    | Inr (p, first, m, content) \<Rightarrow>
        case publish_file fault m content now fs of (Inl e, fs') \<Rightarrow> (Inl e, db1, fs')
        | (Inr _, fs') \<Rightarrow>
            case rbind (io fault Open_dir) (\<lambda>_. io fault Sync_dir) of Inl e \<Rightarrow> (Inl e, db1, fs')
            | Inr _ \<Rightarrow>
                case register_tx (id_WorkerID (pr_Identity p)) (ch_Attempt first) m now db1 of Inl e \<Rightarrow> (Inl (dbErr e), db1, fs')
                | Inr db2 \<Rightarrow> (Inr m, db2, fs'))"

section \<open>Reading artifacts\<close>

definition artifact_of_row :: "ArtifactRow \<Rightarrow> Artifact" where
  "artifact_of_row x = \<lparr>ar_ArtifactId = af_id x, ar_TaskId = af_task x, ar_AttemptId = af_attempt x, ar_Kind = af_kind x,
    ar_Sha256 = af_hash x, ar_Size = af_size x\<rparr>"

definition ListArtifacts :: "Principal option \<Rightarrow> string \<Rightarrow> ControlDB \<Rightarrow> Artifact list result" where
  "ListArtifacts ctx task db =
    rbind (authorized ctx task db) (\<lambda>_.
    Inr (map artifact_of_row (sort_key af_id (filter (\<lambda>x. af_task x = task \<and> af_state x = ''ACCEPTED'') (ct_artifacts db)))))"

fun blocks :: "nat \<Rightarrow> string \<Rightarrow> string list" where
  "blocks n s = (if s = [] \<or> n = 0 then [] else take n s # blocks n (drop n s))"

declare blocks.simps [simp del]

text \<open>The chunks sent for an artifact.\<close>

definition DownloadArtifact :: "faults \<Rightarrow> Principal option \<Rightarrow> string \<Rightarrow> string \<Rightarrow> ControlDB \<Rightarrow> files \<Rightarrow> string list result" where
  "DownloadArtifact fault ctx task artifact db fs =
    rbind (authorized ctx task db) (\<lambda>_.
    rbind (map_error dbErr (select_row (\<lambda>x. af_task x = task \<and> af_id x = artifact \<and> af_state x = ''ACCEPTED'') (ct_artifacts db))) (\<lambda>x.
    if \<not> artifactID (af_path x) then Inl (Status ''Internal'' ''invalid stored artifact path'')
    else case map_of fs (af_path x) of
        None \<Rightarrow> Inl (Status ''NotFound'' ''artifact file missing'')
      | Some e \<Rightarrow>
          if fault Open_artifact \<noteq> None then Inl (Status ''NotFound'' ''artifact file missing'')
          else if en_dir e then Inl (Error ''is a directory'')
          else rbind (io fault Read_artifact) (\<lambda>_. Inr (blocks (64 * 1024) (en_content e)))))"

section \<open>The sweep\<close>

definition referenced :: "string \<Rightarrow> ControlDB \<Rightarrow> bool" where
  "referenced artifact db \<longleftrightarrow> list_ex (\<lambda>r. rf_artifact r = artifact) (ct_refs db)"

definition expired_orphans :: "int \<Rightarrow> ControlDB \<Rightarrow> string list" where
  "expired_orphans now db = map af_id (take 32 (sort_key (\<lambda>x. (af_gc_after x, af_id x))
    (filter (\<lambda>x. af_state x = ''ORPHANED'' \<and> 0 < af_gc_after x \<and> af_gc_after x \<le> now \<and> \<not> referenced (af_id x) db) (ct_artifacts db))))"

definition mark_deleting :: "int \<Rightarrow> ControlDB \<Rightarrow> ControlDB" where
  "mark_deleting now db = db\<lparr>ct_artifacts := update_where (\<lambda>x. af_id x \<in> set (expired_orphans now db))
    (\<lambda>x. x\<lparr>af_state := ''DELETING'', af_updated := now\<rparr>) (ct_artifacts db)\<rparr>"

definition deleting_items :: "ControlDB \<Rightarrow> (string \<times> string) list" where
  "deleting_items db = map (\<lambda>x. (af_id x, af_path x)) (take 32 (sort_key (\<lambda>x. (af_updated x, af_id x))
    (filter (\<lambda>x. af_state x = ''DELETING'') (ct_artifacts db))))"

text \<open>\<open>os.Remove\<close>, where a file that is not there is no error.\<close>

definition remove_file :: "faults \<Rightarrow> string \<Rightarrow> files \<Rightarrow> files result" where
  "remove_file fault name fs = (
    if map_of fs name = None then Inr fs else rbind (io fault (Remove_file name)) (\<lambda>_. Inr (remove_entry name fs)))"

definition mark_deleted :: "string \<Rightarrow> int \<Rightarrow> ControlDB \<Rightarrow> ControlDB result" where
  "mark_deleted artifact now db = (
    let hit = (\<lambda>x. af_id x = artifact \<and> af_state x = ''DELETING'' \<and> \<not> referenced artifact db) in
    if count_where hit (ct_artifacts db) \<noteq> 1 then Inl (Error ''artifact deletion lost lifecycle ownership'')
    else Inr (db\<lparr>ct_artifacts := update_where hit (\<lambda>x. x\<lparr>af_state := ''DELETED'', af_path := [], af_updated := now, af_deleted_at := now\<rparr>)
      (ct_artifacts db)\<rparr>))"

text \<open>A loop that stops at its first error keeps what it did before: its answer comes with the state.\<close>

fun delete_items :: "faults \<Rightarrow> int \<Rightarrow> (string \<times> string) list \<Rightarrow> ControlDB \<times> files \<Rightarrow> unit result \<times> ControlDB \<times> files" where
  "delete_items fault now [] (db, fs) = (Inr (), db, fs)"
| "delete_items fault now ((i, path) # items) (db, fs) = (
    if \<not> artifactID path then (Inl (Error ''invalid artifact path during lifecycle reconciliation''), db, fs)
    else case remove_file fault path fs of Inl e \<Rightarrow> (Inl e, db, fs)
      | Inr fs' \<Rightarrow>
          case mark_deleted i now db of Inl e \<Rightarrow> (Inl e, db, fs')
          | Inr db' \<Rightarrow> delete_items fault now items (db', fs'))"

abbreviation artifactUploadTempMaxAgeMS :: int where
  "artifactUploadTempMaxAgeMS \<equiv> 3600 * 1000"

definition stale_entry :: "string \<Rightarrow> Entry \<Rightarrow> int \<Rightarrow> ControlDB \<Rightarrow> bool" where
  "stale_entry name e now db \<longleftrightarrow> \<not> en_dir e \<and> (
    if prefix ''.upload-'' name then now - en_modified e \<ge> artifactUploadTempMaxAgeMS
    else artifactID name \<and> now - en_modified e \<ge> 24 * 3600 * 1000 \<and> \<not> list_ex (\<lambda>x. af_id x = name) (ct_artifacts db))"

fun cleanup_entries :: "faults \<Rightarrow> int \<Rightarrow> ControlDB \<Rightarrow> (string \<times> Entry) list \<Rightarrow> files \<Rightarrow> unit result \<times> files" where
  "cleanup_entries fault now db [] fs = (Inr (), fs)"
| "cleanup_entries fault now db ((name, e) # es) fs = (
    if en_dir e then cleanup_entries fault now db es fs
    else case io fault (Entry_info name) of Inl err \<Rightarrow> (Inl err, fs)
      | Inr _ \<Rightarrow>
          if stale_entry name e now db then
            case remove_file fault name fs of Inl err \<Rightarrow> (Inl err, fs)
            | Inr fs' \<Rightarrow> cleanup_entries fault now db es fs'
          else cleanup_entries fault now db es fs)"

definition cleanupArtifactFilesystem :: "faults \<Rightarrow> int \<Rightarrow> ControlDB \<Rightarrow> files \<Rightarrow> unit result \<times> files" where
  "cleanupArtifactFilesystem fault now db fs = (
    case io fault Read_dir of Inl e \<Rightarrow> (Inl e, fs) | Inr _ \<Rightarrow> cleanup_entries fault now db (sort_key fst fs) fs)"

definition reconcileArtifactLifecycle :: "faults \<Rightarrow> int \<Rightarrow> ControlDB \<Rightarrow> files \<Rightarrow> unit result \<times> ControlDB \<times> files" where
  "reconcileArtifactLifecycle fault now db fs = (
    let db1 = mark_deleting now db in
    case delete_items fault now (deleting_items db1) (db1, fs) of
      (Inl e, db2, fs2) \<Rightarrow> (Inl e, db2, fs2)
    | (Inr _, db2, fs2) \<Rightarrow> (case cleanupArtifactFilesystem fault now db2 fs2 of (r, fs3) \<Rightarrow> (r, db2, fs3)))"

end
