(* ===== verification/Task_Frame.thy ===== *)
theory Task_Frame
  imports Job_Engine Task_Lifecycle Artifact_Store
begin

text \<open>
  What the statements of the server leave alone. \<open>cores\<close> is the part of the database that the abstract lifecycle
  of tasks and attempts speaks about: the attempt limits of the jobs, the queue columns of the tasks, the attempts, and the rows of artifacts.
  \<open>steering\<close> is the part that belongs to the control plane. Most statements keep both: the frame lemmas,
  collected in \<open>frames\<close>. The others change the core in one of a few ways, which theory \<open>Task_Refine\<close> shows
  to be the steps of the lifecycle.
\<close>

named_theorems frames \<open>operations that keep the core of the database and the tables of the control plane\<close>

section \<open>The core of the database\<close>

record QueueCore =
  q_id :: string
  q_job :: "string option"
  q_state :: string
  q_attempt :: string
  q_generation :: int

record Cores =
  kj :: "(string \<times> int) list"
  kt :: "QueueCore list"
  ka :: "AttemptCore list"
  kf :: "(string \<times> bool) list"
  kr :: "ArtifactRow list"

definition job_core :: "ExecJobRow \<Rightarrow> string \<times> int" where
  "job_core j = (j_id j, lm_MaxAttemptsPerTask (sp_Limits (j_spec j)))"

definition queue_core :: "TaskRow \<Rightarrow> QueueCore" where
  "queue_core t = \<lparr>q_id = t_id t, q_job = t_job t, q_state = t_state t, q_attempt = t_attempt t, q_generation = t_generation t\<rparr>"

definition attempt_core :: "AttemptRow \<Rightarrow> AttemptCore" where
  "attempt_core a = \<lparr>l_id = a_id a, l_task = a_task a, l_generation = a_generation a, l_released = a_released a\<rparr>"

definition final_core :: "AttemptRow \<Rightarrow> string \<times> bool" where
  "final_core a = (a_id a, a_released a \<longleftrightarrow> a_final_hash a \<noteq> [])"

definition cores :: "ControlDB \<Rightarrow> Cores" where
  "cores db = \<lparr>kj = map job_core (ct_jobs db), kt = map queue_core (ct_tasks db), ka = map attempt_core (ct_attempts db),
    kf = map final_core (ct_attempts db), kr = ct_artifacts db\<rparr>"

definition limit_of :: "(string \<times> int) list \<Rightarrow> string option \<Rightarrow> int" where
  "limit_of js oj = (case oj of None \<Rightarrow> 1 | Some jid \<Rightarrow> (case map_of js jid of None \<Rightarrow> 1 | Some n \<Rightarrow> max 1 n))"

definition task_view :: "(string \<times> int) list \<Rightarrow> QueueCore \<Rightarrow> TaskCore" where
  "task_view js q = \<lparr>k_id = q_id q, k_limit = limit_of js (q_job q), k_state = q_state q, k_attempt = q_attempt q,
    k_generation = q_generation q\<rparr>"

definition lifecycle :: "Cores \<Rightarrow> Lifecycle" where
  "lifecycle c = \<lparr>lc_tasks = map (task_view (kj c)) (kt c), lc_attempts = ka c\<rparr>"

text \<open>The invariant of the database: the lifecycle's, jobs of tasks are known, an attempt is released exactly when it has a final hash,
  and artifacts have identifiers of their own.\<close>

definition known :: "Cores \<Rightarrow> bool" where
  "known c \<longleftrightarrow> (\<forall>q\<in>set (kt c). case q_job q of None \<Rightarrow> True | Some jid \<Rightarrow> jid \<in> fst ` set (kj c))"

definition sealed :: "Cores \<Rightarrow> bool" where
  "sealed c \<longleftrightarrow> list_all snd (kf c)"

definition core_inv :: "Cores \<Rightarrow> bool" where
  "core_inv c \<longleftrightarrow> life_inv (lifecycle c) \<and> known c \<and> sealed c \<and> distinct (map af_id (kr c))"

text \<open>
  What may become of an artifact: an accepted one keeps its row, any other keeps what it was registered with and moves from staged to
  accepted or orphaned, and from orphaned over deleting to deleted. New rows come at the end.
\<close>

definition artifact_next :: "string \<Rightarrow> string set" where
  "artifact_next state = (if state = ''ACCEPTED'' then {''ACCEPTED''} else if state = ''ORPHANED'' then {''ORPHANED'', ''DELETING'', ''DELETED''}
    else if state = ''DELETING'' then {''DELETING'', ''DELETED''} else if state = ''DELETED'' then {''DELETED''} else UNIV)"

definition row_kept :: "ArtifactRow \<Rightarrow> ArtifactRow \<Rightarrow> bool" where
  "row_kept x y \<longleftrightarrow> af_id y = af_id x \<and> af_task y = af_task x \<and> af_attempt y = af_attempt x \<and> af_generation y = af_generation x
    \<and> af_kind y = af_kind x \<and> af_hash y = af_hash x \<and> af_size y = af_size x \<and> (af_state y \<noteq> ''DELETED'' \<longrightarrow> af_path y = af_path x)
    \<and> af_state y \<in> artifact_next (af_state x) \<and> (af_state x = ''ACCEPTED'' \<longrightarrow> y = x)"

definition shelf :: "ArtifactRow list \<Rightarrow> ArtifactRow list \<Rightarrow> bool" where
  "shelf xs ys \<longleftrightarrow> list_all2 row_kept xs (take (length xs) ys) \<and> (distinct (map af_id xs) \<longrightarrow> distinct (map af_id ys))"

lemma row_kept_refl [simp]: "row_kept x x"
  by (auto simp: row_kept_def artifact_next_def)

lemma row_kept_trans: "row_kept x y \<Longrightarrow> row_kept y z \<Longrightarrow> row_kept x z"
  by (auto simp: row_kept_def artifact_next_def split: if_split_asm)

lemma shelf_refl [simp]: "shelf xs xs"
  by (simp add: shelf_def list_all2_refl)

lemma shelf_trans:
  assumes "shelf xs ys" "shelf ys zs"
  shows "shelf xs zs"
proof -
  have l: "length xs \<le> length ys" "length ys \<le> length zs" "list_all2 row_kept xs (take (length xs) ys)" "list_all2 row_kept ys (take (length ys) zs)"
    using assms by (auto simp: shelf_def dest: list_all2_lengthD)
  have "list_all2 row_kept (take (length xs) ys) (take (length xs) zs)"
    using list_all2_takeI [OF l(4), of "length xs"] l(1) by (simp add: min_absorb1)
  with l(3) have "list_all2 row_kept xs (take (length xs) zs)" by (rule list_all2_trans [rotated 1]) (rule row_kept_trans)
  then show ?thesis using assms by (auto simp: shelf_def)
qed

lemma shelf_in: "shelf xs ys \<Longrightarrow> x \<in> set xs \<Longrightarrow> \<exists>y\<in>set ys. row_kept x y"
  unfolding shelf_def by (metis in_set_takeD list_all2_conv_all_nth in_set_conv_nth)

lemma shelf_back: "shelf xs ys \<Longrightarrow> y \<in> set ys \<Longrightarrow> (\<exists>x\<in>set xs. row_kept x y) \<or> y \<in> set (drop (length xs) ys)"
proof -
  assume s: "shelf xs ys" and y: "y \<in> set ys"
  have "y \<in> set (take (length xs) ys) \<or> y \<in> set (drop (length xs) ys)" using y by (metis Un_iff append_take_drop_id set_append)
  moreover have "y \<in> set (take (length xs) ys) \<Longrightarrow> \<exists>x\<in>set xs. row_kept x y"
    using s by (fastforce simp: shelf_def list_all2_conv_all_nth in_set_conv_nth)
  ultimately show ?thesis by blast
qed

lemma shelf_update:
  assumes "\<And>x. x \<in> set xs \<Longrightarrow> P x \<Longrightarrow> row_kept x (f x)"
  shows "shelf xs (update_where P f xs)"
proof -
  have "list_all2 row_kept xs (update_where P f xs)"
    using assms by (auto simp: update_where_def list.rel_map intro!: list_all2_refl list.rel_refl_strong)
  moreover have "map af_id (update_where P f xs) = map af_id xs"
    using calculation by (auto simp: list_all2_conv_all_nth row_kept_def intro!: nth_equalityI)
  moreover have "length (update_where P f xs) = length xs" by (simp add: update_where_def)
  ultimately show ?thesis by (simp add: shelf_def)
qed

section \<open>Frames\<close>

definition steering :: "ControlDB \<Rightarrow> ControlOpRow list \<times> ApprovalRow list \<times> CommandRow list" where
  "steering db = (ct_operations db, ct_approvals db,
    map (\<lambda>c. c\<lparr>cm_acked := False\<rparr>) (filter (\<lambda>c. cm_kind c = ''control'') (ct_commands db)))"

definition frame :: "ControlDB \<Rightarrow> Cores \<times> ControlOpRow list \<times> ApprovalRow list \<times> CommandRow list" where
  "frame db = (cores db, steering db)"

lemma frame_cores: "frame db' = frame db \<Longrightarrow> cores db' = cores db"
  by (simp add: frame_def)

lemma frame_steering: "frame db' = frame db \<Longrightarrow> steering db' = steering db"
  by (simp add: frame_def)

lemma map_core_update: "(\<And>x. core (f x) = core x) \<Longrightarrow> map core (update_where P f xs) = map core xs"
  by (rule map_update_where) simp

lemma steering_unchanged [simp]:
  "steering (db\<lparr>ct_jobs := v1\<rparr>) = steering db" "steering (db\<lparr>ct_tasks := v2\<rparr>) = steering db"
  "steering (db\<lparr>ct_attempts := v3\<rparr>) = steering db" "steering (db\<lparr>ct_goal := v4\<rparr>) = steering db"
  "steering (db\<lparr>ct_events := v5\<rparr>) = steering db"
  by (simp_all add: steering_def)

lemma frame_unchanged [simp]:
  "frame (db\<lparr>ct_job_events := v2\<rparr>) = frame db" "frame (db\<lparr>ct_leases := v5\<rparr>) = frame db" "frame (db\<lparr>ct_workers := v6\<rparr>) = frame db"
  "frame (db\<lparr>ct_events := v7\<rparr>) = frame db" "frame (db\<lparr>ct_dedup := v8\<rparr>) = frame db" "frame (db\<lparr>ct_controls := v9\<rparr>) = frame db"
  "frame (db\<lparr>ct_refs := w2\<rparr>) = frame db" "frame (db\<lparr>ct_stages := w3\<rparr>) = frame db"
  "frame (db\<lparr>ct_goal := w4\<rparr>) = frame db" "frame (db\<lparr>ct_evaluations := w5\<rparr>) = frame db" "frame (db\<lparr>ct_traces := w6\<rparr>) = frame db"
  "frame (db\<lparr>ct_metrics := w7\<rparr>) = frame db" "frame (db\<lparr>ct_gateway := w8\<rparr>) = frame db" "frame (db\<lparr>ct_admissions := w9\<rparr>) = frame db"
  by (simp_all add: frame_def cores_def steering_def)

lemma frame_jobs_update:
  "(\<And>j. job_core (f j) = job_core j) \<Longrightarrow> frame (db\<lparr>ct_jobs := update_where P f (ct_jobs db)\<rparr>) = frame db"
  by (simp add: frame_def cores_def map_core_update)

lemma frame_tasks_update:
  "(\<And>t. queue_core (f t) = queue_core t) \<Longrightarrow> frame (db\<lparr>ct_tasks := update_where P f (ct_tasks db)\<rparr>) = frame db"
  by (simp add: frame_def cores_def map_core_update)

lemma frame_attempts_update:
  "(\<And>a. attempt_core (f a) = attempt_core a) \<Longrightarrow> (\<And>a. final_core (f a) = final_core a)
    \<Longrightarrow> frame (db\<lparr>ct_attempts := update_where P f (ct_attempts db)\<rparr>) = frame db"
  by (simp add: frame_def cores_def map_core_update)

lemma frame_acked [simp]:
  "frame (db\<lparr>ct_commands := update_where P (\<lambda>c. c\<lparr>cm_acked := v\<rparr>) (ct_commands db)\<rparr>) = frame db"
proof -
  have "map (\<lambda>c. c\<lparr>cm_acked := False\<rparr>) (filter (\<lambda>c. cm_kind c = k) (update_where P (\<lambda>c. c\<lparr>cm_acked := v\<rparr>) cs))
      = map (\<lambda>c. c\<lparr>cm_acked := False\<rparr>) (filter (\<lambda>c. cm_kind c = k) cs)" for k cs
    by (induction cs) (auto simp: update_where_def)
  then show ?thesis by (simp add: frame_def cores_def steering_def)
qed

lemmas core_defs = job_core_def queue_core_def attempt_core_def final_core_def

lemmas frame_updates = frame_jobs_update frame_tasks_update frame_attempts_update

lemma fold_frame:
  assumes "fold_result f db xs = Inr db'" "\<And>d x d'. f d x = Inr d' \<Longrightarrow> frame d' = frame d"
  shows "frame db' = frame db"
  using assms(1) by (induction xs arbitrary: db) (auto simp: rbind_eq_Inr_iff assms(2))

lemma appendJobEvent_frame [frames]:
  "appendJobEvent jid typ body op hash now db = Inr db' \<Longrightarrow> frame db' = frame db"
  by (auto simp: appendJobEvent_def rbind_eq_Inr_iff Let_def frame_def cores_def steering_def core_defs map_core_update)

lemma save_dedup_frame [simp]: "frame (save_dedup a w h db) = frame db"
  by (simp add: save_dedup_def split: option.splits)

lemma appendEvent_frame [frames]: "appendEvent enc ev w now db = Inr db' \<Longrightarrow> frame db' = frame db"
  by (auto simp: appendEvent_def rbind_eq_Inr_iff Let_def)
    (simp add: frame_def cores_def steering_def core_defs map_core_update)

lemma setStageState_frame [frames]: "setStageState sid s now db = Inr db' \<Longrightarrow> frame db' = frame db"
  by (auto simp: setStageState_def rbind_eq_Inr_iff split: if_splits dest!: frames)

lemma setTaskStageState_frame [frames]: "setTaskStageState i s now db = Inr db' \<Longrightarrow> frame db' = frame db"
  by (auto simp: setTaskStageState_def rbind_eq_Inr_iff split: option.splits if_splits dest!: frames)

lemma update_goal_frame [frames]: "update_goal f db = Inr db' \<Longrightarrow> frame db' = frame db"
  by (auto simp: update_goal_def rbind_eq_Inr_iff)

lemma ensureGoalBinding_frame [frames]: "ensureGoalBinding j now db = Inr (g, db') \<Longrightarrow> frame db' = frame db"
  by (auto simp: ensureGoalBinding_def Let_def rbind_eq_Inr_iff split: option.splits dest!: frames)

lemma reserveGoalAttempt_frame [frames]: "reserveGoalAttempt oj a now db = Inr db' \<Longrightarrow> frame db' = frame db"
  by (auto simp: reserveGoalAttempt_def rbind_eq_Inr_iff split: option.splits if_splits dest!: frames)

lemma recordGoalAttemptUsage_frame [frames]: "recordGoalAttemptUsage j g a now db = Inr db' \<Longrightarrow> frame db' = frame db"
  by (auto simp: recordGoalAttemptUsage_def rbind_eq_Inr_iff dest!: frames)

lemma recordBoundGoalAttemptUsage_frame [frames]: "recordBoundGoalAttemptUsage i a now db = Inr db' \<Longrightarrow> frame db' = frame db"
  by (auto simp: recordBoundGoalAttemptUsage_def rbind_eq_Inr_iff split: option.splits dest!: frames)

lemma insert_evaluation_frame [frames]: "insert_evaluation e db = Inr db' \<Longrightarrow> frame db' = frame db"
  by (auto simp: insert_evaluation_def rbind_eq_Inr_iff split: if_splits)

lemma evaluate_binding_frame [frames]: "evaluate_binding j g b now db = Inr db' \<Longrightarrow> frame db' = frame db"
  unfolding evaluate_binding_def Let_def by (simp only: if_split_asm [of "\<lambda>x. x = Inr db'"] rbind_eq_Inr_iff) (auto dest!: frames)

lemma evaluate_plan_job_frame [frames]:
  assumes "evaluate_plan_job j now db = Inr db'"
  shows "frame db' = frame db"
proof -
  obtain g db1 where b: "ensureGoalBinding j now db = Inr (g, db1)"
    and m: "rbind (fold_result (\<lambda>d aid. recordGoalAttemptUsage j g aid now d) db1 (missing_usage g (ct_goal db1))) (\<lambda>db2.
      case active_binding (j_id j) (ct_goal db2) of None \<Rightarrow> Inr db2
      | Some b \<Rightarrow> evaluate_binding j g b now db2) = Inr db'"
    using assms unfolding evaluate_plan_job_def by (auto simp: rbind_eq_Inr_iff)
  obtain db2 where f: "fold_result (\<lambda>d aid. recordGoalAttemptUsage j g aid now d) db1 (missing_usage g (ct_goal db1)) = Inr db2"
    and r: "(case active_binding (j_id j) (ct_goal db2) of None \<Rightarrow> Inr db2 | Some b \<Rightarrow> evaluate_binding j g b now db2) = Inr db'"
    using m by (auto simp: rbind_eq_Inr_iff)
  have "frame db2 = frame db"
    using fold_frame [OF f] recordGoalAttemptUsage_frame ensureGoalBinding_frame [OF b] by simp
  with r show ?thesis by (auto split: option.splits dest!: frames)
qed

lemma evaluateBoundJob_frame [frames]: "evaluateBoundJob j now db = Inr db' \<Longrightarrow> frame db' = frame db"
  by (auto simp: evaluateBoundJob_def evaluate_graph_job_def split: option.splits if_splits dest!: frames)

lemma jobState_frame [frames]: "jobState j state reason code now db = Inr (j', db') \<Longrightarrow> frame db' = frame db"
  unfolding jobState_def Let_def
  by (auto simp: rbind_eq_Inr_iff frame_jobs_update job_core_def split: if_splits dest!: frames)

lemma drop_job_frame [frames]: "drop_job (jobState j state reason code now db) = Inr db' \<Longrightarrow> frame db' = frame db"
  by (auto simp: drop_job_def rbind_eq_Inr_iff dest!: frames)

lemma saveCommand_frame: "saveCommand cid w kind a db = Inr db' \<Longrightarrow> kind \<noteq> ''control'' \<Longrightarrow> frame db' = frame db"
  by (auto simp: saveCommand_def rbind_eq_Inr_iff insert_row_eq_Inr_iff frame_def cores_def steering_def)

lemma saveCommand_start_frame [frames]: "saveCommand cid w ''start'' a db = Inr db' \<Longrightarrow> frame db' = frame db"
  by (erule saveCommand_frame) simp

lemma stopCommand_frame [frames]: "stopCommand cid t db = Inr db' \<Longrightarrow> frame db' = frame db"
  by (auto simp: stopCommand_def rbind_eq_Inr_iff split: if_splits dest!: saveCommand_frame)

lemma pinArtifactRef_frame [frames]: "pinArtifactRef a ty r now db = Inr db' \<Longrightarrow> frame db' = frame db"
  by (auto simp: pinArtifactRef_def rbind_eq_Inr_iff split: if_splits)

lemma as_precondition_Inr [simp]: "as_precondition m = Inr x \<longleftrightarrow> m = Inr x"
  by (simp add: as_precondition_def)

lemma enqueue_candidate_frame [frames]: "enqueue_candidate rid n task now db a = Inr db' \<Longrightarrow> frame db' = frame db"
  by (auto simp: enqueue_candidate_def rbind_eq_Inr_iff split: option.splits if_splits dest!: frames)

lemma enqueueGraphCandidates_frame [frames]:
  "enqueueGraphCandidates rid task as now db = Inr db' \<Longrightarrow> frame db' = frame db"
  by (auto simp: enqueueGraphCandidates_def split: option.splits dest!: fold_frame intro: enqueue_candidate_frame)

lemma persistRuntimeSessionRef_frame [frames]: "persistRuntimeSessionRef ev now db = Inr db' \<Longrightarrow> frame db' = frame db"
  by (auto simp: persistRuntimeSessionRef_def rbind_eq_Inr_iff Let_def frame_tasks_update queue_core_def
    split: option.splits if_splits)

lemma mirrorRuntimeEventToJob_frame [frames]: "mirrorRuntimeEventToJob ev now db = Inr db' \<Longrightarrow> frame db' = frame db"
  by (auto simp: mirrorRuntimeEventToJob_def rbind_eq_Inr_iff split: option.splits if_splits dest!: frames)

lemma saveAttemptMetrics_frame [frames]: "saveAttemptMetrics a n m now db = Inr db' \<Longrightarrow> frame db' = frame db"
  by (auto simp: saveAttemptMetrics_def rbind_eq_Inr_iff split: option.splits if_splits bool.splits)

lemma bindGateway_frame [frames]: "bindGateway cfg a oj db = Inr (a', db') \<Longrightarrow> frame db' = frame db"
  by (auto simp: bindGateway_def Let_def frame_attempts_update attempt_core_def final_core_def split: option.splits if_splits)

lemma set_blocker_frame [simp]: "frame (set_blocker task b db) = frame db"
  by (simp add: set_blocker_def frame_tasks_update queue_core_def)

lemma start_job_frame [frames]: "start_job oj now db = Inr db' \<Longrightarrow> frame db' = frame db"
  by (auto simp: start_job_def rbind_eq_Inr_iff split: option.splits if_splits dest!: frames)

lemma buildGoalRuntimeBudget_frame [frames]: "buildGoalRuntimeBudget j t now db = Inr (b, db') \<Longrightarrow> frame db' = frame db"
  by (auto simp: buildGoalRuntimeBudget_def rbind_eq_Inr_iff dest!: frames)

lemma appendRetryExhausted_frame [frames]:
  "appendRetryExhausted enc t a g code plan now db = Inr db' \<Longrightarrow> frame db' = frame db"
  by (auto simp: appendRetryExhausted_def rbind_eq_Inr_iff split: if_splits dest!: frames)

lemma renew_tx_frame [frames]: "renew_tx cfg w ref now db = Inr (b, db') \<Longrightarrow> frame db' = frame db"
  by (auto simp: renew_tx_def rbind_eq_Inr_iff frame_attempts_update attempt_core_def final_core_def split: sum.splits if_splits)

lemma worker_frames [simp]:
  "frame (ack_received cid w db) = frame db" "frame (worker_seen w e now db) = frame db" "frame (register_worker w e now db) = frame db"
  "frame (snd (deliver_tx c w e db)) = frame db"
  by (simp_all add: ack_received_def worker_seen_def register_worker_def deliver_tx_def)

lemma finish_child_frame:
  "finish_child j state now st c = Inr st' \<Longrightarrow> frame (fs_db st') = frame (fs_db st)"
  unfolding finish_child_def Let_def
  by (auto simp: rbind_eq_Inr_iff split: option.splits if_splits dest!: frames)

lemma finish_children_frame:
  "fold_result (finish_child j state now) st cs = Inr st' \<Longrightarrow> frame (fs_db st') = frame (fs_db st)"
  by (induction cs arbitrary: st) (auto simp: rbind_eq_Inr_iff dest!: finish_child_frame)

lemma finish_stages_frame [frames]: "finish_stages jid state now db = Inr db' \<Longrightarrow> frame db' = frame db"
  unfolding finish_stages_def by (erule fold_frame) (auto split: if_splits dest!: frames)

lemma finishJob_frame [frames]: "finishJob j cs state now db = Inr db' \<Longrightarrow> frame db' = frame db"
  by (auto simp: finishJob_def rbind_eq_Inr_iff Let_def frame_jobs_update job_core_def dest!: frames finish_children_frame)

lemma commit_manifest_frame [frames]: "commit_manifest j raw digest db = Inr db' \<Longrightarrow> frame db' = frame db"
  by (auto simp: commit_manifest_def Let_def frame_jobs_update job_core_def split: if_splits)

lemma createTrace_frame [simp]: "frame (createTrace t ow p s now db) = frame db"
  by (simp add: createTrace_def)

lemma insertStage_frame [frames]: "insertStage jid k n s now db = Inr db' \<Longrightarrow> frame db' = frame db"
  by (auto simp: insertStage_def rbind_eq_Inr_iff split: if_splits)

lemma reopen_stage_frame [frames]: "reopen_stage jid sid now db = Inr db' \<Longrightarrow> frame db' = frame db"
  by (auto simp: reopen_stage_def Let_def split: if_splits)

lemma reopen_job_frame [frames]: "reopen_job j now db = Inr db' \<Longrightarrow> frame db' = frame db"
  by (auto simp: reopen_job_def Let_def frame_jobs_update job_core_def split: if_splits)

lemma reopen_events_frame [frames]: "reopen_events enc jid r t k d now db = Inr db' \<Longrightarrow> frame db' = frame db"
  by (auto simp: reopen_events_def rbind_eq_Inr_iff dest!: frames)

lemma cancel_job_tx_frame [frames]: "cancel_job_tx jid r now db = Inr (b, db') \<Longrightarrow> frame db' = frame db"
  by (auto simp: cancel_job_tx_def Let_def rbind_eq_Inr_iff split: option.splits if_splits dest!: frames)

lemma extend_rows_frame [simp]: "frame (extend_rows j deadline now db) = frame db"
  by (simp add: extend_rows_def frame_def cores_def steering_def map_core_update job_core_def queue_core_def)

lemma extend_tx_frame [frames]: "extend_tx cfg jid r now db = Inr (b, db') \<Longrightarrow> frame db' = frame db"
  by (auto simp: extend_tx_def Let_def rbind_eq_Inr_iff split: option.splits if_splits dest!: frames)

lemma compact_task_frame [frames]: "compact_task n db c = Inr db' \<Longrightarrow> frame db' = frame db"
  by (cases c) (auto simp: rbind_eq_Inr_iff Let_def frame_def cores_def steering_def map_core_update queue_core_def split: if_splits)

lemma bind_unbound_frame [frames]: "bind_unbound now db jid = Inr db' \<Longrightarrow> frame db' = frame db"
  by (auto simp: bind_unbound_def rbind_eq_Inr_iff dest!: frames)

end
