(* ===== verification/Task_Refine.thy ===== *)
theory Task_Refine
  imports Task_Frame
begin

text \<open>
  The operations on tasks and attempts implement the abstract lifecycle: under the abstraction \<open>lifecycle\<close> of the
  core of the database, every transaction is a run of the machine of theory \<open>Task_Lifecycle\<close> and keeps its
  invariant (\<open>sim\<close>). A transaction that passes through a state outside the invariant, as an assignment or a
  completion does, is one step as a whole.
\<close>

section \<open>Simulation\<close>

definition sim :: "ControlDB \<Rightarrow> ControlDB \<Rightarrow> bool" where
  "sim db db' \<longleftrightarrow> (core_inv (cores db) \<longrightarrow>
    core_inv (cores db') \<and> life\<^sup>*\<^sup>* (lifecycle (cores db)) (lifecycle (cores db')) \<and> shelf (kr (cores db)) (kr (cores db')))"

lemma sim_frame: "frame db' = frame db \<Longrightarrow> sim db db'"
  by (drule frame_cores) (simp add: sim_def)

lemma sim_refl [simp]: "sim db db"
  by (simp add: sim_frame)

lemma sim_trans: "sim a b \<Longrightarrow> sim b c \<Longrightarrow> sim a c"
  unfolding sim_def using rtranclp_trans [of life] shelf_trans by blast

lemma sim_left: "frame b = frame a \<Longrightarrow> sim b c \<Longrightarrow> sim a c"
  by (drule frame_cores) (simp add: sim_def)

lemma sim_right: "sim a b \<Longrightarrow> frame c = frame b \<Longrightarrow> sim a c"
  by (drule frame_cores) (simp add: sim_def)

lemma sim_inv: "sim a b \<Longrightarrow> core_inv (cores a) \<Longrightarrow> core_inv (cores b)"
  by (simp add: sim_def)

lemma sim_step:
  assumes "core_inv (cores db) \<Longrightarrow> life (lifecycle (cores db)) (lifecycle (cores db')) \<and> known (cores db') \<and> sealed (cores db')
      \<and> kr (cores db') = kr (cores db)"
  shows "sim db db'"
  using assms life_preserves_inv unfolding sim_def core_inv_def by (metis r_into_rtranclp shelf_refl)

lemma sim_assuming_inv: "(core_inv (cores db) \<Longrightarrow> sim db db') \<Longrightarrow> sim db db'"
  by (auto simp: sim_def)

section \<open>The core, row by row\<close>

definition on_task :: "string \<Rightarrow> (QueueCore \<Rightarrow> QueueCore) \<Rightarrow> Cores \<Rightarrow> Cores" where
  "on_task i f c = c\<lparr>kt := update_where (\<lambda>q. q_id q = i) f (kt c)\<rparr>"

lemma lifecycle_on_task:
  assumes "\<And>q. task_view (kj c) (f q) = g (task_view (kj c) q)"
  shows "lifecycle (on_task i f c) = put_task i g (lifecycle c)"
  using assms by (simp add: lifecycle_def on_task_def put_task_def update_where_def task_view_def)

lemma known_alt: "known c \<longleftrightarrow> list_all (\<lambda>oj. case oj of None \<Rightarrow> True | Some jid \<Rightarrow> jid \<in> fst ` set (kj c)) (map q_job (kt c))"
  by (simp add: known_def list_all_iff)

lemma known_on_task: "(\<And>q. q_job (f q) = q_job q) \<Longrightarrow> known (on_task i f c) = known c"
  by (simp add: known_alt on_task_def map_core_update cong: option.case_cong)

lemma sealed_on_task [simp]: "sealed (on_task i f c) = sealed c"
  by (simp add: sealed_def on_task_def)

lemma kr_on_task [simp]: "kr (on_task i f c) = kr c"
  by (simp add: on_task_def)

lemma set_state_on_task:
  "lifecycle (on_task i (\<lambda>q. q\<lparr>q_state := s\<rparr>) c) = put_task i (\<lambda>x. x\<lparr>k_state := s\<rparr>) (lifecycle c)"
  "known (on_task i (\<lambda>q. q\<lparr>q_state := s\<rparr>) c) = known c"
  by (simp_all add: lifecycle_on_task task_view_def known_on_task)

lemma cores_simps [simp]:
  "kt (cores db) = map queue_core (ct_tasks db)" "ka (cores db) = map attempt_core (ct_attempts db)"
  "kj (cores db) = map job_core (ct_jobs db)" "kf (cores db) = map final_core (ct_attempts db)"
  "kr (cores db) = ct_artifacts db"
  by (simp_all add: cores_def)

lemma core_selectors [simp]:
  "q_id (queue_core t) = t_id t" "q_job (queue_core t) = t_job t" "q_state (queue_core t) = t_state t"
  "q_attempt (queue_core t) = t_attempt t" "q_generation (queue_core t) = t_generation t"
  "l_id (attempt_core a) = a_id a" "l_task (attempt_core a) = a_task a" "l_generation (attempt_core a) = a_generation a"
  "l_released (attempt_core a) = a_released a"
  by (simp_all add: queue_core_def attempt_core_def)

lemma view_selectors [simp]:
  "k_id (task_view js q) = q_id q" "k_state (task_view js q) = q_state q" "k_attempt (task_view js q) = q_attempt q"
  "k_generation (task_view js q) = q_generation q" "k_limit (task_view js q) = limit_of js (q_job q)"
  by (simp_all add: task_view_def)

lemma lifecycle_simps [simp]:
  "lc_tasks (lifecycle c) = map (task_view (kj c)) (kt c)" "lc_attempts (lifecycle c) = ka c"
  by (simp_all add: lifecycle_def)

lemma cores_tasks_on_task:
  assumes "\<And>t. queue_core (f t) = g (queue_core t)"
  shows "cores (db\<lparr>ct_tasks := update_where (\<lambda>t. t_id t = i) f (ct_tasks db)\<rparr>) = on_task i g (cores db)"
  using assms by (simp add: cores_def on_task_def update_where_def)

lemma limit_of_pos [simp]: "1 \<le> limit_of js oj"
  by (simp add: limit_of_def split: option.splits)

section \<open>What the invariant says of the rows\<close>

lemma inv_rows:
  assumes "core_inv (cores db)"
  shows "distinct (map t_id (ct_tasks db))" "distinct (map a_id (ct_attempts db))"
    "\<forall>t\<in>set (ct_tasks db). task_ok (lifecycle (cores db)) (task_view (map job_core (ct_jobs db)) (queue_core t))"
    "\<forall>a\<in>set (ct_attempts db). attempt_ok (lifecycle (cores db)) (attempt_core a)"
    "\<forall>a\<in>set (ct_attempts db). a_released a \<longleftrightarrow> a_final_hash a \<noteq> []"
  using assms by (simp_all add: core_inv_def life_inv_def sealed_def list_all_iff final_core_def comp_def)

lemma task_unique:
  assumes "core_inv (cores db)" "t \<in> set (ct_tasks db)" "u \<in> set (ct_tasks db)" "t_id t = t_id u"
  shows "t = u"
  using distinct_key [of t_id "ct_tasks db" t u] inv_rows(1) assms by blast

lemma attempt_unique:
  assumes "core_inv (cores db)" "a \<in> set (ct_attempts db)" "b \<in> set (ct_attempts db)" "a_id a = a_id b"
  shows "a = b"
  using distinct_key [of a_id "ct_attempts db" a b] inv_rows(2) assms by blast

lemma idle_task:
  assumes "core_inv (cores db)" "t \<in> set (ct_tasks db)" "t_attempt t = []"
  shows "t_state t = ''QUEUED'' \<or> job_terminal (t_state t)"
proof -
  have "t_state t \<notin> active_states"
  proof
    assume "t_state t \<in> active_states"
    then obtain a where "a \<in> set (ct_attempts db)" "a_id a = []"
      using inv_rows(3) [OF assms(1)] assms(2,3) by (fastforce simp: task_ok_def holds_attempt_def)
    then show False using inv_rows(4) [OF assms(1)] by (auto simp: attempt_ok_def)
  qed
  then show ?thesis using inv_rows(3) [OF assms(1)] assms(2) by (auto simp: task_ok_def)
qed

lemma busy_task:
  assumes "core_inv (cores db)" "t \<in> set (ct_tasks db)" "t_attempt t \<noteq> []"
  shows "t_state t \<in> active_states \<or> job_terminal (t_state t)"
  using inv_rows(3) [OF assms(1)] assms(2,3) by (auto simp: task_ok_def)

lemma open_attempt:
  assumes "core_inv (cores db)" "a \<in> set (ct_attempts db)" "a_final_hash a = []"
    "t \<in> set (ct_tasks db)" "t_id t = a_task a"
  shows "t_state t \<in> active_states" "t_attempt t = a_id a"
proof -
  have "\<not> a_released a" using inv_rows(5) [OF assms(1)] assms(2,3) by blast
  then obtain u where u: "u \<in> set (ct_tasks db)" "t_id u = a_task a" "t_attempt u = a_id a" "t_state u \<in> active_states"
    using inv_rows(4) [OF assms(1)] assms(2) by (auto simp: attempt_ok_def)
  with task_unique [OF assms(1) u(1) assms(4)] assms(5) show "t_state t \<in> active_states" "t_attempt t = a_id a" by auto
qed

text \<open>The abstract task of a row.\<close>

lemma row_task: "t \<in> set (ct_tasks db) \<Longrightarrow> task_view (map job_core (ct_jobs db)) (queue_core t) \<in> set (lc_tasks (lifecycle (cores db)))"
  by simp

section \<open>The change of a task's state\<close>

lemma setState_effect:
  assumes "setState enc i s code msg now db = Inr db'"
  obtains t where "t \<in> set (ct_tasks db)" "t_id t = i"
    "(t_state t = s \<or> job_terminal (t_state t)) \<and> frame db' = frame db
     \<or> \<not> job_terminal (t_state t) \<and> cores db' = on_task i (\<lambda>q. q\<lparr>q_state := s\<rparr>) (cores db) \<and> steering db' = steering db"
proof -
  obtain t where t: "select_row (\<lambda>t. t_id t = i) (ct_tasks db) = Inr t"
    using assms by (auto simp: setState_def rbind_eq_Inr_iff)
  let ?db1 = "db\<lparr>ct_tasks := update_where (\<lambda>x. t_id x = i)
    (\<lambda>x. x\<lparr>t_state := s, t_error_code := code, t_error_message := msg, t_updated := now\<rparr>) (ct_tasks db)\<rparr>"
  have c: "cores ?db1 = on_task i (\<lambda>q. q\<lparr>q_state := s\<rparr>) (cores db)" by (rule cores_tasks_on_task) (simp add: queue_core_def)
  have "(t_state t = s \<or> job_terminal (t_state t)) \<and> db' = db \<or> \<not> job_terminal (t_state t) \<and> frame db' = frame ?db1"
    using assms t by (auto simp: setState_def rbind_eq_Inr_iff Let_def split: if_splits option.splits dest!: frames)
  then have "(t_state t = s \<or> job_terminal (t_state t)) \<and> frame db' = frame db
     \<or> \<not> job_terminal (t_state t) \<and> cores db' = on_task i (\<lambda>q. q\<lparr>q_state := s\<rparr>) (cores db) \<and> steering db' = steering db"
    using c by (auto simp: frame_def)
  with select_row_InrD [OF t] show thesis by (intro that) blast+
qed

lemma setState_sim:
  assumes run: "setState enc i s code msg now db = Inr db'"
    and ok: "\<And>t. \<lbrakk>core_inv (cores db); t \<in> set (ct_tasks db); t_id t = i; \<not> job_terminal (t_state t)\<rbrakk> \<Longrightarrow>
      t_state t \<in> active_states \<and> s \<in> active_states \<or> t_state t = ''QUEUED'' \<and> (s = ''CANCELED'' \<or> s = ''FAILED'')"
  shows "sim db db'" "steering db' = steering db"
proof -
  obtain t where t: "t \<in> set (ct_tasks db)" "t_id t = i"
    and r: "frame db' = frame db \<or> \<not> job_terminal (t_state t) \<and> cores db' = on_task i (\<lambda>q. q\<lparr>q_state := s\<rparr>) (cores db) \<and> steering db' = steering db"
    by (rule setState_effect [OF run]) blast
  show "steering db' = steering db" using r by (auto simp: frame_def)
  from r show "sim db db'"
  proof
    assume r: "\<not> job_terminal (t_state t) \<and> cores db' = on_task i (\<lambda>q. q\<lparr>q_state := s\<rparr>) (cores db) \<and> steering db' = steering db"
    show ?thesis
    proof (rule sim_step)
      assume inv: "core_inv (cores db)"
      let ?k = "task_view (map job_core (ct_jobs db)) (queue_core t)"
      have k: "?k \<in> set (lc_tasks (lifecycle (cores db)))" "k_id ?k = i" "k_state ?k = t_state t" using t by simp_all
      have "life (lifecycle (cores db)) (put_task (k_id ?k) (\<lambda>x. x\<lparr>k_state := s\<rparr>) (lifecycle (cores db)))"
        using ok [OF inv t] r k life.move [OF k(1)] life.drop [OF k(1)] by auto
      then show "life (lifecycle (cores db)) (lifecycle (cores db')) \<and> known (cores db') \<and> sealed (cores db') \<and> kr (cores db') = kr (cores db)"
        using r inv k(2) arg_cong [OF conjunct1 [OF conjunct2 [OF r]], of kr] by (simp add: set_state_on_task core_inv_def)
    qed
  qed (rule sim_frame)
qed

text \<open>A step that implements the lifecycle and leaves the control plane alone.\<close>

definition quiet :: "ControlDB \<Rightarrow> ControlDB \<Rightarrow> bool" where
  "quiet db db' \<longleftrightarrow> sim db db' \<and> (core_inv (cores db) \<longrightarrow> steering db' = steering db)"

lemma quiet_frame: "frame db' = frame db \<Longrightarrow> quiet db db'"
  unfolding quiet_def using sim_frame frame_steering by blast

lemma quiet_refl [simp]: "quiet db db"
  by (simp add: quiet_frame)

lemma quiet_trans [trans]: "quiet a b \<Longrightarrow> quiet b c \<Longrightarrow> quiet a c"
  using sim_trans [of a b c] by (auto simp: quiet_def sim_def)

lemma quiet_inv: "quiet a b \<Longrightarrow> core_inv (cores a) \<Longrightarrow> core_inv (cores b)"
  by (simp add: quiet_def sim_def)

lemma quiet_assuming_inv: "(core_inv (cores db) \<Longrightarrow> quiet db db') \<Longrightarrow> quiet db db'"
  by (auto simp: quiet_def intro: sim_assuming_inv)

text \<open>The task \<open>i\<close> with its attempt; changes of state and frames keep it.\<close>

definition slot :: "Cores \<Rightarrow> string \<Rightarrow> string \<Rightarrow> bool" where
  "slot c i a \<longleftrightarrow> (i, a) \<in> set (map (\<lambda>q. (q_id q, q_attempt q)) (kt c))"

lemma slot_row: "t \<in> set (ct_tasks db) \<Longrightarrow> slot (cores db) (t_id t) (t_attempt t)"
  by (force simp: slot_def)

lemma slot_set_state: "slot (on_task j (\<lambda>q. q\<lparr>q_state := s\<rparr>) c) i a = slot c i a"
proof -
  have "kt (on_task j (\<lambda>q. q\<lparr>q_state := s\<rparr>) c) = update_where (\<lambda>q. q_id q = j) (\<lambda>q. q\<lparr>q_state := s\<rparr>) (kt c)"
    by (simp add: on_task_def)
  then show ?thesis by (simp only: slot_def) (subst map_core_update, simp, rule refl)
qed

lemma slot_attempt:
  assumes "slot (cores db) i a" "core_inv (cores db)" "t \<in> set (ct_tasks db)" "t_id t = i"
  shows "t_attempt t = a"
proof -
  obtain u where "u \<in> set (ct_tasks db)" "t_id u = i" "t_attempt u = a" using assms(1) by (auto simp: slot_def)
  then show ?thesis using task_unique [OF assms(2) _ assms(3)] assms(4) by metis
qed

lemma setState_slots: "setState enc i s code msg now db = Inr db' \<Longrightarrow> slot (cores db') j a = slot (cores db) j a"
  by (erule setState_effect) (elim disjE conjE; (drule frame_cores)?; simp add: slot_set_state)

lemma setState_steering: "setState enc i s code msg now db = Inr db' \<Longrightarrow> steering db' = steering db"
  by (erule setState_effect) (elim disjE conjE; (drule frame_steering)?; simp)

lemma setState_quiet:
  assumes "setState enc i s code msg now db = Inr db'"
    "\<And>t. \<lbrakk>core_inv (cores db); t \<in> set (ct_tasks db); t_id t = i; \<not> job_terminal (t_state t)\<rbrakk> \<Longrightarrow>
      t_state t \<in> active_states \<and> s \<in> active_states \<or> t_state t = ''QUEUED'' \<and> (s = ''CANCELED'' \<or> s = ''FAILED'')"
  shows "quiet db db'"
  unfolding quiet_def by (intro conjI impI setState_sim [OF assms(1)] assms(2))

lemma setState_stop:
  assumes "setState enc i s code msg now db = Inr db'" "s \<in> active_states" "slot (cores db) i a" "a \<noteq> []"
  shows "quiet db db'"
  using busy_task [of db] slot_attempt [OF assms(3)] assms(2,4) by (intro setState_quiet [OF assms(1)]) blast

lemma setState_drop:
  assumes "setState enc i ''CANCELED'' code msg now db = Inr db'" "slot (cores db) i []"
  shows "quiet db db'"
  using idle_task [of db] slot_attempt [OF assms(2)] by (intro setState_quiet [OF assms(1)]) blast

lemma select_unique:
  assumes "core_inv (cores db)" "u \<in> set (ct_tasks db)" "t_id u = i" "select_row (\<lambda>t. t_id t = i) (ct_tasks db) = Inr t"
  shows "u = t"
  using task_unique [OF assms(1,2)] select_row_InrD [OF assms(4)] assms(3) by blast

section \<open>Cancellation\<close>

lemma cancel_tx_quiet:
  assumes "cancel_tx enc hash r cid now db = Inr db'"
  shows "quiet db db'"
proof (cases "db' = db")
  case False
  define db1 where "db1 = db\<lparr>ct_controls := ct_controls db @ [\<lparr>cl_task = ca_TaskId r, cl_id = ca_ControlId r, cl_hash = hash\<rparr>]\<rparr>"
  have f: "frame db1 = frame db" by (simp add: db1_def)
  from False assms obtain t where t: "select_row (\<lambda>t. t_id t = ca_TaskId r) (ct_tasks db1) = Inr t"
    and c: "db' = db1 \<or> t_attempt t = [] \<and> setState enc (t_id t) ''CANCELED'' [] [] now db1 = Inr db'
      \<or> t_attempt t \<noteq> [] \<and> (\<exists>db2. setState enc (t_id t) ''CANCELING'' [] [] now db1 = Inr db2 \<and> stopCommand cid t db2 = Inr db')"
    by (auto simp: cancel_tx_def Let_def rbind_eq_Inr_iff db1_def split: option.splits if_splits)
  have sl: "slot (cores db1) (t_id t) (t_attempt t)" using select_row_InrD [OF t] slot_row by blast
  from c have "quiet db1 db'"
  proof (elim disjE conjE exE)
    assume "t_attempt t = []" "setState enc (t_id t) ''CANCELED'' [] [] now db1 = Inr db'"
    with sl show ?thesis by (intro setState_drop [of enc "t_id t"]) simp_all
  next
    fix db2 assume a: "t_attempt t \<noteq> []" and s: "setState enc (t_id t) ''CANCELING'' [] [] now db1 = Inr db2" "stopCommand cid t db2 = Inr db'"
    have "quiet db1 db2" using setState_stop [OF s(1) _ sl a] by simp
    also have "quiet db2 db'" by (rule quiet_frame [OF stopCommand_frame [OF s(2)]])
    finally show ?thesis .
  qed simp
  then show ?thesis using quiet_frame [OF f] quiet_trans by blast
qed simp

section \<open>Reconciliation\<close>

lemma reconcile_item_quiet:
  assumes "reconcile_item enc cid now db (i, dl, ls) = Inr db'" "slot (cores db) i a" "a \<noteq> []"
  shows "quiet db db' \<and> (\<forall>j b. slot (cores db') j b = slot (cores db) j b)"
proof -
  obtain t where t: "select_row (\<lambda>t. t_id t = i) (ct_tasks db) = Inr t"
    and c: "db' = db \<or> (\<exists>s code msg db1. s \<in> active_states \<and> setState enc i s code msg now db = Inr db1 \<and> stopCommand (cid i) t db1 = Inr db')"
    using assms(1) by (auto simp: rbind_eq_Inr_iff split: if_splits) (metis state_disjoint(12), metis state_disjoint(13))
  from c show ?thesis
  proof (elim disjE exE conjE)
    fix s code msg db1
    assume s: "s \<in> active_states" "setState enc i s code msg now db = Inr db1" "stopCommand (cid i) t db1 = Inr db'"
    have f: "frame db' = frame db1" by (rule stopCommand_frame [OF s(3)])
    have "quiet db db'" using setState_stop [OF s(2,1) assms(2,3)] quiet_frame [OF f] quiet_trans by blast
    moreover have "slot (cores db') j b = slot (cores db) j b" for j b
      using setState_slots [OF s(2)] frame_cores [OF f] by simp
    ultimately show ?thesis by blast
  qed simp
qed

lemma reconcile_quiet:
  assumes "reconcile enc cid now db = Inr db'"
  shows "quiet db db'"
proof (rule quiet_assuming_inv)
  let ?P = "\<lambda>d. quiet db d \<and> (\<forall>j b. slot (cores d) j b = slot (cores db) j b)"
  have "a_id x \<noteq> []" if "core_inv (cores db)" "x \<in> set (ct_attempts db)" for x
    using inv_rows(4) [OF that(1)] that(2) by (auto simp: attempt_ok_def)
  then have it: "\<exists>a. slot (cores db) i a \<and> a \<noteq> []" if "core_inv (cores db)" "(i, dl, ls) \<in> set (running_items db)" for i dl ls
    using that slot_row [of _ db] by (fastforce simp: running_items_def)
  show q: "quiet db db'" if inv: "core_inv (cores db)"
  proof -
    have "?P db'"
    proof (rule fold_result_invariant [where P = "\<lambda>_. ?P" and xs = "running_items db"])
      show "fold_result (reconcile_item enc cid now) db (running_items db) = Inr db'" using assms by (simp add: reconcile_def)
      fix "done" x d d' assume p: "?P d" and x: "x \<in> set (running_items db)" and r: "reconcile_item enc cid now d x = Inr d'"
      obtain i dl ls where xi: "x = (i, dl, ls)" by (cases x)
      obtain a where a: "slot (cores d) i a" "a \<noteq> []" using it [OF inv] x xi p by blast
      show "?P d'" using reconcile_item_quiet [OF _ a] r xi p quiet_trans by blast
    qed simp
    then show ?thesis by simp
  qed
qed

section \<open>Reports of a worker\<close>

lemma insert_approval_cores: "insert_approval row db = Inr db' \<Longrightarrow> cores db' = cores db"
  by (auto simp: insert_approval_def rbind_eq_Inr_iff cores_def split: if_splits)

lemma persistApprovalRequested_cores:
  assumes "persistApprovalRequested ev now db = Inr db'"
  shows "cores db' = cores db"
proof (cases "db' = db")
  case False
  with assms obtain row v where ins: "insert_approval row (db\<lparr>ct_approvals := v\<rparr>) = Inr db'"
    unfolding persistApprovalRequested_def Let_def by (auto simp: rbind_eq_Inr_iff split: if_splits option.splits)
  from insert_approval_cores [OF ins] show ?thesis by (simp add: cores_def)
qed simp

lemma sim_cores: "cores db' = cores db \<Longrightarrow> sim db db'"
  by (simp add: sim_def)

lemma quiet_sim: "quiet db db' \<Longrightarrow> sim db db'"
  by (simp add: quiet_def)

lemma start_running_quiet:
  assumes "start_running enc v ev now db = Inr db'"
  shows "quiet db db'"
proof (cases "db' = db")
  case False
  with assms obtain t where t: "select_row (\<lambda>t. t_id t = aw_task v) (ct_tasks db) = Inr t" "t_state t = ''STARTING''"
    and s: "setState enc (aw_task v) ''RUNNING'' [] [] now db = Inr db'"
    by (auto simp: start_running_def rbind_eq_Inr_iff split: if_splits)
  show ?thesis
  proof (rule setState_quiet [OF s])
    fix u assume "core_inv (cores db)" "u \<in> set (ct_tasks db)" "t_id u = aw_task v"
    then have "u = t" using t(1) by (rule select_unique)
    then show "t_state u \<in> active_states \<and> ''RUNNING'' \<in> active_states \<or> t_state u = ''QUEUED'' \<and> (''RUNNING'' = ''CANCELED'' \<or> ''RUNNING'' = ''FAILED'')"
      using t(2) by simp
  qed
qed simp

section \<open>Completion\<close>

definition seal :: "string \<Rightarrow> Cores \<Rightarrow> Cores" where
  "seal a c = c\<lparr>ka := update_where (\<lambda>x. l_id x = a) (\<lambda>x. x\<lparr>l_released := True\<rparr>) (ka c),
    kf := update_where (\<lambda>p. fst p = a) (\<lambda>p. (fst p, True)) (kf c)\<rparr>"

lemma seal_simps [simp]: "kt (seal a c) = kt c" "kj (seal a c) = kj c" "lifecycle (seal a c) = release a (lifecycle c)"
  by (simp_all add: seal_def lifecycle_def release_def)

lemma seal_keeps: "known c \<Longrightarrow> known (seal a c)" "sealed c \<Longrightarrow> sealed (seal a c)"
  by (simp add: known_def seal_def cong: option.case_cong) (auto simp: sealed_def seal_def update_where_def list_all_iff)

lemma release_put_task: "put_task i g (release a L) = release a (put_task i g L)"
  by (simp add: put_task_def release_def)

lemma close_attempt_effect:
  assumes "close_attempt enc hash r v a t now db = Inr db'" "hash \<noteq> []"
  shows "cores db' = seal a (cores db)" "steering db' = steering db"
proof -
  obtain ref db1 db2 where
      e: "appendEvent enc (server_event (t_id t) a (aw_generation v) ''attempt.completed''
        (JObj [(''artifact_ids'', ids_json (cr_ArtifactIds r)), (''cleanup_confirmed'', JBool True), (''success'', JBool (cr_Success r))]))
      None now (db\<lparr>ct_tasks := update_where (\<lambda>x. t_id x = t_id t) (\<lambda>x. x\<lparr>t_result := cr_Result r, t_native_session := ref\<rparr>) (ct_tasks db)\<rparr>) = Inr db1"
    and u: "recordBoundGoalAttemptUsage (t_id t) a now db1 = Inr db2"
    and d: "db' = db2\<lparr>ct_attempts := update_where (\<lambda>x. a_id x = a) (\<lambda>x. x\<lparr>a_released := True, a_final_hash := hash\<rparr>) (ct_attempts db2),
      ct_commands := update_where (\<lambda>c. cm_attempt c = a) (\<lambda>c. c\<lparr>cm_acked := True\<rparr>) (ct_commands db2)\<rparr>"
    using assms(1) by (auto simp: close_attempt_def rbind_eq_Inr_iff)
  have f1: "frame db2 = frame (db\<lparr>ct_tasks := update_where (\<lambda>x. t_id x = t_id t) (\<lambda>x. x\<lparr>t_result := cr_Result r, t_native_session := ref\<rparr>) (ct_tasks db)\<rparr>)"
    using appendEvent_frame [OF e] recordBoundGoalAttemptUsage_frame [OF u] by (simp only:)
  have f2: "frame (db\<lparr>ct_tasks := update_where (\<lambda>x. t_id x = t_id t) (\<lambda>x. x\<lparr>t_result := cr_Result r, t_native_session := ref\<rparr>) (ct_tasks db)\<rparr>) = frame db"
    by (rule frame_tasks_update) (simp add: queue_core_def)
  let ?db3 = "db2\<lparr>ct_attempts := update_where (\<lambda>x. a_id x = a) (\<lambda>x. x\<lparr>a_released := True, a_final_hash := hash\<rparr>) (ct_attempts db2)\<rparr>"
  have f3: "frame db' = frame ?db3" using frame_acked [of "\<lambda>c. cm_attempt c = a" True ?db3] by (simp add: d)
  have f: "cores db2 = cores db" "steering db2 = steering db" using f1 f2 by (simp_all add: frame_def)
  have "cores ?db3 = seal a (cores db2)"
    using assms(2) by (simp add: cores_def seal_def update_where_def attempt_core_def final_core_def)
  then show "cores db' = seal a (cores db)" using frame_cores [OF f3] f by simp
  show "steering db' = steering db" using frame_steering [OF f3] f by simp
qed

lemma identity_rows:
  assumes "readAttemptIdentity w ref db = Inr v"
  obtains rf a t where "ref = Some rf" "a \<in> set (ct_attempts db)" "t \<in> set (ct_tasks db)" "t_id t = a_task a"
    "a_id a = at_AttemptId rf" "t_attempt t = a_id a" "t_generation t = a_generation a" "a_generation a = at_Generation rf"
    "a_worker a = w" "a_token a = at_LeaseToken rf" "v = attempt_view a t db"
proof -
  obtain rf a t where s: "ref = Some rf" "select_row (\<lambda>(a, t). a_id a = at_AttemptId rf) (attempts_with_tasks db) = Inr (a, t)"
    "v = attempt_view a t db" "a_worker a = w" "a_generation a = at_Generation rf" "a_token a = at_LeaseToken rf"
    "t_attempt t = at_AttemptId rf" "t_generation t = at_Generation rf"
    using assms by (auto simp: readAttemptIdentity_def rbind_eq_Inr_iff Let_def attempt_view_def split: option.splits if_splits)
  have "(a, t) \<in> set (attempts_with_tasks db)" "a_id a = at_AttemptId rf" using select_row_InrD [OF s(2)] by auto
  then show thesis using s by (intro that [of rf a t]) (auto simp: attempts_with_tasks_def)
qed

lemma update_where_cong: "(\<And>x. x \<in> set xs \<Longrightarrow> P x = Q x) \<Longrightarrow> update_where P f xs = update_where Q f xs"
  by (simp add: update_where_def)

lemma readJob_limit: "readJob jid db = Inr j \<Longrightarrow> map_of (map job_core (ct_jobs db)) jid = Some (lm_MaxAttemptsPerTask (sp_Limits (j_spec j)))"
proof -
  have "List.find (\<lambda>j. j_id j = jid) js = Some j \<Longrightarrow> map_of (map job_core js) jid = Some (lm_MaxAttemptsPerTask (sp_Limits (j_spec j)))" for js
    by (induction js) (auto simp: job_core_def split: if_splits)
  then show "readJob jid db = Inr j \<Longrightarrow> ?thesis" by (simp add: readJob_def select_row_def split: option.splits)
qed

lemma no_retry_rp [simp]: "\<not> rp_retry no_retry"
  by (simp add: no_retry_def)

lemma planRetry_limit:
  assumes "planRetry i code g now db = Inr plan" "rp_retry plan"
  shows "\<exists>u\<in>set (ct_tasks db). t_id u = i \<and> g < limit_of (map job_core (ct_jobs db)) (t_job u)"
proof -
  have ne: "Inr no_retry \<noteq> (Inr plan :: retryPlan result)" using assms(2) by auto
  obtain t jid j ex where t: "select_row (\<lambda>t. t_id t = i) (ct_tasks db) = Inr t" "t_job t = Some jid" "readJob jid db = Inr j"
    and e: "ExecutionFor (j_spec j) (t_stage t) (t_partition t) = Some ex"
    and p: "planRetry i code g now db = Inr plan"
    using assms(1) ne unfolding planRetry_def Let_def
    by (cases "select_row (\<lambda>t. t_id t = i) (ct_tasks db)"; simp split: if_split_asm option.split_asm)
      (auto simp: rbind_eq_Inr_iff split: if_split_asm option.split_asm)
  have "g < lm_MaxAttemptsPerTask (sp_Limits (j_spec j))"
    using p t e ne assms(2) unfolding planRetry_def Let_def by (simp add: no_retry_def split: if_split_asm) force
  then have "g < limit_of (map job_core (ct_jobs db)) (t_job t)" using t readJob_limit [OF t(3)] by (simp add: limit_of_def)
  with select_row_InrD [OF t(1)] show ?thesis by blast
qed

definition requeued :: "QueueCore \<Rightarrow> QueueCore" where
  "requeued q = q\<lparr>q_state := ''QUEUED'', q_attempt := []\<rparr>"

lemma requeue_core: "queue_core (requeue b n now t) = requeued (queue_core t)"
  by (simp add: requeue_def requeued_def queue_core_def)

lemma scheduleRetry_effect:
  assumes "scheduleRetry enc t a g code msg plan now db = Inr db'"
    "\<And>u. u \<in> set (ct_tasks db) \<Longrightarrow> t_id u = t_id t \<Longrightarrow> t_attempt u = a \<and> t_generation u = g"
  shows "cores db' = on_task (t_id t) requeued (cores db) \<and> steering db' = steering db"
proof -
  let ?hit = "\<lambda>x. t_id x = t_id t \<and> t_attempt x = a \<and> t_generation x = g"
  let ?db1 = "db\<lparr>ct_tasks := update_where ?hit (requeue ''RETRY_BACKOFF'' (rp_retryAt plan) now) (ct_tasks db)\<rparr>"
  have "frame db' = frame ?db1"
    using assms(1) by (auto simp: scheduleRetry_def Let_def rbind_eq_Inr_iff split: if_splits dest!: frames)
  moreover have "update_where ?hit f (ct_tasks db) = update_where (\<lambda>x. t_id x = t_id t) f (ct_tasks db)" for f
    by (rule update_where_cong) (use assms(2) in blast)
  moreover have "cores (db\<lparr>ct_tasks := update_where (\<lambda>x. t_id x = t_id t) (requeue ''RETRY_BACKOFF'' (rp_retryAt plan) now) (ct_tasks db)\<rparr>)
      = on_task (t_id t) requeued (cores db)"
    by (rule cores_tasks_on_task) (rule requeue_core)
  ultimately show ?thesis by (simp add: frame_def)
qed

lemma settle_task_effect:
  assumes run: "settle_task enc v a t state code msg now db = Inr db'" and "job_terminal state"
    and rows: "\<And>u. u \<in> set (ct_tasks db) \<Longrightarrow> t_id u = t_id t \<Longrightarrow> t_attempt u = a \<and> t_generation u = aw_generation v \<and> \<not> job_terminal (t_state u)"
  shows "steering db' = steering db \<and> (cores db' = on_task (t_id t) (\<lambda>q. q\<lparr>q_state := state\<rparr>) (cores db)
    \<or> cores db' = on_task (t_id t) requeued (cores db)
      \<and> (\<exists>u\<in>set (ct_tasks db). t_id u = t_id t \<and> t_generation u < limit_of (map job_core (ct_jobs db)) (t_job u)))"
proof (cases "\<exists>plan. planRetry (t_id t) code (aw_generation v) now db = Inr plan \<and> rp_retry plan
    \<and> scheduleRetry enc t a (aw_generation v) code msg plan now db = Inr db'")
  case True
  then obtain plan where p: "planRetry (t_id t) code (aw_generation v) now db = Inr plan" "rp_retry plan"
    and s: "scheduleRetry enc t a (aw_generation v) code msg plan now db = Inr db'" by blast
  obtain u where u: "u \<in> set (ct_tasks db)" "t_id u = t_id t" "aw_generation v < limit_of (map job_core (ct_jobs db)) (t_job u)"
    using planRetry_limit [OF p] by blast
  have "t_generation u < limit_of (map job_core (ct_jobs db)) (t_job u)" using rows [OF u(1,2)] u(3) by simp
  then show ?thesis using scheduleRetry_effect [OF s] rows u(1,2) by blast
next
  case False
  then obtain d where f: "frame d = frame db" and s: "setState enc (t_id t) state code msg now d = Inr db'"
    using run by (auto simp: settle_task_def rbind_eq_Inr_iff split: if_splits dest: appendRetryExhausted_frame)
  obtain u where u: "u \<in> set (ct_tasks d)" "t_id u = t_id t"
    and e: "(t_state u = state \<or> job_terminal (t_state u)) \<and> frame db' = frame d
     \<or> \<not> job_terminal (t_state u) \<and> cores db' = on_task (t_id t) (\<lambda>q. q\<lparr>q_state := state\<rparr>) (cores d) \<and> steering db' = steering d"
    by (rule setState_effect [OF s])
  have "queue_core u \<in> set (map queue_core (ct_tasks db))" using u(1) arg_cong [OF frame_cores [OF f], of kt] by (metis cores_simps(1) image_eqI list.set_map)
  then have "\<not> job_terminal (t_state u)" using rows u(2) by (metis (no_types, lifting) core_selectors(1,3) ex_map_conv image_iff list.set_map)
  then show ?thesis using e assms(2) frame_cores [OF f] frame_steering [OF f] by auto
qed

text \<open>An active task is settled and its attempt released: one step of the lifecycle.\<close>

lemma settle_step:
  assumes inv: "core_inv (cores db)" and u: "u \<in> set (ct_tasks db)" "t_state u \<in> active_states"
    and f: "cores db' = on_task (t_id u) (\<lambda>q. q\<lparr>q_state := state\<rparr>) (seal (t_attempt u) (cores db)) \<and> job_terminal state
      \<or> cores db' = on_task (t_id u) requeued (seal (t_attempt u) (cores db)) \<and> t_generation u < limit_of (map job_core (ct_jobs db)) (t_job u)"
  shows "life (lifecycle (cores db)) (lifecycle (cores db')) \<and> known (cores db') \<and> sealed (cores db') \<and> kr (cores db') = kr (cores db)"
proof -
  let ?k = "task_view (map job_core (ct_jobs db)) (queue_core u)"
  have r: "kr (cores db') = kr (cores db)" using f by (auto simp: seal_def simp del: cores_simps)
  have k: "?k \<in> set (lc_tasks (lifecycle (cores db)))" "k_state ?k \<in> active_states" using u by simp_all
  have ks: "known (seal (t_attempt u) (cores db))" "sealed (seal (t_attempt u) (cores db))"
    using inv seal_keeps by (simp_all add: core_inv_def)
  from f show ?thesis
  proof
    assume c: "cores db' = on_task (t_id u) (\<lambda>q. q\<lparr>q_state := state\<rparr>) (seal (t_attempt u) (cores db)) \<and> job_terminal state"
    then show ?thesis using ks life.finish [OF k, of state] r by (simp add: set_state_on_task release_put_task)
  next
    assume c: "cores db' = on_task (t_id u) requeued (seal (t_attempt u) (cores db)) \<and> t_generation u < limit_of (map job_core (ct_jobs db)) (t_job u)"
    have "lifecycle (on_task (t_id u) requeued (seal (t_attempt u) (cores db)))
        = put_task (t_id u) (\<lambda>x. x\<lparr>k_state := ''QUEUED'', k_attempt := []\<rparr>) (lifecycle (seal (t_attempt u) (cores db)))"
      by (rule lifecycle_on_task) (simp add: requeued_def task_view_def)
    then show ?thesis using c ks life.retry [OF k] r by (simp add: known_on_task requeued_def release_put_task)
  qed
qed

lemma complete_outcome_terminal: "complete_outcome r v t now db = Inr (state, code, msg) \<Longrightarrow> job_terminal state"
  by (auto simp: complete_outcome_def split: if_splits)

text \<open>Everything but the states of the tasks.\<close>

definition stateless :: "Cores \<Rightarrow> Cores" where
  "stateless c = c\<lparr>kt := map (\<lambda>q. q\<lparr>q_state := []\<rparr>) (kt c), kr := []\<rparr>"

lemma setState_stateless: "setState enc i s code msg now db = Inr db' \<Longrightarrow> stateless (cores db') = stateless (cores db)"
  by (erule setState_effect)
    (elim disjE conjE; (drule frame_cores)?; simp add: stateless_def on_task_def map_core_update)

lemma stateless_rows:
  assumes "stateless (cores d) = stateless (cores db)"
  shows "map t_id (ct_tasks d) = map t_id (ct_tasks db)" "map attempt_core (ct_attempts d) = map attempt_core (ct_attempts db)"
    "map job_core (ct_jobs d) = map job_core (ct_jobs db)"
    "\<And>u. u \<in> set (ct_tasks d) \<Longrightarrow> \<exists>t\<in>set (ct_tasks db). t_id t = t_id u \<and> t_attempt t = t_attempt u
      \<and> t_generation t = t_generation u \<and> t_job t = t_job u"
proof -
  have k: "map (\<lambda>t. (queue_core t)\<lparr>q_state := []\<rparr>) (ct_tasks d) = map (\<lambda>t. (queue_core t)\<lparr>q_state := []\<rparr>) (ct_tasks db)"
    using arg_cong [OF assms, of kt] by (simp add: stateless_def comp_def)
  from arg_cong [OF k, of "map q_id"] show "map t_id (ct_tasks d) = map t_id (ct_tasks db)" by (simp add: comp_def)
  show "map attempt_core (ct_attempts d) = map attempt_core (ct_attempts db)" "map job_core (ct_jobs d) = map job_core (ct_jobs db)"
    using arg_cong [OF assms, of ka] arg_cong [OF assms, of kj] by (simp_all add: stateless_def)
  fix u assume "u \<in> set (ct_tasks d)"
  then have "(queue_core u)\<lparr>q_state := []\<rparr> \<in> set (map (\<lambda>t. (queue_core t)\<lparr>q_state := []\<rparr>) (ct_tasks db))"
    unfolding k [symmetric] by simp
  then show "\<exists>t\<in>set (ct_tasks db). t_id t = t_id u \<and> t_attempt t = t_attempt u \<and> t_generation t = t_generation u \<and> t_job t = t_job u"
    by (auto simp: queue_core_def)
qed

text \<open>A step that changes rows of artifacts only.\<close>

definition stocked :: "ControlDB \<Rightarrow> ControlDB \<Rightarrow> bool" where
  "stocked db db' \<longleftrightarrow> (cores db')\<lparr>kr := []\<rparr> = (cores db)\<lparr>kr := []\<rparr> \<and> shelf (kr (cores db)) (kr (cores db')) \<and> steering db' = steering db"

lemma stocked_frame: "frame db' = frame db \<Longrightarrow> stocked db db'"
  by (simp add: stocked_def frame_def)

lemma stocked_trans: "stocked a b \<Longrightarrow> stocked b c \<Longrightarrow> stocked a c"
  unfolding stocked_def using shelf_trans by metis

lemma core_parts_stock:
  "lifecycle (c\<lparr>kr := v\<rparr>) = lifecycle c" "known (c\<lparr>kr := v\<rparr>) = known c" "sealed (c\<lparr>kr := v\<rparr>) = sealed c"
  by (simp_all add: lifecycle_def known_def sealed_def cong: option.case_cong)

lemma stocked_quiet:
  assumes "stocked db db'"
  shows "quiet db db'"
proof -
  have "lifecycle (cores db') = lifecycle (cores db)" "known (cores db') = known (cores db)" "sealed (cores db') = sealed (cores db)"
    using assms core_parts_stock unfolding stocked_def by metis+
  then show ?thesis using assms by (auto simp: quiet_def sim_def stocked_def core_inv_def shelf_def)
qed

lemma stocked_artifacts:
  assumes "\<And>x. x \<in> set (ct_artifacts db) \<Longrightarrow> P x \<Longrightarrow> row_kept x (f x)"
  shows "stocked db (db\<lparr>ct_artifacts := update_where P f (ct_artifacts db)\<rparr>)"
  using shelf_update [OF assms] by (simp add: stocked_def cores_def steering_def)

lemma acceptArtifact_stocked:
  assumes "acceptArtifact i a t g now db = Inr db'"
  shows "stocked db db'"
proof -
  let ?hit = "\<lambda>x. af_id x = i \<and> af_attempt x = a \<and> af_generation x = g \<and> af_state x = ''STAGED''"
  let ?d = "db\<lparr>ct_artifacts := update_where ?hit (\<lambda>x. x\<lparr>af_state := ''ACCEPTED'', af_updated := now, af_gc_after := 0\<rparr>) (ct_artifacts db)\<rparr>"
  have "stocked db ?d" by (rule stocked_artifacts) (simp add: row_kept_def artifact_next_def)
  moreover have "pinArtifactRef i ''task_result'' t now ?d = Inr db'"
    using assms unfolding acceptArtifact_def Let_def by (simp split: if_split_asm)
  ultimately show ?thesis using stocked_trans stocked_frame [OF pinArtifactRef_frame] by blast
qed

lemma orphanStagedArtifacts_stocked: "stocked db (orphanStagedArtifacts a g now db)"
  unfolding orphanStagedArtifacts_def by (rule stocked_artifacts) (simp add: row_kept_def artifact_next_def)

lemma fold_stocked:
  assumes "fold_result f db xs = Inr db'" "\<And>d x d'. f d x = Inr d' \<Longrightarrow> stocked d d'"
  shows "stocked db db'"
  using assms(1)
proof (induction xs arbitrary: db)
  case (Cons x xs)
  then obtain d where d: "f db x = Inr d" "fold_result f d xs = Inr db'" by (auto simp: rbind_eq_Inr_iff)
  show ?case by (rule stocked_trans [OF assms(2) [OF d(1)] Cons.IH [OF d(2)]])
qed (simp add: stocked_frame)

text \<open>The core after the artifacts of a success were accepted: at most the task's state has changed.\<close>

definition verifying :: "string \<Rightarrow> Cores \<Rightarrow> Cores \<Rightarrow> bool" where
  "verifying i c d \<longleftrightarrow> d\<lparr>kr := []\<rparr> = c\<lparr>kr := []\<rparr> \<or> d\<lparr>kr := []\<rparr> = on_task i (\<lambda>q. q\<lparr>q_state := ''VERIFYING''\<rparr>) (c\<lparr>kr := []\<rparr>)"

lemma verifying_stateless:
  assumes "verifying i c d"
  shows "stateless d = stateless c"
  using assms
proof (unfold verifying_def, elim disjE)
  assume "d\<lparr>kr := []\<rparr> = c\<lparr>kr := []\<rparr>"
  from arg_cong [OF this, of stateless] show ?thesis by (simp add: stateless_def)
next
  assume "d\<lparr>kr := []\<rparr> = on_task i (\<lambda>q. q\<lparr>q_state := ''VERIFYING''\<rparr>) (c\<lparr>kr := []\<rparr>)"
  from arg_cong [OF this, of stateless] show ?thesis by (simp add: stateless_def on_task_def map_core_update)
qed

lemma publish_success_quiet:
  assumes "publish_success enc rid r v a t now db = Inr db'" "slot (cores db) (t_id t) b" "b \<noteq> []"
  shows "quiet db db' \<and> verifying (t_id t) (cores db) (cores db')"
proof -
  obtain db1 db2 where s: "setState enc (t_id t) ''VERIFYING'' [] [] now db = Inr db1"
    and f: "fold_result (\<lambda>d i. as_precondition (acceptArtifact i a (t_id t) (aw_generation v) now d)) db1 (cr_ArtifactIds r) = Inr db2"
    and g: "enqueueGraphCandidates rid (t_id t) (cr_ArtifactIds r) now db2 = Inr db'"
    using assms(1) by (auto simp: publish_success_def rbind_eq_Inr_iff)
  have "stocked db1 db2" using f by (rule fold_stocked) (simp, erule acceptArtifact_stocked)
  then have st: "stocked db1 db'" using stocked_frame [OF enqueueGraphCandidates_frame [OF g]] stocked_trans by blast
  have "quiet db db1" using setState_stop [OF s _ assms(2,3)] by simp
  then have "quiet db db'" using stocked_quiet [OF st] quiet_trans by blast
  moreover have "verifying (t_id t) (cores db) (cores db1)"
    unfolding verifying_def by (rule setState_effect [OF s]) (auto simp: on_task_def dest: frame_cores)
  ultimately show ?thesis using st by (simp add: stocked_def verifying_def)
qed

lemma complete_confirmed_stages:
  assumes run: "complete_confirmed enc rid hash r v a t now db = Inr db'" and hash: "hash \<noteq> []"
    and sl: "slot (cores db) (t_id t) a" "a \<noteq> []"
  obtains state code msg d e where "complete_outcome r v t now db = Inr (state, code, msg)" "quiet db d"
    "verifying (t_id t) (cores db) (cores d)" "cores e = seal a (cores d)" "steering e = steering d"
    "settle_task enc v a t state code msg now e = Inr db'"
proof -
  obtain state code msg db1 db2 where o: "complete_outcome r v t now db = Inr (state, code, msg)"
    and p: "(if state = ''SUCCEEDED'' then publish_success enc rid r v a t now db else Inr db) = Inr db1"
    and c: "close_attempt enc hash r v a t now (orphanStagedArtifacts a (aw_generation v) now db1) = Inr db2"
    and s: "settle_task enc v a t state code msg now db2 = Inr db'"
    using run by (auto simp: complete_confirmed_def rbind_eq_Inr_iff split: if_splits)
  have q1: "quiet db db1 \<and> verifying (t_id t) (cores db) (cores db1)"
    using p publish_success_quiet [OF _ sl] by (cases "state = ''SUCCEEDED''") (auto simp: verifying_def)
  define d where "d = orphanStagedArtifacts a (aw_generation v) now db1"
  have sd: "stocked db1 d" unfolding d_def by (rule orphanStagedArtifacts_stocked)
  have "quiet db d" "verifying (t_id t) (cores db) (cores d)" using q1 stocked_quiet [OF sd] quiet_trans sd by (auto simp: stocked_def verifying_def)
  with o s close_attempt_effect [OF c [folded d_def] hash] show thesis by (intro that)
qed

text \<open>The completed task has an open attempt, so it is active; it is settled in one step.\<close>

definition settled :: "TaskRow \<Rightarrow> string \<Rightarrow> ControlDB \<Rightarrow> Cores \<Rightarrow> bool" where
  "settled u state d c \<longleftrightarrow> c = on_task (t_id u) (\<lambda>q. q\<lparr>q_state := state\<rparr>) (seal (t_attempt u) (cores d))
    \<or> c = on_task (t_id u) requeued (seal (t_attempt u) (cores d)) \<and> t_generation u < limit_of (map job_core (ct_jobs d)) (t_job u)"

lemma settle_sealed_task:
  assumes s: "settle_task enc v a t state code msg now e = Inr db'" and fin: "job_terminal state"
    and e: "cores e = seal a (cores d)" and inv: "core_inv (cores d)"
    and u: "u \<in> set (ct_tasks d)" "t_id u = t_id t" "t_attempt u = a" "t_generation u = aw_generation v" "t_state u \<in> active_states"
  shows "steering db' = steering e \<and> settled u state d (cores db')"
proof -
  have tasks: "map queue_core (ct_tasks e) = map queue_core (ct_tasks d)" "map job_core (ct_jobs e) = map job_core (ct_jobs d)"
    using arg_cong [OF e, of kt] arg_cong [OF e, of kj] by simp_all
  have row: "queue_core w = queue_core u" if w: "w \<in> set (ct_tasks e)" "t_id w = t_id t" for w
  proof -
    obtain x where x: "x \<in> set (ct_tasks d)" "queue_core x = queue_core w"
      using w(1) arg_cong [OF tasks(1), of set] by (metis (no_types, lifting) imageE imageI list.set_map)
    then have "t_id x = t_id u" using w(2) u(2) by (metis core_selectors(1))
    then show ?thesis using task_unique [OF inv x(1) u(1)] x(2) by simp
  qed
  have fields: "t_attempt w = t_attempt u" "t_generation w = t_generation u" "t_state w = t_state u" "t_job w = t_job u"
    if "w \<in> set (ct_tasks e)" "t_id w = t_id t" for w
    using row [OF that] by (metis core_selectors)+
  have "steering db' = steering e \<and> (cores db' = on_task (t_id t) (\<lambda>q. q\<lparr>q_state := state\<rparr>) (cores e)
    \<or> cores db' = on_task (t_id t) requeued (cores e)
      \<and> (\<exists>w\<in>set (ct_tasks e). t_id w = t_id t \<and> t_generation w < limit_of (map job_core (ct_jobs e)) (t_job w)))"
    by (rule settle_task_effect [OF s fin]) (use fields u active_not_terminal in simp)
  then show ?thesis using e u tasks(2) fields by (auto simp: settled_def)
qed

lemma complete_confirmed_settles:
  assumes run: "complete_confirmed enc rid hash r v a t now db = Inr db'" and hash: "hash \<noteq> []"
    and inv: "core_inv (cores db)" and t: "t \<in> set (ct_tasks db)" "t_attempt t = a" "t_generation t = aw_generation v"
    and x: "x \<in> set (ct_attempts db)" "a_id x = a" "a_final_hash x = []" "a_task x = t_id t"
  obtains state code msg d u where "complete_outcome r v t now db = Inr (state, code, msg)" "quiet db d" "core_inv (cores d)"
    "verifying (t_id t) (cores db) (cores d)" "u \<in> set (ct_tasks d)" "t_id u = t_id t" "t_state u \<in> active_states"
    "steering db' = steering d" "settled u state d (cores db')"
proof -
  have "slot (cores db) (t_id t) a" "a \<noteq> []" using slot_row [OF t(1)] t(2) inv_rows(4) [OF inv] x(1,2) by (auto simp: attempt_ok_def)
  then obtain state code msg d e where o: "complete_outcome r v t now db = Inr (state, code, msg)" and qd: "quiet db d"
    and vd: "verifying (t_id t) (cores db) (cores d)" and e: "cores e = seal a (cores d)" "steering e = steering d"
    and s: "settle_task enc v a t state code msg now e = Inr db'"
    using complete_confirmed_stages [OF run hash] by metis
  note sd = verifying_stateless [OF vd]
  have invd: "core_inv (cores d)" by (rule quiet_inv [OF qd inv])
  obtain u where u: "u \<in> set (ct_tasks d)" "t_id u = t_id t" using arg_cong [OF stateless_rows(1) [OF sd], of set] t(1) by force
  have ua: "t_attempt u = a" "t_generation u = aw_generation v"
    using stateless_rows(4) [OF sd u(1)] task_unique [OF inv _ t(1)] u(2) t(2,3) by metis+
  obtain y where y: "y \<in> set (ct_attempts d)" "attempt_core y = attempt_core x"
    using arg_cong [OF stateless_rows(2) [OF sd], of set] x(1) by (metis (no_types, lifting) imageE imageI list.set_map)
  have "\<not> a_released x" using inv_rows(5) [OF inv] x(1,3) by blast
  then have "a_final_hash y = []" "a_task y = t_id t" using y inv_rows(5) [OF invd] x(4) by (auto simp: attempt_core_def)
  then have act: "t_state u \<in> active_states" using open_attempt(1) [OF invd y(1) _ u(1)] u(2) by simp
  have "steering db' = steering e \<and> settled u state d (cores db')"
    by (rule settle_sealed_task [OF s complete_outcome_terminal [OF o] e(1) invd u ua act])
  with o qd invd vd u act e(2) show thesis by (metis that)
qed

lemma complete_confirmed_quiet:
  assumes run: "complete_confirmed enc rid hash r v a t now db = Inr db'" and hash: "hash \<noteq> []"
    and inv: "core_inv (cores db)" and t: "t \<in> set (ct_tasks db)" "t_attempt t = a" "t_generation t = aw_generation v"
    and x: "x \<in> set (ct_attempts db)" "a_id x = a" "a_final_hash x = []" "a_task x = t_id t"
  shows "quiet db db'"
proof -
  obtain state code msg d u where o: "complete_outcome r v t now db = Inr (state, code, msg)" and qd: "quiet db d" and invd: "core_inv (cores d)"
    and u: "u \<in> set (ct_tasks d)" "t_state u \<in> active_states" and se: "steering db' = steering d" "settled u state d (cores db')"
    by (rule complete_confirmed_settles [OF assms])
  have "sim d db'"
  proof (rule sim_step)
    show "life (lifecycle (cores d)) (lifecycle (cores db')) \<and> known (cores db') \<and> sealed (cores db') \<and> kr (cores db') = kr (cores d)"
      using se(2) complete_outcome_terminal [OF o] by (intro settle_step [OF invd u, of db' state]) (auto simp: settled_def)
  qed
  then have "quiet d db'" using se(1) by (simp add: quiet_def)
  then show ?thesis using qd quiet_trans by blast
qed

lemma complete_tx_quiet:
  assumes run: "complete_tx enc rid hash w r now db = Inr db'" and hash: "hash \<noteq> []"
  shows "quiet db db'"
proof (rule quiet_assuming_inv)
  assume inv: "core_inv (cores db)"
  obtain v where v: "readAttemptIdentity w (cr_Attempt r) db = Inr v" using run by (auto simp: complete_tx_def rbind_eq_Inr_iff)
  obtain rf a t where ref: "cr_Attempt r = Some rf" and a: "a \<in> set (ct_attempts db)" and t: "t \<in> set (ct_tasks db)" "t_id t = a_task a"
    and i: "a_id a = at_AttemptId rf" "t_attempt t = a_id a" "t_generation t = a_generation a" and ve: "v = attempt_view a t db"
    by (rule identity_rows [OF v])
  have aw: "aw_task v = t_id t" "aw_finalHash v = a_final_hash a" "aw_generation v = t_generation t"
    using ve t(2) i(3) by (simp_all add: attempt_view_def)
  show "quiet db db'"
  proof (cases "db' = db")
    case False
    with run v have fh: "a_final_hash a = []" by (auto simp: complete_tx_def rbind_eq_Inr_iff aw Let_def split: if_splits)
    obtain t1 where t1: "select_row (\<lambda>x. t_id x = t_id t) (ct_tasks db) = Inr t1"
      and c: "setState enc (t_id t1) ''RECONCILING'' ''CLEANUP_UNCONFIRMED'' ''worker could not prove cleanup'' now db = Inr db'
        \<or> complete_confirmed enc rid hash r v (at_AttemptId rf) t1 now db = Inr db'"
      using run v False ref by (auto simp: complete_tx_def rbind_eq_Inr_iff aw Let_def split: if_splits)
    have "t1 = t" using select_unique [OF inv t(1) refl t1] by simp
    have ne: "a_id a \<noteq> []" using inv_rows(4) [OF inv] a by (auto simp: attempt_ok_def)
    from c show ?thesis
    proof
      assume s: "setState enc (t_id t1) ''RECONCILING'' ''CLEANUP_UNCONFIRMED'' ''worker could not prove cleanup'' now db = Inr db'"
      show ?thesis using setState_stop [OF s] slot_row [OF t(1)] ne i(2) \<open>t1 = t\<close> by simp
    next
      assume "complete_confirmed enc rid hash r v (at_AttemptId rf) t1 now db = Inr db'"
      then show ?thesis
        using hash inv t i a fh aw(3) by (elim complete_confirmed_quiet [where x = a]) (simp_all add: \<open>t1 = t\<close>)
    qed
  qed simp
qed

lemma CompleteAttempt_quiet: "quiet db (snd (CompleteAttempt enc encr rid ctx r now db))"
  using complete_tx_quiet [OF _ Hash_not_Nil] by (auto simp: CompleteAttempt_def split: sum.splits)

section \<open>Submission\<close>

lemma insert_task_quiet:
  assumes "insert_task enc t now db = Inr db'" and t: "t_state t = ''QUEUED''" "t_attempt t = []" "t_generation t = 0"
  shows "quiet db db'"
proof -
  let ?db1 = "db\<lparr>ct_tasks := ct_tasks db @ [t]\<rparr>"
  have k: "job_known (t_job t) db" and n: "\<forall>x\<in>set (ct_tasks db). t_id t \<noteq> t_id x" and f: "frame db' = frame ?db1"
    using assms(1) by (auto simp: insert_task_def rbind_eq_Inr_iff insert_row_eq_Inr_iff task_conflict_def split: if_splits dest!: frames)
  have c: "cores ?db1 = (cores db)\<lparr>kt := kt (cores db) @ [queue_core t]\<rparr>" by (simp add: cores_def)
  have "sim db ?db1"
  proof (rule sim_step)
    assume inv: "core_inv (cores db)"
    let ?k = "task_view (map job_core (ct_jobs db)) (queue_core t)"
    have "lifecycle (cores ?db1) = (lifecycle (cores db))\<lparr>lc_tasks := lc_tasks (lifecycle (cores db)) @ [?k]\<rparr>"
      by (simp add: lifecycle_def)
    moreover have "life (lifecycle (cores db)) ((lifecycle (cores db))\<lparr>lc_tasks := lc_tasks (lifecycle (cores db)) @ [?k]\<rparr>)"
      by (rule life.enqueue) (use n t in auto)
    moreover have "known (cores ?db1)"
      using inv k by (auto simp: core_inv_def known_def c job_known_def list_ex_iff job_core_def image_iff split: option.splits)
    moreover have "sealed (cores ?db1)" using inv by (simp add: core_inv_def sealed_def)
    moreover have "kr (cores ?db1) = kr (cores db)" by simp
    ultimately show "life (lifecycle (cores db)) (lifecycle (cores ?db1)) \<and> known (cores ?db1) \<and> sealed (cores ?db1) \<and> kr (cores ?db1) = kr (cores db)"
      by (simp only: simp_thms)
  qed
  then have "quiet db ?db1" by (simp add: quiet_def)
  then show ?thesis using quiet_frame [OF f] quiet_trans by blast
qed

lemma new_task_simps [simp]:
  "t_state (new_task i ow p k h sp dl now) = ''QUEUED''" "t_attempt (new_task i ow p k h sp dl now) = []"
  "t_generation (new_task i ow p k h sp dl now) = 0"
  by (simp_all add: new_task_def)

lemma submit_tx_quiet: "submit_tx enc cfg p r hash tid now db = Inr (x, db') \<Longrightarrow> quiet db db'"
  by (auto simp: submit_tx_def rbind_eq_Inr_iff split: option.splits if_splits elim!: insert_task_quiet)

lemma db_Tx_quiet: "(\<And>x db'. f db = Inr (x, db') \<Longrightarrow> quiet db db') \<Longrightarrow> quiet db (snd (db_Tx f db))"
  by (auto simp: db_Tx_def split: sum.splits)

lemma submit_answer_quiet:
  "(\<And>x db'. f db = Inr (x, db') \<Longrightarrow> quiet db db') \<Longrightarrow> quiet db (snd (case db_Tx f db of (Inl e, db1) \<Rightarrow> (Inl (dbErr e), db1) | (Inr (i, b), db1) \<Rightarrow> (g i b db1, db1)))"
  using db_Tx_quiet [of f db] by (auto split: prod.splits sum.splits)

lemma SubmitTask_quiet: "quiet db (snd (SubmitTask enc encq cfg ctx req tid now db))"
  unfolding SubmitTask_def by (auto split: sum.splits intro!: submit_answer_quiet elim: submit_tx_quiet)

lemma CancelTask_quiet: "quiet db (snd (CancelTask enc encc ctx r cid now db))"
  by (auto simp: CancelTask_def split: sum.splits elim: cancel_tx_quiet)

lemma insertJobTask_quiet:
  "insertJobTask enc encs cfg jid ow dl st key sp ex txt rts tid now db = Inr db' \<Longrightarrow> quiet db db'"
  by (auto simp: insertJobTask_def Let_def rbind_eq_Inr_iff elim!: insert_task_quiet)

lemma fold_quiet:
  assumes "fold_result f db xs = Inr db'" "\<And>d x d'. f d x = Inr d' \<Longrightarrow> quiet d d'"
  shows "quiet db db'"
  using assms(1)
proof (induction xs arbitrary: db)
  case (Cons x xs)
  then obtain d where d: "f db x = Inr d" "fold_result f d xs = Inr db'" by (auto simp: rbind_eq_Inr_iff)
  show ?case by (rule quiet_trans [OF assms(2) [OF d(1)] Cons.IH [OF d(2)]])
qed simp

lemma limit_of_append: "(case oj of None \<Rightarrow> True | Some jid \<Rightarrow> jid \<in> fst ` set js) \<Longrightarrow> limit_of (js @ ks) oj = limit_of js oj"
  by (cases oj) (auto simp: limit_of_def map_add_def map_of_eq_None_iff split: option.splits)

lemma insert_job_quiet:
  assumes "insert_job j db = Inr db'"
  shows "quiet db db'"
proof -
  have j: "ct_jobs db' = ct_jobs db @ [j]" "ct_tasks db' = ct_tasks db" "ct_attempts db' = ct_attempts db" "steering db' = steering db" "ct_artifacts db' = ct_artifacts db"
    using assms by (auto simp: insert_job_def rbind_eq_Inr_iff insert_row_eq_Inr_iff steering_def split: if_splits)
  have c: "cores db' = (cores db)\<lparr>kj := kj (cores db) @ [job_core j]\<rparr>" using j by (simp add: cores_def)
  have "sim db db'"
  proof (rule sim_assuming_inv)
    assume inv: "core_inv (cores db)"
    have "task_view (kj (cores db) @ [job_core j]) q = task_view (kj (cores db)) q" if "q \<in> set (kt (cores db))" for q
      using inv that limit_of_append [where oj = "q_job q" and js = "kj (cores db)"] unfolding core_inv_def known_def task_view_def by fastforce
    then have "lifecycle (cores db') = lifecycle (cores db)" by (simp add: c lifecycle_def)
    moreover have "known (cores db')" using inv by (auto simp: core_inv_def known_def c split: option.splits)
    moreover have "sealed (cores db')" using inv by (simp add: core_inv_def sealed_def j)
    ultimately show ?thesis using inv j(5) by (simp add: sim_def core_inv_def)
  qed
  then show ?thesis using j by (simp add: quiet_def)
qed

lemma insert_job_work_quiet:
  assumes "insert_job_work enc encs cfg tids j now db = Inr db'"
  shows "quiet db db'"
proof (cases "sp_Mode (j_spec j) = ''single''")
  case True
  with assms obtain db1 ex where "insertStage (j_id j) ''single'' 0 ''READY'' now db = Inr db1"
    "insertJobTask enc encs cfg (j_id j) (j_owner j) (j_deadline j) ''single'' ''_single'' (j_spec j) ex (in_Text (sp_Input (j_spec j)))
      (j_routes j) (tids ''single'' ''_single'') now db1 = Inr db'"
    by (auto simp: insert_job_work_def Let_def rbind_eq_Inr_iff split: option.splits)
  then show ?thesis by (blast dest: insertStage_frame quiet_frame insertJobTask_quiet intro: quiet_trans)
next
  case False
  let ?f = "\<lambda>m d p. insertJobTask enc encs cfg (j_id j) (j_owner j) (j_deadline j) ''map'' (pt_Key p) (j_spec j) (pt_Execution p)
      (in_Text (sp_Input (j_spec j)) @ CHR 0x0A # CHR 0x0A # in_Text (pt_Input p)) (j_routes j) (tids ''map'' (pt_Key p)) now d"
  have f: "quiet d db'" if "fold_result (?f m) d ps = Inr db'" for d m ps
    using that by (rule fold_quiet) (rule insertJobTask_quiet)
  show ?thesis using False assms unfolding insert_job_work_def Let_def
    by (auto simp: rbind_eq_Inr_iff split: option.splits dest!: insertStage_frame quiet_frame f intro: quiet_trans)
qed

lemma createTrace_quiet: "quiet (createTrace t ow p sc now db) db' \<Longrightarrow> quiet db db'"
  using quiet_trans [OF quiet_frame [OF createTrace_frame]] .

lemmas submit_quiets = insert_job_quiet insert_job_work_quiet createTrace_quiet frames [THEN quiet_frame]

lemma submit_job_tx_quiet:
  assumes "submit_job_tx enc encs cfg p key spec trace jid nt tids now db = Inr (x, db')"
  shows "quiet db db'"
  using assms unfolding submit_job_tx_def Let_def
  by (auto simp: rbind_eq_Inr_iff split: option.splits if_split_asm dest!: submit_quiets) (blast intro: quiet_trans)+

lemma SubmitJob_quiet: "quiet db (snd (SubmitJob enc encs cfg ctx key len rq trace jid nt tids now db))"
  unfolding SubmitJob_def by (auto split: sum.splits intro!: submit_answer_quiet elim: submit_job_tx_quiet)

end
