(* ===== verification/Task_Dispatch.thy ===== *)
theory Task_Dispatch
  imports Task_Refine
begin

text \<open>
  The refinement of the lifecycle, continued: the scheduler's assignment of a queued task, the manual retry of a failed one
  and the advance of a job over its children.
\<close>

section \<open>Assignment\<close>

definition occupied :: "string \<Rightarrow> int \<Rightarrow> QueueCore \<Rightarrow> QueueCore" where
  "occupied a g q = q\<lparr>q_attempt := a, q_generation := g\<rparr>"

definition add_attempt :: "AttemptCore \<Rightarrow> Cores \<Rightarrow> Cores" where
  "add_attempt a c = c\<lparr>ka := ka c @ [a], kf := kf c @ [(l_id a, True)]\<rparr>"

lemma insert_attempt_effect:
  assumes "insert_attempt (new_attempt cfg d t p now) db = Inr db'"
  shows "cores db' = add_attempt \<lparr>l_id = dw_attempt d, l_task = t_id t, l_generation = t_generation t + 1, l_released = False\<rparr> (cores db)"
    "steering db' = steering db" "dw_attempt d \<notin> l_id ` set (ka (cores db))"
  using assms
  by (auto simp: insert_attempt_def rbind_eq_Inr_iff insert_row_eq_Inr_iff attempt_conflict_def new_attempt_def cores_def add_attempt_def
      core_defs steering_def split: if_splits)

lemma occupy_cores: "cores (occupy_task i a w g db) = on_task i (occupied a g) (cores db)"
  unfolding occupy_task_def by (rule cores_tasks_on_task) (simp add: queue_core_def occupied_def)

lemma occupy_steering: "steering (occupy_task i a w g db) = steering db"
  by (simp add: occupy_task_def steering_def)

lemma start_on_task:
  fixes a :: string and g :: int
  assumes "q \<in> set (kt c)" "g = q_generation q + 1"
  shows "lifecycle (on_task (q_id q) (\<lambda>q. q\<lparr>q_state := ''STARTING''\<rparr>) (on_task (q_id q) (occupied a g)
      (add_attempt \<lparr>l_id = a, l_task = q_id q, l_generation = g, l_released = False\<rparr> c)))
    = start_attempt (task_view (kj c) q) a (lifecycle c)"
  using assms(2) by (simp add: start_attempt_def lifecycle_def on_task_def add_attempt_def put_task_def update_where_def occupied_def task_view_def)

lemma kt_on_task: "kt (on_task i f c) = update_where (\<lambda>q. q_id q = i) f (kt c)"
  by (simp add: on_task_def)

lemma kr_add_attempt [simp]: "kr (add_attempt a c) = kr c"
  by (simp add: add_attempt_def)

lemma kt_add_attempt: "kt (add_attempt x c) = kt c"
  by (simp add: add_attempt_def)

lemma add_attempt_keeps [simp]: "known (add_attempt x c) = known c" "sealed (add_attempt x c) = sealed c"
  by (simp_all add: known_def sealed_def add_attempt_def cong: option.case_cong)

lemma occupied_known [simp]: "known (on_task i (occupied a g) c) = known c"
  by (rule known_on_task) (simp add: occupied_def)

lemma dispatch_task_quiet:
  assumes run: "dispatch_task enc cfg d t oj budget p obs now db = Inr db'"
    and q: "queue_core t \<in> set (kt (cores db))" "t_state t = ''QUEUED''" and ne: "dw_attempt d \<noteq> []"
  shows "quiet db db'"
proof (rule quiet_assuming_inv)
  assume inv: "core_inv (cores db)"
  let ?x = "\<lparr>l_id = dw_attempt d, l_task = t_id t, l_generation = t_generation t + 1, l_released = False\<rparr>"
  let ?occ = "\<lambda>e. occupy_task (t_id t) (dw_attempt d) (ss_WorkerId p) (t_generation t + 1) e"
  obtain db1 db2 a db3 db4 db5 db6 db7 where s: "insert_attempt (new_attempt cfg d t p now) db = Inr db1"
    "reserveGoalAttempt (map_option snd oj) (dw_attempt d) now db1 = Inr db2"
    "bindGateway cfg (new_assignment cfg d t (map_option fst oj) budget) (map_option snd oj) db2 = Inr (a, db3)"
    "setState enc (t_id t) ''STARTING'' [] [] now (?occ db3) = Inr db4"
    and r: "setTaskStageState (t_id t) ''RUNNING'' now db4 = Inr db5" "start_job (map_option snd oj) now db5 = Inr db6"
      "appendEvent enc (server_event (t_id t) (dw_attempt d) (t_generation t + 1) ''scheduler.observation'' obs) None now db6 = Inr db7"
      "saveCommand (dw_command d) (ss_WorkerId p) ''start'' a db7 = Inr db'"
    using run by (auto simp: dispatch_task_def rbind_eq_Inr_iff)
  have f3: "frame db3 = frame db1" using reserveGoalAttempt_frame [OF s(2)] bindGateway_frame [OF s(3)] by (simp only:)
  have f4: "frame db' = frame db4"
    using setTaskStageState_frame [OF r(1)] start_job_frame [OF r(2)] appendEvent_frame [OF r(3)] saveCommand_start_frame [OF r(4)] by (simp only:)
  have c3: "cores (?occ db3) = on_task (t_id t) (occupied (dw_attempt d) (t_generation t + 1)) (add_attempt ?x (cores db))"
    using insert_attempt_effect(1) [OF s(1)] frame_cores [OF f3] by (simp add: occupy_cores)
  have st: "\<not> job_terminal (t_state u) \<and> t_state u \<noteq> ''STARTING''" if u: "u \<in> set (ct_tasks (?occ db3))" "t_id u = t_id t" for u
  proof -
    let ?is = "map (\<lambda>q. (q_id q, q_state q))"
    have "?is (kt (cores (?occ db3))) = ?is (kt (cores db))"
      unfolding c3 kt_on_task kt_add_attempt by (rule map_core_update) (simp add: occupied_def)
    moreover have "(t_id t, t_state u) \<in> set (?is (kt (cores (?occ db3))))"
      using imageI [OF u(1), of "\<lambda>x. (t_id x, t_state x)"] u(2) by (simp add: image_image)
    ultimately have "(t_id t, t_state u) \<in> set (?is (kt (cores db)))" by (simp only:)
    then obtain v where v: "v \<in> set (kt (cores db))" "q_id v = t_id t" "q_state v = t_state u"
      by (auto simp del: cores_simps)
    obtain v' where "v' \<in> set (ct_tasks db)" "v = queue_core v'" using v(1) by auto
    moreover obtain t' where "t' \<in> set (ct_tasks db)" "queue_core t = queue_core t'" using q(1) by auto
    ultimately have "v = queue_core t" using task_unique [OF inv, of v' t'] v(2) by (metis core_selectors(1))
    then have "t_state u = ''QUEUED''" using v(3) q(2) by simp
    then show ?thesis by simp
  qed
  have c4: "cores db4 = on_task (t_id t) (\<lambda>q. q\<lparr>q_state := ''STARTING''\<rparr>) (cores (?occ db3)) \<and> steering db4 = steering (?occ db3)"
    by (rule setState_effect [OF s(4)]) (use st in blast)
  have "sim db db'"
  proof (rule sim_step)
    have "life (lifecycle (cores db)) (start_attempt (task_view (kj (cores db)) (queue_core t)) (dw_attempt d) (lifecycle (cores db)))"
      by (rule life.assign) (use q ne insert_attempt_effect(3) [OF s(1)] in \<open>auto simp del: cores_simps\<close>)
    then show "life (lifecycle (cores db)) (lifecycle (cores db')) \<and> known (cores db') \<and> sealed (cores db') \<and> kr (cores db') = kr (cores db)"
      using start_on_task [OF q(1) refl, of "dw_attempt d"] inv
      by (simp add: frame_cores [OF f4] c4 c3 core_inv_def set_state_on_task(2))
  qed
  moreover have "steering db' = steering db"
    using frame_steering [OF f4] c4 insert_attempt_effect(2) [OF s(1)] frame_steering [OF f3] by (simp add: occupy_steering)
  ultimately show "quiet db db'" by (simp add: quiet_def)
qed

lemma kept_row: "frame db' = frame db \<Longrightarrow> queue_core t \<in> set (kt (cores db)) \<Longrightarrow> queue_core t \<in> set (kt (cores db'))"
  by (drule frame_cores) (simp only:)

lemma assign_chosen_quiet:
  assumes "assign_chosen enc cfg d t oj budget p obs now db = Inr db'"
    "queue_core t \<in> set (kt (cores db))" "t_state t = ''QUEUED''" "dw_attempt d \<noteq> []"
  shows "quiet db db'"
proof (cases oj)
  case None
  then show ?thesis using assms dispatch_task_quiet by (auto simp: assign_chosen_def)
next
  case (Some jj)
  then obtain g db1 where b: "ensureGoalBinding (snd jj) now db = Inr (g, db1)"
    and c: "db' = set_blocker (t_id t) ''GOAL_EXECUTION_FENCED'' db1 \<or> dispatch_task enc cfg d t oj budget p obs now db1 = Inr db'"
    using assms(1) by (auto simp: assign_chosen_def rbind_eq_Inr_iff split: if_splits prod.splits)
  note f = ensureGoalBinding_frame [OF b]
  have "quiet db1 db'" using c dispatch_task_quiet [OF _ kept_row [OF f assms(2)] assms(3,4)] quiet_frame [OF set_blocker_frame] by auto
  then show ?thesis using quiet_frame [OF f] quiet_trans by blast
qed

lemma assign_worker_quiet:
  assumes "assign_worker enc cfg peers cursor d t oj budget caps now db = Inr (x, db')"
    "queue_core t \<in> set (kt (cores db))" "t_state t = ''QUEUED''" "dw_attempt d \<noteq> []"
  shows "quiet db db'"
proof (cases "capacity_blocker cfg (t_spec t) db")
  case None
  let ?caps = "the (publicExecutionRequirements cfg (t_spec t))"
  obtain cs where "(case choose_worker cfg (worker_loads cfg (t_spec t) now db cs) cursor of (chosen, cursor') \<Rightarrow>
      case Option.bind chosen (\<lambda>w. List.find (\<lambda>p. ss_WorkerId p = w) (map fst (filter (\<lambda>(p, r). r = ''ELIGIBLE'') cs))) of
        None \<Rightarrow> Inr (cursor', set_blocker (t_id t) (no_worker_blocker (t_spec t) (map_option fst oj) caps ?caps cs) db)
      | Some p \<Rightarrow> rbind (assign_chosen enc cfg d t oj budget p
          (scheduler_json cfg p (selected_observation cfg (t_spec t) now db p) (observations cfg (t_spec t) now db cs) (length peers)) now db)
          (\<lambda>db'. Inr (cursor', db'))) = Inr (x, db')"
    using None assms(1) by (auto simp: assign_worker_def Let_def rbind_eq_Inr_iff)
  then have "(\<exists>b. db' = set_blocker (t_id t) b db) \<or> (\<exists>p obs. assign_chosen enc cfg d t oj budget p obs now db = Inr db')"
    by (auto simp: rbind_eq_Inr_iff split: prod.split_asm option.split_asm)
  then show ?thesis using assign_chosen_quiet [OF _ assms(2-4)] quiet_frame [OF set_blocker_frame] by blast
qed (use assms(1) quiet_frame [OF set_blocker_frame] in \<open>auto simp: assign_worker_def Let_def\<close>)

lemma job_gate_frame:
  assumes "job_gate cfg oj t now db = Inr g"
  shows "case g of Inl db' \<Rightarrow> frame db' = frame db | Inr (b, cs, db') \<Rightarrow> frame db' = frame db"
proof (cases oj)
  case (Some jj)
  obtain jc j where jj: "jj = (jc, j)" by (cases jj)
  show ?thesis
  proof (cases "buildGoalRuntimeBudget j t now db")
    case (Inr bd)
    obtain b db1 where bd: "bd = (b, db1)" by (cases bd)
    then show ?thesis using assms Some jj Inr buildGoalRuntimeBudget_frame [of j t now db b db1]
      by (cases b) (auto simp: job_gate_def split: if_split_asm)
  qed (use assms Some jj in \<open>auto simp: job_gate_def split: if_split_asm\<close>)
qed (use assms in \<open>auto simp: job_gate_def\<close>)

lemma assign_tx_quiet:
  assumes run: "assign_tx gx enc cfg peers cursor d task now db = Inr (x, db')" and ne: "dw_attempt d \<noteq> []"
  shows "quiet db db'"
proof (cases "db' = db")
  case False
  obtain t where t: "select_row (\<lambda>t. t_id t = task) (ct_tasks db) = Inr t" "t_state t = ''QUEUED''"
    using run False by (auto simp: assign_tx_def rbind_eq_Inr_iff split: if_split_asm)
  then obtain oj g where g: "job_gate cfg oj t now db = Inr g"
    and c: "(case g of Inl db' \<Rightarrow> Inr ([], db')
      | Inr (budget, caps, db1) \<Rightarrow>
          if t_deadline t \<le> now
          then rbind (setState enc task ''FAILED'' ''DEADLINE_EXCEEDED'' ''deadline reached before dispatch'' now db1) (\<lambda>db2. Inr ([], db2))
          else if t_retry_after t > now then Inr ([], db1)
          else assign_worker enc cfg peers cursor d t oj budget caps now db1) = Inr (x, db')"
    using run by (auto simp: assign_tx_def rbind_eq_Inr_iff)
  note f = job_gate_frame [OF g]
  note tt = select_row_InrD [OF t(1)]
  have q: "queue_core t \<in> set (kt (cores db))" using tt by simp
  show ?thesis
  proof (cases g)
    case (Inl db1)
    then show ?thesis using c f quiet_frame by simp
  next
    case (Inr bcd)
    obtain budget caps db1 where b: "bcd = (budget, caps, db1)" by (cases bcd)
    have f1: "frame db1 = frame db" using f Inr b by simp
    have "quiet db1 db'" if s: "setState enc task ''FAILED'' ''DEADLINE_EXCEEDED'' ''deadline reached before dispatch'' now db1 = Inr db'"
    proof (rule setState_quiet [OF s])
      fix u assume u: "core_inv (cores db1)" "u \<in> set (ct_tasks db1)" "t_id u = task"
      obtain t' where "t' \<in> set (ct_tasks db1)" "queue_core t = queue_core t'" using kept_row [OF f1 q] by auto
      then have "queue_core u = queue_core t" using task_unique [OF u(1,2), of t'] u(3) tt by (metis core_selectors(1))
      then have "t_state u = ''QUEUED''" using t(2) by (metis core_selectors(3))
      then show "t_state u \<in> active_states \<and> ''FAILED'' \<in> active_states \<or> t_state u = ''QUEUED'' \<and> (''FAILED'' = ''CANCELED'' \<or> ''FAILED'' = ''FAILED'')"
        by simp
    qed
    then have "quiet db1 db'" using c Inr b assign_worker_quiet [OF _ kept_row [OF f1 q] t(2) ne]
      by (auto simp: rbind_eq_Inr_iff split: if_split_asm)
    then show ?thesis using quiet_frame [OF f1] quiet_trans by blast
  qed
qed simp

section \<open>Manual retry\<close>

lemma reopen_task_effect:
  assumes run: "reopen_task jobID r t now db = Inr db'" and inv: "core_inv (cores db)"
    and t: "t \<in> set (ct_tasks db)" "t_id t = mr_TaskID r" "t_job t = Some jobID" "t_state t = ''FAILED''"
  shows "cores db' = on_task (t_id t) requeued (cores db) \<and> steering db' = steering db"
proof -
  let ?hit = "\<lambda>x. t_id x = mr_TaskID r \<and> t_job x = Some jobID \<and> t_state x = ''FAILED'' \<and> t_attempt x = t_attempt t \<and> t_generation x = t_generation t"
  have "update_where ?hit f (ct_tasks db) = update_where (\<lambda>x. t_id x = t_id t) f (ct_tasks db)" for f
  proof (rule update_where_cong)
    fix x assume x: "x \<in> set (ct_tasks db)"
    have "x = t" if "t_id x = t_id t" using task_unique [OF inv x t(1) that] .
    then show "?hit x \<longleftrightarrow> t_id x = t_id t" using t(2-4) by auto
  qed
  then have e: "db' = db\<lparr>ct_tasks := update_where (\<lambda>x. t_id x = t_id t) (requeue [] 0 now) (ct_tasks db)\<rparr>"
    using run by (simp add: reopen_task_def Let_def split: if_split_asm)
  show ?thesis unfolding e by (intro conjI cores_tasks_on_task requeue_core) (simp add: steering_def)
qed

lemma retry_task_ok_limit:
  assumes "retry_task_ok j r t db = Inr u"
  shows "t_state t = ''FAILED'' \<and> t_generation t < lm_MaxAttemptsPerTask (sp_Limits (j_spec j))"
  using assms by (auto simp: retry_task_ok_def rbind_eq_Inr_iff split: if_split_asm option.split_asm)

lemma reopen_sim:
  assumes inv: "core_inv (cores db)" and t: "t \<in> set (ct_tasks db)" "t_state t = ''FAILED''"
      "t_generation t < limit_of (map job_core (ct_jobs db)) (t_job t)"
    and c: "cores db' = on_task (t_id t) requeued (cores db)"
  shows "sim db db'"
proof (rule sim_step)
  let ?k = "task_view (map job_core (ct_jobs db)) (queue_core t)"
  have "life (lifecycle (cores db)) (put_task (k_id ?k) (\<lambda>x. x\<lparr>k_state := ''QUEUED'', k_attempt := []\<rparr>) (lifecycle (cores db)))"
    by (rule life.reopen) (use t in simp_all)
  moreover have "lifecycle (cores db') = put_task (t_id t) (\<lambda>x. x\<lparr>k_state := ''QUEUED'', k_attempt := []\<rparr>) (lifecycle (cores db))"
    unfolding c by (rule lifecycle_on_task) (simp add: requeued_def task_view_def)
  ultimately show "life (lifecycle (cores db)) (lifecycle (cores db')) \<and> known (cores db') \<and> sealed (cores db') \<and> kr (cores db') = kr (cores db)"
    using inv c by (simp add: known_on_task requeued_def core_inv_def)
qed

lemma manual_retry_tx_quiet:
  assumes run: "manual_retry_tx enc jobID r now db = Inr (x, db')"
  shows "quiet db db'"
proof (rule quiet_assuming_inv)
  assume inv: "core_inv (cores db)"
  show "quiet db db'"
  proof (cases "db' = db")
    case False
    then have n: "find_job_operation jobID (''manual-retry:'' @ mr_OperationID r) db = None"
      using run by (auto simp: manual_retry_tx_def Let_def split: option.split_asm if_split_asm)
    obtain j where j: "readJob jobID db = Inr j" using run n by (auto simp: manual_retry_tx_def rbind_eq_Inr_iff)
    obtain t where t: "List.find (\<lambda>t. t_id t = mr_TaskID r \<and> t_job t = Some jobID) (ct_tasks db) = Some t"
      using run n j by (auto simp: manual_retry_tx_def rbind_eq_Inr_iff split: option.split_asm)
    have tt: "t \<in> set (ct_tasks db)" "t_id t = mr_TaskID r" "t_job t = Some jobID" using t by (auto simp: find_Some_iff)
    obtain sid db1 db2 db3 where k: "retry_task_ok j r t db = Inr ()"
      and s: "reopen_task jobID r t now db = Inr db1" "reopen_stage jobID sid now db1 = Inr db2" "reopen_job j now db2 = Inr db3"
        "reopen_events enc jobID r t (''manual-retry:'' @ mr_OperationID r) (Hash (json_text (manual_request_json r))) now
          (db3\<lparr>ct_goal := reopen_goal jobID now (ct_goal db3)\<rparr>) = Inr db'"
      using run n j t unfolding manual_retry_tx_def Let_def
      by (simp add: rbind_eq_Inr_iff) blast
    note lim = retry_task_ok_limit [OF k]
    have e: "cores db1 = on_task (t_id t) requeued (cores db) \<and> steering db1 = steering db"
      using reopen_task_effect [OF s(1) inv tt] lim by blast
    have "t_generation t < limit_of (map job_core (ct_jobs db)) (t_job t)"
      using lim readJob_limit [OF j] tt(3) by (simp add: limit_of_def less_max_iff_disj)
    then have "quiet db db1" using reopen_sim [OF inv tt(1)] lim e by (simp add: quiet_def)
    moreover have "frame db' = frame db1"
      using reopen_events_frame [OF s(4)] reopen_stage_frame [OF s(2)] reopen_job_frame [OF s(3)] by simp
    ultimately show ?thesis using quiet_frame quiet_trans by blast
  qed simp
qed

section \<open>The advance of a job\<close>

lemma stop_child_quiet:
  assumes "stop_child enc cid reason now (out, db) c = Inr (out', db')" "slot (cores db) (jc_id c) (jc_attempt c)"
  shows "quiet db db' \<and> (\<forall>i a. slot (cores db') i a = slot (cores db) i a)"
proof (cases "db' = db")
  case False
  then consider "jc_attempt c = []" "setState enc (jc_id c) ''CANCELED'' [] [] now db = Inr db'"
    | t db1 where "jc_attempt c \<noteq> []" "db1 = db \<or> setState enc (jc_id c) ''CANCELING'' reason ''job stopping'' now db = Inr db1"
        "stopCommand (cid (jc_id c)) t db1 = Inr db'"
    using assms(1) by (auto simp: stop_child_def rbind_eq_Inr_iff split: if_split_asm)
  then show ?thesis
  proof cases
    case 1
    then show ?thesis using setState_drop [OF 1(2)] setState_slots [OF 1(2)] assms(2) by simp
  next
    case 2
    note f = stopCommand_frame [OF 2(3)]
    have "quiet db db1 \<and> (\<forall>i a. slot (cores db1) i a = slot (cores db) i a)"
      using 2(2) setState_stop [OF _ _ assms(2) 2(1)] setState_slots by (elim disjE) auto
    then show ?thesis using quiet_frame [OF f] quiet_trans frame_cores [OF f] by auto
  qed
qed simp

lemma stop_children_quiet:
  assumes "fold_result (stop_child enc cid reason now) (out, db) cs = Inr (out', db')"
    "\<forall>c\<in>set cs. slot (cores db) (jc_id c) (jc_attempt c)"
  shows "quiet db db'"
  using assms
proof (induction cs arbitrary: out db)
  case (Cons c cs)
  obtain o1 d where d: "stop_child enc cid reason now (out, db) c = Inr (o1, d)" "fold_result (stop_child enc cid reason now) (o1, d) cs = Inr (out', db')"
    using Cons.prems(1) by (auto simp: rbind_eq_Inr_iff)
  have q: "quiet db d \<and> (\<forall>i a. slot (cores d) i a = slot (cores db) i a)" using stop_child_quiet [OF d(1)] Cons.prems(2) by simp
  then have "quiet d db'" using Cons.IH [OF d(2)] Cons.prems(2) by simp
  then show ?case using q quiet_trans by blast
qed simp

lemma children_slots: "c \<in> set (jobChildren jid db) \<Longrightarrow> slot (cores db) (jc_id c) (jc_attempt c)"
  by (auto simp: jobChildren_def slot_row)

lemma stop_job_quiet:
  assumes "stop_job enc cid j (jobChildren jid db) unknown reason code now db = Inr db'"
  shows "quiet db db'"
proof -
  obtain j1 db1 cs db2 where s: "jobState j (if unknown then ''RECONCILING'' else ''STOPPING'') reason code now db = Inr (j1, db1)"
    "fold_result (stop_child enc cid reason now) ([], db1) (jobChildren jid db) = Inr (cs, db2)"
    and e: "db' = db2 \<or> (\<exists>st. finishJob j1 cs st now db2 = Inr db')"
    using assms unfolding stop_job_def by (auto simp: rbind_eq_Inr_iff split: if_split_asm)
  note f = jobState_frame [OF s(1)]
  have "quiet db1 db2" using stop_children_quiet [OF s(2)] children_slots frame_cores [OF f] by simp
  moreover have "quiet db2 db'" using e quiet_frame [OF finishJob_frame] by auto
  ultimately show ?thesis using quiet_frame [OF f] quiet_trans by blast
qed

lemma open_reduce_quiet:
  assumes "open_reduce enc encs cfg tids j rd items digest now db = Inr db'"
  shows "quiet db db'"
proof -
  obtain db1 db2 db3 db4 db5 where s: "fold_result (\<lambda>d i. pinArtifactRef (mi_ArtifactID i) ''reduce_input'' (j_id j @ '':reduce'') now d) db items = Inr db1"
    "setStageState (j_id j @ '':map'') ''SUCCEEDED'' now db1 = Inr db2" "setStageState (j_id j @ '':reduce'') ''READY'' now db2 = Inr db3"
    and t: "quiet db3 db4" and r: "drop_job (jobState j ''REDUCING'' [] [] now db4) = Inr db5"
    "appendJobEvent (j_id j) ''job.reduce_created'' (JObj [(''manifest_sha256'', JStr digest), (''partitions'', JInt (int (length items)))]) [] [] now db5 = Inr db'"
    using assms unfolding open_reduce_def rbind_eq_Inr_iff
    by (elim exE conjE) (rule that; (assumption | erule insertJobTask_quiet))
  have "frame db1 = frame db" using s(1) by (rule fold_frame) (erule pinArtifactRef_frame)
  then have "frame db3 = frame db" using setStageState_frame [OF s(2)] setStageState_frame [OF s(3)] by (simp only:)
  moreover have "frame db' = frame db4" using drop_job_frame [OF r(1)] appendJobEvent_frame [OF r(2)] by (simp only:)
  ultimately show ?thesis using t quiet_frame quiet_trans by blast
qed

lemma createReduce_quiet:
  assumes "createReduce enc encs cfg tids j m children now db = Inr db'"
  shows "quiet db db'"
proof -
  obtain r where r: "manifest_items (manifest_item j m db) children = Inr r" using assms by (auto simp: createReduce_def rbind_eq_Inr_iff)
  show ?thesis
  proof (cases r)
    case None
    then show ?thesis using assms r quiet_frame [OF drop_job_frame] by (auto simp: createReduce_def)
  next
    case (Some items)
    then have "(\<exists>st rs c. drop_job (jobState j st rs c now db) = Inr db')
        \<or> (\<exists>raw dg db1 rd. commit_manifest j raw dg db = Inr db1 \<and> open_reduce enc encs cfg tids j rd items dg now db1 = Inr db')"
      using assms r unfolding createReduce_def Let_def by (auto simp: rbind_eq_Inr_iff split: if_split_asm option.split_asm)
    then show ?thesis
      by (elim disjE exE conjE) (erule drop_job_frame [THEN quiet_frame],
        erule commit_manifest_frame [THEN quiet_frame, THEN quiet_trans], erule open_reduce_quiet)
  qed
qed

lemma advance_map_reduce_quiet:
  assumes "advance_map_reduce enc encs cfg tids j children now db = Inr db'"
  shows "quiet db db'"
proof -
  have "db' = db \<or> (\<exists>m. createReduce enc encs cfg tids j m children now db = Inr db') \<or> finishJob j children ''SUCCEEDED'' now db = Inr db'"
    using assms unfolding advance_map_reduce_def Let_def rbind_eq_Inr_iff
    by (elim exE conjE; simp split: if_split_asm option.split_asm; (elim exE)?; blast?)
  then show ?thesis using createReduce_quiet quiet_frame [OF finishJob_frame] by auto
qed

lemma advance_tx_quiet:
  assumes run: "advance_tx ga enc encs cfg cid tids jid now db = Inr db'"
    and graph: "\<And>j db'. readJob jid db = Inr j \<Longrightarrow> j_graph j \<noteq> None \<Longrightarrow> ga j db = Inr db' \<Longrightarrow> quiet db db'"
  shows "quiet db db'"
proof -
  obtain j where j: "readJob jid db = Inr j" using run by (auto simp: advance_tx_def rbind_eq_Inr_iff)
  obtain unknown reason code where r: "stop_reason j (jobChildren jid db) now = (unknown, reason, code)" by (cases "stop_reason j (jobChildren jid db) now") auto
  have "db' = db \<or> j_graph j \<noteq> None \<and> ga j db = Inr db' \<or> stop_job enc cid j (jobChildren jid db) unknown reason code now db = Inr db'
      \<or> advance_single j (jobChildren jid db) now db = Inr db' \<or> advance_map_reduce enc encs cfg tids j (jobChildren jid db) now db = Inr db'"
    using run j r by (auto simp: advance_tx_def Let_def split: if_split_asm)
  moreover have "quiet db db'" if "advance_single j (jobChildren jid db) now db = Inr db'"
    using that quiet_frame [OF finishJob_frame] by (auto simp: advance_single_def split: list.split_asm if_split_asm)
  ultimately show ?thesis using graph [OF j] stop_job_quiet advance_map_reduce_quiet by auto
qed

end
