(* ===== verification/Control_Safety.thy ===== *)
theory Control_Safety
  imports Control_Plane
begin

text \<open>
  Safety of the control plane. The operations of \<open>Control_Plane\<close> are the steps of a transition system over
  the control database, interleaved in any order with each other and with the rest of the server. An
  invariant ties receipts to operation states, verdicts to recorded decisions and stored commands to the
  approvals they answer; \<open>good_step\<close> says in addition which rows may still change. Each operation is shown
  to be a good step once, and the properties of runs follow by induction over the run.
\<close>

section \<open>What the operations change\<close>

text \<open>The parts of the database that the invariant speaks about.\<close>

definition same_control :: "ControlDB \<Rightarrow> ControlDB \<Rightarrow> bool" where
  "same_control db db' \<longleftrightarrow> ct_operations db' = ct_operations db \<and> ct_approvals db' = ct_approvals db
    \<and> ct_commands db' = ct_commands db"

lemma same_control_refl [simp]: "same_control db db"
  by (simp add: same_control_def)

lemma appendJobEvent_same: "appendJobEvent jid typ body op hash now db = Inr db' \<Longrightarrow> same_control db db'"
  by (auto simp: appendJobEvent_def rbind_eq_Inr_iff Let_def same_control_def)

abbreviation ap_key :: "ApprovalRow \<Rightarrow> string \<times> int" where
  "ap_key a \<equiv> (ap_id a, ap_version a)"

definition find_approval :: "string \<times> int \<Rightarrow> ControlDB \<Rightarrow> ApprovalRow option" where
  "find_approval k db = List.find (\<lambda>a. ap_key a = k) (ct_approvals db)"

definition finished_op :: "ControlOpRow \<Rightarrow> bool" where
  "finished_op x \<longleftrightarrow> co_state x = ''COMPLETED'' \<or> co_state x = ''REJECTED''"

text \<open>
  How a step may change the tables: operations and approvals stay, keep their request, and change no
  more once they are finished or decided; a recorded decision stays.
\<close>

definition op_evolves :: "ControlOpRow \<Rightarrow> ControlOpRow \<Rightarrow> bool" where
  "op_evolves x x' \<longleftrightarrow> co_hash x' = co_hash x \<and> (finished_op x \<longrightarrow> x' = x)
    \<and> (co_state x \<noteq> ''ACCEPTED'' \<longrightarrow> co_state x' \<noteq> ''ACCEPTED'')"

lemma op_evolves_refl [simp]: "op_evolves x x"
  by (simp add: op_evolves_def)

lemma op_evolves_trans: "op_evolves x y \<Longrightarrow> op_evolves y z \<Longrightarrow> op_evolves x z"
  by (auto simp: op_evolves_def)

definition ops_evolve :: "ControlDB \<Rightarrow> ControlDB \<Rightarrow> bool" where
  "ops_evolve db db' \<longleftrightarrow> (\<forall>owner oid x. find_operation owner oid db = Some x \<longrightarrow>
    (\<exists>x'. find_operation owner oid db' = Some x' \<and> op_evolves x x'))"

definition approval_evolves :: "ApprovalRow \<Rightarrow> ApprovalRow \<Rightarrow> bool" where
  "approval_evolves a a' \<longleftrightarrow> ap_hash a' = ap_hash a
    \<and> ap_attempt a' = ap_attempt a \<and> ap_generation a' = ap_generation a
    \<and> (ap_decision a \<noteq> [] \<longrightarrow> ap_decision a' = ap_decision a) \<and> (ap_state a \<noteq> ''PENDING'' \<longrightarrow> a' = a)"

lemma approval_evolves_refl [simp]: "approval_evolves a a"
  by (simp add: approval_evolves_def)

lemma approval_evolves_trans: "approval_evolves a b \<Longrightarrow> approval_evolves b c \<Longrightarrow> approval_evolves a c"
  by (auto simp: approval_evolves_def)

definition approvals_evolve :: "ControlDB \<Rightarrow> ControlDB \<Rightarrow> bool" where
  "approvals_evolve db db' \<longleftrightarrow> (\<forall>k a. find_approval k db = Some a \<longrightarrow>
    (\<exists>a'. find_approval k db' = Some a' \<and> approval_evolves a a'))"

lemma ops_evolve_refl [simp]: "ops_evolve db db"
  by (auto simp: ops_evolve_def)

lemma ops_evolve_trans: "ops_evolve a b \<Longrightarrow> ops_evolve b c \<Longrightarrow> ops_evolve a c"
  unfolding ops_evolve_def by (meson op_evolves_trans)

lemma ops_evolve_same: "ct_operations db' = ct_operations db \<Longrightarrow> ops_evolve db db'"
  by (simp add: ops_evolve_def find_operation_def)

lemma approvals_evolve_refl [simp]: "approvals_evolve db db"
  by (auto simp: approvals_evolve_def)

lemma approvals_evolve_trans: "approvals_evolve a b \<Longrightarrow> approvals_evolve b c \<Longrightarrow> approvals_evolve a c"
  unfolding approvals_evolve_def by (meson approval_evolves_trans)

lemma approvals_evolve_same: "ct_approvals db' = ct_approvals db \<Longrightarrow> approvals_evolve db db'"
  by (simp add: approvals_evolve_def find_approval_def)

lemma ops_evolve_update:
  assumes "ct_operations db' = update_where P f (ct_operations db)"
    and "\<And>x. co_principal (f x) = co_principal x" "\<And>x. co_operation (f x) = co_operation x"
    and "\<And>x. co_hash (f x) = co_hash x" "\<And>x. co_state (f x) \<noteq> ''ACCEPTED''"
    and "\<And>x. x \<in> set (ct_operations db) \<Longrightarrow> P x \<Longrightarrow> \<not> finished_op x"
  shows "ops_evolve db db'"
proof -
  have "\<exists>x'. find_operation owner oid db' = Some x' \<and> op_evolves x x'"
    if "find_operation owner oid db = Some x" for owner oid x
  proof -
    have f: "List.find (\<lambda>x. (co_principal x, co_operation x) = (owner, oid)) (ct_operations db) = Some x"
      using that by (simp add: find_operation_def)
    have "List.find (\<lambda>x. (co_principal x, co_operation x) = (owner, oid)) (update_where P f (ct_operations db))
        = Some (if P x then f x else x)"
      by (rule find_update_where [OF f]) (simp add: assms)
    moreover have "x \<in> set (ct_operations db)" using find_Some_iff_in [OF f] by simp
    ultimately show ?thesis using assms(1,4-6) by (auto simp: find_operation_def op_evolves_def)
  qed
  then show ?thesis by (auto simp: ops_evolve_def)
qed

lemma approvals_evolve_update:
  assumes "ct_approvals db' = update_where P f (ct_approvals db)"
    and "\<And>a. ap_key (f a) = ap_key a" "\<And>a. ap_hash (f a) = ap_hash a"
      "\<And>a. ap_attempt (f a) = ap_attempt a" "\<And>a. ap_generation (f a) = ap_generation a"
    and "\<And>a. a \<in> set (ct_approvals db) \<Longrightarrow> P a \<Longrightarrow>
      ap_state a = ''PENDING'' \<and> (ap_decision a = [] \<or> ap_decision (f a) = ap_decision a)"
  shows "approvals_evolve db db'"
proof -
  have "\<exists>a'. find_approval k db' = Some a' \<and> approval_evolves a a'"
    if "find_approval k db = Some a" for k a
  proof -
    have f: "List.find (\<lambda>a. ap_key a = k) (ct_approvals db) = Some a" using that by (simp add: find_approval_def)
    have "find_approval k db' = Some (if P a then f a else a)"
      unfolding find_approval_def assms(1) by (rule find_update_where [OF f]) (rule assms(2))
    moreover have "a \<in> set (ct_approvals db)" using find_Some_iff_in [OF f] by simp
    ultimately show ?thesis using assms(3-6) by (auto simp: approval_evolves_def)
  qed
  then show ?thesis by (auto simp: approvals_evolve_def)
qed

lemma ops_evolve_append: "ct_operations db' = ct_operations db @ xs \<Longrightarrow> ops_evolve db db'"
  by (auto simp: ops_evolve_def find_operation_def find_append)

lemma approvals_evolve_append: "ct_approvals db' = ct_approvals db @ xs \<Longrightarrow> approvals_evolve db db'"
  by (auto simp: approvals_evolve_def find_approval_def find_append)

section \<open>The invariant\<close>

definition receipt_ok :: "ControlOpRow \<Rightarrow> bool" where
  "receipt_ok x \<longleftrightarrow> rc_State (co_receipt x) = co_state x \<and> rc_OperationID (co_receipt x) = co_operation x
    \<and> co_state x \<in> set operation_states"

definition verdict_ok :: "ApprovalRow \<Rightarrow> bool" where
  "verdict_ok a \<longleftrightarrow>
    (ap_state a = ''ACCEPTED'' \<longrightarrow> ap_decision a = ''ACCEPT'')
    \<and> (ap_state a = ''REJECTED'' \<longrightarrow> ap_decision a = ''REJECT'')
    \<and> (ap_state a = ''EXPIRED'' \<longrightarrow> ap_decision a = [])"

text \<open>An approval command carries the decision that is recorded with the request it answers.\<close>

definition command_ok :: "ControlDB \<Rightarrow> CommandRow \<Rightarrow> bool" where
  "command_ok db c \<longleftrightarrow> (\<forall>cmd. cm_kind c = ''control'' \<longrightarrow> cm_control c = Some cmd \<longrightarrow> cc_Action cmd = ''approval'' \<longrightarrow>
    (cc_Decision cmd = ''ACCEPT'' \<or> cc_Decision cmd = ''REJECT'')
    \<and> (\<exists>a. find_approval (cc_ApprovalId cmd, cc_RequestVersion cmd) db = Some a
        \<and> ap_attempt a = cc_AttemptId cmd \<and> ap_generation a = cc_Generation cmd \<and> ap_decision a = cc_Decision cmd))"

definition control_inv :: "ControlDB \<Rightarrow> bool" where
  "control_inv db \<longleftrightarrow>
    distinct (map (\<lambda>x. (co_principal x, co_operation x)) (ct_operations db))
    \<and> distinct (map ap_key (ct_approvals db))
    \<and> list_all receipt_ok (ct_operations db) \<and> list_all verdict_ok (ct_approvals db)
    \<and> list_all (command_ok db) (ct_commands db)"

lemma command_ok_evolve: "approvals_evolve db db' \<Longrightarrow> command_ok db c \<Longrightarrow> command_ok db' c"
proof -
  assume ev: "approvals_evolve db db'" and ok: "command_ok db c"
  show "command_ok db' c"
    unfolding command_ok_def
  proof (intro allI impI)
    fix cmd assume c: "cm_kind c = ''control''" "cm_control c = Some cmd" "cc_Action cmd = ''approval''"
    from ok c obtain a where d: "cc_Decision cmd = ''ACCEPT'' \<or> cc_Decision cmd = ''REJECT''"
      and a: "find_approval (cc_ApprovalId cmd, cc_RequestVersion cmd) db = Some a"
        "ap_attempt a = cc_AttemptId cmd" "ap_generation a = cc_Generation cmd" "ap_decision a = cc_Decision cmd"
      unfolding command_ok_def by blast
    have "ap_decision a \<noteq> []" using d a(4) by auto
    with ev a(1) obtain a' where "find_approval (cc_ApprovalId cmd, cc_RequestVersion cmd) db' = Some a'"
        "ap_attempt a' = ap_attempt a" "ap_generation a' = ap_generation a" "ap_decision a' = ap_decision a"
      unfolding approvals_evolve_def approval_evolves_def by blast
    with a d show "(cc_Decision cmd = ''ACCEPT'' \<or> cc_Decision cmd = ''REJECT'')
      \<and> (\<exists>a. find_approval (cc_ApprovalId cmd, cc_RequestVersion cmd) db' = Some a
        \<and> ap_attempt a = cc_AttemptId cmd \<and> ap_generation a = cc_Generation cmd \<and> ap_decision a = cc_Decision cmd)"
      by simp
  qed
qed

lemma distinct_keys_update:
  "(\<And>x. k (f x) = k x) \<Longrightarrow> distinct (map k (update_where P f xs)) \<longleftrightarrow> distinct (map k xs)"
  by (simp add: map_update_where)

lemma list_all_update:
  assumes "list_all Q xs" "\<And>x. x \<in> set xs \<Longrightarrow> P x \<Longrightarrow> Q x \<Longrightarrow> Q (f x)"
  shows "list_all Q (update_where P f xs)"
  using assms by (auto simp: list_all_iff in_update_where_iff)

text \<open>A step that keeps the invariant and evolves the tables.\<close>

definition good_step :: "ControlDB \<Rightarrow> ControlDB \<Rightarrow> bool" where
  "good_step db db' \<longleftrightarrow> control_inv db' \<and> ops_evolve db db' \<and> approvals_evolve db db'"

lemma good_step_refl: "control_inv db \<Longrightarrow> good_step db db"
  by (simp add: good_step_def)

lemma good_step_trans: "good_step a b \<Longrightarrow> good_step b c \<Longrightarrow> good_step a c"
  unfolding good_step_def using ops_evolve_trans approvals_evolve_trans by blast

lemma good_step_same:
  assumes "control_inv db" "same_control db db'"
  shows "good_step db db'"
proof -
  have ev: "approvals_evolve db db'" "ops_evolve db db'"
    using assms(2) by (auto simp: same_control_def intro: approvals_evolve_same ops_evolve_same)
  have "list_all (command_ok db') (ct_commands db')"
    using assms command_ok_evolve [OF ev(1)] by (auto simp: control_inv_def same_control_def list_all_iff)
  then show ?thesis using assms ev by (simp add: good_step_def control_inv_def same_control_def)
qed

text \<open>Rows of \<open>approval_requests\<close> are rewritten in place.\<close>

lemma good_step_approvals:
  assumes inv: "control_inv db" and db': "db' = db\<lparr>ct_approvals := update_where P f (ct_approvals db)\<rparr>"
    and f: "\<And>a. ap_key (f a) = ap_key a" "\<And>a. ap_hash (f a) = ap_hash a"
      "\<And>a. ap_attempt (f a) = ap_attempt a" "\<And>a. ap_generation (f a) = ap_generation a"
    and P: "\<And>a. a \<in> set (ct_approvals db) \<Longrightarrow> P a \<Longrightarrow>
      ap_state a = ''PENDING'' \<and> (ap_decision a = [] \<or> ap_decision (f a) = ap_decision a) \<and> verdict_ok (f a)"
  shows "good_step db db'"
proof -
  have a: "ct_approvals db' = update_where P f (ct_approvals db)" using db' by simp
  have ev: "approvals_evolve db db'" by (rule approvals_evolve_update [OF a]) (use f P in auto)
  have "list_all verdict_ok (ct_approvals db')"
    unfolding a by (rule list_all_update) (use inv P in \<open>auto simp: control_inv_def\<close>)
  moreover have "distinct (map ap_key (ct_approvals db'))"
    unfolding a using inv f by (simp add: distinct_keys_update control_inv_def)
  moreover have "list_all (command_ok db') (ct_commands db')"
    using inv command_ok_evolve [OF ev] by (auto simp: control_inv_def db' list_all_iff)
  ultimately show ?thesis
    using inv ev by (simp add: good_step_def control_inv_def db' ops_evolve_same)
qed


section \<open>Every operation is a good step\<close>

lemma appendJobEvent_good:
  "control_inv db \<Longrightarrow> appendJobEvent jid typ body op hash now db = Inr db' \<Longrightarrow> good_step db db'"
  by (intro good_step_same appendJobEvent_same)

definition decisions :: "ControlDB \<Rightarrow> ((string \<times> int) \<times> string) list" where
  "decisions db = map (\<lambda>a. (ap_key a, ap_decision a)) (ct_approvals db)"

lemma decisions_same: "ct_approvals db' = ct_approvals db \<Longrightarrow> decisions db' = decisions db"
  by (simp add: decisions_def)

lemma expire_one_good:
  assumes inv: "control_inv db" and run: "expire_one jobID now db x = Inr db'"
    and x: "(ap_key x, []) \<in> set (decisions db)"
  shows "good_step db db'" and "decisions db' = decisions db"
proof -
  define hit where
    "hit = (\<lambda>a::ApprovalRow. ap_id a = ap_id x \<and> ap_version a = ap_version x \<and> ap_state a = ''PENDING'')"
  define db1 where "db1 = db\<lparr>ct_approvals := update_where hit (\<lambda>a. a\<lparr>ap_state := ''EXPIRED''\<rparr>) (ct_approvals db)\<rparr>"
  have dist: "distinct (map ap_key (ct_approvals db))" using inv by (simp add: control_inv_def)
  have "ap_decision a = []" if "a \<in> set (ct_approvals db)" "hit a" for a
  proof -
    obtain b where "b \<in> set (ct_approvals db)" "ap_key b = ap_key x" "ap_decision b = []"
      using x by (auto simp: decisions_def)
    moreover from this have "a = b"
      using that dist by (auto simp: hit_def distinct_map inj_on_def)
    ultimately show ?thesis by simp
  qed
  then have g1: "good_step db db1"
    by (intro good_step_approvals [OF inv db1_def]) (auto simp: hit_def verdict_ok_def)
  have d1: "decisions db1 = decisions db"
    by (simp add: decisions_def db1_def map_update_where)
  from run have "same_control db1 db'"
    unfolding expire_one_def Let_def hit_def [symmetric] db1_def [symmetric]
    by (auto split: if_splits dest: appendJobEvent_same)
  then show "good_step db db'" "decisions db' = decisions db"
    using good_step_trans [OF g1] good_step_same [of db1 db'] g1 d1
    by (auto simp: good_step_def same_control_def decisions_def)
qed

lemma expireJobApprovals_good:
  assumes inv: "control_inv db" and run: "expireJobApprovals jobID now db = Inr db'"
  shows "good_step db db' \<and> decisions db' = decisions db"
  using run unfolding expireJobApprovals_def
proof (rule fold_result_invariant)
  show "good_step db db \<and> decisions db = decisions db" using inv by (simp add: good_step_refl)
next
  fix pre x t t'
  assume P: "good_step db t \<and> decisions t = decisions db"
    and x: "x \<in> set (filter (overdue jobID now) (ct_approvals db))" and step: "expire_one jobID now t x = Inr t'"
  have "(ap_key x, []) \<in> set (decisions t)" using x P by (force simp: decisions_def overdue_def)
  moreover have "control_inv t" using P by (simp add: good_step_def)
  ultimately show "good_step db t' \<and> decisions t' = decisions db"
    using expire_one_good [OF _ step] P good_step_trans by metis
qed

lemma good_step_new_approval:
  assumes inv: "control_inv db" and run: "insert_approval a db = Inr db'" and a: "verdict_ok a"
  shows "good_step db db'"
proof -
  have db': "db' = db\<lparr>ct_approvals := ct_approvals db @ [a]\<rparr>" and new: "\<forall>x\<in>set (ct_approvals db). ap_key x \<noteq> ap_key a"
    using run by (auto simp: insert_approval_def rbind_eq_Inr_iff insert_row_eq_Inr_iff split: if_splits)
  have ev: "approvals_evolve db db'" by (rule approvals_evolve_append) (simp add: db')
  have "list_all (command_ok db') (ct_commands db')"
    using inv command_ok_evolve [OF ev] by (auto simp: control_inv_def db' list_all_iff)
  moreover have "distinct (map ap_key (ct_approvals db'))" using inv new by (auto simp: db' control_inv_def)
  ultimately show ?thesis using inv a ev by (simp add: good_step_def control_inv_def db' ops_evolve_same)
qed

lemma persistApprovalRequested_good:
  assumes inv: "control_inv db" and run: "persistApprovalRequested ev now db = Inr db'"
  shows "good_step db db'"
proof (cases "db' = db")
  case False
  from run False obtain row i v where ins: "insert_approval row (db\<lparr>ct_approvals := update_where
         (\<lambda>a. ap_id a = i \<and> ap_state a = ''PENDING'' \<and> ap_version a < v)
         (\<lambda>a. a\<lparr>ap_state := ''SUPERSEDED''\<rparr>) (ct_approvals db)\<rparr>) = Inr db'" and row: "verdict_ok row"
    unfolding persistApprovalRequested_def Let_def
    by (auto simp: rbind_eq_Inr_iff verdict_ok_def approval_row_def split: if_splits option.splits)
  let ?db1 = "db\<lparr>ct_approvals := update_where (\<lambda>a. ap_id a = i \<and> ap_state a = ''PENDING'' \<and> ap_version a < v)
         (\<lambda>a. a\<lparr>ap_state := ''SUPERSEDED''\<rparr>) (ct_approvals db)\<rparr>"
  have g: "good_step db ?db1" by (rule good_step_approvals [OF inv refl]) (auto simp: verdict_ok_def)
  moreover have "good_step ?db1 db'"
    by (rule good_step_new_approval [OF _ ins row]) (use g in \<open>simp add: good_step_def\<close>)
  ultimately show ?thesis by (rule good_step_trans)
qed (use inv good_step_refl in simp)

lemma validateApprovalDecision_good:
  "control_inv db \<Longrightarrow> validateApprovalDecision jobID r d now db = Inr (u, db') \<Longrightarrow> good_step db db'"
  by (auto simp: validateApprovalDecision_def rbind_eq_Inr_iff dest!: expireJobApprovals_good
      split: if_splits option.splits)

lemma good_step_operations:
  assumes inv: "control_inv db" and db': "db' = db\<lparr>ct_operations := update_where P f (ct_operations db)\<rparr>"
    and f: "\<And>x. co_principal (f x) = co_principal x" "\<And>x. co_operation (f x) = co_operation x"
      "\<And>x. co_hash (f x) = co_hash x" "\<And>x. co_state (f x) \<noteq> ''ACCEPTED''"
    and P: "\<And>x. x \<in> set (ct_operations db) \<Longrightarrow> P x \<Longrightarrow> receipt_ok (f x) \<and> \<not> finished_op x"
  shows "good_step db db'"
proof -
  have o': "ct_operations db' = update_where P f (ct_operations db)" using db' by simp
  have ev: "ops_evolve db db'" by (rule ops_evolve_update [OF o']) (use f P in auto)
  have av: "approvals_evolve db db'" by (rule approvals_evolve_same) (simp add: db')
  have "list_all receipt_ok (ct_operations db')"
    unfolding o' by (rule list_all_update) (use inv P in \<open>auto simp: control_inv_def\<close>)
  moreover have "distinct (map (\<lambda>x. (co_principal x, co_operation x)) (ct_operations db'))"
    unfolding o' using inv f by (simp add: distinct_keys_update control_inv_def)
  moreover have "list_all (command_ok db') (ct_commands db')"
    using inv command_ok_evolve [OF av] by (auto simp: control_inv_def db' list_all_iff)
  ultimately show ?thesis using inv ev av by (simp add: good_step_def control_inv_def db')
qed

lemma accept_tx_good:
  assumes inv: "control_inv db" and run: "accept_tx owner jobID r now db = Inr (rc, db')"
  shows "good_step db db'"
proof (cases "find_operation owner (rq_OperationID r) db")
  case (Some x)
  then show ?thesis using run inv by (auto simp: accept_tx_def good_step_refl split: if_splits)
next
  case None
  from run None obtain x where ins: "insert_operation x db = Inr db'" and x: "receipt_ok x"
    by (auto simp: accept_tx_def rbind_eq_Inr_iff receipt_ok_def accepted_receipt_def operation_states_def)
  have db': "db' = db\<lparr>ct_operations := ct_operations db @ [x]\<rparr>"
    and new: "\<forall>y\<in>set (ct_operations db). \<not> (co_principal x = co_principal y \<and> co_operation x = co_operation y)"
    using ins by (auto simp: insert_operation_def rbind_eq_Inr_iff insert_row_eq_Inr_iff split: if_splits)
  have av: "approvals_evolve db db'" by (rule approvals_evolve_same) (simp add: db')
  have "list_all (command_ok db') (ct_commands db')"
    using inv command_ok_evolve [OF av] by (auto simp: control_inv_def db' list_all_iff)
  moreover have "distinct (map (\<lambda>x. (co_principal x, co_operation x)) (ct_operations db'))"
    using inv new by (auto simp: db' control_inv_def)
  ultimately show ?thesis
    using inv x av by (simp add: good_step_def control_inv_def db' ops_evolve_append)
qed


lemma find_distinct_key:
  "distinct (map k xs) \<Longrightarrow> x \<in> set xs \<Longrightarrow> List.find (\<lambda>y. k y = k x) xs = Some x"
  by (induction xs) (auto simp: rev_image_eqI)

lemma find_approval_unique:
  assumes "control_inv db" "a \<in> set (ct_approvals db)"
  shows "find_approval (ap_key a) db = Some a"
  using find_distinct_key [of ap_key] assms by (simp add: control_inv_def find_approval_def)

lemma good_step_mark:
  assumes inv: "control_inv db" and run: "mark_decision owner r p now db = Inr db'"
    and p: "rq_OperationType r = ''approval'' \<Longrightarrow> decision_ok p"
  shows "good_step db db' \<and> (rq_OperationType r = ''approval'' \<longrightarrow>
    (\<exists>a. find_approval (dp_ApprovalID p, dp_RequestVersion p) db' = Some a \<and> ap_attempt a = rq_ExpectedAttemptID r
      \<and> ap_generation a = rq_ExpectedGeneration r \<and> ap_decision a = dp_Decision p))"
proof (cases "rq_OperationType r = ''approval''")
  case True
  define hit where "hit = (\<lambda>a::ApprovalRow. ap_id a = dp_ApprovalID p \<and> ap_version a = dp_RequestVersion p
          \<and> ap_attempt a = rq_ExpectedAttemptID r \<and> ap_generation a = rq_ExpectedGeneration r
          \<and> ap_state a = ''PENDING'' \<and> ap_decision a = [])"
  define upd where "upd = (\<lambda>a::ApprovalRow. a\<lparr>ap_decision := dp_Decision p, ap_decided_by := owner, ap_decided_at := now\<rparr>)"
  from run True have one: "count_where hit (ct_approvals db) = 1"
    and db': "db' = db\<lparr>ct_approvals := update_where hit upd (ct_approvals db)\<rparr>"
    by (auto simp: mark_decision_def Let_def hit_def [symmetric] upd_def [symmetric] split: if_splits)
  have g: "good_step db db'"
    by (rule good_step_approvals [OF inv db']) (auto simp: hit_def upd_def verdict_ok_def)
  from one obtain a where a: "a \<in> set (ct_approvals db)" "hit a"
    using count_where_0_iff [of hit "ct_approvals db"] by auto
  have "upd a \<in> set (ct_approvals db')" using a by (auto simp: db' in_update_where_iff)
  then have "find_approval (ap_key (upd a)) db' = Some (upd a)"
    using g by (intro find_approval_unique) (simp_all add: good_step_def)
  then show ?thesis using g a(2) by (auto simp: hit_def upd_def)
qed (use run inv in \<open>auto simp: mark_decision_def good_step_refl\<close>)


lemma good_step_command:
  assumes inv: "control_inv db" and c: "command_ok db c"
  shows "good_step db (db\<lparr>ct_commands := ct_commands db @ [c]\<rparr>)" (is "good_step db ?db'")
proof -
  have ev: "approvals_evolve db ?db'" by (rule approvals_evolve_same) simp
  show ?thesis
    using inv c command_ok_evolve [OF ev] ev
    by (auto simp: good_step_def control_inv_def list_all_iff ops_evolve_same)
qed

lemma good_step_acked:
  assumes inv: "control_inv db"
  shows "good_step db (db\<lparr>ct_commands := update_where P (\<lambda>c. c\<lparr>cm_acked := True\<rparr>) (ct_commands db)\<rparr>)" (is "good_step db ?db'")
proof -
  have ev: "approvals_evolve db ?db'" by (rule approvals_evolve_same) simp
  have "command_ok ?db' c" if "c \<in> set (update_where P (\<lambda>c. c\<lparr>cm_acked := True\<rparr>) (ct_commands db))" for c
  proof -
    from that obtain d where d: "d \<in> set (ct_commands db)" "c = d \<or> c = d\<lparr>cm_acked := True\<rparr>"
      by (auto simp: in_update_where_iff split: if_splits)
    then have "command_ok ?db' d" using inv command_ok_evolve [OF ev] by (simp add: control_inv_def list_all_iff)
    with d(2) show ?thesis by (auto simp: command_ok_def)
  qed
  then show ?thesis
    using inv ev by (simp add: good_step_def control_inv_def list_all_iff ops_evolve_same)
qed

lemma mark_decision_commands:
  "mark_decision owner r p now (db\<lparr>ct_commands := cs\<rparr>) =
    map_sum id (\<lambda>db'. db'\<lparr>ct_commands := cs\<rparr>) (mark_decision owner r p now db)"
  by (simp add: mark_decision_def Let_def)

lemma mark_decision_keeps_commands: "mark_decision owner r p now db = Inr db' \<Longrightarrow> ct_commands db' = ct_commands db"
  by (auto simp: mark_decision_def Let_def split: if_splits)

lemma save_and_mark_good:
  assumes inv: "control_inv db"
    and save: "save_control_command encode cid r worker (control_command owner r p native) db = Inr db1"
    and mark: "mark_decision owner r p now db1 = Inr db2"
    and p: "rq_OperationType r = ''approval'' \<Longrightarrow> decision_ok p"
  shows "good_step db db2"
proof (cases "List.find (\<lambda>c. cm_id c = cid) (ct_commands db)")
  case (Some old)
  then have "db1 = db" using save by (auto simp: save_control_command_def split: if_splits)
  then show ?thesis using good_step_mark [OF inv _ p] mark by blast
next
  case None
  define c where "c = \<lparr>cm_id = cid, cm_task = rq_TaskID r, cm_attempt = rq_ExpectedAttemptID r, cm_worker = worker,
    cm_kind = ''control'', cm_control = Some (control_command owner r p native), cm_assignment = None, cm_acked = False\<rparr>"
  have db1: "db1 = db\<lparr>ct_commands := ct_commands db @ [c]\<rparr>"
    using save None by (simp add: save_control_command_def c_def)
  with mark obtain dbm where m: "mark_decision owner r p now db = Inr dbm" "db2 = dbm\<lparr>ct_commands := ct_commands db @ [c]\<rparr>"
    by (cases "mark_decision owner r p now db") (auto simp: mark_decision_commands)
  note g = good_step_mark [OF inv m(1) p]
  have "command_ok dbm c"
    using g p by (auto simp: command_ok_def c_def control_command_def decision_ok_def)
  then have "good_step dbm (dbm\<lparr>ct_commands := ct_commands dbm @ [c]\<rparr>)"
    using g by (intro good_step_command) (auto simp: good_step_def)
  then show ?thesis
    using g good_step_trans m(2) mark_decision_keeps_commands [OF m(1)] by metis
qed

lemma dispatch_tx_good:
  assumes inv: "control_inv db" and run: "dispatch_tx encode owner jobID r p now db = Inr (u, db')"
    and p: "rq_OperationType r = ''approval'' \<Longrightarrow> decision_ok p"
  shows "good_step db db'"
proof (cases "db' = db")
  case False
  define finish where "finish = (\<lambda>d::ControlDB. d\<lparr>ct_operations := update_where
                 (\<lambda>x. op_key owner (rq_OperationID r) x \<and> co_state x = ''ACCEPTED'')
                 (\<lambda>x. x\<lparr>co_state := ''DISPATCHED'', co_receipt := accepted_receipt jobID r ''DISPATCHED'', co_updated := now\<rparr>)
                 (ct_operations d)\<rparr>)"
  from run False obtain native worker db1 db2 kind body opid hash where
      save: "save_control_command encode (command_id owner (rq_OperationID r)) r worker (control_command owner r p native) db = Inr db1"
    and mark: "mark_decision owner r p now db1 = Inr db2"
    and ev: "appendJobEvent jobID kind body opid hash now (finish db2) = Inr db'"
    unfolding dispatch_tx_def Let_def finish_def
    by (auto simp: rbind_eq_Inr_iff split: if_splits)
  have g1: "good_step db db2" by (rule save_and_mark_good [OF inv save mark p])
  then have g2: "good_step db2 (finish db2)"
    by (intro good_step_operations [OF _ finish_def [THEN fun_cong]])
      (auto simp: good_step_def receipt_ok_def accepted_receipt_def finished_op_def operation_states_def)
  then have "good_step (finish db2) db'"
    using ev by (intro appendJobEvent_good) (auto simp: good_step_def)
  then show ?thesis using g1 g2 good_step_trans by blast
qed (use inv good_step_refl in simp)


lemma ack_outcome_state: "ack_outcome ack = (state, kind, code, msg) \<Longrightarrow> state = ''COMPLETED'' \<or> state = ''REJECTED''"
  by (auto simp: ack_outcome_def split: if_splits)

lemma applyApprovalControlResult_good:
  assumes inv: "control_inv db" and run: "applyApprovalControlResult cmd ack now db = Inr db'"
    and c: "c \<in> set (ct_commands db)" "cm_kind c = ''control''" "cm_control c = Some cmd"
  shows "good_step db db' \<and> ct_operations db' = ct_operations db"
proof (cases "db' = db")
  case False
  define hit where "hit = (\<lambda>a::ApprovalRow. ap_id a = cc_ApprovalId cmd \<and> ap_version a = cc_RequestVersion cmd
            \<and> ap_attempt a = cc_AttemptId cmd \<and> ap_generation a = cc_Generation cmd \<and> ap_state a = ''PENDING'')"
  define upd where "upd = (\<lambda>a::ApprovalRow. a\<lparr>ap_state := (if cc_Decision cmd = ''ACCEPT'' then ''ACCEPTED'' else ''REJECTED''),
     ap_decision := cc_Decision cmd, ap_decided_by := cc_PrincipalId cmd, ap_decided_at := now\<rparr>)"
  from run False have db': "db' = db\<lparr>ct_approvals := update_where hit upd (ct_approvals db)\<rparr>"
    and act: "cc_Action cmd = ''approval''"
    by (auto simp: applyApprovalControlResult_def Let_def hit_def [symmetric] upd_def [symmetric] split: if_splits)
  from inv c act obtain b where d: "cc_Decision cmd = ''ACCEPT'' \<or> cc_Decision cmd = ''REJECT''"
    and b: "find_approval (cc_ApprovalId cmd, cc_RequestVersion cmd) db = Some b" "ap_decision b = cc_Decision cmd"
    unfolding control_inv_def command_ok_def list_all_iff by blast
  have same: "ap_decision a = cc_Decision cmd" if "a \<in> set (ct_approvals db)" "hit a" for a
    using find_approval_unique [OF inv that(1)] that(2) b by (simp add: hit_def)
  have "good_step db db'"
    by (rule good_step_approvals [OF inv db']) (use d same in \<open>auto simp: hit_def upd_def verdict_ok_def\<close>)
  then show ?thesis by (simp add: db')
qed (use inv good_step_refl in simp)

lemma op_unique:
  assumes "control_inv db" "x \<in> set (ct_operations db)" "y \<in> set (ct_operations db)"
    and "op_key owner oid x" "op_key owner oid y"
  shows "x = y"
  using assms by (auto simp: control_inv_def distinct_map inj_on_def)

lemma commit_ack_good:
  assumes inv: "control_inv db" and run: "commit_ack worker ack cmd x now db = Inr db'"
    and c: "c \<in> set (ct_commands db)" "cm_kind c = ''control''" "cm_control c = Some cmd"
    and x: "x \<in> set (ct_operations db)" "op_key (cc_PrincipalId cmd) (ak_OperationId ack) x" "\<not> finished_op x"
  shows "good_step db db'"
proof -
  obtain state kind code msg where out: "ack_outcome ack = (state, kind, code, msg)" by (metis prod_cases4)
  define receipt where "receipt = (co_receipt x)\<lparr>rc_State := state, rc_ErrorCode := code, rc_ErrorMessage := msg\<rparr>"
  define finish where "finish = (\<lambda>d::ControlDB. d\<lparr>ct_operations := update_where (op_key (cc_PrincipalId cmd) (ak_OperationId ack))
           (\<lambda>x. x\<lparr>co_state := state, co_receipt := receipt, co_updated := now\<rparr>) (ct_operations d)\<rparr>)"
  define acked where "acked = (\<lambda>d::ControlDB. d\<lparr>ct_commands := update_where (\<lambda>c. cm_id c = ak_CommandId ack \<and> cm_worker c = worker)
           (\<lambda>c. c\<lparr>cm_acked := True\<rparr>) (ct_commands d)\<rparr>)"
  from run obtain db1 body opid hash where res: "applyApprovalControlResult cmd ack now db = Inr db1"
    and ev: "appendJobEvent (co_job x) kind body opid hash now (acked (finish db1)) = Inr db'"
    by (auto simp: commit_ack_def out rbind_eq_Inr_iff Let_def finish_def acked_def receipt_def)
  have g1: "good_step db db1" and ops: "ct_operations db1 = ct_operations db"
    using applyApprovalControlResult_good [OF inv res c] by auto
  have rid: "rc_OperationID receipt = ak_OperationId ack"
    using inv x(1,2) by (auto simp: receipt_def control_inv_def list_all_iff receipt_ok_def)
  have "\<not> finished_op y" if "y \<in> set (ct_operations db1)" "op_key (cc_PrincipalId cmd) (ak_OperationId ack) y" for y
    using op_unique [OF inv x(1) _ x(2)] that ops x(3) by metis
  then have g2: "good_step db1 (finish db1)"
    using g1 by (intro good_step_operations [OF _ finish_def [THEN fun_cong]])
      (use rid ack_outcome_state [OF out] in \<open>auto simp: good_step_def receipt_ok_def receipt_def operation_states_def\<close>)
  then have g3: "good_step (finish db1) (acked (finish db1))"
    unfolding acked_def by (intro good_step_acked) (simp add: good_step_def)
  then have "good_step (acked (finish db1)) db'"
    using ev by (intro appendJobEvent_good) (auto simp: good_step_def)
  then show ?thesis using g1 g2 g3 good_step_trans by metis
qed

lemma ack_tx_good:
  assumes inv: "control_inv db" and run: "ack_tx worker ack now db = Inr (u, db')"
  shows "good_step db db'"
proof (cases "db' = db")
  case False
  obtain state kind code msg where out: "ack_outcome ack = (state, kind, code, msg)" by (metis prod_cases4)
  from run False obtain c cmd x where
      c: "c \<in> set (ct_commands db)" "cm_kind c = ''control''" "cm_control c = Some cmd"
    and x: "select_row (op_key (cc_PrincipalId cmd) (ak_OperationId ack)) (ct_operations db) = Inr x"
      "rc_State (co_receipt x) \<noteq> ''COMPLETED''" "rc_State (co_receipt x) \<noteq> ''REJECTED''"
    and run': "commit_ack worker ack cmd x now db = Inr db'"
    unfolding ack_tx_def Let_def out prod.case
    by (auto simp: rbind_eq_Inr_iff split: option.splits if_splits dest!: select_row_InrD [of _ "ct_commands db"])
  have "\<not> finished_op x" using x inv select_row_InrD [OF x(1)]
    by (auto simp: control_inv_def list_all_iff receipt_ok_def finished_op_def)
  then show ?thesis using commit_ack_good [OF inv run' c] select_row_InrD [OF x(1)] by blast
qed (use inv good_step_refl in simp)

lemma db_Tx_good:
  assumes "control_inv db" "\<forall>u db'. f db = Inr (u, db') \<longrightarrow> good_step db db'"
  shows "good_step db (snd (db_Tx f db))"
  using assms by (auto simp: db_Tx_def good_step_refl split: sum.splits)

lemma applyControlAck_good: "control_inv db \<Longrightarrow> good_step db (snd (applyControlAck worker ack now db))"
  by (auto simp: applyControlAck_def good_step_refl intro!: db_Tx_good intro: ack_tx_good)

lemma acceptControlOperation_good: "control_inv db \<Longrightarrow> good_step db (snd (acceptControlOperation ctx jobID r now db))"
  by (auto simp: acceptControlOperation_def good_step_refl intro!: db_Tx_good intro: accept_tx_good split: sum.splits)

lemma requiredControlCapability_decision:
  "requiredControlCapability r = Inr (c, p) \<Longrightarrow> rq_OperationType r = ''approval'' \<Longrightarrow> decision_ok p"
  by (auto simp: requiredControlCapability_def split: option.splits if_splits)


lemma operation_checks_good:
  assumes inv: "control_inv db" and run: "operation_checks peers jobID r now db = (res, db1)"
  shows "good_step db db1 \<and> (\<forall>p. res = Inr p \<longrightarrow> rq_OperationType r = ''approval'' \<longrightarrow> decision_ok p)"
proof (cases "map_error dbErr (validateControlFence jobID r db)")
  case (Inr u)
  show ?thesis
  proof (cases "requiredControlCapability r")
    case (Inr cp)
    obtain c p where cp: "cp = (c, p)" by fastforce
    define tx where "tx = (if rq_OperationType r = ''approval''
      then apfst (map_error dbErr) (db_Tx (validateApprovalDecision jobID r p now) db) else (Inr (), db))"
    have "good_step db (snd (db_Tx (validateApprovalDecision jobID r p now) db))"
      using inv validateApprovalDecision_good by (intro db_Tx_good) blast+
    then have "good_step db (snd tx)" using inv by (simp add: tx_def good_step_refl)
    moreover have "db1 = snd tx \<and> (\<forall>q. res = Inr q \<longrightarrow> q = p)"
      using run \<open>map_error dbErr _ = Inr u\<close> Inr
      unfolding operation_checks_def cp tx_def
      by (auto split: sum.splits if_splits option.splits prod.splits) (metis snd_apfst snd_conv)+
    ultimately show ?thesis using requiredControlCapability_decision Inr cp by blast
  qed (use run inv Inr in \<open>simp add: operation_checks_def good_step_refl split_pairs\<close>)
qed (use run inv in \<open>simp add: operation_checks_def good_step_refl split_pairs\<close>)

lemma acceptAndDispatch_good:
  assumes inv: "control_inv db"
  shows "good_step db (snd (acceptAndDispatchControlOperation encode peers ctx jobID r now db))"
proof -
  have rest: "good_step db (snd (case operation_checks peers jobID r now db of
           (Inl e, db1) \<Rightarrow> (Inl e, db1)
         | (Inr p, db1) \<Rightarrow>
           (case acceptControlOperation ctx jobID r now db1 of
              (Inl e, db2) \<Rightarrow> (Inl e, db2)
            | (Inr receipt, db2) \<Rightarrow>
              (case db_Tx (dispatch_tx encode owner jobID r p now) db2 of
                 (Inl e, db3) \<Rightarrow> (Inl (dbErr e), db3)
               | (Inr _, db3) \<Rightarrow> (Inr (receipt\<lparr>rc_State := ''DISPATCHED''\<rparr>), db3)))))" for owner
  proof -
    obtain res db1 where c: "operation_checks peers jobID r now db = (res, db1)" by fastforce
    obtain acc db2 where a: "acceptControlOperation ctx jobID r now db1 = (acc, db2)" by fastforce
    have g1: "good_step db db1" and dec: "res = Inr p \<Longrightarrow> rq_OperationType r = ''approval'' \<Longrightarrow> decision_ok p" for p
      using operation_checks_good [OF inv c] by auto
    have g2: "good_step db1 db2"
      using acceptControlOperation_good [of db1 ctx jobID r now] g1 a by (simp add: good_step_def)
    have g3: "good_step db2 (snd (db_Tx (dispatch_tx encode owner jobID r p now) db2))" if "res = Inr p" for p
      using g2 dec [OF that] dispatch_tx_good by (intro db_Tx_good) (auto simp: good_step_def)
    have g12: "good_step db db2" using g1 g2 by (rule good_step_trans)
    show ?thesis
    proof (cases res)
      case (Inr p)
      obtain d db3 where d: "db_Tx (dispatch_tx encode owner jobID r p now) db2 = (d, db3)" by fastforce
      have "good_step db db3" using good_step_trans [OF g12 g3 [OF Inr]] d by simp
      then show ?thesis using Inr c a d g12 by (cases acc; cases d) simp_all
    qed (use c g1 in simp)
  qed
  show ?thesis
    using inv rest unfolding acceptAndDispatchControlOperation_def Let_def
    by (simp add: good_step_refl split: sum.splits)
qed


section \<open>The control plane as a transition system\<close>

text \<open>
  The steps that touch control operations, approvals and control commands, in any order, by any caller
  and with any arguments. A request is one step and, because its transactions can be interleaved with
  those of other callers, each of its transactions is a step too (\<open>check\<close>, \<open>accept\<close>, \<open>dispatch\<close>). \<open>execution\<close> stands for the rest of the server: it may change every other
  table, every command that is not a control command, and the delivery flag of a control command.
\<close>

definition control_commands :: "ControlDB \<Rightarrow> CommandRow list" where
  "control_commands db = map (\<lambda>c. c\<lparr>cm_acked := False\<rparr>) (filter (\<lambda>c. cm_kind c = ''control'') (ct_commands db))"

inductive control_step :: "(string \<Rightarrow> ControlCommand \<Rightarrow> string) \<Rightarrow> ControlDB \<Rightarrow> ControlDB \<Rightarrow> bool" for encode where
  request: "control_step encode db (snd (acceptAndDispatchControlOperation encode peers ctx jobID r now db))"
| check: "control_step encode db (snd (db_Tx (validateApprovalDecision jobID r p now) db))"
| accept: "control_step encode db (snd (acceptControlOperation ctx jobID r now db))"
| dispatch: "requiredControlCapability r = Inr (c, p) \<Longrightarrow>
    control_step encode db (snd (db_Tx (dispatch_tx encode owner jobID r p now) db))"
| answer: "control_step encode db (snd (applyControlAck worker ack now db))"
| asked: "persistApprovalRequested ev now db = Inr db' \<Longrightarrow> control_step encode db db'"
| expire: "expireJobApprovals jobID now db = Inr db' \<Longrightarrow> control_step encode db db'"
| execution: "ct_operations db' = ct_operations db \<Longrightarrow> ct_approvals db' = ct_approvals db \<Longrightarrow>
    control_commands db' = control_commands db \<Longrightarrow> control_step encode db db'"

definition control_init :: "ControlDB \<Rightarrow> bool" where
  "control_init db \<longleftrightarrow> ct_operations db = [] \<and> ct_approvals db = [] \<and> control_commands db = []"

lemma list_all_control_commands:
  "list_all (command_ok db) (ct_commands db') \<longleftrightarrow> list_all (command_ok db) (control_commands db')"
  by (auto simp: list_all_iff control_commands_def command_ok_def)

lemma execution_good:
  assumes inv: "control_inv db" and "ct_operations db' = ct_operations db" "ct_approvals db' = ct_approvals db"
    "control_commands db' = control_commands db"
  shows "good_step db db'"
proof -
  have ev: "approvals_evolve db db'" "ops_evolve db db'"
    using assms by (auto intro: approvals_evolve_same ops_evolve_same)
  have "list_all (command_ok db) (control_commands db)"
    using inv list_all_control_commands by (simp add: control_inv_def)
  then have "list_all (command_ok db') (ct_commands db')"
    unfolding list_all_control_commands assms(4) using command_ok_evolve [OF ev(1)] by (simp add: list_all_iff)
  then show ?thesis using assms ev by (simp add: good_step_def control_inv_def)
qed

lemma control_step_good:
  assumes "control_step encode db db'" and inv: "control_inv db"
  shows "good_step db db'"
  using assms(1)
proof cases
  case (check jobID r p now)
  then show ?thesis using inv by (auto intro!: db_Tx_good intro: validateApprovalDecision_good)
next
  case (dispatch r c p owner jobID now)
  then show ?thesis
    using inv requiredControlCapability_decision by (auto intro!: db_Tx_good dispatch_tx_good)
qed (use inv in \<open>auto intro: acceptAndDispatch_good acceptControlOperation_good applyControlAck_good
      persistApprovalRequested_good execution_good dest: expireJobApprovals_good\<close>)

interpretation control_system: step_system control_init "control_step encode" control_inv for encode
proof unfold_locales
  show "control_inv db" if "control_init db" for db
    using that list_all_control_commands [of db db] by (simp add: control_init_def control_inv_def)
qed (use control_step_good good_step_def in blast)

lemma control_run_good: "(control_step encode)\<^sup>*\<^sup>* db db' \<Longrightarrow> control_inv db \<Longrightarrow> good_step db db'"
proof (induction rule: rtranclp_induct)
  case (step db1 db2)
  then have "good_step db db1" by blast
  moreover from this have "good_step db1 db2" using control_step_good step by (simp add: good_step_def)
  ultimately show ?case by (rule good_step_trans)
qed (rule good_step_refl)


section \<open>Facts behind the properties\<close>

lemma control_reachable_inv: "reachable control_init (control_step encode) db \<Longrightarrow> control_inv db"
  by (rule control_system.reachable_inv)

lemma find_operation_Some: "find_operation owner oid db = Some x \<Longrightarrow> x \<in> set (ct_operations db) \<and> co_principal x = owner \<and> co_operation x = oid"
  unfolding find_operation_def by (drule find_Some_iff_in) simp

lemma find_operation_receipt:
  "control_inv db \<Longrightarrow> find_operation owner oid db = Some x \<Longrightarrow>
    rc_State (co_receipt x) = co_state x \<and> rc_OperationID (co_receipt x) = oid \<and> co_state x \<in> set operation_states"
  using find_operation_Some by (fastforce simp: control_inv_def list_all_iff receipt_ok_def)

lemma good_step_op:
  "good_step db db' \<Longrightarrow> find_operation owner oid db = Some x \<Longrightarrow> \<exists>x'. find_operation owner oid db' = Some x' \<and> op_evolves x x'"
  unfolding good_step_def ops_evolve_def by blast

lemma good_step_approval:
  "good_step db db' \<Longrightarrow> find_approval k db = Some a \<Longrightarrow> \<exists>a'. find_approval k db' = Some a' \<and> approval_evolves a a'"
  unfolding good_step_def approvals_evolve_def by blast

lemma accept_tx_hash:
  assumes "accept_tx owner jobID r now db = Inr (rc, db')"
  shows "\<exists>x. find_operation owner (rq_OperationID r) db' = Some x \<and> co_hash x = request_hash r"
proof (cases "find_operation owner (rq_OperationID r) db")
  case None
  from assms None show ?thesis
    by (auto simp: accept_tx_def rbind_eq_Inr_iff insert_operation_def insert_row_eq_Inr_iff find_operation_def find_append
        split: if_splits)
qed (use assms in \<open>auto simp: accept_tx_def split: if_splits\<close>)

lemma save_control_command_operations:
  "save_control_command encode cid r worker cmd db = Inr db' \<Longrightarrow> ct_operations db' = ct_operations db"
  by (auto simp: save_control_command_def split: option.splits if_splits)

lemma mark_decision_operations: "mark_decision owner r p now db = Inr db' \<Longrightarrow> ct_operations db' = ct_operations db"
  by (auto simp: mark_decision_def Let_def split: if_splits)

lemma appendJobEvent_operations:
  "appendJobEvent jid kind body opid hash now db = Inr db' \<Longrightarrow> ct_operations db' = ct_operations db"
  by (drule appendJobEvent_same) (simp add: same_control_def)

lemma dispatch_tx_operations:
  assumes run: "dispatch_tx encode owner jobID r p now db = Inr (u, db')"
    and x: "find_operation owner (rq_OperationID r) db = Some x" "co_state x = ''ACCEPTED''"
  shows "ct_operations db' = update_where (\<lambda>x. op_key owner (rq_OperationID r) x \<and> co_state x = ''ACCEPTED'')
    (\<lambda>x. x\<lparr>co_state := ''DISPATCHED'', co_receipt := accepted_receipt jobID r ''DISPATCHED'', co_updated := now\<rparr>)
    (ct_operations db)"
  using run x unfolding dispatch_tx_def Let_def find_operation_def
  by (auto simp: rbind_eq_Inr_iff select_row_def split: if_splits
      dest!: save_control_command_operations mark_decision_operations appendJobEvent_operations)

lemma dispatch_tx_state:
  assumes run: "dispatch_tx encode owner jobID r p now db = Inr (u, db')"
  shows "\<exists>x. find_operation owner (rq_OperationID r) db' = Some x \<and> co_state x \<noteq> ''ACCEPTED''"
proof -
  from run obtain x where x: "find_operation owner (rq_OperationID r) db = Some x"
    by (auto simp: dispatch_tx_def rbind_eq_Inr_iff select_row_def find_operation_def split: option.splits)
  show ?thesis
  proof (cases "co_state x = ''ACCEPTED''")
    case True
    have f: "List.find (\<lambda>x. (co_principal x, co_operation x) = (owner, rq_OperationID r)) (ct_operations db) = Some x"
      using x by (simp add: find_operation_def)
    show ?thesis
      using find_update_where [OF f, of "\<lambda>x. x\<lparr>co_state := ''DISPATCHED'', co_receipt := accepted_receipt jobID r ''DISPATCHED'',
        co_updated := now\<rparr>" "\<lambda>x. op_key owner (rq_OperationID r) x \<and> co_state x = ''ACCEPTED''"] find_operation_Some [OF x] True
      by (simp add: find_operation_def dispatch_tx_operations [OF run x True])
  next
    case False
    have "select_row (op_key owner (rq_OperationID r)) (ct_operations db) = Inr x"
      using x by (simp add: select_row_def find_operation_def)
    with run False have "db' = db"
      by (auto simp: dispatch_tx_def split: if_splits)
    then show ?thesis using x False by blast
  qed
qed

text \<open>The admission check that \<open>acceptAndDispatchControlOperation\<close> makes before anything else.\<close>

definition admitted :: "Principal option \<Rightarrow> string \<Rightarrow> ControlOperationRequest \<Rightarrow> ControlDB \<Rightarrow> Principal result" where
  "admitted ctx jobID r db =
    rbind (Require ctx ''jobs:control'' False) (\<lambda>p.
    rbind (validateControlOperationRequest r) (\<lambda>_.
    rbind (jobAuthorized ctx jobID ''jobs:read'' db) (\<lambda>j.
    if j_owner j \<noteq> pr_Owner p then Inl (Status ''NotFound'' ''NOT_FOUND'') else Inr p)))"

lemma dispatched_once:
  assumes inv: "control_inv db"
    and run: "acceptAndDispatchControlOperation encode peers ctx jobID r now db = (Inr rc, db')"
  shows "\<exists>p x. admitted ctx jobID r db = Inr p \<and> find_operation (pr_Owner p) (rq_OperationID r) db' = Some x
    \<and> co_hash x = request_hash r \<and> co_state x \<noteq> ''ACCEPTED''"
proof -
  from run obtain p where p: "admitted ctx jobID r db = Inr p"
    by (auto simp: acceptAndDispatchControlOperation_def admitted_def split: sum.splits)
  define old where "old = find_operation (pr_Owner p) (rq_OperationID r) db"
  define done_before where "done_before = (case old of Some x \<Rightarrow> finished_receipt (co_receipt x) | None \<Rightarrow> False)"
  note run' = run [unfolded acceptAndDispatchControlOperation_def Let_def, folded admitted_def, unfolded p sum.case,
      folded old_def, folded done_before_def]
  have hash: "(case old of Some x \<Rightarrow> co_hash x \<noteq> request_hash r | None \<Rightarrow> False) = False"
    using run' by (auto split: if_splits)
  show ?thesis
  proof (cases done_before)
    case True
    then obtain x where x: "old = Some x" "finished_receipt (co_receipt x)"
      by (auto simp: done_before_def split: option.splits)
    have "db' = db" using run' True hash by simp
    moreover have "co_state x \<noteq> ''ACCEPTED''"
      using x find_operation_receipt [OF inv] by (auto simp: old_def finished_receipt_def)
    ultimately show ?thesis using p x hash by (auto simp: old_def)
  next
    case False
    obtain res db1 where c: "operation_checks peers jobID r now db = (res, db1)" by fastforce
    obtain acc db2 where a: "acceptControlOperation ctx jobID r now db1 = (acc, db2)" by fastforce
    from run' False hash c a obtain q rcp where q: "res = Inr q" "acc = Inr rcp"
      and d: "dispatch_tx encode (pr_Owner p) jobID r q now db2 = Inr ((), db')"
      by (auto simp: db_Tx_def split: sum.splits prod.splits)
    have req: "Require ctx ''jobs:control'' False = Inr p" using p by (auto simp: admitted_def rbind_eq_Inr_iff split: if_splits)
    from a q req have "db_Tx (accept_tx (pr_Owner p) jobID r now) db1 = (Inr rcp, db2)"
      by (auto simp: acceptControlOperation_def rbind_eq_Inr_iff apfst_def map_prod_def split: sum.splits prod.splits if_splits)
    then obtain x where x: "find_operation (pr_Owner p) (rq_OperationID r) db2 = Some x" "co_hash x = request_hash r"
      using accept_tx_hash by (fastforce simp: db_Tx_Inr_iff)
    have inv2: "control_inv db2"
      using operation_checks_good [OF inv c] acceptControlOperation_good [of db1 ctx jobID r now] a by (simp add: good_step_def)
    have "rq_OperationType r = ''approval'' \<Longrightarrow> decision_ok q" using operation_checks_good [OF inv c] q by blast
    from good_step_op [OF dispatch_tx_good [OF inv2 d this] x(1)] x(2) obtain x' where
        "find_operation (pr_Owner p) (rq_OperationID r) db' = Some x'" "co_hash x' = request_hash r"
      by (auto simp: op_evolves_def)
    then show ?thesis using p dispatch_tx_state [OF d] by force
  qed
qed


section \<open>Properties of the control plane\<close>

text \<open>C18: An operation's outcome is final. From every reachable database, whatever requests, worker
answers, approval events, expiries and other work of the server follow, an operation that is recorded
\<open>COMPLETED\<close> or \<open>REJECTED\<close> keeps its row, receipt and error included; and no operation ever loses its row
or changes the hash of the request it was accepted for.\<close>

theorem operation_outcome_final:
  assumes "reachable control_init (control_step encode) db" "(control_step encode)\<^sup>*\<^sup>* db db'"
    and "find_operation owner oid db = Some x"
  shows "\<exists>x'. find_operation owner oid db' = Some x' \<and> co_hash x' = co_hash x
    \<and> (co_state x = ''COMPLETED'' \<or> co_state x = ''REJECTED'' \<longrightarrow> x' = x)
    \<and> rc_State (co_receipt x') = co_state x' \<and> rc_OperationID (co_receipt x') = oid"
proof -
  have g: "good_step db db'" using control_run_good assms control_reachable_inv by blast
  then obtain x' where x': "find_operation owner oid db' = Some x'" "op_evolves x x'"
    using good_step_op assms(3) by blast
  then show ?thesis using find_operation_receipt [of db' owner oid x'] g by (auto simp: good_step_def op_evolves_def finished_op_def)
qed

text \<open>C10: An approval is decided at most once and the verdict is the decision that was sent. Once a decision
is recorded with a request it never changes; the request then never becomes \<open>EXPIRED\<close>, it becomes
\<open>ACCEPTED\<close> only if that decision was \<open>ACCEPT\<close> and \<open>REJECTED\<close> only if it was \<open>REJECT\<close>; and a request that has
left \<open>PENDING\<close> keeps its row.\<close>

theorem approval_decided_once:
  assumes "reachable control_init (control_step encode) db" "(control_step encode)\<^sup>*\<^sup>* db db'"
    and "find_approval (aid, version) db = Some a" "ap_decision a \<noteq> []"
  shows "\<exists>a'. find_approval (aid, version) db' = Some a' \<and> ap_decision a' = ap_decision a
    \<and> (ap_state a \<noteq> ''PENDING'' \<longrightarrow> a' = a) \<and> ap_state a' \<noteq> ''EXPIRED''
    \<and> (ap_state a' = ''ACCEPTED'' \<longrightarrow> ap_decision a = ''ACCEPT'')
    \<and> (ap_state a' = ''REJECTED'' \<longrightarrow> ap_decision a = ''REJECT'')"
proof -
  have g: "good_step db db'" using control_run_good assms control_reachable_inv by blast
  then obtain a' where a': "find_approval (aid, version) db' = Some a'" "approval_evolves a a'"
    using good_step_approval assms(3) by blast
  then have "verdict_ok a'"
    using g find_Some_iff_in [of _ "ct_approvals db'" a']
    by (auto simp: good_step_def control_inv_def list_all_iff find_approval_def)
  then show ?thesis using a' assms(4) by (auto simp: approval_evolves_def verdict_ok_def)
qed

definition answered_command :: "string \<Rightarrow> CommandAck \<Rightarrow> ControlDB \<Rightarrow> ControlCommand \<Rightarrow> ControlOpRow \<Rightarrow> bool" where
  "answered_command worker ack db cmd x \<longleftrightarrow>
    (\<exists>c. List.find (\<lambda>c. cm_id c = ak_CommandId ack \<and> cm_worker c = worker \<and> cm_kind c = ''control'') (ct_commands db) = Some c
      \<and> cm_control c = Some cmd)
    \<and> cc_OperationId cmd = ak_OperationId ack \<and> find_operation (cc_PrincipalId cmd) (ak_OperationId ack) db = Some x
    \<and> rc_State (co_receipt x) \<noteq> ''COMPLETED'' \<and> rc_State (co_receipt x) \<noteq> ''REJECTED''"


text \<open>Requests are idempotent. After a request was dispatched, and whatever happened since, the same
caller repeating it gets the stored receipt, marked as existing, and the database is unchanged; another
request under the same operation id is refused with \<open>OPERATION_CONFLICT\<close> and changes nothing.\<close>

theorem request_idempotent:
  assumes "reachable control_init (control_step encode) db"
    and "acceptAndDispatchControlOperation encode peers ctx jobID r now db = (Inr rc, db1)"
    and "(control_step encode)\<^sup>*\<^sup>* db1 db2" "jobAuthorized ctx jobID ''jobs:read'' db2 = Inr j"
  shows "(\<exists>rc'. acceptAndDispatchControlOperation encode peers' ctx jobID r now' db2 = (Inr rc', db2)
      \<and> rc_Existing rc' \<and> rc_OperationID rc' = rq_OperationID r
      \<and> rc_State rc' \<in> {''DISPATCHED'', ''COMPLETED'', ''REJECTED''})
    \<and> (rq_OperationID r' = rq_OperationID r \<and> request_hash r' \<noteq> request_hash r
        \<and> validateControlOperationRequest r' = Inr () \<longrightarrow>
      acceptAndDispatchControlOperation encode peers' ctx jobID r' now' db2
        = (Inl (Status ''AlreadyExists'' ''OPERATION_CONFLICT''), db2))"
proof -
  have inv: "control_inv db" using assms(1) by (rule control_reachable_inv)
  from dispatched_once [OF inv assms(2)] obtain p x where p: "admitted ctx jobID r db = Inr p"
    and x: "find_operation (pr_Owner p) (rq_OperationID r) db1 = Some x" "co_hash x = request_hash r" "co_state x \<noteq> ''ACCEPTED''"
    by blast
  have "good_step db db1" using acceptAndDispatch_good [OF inv, of encode peers ctx jobID r now] assms(2) by simp
  then have g: "good_step db1 db2" using control_run_good assms(3) by (auto simp: good_step_def)
  then obtain y where y: "find_operation (pr_Owner p) (rq_OperationID r) db2 = Some y" "co_hash y = request_hash r"
      "co_state y \<noteq> ''ACCEPTED''"
    using good_step_op [OF _ x(1)] x(2,3) by (fastforce simp: op_evolves_def)
  have rec: "rc_OperationID (co_receipt y) = rq_OperationID r" "finished_receipt (co_receipt y)"
    using find_operation_receipt [of db2 "pr_Owner p" "rq_OperationID r" y] y g
    by (auto simp: good_step_def finished_receipt_def operation_states_def)
  have "j_owner j = pr_Owner p" "Require ctx ''jobs:control'' False = Inr p" "validateControlOperationRequest r = Inr ()"
    using p assms(4) by (auto simp: admitted_def jobAuthorized_def Require_def rbind_eq_Inr_iff split: if_splits)
  then have adm: "admitted ctx jobID q db2 = Inr p" if "validateControlOperationRequest q = Inr ()" for q
    using that assms(4) by (simp add: admitted_def)
  have "acceptAndDispatchControlOperation encode peers' ctx jobID r now' db2 = (Inr ((co_receipt y)\<lparr>rc_Existing := True\<rparr>), db2)"
    unfolding acceptAndDispatchControlOperation_def admitted_def [symmetric]
    using adm [of r] \<open>validateControlOperationRequest r = Inr ()\<close> y rec by simp
  moreover have "acceptAndDispatchControlOperation encode peers' ctx jobID r' now' db2
        = (Inl (Status ''AlreadyExists'' ''OPERATION_CONFLICT''), db2)"
    if "rq_OperationID r' = rq_OperationID r" "request_hash r' \<noteq> request_hash r" "validateControlOperationRequest r' = Inr ()"
    unfolding acceptAndDispatchControlOperation_def admitted_def [symmetric]
    using adm [of r'] that that(2) [symmetric] y by simp
  ultimately show ?thesis using rec by (auto simp: finished_receipt_def)
qed


section \<open>A run\<close>

text \<open>
  An approval asked for by attempt \<open>a\<close> of task \<open>t\<close>, answered \<open>ACCEPT\<close> by the owner of job \<open>j\<close>, and the
  worker's confirmation.
\<close>

definition example_spec :: TaskSpec where
  "example_spec = Task (the (sp_Execution example_job_spec)) example_job_spec ''k'' ''do''"

definition example_run_db :: ControlDB where
  "example_run_db = example_control_db\<lparr>
    ct_tasks := [\<lparr>t_id = ''t'', t_owner = ''ann'', t_project = ''p'', t_idem = ''k'', t_hash = [], t_spec = example_spec,
      t_state = ''RUNNING'', t_attempt = ''a'', t_worker = ''w'', t_created = 0, t_updated = 0, t_seq = 0,
      t_error_code = [], t_error_message = [], t_result = [], t_native_session = [], t_blocker = [], t_priority = 0,
      t_deadline = 90000, t_job = Some ''j'', t_stage = ''single'', t_partition = [], t_stage_id = None,
      t_generation = 1, t_retry_after = 0, t_event_floor = 0\<rparr>],
    ct_attempts := [\<lparr>a_id = ''a'', a_task = ''t'', a_worker = ''w'', a_epoch = ''e'', a_generation = 1, a_token = ''k'',
      a_lease_until = 30000, a_released = False, a_final_hash = [], a_worker_seq = 0, a_last_renewed = 0, a_model_token = None\<rparr>]\<rparr>"

definition example_asked :: runtimeApprovalPayload where
  "example_asked = \<lparr>ra_ApprovalID = ''q'', ra_SessionID = ''s'', ra_Tool = ''sh'', ra_Action = ''run'', ra_RiskClass = ''LOW'',
    ra_ArgumentsSummary = [], ra_PolicyContext = None, ra_RequestVersion = 1, ra_RequestedAtMS = 1, ra_ExpiresAtMS = 0\<rparr>"

definition example_event :: RuntimeEvent where
  "example_event = \<lparr>ev_Type = ''approval.requested'', ev_TaskId = ''t'', ev_AttemptId = ''a'', ev_Generation = 1,
    ev_Approval = Some example_asked\<rparr>"

definition example_op_request :: ControlOperationRequest where
  "example_op_request = \<lparr>rq_OperationID = ''op1'', rq_OperationType = ''approval'', rq_ResourceType = ''approval'',
    rq_ResourceID = ''q'', rq_TaskID = ''t'', rq_ExpectedAttemptID = ''a'', rq_ExpectedGeneration = 1,
    rq_ExpectedResourceVersion = 1,
    rq_Payload = Some (JObj [(''approval_id'', JStr ''q''), (''request_version'', JInt 1), (''decision'', JStr ''ACCEPT'')])\<rparr>"

definition example_peers :: peers where
  "example_peers = [''w'' \<mapsto> [(''p'', [''control:approval''])]]"

definition example_pending :: ApprovalRow where
  "example_pending = approval_row example_event example_asked ''j'' 1"

definition example_db1 :: ControlDB where
  "example_db1 = example_run_db\<lparr>ct_approvals := [example_pending]\<rparr>"

lemma example_selectors [simp]:
  "ev_Type example_event = ''approval.requested''" "ev_TaskId example_event = ''t''" "ev_AttemptId example_event = ''a''"
  "ev_Generation example_event = 1" "ev_Approval example_event = Some example_asked"
  "ra_ApprovalID example_asked = ''q''" "ra_SessionID example_asked = ''s''" "ra_RequestVersion example_asked = 1"
  "ra_RiskClass example_asked = ''LOW''" "ra_RequestedAtMS example_asked = 1" "ra_ExpiresAtMS example_asked = 0"
  "rq_OperationID example_op_request = ''op1''" "rq_OperationType example_op_request = ''approval''"
  "rq_ResourceType example_op_request = ''approval''" "rq_ResourceID example_op_request = ''q''" "rq_TaskID example_op_request = ''t''"
  "rq_ExpectedAttemptID example_op_request = ''a''" "rq_ExpectedGeneration example_op_request = 1"
  "rq_ExpectedResourceVersion example_op_request = 1"
  by (simp_all add: example_event_def example_asked_def example_op_request_def)

lemma example_pending_selectors [simp]:
  "ap_id example_pending = ''q''" "ap_version example_pending = 1" "ap_job example_pending = ''j''" "ap_task example_pending = ''t''"
  "ap_attempt example_pending = ''a''" "ap_generation example_pending = 1" "ap_expires example_pending = 0"
  "ap_risk example_pending = ''LOW''" "ap_state example_pending = ''PENDING''" "ap_decision example_pending = []"
  by (simp_all add: example_pending_def approval_row_def)

definition example_job :: ExecJobRow where
  "example_job = hd (ct_jobs example_control_db)"

definition example_task :: TaskRow where
  "example_task = hd (ct_tasks example_run_db)"

definition example_attempt :: AttemptRow where
  "example_attempt = hd (ct_attempts example_run_db)"

lemma example_db_selectors [simp]:
  "ct_jobs example_run_db = [example_job]" "ct_tasks example_run_db = [example_task]"
  "ct_attempts example_run_db = [example_attempt]" "ct_commands example_run_db = []" "ct_job_events example_run_db = []"
  "ct_operations example_run_db = []" "ct_approvals example_run_db = []"
  "j_id example_job = ''j''" "j_owner example_job = ''ann''" "j_project example_job = ''p''"
  "j_state example_job = ''EXECUTING''" "j_version example_job = 1" "j_seq example_job = 0"
  "t_id example_task = ''t''" "t_job example_task = Some ''j''" "t_attempt example_task = ''a''" "t_generation example_task = 1"
  "t_worker example_task = ''w''" "t_native_session example_task = []" "t_profile example_task = ''p''"
  "a_id example_attempt = ''a''" "a_task example_attempt = ''t''" "a_worker example_attempt = ''w''"
  "a_generation example_attempt = 1" "\<not> a_released example_attempt"
  by (simp_all add: example_job_def example_task_def example_attempt_def example_run_db_def example_control_db_def
      empty_control_db_def example_spec_def example_job_spec_def Task_def)

lemma example_authorized [simp]:
  "Require (Some example_principal) ''jobs:control'' False = Inr example_principal"
  "Require (Some example_principal) ''jobs:read'' False = Inr example_principal"
  "pr_Owner example_principal = ''ann''" "''p'' \<in> set (id_Projects (pr_Identity example_principal))"
  by (simp_all add: Require_def User_def example_principal_def)

lemma example_asks: "persistApprovalRequested example_event 5 example_run_db = Inr example_db1"
proof -
  have v: "ApprovalRequest_Validate (approval_model example_event example_asked ''j'' 1) = Inr ()" by code_simp
  show ?thesis
    by (simp add: persistApprovalRequested_def v Let_def select_row_def insert_approval_def insert_row_def
      example_pending_def [symmetric] example_db1_def knownRiskClasses_def knownApprovalStates_def update_where_def)
qed

definition example_command :: ControlCommand where
  "example_command = \<lparr>cc_OperationId = ''op1'', cc_TaskId = ''t'', cc_AttemptId = ''a'', cc_Generation = 1, cc_SessionRef = [],
    cc_Action = ''approval'', cc_Mode = [], cc_Input = None, cc_ApprovalId = ''q'', cc_RequestVersion = 1,
    cc_Decision = ''ACCEPT'', cc_PrincipalId = ''ann''\<rparr>"

definition example_receipt :: ControlOperationReceipt where
  "example_receipt = accepted_receipt ''j'' example_op_request ''DISPATCHED''"

definition example_sent :: CommandRow where
  "example_sent = \<lparr>cm_id = command_id ''ann'' ''op1'', cm_task = ''t'', cm_attempt = ''a'', cm_worker = ''w'',
    cm_kind = ''control'', cm_control = Some example_command, cm_assignment = None, cm_acked = False\<rparr>"

definition example_op :: ControlOpRow where
  "example_op = \<lparr>co_principal = ''ann'', co_operation = ''op1'', co_type = ''approval'', co_resource_type = ''approval'',
    co_resource_id = ''q'', co_job = ''j'', co_task = ''t'', co_attempt = ''a'', co_generation = 1, co_version = 1,
    co_hash = request_hash example_op_request, co_state = ''DISPATCHED'', co_receipt = example_receipt,
    co_created = 6, co_updated = 6\<rparr>"

definition example_payload :: controlDispatchPayload where
  "example_payload = empty_payload\<lparr>dp_ApprovalID := ''q'', dp_RequestVersion := 1, dp_Decision := ''ACCEPT''\<rparr>"

lemma example_payload_selectors [simp]:
  "dp_ApprovalID example_payload = ''q''" "dp_RequestVersion example_payload = 1" "dp_Decision example_payload = ''ACCEPT''"
  "dp_Mode example_payload = []"
  by (simp_all add: example_payload_def empty_payload_def)

lemma example_fence:
  "ct_tasks db = [example_task] \<Longrightarrow> ct_jobs db = [example_job] \<Longrightarrow> ct_attempts db = [example_attempt] \<Longrightarrow>
    validateControlFence ''j'' example_op_request db = Inr ()"
  by (simp add: validateControlFence_def select_row_def job_terminal_def)

lemma example_checks: "operation_checks example_peers ''j'' example_op_request 6 example_db1 = (Inr example_payload, example_db1)"
proof -
  have req: "requiredControlCapability example_op_request = Inr (''approval'', example_payload)" by code_simp
  have cap: "workerHasControlCapability example_peers ''w'' ''p'' ''approval''" by code_simp
  show ?thesis
    by (simp add: operation_checks_def req cap example_fence example_db1_def validateApprovalDecision_def decision_ok_def
        expireJobApprovals_def overdue_def db_Tx_def)
qed

lemma example_accepts:
  "acceptControlOperation (Some example_principal) ''j'' example_op_request 6 example_db1
    = (Inr (accepted_receipt ''j'' example_op_request ''ACCEPTED''),
       example_db1\<lparr>ct_operations := [example_op\<lparr>co_state := ''ACCEPTED'',
         co_receipt := accepted_receipt ''j'' example_op_request ''ACCEPTED''\<rparr>]\<rparr>)"
proof -
  have valid: "validateControlOperationRequest example_op_request = Inr ()" by code_simp
  show ?thesis
    by (simp add: acceptControlOperation_def valid jobAuthorized_def select_row_def example_db1_def accept_tx_def
        find_operation_def example_fence insert_operation_def insert_row_def operation_states_def example_op_def db_Tx_def)
qed

definition example_db2 :: ControlDB where
  "example_db2 = example_db1\<lparr>
    ct_approvals := [example_pending\<lparr>ap_decision := ''ACCEPT'', ap_decided_by := ''ann'', ap_decided_at := 6\<rparr>],
    ct_commands := [example_sent], ct_operations := [example_op],
    ct_jobs := [example_job\<lparr>j_seq := 1, j_updated := 6\<rparr>],
    ct_job_events := [\<lparr>je_job = ''j'', je_seq = 1, je_type = ''control.accepted'', je_recorded = 6,
      je_body = dispatched_json example_op_request, je_operation = Some (''control-dispatch:ann:op1'', Hash [])\<rparr>]\<rparr>"

lemma example_dispatch_tx:
  "dispatch_tx (\<lambda>_ _. []) ''ann'' ''j'' example_op_request example_payload 6 (example_db1\<lparr>ct_operations := [example_op\<lparr>co_state := ''ACCEPTED'',
         co_receipt := accepted_receipt ''j'' example_op_request ''ACCEPTED''\<rparr>]\<rparr>) = Inr ((), example_db2)"
proof -
  have cmd: "control_command ''ann'' example_op_request example_payload [] = example_command"
    by (simp add: control_command_def example_command_def)
  show ?thesis
    by (simp add: dispatch_tx_def select_row_def example_op_def example_fence example_db1_def cmd
        save_control_command_def mark_decision_def count_where_def update_where_def appendJobEvent_def insert_row_def example_sent_def
        example_db2_def example_receipt_def Let_def)
qed

lemma example_dispatch:
  "acceptAndDispatchControlOperation (\<lambda>_ _. []) example_peers (Some example_principal) ''j'' example_op_request 6 example_db1
    = (Inr example_receipt, example_db2)"
proof -
  have valid: "validateControlOperationRequest example_op_request = Inr ()" by code_simp
  have old: "find_operation ''ann'' ''op1'' example_db1 = None" by (simp add: find_operation_def example_db1_def)
  have auth: "jobAuthorized (Some example_principal) ''j'' ''jobs:read'' example_db1 = Inr example_job"
    by (simp add: jobAuthorized_def select_row_def example_db1_def)
  show ?thesis
    by (simp add: acceptAndDispatchControlOperation_def valid old auth example_checks example_accepts db_Tx_def
        example_dispatch_tx) (simp add: example_receipt_def accepted_receipt_def)
qed

definition example_ack :: CommandAck where
  "example_ack = \<lparr>ak_CommandId = command_id ''ann'' ''op1'', ak_State = ''COMPLETED'', ak_OperationId = ''op1'', ak_ErrorCode = [],
    ak_ErrorMessage = []\<rparr>"

lemma example_db2_selectors [simp]:
  "ct_approvals example_db2 = [example_pending\<lparr>ap_decision := ''ACCEPT'', ap_decided_by := ''ann'', ap_decided_at := 6\<rparr>]"
  "ct_commands example_db2 = [example_sent]" "ct_operations example_db2 = [example_op]"
  "ct_jobs example_db2 = [example_job\<lparr>j_seq := 1, j_updated := 6\<rparr>]"
  "ct_tasks example_db2 = [example_task]" "ct_attempts example_db2 = [example_attempt]"
  by (simp_all add: example_db2_def example_db1_def)

lemma example_sent_selectors [simp]:
  "cm_id example_sent = command_id ''ann'' ''op1''" "cm_worker example_sent = ''w''" "cm_kind example_sent = ''control''"
  "cm_control example_sent = Some example_command"
  "cc_OperationId example_command = ''op1''" "cc_PrincipalId example_command = ''ann''" "cc_Action example_command = ''approval''"
  "cc_TaskId example_command = ''t''" "cc_AttemptId example_command = ''a''" "cc_Generation example_command = 1"
  "cc_ApprovalId example_command = ''q''" "cc_RequestVersion example_command = 1" "cc_Decision example_command = ''ACCEPT''"
  "co_principal example_op = ''ann''" "co_operation example_op = ''op1''" "co_state example_op = ''DISPATCHED''"
  "co_job example_op = ''j''"
  "co_receipt example_op = example_receipt" "rc_State example_receipt = ''DISPATCHED''"
  "ak_OperationId example_ack = ''op1''" "ak_CommandId example_ack = command_id ''ann'' ''op1''" "ak_State example_ack = ''COMPLETED''"
  "ak_ErrorCode example_ack = []" "ak_ErrorMessage example_ack = []" "command_id ''ann'' ''op1'' \<noteq> []"
  by (simp_all add: example_sent_def example_command_def example_op_def example_receipt_def accepted_receipt_def
      example_ack_def command_id_def)

definition example_accepted :: ApprovalRow where
  "example_accepted = example_pending\<lparr>ap_state := ''ACCEPTED'', ap_decision := ''ACCEPT'', ap_decided_by := ''ann'', ap_decided_at := 7\<rparr>"

definition example_db3 :: ControlDB where
  "example_db3 = snd (applyControlAck ''w'' example_ack 7 example_db2)"

lemma example_answer:
  "fst (applyControlAck ''w'' example_ack 7 example_db2) = Inr ()" "ct_approvals example_db3 = [example_accepted]"
  "ct_operations example_db3 = [example_op\<lparr>co_state := ''COMPLETED'', co_receipt := example_receipt\<lparr>rc_State := ''COMPLETED'',
      rc_ErrorCode := [], rc_ErrorMessage := []\<rparr>, co_updated := 7\<rparr>]"
  "ct_jobs example_db3 = [example_job\<lparr>j_seq := 2, j_updated := 7\<rparr>]"
proof -
  have cur: "current_attempt example_db2 ''t'' ''a'' 1 ''w'' = 1" by (simp add: current_attempt_def)
  have ev: "ct_job_events example_db2 = [\<lparr>je_job = ''j'', je_seq = 1, je_type = ''control.accepted'', je_recorded = 6,
      je_body = dispatched_json example_op_request, je_operation = Some (''control-dispatch:ann:op1'', Hash [])\<rparr>]"
    by (simp add: example_db2_def)
  note run = applyControlAck_def db_Tx_def ack_tx_def select_row_def ack_outcome_def cur commit_ack_def
    applyApprovalControlResult_def count_where_def update_where_def appendJobEvent_def insert_row_def ev Let_def
  show "fst (applyControlAck ''w'' example_ack 7 example_db2) = Inr ()"
    "ct_approvals example_db3 = [example_accepted]"
    "ct_operations example_db3 = [example_op\<lparr>co_state := ''COMPLETED'', co_receipt := example_receipt\<lparr>rc_State := ''COMPLETED'',
      rc_ErrorCode := [], rc_ErrorMessage := []\<rparr>, co_updated := 7\<rparr>]"
    "ct_jobs example_db3 = [example_job\<lparr>j_seq := 2, j_updated := 7\<rparr>]"
    by (simp_all add: example_db3_def run example_accepted_def)
qed

lemma example_control_reachable:
  "reachable control_init (control_step (\<lambda>_ _. [])) example_db1"
  "control_step (\<lambda>_ _. []) example_db1 example_db2" "control_step (\<lambda>_ _. []) example_db2 example_db3"
proof -
  have "control_init example_run_db" by (simp add: control_init_def control_commands_def)
  then show "reachable control_init (control_step (\<lambda>_ _. [])) example_db1"
    using control_step.asked [OF example_asks, of "\<lambda>_ _. []"] by (meson reachable.intros)
  show "control_step (\<lambda>_ _. []) example_db1 example_db2"
    using control_step.request [of "\<lambda>_ _. []" example_db1 example_peers "Some example_principal" "''j''" example_op_request 6]
    by (simp add: example_dispatch)
  show "control_step (\<lambda>_ _. []) example_db2 example_db3"
    unfolding example_db3_def by (rule control_step.answer)
qed


lemma example_control_later:
  "reachable control_init (control_step (\<lambda>_ _. [])) example_db2" "reachable control_init (control_step (\<lambda>_ _. [])) example_db3"
  using example_control_reachable by (meson reachable_step)+

lemma example_control_run: "(control_step (\<lambda>_ _. []))\<^sup>*\<^sup>* example_db2 example_db3"
  using example_control_reachable(3) by blast

theorem operation_outcome_final_witness:
  "find_operation ''ann'' ''op1'' (snd (applyControlAck ''w'' (example_ack\<lparr>ak_State := ''REJECTED''\<rparr>) 9 example_db3))
    = find_operation ''ann'' ''op1'' example_db3 \<and> find_operation ''ann'' ''op1'' example_db3 \<noteq> None"
proof -
  obtain x where x: "find_operation ''ann'' ''op1'' example_db3 = Some x" "co_state x = ''COMPLETED''"
    by (simp add: find_operation_def example_answer)
  have "(control_step (\<lambda>_ _. []))\<^sup>*\<^sup>* example_db3 (snd (applyControlAck ''w'' (example_ack\<lparr>ak_State := ''REJECTED''\<rparr>) 9 example_db3))"
    by (intro r_into_rtranclp control_step.answer)
  from operation_outcome_final [OF example_control_later(2) this x(1)] x show ?thesis by auto
qed

theorem approval_decided_once_witness:
  "\<exists>a. find_approval (''q'', 1) example_db3 = Some a \<and> ap_state a = ''ACCEPTED'' \<and> ap_decision a = ''ACCEPT''"
proof -
  have a: "find_approval (''q'', 1) example_db2 = Some (example_pending\<lparr>ap_decision := ''ACCEPT'', ap_decided_by := ''ann'', ap_decided_at := 6\<rparr>)"
    by (simp add: find_approval_def)
  have "ap_state example_accepted = ''ACCEPTED''" by (simp add: example_accepted_def)
  moreover have "find_approval (''q'', 1) example_db3 = Some example_accepted"
    by (simp add: find_approval_def example_answer) (simp add: example_accepted_def)
  ultimately show ?thesis
    using approval_decided_once [OF example_control_later(1) example_control_run a] by simp
qed


theorem request_idempotent_witness:
  "\<exists>rc. acceptAndDispatchControlOperation (\<lambda>_ _. []) Map.empty (Some example_principal) ''j'' example_op_request 9 example_db3
    = (Inr rc, example_db3) \<and> rc_Existing rc"
proof -
  have "jobAuthorized (Some example_principal) ''j'' ''jobs:read'' example_db3 = Inr (example_job\<lparr>j_seq := 2, j_updated := 7\<rparr>)"
    by (simp add: jobAuthorized_def select_row_def example_answer)
  from request_idempotent [OF example_control_reachable(1) example_dispatch example_control_run this,
      of Map.empty 9] show ?thesis by blast
qed


text \<open>A request with a decision in flight is not touched by expiry, and no further decision is let through.\<close>

lemma expire_one_keeps:
  assumes "expire_one jobID now db x = Inr db'" "a \<in> set (ct_approvals db)" "ap_key a \<noteq> ap_key x"
  shows "a \<in> set (ct_approvals db')"
  using assms
  by (auto simp: expire_one_def Let_def in_update_where_iff same_control_def dest!: appendJobEvent_same split: if_splits)

lemma expireJobApprovals_keeps:
  assumes inv: "control_inv db" and run: "expireJobApprovals jobID now db = Inr db'"
    and a: "a \<in> set (ct_approvals db)" "ap_decision a \<noteq> []"
  shows "a \<in> set (ct_approvals db')"
  using run unfolding expireJobApprovals_def
proof (rule fold_result_invariant [where P = "\<lambda>_ t. a \<in> set (ct_approvals t)"])
  fix pre x t t'
  assume "a \<in> set (ct_approvals t)" and x: "x \<in> set (filter (overdue jobID now) (ct_approvals db))"
    and step: "expire_one jobID now t x = Inr t'"
  moreover have "ap_key a \<noteq> ap_key x"
    using a x inv by (auto simp: overdue_def control_inv_def distinct_map inj_on_def)
  ultimately show "a \<in> set (ct_approvals t')" using expire_one_keeps by blast
qed (rule a(1))


lemma ack_not_completed_approvals:
  assumes "ak_State ack \<noteq> ''COMPLETED''" "applyControlAck worker ack now db = (Inr u, db')"
  shows "ct_approvals db' = ct_approvals db"
proof -
  obtain state kind code msg where out: "ack_outcome ack = (state, kind, code, msg)" by (metis prod_cases4)
  have "ct_approvals d = ct_approvals db" if "commit_ack worker ack cmd x now db = Inr d" for cmd x d
    using that assms(1) unfolding commit_ack_def out
    by (auto simp: rbind_eq_Inr_iff applyApprovalControlResult_def Let_def same_control_def split: if_splits
        dest!: appendJobEvent_same)
  with assms(2) show ?thesis
    by (auto simp: applyControlAck_def db_Tx_Inr_iff ack_tx_def out Let_def rbind_eq_Inr_iff split: if_splits option.splits)
qed

text \<open>A refused decision keeps its request closed. When the worker answers a dispatched decision with
\<open>REJECTED\<close> or \<open>UNKNOWN\<close>, the approval keeps the state \<open>PENDING\<close> and the recorded decision. From then on
it does not expire at any time, and every further decision on that version, by whomever and with whatever
payload, is refused: only a new version of the request can be decided.\<close>

theorem refused_decision_sticks:
  assumes "reachable control_init (control_step encode) db"
    and "applyControlAck worker ack now db = (Inr (), db')" "ak_State ack \<noteq> ''COMPLETED''"
    and "find_approval (aid, version) db = Some a" "ap_state a = ''PENDING''" "ap_decision a \<noteq> []"
  shows "find_approval (aid, version) db' = Some a
    \<and> (\<forall>jobID t db''. expireJobApprovals jobID t db' = Inr db'' \<longrightarrow> find_approval (aid, version) db'' = Some a)
    \<and> (\<forall>jobID r d t. dp_ApprovalID d = aid \<and> dp_RequestVersion d = version \<longrightarrow>
        (\<exists>e. validateApprovalDecision jobID r d t db' = Inl e))"
proof -
  have inv: "control_inv db" using assms(1) by (rule control_reachable_inv)
  have inv': "control_inv db'" using applyControlAck_good [OF inv, of worker ack now] assms(2) by (simp add: good_step_def)
  have found: "find_approval (aid, version) db' = Some a"
    using assms(4) ack_not_completed_approvals [OF assms(3,2)] by (simp add: find_approval_def)
  then have a: "a \<in> set (ct_approvals db')" "ap_key a = (aid, version)"
    unfolding find_approval_def by (auto dest: find_Some_iff_in)
  have keep: "find_approval (aid, version) d = Some a" if "expireJobApprovals jobID t db' = Inr d" for jobID t d
    using expireJobApprovals_good [OF inv' that] expireJobApprovals_keeps [OF inv' that a(1) assms(6)]
      find_approval_unique [of d a] a(2) by (simp add: good_step_def)
  have "\<exists>e. validateApprovalDecision jobID r p t db' = Inl e" if p: "dp_ApprovalID p = aid" "dp_RequestVersion p = version" for jobID r p t
  proof (rule ccontr)
    assume "\<not> ?thesis"
    then obtain d where run: "validateApprovalDecision jobID r p t db' = Inr ((), d)" by (metis sum.exhaust surj_pair unit.exhaust)
    then obtain b where ex: "expireJobApprovals jobID t db' = Inr d"
      and b: "List.find (\<lambda>a. ap_id a = aid \<and> ap_version a = version \<and> ap_job a = jobID) (ct_approvals d) = Some b" "ap_decision b = []"
      using p by (auto simp: validateApprovalDecision_def rbind_eq_Inr_iff split: if_splits option.splits)
    have "find_approval (aid, version) d = Some b"
      using find_approval_unique [of d b] expireJobApprovals_good [OF inv' ex] find_Some_iff_in [OF b(1)] by (simp add: good_step_def)
    with keep [OF ex] b(2) assms(6) show False by simp
  qed
  then show ?thesis using found keep by blast
qed

theorem refused_decision_sticks_witness:
  "fst (applyControlAck ''w'' (example_ack\<lparr>ak_State := ''REJECTED''\<rparr>) 7 example_db2) = Inr ()
    \<and> (\<exists>e. validateApprovalDecision ''j'' example_op_request example_payload 9
        (snd (applyControlAck ''w'' (example_ack\<lparr>ak_State := ''REJECTED''\<rparr>) 7 example_db2)) = Inl e)"
proof -
  let ?ack = "example_ack\<lparr>ak_State := ''REJECTED''\<rparr>"
  have cur: "current_attempt example_db2 ''t'' ''a'' 1 ''w'' = 1" by (simp add: current_attempt_def)
  have ev: "ct_job_events example_db2 = [\<lparr>je_job = ''j'', je_seq = 1, je_type = ''control.accepted'', je_recorded = 6,
      je_body = dispatched_json example_op_request, je_operation = Some (''control-dispatch:ann:op1'', Hash [])\<rparr>]"
    by (simp add: example_db2_def)
  have r: "fst (applyControlAck ''w'' ?ack 7 example_db2) = Inr ()"
    by (simp add: applyControlAck_def db_Tx_def ack_tx_def select_row_def ack_outcome_def cur commit_ack_def
        applyApprovalControlResult_def update_where_def appendJobEvent_def insert_row_def ev Let_def)
  then obtain db' where db': "applyControlAck ''w'' ?ack 7 example_db2 = (Inr (), db')" by (metis prod.collapse)
  from refused_decision_sticks [OF example_control_later(1) db', of "''q''" 1] r show ?thesis
    by (simp add: find_approval_def db')
qed

end
