(* ===== verification/Task_Safety.thy ===== *)
theory Task_Safety
  imports Task_Dispatch Control_Safety
begin

text \<open>
  The server as a transition system: one step per transaction of an operation, in any order, with any
  arguments. Every step implements the lifecycle of tasks and attempts and is a run of the control plane, so the
  invariants of both hold in every reachable database, and what they say about single operations holds of whole runs.
\<close>

section \<open>The control plane leaves tasks and attempts alone\<close>

lemma cores_control [simp]:
  "cores (db\<lparr>ct_operations := v\<rparr>) = cores db" "cores (db\<lparr>ct_approvals := w\<rparr>) = cores db" "cores (db\<lparr>ct_commands := u\<rparr>) = cores db"
  by (simp_all add: cores_def)

lemma appendJobEvent_cores: "appendJobEvent jid typ body op hash now db = Inr db' \<Longrightarrow> cores db' = cores db"
  by (rule frame_cores) (rule appendJobEvent_frame)

lemma expire_one_cores: "expire_one jid now db x = Inr db' \<Longrightarrow> cores db' = cores db"
  by (auto simp: expire_one_def Let_def split: if_split_asm dest!: appendJobEvent_cores)

lemma expireJobApprovals_cores:
  assumes "expireJobApprovals jid now db = Inr db'"
  shows "cores db' = cores db"
proof -
  have "fold_result (expire_one jid now) d xs = Inr db' \<Longrightarrow> cores db' = cores d" for d xs
    by (induction xs arbitrary: d) (auto simp: rbind_eq_Inr_iff dest!: expire_one_cores)
  then show ?thesis using assms by (simp add: expireJobApprovals_def)
qed

lemma validateApprovalDecision_cores: "validateApprovalDecision jid r p now db = Inr (x, db') \<Longrightarrow> cores db' = cores db"
  by (auto simp: validateApprovalDecision_def rbind_eq_Inr_iff split: if_split_asm option.split_asm dest!: expireJobApprovals_cores)

lemma accept_tx_cores: "accept_tx ow jid r now db = Inr (x, db') \<Longrightarrow> cores db' = cores db"
  by (auto simp: accept_tx_def insert_operation_def rbind_eq_Inr_iff split: if_split_asm option.split_asm)

lemma save_control_command_cores: "save_control_command encode cid r w cmd db = Inr db' \<Longrightarrow> cores db' = cores db"
  by (auto simp: save_control_command_def split: if_split_asm option.split_asm)

lemma mark_decision_cores: "mark_decision ow r p now db = Inr db' \<Longrightarrow> cores db' = cores db"
  by (auto simp: mark_decision_def Let_def split: if_split_asm)

lemma dispatch_tx_cores: "dispatch_tx encode ow jid r p now db = Inr (x, db') \<Longrightarrow> cores db' = cores db"
  by (auto simp: dispatch_tx_def Let_def rbind_eq_Inr_iff split: if_split_asm
      dest!: save_control_command_cores mark_decision_cores appendJobEvent_cores)

lemma ack_tx_cores:
  assumes "ack_tx w ack now db = Inr (x, db')"
  shows "cores db' = cores db"
proof (cases "db' = db")
  case False
  obtain state kind code msg where out: "ack_outcome ack = (state, kind, code, msg)" by (metis prod_cases4)
  from assms False obtain cmd y where c: "commit_ack w ack cmd y now db = Inr db'"
    unfolding ack_tx_def Let_def out prod.case by (auto simp: rbind_eq_Inr_iff split: option.splits if_splits)
  have "applyApprovalControlResult cmd ack now db = Inr d \<Longrightarrow> cores d = cores db" for d
    by (auto simp: applyApprovalControlResult_def Let_def split: if_split_asm)
  then show ?thesis using c
    by (auto simp: commit_ack_def Let_def rbind_eq_Inr_iff split: prod.split_asm dest!: appendJobEvent_cores)
qed simp

lemma db_Tx_cores: "(\<And>x db'. f db = Inr (x, db') \<Longrightarrow> cores db' = cores db) \<Longrightarrow> cores (snd (db_Tx f db)) = cores db"
  by (auto simp: db_Tx_def split: sum.splits)

lemma applyControlAck_cores: "cores (snd (applyControlAck w ack now db)) = cores db"
  unfolding applyControlAck_def by (auto intro!: db_Tx_cores dest!: ack_tx_cores)

lemma acceptControlOperation_cores: "cores (snd (acceptControlOperation ctx jid r now db)) = cores db"
  unfolding acceptControlOperation_def by (auto split: sum.splits intro!: db_Tx_cores dest!: accept_tx_cores)

lemma validate_cores: "db_Tx (validateApprovalDecision jid r p now) db = (x, db') \<Longrightarrow> cores db' = cores db"
  using db_Tx_cores [of "validateApprovalDecision jid r p now" db, OF validateApprovalDecision_cores] by simp

lemma operation_checks_cores: "operation_checks peers jid r now db = (x, db') \<Longrightarrow> cores db' = cores db"
  by (auto simp: operation_checks_def Let_def apfst_def map_prod_def split: sum.split_asm prod.split_asm if_split_asm option.split_asm
      dest!: validate_cores)

lemma acceptAndDispatch_cores: "cores (snd (acceptAndDispatchControlOperation encode peers ctx jid r now db)) = cores db"
proof -
  have d: "cores (snd (db_Tx (dispatch_tx encode ow jid r p now) db2)) = cores db2" for ow p db2
    by (rule db_Tx_cores) (rule dispatch_tx_cores)
  have a: "cores db2 = cores db1" if "acceptControlOperation ctx jid r now db1 = (x, db2)" for x db1 db2
    using acceptControlOperation_cores [of ctx jid r now db1] that by simp
  have d': "cores db3 = cores db2" if "db_Tx (dispatch_tx encode ow jid r p now) db2 = (x, db3)" for ow p x db2 db3
    using d [of ow p db2] that by simp
  show ?thesis
    by (simp add: acceptAndDispatchControlOperation_def Let_def split: sum.split prod.split)
      (auto dest!: a d' operation_checks_cores)
qed

section \<open>Steps\<close>

text \<open>
  One transaction of the server. A drawn attempt identifier and the hash of a completion are not empty. The
  jobs of graphs are advanced by \<open>advanceGraphTx\<close>, which is not part of the relation.
\<close>

inductive server_step :: "(string \<Rightarrow> ControlCommand \<Rightarrow> string) \<Rightarrow> ControlDB \<Rightarrow> ControlDB \<Rightarrow> bool" for encode where
  submit_task: "submit_tx enc cfg p r hash tid now db = Inr (x, db') \<Longrightarrow> server_step encode db db'"
| cancel_task: "cancel_tx enc hash r cid now db = Inr db' \<Longrightarrow> server_step encode db db'"
| submit_job: "submit_job_tx enc encs cfg p key spec trace jid nt tids now db = Inr (x, db') \<Longrightarrow> server_step encode db db'"
| cancel_job: "cancel_job_tx jid r now db = Inr (x, db') \<Longrightarrow> server_step encode db db'"
| extend_job: "extend_tx cfg jid r now db = Inr (x, db') \<Longrightarrow> server_step encode db db'"
| retry_task: "manual_retry_tx enc jid r now db = Inr (x, db') \<Longrightarrow> server_step encode db db'"
| assign_task: "assign_tx gx enc cfg peers cursor d task now db = Inr (x, db') \<Longrightarrow> dw_attempt d \<noteq> [] \<Longrightarrow> server_step encode db db'"
| advance_job: "advance_tx ga enc encs cfg cid tids jid now db = Inr db' \<Longrightarrow> readJob jid db = Inr j \<Longrightarrow> j_graph j = None
    \<Longrightarrow> server_step encode db db'"
| bind_goal: "bind_unbound now db jid = Inr db' \<Longrightarrow> server_step encode db db'"
| reconcile_tasks: "reconcile enc cid now db = Inr db' \<Longrightarrow> server_step encode db db'"
| compact_events: "compact_task n db c = Inr db' \<Longrightarrow> server_step encode db db'"
| report: "report_tx enc w ref evs now db = Inr (n, db') \<Longrightarrow> server_step encode db db'"
| complete: "complete_tx enc rid hash w cr now db = Inr db' \<Longrightarrow> hash \<noteq> [] \<Longrightarrow> server_step encode db db'"
| renew: "renew_tx cfg w ar now db = Inr (b, db') \<Longrightarrow> server_step encode db db'"
| heartbeat: "server_step encode db (worker_seen w e now db)"
| register: "server_step encode db (register_worker w e now db)"
| deliver: "server_step encode db (snd (deliver_tx c w e db))"
| received: "server_step encode db (ack_received cid w db)"
| answered: "server_step encode db (snd (applyControlAck w ack now db))"
| check: "server_step encode db (snd (db_Tx (validateApprovalDecision jid rq dp now) db))"
| accept: "server_step encode db (snd (acceptControlOperation ctx jid rq now db))"
| dispatch: "requiredControlCapability rq = Inr (cp, dp) \<Longrightarrow> server_step encode db (snd (db_Tx (dispatch_tx encode ow jid rq dp now) db))"
| expire: "expireJobApprovals jid now db = Inr db' \<Longrightarrow> server_step encode db db'"
| stage: "register_tx w ref m now db = Inr db' \<Longrightarrow> server_step encode db db'"
| sweep: "server_step encode db (mark_deleting now db)"
| delete: "mark_deleted i now db = Inr db' \<Longrightarrow> server_step encode db db'"

text \<open>What every step does: it implements the lifecycle, and it is a run of the control plane.\<close>

definition implements :: "(string \<Rightarrow> ControlCommand \<Rightarrow> string) \<Rightarrow> ControlDB \<Rightarrow> ControlDB \<Rightarrow> bool" where
  "implements encode db db' \<longleftrightarrow> sim db db' \<and> (core_inv (cores db) \<longrightarrow> (control_step encode)\<^sup>*\<^sup>* db db')"

lemma implements_trans: "implements encode a b \<Longrightarrow> implements encode b c \<Longrightarrow> implements encode a c"
  unfolding implements_def using sim_trans sim_inv by (meson rtranclp_trans)

lemma quiet_implements: "quiet db db' \<Longrightarrow> implements encode db db'"
  unfolding implements_def quiet_def
  by (auto simp: steering_def control_commands_def intro!: r_into_rtranclp control_step.execution)

lemma frame_implements: "frame db' = frame db \<Longrightarrow> implements encode db db'"
  by (rule quiet_implements) (rule quiet_frame)

lemma control_implements: "control_step encode db db' \<Longrightarrow> cores db' = cores db \<Longrightarrow> implements encode db db'"
  unfolding implements_def using sim_cores by blast

lemma implements_refl [simp]: "implements encode db db"
  by (rule frame_implements) simp

lemma accept_event_implements:
  assumes "accept_event enc v ev now db = Inr db'"
  shows "implements encode db db'"
proof -
  obtain db1 db2 db3 db4 db5 where s: "appendEvent enc ev (Some (ev_WorkerSeq ev)) now db = Inr db1"
    "persistApprovalRequested (RuntimeEvent.truncate ev) now db1 = Inr db2"
    "persistRuntimeSessionRef ev now db2 = Inr db3" "mirrorRuntimeEventToJob ev now db3 = Inr db4"
    "(if ev_Type ev = ''attempt.metrics'' then saveAttemptMetrics (ev_AttemptId ev) (ev_PayloadLength ev) (ev_Metrics ev) now db4
      else Inr db4) = Inr db5" "start_running enc v ev now db5 = Inr db'"
    using assms by (auto simp: accept_event_def rbind_eq_Inr_iff)
  have f5: "frame db5 = frame db4" using s(5) saveAttemptMetrics_frame by (cases "ev_Type ev = ''attempt.metrics''") auto
  have f: "frame db5 = frame db2" using f5 mirrorRuntimeEventToJob_frame [OF s(4)] persistRuntimeSessionRef_frame [OF s(3)] by (simp only:)
  have "implements encode db db1" by (rule frame_implements [OF appendEvent_frame [OF s(1)]])
  moreover have "implements encode db1 db2"
    by (rule control_implements [OF control_step.asked [OF s(2)] persistApprovalRequested_cores [OF s(2)]])
  moreover have "implements encode db2 db5" by (rule frame_implements [OF f])
  moreover have "implements encode db5 db'" by (rule quiet_implements [OF start_running_quiet [OF s(6)]])
  ultimately show ?thesis using implements_trans by blast
qed

lemma report_event_implements:
  assumes "report_event enc v a now (n, db) ev = Inr (n', db')"
  shows "implements encode db db'"
  using assms accept_event_implements by (auto simp: rbind_eq_Inr_iff split: if_splits)

lemma report_events_implement:
  "fold_result (report_event enc v a now) (n, db) evs = Inr (n', db') \<Longrightarrow> implements encode db db'"
proof (induction evs arbitrary: n db)
  case (Cons ev evs)
  then obtain m d where d: "report_event enc v a now (n, db) ev = Inr (m, d)" "fold_result (report_event enc v a now) (m, d) evs = Inr (n', db')"
    by (auto simp: rbind_eq_Inr_iff simp del: report_event.simps)
  show ?case by (rule implements_trans [OF report_event_implements [OF d(1)] Cons.IH [OF d(2)]])
qed simp

lemma report_tx_implements:
  assumes "report_tx enc w ref evs now db = Inr (n, db')"
  shows "implements encode db db'"
proof -
  obtain v d where d: "fold_result (report_event enc v (at_AttemptId (the ref)) now) (aw_seq v, db) evs = Inr (n, d)"
    and e: "db' = d\<lparr>ct_attempts := update_where (\<lambda>a. a_id a = at_AttemptId (the ref)) (\<lambda>a. a\<lparr>a_worker_seq := n\<rparr>) (ct_attempts d)\<rparr>"
    using assms by (auto simp: report_tx_def rbind_eq_Inr_iff Let_def)
  have "frame db' = frame d" unfolding e by (rule frame_attempts_update) (simp_all add: attempt_core_def final_core_def)
  then show ?thesis using implements_trans [OF report_events_implement [OF d] frame_implements] by blast
qed

text \<open>The upload and the sweep change rows of artifacts only.\<close>

lemma register_tx_stocked:
  assumes "register_tx w ref m now db = Inr db'"
  shows "stocked db db'"
proof (cases "List.find (\<lambda>x. af_id x = ar_ArtifactId m) (ct_artifacts db)")
  case None
  then obtain g where "db' = db\<lparr>ct_artifacts := ct_artifacts db @ [artifact_row m g now]\<rparr>"
    using assms by (auto simp: register_tx_def rbind_eq_Inr_iff split: if_split_asm)
  moreover have "\<forall>x\<in>set (ct_artifacts db). af_id x \<noteq> ar_ArtifactId m" using None by (auto simp: find_None_iff)
  moreover have "shelf (ct_artifacts db) (ct_artifacts db @ [artifact_row m g now])"
    using calculation(2) by (auto simp: shelf_def artifact_row_def intro!: list_all2_refl)
  ultimately show ?thesis by (simp add: stocked_def cores_def steering_def)
next
  case (Some x)
  then have "db' = db" using assms by (auto simp: register_tx_def rbind_eq_Inr_iff split: if_split_asm)
  then show ?thesis by (simp add: stocked_frame)
qed

lemma mark_deleting_stocked: "distinct (map af_id (ct_artifacts db)) \<Longrightarrow> stocked db (mark_deleting now db)"
  unfolding mark_deleting_def
proof (rule stocked_artifacts)
  fix x assume d: "distinct (map af_id (ct_artifacts db))" and x: "x \<in> set (ct_artifacts db)" "af_id x \<in> set (expired_orphans now db)"
  then obtain y where "y \<in> set (ct_artifacts db)" "af_id y = af_id x" "af_state y = ''ORPHANED''"
    by (auto simp: expired_orphans_def dest!: in_set_takeD)
  then have "af_state x = ''ORPHANED''" using d x(1) by (metis distinct_map inj_on_def)
  then show "row_kept x (x\<lparr>af_state := ''DELETING'', af_updated := now\<rparr>)" by (simp add: row_kept_def artifact_next_def)
qed

lemma mark_deleted_stocked: "mark_deleted i now db = Inr db' \<Longrightarrow> stocked db db'"
  by (auto simp: mark_deleted_def Let_def row_kept_def artifact_next_def split: if_split_asm intro!: stocked_artifacts)

lemma server_step_implements:
  assumes "server_step encode db db'"
  shows "implements encode db db'"
  using assms
proof cases
  case (advance_job ga enc encs cfg cid tids jid now j)
  then show ?thesis by (intro quiet_implements advance_tx_quiet [OF advance_job(1)]) simp
next
  case (answered w ack now)
  then show ?thesis using control_implements [OF control_step.answer applyControlAck_cores] by simp
next
  case (check jid rq dp now)
  then show ?thesis using control_implements [OF control_step.check db_Tx_cores] validateApprovalDecision_cores by blast
next
  case (accept ctx jid rq now)
  then show ?thesis using control_implements [OF control_step.accept acceptControlOperation_cores] by simp
next
  case (dispatch rq cp dp ow jid now)
  then show ?thesis using control_implements [OF control_step.dispatch db_Tx_cores] dispatch_tx_cores by blast
next
  case (expire jid now)
  then show ?thesis using control_implements [OF control_step.expire expireJobApprovals_cores] by blast
next
  case (sweep now)
  show ?thesis
  proof (cases "core_inv (cores db)")
    case True
    then show ?thesis using sweep mark_deleting_stocked by (auto simp: core_inv_def intro!: quiet_implements stocked_quiet)
  qed (simp add: implements_def sim_def)
next
  case (report enc w ref evs now n)
  then show ?thesis by (rule report_tx_implements)
next
  case (complete enc rid hash w cr now)
  then show ?thesis by (intro quiet_implements complete_tx_quiet)
next
  case (assign_task gx enc cfg peers cursor d task now x)
  then show ?thesis by (intro quiet_implements assign_tx_quiet)
qed (auto intro: quiet_implements frame_implements submit_tx_quiet cancel_tx_quiet submit_job_tx_quiet manual_retry_tx_quiet reconcile_quiet
      stocked_quiet register_tx_stocked mark_deleted_stocked dest: frames)

section \<open>The server as a system\<close>

text \<open>A new database has no tasks, attempts and artifacts, and no control operation, approval or control command.\<close>

definition server_init :: "ControlDB \<Rightarrow> bool" where
  "server_init db \<longleftrightarrow> ct_tasks db = [] \<and> ct_attempts db = [] \<and> ct_artifacts db = [] \<and> control_init db"

definition server_inv :: "ControlDB \<Rightarrow> bool" where
  "server_inv db \<longleftrightarrow> core_inv (cores db) \<and> control_inv db"

lemma core_inv_init: "ct_tasks db = [] \<Longrightarrow> ct_attempts db = [] \<Longrightarrow> ct_artifacts db = [] \<Longrightarrow> core_inv (cores db)"
  by (simp add: core_inv_def cores_def lifecycle_def life_inv_def known_def sealed_def)

lemma control_run_inv: "(control_step encode)\<^sup>*\<^sup>* db db' \<Longrightarrow> control_inv db \<Longrightarrow> control_inv db'"
  using control_run_good by (auto simp: good_step_def)

interpretation server_system: step_system server_init "server_step encode" server_inv for encode
proof unfold_locales
  show "server_inv db" if "server_init db" for db
    using that core_inv_init control_system.inv_init by (simp add: server_init_def server_inv_def)
  show "server_inv db'" if "server_inv db" "server_step encode db db'" for db db'
    using server_step_implements [OF that(2)] that(1) control_run_inv
    by (auto simp: server_inv_def implements_def dest: sim_inv)
qed

abbreviation server_reachable :: "(string \<Rightarrow> ControlCommand \<Rightarrow> string) \<Rightarrow> ControlDB \<Rightarrow> bool" where
  "server_reachable encode \<equiv> reachable server_init (server_step encode)"

lemma reachable_core_inv: "server_reachable encode db \<Longrightarrow> core_inv (cores db)"
  using server_system.reachable_inv by (auto simp: server_inv_def)

lemma server_run_implements: "(server_step encode)\<^sup>*\<^sup>* db db' \<Longrightarrow> implements encode db db'"
proof (induction rule: rtranclp_induct)
  case (step b c)
  show ?case by (rule implements_trans [OF step.IH server_step_implements [OF step.hyps(2)]])
qed simp

lemma server_run_life:
  assumes "(server_step encode)\<^sup>*\<^sup>* db db'" "core_inv (cores db)"
  shows "life\<^sup>*\<^sup>* (lifecycle (cores db)) (lifecycle (cores db'))" "core_inv (cores db')"
  using server_run_implements [OF assms(1)] assms(2) by (simp_all add: implements_def sim_def)

lemma core_life_inv: "core_inv (cores db) \<Longrightarrow> life_inv (lifecycle (cores db))"
  by (simp add: core_inv_def)

section \<open>The entry points are runs of the server\<close>

lemma db_Tx_run:
  assumes "\<And>x db'. f db = Inr (x, db') \<Longrightarrow> server_step encode db db'"
  shows "(server_step encode)\<^sup>*\<^sup>* db (snd (db_Tx f db))"
  using assms by (auto simp: db_Tx_def split: sum.splits)

lemma each_tx_run:
  assumes "\<And>d x d'. f d x = Inr d' \<Longrightarrow> server_step encode d d'"
  shows "(server_step encode)\<^sup>*\<^sup>* db (snd (each_tx f db xs))"
  by (rule each_tx_invariant) (auto intro: rtranclp.rtrancl_into_rtrancl assms)

lemma submit_answer_run:
  assumes "\<And>x db'. f db = Inr (x, db') \<Longrightarrow> server_step encode db db'"
  shows "(server_step encode)\<^sup>*\<^sup>* db (snd (case db_Tx f db of (Inl e, db1) \<Rightarrow> (Inl (dbErr e), db1) | (Inr (i, b), db1) \<Rightarrow> (g i b db1, db1)))"
  using db_Tx_run [of f db, OF assms] by (auto split: prod.splits sum.splits)

lemma SubmitTask_run: "(server_step encode)\<^sup>*\<^sup>* db (snd (SubmitTask enc encq cfg ctx req tid now db))"
  unfolding SubmitTask_def by (auto split: sum.splits intro!: submit_answer_run elim: server_step.submit_task)

lemma CancelTask_run: "(server_step encode)\<^sup>*\<^sup>* db (snd (CancelTask enc encc ctx r cid now db))"
  by (auto simp: CancelTask_def split: sum.splits intro: server_step.cancel_task)

lemma SubmitJob_run: "(server_step encode)\<^sup>*\<^sup>* db (snd (SubmitJob enc encs cfg ctx key len rq trace jid nt tids now db))"
  unfolding SubmitJob_def by (auto split: sum.splits intro!: submit_answer_run elim: server_step.submit_job)

lemma job_operation_run:
  assumes "\<And>x db'. f db = Inr (x, db') \<Longrightarrow> server_step encode db db'"
  shows "(server_step encode)\<^sup>*\<^sup>* db (snd (job_operation ctx jid scope ok msg f db))"
  using db_Tx_run [of f db, OF assms] by (auto simp: job_operation_def split: sum.splits prod.splits)

lemma CancelJob_run: "(server_step encode)\<^sup>*\<^sup>* db (snd (CancelJob ctx jid r now db))"
  unfolding CancelJob_def by (rule job_operation_run) (rule server_step.cancel_job)

lemma ExtendJobDeadline_run: "(server_step encode)\<^sup>*\<^sup>* db (snd (ExtendJobDeadline cfg ctx jid r now db))"
  unfolding ExtendJobDeadline_def by (rule job_operation_run) (rule server_step.extend_job)

lemma ManualRetry_run: "(server_step encode)\<^sup>*\<^sup>* db (snd (ManualRetry enc ctx jid r now db))"
  by (auto simp: ManualRetry_def split: sum.splits intro!: db_Tx_run elim: server_step.retry_task)

lemma ReportEvents_run: "(server_step encode)\<^sup>*\<^sup>* db (snd (ReportEvents enc ctx ref evs now db))"
  by (auto simp: ReportEvents_def split: sum.splits intro!: db_Tx_run elim: server_step.report)

lemma CompleteAttempt_run: "(server_step encode)\<^sup>*\<^sup>* db (snd (CompleteAttempt enc encr rid ctx r now db))"
  by (auto simp: CompleteAttempt_def split: sum.splits intro: server_step.complete [OF _ Hash_not_Nil])

lemma compactTaskEvents_run: "(server_step encode)\<^sup>*\<^sup>* db (snd (compactTaskEvents cfg db))"
  by (auto simp: compactTaskEvents_def intro!: each_tx_run elim: server_step.compact_events)

lemma reconcileGoalBindings_run: "(server_step encode)\<^sup>*\<^sup>* db (snd (reconcileGoalBindings now db))"
  unfolding reconcileGoalBindings_def by (rule each_tx_run) (rule server_step.bind_goal)

lemma renew_all_run: "(server_step encode)\<^sup>*\<^sup>* db (snd (renew_all cfg w now db refs))"
proof (induction refs arbitrary: db)
  case (Cons r rs)
  show ?case
  proof (cases "renew_tx cfg w r now db")
    case (Inr g)
    obtain b d where g: "g = (b, d)" by (cases g)
    have "server_step encode db d" using Inr g by (auto intro: server_step.renew)
    then have "(server_step encode)\<^sup>*\<^sup>* db (snd (renew_all cfg w now d rs))" using Cons.IH [of d] by (rule converse_rtranclp_into_rtranclp)
    then show ?thesis using Inr g by (auto simp: Let_def split: prod.splits sum.splits)
  qed simp
qed simp

lemma receive_run: "(server_step encode)\<^sup>*\<^sup>* db (snd (receive cfg cur w e f now db))"
proof -
  have "(server_step encode)\<^sup>*\<^sup>* db (snd (renew_all cfg w now (worker_seen w e now db) refs))" for refs
    by (rule converse_rtranclp_into_rtranclp [OF server_step.heartbeat renew_all_run])
  moreover have "server_step encode db d" if "applyControlAck w ack now db = (x, d)" for ack x d
    using server_step.answered [of encode db w ack now] that by simp
  ultimately show ?thesis
    by (auto simp: receive_def split: WorkerFrame.splits sum.splits prod.splits intro: server_step.received)
qed

lemma operation_checks_run:
  assumes "operation_checks peers jid r now db = (x, db')"
  shows "(server_step encode)\<^sup>*\<^sup>* db db'"
proof -
  have "server_step encode db d" if "db_Tx (validateApprovalDecision jid r p now) db = (y, d)" for p y d
    using server_step.check [of encode db jid r p now] that by simp
  then show ?thesis using assms
    by (auto simp: operation_checks_def Let_def apfst_def map_prod_def split: sum.split_asm prod.split_asm if_split_asm option.split_asm)
qed

lemma operation_checks_payload:
  assumes "operation_checks peers jid r now db = (Inr p, db')"
  shows "\<exists>c. requiredControlCapability r = Inr (c, p)"
  using assms by (auto simp: operation_checks_def Let_def split: sum.split_asm prod.split_asm if_split_asm option.split_asm)

lemma request_run: "(server_step encode)\<^sup>*\<^sup>* db (snd (acceptAndDispatchControlOperation encode peers ctx jid r now db))"
proof -
  have a: "(server_step encode)\<^sup>*\<^sup>* db2 db3" if "acceptControlOperation ctx jid r now db2 = (x, db3)" for x db2 db3
    using server_step.accept [of encode db2 ctx jid r now] that by simp
  have d: "(server_step encode)\<^sup>*\<^sup>* db3 db4"
    if "db_Tx (dispatch_tx encode ow jid r p now) db3 = (x, db4)" "requiredControlCapability r = Inr (c, p)" for ow c p x db3 db4
    using server_step.dispatch [OF that(2), of encode db3 ow jid now] that(1) by simp
  obtain x1 d1 where c: "operation_checks peers jid r now db = (x1, d1)" by (cases "operation_checks peers jid r now db")
  obtain x2 d2 where ac: "acceptControlOperation ctx jid r now d1 = (x2, d2)" by (cases "acceptControlOperation ctx jid r now d1")
  note r1 = operation_checks_run [OF c, of encode]
  have r2: "(server_step encode)\<^sup>*\<^sup>* db d2" using rtranclp_trans [OF r1 a [OF ac]] .
  have r3: "(server_step encode)\<^sup>*\<^sup>* db (snd (db_Tx (dispatch_tx encode ow jid r p now) d2))" if "x1 = Inr p" for ow p
    using operation_checks_payload [of peers jid r now db p d1] c that d [of ow p d2] rtranclp_trans [OF r2] by (metis prod.collapse)
  have e: "snd (acceptAndDispatchControlOperation encode peers ctx jid r now db) \<in> {db, d1, d2}
      \<union> {snd (db_Tx (dispatch_tx encode ow jid r p now) d2) | ow p. x1 = Inr p}"
    by (auto simp: acceptAndDispatchControlOperation_def Let_def c ac split: sum.splits prod.splits) (metis snd_conv)+
  then show ?thesis using r1 r2 r3 by auto
qed

section \<open>Rows and the lifecycle\<close>

lemma select_row_exists: "x \<in> set xs \<Longrightarrow> P x \<Longrightarrow> \<exists>y\<in>set xs. P y \<and> select_row P xs = Inr y"
  by (induction xs) (auto simp: select_row_def split: option.splits)

definition task_limit :: "ControlDB \<Rightarrow> TaskRow \<Rightarrow> int" where
  "task_limit db t = limit_of (map job_core (ct_jobs db)) (t_job t)"

lemma row_ok:
  assumes "core_inv (cores db)" "t \<in> set (ct_tasks db)"
  shows "task_ok (lifecycle (cores db)) (task_view (kj (cores db)) (queue_core t))"
  using inv_rows(3) [OF assms(1)] assms(2) by simp

lemma view_limit: "k_limit (task_view (kj (cores db)) (queue_core t)) = task_limit db t"
  by (simp add: task_limit_def)

text \<open>A row of the later database for a row of the earlier one.\<close>

lemma run_task:
  assumes run: "(server_step encode)\<^sup>*\<^sup>* db db'" and r: "core_inv (cores db)" and t: "t \<in> set (ct_tasks db)"
  obtains t' where "t' \<in> set (ct_tasks db')" "task_evolves (task_view (kj (cores db)) (queue_core t)) (task_view (kj (cores db')) (queue_core t'))"
proof -
  have "task_view (kj (cores db)) (queue_core t) \<in> set (lc_tasks (lifecycle (cores db)))" using t by simp
  then obtain k where k: "k \<in> set (lc_tasks (lifecycle (cores db')))" "task_evolves (task_view (kj (cores db)) (queue_core t)) k"
    using life_run_evolves [OF server_run_life(1) [OF run r] core_life_inv [OF r]] by blast
  then obtain t' where "t' \<in> set (ct_tasks db')" "k = task_view (kj (cores db')) (queue_core t')" by auto
  then show thesis using k(2) that by blast
qed

lemma run_attempt:
  assumes run: "(server_step encode)\<^sup>*\<^sup>* db db'" and r: "core_inv (cores db)" and a: "a \<in> set (ct_attempts db)"
  obtains a' where "a' \<in> set (ct_attempts db')" "attempt_evolves (attempt_core a) (attempt_core a')"
proof -
  have "attempt_core a \<in> set (lc_attempts (lifecycle (cores db)))" using a by simp
  then obtain k where "k \<in> set (lc_attempts (lifecycle (cores db')))" "attempt_evolves (attempt_core a) k"
    using life_run_attempts [OF server_run_life(1) [OF run r]] by blast
  then show thesis using that by auto
qed

section \<open>Properties of runs\<close>

text \<open>C5: every transaction of the server implements the lifecycle of tasks and attempts: what it does to the task and attempt
  rows is a sequence of lifecycle steps (submission, assignment, move, cancellation, completion, retry, reopening).\<close>

theorem server_refines_lifecycle:
  assumes "server_reachable encode db" "server_step encode db db'"
  shows "life\<^sup>*\<^sup>* (lifecycle (cores db)) (lifecycle (cores db'))"
  using server_run_life(1) [of encode db db'] assms reachable_core_inv by blast

text \<open>C2: an attempt that is not released is the only such attempt of its task; the task is in an active state and names this attempt and
  its generation.\<close>

theorem one_live_attempt:
  assumes "server_reachable encode db" "a \<in> set (ct_attempts db)" "\<not> a_released a"
  shows "(\<exists>t\<in>set (ct_tasks db). t_id t = a_task a \<and> t_attempt t = a_id a \<and> t_generation t = a_generation a \<and> t_state t \<in> active_states)
    \<and> (\<forall>b\<in>set (ct_attempts db). a_task b = a_task a \<and> \<not> a_released b \<longrightarrow> b = a)"
proof -
  note inv = reachable_core_inv [OF assms(1)]
  have own: "\<exists>t\<in>set (ct_tasks db). t_id t = a_task b \<and> t_attempt t = a_id b \<and> t_state t \<in> active_states"
    if "b \<in> set (ct_attempts db)" "\<not> a_released b" for b
    using inv_rows(4) [OF inv] that by (auto simp: attempt_ok_def)
  obtain t where t: "t \<in> set (ct_tasks db)" "t_id t = a_task a" "t_attempt t = a_id a" "t_state t \<in> active_states" using own assms(2,3) by blast
  obtain c where c: "c \<in> set (ct_attempts db)" "a_id c = a_id a" "a_generation c = t_generation t"
    using row_ok [OF inv t(1)] t(3,4) by (auto simp: task_ok_def holds_attempt_def)
  have "c = a" by (rule attempt_unique [OF inv c(1) assms(2) c(2)])
  moreover have "b = a" if b: "b \<in> set (ct_attempts db)" "a_task b = a_task a" "\<not> a_released b" for b
  proof -
    obtain u where u: "u \<in> set (ct_tasks db)" "t_id u = a_task b" "t_attempt u = a_id b" using own b by blast
    have "u = t" using task_unique [OF inv u(1) t(1)] u(2) t(2) b(2) by simp
    then show ?thesis using attempt_unique [OF inv b(1) assms(2)] u(3) t(3) by simp
  qed
  ultimately show ?thesis using t c(3) by metis
qed

text \<open>C7: a task that has succeeded or was canceled keeps its state, attempt and generation for ever, and one that failed leaves that state only
  while its generation is below the number of attempts its job allows.\<close>

theorem outcome_is_final:
  assumes "server_reachable encode db" "(server_step encode)\<^sup>*\<^sup>* db db'" "t \<in> set (ct_tasks db)" "job_terminal (t_state t)"
  shows "\<exists>t'\<in>set (ct_tasks db'). t_id t' = t_id t \<and>
    (t_state t' = t_state t \<and> t_attempt t' = t_attempt t \<and> t_generation t' = t_generation t
     \<or> t_state t = ''FAILED'' \<and> t_generation t < task_limit db t \<and> t_generation t \<le> t_generation t')"
proof -
  obtain t' where t': "t' \<in> set (ct_tasks db')"
    and e: "task_evolves (task_view (kj (cores db)) (queue_core t)) (task_view (kj (cores db')) (queue_core t'))"
    by (rule run_task [OF assms(2) reachable_core_inv [OF assms(1)] assms(3)])
  have "t_id t' = t_id t" "t_generation t \<le> t_generation t'" using e by (simp_all add: task_evolves_def)
  moreover have "task_view (kj (cores db')) (queue_core t') = task_view (kj (cores db)) (queue_core t)
      \<or> t_state t = ''FAILED'' \<and> t_generation t < task_limit db t"
    using e assms(4) by (auto simp: task_evolves_def job_terminal_def task_limit_def)
  then have "t_state t' = t_state t \<and> t_attempt t' = t_attempt t \<and> t_generation t' = t_generation t
      \<or> t_state t = ''FAILED'' \<and> t_generation t < task_limit db t"
    by (metis core_selectors(3-5) view_selectors(2-4))
  ultimately show ?thesis using t' by blast
qed

text \<open>C8: over the whole life of a task it is given at most as many attempts as the limit of its job allows, and at most one without a job.\<close>

theorem attempts_bounded:
  assumes "server_reachable encode db" "t \<in> set (ct_tasks db)"
  shows "int (length (filter (\<lambda>a. a_task a = t_id t) (ct_attempts db))) \<le> task_limit db t"
proof -
  note inv = reachable_core_inv [OF assms(1)]
  let ?as = "filter (\<lambda>a. a_task a = t_id t) (ct_attempts db)"
  have d: "distinct (map (\<lambda>a. (a_task a, a_generation a)) (ct_attempts db))"
    using inv by (simp add: core_inv_def life_inv_def comp_def)
  have "distinct (map (\<lambda>a. (a_task a, a_generation a)) ?as)" using d by (rule distinct_map_filter)
  then have dg: "distinct (map a_generation ?as)" by (auto simp: distinct_map inj_on_def)
  have "a_generation a \<in> {1..task_limit db t}" if a: "a \<in> set ?as" for a
  proof -
    obtain u where u: "u \<in> set (ct_tasks db)" "t_id u = a_task a" "a_generation a \<le> t_generation u" and "1 \<le> a_generation a"
      using inv_rows(4) [OF inv] a by (fastforce simp: attempt_ok_def)
    moreover have "u = t" using task_unique [OF inv u(1) assms(2)] u(2) a by simp
    moreover have "t_generation t \<le> task_limit db t" using row_ok [OF inv assms(2)] by (simp add: task_ok_def task_limit_def)
    ultimately show ?thesis by simp
  qed
  then have "card (set (map a_generation ?as)) \<le> card {1..task_limit db t}" by (intro card_mono) auto
  moreover have "1 \<le> task_limit db t" by (simp add: task_limit_def)
  ultimately show ?thesis using distinct_card [OF dg] by simp
qed

text \<open>C35: the rows are well typed in every reachable database: a task is in one of the states of the schema, it waits without an attempt and below
  its limit, it is active with an attempt that is not released, and an attempt is released exactly when it has a final hash.\<close>

theorem rows_well_typed:
  assumes "server_reachable encode db"
  shows "(\<forall>t\<in>set (ct_tasks db). t_state t \<in> {''QUEUED'', ''STARTING'', ''RUNNING'', ''VERIFYING'', ''CANCELING'', ''RECONCILING'',
      ''SUCCEEDED'', ''FAILED'', ''CANCELED''}
      \<and> 0 \<le> t_generation t \<and> t_generation t \<le> task_limit db t
      \<and> (t_state t = ''QUEUED'' \<longrightarrow> t_attempt t = [] \<and> t_generation t < task_limit db t)
      \<and> (t_state t \<in> active_states \<longrightarrow> (\<exists>a\<in>set (ct_attempts db). a_id a = t_attempt t \<and> a_task a = t_id t \<and> \<not> a_released a)))
    \<and> (\<forall>a\<in>set (ct_attempts db). a_id a \<noteq> [] \<and> 1 \<le> a_generation a \<and> (a_released a \<longleftrightarrow> a_final_hash a \<noteq> []))"
proof (intro conjI ballI)
  note inv = reachable_core_inv [OF assms]
  fix t assume t: "t \<in> set (ct_tasks db)"
  note ok = row_ok [OF inv t, unfolded task_ok_def]
  show "t_state t \<in> {''QUEUED'', ''STARTING'', ''RUNNING'', ''VERIFYING'', ''CANCELING'', ''RECONCILING'', ''SUCCEEDED'', ''FAILED'', ''CANCELED''}"
    using ok by (auto simp: active_states_def job_terminal_def)
  show "0 \<le> t_generation t" "t_generation t \<le> task_limit db t"
    "t_state t = ''QUEUED'' \<longrightarrow> t_attempt t = [] \<and> t_generation t < task_limit db t"
    using ok by (simp_all add: task_limit_def)
  show "t_state t \<in> active_states \<longrightarrow> (\<exists>a\<in>set (ct_attempts db). a_id a = t_attempt t \<and> a_task a = t_id t \<and> \<not> a_released a)"
    using ok by (auto simp: holds_attempt_def)
next
  note inv = reachable_core_inv [OF assms]
  fix a assume "a \<in> set (ct_attempts db)"
  then show "a_id a \<noteq> []" "1 \<le> a_generation a" "a_released a \<longleftrightarrow> a_final_hash a \<noteq> []"
    using inv_rows(4,5) [OF inv] by (auto simp: attempt_ok_def)
qed

text \<open>C36: once no task names an attempt any more (a retry or a manual retry replaced it), the attempt is fenced for ever: in every later
  database a call of its worker that identifies itself with it is refused as stale, whatever it presents.\<close>

theorem superseded_attempt_is_fenced:
  assumes "server_inv db" "(server_step encode)\<^sup>*\<^sup>* db db'" "a \<in> set (ct_attempts db)"
    "\<forall>t\<in>set (ct_tasks db). t_attempt t \<noteq> a_id a" "at_AttemptId ref = a_id a"
  shows "readAttemptIdentity w (Some ref) db' = Inl stale_attempt"
proof -
  have inv: "core_inv (cores db)" using assms(1) by (simp add: server_inv_def)
  have "superseded (lifecycle (cores db)) (a_id a)" using assms(3,4) by (auto simp: superseded_def image_image)
  then have "superseded (lifecycle (cores db')) (a_id a)"
    by (rule life_run_superseded [OF server_run_life(1) [OF assms(2) inv] core_life_inv [OF inv]])
  then have s: "\<forall>t\<in>set (ct_tasks db'). t_attempt t \<noteq> a_id a" unfolding superseded_def by (force simp: image_image)
  obtain a' where a': "a' \<in> set (ct_attempts db')" "attempt_evolves (attempt_core a) (attempt_core a')" by (rule run_attempt [OF assms(2) inv assms(3)])
  then obtain t where "t \<in> set (ct_tasks db')" "t_id t = a_task a'"
    using inv_rows(4) [OF server_run_life(2) [OF assms(2) inv]] by (auto simp: attempt_ok_def)
  then have "(a', t) \<in> set (attempts_with_tasks db')" "a_id a' = at_AttemptId ref"
    using a' assms(5) by (auto simp: attempts_with_tasks_def attempt_evolves_def)
  then obtain b u where "select_row (\<lambda>(a, t). a_id a = at_AttemptId ref) (attempts_with_tasks db') = Inr (b, u)"
      "(b, u) \<in> set (attempts_with_tasks db')"
    using select_row_exists [of "(a', t)" "attempts_with_tasks db'" "\<lambda>(a, t). a_id a = at_AttemptId ref"] by auto
  moreover from this(2) have "t_attempt u \<noteq> at_AttemptId ref" using s assms(5) by (auto simp: attempts_with_tasks_def)
  ultimately show ?thesis by (simp add: readAttemptIdentity_def Let_def attempt_view_def)
qed

text \<open>C37: the completion of an attempt is decided once: after it was released, a later completion call for it, with any content, changes nothing.\<close>

theorem completion_is_sealed:
  assumes "server_reachable encode db" "(server_step encode)\<^sup>*\<^sup>* db db'" "a \<in> set (ct_attempts db)" "a_released a"
    "cr_Attempt r = Some ref" "at_AttemptId ref = a_id a"
  shows "snd (CompleteAttempt enc encr rid ctx r now db') = db'"
proof -
  note inv0 = reachable_core_inv [OF assms(1)]
  note inv = server_run_life(2) [OF assms(2) inv0]
  obtain a' where a': "a' \<in> set (ct_attempts db')" "attempt_evolves (attempt_core a) (attempt_core a')" by (rule run_attempt [OF assms(2) inv0 assms(3)])
  then have ar: "a_id a' = a_id a" "a_released a'" using assms(4) by (simp_all add: attempt_evolves_def)
  have "d = db'" if c: "complete_tx enc rid hash w r now db' = Inr d" for hash w d
  proof -
    obtain v where v: "readAttemptIdentity w (cr_Attempt r) db' = Inr v" using c by (auto simp: complete_tx_def rbind_eq_Inr_iff)
    obtain rf b t where b: "cr_Attempt r = Some rf" "b \<in> set (ct_attempts db')" "a_id b = at_AttemptId rf" "v = attempt_view b t db'"
      by (rule identity_rows [OF v]) blast
    have "b = a'" using attempt_unique [OF inv b(2) a'(1)] b(1,3) ar(1) assms(5,6) by simp
    then have "aw_finalHash v \<noteq> []" using inv_rows(5) [OF inv] a'(1) ar(2) b(4) by (simp add: attempt_view_def)
    then show ?thesis using c v by (auto simp: complete_tx_def Let_def split: if_split_asm)
  qed
  then show ?thesis by (auto simp: CompleteAttempt_def split: sum.splits)
qed

section \<open>Success\<close>

text \<open>Only the task \<open>i\<close> may differ.\<close>

definition only_task :: "string \<Rightarrow> Cores \<Rightarrow> Cores \<Rightarrow> bool" where
  "only_task i c c' \<longleftrightarrow> (\<forall>q\<in>set (kt c'). q_id q \<noteq> i \<longrightarrow> q \<in> set (kt c))"

lemma only_task_on_task: "(\<And>q. q_id (f q) = q_id q) \<Longrightarrow> only_task i c (on_task i f c)"
  by (auto simp: only_task_def kt_on_task in_update_where_iff split: if_splits)

lemma only_task_refl [simp]: "only_task i c c"
  by (simp add: only_task_def)

lemma only_task_trans: "only_task i a b \<Longrightarrow> only_task i b c \<Longrightarrow> only_task i a c"
  by (auto simp: only_task_def)

lemma only_task_row:
  assumes "only_task i (cores db) (cores db')" "core_inv (cores db)" "t \<in> set (ct_tasks db)" "t' \<in> set (ct_tasks db')" "t_id t' = t_id t"
    "t_state t' \<noteq> t_state t"
  shows "t_id t = i"
proof (rule ccontr)
  assume "t_id t \<noteq> i"
  then have "queue_core t' \<in> set (kt (cores db))" using assms(1,4,5) by (auto simp: only_task_def)
  then obtain u where "u \<in> set (ct_tasks db)" "queue_core t' = queue_core u" by auto
  then show False using task_unique [OF assms(2) _ assms(3)] assms(5,6) by (metis core_selectors(1,3))
qed

lemma on_task_state:
  assumes "c = on_task i f d" "q \<in> set (kt c)" "q_id q = i" "\<And>q. q_id (f q) = q_id q"
  shows "\<exists>q'. q = f q'"
  using assms by (auto simp: kt_on_task in_update_where_iff split: if_splits)

lemma settled_only: "settled u state d c \<Longrightarrow> only_task (t_id u) (cores d) c"
  by (auto simp: settled_def only_task_def kt_on_task in_update_where_iff requeued_def simp del: cores_simps split: if_splits)

lemma settled_state:
  assumes "settled u state d (cores db')" "t' \<in> set (ct_tasks db')" "t_id t' = t_id u"
  shows "t_state t' = state \<or> t_state t' = ''QUEUED''"
proof -
  have q: "queue_core t' \<in> set (kt (cores db'))" using assms(2) by simp
  from assms(1) consider f where "cores db' = on_task (t_id u) f (seal (t_attempt u) (cores d))" "f = (\<lambda>q. q\<lparr>q_state := state\<rparr>) \<or> f = requeued"
    unfolding settled_def by blast
  then show ?thesis
  proof cases
    case (1 f)
    have "q_id (f x) = q_id x" for x using 1(2) by (auto simp: requeued_def)
    then obtain x where x: "queue_core t' = f x" using on_task_state [OF 1(1) q] assms(3) by auto
    have "t_state t' = q_state (f x)" using arg_cong [OF x, of q_state] by simp
    then show ?thesis using 1(2) by (auto simp: requeued_def)
  qed
qed

lemma verifying_only:
  assumes "verifying i c d"
  shows "only_task i c d"
proof -
  let ?f = "\<lambda>q. q\<lparr>q_state := ''VERIFYING''\<rparr>"
  have k: "kt (x\<lparr>kr := []\<rparr>) = kt x" for x :: Cores by simp
  have "kt (d\<lparr>kr := []\<rparr>) = kt (c\<lparr>kr := []\<rparr>) \<or> kt (d\<lparr>kr := []\<rparr>) = kt (on_task i ?f (c\<lparr>kr := []\<rparr>))"
    using assms unfolding verifying_def by (rule disj_forward) (simp only:)+
  then show ?thesis unfolding k kt_on_task by (auto simp: only_task_def in_update_where_iff split: if_split_asm)
qed

text \<open>A confirmed completion that makes a task succeed does so for the task of its own attempt, with the outcome \<open>SUCCEEDED\<close>.\<close>

lemma complete_tx_success:
  assumes run: "complete_tx enc rid hash w r now db = Inr db'" and hash: "hash \<noteq> []" and inv: "core_inv (cores db)"
    and t: "t \<in> set (ct_tasks db)" "t_state t \<noteq> ''SUCCEEDED''"
    and t': "t' \<in> set (ct_tasks db')" "t_id t' = t_id t" "t_state t' = ''SUCCEEDED''"
  obtains rf a code msg where "cr_Attempt r = Some rf" "a \<in> set (ct_attempts db)" "a_task a = t_id t" "a_id a = at_AttemptId rf" "t_attempt t = a_id a"
    "t_generation t = a_generation a" "a_generation a = at_Generation rf" "a_worker a = w" "a_token a = at_LeaseToken rf" "a_final_hash a = []"
    "worker_epoch w db \<noteq> []" "epoch_changed (attempt_view a t db) \<or> a_worker_seq a = cr_FinalWorkerSeq r" "cr_CleanupConfirmed r"
    "list_all (\<lambda>i. staged_for (attempt_view a t db) (a_id a) i db) (cr_ArtifactIds r)"
    "complete_outcome r (attempt_view a t db) t now db = Inr (''SUCCEEDED'', code, msg)"
    "complete_confirmed enc rid hash r (attempt_view a t db) (a_id a) t now db = Inr db'"
proof -
  obtain v where v: "readAttemptIdentity w (cr_Attempt r) db = Inr v" using run by (auto simp: complete_tx_def rbind_eq_Inr_iff)
  obtain rf a u where ref: "cr_Attempt r = Some rf" and a: "a \<in> set (ct_attempts db)" and u: "u \<in> set (ct_tasks db)" "t_id u = a_task a"
    and i: "a_id a = at_AttemptId rf" "t_attempt u = a_id a" "t_generation u = a_generation a" "a_generation a = at_Generation rf"
      "a_worker a = w" "a_token a = at_LeaseToken rf" and ve: "v = attempt_view a u db"
    by (rule identity_rows [OF v])
  have aw: "aw_task v = t_id u" "aw_finalHash v = a_final_hash a" "aw_generation v = t_generation u" "aw_currentEpoch v = worker_epoch w db" "aw_seq v = a_worker_seq a"
    using ve u(2) i(3,5) by (simp_all add: attempt_view_def)
  have "db' \<noteq> db" using task_unique [OF inv _ t(1)] t t' by metis
  have "select_row (\<lambda>x. t_id x = t_id u) (ct_tasks db) = Inr u"
    using select_row_exists [OF u(1), of "\<lambda>x. t_id x = t_id u"] task_unique [OF inv _ u(1)] by auto
  then have fh: "a_final_hash a = []" "worker_epoch w db \<noteq> []" "epoch_changed v \<or> a_worker_seq a = cr_FinalWorkerSeq r"
    and c: "\<not> cr_CleanupConfirmed r \<and> setState enc (t_id u) ''RECONCILING'' ''CLEANUP_UNCONFIRMED'' ''worker could not prove cleanup'' now db = Inr db'
        \<or> cr_CleanupConfirmed r \<and> complete_confirmed enc rid hash r v (a_id a) u now db = Inr db'"
    using run v \<open>db' \<noteq> db\<close> ref i(1) by (auto simp: complete_tx_def aw Let_def split: if_split_asm)
  from c show thesis
  proof (elim disjE conjE)
    assume s: "setState enc (t_id u) ''RECONCILING'' ''CLEANUP_UNCONFIRMED'' ''worker could not prove cleanup'' now db = Inr db'"
    have d: "cores db' = cores db \<or> cores db' = on_task (t_id u) (\<lambda>q. q\<lparr>q_state := ''RECONCILING''\<rparr>) (cores db)"
      by (rule setState_effect [OF s]) (auto dest: frame_cores)
    then have o: "only_task (t_id u) (cores db) (cores db')" by (elim disjE) (simp_all add: only_task_on_task)
    have ne: "t_state t' \<noteq> t_state t" using t t' by simp
    have "t_id t = t_id u" by (rule only_task_row [OF o inv t(1) t'(1,2) ne])
    moreover have "cores db' \<noteq> cores db" using only_task_row [OF _ inv t(1) t'(1,2) ne, of "CHR ''x'' # t_id t"] by auto
    ultimately have ids: "cores db' = on_task (t_id u) (\<lambda>q. q\<lparr>q_state := ''RECONCILING''\<rparr>) (cores db)" "q_id (queue_core t') = t_id u"
      using d t'(2) by simp_all
    have "queue_core t' \<in> set (kt (cores db'))" using t'(1) by simp
    then obtain x where x: "queue_core t' = x\<lparr>q_state := ''RECONCILING''\<rparr>" using on_task_state [OF ids(1) _ ids(2)] by auto
    have "t_state t' = ''RECONCILING''" using arg_cong [OF x, of q_state] by simp
    with t'(3) show thesis by simp
  next
    assume k: "cr_CleanupConfirmed r" and cc: "complete_confirmed enc rid hash r v (a_id a) u now db = Inr db'"
    obtain state code msg d x where o: "complete_outcome r v u now db = Inr (state, code, msg)" and qd: "core_inv (cores d)"
      and vd: "verifying (t_id u) (cores db) (cores d)" and x: "x \<in> set (ct_tasks d)" "t_id x = t_id u" and se: "settled x state d (cores db')"
      by (rule complete_confirmed_settles [OF cc hash inv u(1) i(2) aw(3) [symmetric] a refl fh(1) u(2) [symmetric]])
    have only: "only_task (t_id u) (cores db) (cores db')" using only_task_trans [OF verifying_only [OF vd]] settled_only [OF se] x(2) by simp
    have tu: "t_id t = t_id u" by (rule only_task_row [OF only inv t(1) t'(1,2)]) (use t t' in simp)
    then have "t = u" using task_unique [OF inv t(1) u(1)] by simp
    have "state = ''SUCCEEDED''" using settled_state [OF se t'(1)] t'(2,3) tu x(2) by simp
    moreover have "list_all (\<lambda>i. staged_for v (a_id a) i db) (cr_ArtifactIds r)" using cc by (auto simp: complete_confirmed_def split: if_split_asm)
    ultimately show thesis using that [OF ref a] i u(2) fh k o cc ve \<open>t = u\<close> by simp
  qed
qed

text \<open>C1: a task succeeds only by a confirmed completion of its current attempt: the caller is the worker that holds the attempt, with its lease
  token and generation, the worker process is still the one the attempt was given to, the lease has not run out, all events are committed, the job
  still allows execution, the task is not being stopped, and every artifact named is staged for this attempt.\<close>

theorem success_is_earned:
  assumes reach: "server_reachable encode db" and run: "CompleteAttempt enc encr rid (Some p) r now db = (answer, db')"
    and t: "t \<in> set (ct_tasks db)" "t_state t \<noteq> ''SUCCEEDED''"
    and t': "t' \<in> set (ct_tasks db')" "t_id t' = t_id t" "t_state t' = ''SUCCEEDED''"
  shows "pr_Worker p \<and> cr_Success r \<and> cr_CleanupConfirmed r \<and> cr_ArtifactIds r \<noteq> []
    \<and> t_state t \<notin> {''CANCELING'', ''RECONCILING''} \<and> jobAllowsExecution (t_id t) now db
    \<and> (\<exists>ref a. cr_Attempt r = Some ref \<and> a \<in> set (ct_attempts db) \<and> a_id a = at_AttemptId ref \<and> a_task a = t_id t \<and> t_attempt t = a_id a
      \<and> t_generation t = a_generation a \<and> a_generation a = at_Generation ref \<and> a_token a = at_LeaseToken ref
      \<and> a_worker a = id_WorkerID (pr_Identity p) \<and> worker_epoch (a_worker a) db = a_epoch a \<and> \<not> a_released a \<and> now < a_lease_until a
      \<and> a_worker_seq a = cr_FinalWorkerSeq r
      \<and> (\<forall>i\<in>set (cr_ArtifactIds r). \<exists>x\<in>set (ct_artifacts db). af_id x = i \<and> af_attempt x = a_id a \<and> af_generation x = a_generation a \<and> af_state x = ''STAGED''))"
proof -
  note inv = reachable_core_inv [OF reach]
  let ?w = "id_WorkerID (pr_Identity p)"
  have "db' \<noteq> db" using task_unique [OF inv _ t(1)] t t' by metis
  then have w: "pr_Worker p" and c: "complete_tx enc rid (Hash (encr r)) ?w r now db = Inr db'"
    using run by (auto simp: CompleteAttempt_def WorkerCaller_def split: if_split_asm sum.split_asm)
  obtain rf a code msg where ref: "cr_Attempt r = Some rf" and a: "a \<in> set (ct_attempts db)" "a_task a = t_id t" "a_id a = at_AttemptId rf" "t_attempt t = a_id a"
      "t_generation t = a_generation a" "a_generation a = at_Generation rf" "a_worker a = ?w" "a_token a = at_LeaseToken rf" "a_final_hash a = []"
    and e: "worker_epoch ?w db \<noteq> []" "epoch_changed (attempt_view a t db) \<or> a_worker_seq a = cr_FinalWorkerSeq r"
    and k: "cr_CleanupConfirmed r" and st: "list_all (\<lambda>i. staged_for (attempt_view a t db) (a_id a) i db) (cr_ArtifactIds r)"
    and o: "complete_outcome r (attempt_view a t db) t now db = Inr (''SUCCEEDED'', code, msg)"
    and "complete_confirmed enc rid (Hash (encr r)) r (attempt_view a t db) (a_id a) t now db = Inr db'"
    by (rule complete_tx_success [OF c Hash_not_Nil inv t t'])
  have o': "t_state t \<noteq> ''CANCELING''" "t_state t \<noteq> ''RECONCILING''" "\<not> epoch_changed (attempt_view a t db)" "now < a_lease_until a"
      "jobAllowsExecution (t_id t) now db" "cr_Success r" "cr_ArtifactIds r \<noteq> []"
    using o a(2) by (auto simp: complete_outcome_def attempt_view_def split: if_split_asm)
  have ep: "worker_epoch (a_worker a) db = a_epoch a" using o'(3) e(1) a(7) by (auto simp: epoch_changed_def attempt_view_def)
  have rel: "\<not> a_released a" using inv_rows(5) [OF inv] a(1,9) by blast
  have "\<exists>x\<in>set (ct_artifacts db). af_id x = i \<and> af_attempt x = a_id a \<and> af_generation x = a_generation a \<and> af_state x = ''STAGED''"
    if i: "i \<in> set (cr_ArtifactIds r)" for i
  proof -
    have "count_where (\<lambda>x. af_id x = i \<and> af_attempt x = a_id a \<and> af_generation x = a_generation a \<and> af_state x = ''STAGED'') (ct_artifacts db) \<noteq> 0"
      using st i by (auto simp: list_all_iff staged_for_def attempt_view_def)
    then show ?thesis by (auto simp: count_where_def filter_empty_conv)
  qed
  then show ?thesis using w k ref a e(2) o' ep rel by auto
qed

text \<open>C38: a run of the server is a run of the control plane, so what is shown of control operations and approvals holds with tasks, jobs and
  workers running around them.\<close>

theorem server_runs_control_plane:
  assumes "server_reachable encode db" "(server_step encode)\<^sup>*\<^sup>* db db'"
  shows "(control_step encode)\<^sup>*\<^sup>* db db' \<and> control_inv db'"
  using server_run_implements [OF assms(2)] reachable_core_inv [OF assms(1)] control_run_inv [of encode db db']
    server_system.reachable_inv [OF assms(1)] by (auto simp: implements_def server_inv_def)

end
