(* ===== verification/Server_Run.thy ===== *)
theory Server_Run
  imports Task_Safety
begin

text \<open>
  A run of the server, evaluated step by step: a task is submitted, given to a worker, and completed with a failure. The
  properties of the server are applied to its states.
\<close>

section \<open>The parties\<close>

definition run_config :: ServerConfig where
  "run_config = \<lparr>cf_Maintenance = False, cf_Models = [], cf_Credentials = [(''k'', 1)], cf_MaxProjectTasks = 4, cf_LeaseSeconds = 30,
    cf_ScoreEnabled = False, cf_PublicExecutionMode = [], cf_GatewayEnabled = False, cf_GatewayPublicBaseURL = [], cf_GatewayRoutes = [],
    cf_CredentialRoutes = [], cf_JobsEnabled = True, cf_MaxPartitions = 8, cf_MaxParallelism = 8, cf_MaxRequestBytes = 1000,
    cf_MaxManifestBytes = 1000, cf_MaxReduceInputBytes = 1000, cf_MaxTotalRuntimeSeconds = 1000, cf_MaxDeadlineExtendSeconds = 1000,
    cf_MaxTaskEvents = 100, cf_SchedulerAgingSeconds = 60, cf_MaxQueuedTasks = 4, cf_MaxQueuedTasksPerProject = 4, cf_Templates = []\<rparr>"

definition run_spec :: TaskSpec where
  "run_spec = \<lparr>ts_ProjectId = ''p'', ts_IdempotencyKey = ''i'', ts_Engine = [], ts_RuntimeProfile = ''rp'', ts_Model = ''m'', ts_CredentialRef = ''k'',
    ts_RepositoryRef = ''repo'', ts_BaseCommit = ''c'', ts_IsolationProfile = ''trusted-worktree-process'', ts_InputText = ''do'',
    ts_PolicyRef = ''r'', ts_AcceptanceProfile = ''x'', ts_TimeoutSeconds = 60, ts_Priority = 0, ts_RequiredCapabilities = []\<rparr>"

definition run_request :: TaskRequest where
  "run_request = TaskSpec.extend run_spec \<lparr>tq_HasInput = True, tq_HasWorkspace = True, tq_SessionRef = [], tq_ProviderRef = []\<rparr>"

definition run_peer :: session where
  "run_peer = \<lparr>ss_WorkerId = ''w'', ss_Epoch = ''e'', ss_Slots = 1,
    ss_Runtimes = [\<lparr>ru_Profile = ''rp'', ru_Models = [''m''], ru_Credentials = [''k''], ru_Capabilities = [], ru_Repositories = [''repo''],
      ru_Policies = [''r''], ru_Verifiers = [''x''], ru_TemplateDigests = []\<rparr>],
    ss_Projects = [''p''], ss_Readiness = None, ss_ReadinessReceived = 0\<rparr>"

definition run_draw :: Draw where
  "run_draw = \<lparr>dw_attempt = ''a'', dw_token = ''tok'', dw_command = ''c1''\<rparr>"

definition run_completion :: CompleteRequest where
  "run_completion = \<lparr>cr_Attempt = Some \<lparr>at_AttemptId = ''a'', at_Generation = 1, at_LeaseToken = ''tok''\<rparr>, cr_FinalWorkerSeq = 0, cr_Success = False,
    cr_CleanupConfirmed = True, cr_ErrorCode = ''RUNTIME_FAILED'', cr_ErrorMessage = [], cr_Result = [], cr_NativeSessionId = [], cr_ArtifactIds = []\<rparr>"

section \<open>The states\<close>

text \<open>The artifact that the worker uploads for its attempt.\<close>

abbreviation run_file :: string where
  "run_file \<equiv> ''0123456789abcdef0123456789abcdef''"

definition run_artifact :: "string \<Rightarrow> int \<Rightarrow> int \<Rightarrow> ArtifactRow" where
  "run_artifact state updated gc = \<lparr>af_id = run_file, af_task = ''t'', af_attempt = ''a'', af_generation = 1, af_kind = ''log'', af_hash = Hash ''x'', af_size = 1,
    af_path = run_file, af_state = state, af_created = 1, af_updated = updated, af_gc_after = gc, af_deleted_at = 0\<rparr>"

definition run0 :: ControlDB where
  "run0 = empty_control_db\<lparr>ct_workers := [\<lparr>wk_id = ''w'', wk_epoch = ''e'', wk_seen = 0\<rparr>]\<rparr>"

definition run_event :: "int \<Rightarrow> string \<Rightarrow> string \<Rightarrow> json \<Rightarrow> EventRow" where
  "run_event n a kind payload = \<lparr>e_task = ''t'', e_seq = n, e_attempt = a, e_worker_seq = None, e_id = None, e_hash = Hash [],
    e_type = kind, e_payload = Some payload\<rparr>"

definition run_task :: "int \<Rightarrow> int \<Rightarrow> TaskRow" where
  "run_task n now = (new_task ''t'' ''ann'' ''p'' ''i'' [] run_spec 60000 0)\<lparr>t_seq := n, t_updated := now\<rparr>"

definition run1 :: ControlDB where
  "run1 = run0\<lparr>ct_tasks := [run_task 1 0], ct_events := [run_event 1 [] ''task.state_changed'' (JObj [(''to'', JStr ''QUEUED'')])]\<rparr>"

definition run_assigned :: TaskRow where
  "run_assigned = (run_task 3 1)\<lparr>t_attempt := ''a'', t_worker := ''w'', t_generation := 1, t_state := ''STARTING''\<rparr>"

definition run_attempt :: "bool \<Rightarrow> string \<Rightarrow> AttemptRow" where
  "run_attempt released hash = \<lparr>a_id = ''a'', a_task = ''t'', a_worker = ''w'', a_epoch = ''e'', a_generation = 1, a_token = ''tok'', a_lease_until = 30001,
    a_released = released, a_final_hash = hash, a_worker_seq = 0, a_last_renewed = 1, a_model_token = None\<rparr>"

definition run_command :: "bool \<Rightarrow> CommandRow" where
  "run_command acked = \<lparr>cm_id = ''c1'', cm_task = ''t'', cm_attempt = ''a'', cm_worker = ''w'', cm_kind = ''start'', cm_control = None,
    cm_assignment = Some \<lparr>as_TaskId = ''t'', as_AttemptId = ''a'', as_Generation = 1, as_LeaseToken = ''tok'', as_LeaseTtlMs = 30000,
      as_DeadlineMs = 60000, as_Spec = Some run_spec, as_Job = None, as_Gateway = None, as_RuntimeBudget = None\<rparr>, cm_acked = acked\<rparr>"

definition run_observed :: json where
  "run_observed = scheduler_json run_config run_peer (selected_observation run_config run_spec 1 run1 run_peer)
    (observations run_config run_spec 1 run1 [(run_peer, ''ELIGIBLE'')]) 1"

definition run_given :: ControlDB where
  "run_given = run1\<lparr>ct_tasks := [run_assigned], ct_attempts := [run_attempt False []], ct_commands := [run_command False],
    ct_events := ct_events run1 @ [run_event 2 [] ''task.state_changed'' (state_json ''QUEUED'' ''STARTING'' [] []),
      run_event 3 ''a'' ''scheduler.observation'' run_observed]\<rparr>"

definition run_upload :: Artifact where
  "run_upload = \<lparr>ar_ArtifactId = run_file, ar_TaskId = ''t'', ar_AttemptId = ''a'', ar_Kind = ''log'', ar_Sha256 = Hash ''x'', ar_Size = 1\<rparr>"

definition run2 :: ControlDB where
  "run2 = run_given\<lparr>ct_artifacts := [run_artifact ''STAGED'' 1 0]\<rparr>"

definition run_failed :: TaskRow where
  "run_failed = run_assigned\<lparr>t_state := ''FAILED'', t_error_code := ''RUNTIME_FAILED'', t_seq := 5, t_updated := 2\<rparr>"

definition run3 :: ControlDB where
  "run3 = run2\<lparr>ct_tasks := [run_failed], ct_artifacts := [run_artifact ''ORPHANED'' 2 (2 + artifactOrphanRetentionMS)], ct_attempts := [run_attempt True ''h''], ct_commands := [run_command True],
    ct_events := ct_events run2 @ [run_event 4 ''a'' ''attempt.completed''
        (JObj [(''artifact_ids'', JNull), (''cleanup_confirmed'', JBool True), (''success'', JBool False)]),
      run_event 5 [] ''task.completed'' (state_json ''STARTING'' ''FAILED'' ''RUNTIME_FAILED'' [])]\<rparr>"

section \<open>The steps\<close>

lemmas run_defs = run_config_def run_spec_def run_peer_def run_draw_def run_completion_def run_event_def run_task_def run_assigned_def
  run_attempt_def run_command_def run_failed_def run_artifact_def new_task_def

lemmas table_defs = insert_row_def select_row_def update_where_def count_where_def event_conflict_def Let_def

lemma run_submits: "submit_tx (\<lambda>_. []) run_config example_principal run_request [] ''t'' 0 run0 = Inr ((''t'', False), run1)"
  by (simp add: submit_tx_def run0_def run1_def run_defs run_request_def table_defs empty_control_db_def checkQueueAdmission_def insert_task_def
      job_known_def appendEvent_def server_event_def save_dedup_def TaskSpec.defs example_principal_def)

lemma run1_tables [simp]:
  "ct_tasks run1 = [run_task 1 0]" "ct_attempts run1 = []" "ct_jobs run1 = []" "ct_commands run1 = []"
  "ct_workers run1 = [\<lparr>wk_id = ''w'', wk_epoch = ''e'', wk_seen = 0\<rparr>]"
  "ct_events run1 = [run_event 1 [] ''task.state_changed'' (JObj [(''to'', JStr ''QUEUED'')])]"
  by (simp_all add: run1_def run0_def empty_control_db_def)

lemma run_candidates:
  "assign_candidates (candidate_reason run_config run_spec None [] [] 1 run1) [run_peer] = Inr [(run_peer, ''ELIGIBLE'')]"
  by (simp add: candidate_reason_def run_defs table_defs stale_worker_def fits_def fitsWithCapabilities_def runtime_serves_def active_on_def)

lemma run_choice:
  "choose_worker run_config (worker_loads run_config run_spec 1 run1 [(run_peer, ''ELIGIBLE'')]) [] = (Some ''w'', ''w'')"
proof -
  have "worker_loads run_config run_spec 1 run1 [(run_peer, ''ELIGIBLE'')] = [\<lparr>wl_peer = Some ''w'', wl_active = 0, wl_score = 0\<rparr>]"
    by (simp add: worker_loads_def active_on_def count_where_def run_config_def run_peer_def)
  moreover have "chooseLeastLoadedWorker [\<lparr>wl_peer = Some ''w'', wl_active = 0, wl_score = 0\<rparr>] [] = (Some ''w'', ''w'')" by code_simp
  ultimately show ?thesis by (simp add: choose_worker_def run_config_def)
qed

lemma run_dispatches:
  "dispatch_task (\<lambda>_. []) run_config run_draw (run_task 1 0) None None run_peer run_observed 1 run1 = Inr run_given"
  by (simp add: dispatch_task_def run_given_def run_defs table_defs insert_attempt_def new_attempt_def reserveGoalAttempt_def bindGateway_def
      new_assignment_def occupy_task_def setState_def appendEvent_def server_event_def setTaskStageState_def start_job_def save_dedup_def
      saveCommand_def job_terminal_def)

lemma run_assigns:
  "assign_tx (\<lambda>_ _ _ _. Inl Sql_no_rows) (\<lambda>_. []) run_config [run_peer] [] run_draw ''t'' 1 run1 = Inr (''w'', run_given)"
proof -
  have t: "t_id (run_task 1 0) = ''t''" "t_state (run_task 1 0) = ''QUEUED''" "t_job (run_task 1 0) = None" "t_deadline (run_task 1 0) = 60000"
    "t_retry_after (run_task 1 0) = 0" "t_spec (run_task 1 0) = run_spec" by (simp_all add: run_defs)
  have c: "capacity_blocker run_config run_spec run1 = None" "publicExecutionRequirements run_config run_spec = Some []"
    by (simp_all add: capacity_blocker_def publicExecutionRequirements_def unreleased_where_def attempts_with_tasks_def credential_slots_def run_config_def run_spec_def)
  have "assign_worker (\<lambda>_. []) run_config [run_peer] [] run_draw (run_task 1 0) None None [] 1 run1 = Inr (''w'', run_given)"
    using run_dispatches unfolding assign_worker_def Let_def t c option.case option.sel option.map run_candidates rbind_simps run_choice prod.case
    by (simp add: assign_chosen_def run_observed_def) (simp add: run_peer_def)
  then show ?thesis by (simp add: assign_tx_def select_row_def t assignmentJob_def job_gate_def)
qed

lemma run_stages: "register_tx ''w'' (cr_Attempt run_completion) run_upload 1 run_given = Inr run2"
  by (simp add: register_tx_def checkAttempt_def readAttemptIdentity_def run2_def run_given_def run1_def run0_def empty_control_db_def run_defs table_defs
      run_upload_def attempts_with_tasks_def attempt_view_def worker_epoch_def artifact_row_def)

lemma run_completes: "complete_tx (\<lambda>_. []) (\<lambda>_. []) ''h'' ''w'' run_completion 2 run2 = Inr run3"
proof -
  have v: "readAttemptIdentity ''w'' (cr_Attempt run_completion) run2 = Inr (attempt_view (run_attempt False []) run_assigned run2)"
    by (simp add: readAttemptIdentity_def run2_def run_given_def run_defs table_defs attempts_with_tasks_def attempt_view_def)
  show ?thesis
    unfolding complete_tx_def v
    by (simp add: complete_confirmed_def complete_outcome_def epoch_changed_def attempt_view_def worker_epoch_def jobAllowsExecution_def close_attempt_def settle_task_def planRetry_def
        resolveRuntimeSessionRef_def orphanStagedArtifacts_def recordBoundGoalAttemptUsage_def appendRetryExhausted_def no_retry_def
        retryableAttemptError_def setState_def appendEvent_def server_event_def save_dedup_def ids_json_def job_terminal_def
        run3_def run2_def run_given_def run1_def run0_def empty_control_db_def run_defs table_defs)
qed

text \<open>The other ending: the worker reports success with its artifact.\<close>

definition run_success :: CompleteRequest where
  "run_success = run_completion\<lparr>cr_Success := True, cr_ErrorCode := [], cr_ArtifactIds := [run_file]\<rparr>"

definition run_worker :: Principal where
  "run_worker = \<lparr>pr_ManagedKeyDigest = [], pr_Identity = (pr_Identity example_principal)\<lparr>id_WorkerID := ''w''\<rparr>, pr_Worker = True\<rparr>"

definition run_done :: TaskRow where
  "run_done = run_assigned\<lparr>t_state := ''SUCCEEDED'', t_seq := 6, t_updated := 2\<rparr>"

definition run4 :: ControlDB where
  "run4 = run2\<lparr>ct_tasks := [run_done], ct_attempts := [run_attempt True (Hash [])], ct_commands := [run_command True],
    ct_artifacts := [run_artifact ''ACCEPTED'' 2 0], ct_refs := [\<lparr>rf_artifact = run_file, rf_type = ''task_result'', rf_ref = ''t'', rf_created = 2\<rparr>],
    ct_events := ct_events run2 @ [run_event 4 [] ''task.state_changed'' (state_json ''STARTING'' ''VERIFYING'' [] []),
      run_event 5 ''a'' ''attempt.completed'' (JObj [(''artifact_ids'', json_strs [run_file]), (''cleanup_confirmed'', JBool True), (''success'', JBool True)]),
      run_event 6 [] ''task.completed'' (state_json ''VERIFYING'' ''SUCCEEDED'' [] [])]\<rparr>"

lemma run_succeeds: "complete_tx (\<lambda>_. []) (\<lambda>_. []) (Hash []) ''w'' run_success 2 run2 = Inr run4"
proof -
  have v: "readAttemptIdentity ''w'' (cr_Attempt run_success) run2 = Inr (attempt_view (run_attempt False []) run_assigned run2)"
    by (simp add: readAttemptIdentity_def run2_def run_given_def run_success_def run_defs table_defs attempts_with_tasks_def attempt_view_def)
  show ?thesis
    unfolding complete_tx_def v
    by (simp add: complete_confirmed_def complete_outcome_def epoch_changed_def attempt_view_def worker_epoch_def jobAllowsExecution_def close_attempt_def
        settle_task_def resolveRuntimeSessionRef_def orphanStagedArtifacts_def recordBoundGoalAttemptUsage_def publish_success_def acceptArtifact_def pinArtifactRef_def
        as_precondition_def enqueueGraphCandidates_def staged_for_def managed_def map_error_def run_success_def run_done_def
        setState_def appendEvent_def server_event_def save_dedup_def ids_json_def job_terminal_def
        run4_def run2_def run_given_def run1_def run0_def empty_control_db_def run_defs table_defs)
qed

section \<open>Reachability\<close>

lemma run_reachable:
  "server_reachable encode run1" "server_reachable encode run2" "server_reachable encode run3"
proof -
  have "server_reachable encode run0"
    by (rule reachable_init) (simp add: server_init_def control_init_def control_commands_def run0_def empty_control_db_def)
  then show r1: "server_reachable encode run1" by (rule reachable_step) (rule server_step.submit_task [OF run_submits])
  then have "server_reachable encode run_given" by (rule reachable_step) (rule server_step.assign_task [OF run_assigns], simp add: run_draw_def)
  then show r2: "server_reachable encode run2" by (rule reachable_step) (rule server_step.stage [OF run_stages])
  then show "server_reachable encode run3" by (rule reachable_step) (rule server_step.complete [OF run_completes], simp)
qed

lemma run_step: "server_step encode run2 run3"
  by (rule server_step.complete [OF run_completes]) simp

lemma run_rows [simp]:
  "ct_tasks run2 = [run_assigned]" "ct_attempts run2 = [run_attempt False []]" "ct_jobs run2 = []"
  "ct_tasks run3 = [run_failed]" "ct_attempts run3 = [run_attempt True ''h'']" "ct_jobs run3 = []"
  by (simp_all add: run2_def run_given_def run3_def)

lemma run_row_fields [simp]:
  "t_id run_assigned = ''t''" "t_state run_assigned = ''STARTING''" "t_attempt run_assigned = ''a''" "t_generation run_assigned = 1" "t_job run_assigned = None"
  "t_id run_failed = ''t''" "t_state run_failed = ''FAILED''" "t_attempt run_failed = ''a''" "t_generation run_failed = 1" "t_job run_failed = None"
  "a_id (run_attempt b h) = ''a''" "a_task (run_attempt b h) = ''t''" "a_generation (run_attempt b h) = 1" "a_released (run_attempt b h) = b"
  by (simp_all add: run_defs)

lemma run_limit [simp]: "task_limit run2 run_assigned = 1" "task_limit run3 run_failed = 1"
  by (simp_all add: task_limit_def limit_of_def)

section \<open>The properties at its states\<close>

theorem server_refines_lifecycle_witness:
  "life\<^sup>*\<^sup>* (lifecycle (cores run2)) (lifecycle (cores run3))"
  by (rule server_refines_lifecycle [OF run_reachable(2) run_step])

theorem one_live_attempt_witness:
  "\<exists>t\<in>set (ct_tasks run2). t_id t = ''t'' \<and> t_attempt t = ''a'' \<and> t_generation t = 1 \<and> t_state t \<in> active_states"
  using one_live_attempt [OF run_reachable(2), of "run_attempt False []"] by simp

theorem outcome_is_final_witness:
  "\<exists>t'\<in>set (ct_tasks run3). t_id t' = ''t'' \<and> t_state t' = ''FAILED'' \<and> t_attempt t' = ''a''"
  using outcome_is_final [OF run_reachable(3) rtranclp.rtrancl_refl, of run_failed] by simp

theorem attempts_bounded_witness:
  "int (length (filter (\<lambda>a. a_task a = ''t'') (ct_attempts run3))) \<le> 1"
  using attempts_bounded [OF run_reachable(3), of run_failed] by simp

theorem rows_well_typed_witness:
  "t_generation run_assigned \<le> task_limit run2 run_assigned \<and> (a_released (run_attempt True ''h'') \<longleftrightarrow> a_final_hash (run_attempt True ''h'') \<noteq> [])"
  using rows_well_typed [OF run_reachable(2)] rows_well_typed [OF run_reachable(3)] by simp

theorem completion_is_sealed_witness:
  "snd (CompleteAttempt (\<lambda>_. []) (\<lambda>_. []) (\<lambda>_. []) (Some \<lparr>pr_ManagedKeyDigest = [], pr_Identity = (pr_Identity example_principal)\<lparr>id_WorkerID := ''w''\<rparr>, pr_Worker = True\<rparr>)
    (run_completion\<lparr>cr_Success := True\<rparr>) 5 run3) = run3"
  by (rule completion_is_sealed [OF run_reachable(3) rtranclp.rtrancl_refl, where a = "run_attempt True ''h''" and ref = "the (cr_Attempt run_completion)"])
    (simp_all add: run_completion_def)

theorem server_runs_control_plane_witness:
  "(control_step (\<lambda>_ _. []))\<^sup>*\<^sup>* run2 run3 \<and> control_inv run3"
proof -
  have "(server_step (\<lambda>_ _. []))\<^sup>*\<^sup>* run2 run3" using run_step by blast
  then show ?thesis by (rule server_runs_control_plane [OF run_reachable(2)])
qed

theorem success_is_earned_witness:
  "CompleteAttempt (\<lambda>_. []) (\<lambda>_. []) (\<lambda>_. []) (Some run_worker) run_success 2 run2 = (Inr ''COMMITTED'', run4) \<and> t_state run_done = ''SUCCEEDED''
    \<and> (\<exists>a\<in>set (ct_attempts run2). a_worker a = ''w'' \<and> \<not> a_released a \<and> 2 < a_lease_until a)"
proof -
  have c: "CompleteAttempt (\<lambda>_. []) (\<lambda>_. []) (\<lambda>_. []) (Some run_worker) run_success 2 run2 = (Inr ''COMMITTED'', run4)"
    using run_succeeds by (simp add: CompleteAttempt_def WorkerCaller_def run_worker_def) (simp add: run_success_def run_completion_def)
  have d: "t_state run_done = ''SUCCEEDED''" "t_id run_done = ''t''" "ct_tasks run4 = [run_done]" by (simp_all add: run_done_def run4_def)
  have "id_WorkerID (pr_Identity run_worker) = ''w''" by (simp add: run_worker_def)
  with success_is_earned [OF run_reachable(2) c, of run_assigned run_done] c d show ?thesis by auto
qed

text \<open>A task of a job whose first attempt failed and is to be tried again.\<close>

definition retry_db :: ControlDB where
  "retry_db = example_control_db\<lparr>ct_tasks := [(run_task 5 2)\<lparr>t_job := Some ''j'', t_stage := ''single'', t_generation := 1\<rparr>],
    ct_attempts := [run_attempt True ''h'']\<rparr>"

lemma retry_db_inv: "server_inv retry_db"
proof -
  have "control_inv retry_db"
    by (rule control_system.inv_init) (simp add: control_init_def control_commands_def retry_db_def example_control_db_def empty_control_db_def)
  moreover have "core_inv (cores retry_db)"
    by (simp add: core_inv_def cores_def lifecycle_def life_inv_def known_def sealed_def task_ok_def attempt_ok_def holds_attempt_def task_view_def
        limit_of_def core_defs retry_db_def example_control_db_def empty_control_db_def example_job_spec_def run_defs)
  ultimately show ?thesis by (simp add: server_inv_def)
qed

theorem superseded_attempt_is_fenced_witness:
  "readAttemptIdentity ''w'' (Some \<lparr>at_AttemptId = ''a'', at_Generation = 1, at_LeaseToken = ''tok''\<rparr>) (worker_seen ''w'' ''e'' 3 retry_db) = Inl stale_attempt"
proof -
  have "(server_step (\<lambda>_ _. []))\<^sup>*\<^sup>* retry_db (worker_seen ''w'' ''e'' 3 retry_db)" using server_step.heartbeat by blast
  then show ?thesis
    by (rule superseded_attempt_is_fenced [OF retry_db_inv, where a = "run_attempt True ''h''"]) (simp_all add: retry_db_def run_defs)
qed

end
