(* ===== verification/Artifact_Safety.thy ===== *)
theory Artifact_Safety
  imports Server_Run
begin

text \<open>
  The database of the server together with the directory of artifacts. A server transaction leaves the directory alone; files are
  published under fresh names and removed when no row needs them. A row that an upload registers finds its file: the handler has just linked or
  compared it. Every row that is not being deleted then keeps its file with the size and digest it was registered with, whatever the server
  and the sweep do.
\<close>

section \<open>Files and rows\<close>

definition stored :: "files \<Rightarrow> ArtifactRow \<Rightarrow> bool" where
  "stored fs x \<longleftrightarrow> (\<exists>e. map_of fs (af_path x) = Some e \<and> \<not> en_dir e \<and> int (length (en_content e)) = af_size x \<and> Hash (en_content e) = af_hash x)"

definition row_of_attempt :: "ControlDB \<Rightarrow> ArtifactRow \<Rightarrow> bool" where
  "row_of_attempt db x \<longleftrightarrow> (\<exists>a\<in>set (ct_attempts db). a_id a = af_attempt x \<and> a_task a = af_task x)"

definition registered :: "ControlDB \<Rightarrow> files \<Rightarrow> ArtifactRow \<Rightarrow> bool" where
  "registered db fs x \<longleftrightarrow> af_path x = af_id x \<and> artifactID (af_id x) \<and> stored fs x \<and> row_of_attempt db x"

inductive file_step :: "(string \<Rightarrow> ControlCommand \<Rightarrow> string) \<Rightarrow> ControlDB \<times> files \<Rightarrow> ControlDB \<times> files \<Rightarrow> bool" for encode where
  server: "server_step encode db db' \<Longrightarrow> (\<And>x. x \<in> set (drop (length (ct_artifacts db)) (ct_artifacts db')) \<Longrightarrow> registered db' fs x)
    \<Longrightarrow> file_step encode (db, fs) (db', fs)"
| publish: "map_of fs name = None \<Longrightarrow> file_step encode (db, fs) (db, (name, e) # fs)"
| remove: "(\<And>x. x \<in> set (ct_artifacts db) \<Longrightarrow> af_path x = name \<Longrightarrow> af_state x = ''DELETING'' \<or> af_state x = ''DELETED'')
    \<Longrightarrow> file_step encode (db, fs) (db, remove_entry name fs)"

definition file_init :: "ControlDB \<times> files \<Rightarrow> bool" where
  "file_init s \<longleftrightarrow> server_init (fst s)"

definition file_inv :: "ControlDB \<times> files \<Rightarrow> bool" where
  "file_inv s \<longleftrightarrow> server_inv (fst s) \<and> (\<forall>x\<in>set (ct_artifacts (fst s)). row_of_attempt (fst s) x \<and> (af_state x \<noteq> ''DELETED'' \<longrightarrow> af_path x = af_id x)
    \<and> (af_state x \<noteq> ''DELETING'' \<and> af_state x \<noteq> ''DELETED'' \<longrightarrow> registered (fst s) (snd s) x))"

abbreviation file_reachable :: "(string \<Rightarrow> ControlCommand \<Rightarrow> string) \<Rightarrow> ControlDB \<times> files \<Rightarrow> bool" where
  "file_reachable encode \<equiv> reachable file_init (file_step encode)"

lemma map_of_remove_entry: "map_of (remove_entry name fs) n = (if n = name then None else map_of fs n)"
  by (induction fs) (auto simp: remove_entry_def)

lemma stored_publish: "stored fs x \<Longrightarrow> map_of fs name = None \<Longrightarrow> stored ((name, e) # fs) x"
  by (auto simp: stored_def)

lemma stored_remove: "stored fs x \<Longrightarrow> af_path x \<noteq> name \<Longrightarrow> stored (remove_entry name fs) x"
  by (simp add: stored_def map_of_remove_entry)

lemma stored_kept: "row_kept x y \<Longrightarrow> af_state y \<noteq> ''DELETED'' \<Longrightarrow> stored fs x \<Longrightarrow> stored fs y"
  by (auto simp: stored_def row_kept_def)

lemma server_step_shelf:
  assumes "server_step encode db db'" "server_inv db"
  shows "shelf (ct_artifacts db) (ct_artifacts db')"
  using server_step_implements [OF assms(1)] assms(2) by (simp add: implements_def sim_def server_inv_def)

lemma row_of_attempt_step:
  assumes "(server_step encode)\<^sup>*\<^sup>* db db'" "server_inv db" "row_of_attempt db x" "af_attempt y = af_attempt x" "af_task y = af_task x"
  shows "row_of_attempt db' y"
proof -
  obtain a where a: "a \<in> set (ct_attempts db)" "a_id a = af_attempt x" "a_task a = af_task x" using assms(3) by (auto simp: row_of_attempt_def)
  have "core_inv (cores db)" using assms(2) by (simp add: server_inv_def)
  then obtain a' where "a' \<in> set (ct_attempts db')" "attempt_evolves (attempt_core a) (attempt_core a')" by (rule run_attempt [OF assms(1) _ a(1)])
  then show ?thesis using a assms(4,5) by (auto simp: row_of_attempt_def attempt_evolves_def)
qed

lemma file_inv_step:
  assumes "file_inv s" "file_step encode s t"
  shows "file_inv t"
  using assms(2)
proof cases
  case (server db db' fs)
  have rows: "row_of_attempt db x \<and> (af_state x \<noteq> ''DELETED'' \<longrightarrow> af_path x = af_id x)
      \<and> (af_state x \<noteq> ''DELETING'' \<and> af_state x \<noteq> ''DELETED'' \<longrightarrow> registered db fs x)" if "x \<in> set (ct_artifacts db)" for x
    using assms(1) server(1) that by (auto simp: file_inv_def)
  have inv: "server_inv db" using assms(1) server(1) by (simp add: file_inv_def)
  have run: "(server_step encode)\<^sup>*\<^sup>* db db'" using server(3) by blast
  have "row_of_attempt db' y \<and> (af_state y \<noteq> ''DELETED'' \<longrightarrow> af_path y = af_id y)
      \<and> (af_state y \<noteq> ''DELETING'' \<and> af_state y \<noteq> ''DELETED'' \<longrightarrow> registered db' fs y)" if y: "y \<in> set (ct_artifacts db')" for y
    using shelf_back [OF server_step_shelf [OF server(3) inv] y]
  proof
    assume "\<exists>x\<in>set (ct_artifacts db). row_kept x y"
    then obtain x where x: "x \<in> set (ct_artifacts db)" "row_kept x y" ..
    have k: "af_id y = af_id x" "af_attempt y = af_attempt x" "af_task y = af_task x" "af_state y \<in> artifact_next (af_state x)"
      "af_state y \<noteq> ''DELETED'' \<Longrightarrow> af_path y = af_path x" using x(2) by (auto simp: row_kept_def)
    have "row_of_attempt db' y" using row_of_attempt_step [OF run inv _ k(2,3)] rows [OF x(1)] by blast
    moreover have "af_state x \<noteq> ''DELETING'' \<and> af_state x \<noteq> ''DELETED''" if "af_state y \<noteq> ''DELETING''" "af_state y \<noteq> ''DELETED''"
      using that k(4) by (auto simp: artifact_next_def split: if_split_asm)
    moreover have "af_state x \<noteq> ''DELETED''" if "af_state y \<noteq> ''DELETED''" using that k(4) by (auto simp: artifact_next_def split: if_split_asm)
    ultimately show ?thesis using rows [OF x(1)] stored_kept [OF x(2)] k by (auto simp: registered_def)
  qed (use server(4) in \<open>auto simp: registered_def\<close>)
  moreover have "server_inv db'" using server_system.inv_step [OF inv server(3)] .
  ultimately show ?thesis using server(2) by (simp add: file_inv_def)
next
  case (publish fs name db e)
  then show ?thesis using assms(1) stored_publish by (auto simp: file_inv_def registered_def)
next
  case (remove db name fs)
  then show ?thesis using assms(1) stored_remove by (fastforce simp: file_inv_def registered_def)
qed

interpretation file_system: step_system file_init "file_step encode" file_inv for encode
proof unfold_locales
  show "file_inv s" if "file_init s" for s
    using that server_system.inv_init [of "fst s"] by (auto simp: file_init_def file_inv_def server_init_def)
qed (rule file_inv_step)

section \<open>The handlers are runs\<close>

text \<open>An upload whose content is still published when its row is registered.\<close>

lemma publish_file_run:
  assumes "publish_file fault m content now fs = (answer, fs')" "matches m content"
  shows "(file_step encode)\<^sup>*\<^sup>* (db, fs) (db, fs')"
    and "answer = Inr () \<Longrightarrow> \<exists>e. map_of fs' (ar_ArtifactId m) = Some e \<and> \<not> en_dir e \<and> matches m (en_content e)"
  using assms by (auto simp: publish_file_def io_def split: option.split_asm sum.split_asm if_split_asm intro!: r_into_rtranclp file_step.publish)

lemma receive_content_ok:
  assumes "receive_content fault maxBytes worker first rest db = Inr (m, content)"
  shows "matches m content \<and> artifactID (ar_ArtifactId m)
    \<and> (\<exists>a\<in>set (ct_attempts db). a_id a = ar_AttemptId m \<and> a_task a = ar_TaskId m)"
proof -
  from assms obtain v where m: "matches m content" "metadata_ok maxBytes m" "checkAttempt worker (ch_Attempt first) db = Inr v"
      "ar_TaskId m = aw_task v" "ar_AttemptId m = at_AttemptId (the (ch_Attempt first))"
    by (auto simp: receive_content_def rbind_eq_Inr_iff split: option.split_asm if_split_asm)
  then obtain w where "readAttemptIdentity worker (ch_Attempt first) db = Inr v"
    by (auto simp: checkAttempt_def rbind_eq_Inr_iff split: if_split_asm)
  then obtain rf a t where "ch_Attempt first = Some rf" "a \<in> set (ct_attempts db)" "t_id t = a_task a" "a_id a = at_AttemptId rf" "v = attempt_view a t db"
    by (rule identity_rows) blast
  with m show ?thesis by (auto simp: metadata_ok_def attempt_view_def)
qed

lemma register_new:
  assumes "register_tx w ref m now db = Inr db'" "x \<in> set (drop (length (ct_artifacts db)) (ct_artifacts db'))"
  shows "\<exists>g. x = artifact_row m g now" "ct_attempts db' = ct_attempts db"
  using assms by (auto simp: register_tx_def rbind_eq_Inr_iff split: option.split_asm if_split_asm)

lemma UploadArtifact_run:
  assumes "UploadArtifact fault maxBytes ctx r rest now db db1 fs = (answer, db2, fs2)" "(server_step encode)\<^sup>*\<^sup>* db db1" "server_inv db"
  shows "(file_step encode)\<^sup>*\<^sup>* (db1, fs) (db2, fs2)"
proof (cases "rbind (WorkerCaller ctx) (\<lambda>p. rbind r (\<lambda>first.
        rbind (receive_content fault maxBytes (id_WorkerID (pr_Identity p)) first rest db) (\<lambda>(m, content). Inr (p, first, m, content))))")
  case (Inr x)
  then obtain p first m content where x: "x = (p, first, m, content)" and rc: "receive_content fault maxBytes (id_WorkerID (pr_Identity p)) first rest db = Inr (m, content)"
    by (auto simp: rbind_eq_Inr_iff)
  note ok = receive_content_ok [OF rc]
  obtain answer' fs' where pub: "publish_file fault m content now fs = (answer', fs')" by force
  note run = publish_file_run(1) [OF pub conjunct1 [OF ok]]
  show ?thesis
  proof (cases "fs2 = fs' \<and> db2 = db1")
    case False
    then have "answer' = Inr ()" and reg: "register_tx (id_WorkerID (pr_Identity p)) (ch_Attempt first) m now db1 = Inr db2" "fs2 = fs'"
      using assms(1) unfolding UploadArtifact_def Inr x by (auto simp: pub split: sum.split_asm)
    from publish_file_run(2) [OF pub conjunct1 [OF ok] this(1)] obtain e where e: "map_of fs' (ar_ArtifactId m) = Some e" "\<not> en_dir e" "matches m (en_content e)"
      by blast
    obtain a where a: "a \<in> set (ct_attempts db)" "a_id a = ar_AttemptId m" "a_task a = ar_TaskId m" using ok by blast
    have "registered db2 fs' y" if y: "y \<in> set (drop (length (ct_artifacts db1)) (ct_artifacts db2))" for y
    proof -
      obtain g where g: "y = artifact_row m g now" using register_new(1) [OF reg(1) y] by blast
      have "row_of_attempt db y" using a by (auto simp: row_of_attempt_def g artifact_row_def)
      from row_of_attempt_step [OF assms(2,3) this refl refl] register_new(2) [OF reg(1) y]
      show ?thesis using ok e by (auto simp: registered_def row_of_attempt_def stored_def g artifact_row_def matches_def)
    qed
    then have "file_step encode (db1, fs') (db2, fs')" by (rule file_step.server [OF server_step.stage [OF reg(1)]])
    then show ?thesis using run reg(2) by (meson rtranclp.rtrancl_into_rtrancl)
  qed (use run in simp)
qed (use assms(1) in \<open>simp add: UploadArtifact_def\<close>)

text \<open>A sweep, which may stop at any failure of the file system.\<close>

lemma in_expired: "i \<in> set (expired_orphans now db) \<Longrightarrow> \<exists>x\<in>set (ct_artifacts db). af_id x = i \<and> af_state x = ''ORPHANED''"
  by (auto simp: expired_orphans_def dest!: in_set_takeD)

lemma remove_file_run:
  assumes "remove_file fault name fs = Inr fs'"
    "\<And>x. x \<in> set (ct_artifacts db) \<Longrightarrow> af_path x = name \<Longrightarrow> af_state x = ''DELETING'' \<or> af_state x = ''DELETED''"
  shows "(file_step encode)\<^sup>*\<^sup>* (db, fs) (db, fs')"
  using assms by (auto simp: remove_file_def rbind_eq_Inr_iff split: if_split_asm intro!: r_into_rtranclp file_step.remove)

lemma same_length_step:
  assumes "server_step encode db db'" "length (ct_artifacts db') = length (ct_artifacts db)"
  shows "file_step encode (db, fs) (db', fs)"
  by (rule file_step.server [OF assms(1)]) (simp add: assms(2))

lemma mark_deleted_length: "mark_deleted i now db = Inr db' \<Longrightarrow> length (ct_artifacts db') = length (ct_artifacts db)"
  by (auto simp: mark_deleted_def Let_def update_where_def split: if_split_asm)

text \<open>The rows still to be deleted: the loop works off rows that are marked.\<close>

definition marked :: "ControlDB \<Rightarrow> string \<times> string \<Rightarrow> bool" where
  "marked db item \<longleftrightarrow> (\<exists>x\<in>set (ct_artifacts db). (af_id x, af_path x) = item \<and> af_state x = ''DELETING'')"

lemma marked_only:
  assumes "file_inv (db, fs)" "marked db (i, path)" "x \<in> set (ct_artifacts db)" "af_path x = path"
  shows "af_state x = ''DELETING'' \<or> af_state x = ''DELETED''"
proof (rule ccontr)
  assume n: "\<not> ?thesis"
  obtain y where y: "y \<in> set (ct_artifacts db)" "af_path y = path" "af_state y = ''DELETING''" using assms(2) by (auto simp: marked_def)
  have d: "distinct (map af_id (ct_artifacts db))" using assms(1) by (auto simp: file_inv_def server_inv_def core_inv_def)
  have "af_path x = af_id x" "af_path y = af_id y" using assms(1,3) n y by (auto simp: file_inv_def)
  then have "y = x" using d y(1,2) assms(3,4) by (auto simp: distinct_map inj_on_def)
  then show False using n y(3) by simp
qed

lemma mark_deleted_marked: "mark_deleted i now db = Inr db' \<Longrightarrow> marked db (j, path) \<Longrightarrow> j \<noteq> i \<Longrightarrow> marked db' (j, path)"
  by (force simp: mark_deleted_def Let_def marked_def in_update_where_iff split: if_split_asm)

lemma delete_items_run:
  assumes "delete_items fault now items (db, fs) = (answer, db', fs')" "file_inv (db, fs)" "list_all (marked db) items" "distinct (map fst items)"
  shows "(file_step encode)\<^sup>*\<^sup>* (db, fs) (db', fs')"
  using assms
proof (induction items arbitrary: db fs)
  case (Cons item items)
  obtain i path where item: "item = (i, path)" by force
  have m: "marked db (i, path)" using Cons.prems(3) item by simp
  show ?case
  proof (cases "(db', fs') = (db, fs)")
    case False
    then obtain fs1 where r: "artifactID path" "remove_file fault path fs = Inr fs1"
      using Cons.prems(1) unfolding item by (auto split: if_split_asm sum.split_asm)
    have run1: "(file_step encode)\<^sup>*\<^sup>* (db, fs) (db, fs1)" by (rule remove_file_run [OF r(2)]) (rule marked_only [OF Cons.prems(2) m])
    note inv1 = file_system.run_inv [OF run1 Cons.prems(2)]
    show ?thesis
    proof (cases "mark_deleted i now db")
      case (Inl e)
      then show ?thesis using Cons.prems(1) run1 r unfolding item by simp
    next
      case (Inr db1)
      have s: "file_step encode (db, fs1) (db1, fs1)" by (rule same_length_step [OF server_step.delete [OF Inr] mark_deleted_length [OF Inr]])
      have "list_all (marked db1) items" using Cons.prems(3,4) mark_deleted_marked [OF Inr] unfolding item list_all_iff by force
      then have "(file_step encode)\<^sup>*\<^sup>* (db1, fs1) (db', fs')"
        using Cons.IH [of db1 fs1] Cons.prems(1,4) r Inr file_inv_step [OF inv1 s] unfolding item by simp
      then show ?thesis using run1 s by (meson rtranclp.rtrancl_into_rtrancl rtranclp_trans)
    qed
  qed simp
qed simp

lemma stale_entry_unused:
  assumes "stale_entry name e now db" "file_inv (db, fs)" "x \<in> set (ct_artifacts db)" "af_path x = name"
  shows "af_state x = ''DELETING'' \<or> af_state x = ''DELETED''"
proof (rule ccontr)
  assume "\<not> ?thesis"
  then have x: "af_id x = name" "artifactID name" using assms(2-4) by (auto simp: file_inv_def registered_def)
  then have "\<not> prefix ''.upload-'' name"
    by (auto simp: artifactID_def hex_string_def prefix_def lower_hex_def digit_def in_bytes_def byte_def)
  then show False using assms(1,3) x by (auto simp: stale_entry_def list_ex_iff)
qed

lemma cleanup_entries_run:
  assumes "cleanup_entries fault now db es fs = (answer, fs')" "file_inv (db, fs)"
  shows "(file_step encode)\<^sup>*\<^sup>* (db, fs) (db, fs')"
  using assms
proof (induction es arbitrary: fs)
  case (Cons item es)
  obtain name e where item: "item = (name, e)" by force
  show ?case
  proof (cases "stale_entry name e now db \<and> \<not> en_dir e \<and> io fault (Entry_info name) = Inr ()")
    case True
    show ?thesis
    proof (cases "remove_file fault name fs")
      case (Inr fs1)
      have r: "(file_step encode)\<^sup>*\<^sup>* (db, fs) (db, fs1)"
        by (rule remove_file_run [OF Inr]) (rule stale_entry_unused [OF conjunct1 [OF True] Cons.prems(2)])
      with Cons.IH [of fs1] Cons.prems(1) file_system.run_inv [OF r Cons.prems(2)] True Inr show ?thesis unfolding item by (simp add: rtranclp_trans)
    qed (use Cons.prems True in \<open>simp add: item\<close>)
  next
    case False
    then show ?thesis using Cons unfolding item by (auto split: if_split_asm sum.split_asm)
  qed
qed simp

lemma deleting_items_ok:
  assumes "file_inv (db, fs)"
  shows "list_all (marked db) (deleting_items db) \<and> distinct (map fst (deleting_items db))"
proof -
  let ?rows = "sort_key (\<lambda>x. (af_updated x, af_id x)) (filter (\<lambda>x. af_state x = ''DELETING'') (ct_artifacts db))"
  have "mset (map af_id ?rows) = mset (map af_id (filter (\<lambda>x. af_state x = ''DELETING'') (ct_artifacts db)))" by simp
  then have "distinct (map af_id ?rows)"
    using assms distinct_map_filter by (metis (no_types, lifting) file_inv_def server_inv_def core_inv_def cores_simps(5) fst_conv mset_eq_imp_distinct_iff)
  then have "distinct (map af_id (take 32 ?rows))" by (simp add: take_map [symmetric])
  moreover have "map fst (deleting_items db) = map af_id (take 32 ?rows)" by (simp add: deleting_items_def comp_def)
  moreover have "list_all (marked db) (deleting_items db)"
    by (auto simp: deleting_items_def list_all_iff marked_def dest!: in_set_takeD)
  ultimately show ?thesis by simp
qed

lemma reconcileArtifactLifecycle_run:
  assumes "reconcileArtifactLifecycle fault now db fs = (answer, db', fs')" "file_inv (db, fs)"
  shows "(file_step encode)\<^sup>*\<^sup>* (db, fs) (db', fs')"
proof -
  let ?db1 = "mark_deleting now db"
  have s1: "file_step encode (db, fs) (?db1, fs)"
    by (rule same_length_step [OF server_step.sweep]) (simp add: mark_deleting_def update_where_def)
  note inv1 = file_inv_step [OF assms(2) s1]
  obtain r2 db2 fs2 where d: "delete_items fault now (deleting_items ?db1) (?db1, fs) = (r2, db2, fs2)" by (metis prod_cases3)
  have run2: "(file_step encode)\<^sup>*\<^sup>* (?db1, fs) (db2, fs2)" using delete_items_run [OF d inv1] deleting_items_ok [OF inv1] by blast
  note inv2 = file_system.run_inv [OF run2 inv1]
  have "(file_step encode)\<^sup>*\<^sup>* (db2, fs2) (db', fs')"
    using assms(1) inv2 unfolding reconcileArtifactLifecycle_def Let_def d
    by (auto simp: cleanupArtifactFilesystem_def split: sum.split_asm prod.split_asm intro: cleanup_entries_run)
  then show ?thesis using s1 run2 by (meson converse_rtranclp_into_rtranclp rtranclp_trans)
qed

section \<open>What is accepted stays\<close>

lemma accepted_step:
  assumes "file_inv s" "file_step encode s t" "x \<in> set (ct_artifacts (fst s))" "af_state x = ''ACCEPTED''"
  shows "x \<in> set (ct_artifacts (fst t))"
  using assms(2)
proof cases
  case (server db db' fs)
  from shelf_in [OF server_step_shelf [OF server(3)], of x] assms(1,3) server(1,2) obtain y where "y \<in> set (ct_artifacts db')" "row_kept x y"
    by (auto simp: file_inv_def)
  then show ?thesis using assms(4) server(2) by (auto simp: row_kept_def)
qed (use assms(3) in auto)

lemma accepted_run:
  assumes "(file_step encode)\<^sup>*\<^sup>* s t" "file_inv s" "x \<in> set (ct_artifacts (fst s))" "af_state x = ''ACCEPTED''"
  shows "x \<in> set (ct_artifacts (fst t)) \<and> file_inv t"
  using assms
proof (induction rule: rtranclp_induct)
  case (step y z)
  then show ?case using accepted_step [of y encode z x] file_inv_step [of y encode z] by blast
qed simp

lemma concat_blocks [simp]: "0 < n \<Longrightarrow> concat (blocks n s) = s"
  by (induction n s rule: blocks.induct) (subst blocks.simps, auto)

text \<open>Reading an accepted artifact gives the content it was registered with.\<close>

lemma accepted_download:
  assumes inv: "file_inv (db, fs)" and x: "x \<in> set (ct_artifacts db)" "af_state x = ''ACCEPTED''" and u: "authorized ctx (af_task x) db = Inr u"
  shows "\<exists>chunks. DownloadArtifact (\<lambda>_. None) ctx (af_task x) (af_id x) db fs = Inr chunks
    \<and> int (length (concat chunks)) = af_size x \<and> Hash (concat chunks) = af_hash x"
proof -
  have r: "registered db fs x" using inv x by (auto simp: file_inv_def)
  then obtain e where e: "map_of fs (af_path x) = Some e" "\<not> en_dir e" "int (length (en_content e)) = af_size x" "Hash (en_content e) = af_hash x"
    by (auto simp: registered_def stored_def)
  have "distinct (map af_id (ct_artifacts db))" using inv by (auto simp: file_inv_def server_inv_def core_inv_def)
  then have "y = x" if "y \<in> set (ct_artifacts db)" "af_id y = af_id x" for y using x(1) that by (auto simp: distinct_map inj_on_def)
  then have "select_row (\<lambda>y. af_task y = af_task x \<and> af_id y = af_id x \<and> af_state y = ''ACCEPTED'') (ct_artifacts db) = Inr x"
    using select_row_exists [OF x(1), of "\<lambda>y. af_task y = af_task x \<and> af_id y = af_id x \<and> af_state y = ''ACCEPTED''"] x(2) by auto
  then show ?thesis using u r e by (simp add: DownloadArtifact_def io_def registered_def)
qed


section \<open>Results are delivered\<close>

definition accepted_in :: "string \<Rightarrow> string \<Rightarrow> ArtifactRow list \<Rightarrow> bool" where
  "accepted_in a i xs \<longleftrightarrow> (\<exists>x\<in>set xs. af_id x = i \<and> af_attempt x = a \<and> af_state x = ''ACCEPTED'')"

lemma accepted_shelf: "shelf xs ys \<Longrightarrow> accepted_in a i xs \<Longrightarrow> accepted_in a i ys"
  using shelf_in by (fastforce simp: accepted_in_def row_kept_def)

lemma acceptArtifact_accepts:
  assumes "acceptArtifact i a t g now db = Inr db'"
  shows "accepted_in a i (ct_artifacts db')"
proof -
  let ?hit = "\<lambda>x. af_id x = i \<and> af_attempt x = a \<and> af_generation x = g \<and> af_state x = ''STAGED''"
  let ?d = "db\<lparr>ct_artifacts := update_where ?hit (\<lambda>x. x\<lparr>af_state := ''ACCEPTED'', af_updated := now, af_gc_after := 0\<rparr>) (ct_artifacts db)\<rparr>"
  have c: "count_where ?hit (ct_artifacts db) = 1" and p: "pinArtifactRef i ''task_result'' t now ?d = Inr db'"
    using assms unfolding acceptArtifact_def Let_def by (simp_all split: if_split_asm)
  obtain x where "x \<in> set (ct_artifacts db)" "?hit x" using c count_where_0_iff [of ?hit "ct_artifacts db"] by auto
  then have "accepted_in a i (ct_artifacts ?d)" unfolding accepted_in_def
    by (intro bexI [of _ "x\<lparr>af_state := ''ACCEPTED'', af_updated := now, af_gc_after := 0\<rparr>"]) (auto simp: in_update_where_iff intro!: bexI [of _ x])
  moreover have "ct_artifacts db' = ct_artifacts ?d" using arg_cong [OF frame_cores [OF pinArtifactRef_frame [OF p]], of kr] by simp
  ultimately show ?thesis by simp
qed

lemma accept_all:
  assumes "fold_result (\<lambda>d i. as_precondition (acceptArtifact i a t g now d)) db ids = Inr db'" "i \<in> set ids"
  shows "accepted_in a i (ct_artifacts db')"
  using assms
proof (induction ids arbitrary: db)
  case (Cons j ids)
  then obtain d where d: "acceptArtifact j a t g now db = Inr d" "fold_result (\<lambda>d i. as_precondition (acceptArtifact i a t g now d)) d ids = Inr db'"
    by (auto simp: rbind_eq_Inr_iff)
  have "stocked d db'" using d(2) by (rule fold_stocked) (simp, erule acceptArtifact_stocked)
  then have "shelf (ct_artifacts d) (ct_artifacts db')" by (simp add: stocked_def)
  with accepted_shelf [OF this] acceptArtifact_accepts [OF d(1)] Cons.IH [OF d(2)] Cons.prems(2) show ?case by auto
qed simp

lemma setState_artifacts: "setState enc i s code msg now db = Inr db' \<Longrightarrow> ct_artifacts db' = ct_artifacts db"
  by (erule setState_effect) (metis cores_simps(5) frame_cores kr_on_task)

lemma accept_length:
  "fold_result (\<lambda>d i. as_precondition (acceptArtifact i a t g now d)) db ids = Inr db' \<Longrightarrow> length (ct_artifacts db') = length (ct_artifacts db)"
proof (induction ids arbitrary: db)
  case (Cons j ids)
  then obtain d where d: "acceptArtifact j a t g now db = Inr d" "fold_result (\<lambda>d i. as_precondition (acceptArtifact i a t g now d)) d ids = Inr db'"
    by (auto simp: rbind_eq_Inr_iff)
  have "length (ct_artifacts d) = length (ct_artifacts db)"
    using d(1) by (auto simp: acceptArtifact_def Let_def pinArtifactRef_def rbind_eq_Inr_iff update_where_def split: if_split_asm)
  then show ?case using Cons.IH [OF d(2)] by simp
qed simp

lemma completion_accepts:
  assumes run: "complete_confirmed enc rid hash r v a t now db = Inr db'" and hash: "hash \<noteq> []"
    and o: "complete_outcome r v t now db = Inr (''SUCCEEDED'', code, msg)" and i: "i \<in> set (cr_ArtifactIds r)"
  shows "accepted_in a i (ct_artifacts db') \<and> length (ct_artifacts db') = length (ct_artifacts db)"
proof -
  obtain db1 db2 where p: "publish_success enc rid r v a t now db = Inr db1"
    and c: "close_attempt enc hash r v a t now (orphanStagedArtifacts a (aw_generation v) now db1) = Inr db2"
    and s: "setState enc (t_id t) ''SUCCEEDED'' code msg now db2 = Inr db'"
    using run o by (auto simp: complete_confirmed_def rbind_eq_Inr_iff settle_task_def split: if_split_asm)
  obtain d1 d2 where v: "setState enc (t_id t) ''VERIFYING'' [] [] now db = Inr d1"
    and f: "fold_result (\<lambda>d i. as_precondition (acceptArtifact i a (t_id t) (aw_generation v) now d)) d1 (cr_ArtifactIds r) = Inr d2"
    and g: "enqueueGraphCandidates rid (t_id t) (cr_ArtifactIds r) now d2 = Inr db1"
    using p by (auto simp: publish_success_def rbind_eq_Inr_iff)
  have d: "ct_artifacts db1 = ct_artifacts d2" using arg_cong [OF frame_cores [OF enqueueGraphCandidates_frame [OF g]], of kr] by simp
  with accept_all [OF f i] have "accepted_in a i (ct_artifacts db1)" by simp
  moreover have "shelf (ct_artifacts db1) (ct_artifacts (orphanStagedArtifacts a (aw_generation v) now db1))"
    using orphanStagedArtifacts_stocked [of db1] by (simp add: stocked_def)
  ultimately have "accepted_in a i (ct_artifacts (orphanStagedArtifacts a (aw_generation v) now db1))" using accepted_shelf by blast
  moreover have "ct_artifacts db2 = ct_artifacts (orphanStagedArtifacts a (aw_generation v) now db1)"
    using arg_cong [OF close_attempt_effect(1) [OF c hash], of kr] by (simp add: seal_def)
  moreover have "length (ct_artifacts (orphanStagedArtifacts a (aw_generation v) now db1)) = length (ct_artifacts db)"
    using accept_length [OF f] setState_artifacts [OF v] d by (simp add: orphanStagedArtifacts_def update_where_def)
  ultimately show ?thesis using setState_artifacts [OF s] by simp
qed


section \<open>A run with a file\<close>

abbreviation run_files :: files where
  "run_files \<equiv> [(run_file, \<lparr>en_dir = False, en_content = ''x'', en_modified = 1\<rparr>)]"

definition run_reader :: Principal where
  "run_reader = example_principal\<lparr>pr_Identity := (pr_Identity example_principal)\<lparr>id_Scopes := []\<rparr>\<rparr>"

lemma run_file_reachable: "file_reachable encode (run2, run_files)"
proof -
  have "file_reachable encode (run0, [])"
    by (rule reachable_init) (simp add: file_init_def server_init_def control_init_def control_commands_def run0_def empty_control_db_def)
  then have "file_reachable encode (run1, [])"
    by (rule reachable_step) (rule same_length_step [OF server_step.submit_task [OF run_submits]], simp add: run1_def)
  then have "file_reachable encode (run_given, [])"
    by (rule reachable_step) (rule same_length_step [OF server_step.assign_task [OF run_assigns]], simp_all add: run_draw_def run_given_def)
  then have "file_reachable encode (run_given, run_files)"
    by (rule reachable_step) (rule file_step.publish, simp)
  then show ?thesis
  proof (rule reachable_step, intro file_step.server [OF server_step.stage [OF run_stages]])
    fix x assume "x \<in> set (drop (length (ct_artifacts run_given)) (ct_artifacts run2))"
    then have "x = run_artifact ''STAGED'' 1 0" by (simp add: run2_def run_given_def run1_def run0_def empty_control_db_def)
    moreover have "artifactID run_file" by code_simp
    ultimately show "registered run2 run_files x" by (simp add: registered_def stored_def row_of_attempt_def run_artifact_def)
  qed
qed

lemma run_complete_call: "CompleteAttempt (\<lambda>_. []) (\<lambda>_. []) (\<lambda>_. []) (Some run_worker) run_success 2 run2 = (Inr ''COMMITTED'', run4)"
  using run_succeeds by (simp add: CompleteAttempt_def WorkerCaller_def run_worker_def) (simp add: run_success_def run_completion_def)

lemma run_file_reachable_done: "file_reachable encode (run4, run_files)"
  by (rule reachable_step [OF run_file_reachable]) (rule same_length_step [OF server_step.complete [OF run_succeeds Hash_not_Nil]], simp add: run2_def run4_def)

lemma run_reads: "authorized (Some run_reader) ''t'' run4 = Inr run_done"
  by (simp add: authorized_def authorizedOwner_def taskJobReadScope_def User_def run_reader_def example_principal_def run4_def run_done_def run_defs select_row_def)



section \<open>A sweep between publication and registration\<close>

text \<open>
  The rule for an upload needs its file when the row is registered. The code does not ensure it: when an earlier upload of the same
  identifier was cut off before its transaction, its file has no row; a new upload accepts that old file as published, and a sweep that runs before
  the transaction removes it, because it is older than a day and no row names it yet. The row is then registered without a file.
\<close>

lemma upload_loses_race_with_sweep:
  assumes "map_of fs (ar_ArtifactId m) = Some e" "\<not> en_dir e" "matches m (en_content e)" "artifactID (ar_ArtifactId m)"
    "now - en_modified e \<ge> 24 * 3600 * 1000" "\<not> list_ex (\<lambda>x. af_id x = ar_ArtifactId m) (ct_artifacts db)"
  shows "publish_file (\<lambda>_. None) m content now fs = (Inr (), fs) \<and> stale_entry (ar_ArtifactId m) e now db
    \<and> cleanup_entries (\<lambda>_. None) now db [(ar_ArtifactId m, e)] fs = (Inr (), remove_entry (ar_ArtifactId m) fs)
    \<and> map_of (remove_entry (ar_ArtifactId m) fs) (ar_ArtifactId m) = None"
proof -
  have "\<not> prefix ''.upload-'' (ar_ArtifactId m)"
    using assms(4) by (auto simp: artifactID_def hex_string_def prefix_def lower_hex_def digit_def in_bytes_def byte_def)
  then show ?thesis using assms by (simp add: publish_file_def io_def stale_entry_def remove_file_def map_of_remove_entry)
qed

end
