(* ===== verification/Access_Keys.thy ===== *)
theory Access_Keys
  imports Job_Engine
begin

text \<open>
  Who a caller is: \<open>rpcutil/rpc.go\<close> (configured identities, bearer tokens, worker certificates, conversation
  identities, the bound on worker streams), \<open>store/api_keys.go\<close> (the table of managed keys) and
  \<open>server/api_keys.go\<close> (creation, listing and revocation of managed keys). A digest is the hexadecimal text of
  SHA-256, which stands for the 32 bytes that key the map of identities. Contents of token files, drawn identifiers and secrets are arguments.
\<close>

section \<open>Configured identities\<close>

record Auth =
  au_identities :: "(string \<times> Principal) list"
  au_workerStreams :: "nat option"
  au_apiKeyResolver :: "(string \<Rightarrow> Identity result) option"
  au_workerMTLSMode :: string

definition SetWorkerStreamLimit :: "int \<Rightarrow> Auth \<Rightarrow> Auth" where
  "SetWorkerStreamLimit m a = (if m > 0 then a\<lparr>au_workerStreams := Some (nat m)\<rparr> else a)"

definition SetAPIKeyResolver :: "(string \<Rightarrow> Identity result) \<Rightarrow> Auth \<Rightarrow> Auth" where
  "SetAPIKeyResolver resolve a = a\<lparr>au_apiKeyResolver := Some resolve\<rparr>"

definition SetWorkerMTLSMode :: "string \<Rightarrow> Auth \<Rightarrow> Auth" where
  "SetWorkerMTLSMode mode a = a\<lparr>au_workerMTLSMode := mode\<rparr>"

definition Token :: "(string \<Rightarrow> string result) \<Rightarrow> string \<Rightarrow> string result" where
  "Token readFile path = rbind (readFile path) (\<lambda>b.
    let s = trim_space b in
    if length s < 24 then Inl (Error ''token must contain at least 24 characters'') else Inr s)"

definition add_identity :: "(string \<Rightarrow> string result) \<Rightarrow> bool \<Rightarrow> Auth \<Rightarrow> Identity \<Rightarrow> Auth result" where
  "add_identity readFile worker a i = rbind (Token readFile (id_TokenFile i)) (\<lambda>token.
    let key = Hash token in
    if map_of (au_identities a) key \<noteq> None then Inl (Error ''duplicate token identity'')
    else if \<not> worker \<and> (id_Owner i = [] \<or> id_Projects i = []) then Inl (Error ''user owner/projects required'')
    else if worker \<and> id_WorkerID i = [] then Inl (Error ''worker_id required'')
    else Inr (a\<lparr>au_identities := (key, \<lparr>pr_ManagedKeyDigest = [], pr_Identity = i, pr_Worker = worker\<rparr>) # au_identities a\<rparr>))"

definition NewAuth :: "(string \<Rightarrow> string result) \<Rightarrow> Identity list \<Rightarrow> Identity list \<Rightarrow> Auth result" where
  "NewAuth readFile users workers =
    rbind (fold_result (add_identity readFile False)
      \<lparr>au_identities = [], au_workerStreams = None, au_apiKeyResolver = None, au_workerMTLSMode = []\<rparr> users) (\<lambda>a.
    fold_result (add_identity readFile True) a workers)"

abbreviation unauthenticated :: error where
  "unauthenticated \<equiv> Status ''Unauthenticated'' ''authentication required''"

definition Bearer :: "Auth \<Rightarrow> string \<Rightarrow> Principal result" where
  "Bearer a header = (
    if \<not> prefix ''Bearer '' header then Inl unauthenticated
    else
      let token = drop 7 header; digest = Hash token in
      case map_of (au_identities a) digest of Some p \<Rightarrow> Inr p
      | None \<Rightarrow>
          case au_apiKeyResolver a of None \<Rightarrow> Inl unauthenticated
          | Some resolve \<Rightarrow>
              if \<not> prefix ''cc_live_'' token then Inl unauthenticated
              else case resolve digest of Inl _ \<Rightarrow> Inl unauthenticated
                | Inr i \<Rightarrow> Inr \<lparr>pr_ManagedKeyDigest = digest, pr_Identity = i, pr_Worker = False\<rparr>)"

section \<open>Worker certificates\<close>

text \<open>What the handler reads of a peer: the outer option is \<open>peer.FromContext\<close>, the inner one whether the connection uses TLS.\<close>

record CertURI =
  cu_Scheme :: string
  cu_Host :: string
  cu_Path :: string
  cu_String :: string

record Certificate =
  ce_URIs :: "CertURI list"
  ce_Raw :: string

record TLSState =
  tl_PeerCertificates :: "Certificate list"
  tl_VerifiedChains :: nat

definition worker_uri :: "CertURI \<Rightarrow> bool" where
  "worker_uri u \<longleftrightarrow> cu_Scheme u = ''spiffe'' \<and> cu_Host u = ''computecloud'' \<and> prefix ''/workers/'' (cu_Path u)"

definition check_certificate :: "Identity \<Rightarrow> TLSState \<Rightarrow> Certificate \<Rightarrow> unit result" where
  "check_certificate i tls cert = (
    let expectedURI = ''spiffe://computecloud/workers/'' @ id_WorkerID i; uris = filter worker_uri (ce_URIs cert) in
    if tl_VerifiedChains tls = 0 then Inl (Status ''Unauthenticated'' ''unverified Worker certificate'')
    else if length uris \<noteq> 1 \<or> \<not> list_ex (\<lambda>u. cu_String u = expectedURI) uris
    then Inl (Status ''PermissionDenied'' ''Worker certificate identity mismatch'')
    else if \<not> list_ex (\<lambda>allowed. equal_fold allowed (Hash (ce_Raw cert))) (id_ClientCertSHA256 i)
    then Inl (Status ''PermissionDenied'' ''Worker certificate is not active'')
    else Inr ())"

definition Auth_Context :: "Auth \<Rightarrow> string list \<Rightarrow> TLSState option option \<Rightarrow> Principal result" where
  "Auth_Context a authorization peer = (
    case authorization of
      [header] \<Rightarrow>
        rbind (Bearer a header) (\<lambda>p.
        let required = (if pr_Worker p then Inl (Status ''Unauthenticated'' ''verified Worker certificate required'') else Inr p) in
        if au_workerMTLSMode a = [] \<or> au_workerMTLSMode a = ''disabled'' then Inr p
        else if pr_Worker p \<and> au_workerMTLSMode a = ''optional'' \<and> id_ClientCertSHA256 (pr_Identity p) = [] then Inr p
        else case peer of None \<Rightarrow> required
          | Some None \<Rightarrow> required
          | Some (Some tls) \<Rightarrow>
              case tl_PeerCertificates tls of [] \<Rightarrow> required
              | cert # _ \<Rightarrow>
                  if \<not> pr_Worker p then Inl (Status ''PermissionDenied'' ''client certificates are not enabled for user identities'')
                  else rbind (check_certificate (pr_Identity p) tls cert) (\<lambda>_. Inr p))
    | _ \<Rightarrow> Inl unauthenticated)"

text \<open>\<open>Stream\<close>: a worker stream takes a place in the channel of \<open>workerStreams\<close> while it is open; \<open>used\<close> counts the places taken.\<close>

definition open_stream :: "Auth \<Rightarrow> Principal \<Rightarrow> nat \<Rightarrow> nat result" where
  "open_stream a p used = (
    if pr_Worker p then
      case au_workerStreams a of None \<Rightarrow> Inr used
      | Some limit \<Rightarrow> if used < limit then Inr (Suc used) else Inl (Status ''ResourceExhausted'' ''WORKER_STREAM_LIMIT'')
    else Inr used)"

definition conversation_scopes :: "string \<Rightarrow> (string \<times> string) option" where
  "conversation_scopes operation = (
    if operation = ''read'' then Some (''conversations:read'', ''jobs:read'')
    else if operation = ''cancel'' then Some (''conversations:cancel'', ''jobs:cancel'')
    else if operation = ''submit'' then Some (''conversations:submit'', ''jobs:submit'')
    else None)"

definition ConversationJobContext :: "Principal option \<Rightarrow> Identity \<Rightarrow> string \<Rightarrow> string \<Rightarrow> Principal result" where
  "ConversationJobContext ctx execution profile operation = (
    case conversation_scopes operation of
      None \<Rightarrow> Inl (Status ''PermissionDenied'' ''conversation operation not authorized'')
    | Some (conversationScope, jobScope) \<Rightarrow>
        case ctx of None \<Rightarrow> Inl (Status ''PermissionDenied'' ''conversation submission not authorized'')
        | Some caller \<Rightarrow>
            if pr_Worker caller \<or> conversationScope \<notin> set (id_Scopes (pr_Identity caller))
              \<or> id_ConversationProfile (pr_Identity caller) \<noteq> profile \<or> profile = []
            then Inl (Status ''PermissionDenied'' ''conversation submission not authorized'')
            else if id_Owner execution = [] \<or> jobScope \<notin> set (id_Scopes execution)
            then Inl (Status ''PermissionDenied'' ''conversation execution identity invalid'')
            else Inr \<lparr>pr_ManagedKeyDigest = [], pr_Identity = execution, pr_Worker = False\<rparr>)"

section \<open>The table of managed keys\<close>

record APIKey =
  ak_ID :: string
  ak_Digest :: string
  ak_Prefix :: string
  ak_Owner :: string
  ak_Projects :: "string list"
  ak_Scopes :: "string list"
  ak_Credentials :: "string list"
  ak_Label :: string
  ak_CreatedAt :: int
  ak_ExpiresAt :: int
  ak_RevokedAt :: int

text \<open>A row holds the three lists as JSON documents.\<close>

record KeyRow =
  ky_id :: string
  ky_digest :: string
  ky_prefix :: string
  ky_owner :: string
  ky_projects_json :: json
  ky_scopes_json :: json
  ky_credentials_json :: json
  ky_label :: string
  ky_created_at :: int
  ky_expires_at :: int
  ky_revoked_at :: int

definition key_value_ok :: "string \<Rightarrow> bool" where
  "key_value_ok v \<longleftrightarrow> v \<noteq> [] \<and> length v \<le> 128 \<and> trim_space v = v \<and> list_all (\<lambda>c. c \<notin> {CHR 0x00, CHR 0x0D, CHR 0x0A}) v"

definition validKeyList :: "string list \<Rightarrow> bool \<Rightarrow> bool" where
  "validKeyList values allowEmpty = (if values = [] then allowEmpty else list_all key_value_ok values \<and> distinct values)"

definition hex_digits :: "string \<Rightarrow> bool" where
  "hex_digits s \<longleftrightarrow> list_all (\<lambda>c. lower_hex (ascii_lower c)) s"

definition validateAPIKey :: "APIKey \<Rightarrow> unit result" where
  "validateAPIKey k = (
    if \<not> (hex_digits (ak_Digest k) \<and> length (ak_Digest k) = 64) \<or> ak_ID k = [] \<or> ak_Owner k = []
      \<or> \<not> prefix ''cc_live_'' (ak_Prefix k) \<or> length (ak_Prefix k) > 32
      \<or> \<not> validKeyList (ak_Projects k) False \<or> \<not> validKeyList (ak_Scopes k) False \<or> \<not> validKeyList (ak_Credentials k) True
      \<or> length (ak_Label k) > 128 \<or> ak_CreatedAt k < 1 \<or> ak_ExpiresAt k \<le> ak_CreatedAt k
    then Inl (Error ''invalid API key metadata'') else Inr ())"

definition key_conflict :: "KeyRow \<Rightarrow> KeyRow \<Rightarrow> bool" where
  "key_conflict r x \<longleftrightarrow> ky_id r = ky_id x \<or> ky_digest r = ky_digest x"

definition key_row :: "APIKey \<Rightarrow> KeyRow" where
  "key_row k = \<lparr>ky_id = ak_ID k, ky_digest = ak_Digest k, ky_prefix = ak_Prefix k, ky_owner = ak_Owner k,
    ky_projects_json = json_strs (ak_Projects k), ky_scopes_json = json_strs (ak_Scopes k),
    ky_credentials_json = json_strs (ak_Credentials k), ky_label = ak_Label k, ky_created_at = ak_CreatedAt k,
    ky_expires_at = ak_ExpiresAt k, ky_revoked_at = 0\<rparr>"

definition CreateAPIKey :: "APIKey \<Rightarrow> KeyRow list \<Rightarrow> KeyRow list result" where
  "CreateAPIKey k keys = rbind (validateAPIKey k) (\<lambda>_. insert_row key_conflict (key_row k) keys)"

definition decode_strings :: "json \<Rightarrow> string list result" where
  "decode_strings j = (
    case j of JArr xs \<Rightarrow> (case strings_of xs of Some v \<Rightarrow> Inr v | None \<Rightarrow> Inl (Error ''corrupt API key metadata''))
    | JNull \<Rightarrow> Inr []
    | _ \<Rightarrow> Inl (Error ''corrupt API key metadata''))"

definition key_of_row :: "KeyRow \<Rightarrow> APIKey result" where
  "key_of_row r =
    rbind (decode_strings (ky_projects_json r)) (\<lambda>projects.
    rbind (decode_strings (ky_scopes_json r)) (\<lambda>scopes.
    rbind (decode_strings (ky_credentials_json r)) (\<lambda>credentials.
    Inr \<lparr>ak_ID = ky_id r, ak_Digest = ky_digest r, ak_Prefix = ky_prefix r, ak_Owner = ky_owner r, ak_Projects = projects,
      ak_Scopes = scopes, ak_Credentials = credentials, ak_Label = ky_label r, ak_CreatedAt = ky_created_at r,
      ak_ExpiresAt = ky_expires_at r, ak_RevokedAt = ky_revoked_at r\<rparr>)))"

definition LookupAPIKeyByDigest :: "string \<Rightarrow> int \<Rightarrow> KeyRow list \<Rightarrow> APIKey result" where
  "LookupAPIKeyByDigest digest now keys =
    rbind (select_row (\<lambda>r. ky_digest r = digest \<and> ky_revoked_at r = 0 \<and> ky_expires_at r > now) keys) key_of_row"

fun each_result :: "('a \<Rightarrow> 'b result) \<Rightarrow> 'a list \<Rightarrow> 'b list result" where
  "each_result f [] = Inr []"
| "each_result f (x # xs) = rbind (f x) (\<lambda>y. rbind (each_result f xs) (\<lambda>ys. Inr (y # ys)))"

text \<open>A listing does not select the digest.\<close>

definition ListAPIKeys :: "string \<Rightarrow> KeyRow list \<Rightarrow> APIKey list result" where
  "ListAPIKeys owner keys = each_result (\<lambda>r. rbind (key_of_row r) (\<lambda>k. Inr (k\<lparr>ak_Digest := []\<rparr>)))
    (sort_key (\<lambda>r. (- ky_created_at r, ky_id r)) (filter (\<lambda>r. ky_owner r = owner) keys))"

definition RevokeAPIKey :: "string \<Rightarrow> string \<Rightarrow> int \<Rightarrow> KeyRow list \<Rightarrow> KeyRow list result" where
  "RevokeAPIKey owner i now keys = (
    let hit = (\<lambda>r. ky_owner r = owner \<and> ky_id r = i) in
    if count_where hit keys \<noteq> 1 then Inl Sql_no_rows
    else Inr (update_where hit (\<lambda>r. r\<lparr>ky_revoked_at := (if ky_revoked_at r = 0 then now else ky_revoked_at r)\<rparr>) keys))"

section \<open>Management of keys\<close>

abbreviation managedKeyMaxLifetimeMS :: int where
  "managedKeyMaxLifetimeMS \<equiv> 90 * 24 * 3600 * 1000"

record createAPIKeyRequest =
  kq_Label :: string
  kq_Projects :: "string list"
  kq_Scopes :: "string list"
  kq_Credentials :: "string list"
  kq_ExpiresAtMS :: int

definition resolveAPIKey :: "int \<Rightarrow> KeyRow list \<Rightarrow> string \<Rightarrow> Identity result" where
  "resolveAPIKey now keys digest =
    rbind (LookupAPIKeyByDigest digest now keys) (\<lambda>k.
    Inr \<lparr>id_GoalActorID = [], id_GoalActorKind = [], id_TraceOwner = [], id_TokenFile = [], id_Owner = ak_Owner k,
      id_Projects = ak_Projects k, id_Credentials = ak_Credentials k, id_WorkerID = [], id_Scopes = ak_Scopes k,
      id_ModelProject = [], id_ModelRoute = [], id_ConversationProfile = [],
      id_Limits = \<lparr>il_MaxActiveJobs = 8, il_MaxQueuedJobs = 32, il_MaxModelRequests = 4\<rparr>, id_ClientCertSHA256 = []\<rparr>)"

definition key_subset :: "string list \<Rightarrow> string list \<Rightarrow> bool" where
  "key_subset values allowed \<longleftrightarrow> distinct values \<and> list_all (\<lambda>v. v \<in> set allowed) values"

definition allowedManagedScopes :: "string list" where
  "allowedManagedScopes = [''jobs:submit'', ''jobs:read'', ''jobs:cancel'', ''jobs:extend'', ''jobs:control'', ''jobs:retry'',
    ''tasks:submit'', ''tasks:read'', ''tasks:cancel'', ''goals:approve'', ''goals:budget'', ''goals:constraints'', ''goals:propose'']"

definition base64_char :: "nat \<Rightarrow> char" where
  "base64_char n = (
    if n < 26 then char_of (65 + n) else if n < 52 then char_of (71 + n) else if n < 62 then char_of (n - 4)
    else if n = 62 then CHR ''-'' else CHR ''_'')"

text \<open>\<open>base64.RawURLEncoding.EncodeToString\<close>.\<close>

fun raw_url_encode :: "string \<Rightarrow> string" where
  "raw_url_encode (a # b # c # rest) = (
    let n = byte a * 65536 + byte b * 256 + byte c in
    base64_char (n div 262144) # base64_char (n div 4096 mod 64) # base64_char (n div 64 mod 64) # base64_char (n mod 64)
      # raw_url_encode rest)"
| "raw_url_encode [a, b] = (
    let n = byte a * 1024 + byte b * 4 in [base64_char (n div 4096), base64_char (n div 64 mod 64), base64_char (n mod 64)])"
| "raw_url_encode [a] = (let n = byte a * 16 in [base64_char (n div 64), base64_char (n mod 64)])"
| "raw_url_encode [] = []"

definition new_token :: "string \<Rightarrow> string" where
  "new_token secret = ''cc_live_'' @ raw_url_encode secret"

definition check_key_request :: "createAPIKeyRequest \<Rightarrow> Identity \<Rightarrow> int \<Rightarrow> unit result" where
  "check_key_request r manager now = (
    if kq_Label r = [] \<or> length (kq_Label r) > 128 \<or> kq_Projects r = [] \<or> kq_Scopes r = [] \<or> length (kq_Credentials r) > 64
    then Inl (Status ''InvalidArgument'' ''INVALID_API_KEY_REQUEST'')
    else if \<not> key_subset (kq_Projects r) (id_Projects manager) \<or> \<not> key_subset (kq_Credentials r) (id_Credentials manager)
    then Inl (Status ''PermissionDenied'' ''API_KEY_SCOPE_ESCALATION'')
    else if list_ex (\<lambda>s. s \<notin> set allowedManagedScopes \<or> s \<notin> set (id_Scopes manager)) (kq_Scopes r)
    then Inl (Status ''PermissionDenied'' ''API_KEY_SCOPE_ESCALATION'')
    else if kq_ExpiresAtMS r \<le> now \<or> kq_ExpiresAtMS r > now + managedKeyMaxLifetimeMS
    then Inl (Status ''InvalidArgument'' ''API_KEY_EXPIRY_OUT_OF_RANGE'')
    else Inr ())"

definition new_key :: "createAPIKeyRequest \<Rightarrow> string \<Rightarrow> string \<Rightarrow> string \<Rightarrow> int \<Rightarrow> APIKey" where
  "new_key r owner i token now = \<lparr>ak_ID = i, ak_Digest = Hash token, ak_Prefix = take 20 token, ak_Owner = owner,
    ak_Projects = kq_Projects r, ak_Scopes = kq_Scopes r, ak_Credentials = kq_Credentials r, ak_Label = kq_Label r,
    ak_CreatedAt = now, ak_ExpiresAt = kq_ExpiresAtMS r, ak_RevokedAt = 0\<rparr>"

text \<open>\<open>secret\<close> is what \<open>rand.Read\<close> fills in, if it does, and \<open>i\<close> the drawn identifier. The answer is the token with the stored key.\<close>

definition httpCreateAPIKey ::
  "Principal option \<Rightarrow> createAPIKeyRequest \<Rightarrow> string option \<Rightarrow> string \<Rightarrow> int \<Rightarrow> KeyRow list \<Rightarrow> (string \<times> APIKey) result \<times> KeyRow list" where
  "httpCreateAPIKey ctx r secret i now keys = (
    case rbind (Require ctx ''api_keys:manage'' False) (\<lambda>manager.
        rbind (check_key_request r (pr_Identity manager) now) (\<lambda>_. Inr manager)) of
      Inl e \<Rightarrow> (Inl e, keys)
    | Inr manager \<Rightarrow>
        case secret of None \<Rightarrow> (Inl (Status ''Internal'' ''API_KEY_GENERATION_FAILED''), keys)
        | Some s \<Rightarrow>
            let token = new_token s; k = new_key r (pr_Owner manager) i token now in
            case CreateAPIKey k keys of Inl _ \<Rightarrow> (Inl (Status ''Internal'' ''API_KEY_STORE_FAILED''), keys)
            | Inr keys' \<Rightarrow> (Inr (token, k), keys'))"

definition httpListAPIKeys :: "Principal option \<Rightarrow> KeyRow list \<Rightarrow> APIKey list result" where
  "httpListAPIKeys ctx keys = rbind (Require ctx ''api_keys:manage'' False) (\<lambda>manager. map_error dbErr (ListAPIKeys (pr_Owner manager) keys))"

definition httpRevokeAPIKey :: "Principal option \<Rightarrow> string \<Rightarrow> int \<Rightarrow> KeyRow list \<Rightarrow> unit result \<times> KeyRow list" where
  "httpRevokeAPIKey ctx i now keys = (
    case Require ctx ''api_keys:manage'' False of Inl e \<Rightarrow> (Inl e, keys)
    | Inr manager \<Rightarrow>
        case RevokeAPIKey (pr_Owner manager) i now keys of
          Inl e \<Rightarrow> (Inl (if e = Sql_no_rows then Status ''NotFound'' ''API_KEY_NOT_FOUND'' else dbErr e), keys)
        | Inr keys' \<Rightarrow> (Inr (), keys'))"

section \<open>The keys in use\<close>

text \<open>
  Callers present a header, which is resolved against the configured identities and the keys of the moment, and create or
  revoke keys.
\<close>

definition with_keys :: "int \<Rightarrow> KeyRow list \<Rightarrow> Auth \<Rightarrow> Auth" where
  "with_keys now keys a = SetAPIKeyResolver (resolveAPIKey now keys) a"

inductive key_step :: "Auth \<Rightarrow> KeyRow list \<Rightarrow> KeyRow list \<Rightarrow> bool" for a :: Auth where
  create: "Bearer (with_keys t keys a) header = Inr p \<Longrightarrow> httpCreateAPIKey (Some p) r secret i now keys = (answer, keys') \<Longrightarrow> key_step a keys keys'"
| revoke: "Bearer (with_keys t keys a) header = Inr p \<Longrightarrow> httpRevokeAPIKey (Some p) i now keys = (answer, keys') \<Longrightarrow> key_step a keys keys'"

abbreviation keys_reachable :: "Auth \<Rightarrow> KeyRow list \<Rightarrow> bool" where
  "keys_reachable a \<equiv> reachable (\<lambda>keys. keys = []) (key_step a)"

text \<open>A configured user that may manage keys has at least the rights of the key.\<close>

definition grants :: "Identity \<Rightarrow> KeyRow \<Rightarrow> bool" where
  "grants m r \<longleftrightarrow> ''api_keys:manage'' \<in> set (id_Scopes m) \<and> id_Owner m = ky_owner r
    \<and> (\<exists>ps ss cs. key_of_row r = Inr \<lparr>ak_ID = ky_id r, ak_Digest = ky_digest r, ak_Prefix = ky_prefix r, ak_Owner = ky_owner r,
        ak_Projects = ps, ak_Scopes = ss, ak_Credentials = cs, ak_Label = ky_label r, ak_CreatedAt = ky_created_at r,
        ak_ExpiresAt = ky_expires_at r, ak_RevokedAt = ky_revoked_at r\<rparr>
      \<and> set ps \<subseteq> set (id_Projects m) \<and> set cs \<subseteq> set (id_Credentials m) \<and> set ss \<subseteq> set (id_Scopes m) \<inter> set allowedManagedScopes)"

definition key_inv :: "Auth \<Rightarrow> KeyRow list \<Rightarrow> bool" where
  "key_inv a keys \<longleftrightarrow> distinct (map ky_id keys) \<and> distinct (map ky_digest keys)
    \<and> (\<forall>r\<in>set keys. (\<exists>d m. (d, m) \<in> set (au_identities a) \<and> \<not> pr_Worker m \<and> grants (pr_Identity m) r)
        \<and> ky_expires_at r \<le> ky_created_at r + managedKeyMaxLifetimeMS)"

lemma strings_of_JStr [simp]: "strings_of (map JStr xs) = Some xs"
  by (induction xs) auto

lemma decode_json_strs [simp]: "decode_strings (json_strs xs) = Inr xs"
  by (simp add: decode_strings_def json_strs_def)

lemma key_of_key_row: "key_of_row (key_row k) = Inr (k\<lparr>ak_RevokedAt := 0\<rparr>)"
  by (simp add: key_of_row_def key_row_def)

lemma key_of_row_revoked: "key_of_row (r\<lparr>ky_revoked_at := v\<rparr>) = rbind (key_of_row r) (\<lambda>k. Inr (k\<lparr>ak_RevokedAt := v\<rparr>))"
  by (cases "decode_strings (ky_projects_json r)"; cases "decode_strings (ky_scopes_json r)"; cases "decode_strings (ky_credentials_json r)")
    (simp_all add: key_of_row_def)

lemma grants_revoked: "grants m r \<Longrightarrow> grants m (r\<lparr>ky_revoked_at := v\<rparr>)"
  by (auto simp: grants_def key_of_row_revoked)

lemma Bearer_cases:
  assumes "Bearer (with_keys now keys a) header = Inr p"
  obtains (configured) "(Hash (drop 7 header), p) \<in> set (au_identities a)"
    | (managed) r k where "r \<in> set keys" "key_of_row r = Inr k" "ky_digest r = Hash (drop 7 header)" "ky_revoked_at r = 0" "ky_expires_at r > now"
        "pr_ManagedKeyDigest p = ky_digest r" "\<not> pr_Worker p" "pr_Owner p = ak_Owner k" "id_Projects (pr_Identity p) = ak_Projects k"
        "id_Scopes (pr_Identity p) = ak_Scopes k" "id_Credentials (pr_Identity p) = ak_Credentials k"
  using assms
  by (auto simp: Bearer_def with_keys_def SetAPIKeyResolver_def resolveAPIKey_def LookupAPIKeyByDigest_def rbind_eq_Inr_iff Let_def
      split: if_split_asm option.split_asm sum.split_asm dest!: select_row_InrD map_of_SomeD)

lemma grants_scope_excluded: "grants m r \<Longrightarrow> key_of_row r = Inr k \<Longrightarrow> ''api_keys:manage'' \<notin> set (ak_Scopes k)"
  by (auto simp: grants_def allowedManagedScopes_def)

text \<open>Only a configured user passes the check for the management of keys.\<close>

lemma manager_is_configured:
  assumes inv: "key_inv a keys" and b: "Bearer (with_keys t keys a) header = Inr p" and r: "Require (Some p) ''api_keys:manage'' False = Inr q"
  shows "q = p \<and> \<not> pr_Worker p \<and> ''api_keys:manage'' \<in> set (id_Scopes (pr_Identity p)) \<and> (\<exists>d. (d, p) \<in> set (au_identities a))"
proof -
  have p: "q = p" "\<not> pr_Worker p" "''api_keys:manage'' \<in> set (id_Scopes (pr_Identity p))"
    using r by (auto simp: Require_def User_def rbind_eq_Inr_iff split: if_split_asm)
  from b show ?thesis
  proof (cases rule: Bearer_cases)
    case configured then show ?thesis using p by blast
  next
    case (managed k r)
    with inv show ?thesis using p grants_scope_excluded by (fastforce simp: key_inv_def)
  qed
qed

lemma created_row:
  assumes "httpCreateAPIKey (Some p) r secret i now keys = (Inr (token, k), keys')"
  shows "Require (Some p) ''api_keys:manage'' False = Inr p" "check_key_request r (pr_Identity p) now = Inr ()"
    "k = new_key r (pr_Owner p) i token now" "prefix ''cc_live_'' token" "CreateAPIKey k keys = Inr keys'" "keys' = keys @ [key_row k]"
    "\<forall>x\<in>set keys. \<not> key_conflict (key_row k) x"
  using assms
  by (auto simp: httpCreateAPIKey_def rbind_eq_Inr_iff Let_def Require_def User_def new_token_def CreateAPIKey_def insert_row_eq_Inr_iff
      split: sum.split_asm option.split_asm if_split_asm)

lemma create_unchanged: "httpCreateAPIKey ctx r secret i now keys = (Inl e, keys') \<Longrightarrow> keys' = keys"
  by (auto simp: httpCreateAPIKey_def Let_def split: sum.split_asm option.split_asm)

lemma revoked_rows:
  "httpRevokeAPIKey ctx i now keys = (answer, keys') \<Longrightarrow> keys' = keys \<or>
    (\<exists>ow. keys' = update_where (\<lambda>r. ky_owner r = ow \<and> ky_id r = i) (\<lambda>r. r\<lparr>ky_revoked_at := (if ky_revoked_at r = 0 then now else ky_revoked_at r)\<rparr>) keys)"
  by (auto simp: httpRevokeAPIKey_def RevokeAPIKey_def Let_def split: sum.split_asm if_split_asm)

lemma grants_new:
  assumes "check_key_request r m now = Inr ()" "''api_keys:manage'' \<in> set (id_Scopes m)"
  shows "grants m (key_row (new_key r (id_Owner m) i token now)) \<and> kq_ExpiresAtMS r \<le> now + managedKeyMaxLifetimeMS"
  using assms
  by (auto simp: grants_def key_of_row_def check_key_request_def key_subset_def new_key_def key_row_def list_all_iff list_ex_iff split: if_split_asm)

lemma key_inv_create:
  assumes inv: "key_inv a keys" and b: "Bearer (with_keys t keys a) header = Inr p"
    and c: "httpCreateAPIKey (Some p) r secret i now keys = (answer, keys')"
  shows "key_inv a keys'"
proof (cases answer)
  case (Inr w)
  obtain token k where "w = (token, k)" by force
  note new = created_row [OF c [unfolded Inr this]]
  note p = manager_is_configured [OF inv b new(1)]
  then obtain d where "(d, p) \<in> set (au_identities a)" by blast
  with inv p new(6,7) grants_new [OF new(2)] show ?thesis
    by (fastforce simp: key_inv_def new(3) key_conflict_def key_row_def new_key_def)
qed (use c create_unchanged inv in blast)

lemma key_inv_step:
  assumes "key_inv a keys" "key_step a keys keys'"
  shows "key_inv a keys'"
  using assms(2)
proof cases
  case (create t header p r secret i now answer)
  then show ?thesis using key_inv_create [OF assms(1)] by blast
next
  case (revoke t header p i now answer)
  have "key_inv a (update_where P (\<lambda>r. r\<lparr>ky_revoked_at := f r\<rparr>) keys)" for P f
    using assms(1) grants_revoked by (fastforce simp: key_inv_def map_update_where in_update_where_iff)
  with revoked_rows [OF revoke(2)] assms(1) show ?thesis by (elim disjE exE) simp_all
qed

interpretation key_system: step_system "\<lambda>keys. keys = []" "key_step a" "key_inv a" for a
  by unfold_locales (auto simp: key_inv_def [of _ "[]"] intro: key_inv_step)

section \<open>Managed keys are bounded, revocable and usable\<close>

lemma add_identities:
  assumes "fold_result (add_identity readFile w) a ids = Inr b" "\<forall>(d, p)\<in>set (au_identities a). P p"
    "\<And>i. i \<in> set ids \<Longrightarrow> P \<lparr>pr_ManagedKeyDigest = [], pr_Identity = i, pr_Worker = w\<rparr>"
  shows "\<forall>(d, p)\<in>set (au_identities b). P p"
proof (rule fold_result_invariant [OF assms(1), where P = "\<lambda>_ a. \<forall>(d, p)\<in>set (au_identities a). P p"])
  show "\<forall>(d, p)\<in>set (au_identities a). P p" by (fact assms(2))
next
  fix done' i t t'
  assume "\<forall>(d, p)\<in>set (au_identities t). P p" "i \<in> set ids" "add_identity readFile w t i = Inr t'"
  then show "\<forall>(d, p)\<in>set (au_identities t'). P p"
    using assms(3) [of i] by (auto simp: rbind_eq_Inr_iff add_identity_def Let_def split: if_split_asm)
qed

lemma new_auth_identities:
  assumes "NewAuth readFile users workers = Inr a" "(d, p) \<in> set (au_identities a)"
  shows "pr_ManagedKeyDigest p = [] \<and> pr_Identity p \<in> set (if pr_Worker p then workers else users)"
proof -
  let ?P = "\<lambda>p. pr_ManagedKeyDigest p = [] \<and> pr_Identity p \<in> set (if pr_Worker p then workers else users)"
  from assms(1) obtain b where b: "fold_result (add_identity readFile False)
      \<lparr>au_identities = [], au_workerStreams = None, au_apiKeyResolver = None, au_workerMTLSMode = []\<rparr> users = Inr b"
    and a: "fold_result (add_identity readFile True) b workers = Inr a"
    by (auto simp: NewAuth_def rbind_eq_Inr_iff)
  have "\<forall>(d, p)\<in>set (au_identities b). ?P p" using add_identities [OF b, of ?P] by simp
  from add_identities [OF a this] assms(2) show ?thesis by auto
qed


lemma revoked_one:
  "httpRevokeAPIKey ctx i now keys = (Inr (), keys') \<Longrightarrow> \<exists>ow. count_where (\<lambda>r. ky_owner r = ow \<and> ky_id r = i) keys = 1 \<and>
    keys' = update_where (\<lambda>r. ky_owner r = ow \<and> ky_id r = i) (\<lambda>r. r\<lparr>ky_revoked_at := (if ky_revoked_at r = 0 then now else ky_revoked_at r)\<rparr>) keys"
  by (auto simp: httpRevokeAPIKey_def RevokeAPIKey_def Let_def split: sum.split_asm if_split_asm)

text \<open>A key keeps its row, which is revoked at most.\<close>

lemma key_kept:
  assumes "key_inv a keys" "key_step a keys keys'" "r \<in> set keys"
  shows "\<exists>v. r\<lparr>ky_revoked_at := v\<rparr> \<in> set keys' \<and> (ky_revoked_at r \<noteq> 0 \<longrightarrow> v \<noteq> 0)"
  using assms(2)
proof cases
  case (create t header p q secret i now answer)
  then have "set keys \<subseteq> set keys'"
    by (cases answer) (auto dest: create_unchanged created_row(6))
  with assms(3) show ?thesis by (intro exI [of _ "ky_revoked_at r"]) auto
next
  case (revoke t header p i now answer)
  have "\<exists>v. r\<lparr>ky_revoked_at := v\<rparr> \<in> set (update_where P (\<lambda>r. r\<lparr>ky_revoked_at := (if ky_revoked_at r = 0 then now else ky_revoked_at r)\<rparr>) keys)
      \<and> (ky_revoked_at r \<noteq> 0 \<longrightarrow> v \<noteq> 0)" for P
    using assms(3)
    by (intro exI [of _ "if P r \<and> ky_revoked_at r = 0 then now else ky_revoked_at r"]) (auto simp: in_update_where_iff intro!: bexI [of _ r])
  with revoked_rows [OF revoke(2)] assms(3) show ?thesis
    by (elim disjE exE) (auto intro: exI [of _ "ky_revoked_at r"])
qed

lemma key_kept_run:
  assumes "(key_step a)\<^sup>*\<^sup>* keys keys'" "key_inv a keys" "r \<in> set keys"
  shows "\<exists>v. r\<lparr>ky_revoked_at := v\<rparr> \<in> set keys' \<and> (ky_revoked_at r \<noteq> 0 \<longrightarrow> v \<noteq> 0)"
  using assms
proof (induction rule: rtranclp_induct)
  case (step y z)
  then obtain v where v: "r\<lparr>ky_revoked_at := v\<rparr> \<in> set y" "ky_revoked_at r \<noteq> 0 \<longrightarrow> v \<noteq> 0" by blast
  from key_kept [OF key_system.run_inv [OF step(1,4)] step(2) v(1)] v(2) show ?case by auto
qed (auto intro: exI [of _ "ky_revoked_at r"])

text \<open>The key with a digest decides what a token with that digest resolves to.\<close>

lemma Bearer_key:
  assumes "key_inv a keys" "r \<in> set keys" "ky_digest r = Hash token" "prefix ''cc_live_'' token"
  shows "Bearer (with_keys now keys a) (''Bearer '' @ token) = (case map_of (au_identities a) (Hash token) of Some q \<Rightarrow> Inr q
    | None \<Rightarrow> if ky_revoked_at r = 0 \<and> ky_expires_at r > now then rbind (resolveAPIKey now [r] (Hash token)) (\<lambda>i.
        Inr \<lparr>pr_ManagedKeyDigest = Hash token, pr_Identity = i, pr_Worker = False\<rparr>) else Inl unauthenticated)"
proof -
  have one: "x = r" if "x \<in> set keys" "ky_digest x = Hash token" for x
    using assms that by (auto simp: key_inv_def distinct_map inj_on_def)
  have "List.find (\<lambda>r. ky_digest r = Hash token \<and> ky_revoked_at r = 0 \<and> ky_expires_at r > now) keys =
      (if ky_revoked_at r = 0 \<and> ky_expires_at r > now then Some r else None)"
  proof (cases "ky_revoked_at r = 0 \<and> ky_expires_at r > now")
    case True
    then have "List.find (\<lambda>r. ky_digest r = Hash token \<and> ky_revoked_at r = 0 \<and> ky_expires_at r > now) keys \<noteq> None"
      using assms(2,3) unfolding find_None_iff by blast
    then show ?thesis using True one find_Some_iff_in by fastforce
  next
    case False
    then show ?thesis using one by (auto simp: find_None_iff)
  qed
  moreover obtain k where "key_of_row r = Inr k" using assms(1,2) unfolding key_inv_def grants_def by blast
  ultimately show ?thesis using assms(3,4)
    by (auto simp: Bearer_def with_keys_def SetAPIKeyResolver_def resolveAPIKey_def LookupAPIKeyByDigest_def select_row_def Let_def
        split: option.splits)
qed

text \<open>C39: revocation is final: once a key is revoked, a header with its token resolves to a configured identity with that token or to nobody, whatever
  is created or revoked afterwards and at whatever time.\<close>

theorem revoked_key_is_refused:
  assumes "keys_reachable a keys" "httpRevokeAPIKey (Some p) i now keys = (Inr (), keys')" "now > 0" "Bearer (with_keys t keys a) h = Inr p"
    "r \<in> set keys" "ky_id r = i" "ky_digest r = Hash token" "prefix ''cc_live_'' token" "(key_step a)\<^sup>*\<^sup>* keys' keys''"
  shows "Bearer (with_keys t' keys'' a) (''Bearer '' @ token) = (case map_of (au_identities a) (Hash token) of Some q \<Rightarrow> Inr q | None \<Rightarrow> Inl unauthenticated)"
proof -
  note inv = key_system.reachable_inv [OF assms(1)]
  have inv': "key_inv a keys'" using key_inv_step [OF inv] key_step.revoke [OF assms(4,2)] by blast
  from revoked_one [OF assms(2)] obtain ow where c: "count_where (\<lambda>r. ky_owner r = ow \<and> ky_id r = i) keys = 1"
    and k: "keys' = update_where (\<lambda>r. ky_owner r = ow \<and> ky_id r = i) (\<lambda>r. r\<lparr>ky_revoked_at := (if ky_revoked_at r = 0 then now else ky_revoked_at r)\<rparr>) keys"
    by (elim exE conjE)
  from c obtain x where x: "x \<in> set keys" "ky_owner x = ow" "ky_id x = i"
    using count_where_0_iff [of "\<lambda>r. ky_owner r = ow \<and> ky_id r = i" keys] by auto
  then have "x = r" using inv assms(5,6) by (auto simp: key_inv_def distinct_map inj_on_def)
  with x have "r\<lparr>ky_revoked_at := (if ky_revoked_at r = 0 then now else ky_revoked_at r)\<rparr> \<in> set keys'"
    unfolding k in_update_where_iff by (intro bexI [of _ r]) simp_all
  from key_kept_run [OF assms(9) inv' this] assms(3) obtain v where "r\<lparr>ky_revoked_at := v\<rparr> \<in> set keys''" "v \<noteq> 0"
    by (auto split: if_split_asm)
  with Bearer_key [OF key_system.run_inv [OF assms(9) inv'] this(1), of token] assms(7,8) show ?thesis
    by (simp split: option.splits)
qed

text \<open>C40: a created key works: until it is revoked or expires, its token resolves to exactly the owner, projects, scopes and credentials it was
  created with (or to the configured identity that has the same token).\<close>

theorem created_key_resolves:
  assumes "keys_reachable a keys" "Bearer (with_keys t keys a) h = Inr p"
    "httpCreateAPIKey (Some p) r secret i now keys = (Inr (token, k), keys')" "(key_step a)\<^sup>*\<^sup>* keys' keys''"
    "x \<in> set keys''" "ky_id x = i" "ky_revoked_at x = 0" "t' < kq_ExpiresAtMS r"
  shows "\<exists>q. Bearer (with_keys t' keys'' a) (''Bearer '' @ token) = Inr q \<and> (map_of (au_identities a) (Hash token) = Some q
    \<or> \<not> pr_Worker q \<and> pr_ManagedKeyDigest q = Hash token \<and> pr_Owner q = pr_Owner p \<and> id_Projects (pr_Identity q) = kq_Projects r
      \<and> id_Scopes (pr_Identity q) = kq_Scopes r \<and> id_Credentials (pr_Identity q) = kq_Credentials r)"
proof -
  note inv = key_system.reachable_inv [OF assms(1)] and new = created_row [OF assms(3)]
  have inv': "key_inv a keys'" using key_inv_step [OF inv] key_step.create [OF assms(2,3)] by blast
  note inv'' = key_system.run_inv [OF assms(4) inv']
  from key_kept_run [OF assms(4) inv', of "key_row k"] new(6) obtain v where v: "(key_row k)\<lparr>ky_revoked_at := v\<rparr> \<in> set keys''" by auto
  moreover have "x = (key_row k)\<lparr>ky_revoked_at := v\<rparr>"
    using inv'' v assms(5,6) new(3) by (auto simp: key_inv_def distinct_map inj_on_def key_row_def new_key_def)
  ultimately show ?thesis
    using Bearer_key [OF inv'' assms(5), of token] assms(7,8) new(3,4)
    by (auto simp: key_row_def new_key_def resolveAPIKey_def LookupAPIKeyByDigest_def select_row_def key_of_row_def split: option.splits)
qed

section \<open>A key in use\<close>

definition example_manager :: Identity where
  "example_manager = (pr_Identity example_principal)\<lparr>id_Scopes := [''api_keys:manage'', ''jobs:read'']\<rparr>"

definition example_file :: "string \<Rightarrow> string result" where
  "example_file path = Inr ''0123456789abcdef01234567 ''"

definition example_auth :: Auth where
  "example_auth = \<lparr>au_identities = [(Hash ''0123456789abcdef01234567'', \<lparr>pr_ManagedKeyDigest = [], pr_Identity = example_manager, pr_Worker = False\<rparr>)],
    au_workerStreams = None, au_apiKeyResolver = None, au_workerMTLSMode = []\<rparr>"

definition example_request :: createAPIKeyRequest where
  "example_request = \<lparr>kq_Label = ''ci'', kq_Projects = [''p''], kq_Scopes = [''jobs:read''], kq_Credentials = [], kq_ExpiresAtMS = 5000\<rparr>"

definition example_key :: APIKey where
  "example_key = new_key example_request ''ann'' ''k1'' (new_token ''abc'') 1000"

abbreviation example_header :: string where
  "example_header \<equiv> ''Bearer 0123456789abcdef01234567''"

lemma example_token: "Token example_file x = Inr ''0123456789abcdef01234567''"
proof -
  have "trim_space ''0123456789abcdef01234567 '' = ''0123456789abcdef01234567''" by code_simp
  then show ?thesis by (simp add: Token_def example_file_def)
qed

lemma example_auth_new: "NewAuth example_file [example_manager] [] = Inr example_auth"
  by (simp add: NewAuth_def add_identity_def example_token example_auth_def example_manager_def example_principal_def)

lemma example_bearer: "Bearer (with_keys now keys example_auth) example_header
    = Inr \<lparr>pr_ManagedKeyDigest = [], pr_Identity = example_manager, pr_Worker = False\<rparr>"
  by (simp add: Bearer_def with_keys_def SetAPIKeyResolver_def example_auth_def)

lemma example_key_valid: "validateAPIKey example_key = Inr ()"
proof -
  have "hex_digits (Hash x)" for x
  proof -
    have "list_all (\<lambda>c. lower_hex c) (Hash x)" using hex_string_Hash [of x] by (simp add: hex_string_def)
    moreover have "lower_hex c \<Longrightarrow> lower_hex (ascii_lower c)" for c
      by (auto simp: lower_hex_def ascii_lower_def digit_def in_bytes_def)
    ultimately show ?thesis by (auto simp: hex_digits_def list_all_iff)
  qed
  moreover have "prefix ''cc_live_'' (take 20 (new_token ''abc''))" by (simp add: new_token_def)
  moreover have "validKeyList [''p''] False" "validKeyList [''jobs:read''] False" by code_simp+
  ultimately show ?thesis
    by (simp add: validateAPIKey_def example_key_def new_key_def example_request_def validKeyList_def length_Hash)
qed

lemma example_create:
  "httpCreateAPIKey (Some \<lparr>pr_ManagedKeyDigest = [], pr_Identity = example_manager, pr_Worker = False\<rparr>) example_request (Some ''abc'') ''k1'' 1000 []
    = (Inr (new_token ''abc'', example_key), [key_row example_key])"
proof -
  have "check_key_request example_request example_manager 1000 = Inr ()" by code_simp
  then show ?thesis using example_key_valid
    by (simp add: httpCreateAPIKey_def CreateAPIKey_def insert_row_def Require_def User_def Let_def example_key_def example_manager_def example_principal_def)
qed

lemma key_example_reachable: "keys_reachable example_auth [key_row example_key]"
  by (rule reachable_step [OF reachable_init]) (auto intro: key_step.create [OF example_bearer [of 0 "[]"] example_create])

lemma example_revoke:
  "httpRevokeAPIKey (Some \<lparr>pr_ManagedKeyDigest = [], pr_Identity = example_manager, pr_Worker = False\<rparr>) ''k1'' 2000 [key_row example_key]
    = (Inr (), [(key_row example_key)\<lparr>ky_revoked_at := 2000\<rparr>])"
  by (simp add: httpRevokeAPIKey_def RevokeAPIKey_def Require_def User_def Let_def count_where_def update_where_def key_row_def example_key_def
      new_key_def example_manager_def example_principal_def)

lemma example_token_prefix: "prefix ''cc_live_'' (new_token ''abc'')"
  by (simp add: new_token_def)


theorem revoked_key_is_refused_witness:
  "Bearer (with_keys 3000 [(key_row example_key)\<lparr>ky_revoked_at := 2000\<rparr>] example_auth) (''Bearer '' @ new_token ''abc'')
    = (case map_of (au_identities example_auth) (Hash (new_token ''abc'')) of Some q \<Rightarrow> Inr q | None \<Rightarrow> Inl unauthenticated)"
  by (rule revoked_key_is_refused [OF key_example_reachable example_revoke _ example_bearer, of "key_row example_key"])
    (simp_all add: key_row_def example_key_def new_key_def example_token_prefix)

theorem created_key_resolves_witness:
  "\<exists>q. Bearer (with_keys 3000 [key_row example_key] example_auth) (''Bearer '' @ new_token ''abc'') = Inr q
    \<and> (map_of (au_identities example_auth) (Hash (new_token ''abc'')) = Some q \<or> id_Scopes (pr_Identity q) = [''jobs:read''])"
  using created_key_resolves [OF reachable_init example_bearer [of 0 "[]"] example_create rtranclp.rtrancl_refl, of "key_row example_key" 3000]
  by (auto simp: key_row_def example_key_def new_key_def example_request_def)

end
