(* ===== verification/Worker_Store.thy ===== *)
theory Worker_Store
  imports Task_Assign Control_Plane
begin

text \<open>
  The journal of a worker (\<open>worker/journal.go\<close>, \<open>workspace_lifecycle.go\<close>, \<open>runtime_execution.go\<close>,
  \<open>environment_execution.go\<close>): the tables of its own database, the acceptance of commands, the spool of events,
  the completion of a run and the records of its workspace, runtime and environment.

  A column that holds an encoded message holds the message itself here; the encoders are arguments where the code
  hashes or measures their text. \<open>now\<close> is the clock of an operation, and what the operating system answers
  (sizes of directories, removal of files) is an argument.
\<close>

section \<open>Tables\<close>

record ExecutionRef =
  xr_Provider :: string
  xr_Transport :: string
  xr_ID :: string
  xr_PID :: int
  xr_StartID :: string

record EnvironmentRef =
  er_Provider :: string
  er_ID :: string
  er_Endpoint :: string
  er_TokenFile :: string

record RunRow =
  rn_id :: string
  rn_assignment :: Assignment
  rn_state :: string
  rn_pid :: int
  rn_start_id :: string
  rn_stop :: bool
  rn_seq :: int
  rn_ack :: int
  rn_completion :: "CompleteRequest option"
  rn_uploaded :: bool
  rn_completed :: bool
  rn_runtime_provider :: string
  rn_runtime_transport :: string
  rn_runtime_ref :: "ExecutionRef option"
  rn_runtime_state :: string
  rn_runtime_cleanup :: string
  rn_environment_provider :: string
  rn_environment_ref :: "EnvironmentRef option"
  rn_environment_state :: string
  rn_environment_cleanup :: string

record WorkerCommandRow =
  wc_id :: string
  wc_hash :: string
  wc_state :: string
  wc_attempt :: string
  wc_operation :: string
  wc_updated :: int
  wc_error_code :: string
  wc_error_message :: string

record SpoolRow =
  sp_attempt :: string
  sp_seq :: int
  sp_body :: TaskEvent

record WorkspaceRow =
  ws_attempt :: string
  ws_task :: string
  ws_generation :: int
  ws_repository_ref :: string
  ws_base_commit :: string
  ws_path :: string
  ws_state :: string
  ws_created :: int
  ws_updated :: int
  ws_retain_until :: int
  ws_size_bytes :: int
  ws_deleted_at :: int
  ws_cleanup_error :: string

record WorkerDB =
  wd_runs :: "RunRow list"
  wd_commands :: "WorkerCommandRow list"
  wd_spool :: "SpoolRow list"
  wd_workspaces :: "WorkspaceRow list"

record Command =
  cd_CommandId :: string
  cd_Kind :: string
  cd_Assignment :: "Assignment option"
  cd_Control :: "ControlCommand option"

definition find_run :: "string \<Rightarrow> WorkerDB \<Rightarrow> RunRow option" where
  "find_run i db = List.find (\<lambda>r. rn_id r = i) (wd_runs db)"

definition find_command :: "string \<Rightarrow> WorkerDB \<Rightarrow> WorkerCommandRow option" where
  "find_command i db = List.find (\<lambda>c. wc_id c = i) (wd_commands db)"

definition find_workspace :: "string \<Rightarrow> WorkerDB \<Rightarrow> WorkspaceRow option" where
  "find_workspace i db = List.find (\<lambda>x. ws_attempt x = i) (wd_workspaces db)"

definition update_runs :: "(RunRow \<Rightarrow> bool) \<Rightarrow> (RunRow \<Rightarrow> RunRow) \<Rightarrow> WorkerDB \<Rightarrow> WorkerDB" where
  "update_runs P f db = db\<lparr>wd_runs := update_where P f (wd_runs db)\<rparr>"

definition new_run :: "Assignment \<Rightarrow> bool \<Rightarrow> RunRow" where
  "new_run a stop = \<lparr>rn_id = as_AttemptId a, rn_assignment = a, rn_state = ''ACCEPTED'', rn_pid = 0, rn_start_id = [],
    rn_stop = stop, rn_seq = 0, rn_ack = 0, rn_completion = None, rn_uploaded = False, rn_completed = False,
    rn_runtime_provider = [], rn_runtime_transport = [], rn_runtime_ref = None, rn_runtime_state = [], rn_runtime_cleanup = [],
    rn_environment_provider = [], rn_environment_ref = None, rn_environment_state = [], rn_environment_cleanup = []\<rparr>"

text \<open>The default of the column \<open>state\<close> of \<open>commands\<close> is \<open>COMPLETED\<close>.\<close>

definition plain_command :: "string \<Rightarrow> string \<Rightarrow> WorkerCommandRow" where
  "plain_command i hash = \<lparr>wc_id = i, wc_hash = hash, wc_state = ''COMPLETED'', wc_attempt = [], wc_operation = [],
    wc_updated = 0, wc_error_code = [], wc_error_message = []\<rparr>"

definition insert_command :: "WorkerCommandRow \<Rightarrow> WorkerDB \<Rightarrow> WorkerDB result" where
  "insert_command c db = (
    if find_command (wc_id c) db \<noteq> None
      \<or> wc_state c \<notin> {''PENDING'', ''EXECUTING'', ''COMPLETED'', ''REJECTED'', ''UNKNOWN''} then Inl Sql_constraint
    else Inr (db\<lparr>wd_commands := wd_commands db @ [c]\<rparr>))"

text \<open>The trigger \<open>workspace_state_transition_guard\<close>.\<close>

definition workspace_transition :: "string \<Rightarrow> string \<Rightarrow> bool" where
  "workspace_transition old new \<longleftrightarrow> old = new
    \<or> old = ''PREPARING'' \<and> new \<in> {''READY'', ''RETAINED'', ''QUARANTINED'', ''DELETING''}
    \<or> old = ''READY'' \<and> new \<in> {''IN_USE'', ''RETAINED'', ''QUARANTINED'', ''DELETING''}
    \<or> old = ''IN_USE'' \<and> new \<in> {''RETAINED'', ''QUARANTINED''}
    \<or> old = ''RETAINED'' \<and> new = ''DELETING''
    \<or> old = ''DELETING'' \<and> new = ''DELETED''"

text \<open>An \<open>UPDATE\<close> of \<open>workspaces\<close> with the number of rows it affected; the trigger aborts the statement.\<close>

definition update_workspaces ::
  "(WorkspaceRow \<Rightarrow> bool) \<Rightarrow> (WorkspaceRow \<Rightarrow> WorkspaceRow) \<Rightarrow> WorkerDB \<Rightarrow> (nat \<times> WorkerDB) result" where
  "update_workspaces P f db = (
    let hit = filter P (wd_workspaces db) in
    if list_all (\<lambda>x. workspace_transition (ws_state x) (ws_state (f x))) hit
    then Inr (length hit, db\<lparr>wd_workspaces := update_where P f (wd_workspaces db)\<rparr>)
    else Inl Sql_constraint)"

definition attempt_ref :: "Assignment \<Rightarrow> AttemptRef" where
  "attempt_ref a = \<lparr>at_AttemptId = as_AttemptId a, at_Generation = as_Generation a, at_LeaseToken = as_LeaseToken a\<rparr>"

definition no_completion :: CompleteRequest where
  "no_completion = \<lparr>cr_Attempt = None, cr_FinalWorkerSeq = 0, cr_Success = False, cr_CleanupConfirmed = False,
    cr_ErrorCode = [], cr_ErrorMessage = [], cr_Result = [], cr_NativeSessionId = [], cr_ArtifactIds = []\<rparr>"

section \<open>Acceptance of start and stop commands\<close>

definition accept_row :: "(Assignment \<Rightarrow> string) \<Rightarrow> string \<Rightarrow> Assignment \<Rightarrow> WorkerDB \<Rightarrow> (bool \<times> string \<times> WorkerDB) result" where
  "accept_row enc kind a db = (
    case find_run (as_AttemptId a) db of
      Some r \<Rightarrow>
        let original = rn_assignment r in
        if as_TaskId original \<noteq> as_TaskId a \<or> as_Generation original \<noteq> as_Generation a \<or> as_LeaseToken original \<noteq> as_LeaseToken a
        then Inl (Error ''attempt identity conflict'')
        else if kind = ''start'' \<and> \<not> rn_stop r \<and> Hash (enc original) \<noteq> Hash (enc a) then Inl (Error ''start spec conflict'')
        else Inr (False, rn_state r, db)
    | None \<Rightarrow> Inr (kind = ''start'', ''ACCEPTED'', db\<lparr>wd_runs := wd_runs db @ [new_run a (kind = ''stop'')]\<rparr>))"

definition stopped_before_launch :: "Assignment \<Rightarrow> CompleteRequest" where
  "stopped_before_launch a = no_completion\<lparr>cr_Attempt := Some (attempt_ref a), cr_CleanupConfirmed := True,
    cr_ErrorCode := ''CANCELED'', cr_ErrorMessage := ''stopped before launch''\<rparr>"

definition accept_stop :: "Assignment \<Rightarrow> string \<Rightarrow> WorkerDB \<Rightarrow> WorkerDB" where
  "accept_stop a state db = (
    let db1 = update_runs (\<lambda>r. rn_id r = as_AttemptId a) (\<lambda>r. r\<lparr>rn_stop := True\<rparr>) db in
    if state = ''ACCEPTED''
    then update_runs (\<lambda>r. rn_id r = as_AttemptId a \<and> rn_state r = ''ACCEPTED'')
      (\<lambda>r. r\<lparr>rn_state := ''DONE'', rn_completion := Some (stopped_before_launch a)\<rparr>) db1
    else db1)"

definition accept_command_tx ::
  "(Command \<Rightarrow> string) \<Rightarrow> (Assignment \<Rightarrow> string) \<Rightarrow> Command \<Rightarrow> Assignment \<Rightarrow> WorkerDB \<Rightarrow> (bool \<times> WorkerDB) result" where
  "accept_command_tx enc encA c a db = (
    let hash = Hash (enc c) in
    case find_command (cd_CommandId c) db of
      Some old \<Rightarrow> if wc_hash old \<noteq> hash then Inl (Error ''command hash conflict'') else Inr (False, db)
    | None \<Rightarrow>
        rbind (accept_row encA (cd_Kind c) a db) (\<lambda>(launch, state, db1).
        let db2 = if cd_Kind c = ''stop'' then accept_stop a state db1 else db1 in
        rbind (insert_command (plain_command (cd_CommandId c) hash) db2) (\<lambda>db3. Inr (launch, db3))))"

text \<open>\<open>accept\<close>: whether the caller has to launch the assignment, and the database.\<close>

definition accept_command ::
  "(Command \<Rightarrow> string) \<Rightarrow> (Assignment \<Rightarrow> string) \<Rightarrow> Command \<Rightarrow> WorkerDB \<Rightarrow> (bool \<times> WorkerDB) result" where
  "accept_command enc encA c db = (
    case cd_Assignment c of None \<Rightarrow> Inl (Error ''invalid command'')
    | Some a \<Rightarrow>
        if as_AttemptId a = [] \<or> as_TaskId a = [] \<or> as_Generation a < 1 \<or> as_LeaseToken a = []
          \<or> (cd_Kind c \<noteq> ''start'' \<and> cd_Kind c \<noteq> ''stop'') then Inl (Error ''invalid command'')
        else accept_command_tx enc encA c a db)"

section \<open>The spool of events\<close>

definition spool_limit :: int where
  "spool_limit = 268435456"

definition spooled_bytes :: "(TaskEvent \<Rightarrow> string) \<Rightarrow> string \<Rightarrow> WorkerDB \<Rightarrow> int" where
  "spooled_bytes enc attempt db = sum_list (map (\<lambda>s. int (length (enc (sp_body s)))) (filter (\<lambda>s. sp_attempt s = attempt) (wd_spool db)))"

text \<open>\<open>body\<close> carries the type and the payload of the event, \<open>i\<close> is the drawn identifier.\<close>

definition worker_event :: "Assignment \<Rightarrow> TaskEvent \<Rightarrow> string \<Rightarrow> int \<Rightarrow> TaskEvent" where
  "worker_event a body i n = body\<lparr>ev_TaskId := as_TaskId a, ev_AttemptId := as_AttemptId a, ev_Generation := as_Generation a,
    ev_EventId := i, ev_WorkerSeq := n, ev_Seq := 0, ev_RecordedAtMs := 0\<rparr>"

definition emit_event :: "(TaskEvent \<Rightarrow> string) \<Rightarrow> Assignment \<Rightarrow> TaskEvent \<Rightarrow> string \<Rightarrow> WorkerDB \<Rightarrow> WorkerDB result" where
  "emit_event enc a body i db = (
    if spooled_bytes enc (as_AttemptId a) db + ev_PayloadLength body > spool_limit
    then Inl (Error ''local event spool limit reached'')
    else case find_run (as_AttemptId a) db of None \<Rightarrow> Inl Sql_no_rows
    | Some r \<Rightarrow>
        let n = rn_seq r + 1 in
        if list_ex (\<lambda>s. sp_attempt s = as_AttemptId a \<and> sp_seq s = n) (wd_spool db) then Inl Sql_constraint
        else let db1 = update_runs (\<lambda>r. rn_id r = as_AttemptId a) (\<lambda>r. r\<lparr>rn_seq := n\<rparr>) db in
          Inr (db1\<lparr>wd_spool := wd_spool db1 @ [\<lparr>sp_attempt = as_AttemptId a, sp_seq = n, sp_body = worker_event a body i n\<rparr>]\<rparr>))"

section \<open>Workspaces\<close>

text \<open>
  \<open>workspace.Path\<close>. \<open>filepath.Base\<close> returns a name unchanged when it has no separator or is the separator
  itself; joining the separator to a directory gives the directory.
\<close>

definition workspace_Path :: "string \<Rightarrow> string \<Rightarrow> string result" where
  "workspace_Path root i = (
    if i = [] \<or> CHR ''/'' \<in> set i \<and> i \<noteq> ''/'' \<or> i = ''.'' \<or> i = ''..'' then Inl (Error ''invalid workspace id'')
    else if i = ''/'' then Inr root else Inr (root @ ''/'' @ i))"

lemma separator_is_the_root: "workspace_Path root ''/'' = Inr root"
  by (simp add: workspace_Path_def)

text \<open>What \<open>workspace.Size\<close> returns: a size with the text of an error and whether it is \<open>os.ErrNotExist\<close>.\<close>

type_synonym DirSize = "int \<times> (string \<times> bool) option"

definition live_workspace :: "string \<Rightarrow> WorkspaceRow \<Rightarrow> bool" where
  "live_workspace attempt x \<longleftrightarrow> ws_attempt x = attempt \<and> ws_state x \<in> {''PREPARING'', ''READY'', ''IN_USE''}"

definition finalizeWorkspace :: "int \<Rightarrow> DirSize \<Rightarrow> int \<Rightarrow> Assignment \<Rightarrow> bool \<Rightarrow> WorkerDB \<Rightarrow> WorkerDB result" where
  "finalizeWorkspace retention sz now a cleanupConfirmed db = (
    case find_workspace (as_AttemptId a) db of None \<Rightarrow> Inr db
    | Some w \<Rightarrow>
        if ws_state w \<in> {''RETAINED'', ''QUARANTINED'', ''DELETING'', ''DELETED''} then Inr db
        else rbind (workspace_Path [] (ws_path w)) (\<lambda>_.
          if \<not> cleanupConfirmed then
            rbind (update_workspaces (live_workspace (as_AttemptId a))
              (\<lambda>x. x\<lparr>ws_state := ''QUARANTINED'', ws_updated := now, ws_size_bytes := fst sz, ws_retain_until := 0,
                ws_cleanup_error := (case snd sz of None \<Rightarrow> ''execution cleanup unconfirmed'' | Some (e, _) \<Rightarrow> e)\<rparr>) db)
              (\<lambda>(n, db'). Inr db')
          else case snd sz of Some (e, False) \<Rightarrow> Inl (Error e)
          | _ \<Rightarrow>
            rbind (update_workspaces (live_workspace (as_AttemptId a))
              (\<lambda>x. x\<lparr>ws_state := ''RETAINED'', ws_updated := now, ws_size_bytes := fst sz,
                ws_retain_until := now + retention, ws_cleanup_error := []\<rparr>) db)
              (\<lambda>(n, db'). Inr db')))"

definition workspacePreSpawnSafe :: "string \<Rightarrow> WorkerDB \<Rightarrow> bool" where
  "workspacePreSpawnSafe attempt db = (
    case find_workspace attempt db of None \<Rightarrow> False | Some w \<Rightarrow> ws_state w = ''PREPARING'' \<or> ws_state w = ''READY'')"

definition markWorkspaceInUse :: "int \<Rightarrow> Assignment \<Rightarrow> WorkerDB \<Rightarrow> WorkerDB result" where
  "markWorkspaceInUse now a db =
    rbind (update_workspaces (\<lambda>x. ws_attempt x = as_AttemptId a \<and> ws_task x = as_TaskId a
        \<and> ws_generation x = as_Generation a \<and> ws_state x = ''READY'')
      (\<lambda>x. x\<lparr>ws_state := ''IN_USE'', ws_updated := now\<rparr>) db) (\<lambda>(n, db').
    if n \<noteq> 1 then Inl (Error ''workspace IN_USE transition lost ownership'') else Inr db')"

text \<open>The transaction of \<open>prepareWorkspace\<close> that claims the workspace of an attempt.\<close>

definition claim_workspace :: "int \<Rightarrow> Assignment \<Rightarrow> string \<Rightarrow> string \<Rightarrow> WorkerDB \<Rightarrow> WorkerDB result" where
  "claim_workspace now a repo base db = (
    let i = as_AttemptId a;
        row = \<lparr>ws_attempt = i, ws_task = as_TaskId a, ws_generation = as_Generation a, ws_repository_ref = repo,
          ws_base_commit = base, ws_path = i, ws_state = ''PREPARING'', ws_created = now, ws_updated = now,
          ws_retain_until = 0, ws_size_bytes = 0, ws_deleted_at = 0, ws_cleanup_error = []\<rparr> in
    rbind (case find_workspace i db of
        Some w \<Rightarrow> Inr db
      | None \<Rightarrow> if find_run i db = None \<or> list_ex (\<lambda>x. ws_path x = i) (wd_workspaces db) then Inl Sql_constraint
          else Inr (db\<lparr>wd_workspaces := wd_workspaces db @ [row]\<rparr>)) (\<lambda>db1.
    case find_workspace i db1 of None \<Rightarrow> Inl Sql_no_rows
    | Some w \<Rightarrow>
        if ws_task w \<noteq> as_TaskId a \<or> ws_generation w \<noteq> as_Generation a \<or> ws_repository_ref w \<noteq> repo
          \<or> ws_base_commit w \<noteq> base \<or> ws_path w \<noteq> i then Inl (Error ''workspace ownership conflict'')
        else if ws_state w \<noteq> ''PREPARING'' then Inl (Error (''workspace already initialized in state '' @ ws_state w))
        else Inr db1))"

text \<open>
  \<open>deleteWorkspace\<close>. \<open>inputs\<close> and \<open>files\<close> are the errors of removing the inputs of the attempt and its workspace.
\<close>

definition note_deleting :: "string \<Rightarrow> string \<Rightarrow> int \<Rightarrow> WorkerDB \<Rightarrow> WorkerDB" where
  "note_deleting attempt e now db = (
    case update_workspaces (\<lambda>x. ws_attempt x = attempt \<and> ws_state x = ''DELETING'')
      (\<lambda>x. x\<lparr>ws_cleanup_error := e, ws_updated := now\<rparr>) db of Inl _ \<Rightarrow> db | Inr (n, db') \<Rightarrow> db')"

definition remove_workspace :: "string option \<Rightarrow> string option \<Rightarrow> int \<Rightarrow> string \<Rightarrow> WorkerDB \<Rightarrow> unit result \<times> WorkerDB" where
  "remove_workspace inputs files now attempt db = (
    case inputs of Some e \<Rightarrow> (Inl (Error e), note_deleting attempt (''input cleanup: '' @ e) now db)
    | None \<Rightarrow>
        case files of Some e \<Rightarrow> (Inl (Error e), note_deleting attempt e now db)
        | None \<Rightarrow>
            case update_workspaces (\<lambda>x. ws_attempt x = attempt \<and> ws_state x = ''DELETING'')
              (\<lambda>x. x\<lparr>ws_state := ''DELETED'', ws_deleted_at := now, ws_updated := now, ws_cleanup_error := []\<rparr>) db of
              Inl e \<Rightarrow> (Inl e, db)
            | Inr (n, db') \<Rightarrow> (Inr (), db'))"

definition deleteWorkspace ::
  "string option \<Rightarrow> string option \<Rightarrow> int \<Rightarrow> string \<Rightarrow> string \<Rightarrow> WorkerDB \<Rightarrow> unit result \<times> WorkerDB" where
  "deleteWorkspace inputs files now attempt reason db = (
    case update_workspaces (\<lambda>x. ws_attempt x = attempt \<and> ws_state x \<in> {''PREPARING'', ''READY'', ''RETAINED''})
      (\<lambda>x. x\<lparr>ws_state := ''DELETING'', ws_updated := now, ws_cleanup_error := reason\<rparr>) db of
      Inl e \<Rightarrow> (Inl e, db)
    | Inr (n, db1) \<Rightarrow>
        if n = 0 then
          (case find_workspace attempt db1 of None \<Rightarrow> (Inl Sql_no_rows, db1)
           | Some w \<Rightarrow>
              if ws_state w \<noteq> ''DELETING'' \<and> ws_state w \<noteq> ''DELETED''
              then (Inl (Error (''workspace '' @ attempt @ '' cannot be deleted from state '' @ ws_state w)), db1)
              else remove_workspace inputs files now attempt db1)
        else remove_workspace inputs files now attempt db1)"

section \<open>Completion of a run\<close>

definition workspace_failed :: "CompleteRequest \<Rightarrow> CompleteRequest" where
  "workspace_failed c = (
    if cr_Success c then c\<lparr>cr_Success := False, cr_ErrorCode := ''WORKSPACE_ERROR'',
      cr_ErrorMessage := ''workspace lifecycle persistence failed''\<rparr>
    else if cr_ErrorMessage c = [] then c\<lparr>cr_ErrorMessage := ''workspace lifecycle persistence failed''\<rparr>
    else c)"

definition note_inputs :: "string option \<Rightarrow> string \<Rightarrow> int \<Rightarrow> WorkerDB \<Rightarrow> WorkerDB" where
  "note_inputs inputs attempt now db = (
    case inputs of None \<Rightarrow> db
    | Some e \<Rightarrow>
        case update_workspaces (\<lambda>x. ws_attempt x = attempt \<and> ws_state x = ''RETAINED'')
          (\<lambda>x. x\<lparr>ws_cleanup_error := ''input cleanup: '' @ e, ws_updated := now\<rparr>) db of
          Inl _ \<Rightarrow> db | Inr (n, db') \<Rightarrow> db')"

definition save_completion :: "string \<Rightarrow> CompleteRequest \<Rightarrow> WorkerDB \<Rightarrow> WorkerDB" where
  "save_completion attempt c db = update_runs (\<lambda>r. rn_id r = attempt \<and> rn_completion r = None)
    (\<lambda>r. r\<lparr>rn_state := ''DONE'', rn_completion := Some c\<rparr>) db"

text \<open>The part of \<open>completion\<close> on the workspace and its inputs, with the request it may change.\<close>

definition close_workspace ::
  "int \<Rightarrow> DirSize \<Rightarrow> string option \<Rightarrow> int \<Rightarrow> Assignment \<Rightarrow> CompleteRequest \<Rightarrow> WorkerDB \<Rightarrow> CompleteRequest \<times> WorkerDB" where
  "close_workspace retention sz inputs now a c db = (
    let (c1, db1) = (case finalizeWorkspace retention sz now a (cr_CleanupConfirmed c) db of
        Inl _ \<Rightarrow> (workspace_failed c, db) | Inr d \<Rightarrow> (c, d)) in
    (c1, if cr_CleanupConfirmed c1 then note_inputs inputs (as_AttemptId a) now db1 else db1))"

definition worker_completion ::
  "int \<Rightarrow> DirSize \<Rightarrow> string option \<Rightarrow> int \<Rightarrow> Assignment \<Rightarrow> CompleteRequest \<Rightarrow> WorkerDB \<Rightarrow> unit result \<times> WorkerDB" where
  "worker_completion retention sz inputs now a c db = (
    let (c1, db1) = close_workspace retention sz inputs now a c db in
    case find_run (as_AttemptId a) db1 of None \<Rightarrow> (Inl Sql_no_rows, db1)
    | Some r \<Rightarrow> (Inr (), save_completion (as_AttemptId a)
        (c1\<lparr>cr_FinalWorkerSeq := rn_seq r, cr_Attempt := Some (attempt_ref a)\<rparr>) db1))"

definition failUnstarted ::
  "int \<Rightarrow> DirSize \<Rightarrow> string option \<Rightarrow> int \<Rightarrow> Assignment \<Rightarrow> string \<Rightarrow> string \<Rightarrow> WorkerDB \<Rightarrow> unit result \<times> WorkerDB" where
  "failUnstarted retention sz inputs now a code msg db = worker_completion retention sz inputs now a
    (no_completion\<lparr>cr_CleanupConfirmed := True, cr_ErrorCode := code, cr_ErrorMessage := msg\<rparr>) db"

section \<open>Runtime and environment of a run\<close>

definition ref_complete :: "ExecutionRef \<Rightarrow> bool" where
  "ref_complete r \<longleftrightarrow> trim_space (xr_Provider r) \<noteq> [] \<and> trim_space (xr_Transport r) \<noteq> [] \<and> trim_space (xr_ID r) \<noteq> []"

definition EncodeExecutionRef :: "ExecutionRef \<Rightarrow> ExecutionRef result" where
  "EncodeExecutionRef r = (if ref_complete r then Inr r else Inl (Error ''runtime execution reference is incomplete''))"

definition decodeRuntimeRef :: "string \<Rightarrow> ExecutionRef \<Rightarrow> ExecutionRef result" where
  "decodeRuntimeRef provider r =
    rbind (EncodeExecutionRef r) (\<lambda>_.
    if provider = [] \<or> xr_Provider r \<noteq> provider then Inl (Error ''runtime execution provider mismatch'') else Inr r)"

definition running_run :: "ExecutionRef \<Rightarrow> RunRow \<Rightarrow> RunRow" where
  "running_run x r = r\<lparr>rn_state := ''RUNNING'', rn_pid := xr_PID x, rn_start_id := xr_StartID x,
    rn_runtime_provider := xr_Provider x, rn_runtime_transport := xr_Transport x, rn_runtime_ref := Some x,
    rn_runtime_state := ''RUNNING'', rn_runtime_cleanup := ''PENDING''\<rparr>"

definition open_run :: "string \<Rightarrow> RunRow \<Rightarrow> bool" where
  "open_run attempt r \<longleftrightarrow> rn_id r = attempt \<and> rn_completion r = None"

text \<open>\<open>body\<close> is the event \<open>attempt.started\<close>, \<open>i\<close> its drawn identifier. The update stays when the event is refused.\<close>

definition recordRuntimeStarted ::
  "(TaskEvent \<Rightarrow> string) \<Rightarrow> Assignment \<Rightarrow> ExecutionRef \<Rightarrow> TaskEvent \<Rightarrow> string \<Rightarrow> WorkerDB \<Rightarrow> unit result \<times> WorkerDB" where
  "recordRuntimeStarted enc a x body i db = (
    case as_Spec a of None \<Rightarrow> (Inl (Error ''runtime execution provider mismatch''), db)
    | Some s \<Rightarrow>
        if xr_Provider x \<noteq> ts_RuntimeProfile s then (Inl (Error ''runtime execution provider mismatch''), db)
        else case EncodeExecutionRef x of Inl e \<Rightarrow> (Inl e, db)
        | Inr _ \<Rightarrow>
            if length (filter (open_run (as_AttemptId a)) (wd_runs db)) \<noteq> 1
            then (Inl (Error ''runtime start lost Attempt ownership''), update_runs (open_run (as_AttemptId a)) (running_run x) db)
            else let db1 = update_runs (open_run (as_AttemptId a)) (running_run x) db in
              case emit_event enc a body i db1 of Inl e \<Rightarrow> (Inl e, db1) | Inr db2 \<Rightarrow> (Inr (), db2))"

definition or_unknown :: "string \<Rightarrow> string" where
  "or_unknown s = (if s = [] then ''UNKNOWN'' else s)"

definition recordRuntimeTerminal :: "string \<Rightarrow> string \<Rightarrow> string \<Rightarrow> WorkerDB \<Rightarrow> WorkerDB result" where
  "recordRuntimeTerminal attempt state cleanup db = (
    if attempt = [] then Inl (Error ''attempt id required'')
    else Inr (update_runs (open_run attempt) (\<lambda>r. r\<lparr>rn_runtime_state := or_unknown state, rn_runtime_cleanup := or_unknown cleanup\<rparr>) db))"

definition requiredEnvironment :: "Assignment \<Rightarrow> string result" where
  "requiredEnvironment a = (
    case as_Spec a of None \<Rightarrow> Inl (Error ''assignment task spec required'')
    | Some s \<Rightarrow>
        let name = RequiredName (ts_RequiredCapabilities s) in
        if name = [] then Inl (Error ''assignment has conflicting environment requirements'') else Inr name)"

definition environment_name :: "string \<Rightarrow> bool" where
  "environment_name s = name_pattern ''_.-'' s"

definition validRef :: "EnvironmentRef \<Rightarrow> EnvironmentRef result" where
  "validRef r = (
    if trim_space (er_Provider r) = [] \<or> trim_space (er_ID r) = [] then Inl (Error ''environment reference is incomplete'')
    else if \<not> environment_name (er_Provider r) then Inl (Error (''invalid environment provider reference: '' @ quoted (er_Provider r)))
    else Inr r)"

definition decodeEnvironmentRef :: "string \<Rightarrow> EnvironmentRef \<Rightarrow> EnvironmentRef result" where
  "decodeEnvironmentRef provider r =
    rbind (validRef r) (\<lambda>_.
    if provider = [] \<or> er_Provider r \<noteq> provider then Inl (Error ''environment provider mismatch'') else Inr r)"

definition recordEnvironmentPrepared :: "Assignment \<Rightarrow> EnvironmentRef \<Rightarrow> WorkerDB \<Rightarrow> unit result \<times> WorkerDB" where
  "recordEnvironmentPrepared a x db = (
    case rbind (requiredEnvironment a) (\<lambda>name.
        if er_Provider x \<noteq> name then Inl (Error ''environment provider mismatch'') else validRef x) of
      Inl e \<Rightarrow> (Inl e, db)
    | Inr _ \<Rightarrow>
        (if length (filter (open_run (as_AttemptId a)) (wd_runs db)) \<noteq> 1 then Inl (Error ''environment prepare lost Attempt ownership'') else Inr (),
         update_runs (open_run (as_AttemptId a)) (\<lambda>r. r\<lparr>rn_environment_provider := er_Provider x, rn_environment_ref := Some x,
           rn_environment_state := ''PREPARED'', rn_environment_cleanup := ''PENDING''\<rparr>) db))"

definition recordEnvironmentActive :: "Assignment \<Rightarrow> EnvironmentRef \<Rightarrow> WorkerDB \<Rightarrow> unit result \<times> WorkerDB" where
  "recordEnvironmentActive a x db = (
    let hit = (\<lambda>r. open_run (as_AttemptId a) r \<and> rn_environment_provider r = er_Provider x) in
    (if length (filter hit (wd_runs db)) \<noteq> 1 then Inl (Error ''environment activation lost Attempt ownership'') else Inr (),
     update_runs hit (\<lambda>r. r\<lparr>rn_environment_state := ''ACTIVE'', rn_environment_cleanup := ''PENDING''\<rparr>) db))"

definition recordEnvironmentTerminal :: "string \<Rightarrow> string \<Rightarrow> string \<Rightarrow> WorkerDB \<Rightarrow> WorkerDB" where
  "recordEnvironmentTerminal attempt state cleanup db = update_runs (open_run attempt)
    (\<lambda>r. r\<lparr>rn_environment_state := or_unknown state, rn_environment_cleanup := or_unknown cleanup\<rparr>) db"

end
