(* ===== verification/Worker_Journal.thy ===== *)
theory Worker_Journal
  imports Worker_Store
begin

text \<open>
  What a worker does with its journal: control commands (\<open>worker/control_execution.go\<close>), recovery after a restart
  (\<open>recover\<close> of \<open>journal.go\<close>), delivery of events and results (\<open>flush.go\<close>), leases and launches (\<open>worker.go\<close>),
  retention of workspaces (\<open>workspace_lifecycle.go\<close>). Providers of runtimes and environments, the client of the
  server and the file system are arguments.
\<close>

section \<open>Control commands\<close>

definition controlCapability :: "ControlCommand \<Rightarrow> string result" where
  "controlCapability cmd = (
    if cc_Action cmd = ''input'' then
      (if cc_Mode cmd = [] \<or> cc_Mode cmd = ''interactive'' then Inr ''interactive_input''
       else if cc_Mode cmd = ''queue_next'' then Inr ''queue_next_input''
       else if cc_Mode cmd = ''steer_current'' then Inr ''steer_current''
       else Inl (Error ''unsupported input mode''))
    else if cc_Action cmd = ''interrupt'' then Inr ''interrupt''
    else if cc_Action cmd = ''resume'' then
      (if cc_SessionRef cmd = [] then Inl (Error ''session_ref required for resume'') else Inr ''session_resume'')
    else if cc_Action cmd = ''approval'' then
      (if cc_ApprovalId cmd = [] \<or> cc_RequestVersion cmd < 1 \<or> (cc_Decision cmd \<noteq> ''ACCEPT'' \<and> cc_Decision cmd \<noteq> ''REJECT'')
       then Inl (Error ''invalid approval command'') else Inr ''approval'')
    else Inl (Error ''unsupported control action''))"

definition controlAck :: "string \<Rightarrow> ControlCommand \<Rightarrow> string \<Rightarrow> string \<Rightarrow> string \<Rightarrow> CommandAck" where
  "controlAck i cmd state code message = \<lparr>ak_CommandId = i, ak_State = state, ak_OperationId = cc_OperationId cmd,
    ak_ErrorCode = code, ak_ErrorMessage = message\<rparr>"

definition control_row :: "string \<Rightarrow> string \<Rightarrow> ControlCommand \<Rightarrow> string \<Rightarrow> int \<Rightarrow> string \<Rightarrow> string \<Rightarrow> WorkerCommandRow" where
  "control_row i hash cmd state now code message = \<lparr>wc_id = i, wc_hash = hash, wc_state = state, wc_attempt = cc_AttemptId cmd,
    wc_operation = cc_OperationId cmd, wc_updated = now, wc_error_code = code, wc_error_message = message\<rparr>"

definition replay_ack :: "string \<Rightarrow> ControlCommand \<Rightarrow> WorkerCommandRow \<Rightarrow> CommandAck result" where
  "replay_ack i cmd row = (
    if wc_state row = ''COMPLETED'' then Inr (controlAck i cmd ''COMPLETED'' (wc_error_code row) (wc_error_message row))
    else if wc_state row = ''REJECTED'' then Inr (controlAck i cmd ''REJECTED'' (wc_error_code row) (wc_error_message row))
    else if wc_state row \<in> {''UNKNOWN'', ''EXECUTING'', ''PENDING''}
    then Inr (controlAck i cmd ''UNKNOWN'' ''EXECUTION_UNVERIFIABLE'' ''control execution outcome is unknown'')
    else Inl (Error ''invalid persisted control state''))"

text \<open>Why a run cannot be controlled now, if it cannot.\<close>

definition control_refusal :: "ControlCommand \<Rightarrow> RunRow \<Rightarrow> WorkerDB \<Rightarrow> string option result" where
  "control_refusal cmd r db = (
    if rn_runtime_provider r = [] \<or> rn_runtime_ref r = None then Inr (Some ''runtime reference unavailable'')
    else if cc_Action cmd = ''resume'' then
      (case find_workspace (cc_AttemptId cmd) db of None \<Rightarrow> Inl Sql_no_rows
       | Some w \<Rightarrow>
          if ws_state w \<noteq> ''IN_USE'' \<or> rn_environment_state r \<noteq> ''ACTIVE''
            \<or> (rn_runtime_state r \<noteq> ''UNKNOWN'' \<and> rn_runtime_state r \<noteq> ''RUNNING'')
          then Inr (Some ''resume compatibility check failed'') else Inr None)
    else if rn_runtime_state r \<noteq> ''RUNNING'' then Inr (Some ''runtime is not in a controllable running state'')
    else Inr None)"

text \<open>The transaction of \<open>executeControl\<close>: an acknowledgement to send at once, or \<open>None\<close> for a command that is now \<open>EXECUTING\<close>.\<close>

definition claim_control ::
  "(Command \<Rightarrow> string) \<Rightarrow> int \<Rightarrow> Command \<Rightarrow> ControlCommand \<Rightarrow> WorkerDB \<Rightarrow> (CommandAck option \<times> WorkerDB) result" where
  "claim_control enc now c cmd db = (
    let i = cd_CommandId c; hash = Hash (enc c) in
    case find_command i db of
      Some old \<Rightarrow>
        if wc_hash old \<noteq> hash then Inl (Error ''command hash conflict'')
        else rbind (replay_ack i cmd old) (\<lambda>ack. Inr (Some ack, db))
    | None \<Rightarrow>
        case List.find (open_run (cc_AttemptId cmd)) (wd_runs db) of
          None \<Rightarrow> Inl (Error ''attempt unavailable for control'')
        | Some r \<Rightarrow>
            let a = rn_assignment r in
            if as_TaskId a \<noteq> cc_TaskId cmd \<or> as_AttemptId a \<noteq> cc_AttemptId cmd \<or> as_Generation a \<noteq> cc_Generation cmd
            then Inl (Error ''control attempt identity conflict'')
            else rbind (control_refusal cmd r db) (\<lambda>refusal.
              case refusal of
                Some why \<Rightarrow>
                  rbind (insert_command (control_row i hash cmd ''REJECTED'' now ''EXECUTION_UNVERIFIABLE'' why) db) (\<lambda>db'.
                  Inr (Some (controlAck i cmd ''REJECTED'' ''EXECUTION_UNVERIFIABLE'' why), db'))
              | None \<Rightarrow>
                  rbind (insert_command (control_row i hash cmd ''EXECUTING'' now [] []) db) (\<lambda>db'. Inr (None, db'))))"

record ControlDescriptor =
  de_ProtocolVersion :: string
  de_Capabilities :: "string list"

definition descriptor_Validate :: "ControlDescriptor \<Rightarrow> unit result" where
  "descriptor_Validate d = (
    if de_ProtocolVersion d \<noteq> ''control.v1alpha1'' then Inl (Error ''unsupported control protocol version'')
    else ValidateCapabilities (de_Capabilities d))"

text \<open>The calls of a session provider, with the reference of the running runtime.\<close>

datatype control_call =
    Call_input ExecutionRef ControlCommand string
  | Call_interrupt ExecutionRef ControlCommand
  | Call_resume ExecutionRef ControlCommand
  | Call_approve ExecutionRef ControlCommand

text \<open>What the registry of adapters knows of a provider.\<close>

record ProviderInfo =
  pi_Session :: bool
  pi_Descriptor :: "ControlDescriptor option"

definition ControlDescriptorFor :: "ProviderInfo \<Rightarrow> ControlDescriptor result" where
  "ControlDescriptorFor p = (
    case pi_Descriptor p of None \<Rightarrow> Inl (Error ''runtime has no control descriptor'')
    | Some d \<Rightarrow> rbind (descriptor_Validate d) (\<lambda>_. Inr d))"

text \<open>Everything \<open>executeControl\<close> decides before the call: how the command ends without one, or the call to make.\<close>

type_synonym control_end = "string \<times> string \<times> string"

definition call_of :: "ExecutionRef \<Rightarrow> ControlCommand \<Rightarrow> control_call option" where
  "call_of x cmd = (
    if cc_Action cmd = ''input'' then Some (Call_input x cmd (case cc_Input cmd of None \<Rightarrow> [] | Some t \<Rightarrow> t))
    else if cc_Action cmd = ''interrupt'' then Some (Call_interrupt x cmd)
    else if cc_Action cmd = ''resume'' then Some (Call_resume x cmd)
    else if cc_Action cmd = ''approval'' then Some (Call_approve x cmd)
    else None)"

definition unsupported :: "string \<Rightarrow> control_end" where
  "unsupported message = (''REJECTED'', ''CAPABILITY_UNSUPPORTED'', message)"

definition plan_control :: "(string \<Rightarrow> ProviderInfo option) \<Rightarrow> ControlCommand \<Rightarrow> RunRow \<Rightarrow> control_end + control_call" where
  "plan_control lookup cmd r = (
    case (case rn_runtime_ref r of None \<Rightarrow> Inl (Error ''runtime execution reference is empty'')
          | Some x \<Rightarrow> decodeRuntimeRef (rn_runtime_provider r) x) of
      Inl e \<Rightarrow> Inl (''UNKNOWN'', ''EXECUTION_UNVERIFIABLE'', error_text e)
    | Inr x \<Rightarrow>
        case lookup (rn_runtime_provider r) of None \<Rightarrow> Inl (unsupported ''runtime provider unavailable'')
        | Some p \<Rightarrow>
            if \<not> pi_Session p then Inl (unsupported ''runtime does not implement SessionControlProvider'')
            else case ControlDescriptorFor p of Inl e \<Rightarrow> Inl (unsupported (error_text e))
            | Inr d \<Rightarrow>
                case controlCapability cmd of Inl e \<Rightarrow> Inl (unsupported (error_text e))
                | Inr required \<Rightarrow>
                    if required \<notin> set (de_Capabilities d) then Inl (unsupported ''runtime control capability not certified'')
                    else case call_of x cmd of None \<Rightarrow> Inl (unsupported ''control capability unsupported'')
                    | Some call \<Rightarrow> Inr call)"

text \<open>
  What follows the call. \<open>answer\<close> is its result, with the new reference for a resume; a successful resume is
  recorded in the run before the command is finished.
\<close>

definition resumed_run :: "ExecutionRef \<Rightarrow> RunRow \<Rightarrow> RunRow" where
  "resumed_run x r = r\<lparr>rn_runtime_transport := xr_Transport x, rn_runtime_ref := Some x, rn_runtime_state := ''RUNNING'',
    rn_runtime_cleanup := ''PENDING''\<rparr>"

definition record_resume :: "string \<Rightarrow> string \<Rightarrow> ExecutionRef \<Rightarrow> WorkerDB \<Rightarrow> unit result \<times> WorkerDB" where
  "record_resume provider attempt x db = (
    if xr_Provider x \<noteq> provider \<or> xr_Transport x = [] \<or> xr_ID x = []
    then (Inl (Error ''resume returned incompatible runtime reference''), db)
    else case EncodeExecutionRef x of Inl e \<Rightarrow> (Inl e, db)
    | Inr _ \<Rightarrow>
        let hit = (\<lambda>r. open_run attempt r \<and> rn_runtime_provider r = provider) in
        (if length (filter hit (wd_runs db)) \<noteq> 1 then Inl (Error ''resume lost Attempt ownership'') else Inr (),
         update_runs hit (resumed_run x) db))"

definition after_call :: "control_call \<Rightarrow> ExecutionRef option result \<Rightarrow> WorkerDB \<Rightarrow> unit result \<times> WorkerDB" where
  "after_call call answer db = (
    case answer of Inl e \<Rightarrow> (Inl e, db)
    | Inr out \<Rightarrow>
        case call of Call_resume x cmd \<Rightarrow>
            (case out of None \<Rightarrow> (Inl (Error ''resume returned incompatible runtime reference''), db)
             | Some y \<Rightarrow> record_resume (xr_Provider x) (cc_AttemptId cmd) y db)
        | _ \<Rightarrow> (Inr (), db))"

definition call_end :: "unit result \<Rightarrow> control_end" where
  "call_end r = (
    case r of Inr _ \<Rightarrow> (''COMPLETED'', [], [])
    | Inl e \<Rightarrow> (''REJECTED'', if e = Error ''control capability unsupported'' then ''CAPABILITY_UNSUPPORTED'' else ''RUNTIME_CONTROL_FAILED'',
        error_text e))"

definition finishControl :: "int \<Rightarrow> string \<Rightarrow> ControlCommand \<Rightarrow> control_end \<Rightarrow> WorkerDB \<Rightarrow> CommandAck \<times> WorkerDB" where
  "finishControl now i cmd fin db = (
    let (state, code0, message) = fin; code = (if state = ''UNKNOWN'' then ''EXECUTION_UNVERIFIABLE'' else code0) in
    (controlAck i cmd state code message,
     db\<lparr>wd_commands := update_where (\<lambda>c. wc_id c = i \<and> wc_operation c = cc_OperationId cmd)
       (\<lambda>c. c\<lparr>wc_state := state, wc_error_code := code, wc_error_message := message, wc_updated := now\<rparr>) (wd_commands db)\<rparr>))"

definition control_of :: "Command \<Rightarrow> ControlCommand result" where
  "control_of c = (
    case cd_Control c of None \<Rightarrow> Inl (Error ''invalid control command'')
    | Some cmd \<Rightarrow>
        if cd_CommandId c = [] \<or> cd_Kind c \<noteq> ''control'' then Inl (Error ''invalid control command'')
        else if cc_OperationId cmd = [] \<or> cc_TaskId cmd = [] \<or> cc_AttemptId cmd = [] \<or> cc_Generation cmd < 1
        then Inl (Error ''invalid control command identity'')
        else Inr cmd)"

text \<open>
  \<open>executeControl\<close>, with the list of the calls it made. \<open>perform\<close> is the session provider.
\<close>

definition executeControl ::
  "(Command \<Rightarrow> string) \<Rightarrow> (string \<Rightarrow> ProviderInfo option) \<Rightarrow> (control_call \<Rightarrow> ExecutionRef option result) \<Rightarrow> int \<Rightarrow> Command
    \<Rightarrow> WorkerDB \<Rightarrow> CommandAck result \<times> control_call list \<times> WorkerDB" where
  "executeControl enc lookup perform now c db = (
    case control_of c of Inl e \<Rightarrow> (Inl e, [], db)
    | Inr cmd \<Rightarrow>
        case claim_control enc now c cmd db of Inl e \<Rightarrow> (Inl e, [], db)
        | Inr (Some ack, db1) \<Rightarrow> (Inr ack, [], db1)
        | Inr (None, db1) \<Rightarrow>
            case find_run (cc_AttemptId cmd) db1 of None \<Rightarrow> (Inl Sql_no_rows, [], db1)
            | Some r \<Rightarrow>
                case plan_control lookup cmd r of
                  Inl fin \<Rightarrow> (let (ack, db2) = finishControl now (cd_CommandId c) cmd fin db1 in (Inr ack, [], db2))
                | Inr call \<Rightarrow>
                    let (res, db2) = after_call call (perform call) db1;
                        (ack, db3) = finishControl now (cd_CommandId c) cmd (call_end res) db2 in
                    (Inr ack, [call], db3))"

section \<open>Recovery\<close>

record RuntimeInspection =
  in_State :: string
  in_Cleanup :: string

text \<open>
  What recovery asks of the world: registered providers and configured runtimes, their inspection and stop, the
  stop of a process by its identity, the environments, and the file system.
\<close>

record RecoveryWorld =
  rw_Runtime :: "string \<Rightarrow> bool"
  rw_Inspect :: "ExecutionRef \<Rightarrow> RuntimeInspection result"
  rw_Stop :: "ExecutionRef \<Rightarrow> RuntimeInspection result"
  rw_StopProcess :: "int \<Rightarrow> string \<Rightarrow> bool"
  rw_Environment :: "string \<Rightarrow> bool"
  rw_EnvInspect :: "EnvironmentRef \<Rightarrow> RuntimeInspection result"
  rw_EnvRelease :: "EnvironmentRef \<Rightarrow> RuntimeInspection result"
  rw_Size :: "string \<Rightarrow> DirSize"
  rw_Inputs :: "string \<Rightarrow> string option"

definition unknown_state :: RuntimeInspection where
  "unknown_state = \<lparr>in_State = ''UNKNOWN'', in_Cleanup = ''UNKNOWN''\<rparr>"

definition spec_runs :: "Assignment \<Rightarrow> string \<Rightarrow> bool" where
  "spec_runs a profile = (case as_Spec a of None \<Rightarrow> False | Some s \<Rightarrow> ts_RuntimeProfile s = profile)"

definition inspect_runtime :: "RecoveryWorld \<Rightarrow> RunRow \<Rightarrow> ExecutionRef \<Rightarrow> RuntimeInspection" where
  "inspect_runtime w r x = (
    case decodeRuntimeRef (rn_runtime_provider r) x of Inl _ \<Rightarrow> unknown_state
    | Inr y \<Rightarrow>
        if \<not> rw_Runtime w (rn_runtime_provider r) \<or> \<not> spec_runs (rn_assignment r) (rn_runtime_provider r) then unknown_state
        else case rw_Inspect w y of Inl _ \<Rightarrow> unknown_state
        | Inr seen \<Rightarrow>
            if in_State seen = ''RUNNING'' then (case rw_Stop w y of Inl _ \<Rightarrow> seen | Inr stopped \<Rightarrow> stopped) else seen)"

definition inspect_environment :: "RecoveryWorld \<Rightarrow> RunRow \<Rightarrow> EnvironmentRef \<Rightarrow> RuntimeInspection" where
  "inspect_environment w r x = (
    case decodeEnvironmentRef (rn_environment_provider r) x of Inl _ \<Rightarrow> unknown_state
    | Inr y \<Rightarrow>
        if \<not> rw_Environment w (rn_environment_provider r) \<or> requiredEnvironment (rn_assignment r) \<noteq> Inr (rn_environment_provider r)
        then unknown_state
        else case rw_EnvInspect w y of Inl _ \<Rightarrow> unknown_state
        | Inr seen \<Rightarrow>
            if in_Cleanup seen \<noteq> ''CONFIRMED''
            then (case rw_EnvRelease w y of Inl _ \<Rightarrow> seen | Inr released \<Rightarrow> released) else seen)"

text \<open>The part of the loop of \<open>recover\<close> that finds out whether a run is clean, with its updates of the run.\<close>

definition recover_runtime :: "RecoveryWorld \<Rightarrow> RunRow \<Rightarrow> WorkerDB \<Rightarrow> bool \<times> WorkerDB" where
  "recover_runtime w r db = (
    case rn_runtime_ref r of
      Some x \<Rightarrow>
        let seen = inspect_runtime w r x in
        (in_Cleanup seen = ''CONFIRMED'',
         update_runs (\<lambda>y. rn_id y = as_AttemptId (rn_assignment r))
           (\<lambda>y. y\<lparr>rn_runtime_state := in_State seen, rn_runtime_cleanup := in_Cleanup seen\<rparr>) db)
    | None \<Rightarrow>
        (if rn_pid r > 1 then rw_StopProcess w (rn_pid r) (rn_start_id r)
         else if rn_state r = ''STARTING'' \<and> workspacePreSpawnSafe (as_AttemptId (rn_assignment r)) db then True
         else rn_state r = ''ACCEPTED'', db))"

definition recover_environment :: "RecoveryWorld \<Rightarrow> RunRow \<Rightarrow> bool \<times> WorkerDB \<Rightarrow> bool \<times> WorkerDB" where
  "recover_environment w r = (\<lambda>(clean, db).
    case rn_environment_ref r of None \<Rightarrow> (clean, db)
    | Some x \<Rightarrow>
        let seen = inspect_environment w r x in
        (clean \<and> in_Cleanup seen = ''CONFIRMED'',
         update_runs (\<lambda>y. rn_id y = as_AttemptId (rn_assignment r))
           (\<lambda>y. y\<lparr>rn_environment_state := in_State seen, rn_environment_cleanup := in_Cleanup seen\<rparr>) db))"

definition recovery_request :: "bool \<Rightarrow> CompleteRequest" where
  "recovery_request clean = (
    if clean then no_completion\<lparr>cr_CleanupConfirmed := True, cr_ErrorCode := ''WORKER_RESTARTED'',
      cr_ErrorMessage := ''execution interrupted by worker restart''\<rparr>
    else no_completion\<lparr>cr_ErrorCode := ''CLEANUP_UNCONFIRMED'',
      cr_ErrorMessage := ''startup window requires manual inspection; no automatic restart''\<rparr>)"

definition recover_run :: "RecoveryWorld \<Rightarrow> int \<Rightarrow> int \<Rightarrow> RunRow \<Rightarrow> WorkerDB \<Rightarrow> unit result \<times> WorkerDB" where
  "recover_run w retention now r db = (
    let i = as_AttemptId (rn_assignment r);
        (clean, db1) = recover_environment w r (recover_runtime w r db);
        db2 = update_runs (\<lambda>y. rn_id y = i) (\<lambda>y. y\<lparr>rn_ack := rn_seq y\<rparr>) db1 in
    worker_completion retention (rw_Size w i) (rw_Inputs w i) now (rn_assignment r) (recovery_request clean) db2)"

fun recover_runs :: "RecoveryWorld \<Rightarrow> int \<Rightarrow> int \<Rightarrow> RunRow list \<Rightarrow> WorkerDB \<Rightarrow> unit result \<times> WorkerDB" where
  "recover_runs w retention now [] db = (Inr (), db)"
| "recover_runs w retention now (r # rs) db = (
    if rn_completion r \<noteq> None then recover_runs w retention now rs db
    else case recover_run w retention now r db of (Inl e, db1) \<Rightarrow> (Inl e, db1)
    | (Inr _, db1) \<Rightarrow> recover_runs w retention now rs db1)"

definition unverifiable_commands :: "int \<Rightarrow> WorkerDB \<Rightarrow> WorkerDB" where
  "unverifiable_commands now db = db\<lparr>wd_commands := update_where (\<lambda>c. wc_state c = ''EXECUTING'')
    (\<lambda>c. c\<lparr>wc_state := ''UNKNOWN'', wc_error_code := ''EXECUTION_UNVERIFIABLE'',
      wc_error_message := ''worker restarted during control execution'', wc_updated := now\<rparr>) (wd_commands db)\<rparr>"

definition recover_journal :: "RecoveryWorld \<Rightarrow> int \<Rightarrow> int \<Rightarrow> WorkerDB \<Rightarrow> unit result \<times> WorkerDB" where
  "recover_journal w retention now db = (
    let db1 = unverifiable_commands now db in
    recover_runs w retention now (filter (\<lambda>r. \<not> rn_completed r) (wd_runs db1)) db1)"

section \<open>Delivery\<close>

definition batch_limit :: int where
  "batch_limit = 6291456"

text \<open>The rows of one report: at most 16 in order, and 6 MiB unless the first alone is larger.\<close>

fun fill_batch :: "(TaskEvent \<Rightarrow> string) \<Rightarrow> int \<Rightarrow> TaskEvent list \<Rightarrow> TaskEvent list \<Rightarrow> TaskEvent list" where
  "fill_batch enc used evs [] = evs"
| "fill_batch enc used evs (b # bs) = (
    if used + int (length (enc b)) > batch_limit \<and> evs \<noteq> [] then evs
    else fill_batch enc (used + int (length (enc b))) (evs @ [b]) bs)"

definition pending_events :: "string \<Rightarrow> int \<Rightarrow> WorkerDB \<Rightarrow> TaskEvent list" where
  "pending_events attempt ack db = map sp_body (take 16 (sort_key sp_seq
    (filter (\<lambda>s. sp_attempt s = attempt \<and> sp_seq s > ack) (wd_spool db))))"

definition next_batch :: "(TaskEvent \<Rightarrow> string) \<Rightarrow> string \<Rightarrow> int \<Rightarrow> WorkerDB \<Rightarrow> TaskEvent list" where
  "next_batch enc attempt ack db = fill_batch enc 0 [] (pending_events attempt ack db)"

definition acknowledge :: "string \<Rightarrow> int \<Rightarrow> WorkerDB \<Rightarrow> WorkerDB" where
  "acknowledge attempt through db = (
    let db1 = update_runs (\<lambda>r. rn_id r = attempt) (\<lambda>r. r\<lparr>rn_ack := through\<rparr>) db in
    db1\<lparr>wd_spool := filter (\<lambda>s. \<not> (sp_attempt s = attempt \<and> sp_seq s \<le> through)) (wd_spool db1)\<rparr>)"

text \<open>
  The client of the server, as functions that also change its state: \<open>ReportEvents\<close> answers the last sequence number
  taken, \<open>upload\<close> succeeds or fails, \<open>CompleteAttempt\<close> answers the state of the attempt. An answer that is lost
  is an error here.
\<close>

record 's Client =
  cn_Report :: "AttemptRef \<Rightarrow> TaskEvent list \<Rightarrow> 's \<Rightarrow> int result \<times> 's"
  cn_Upload :: "Assignment \<Rightarrow> string \<Rightarrow> 's \<Rightarrow> unit result \<times> 's"
  cn_Complete :: "CompleteRequest \<Rightarrow> 's \<Rightarrow> string result \<times> 's"

text \<open>Errors of \<open>upload\<close> that no retry can cure; \<open>os.ErrNotExist\<close> is a text of its own.\<close>

definition permanent_failure :: "error \<Rightarrow> bool" where
  "permanent_failure e = (
    case e of Status c _ \<Rightarrow> c = ''InvalidArgument'' \<or> c = ''ResourceExhausted'' | Error s \<Rightarrow> s = ''file does not exist'' | _ \<Rightarrow> False)"

definition artifact_lost :: "CompleteRequest \<Rightarrow> CompleteRequest" where
  "artifact_lost c = c\<lparr>cr_Success := False, cr_ErrorCode := ''ARTIFACT_ERROR'',
    cr_ErrorMessage := ''result artifact unavailable or rejected by server limits'', cr_ArtifactIds := []\<rparr>"

fun upload_all :: "'s Client \<Rightarrow> Assignment \<Rightarrow> CompleteRequest \<Rightarrow> string list \<Rightarrow> 's \<Rightarrow> CompleteRequest result \<times> 's" where
  "upload_all cn a c [] s = (Inr c, s)"
| "upload_all cn a c (i # ids) s = (
    case cn_Upload cn a i s of
      (Inr _, s1) \<Rightarrow> upload_all cn a c ids s1
    | (Inl e, s1) \<Rightarrow> if permanent_failure e then (Inr (artifact_lost c), s1) else (Inl e, s1))"

definition flush_events ::
  "(TaskEvent \<Rightarrow> string) \<Rightarrow> 's Client \<Rightarrow> RunRow \<Rightarrow> WorkerDB \<Rightarrow> 's \<Rightarrow> int result \<times> WorkerDB \<times> 's" where
  "flush_events enc cn v db s = (
    let a = rn_assignment v; evs = next_batch enc (as_AttemptId a) (rn_ack v) db in
    if evs = [] then (Inr (rn_ack v), db, s)
    else case cn_Report cn (attempt_ref a) evs s of
      (Inl e, s1) \<Rightarrow> (Inl e, db, s1)
    | (Inr through, s1) \<Rightarrow>
        if through < ev_WorkerSeq (last evs) then (Inl (Error ''unexpected EOF''), db, s1)
        else (Inr through, acknowledge (as_AttemptId a) through db, s1))"

definition save_upload :: "string \<Rightarrow> CompleteRequest \<Rightarrow> WorkerDB \<Rightarrow> WorkerDB" where
  "save_upload attempt c db = update_runs (\<lambda>r. rn_id r = attempt) (\<lambda>r. r\<lparr>rn_uploaded := True, rn_completion := Some c\<rparr>) db"

definition mark_completed :: "string \<Rightarrow> WorkerDB \<Rightarrow> WorkerDB" where
  "mark_completed attempt db = update_runs (\<lambda>r. rn_id r = attempt) (\<lambda>r. r\<lparr>rn_completed := True\<rparr>) db"

definition flush_upload ::
  "'s Client \<Rightarrow> RunRow \<Rightarrow> CompleteRequest \<Rightarrow> WorkerDB \<Rightarrow> 's \<Rightarrow> CompleteRequest result \<times> WorkerDB \<times> 's" where
  "flush_upload cn v c db s = (
    if rn_uploaded v then (Inr c, db, s)
    else case upload_all cn (rn_assignment v) c (cr_ArtifactIds c) s of
      (Inl e, s1) \<Rightarrow> (Inl e, db, s1)
    | (Inr c1, s1) \<Rightarrow> (Inr c1, save_upload (as_AttemptId (rn_assignment v)) c1 db, s1))"

definition flush_completion :: "'s Client \<Rightarrow> RunRow \<Rightarrow> CompleteRequest \<Rightarrow> WorkerDB \<Rightarrow> 's \<Rightarrow> unit result \<times> WorkerDB \<times> 's" where
  "flush_completion cn v c db s = (
    case cn_Complete cn c s of (Inl e, s1) \<Rightarrow> (Inl e, db, s1)
    | (Inr state, s1) \<Rightarrow>
        (Inr (), if state = ''COMMITTED'' \<or> state = ''RECONCILING'' then mark_completed (as_AttemptId (rn_assignment v)) db else db, s1))"

definition flush_run :: "(TaskEvent \<Rightarrow> string) \<Rightarrow> 's Client \<Rightarrow> RunRow \<Rightarrow> WorkerDB \<Rightarrow> 's \<Rightarrow> unit result \<times> WorkerDB \<times> 's" where
  "flush_run enc cn v db s = (
    case flush_events enc cn v db s of (Inl e, db1, s1) \<Rightarrow> (Inl e, db1, s1)
    | (Inr ack, db1, s1) \<Rightarrow>
        case rn_completion v of None \<Rightarrow> (Inr (), db1, s1)
        | Some c \<Rightarrow>
            if ack < cr_FinalWorkerSeq c then (Inr (), db1, s1)
            else case flush_upload cn v c db1 s1 of (Inl e, db2, s2) \<Rightarrow> (Inl e, db2, s2)
            | (Inr c1, db2, s2) \<Rightarrow> flush_completion cn v c1 db2 s2)"

fun flush_runs :: "(TaskEvent \<Rightarrow> string) \<Rightarrow> 's Client \<Rightarrow> RunRow list \<Rightarrow> WorkerDB \<Rightarrow> 's \<Rightarrow> unit result \<times> WorkerDB \<times> 's" where
  "flush_runs enc cn [] db s = (Inr (), db, s)"
| "flush_runs enc cn (v # vs) db s = (
    case flush_run enc cn v db s of (Inl e, db1, s1) \<Rightarrow> (Inl e, db1, s1)
    | (Inr _, db1, s1) \<Rightarrow> flush_runs enc cn vs db1 s1)"

definition flush_journal :: "(TaskEvent \<Rightarrow> string) \<Rightarrow> 's Client \<Rightarrow> WorkerDB \<Rightarrow> 's \<Rightarrow> unit result \<times> WorkerDB \<times> 's" where
  "flush_journal enc cn db s = flush_runs enc cn (filter (\<lambda>r. \<not> rn_completed r) (wd_runs db)) db s"

section \<open>Leases and launches\<close>

definition worker_refs :: "WorkerDB \<Rightarrow> AttemptRef list" where
  "worker_refs db = map (\<lambda>r. attempt_ref (rn_assignment r)) (filter (\<lambda>r. \<not> rn_completed r) (wd_runs db))"

text \<open>An entry of \<open>Worker.runs\<close>. \<open>av_canceled\<close> is the state of the context that \<open>cancel\<close> cancels.\<close>

record active =
  av_granted :: bool
  av_until :: int
  av_canceled :: bool

text \<open>A lease frame of the server, at the time \<open>now\<close> of the worker's clock in milliseconds.\<close>

definition lease_frame :: "LeaseGrant \<Rightarrow> int \<Rightarrow> active \<Rightarrow> active" where
  "lease_frame g now r = (
    if \<not> lg_Valid g \<or> lg_TtlMs g < 1000 then r\<lparr>av_canceled := True\<rparr>
    else r\<lparr>av_until := now + lg_TtlMs g - 500, av_granted := True\<rparr>)"

definition lease_check :: "int \<Rightarrow> active \<Rightarrow> active" where
  "lease_check now r = (if \<not> now < av_until r then r\<lparr>av_canceled := True\<rparr> else r)"

text \<open>\<open>start\<close>: an attempt that is active already is left alone, one without a slot is failed.\<close>

datatype start_result = Already_active | No_slot | Started active

definition start_run :: "int \<Rightarrow> int \<Rightarrow> (string \<times> active) list \<Rightarrow> Assignment \<Rightarrow> start_result" where
  "start_run slots now runs a = (
    if as_AttemptId a \<in> fst ` set runs then Already_active
    else if int (length runs) \<ge> slots then No_slot
    else Started \<lparr>av_granted = False, av_until = now + 10000, av_canceled = False\<rparr>)"

text \<open>The first statement of \<open>execute\<close>: the run is claimed, once, for execution.\<close>

definition begin_execution :: "string \<Rightarrow> WorkerDB \<Rightarrow> bool \<times> WorkerDB" where
  "begin_execution attempt db = (
    let hit = (\<lambda>r. rn_id r = attempt \<and> rn_state r = ''ACCEPTED'' \<and> \<not> rn_stop r \<and> rn_completion r = None) in
    (length (filter hit (wd_runs db)) = 1, update_runs hit (\<lambda>r. r\<lparr>rn_state := ''STARTING''\<rparr>) db))"

text \<open>The two updates around the start of a verifier.\<close>

definition fence_verifier :: "string \<Rightarrow> WorkerDB \<Rightarrow> WorkerDB" where
  "fence_verifier attempt db = update_runs (\<lambda>r. rn_id r = attempt) (\<lambda>r. r\<lparr>rn_state := ''STARTING'', rn_pid := 0, rn_start_id := []\<rparr>) db"

definition verifier_started :: "string \<Rightarrow> int \<Rightarrow> string \<Rightarrow> WorkerDB \<Rightarrow> WorkerDB" where
  "verifier_started attempt pid i db = update_runs (\<lambda>r. rn_id r = attempt) (\<lambda>r. r\<lparr>rn_state := ''RUNNING'', rn_pid := pid, rn_start_id := i\<rparr>) db"

section \<open>Retention of workspaces\<close>

definition expired_workspaces :: "int \<Rightarrow> WorkerDB \<Rightarrow> string list" where
  "expired_workspaces now db = map ws_attempt (take 16 (sort_key (\<lambda>x. (ws_retain_until x, ws_attempt x))
    (filter (\<lambda>x. ws_state x = ''RETAINED'' \<and> ws_retain_until x > 0 \<and> ws_retain_until x \<le> now
      \<and> (case find_run (ws_attempt x) db of None \<Rightarrow> False | Some r \<Rightarrow> rn_completed r)) (wd_workspaces db))))"

definition deleting_workspaces :: "WorkerDB \<Rightarrow> string list" where
  "deleting_workspaces db = map ws_attempt (take 16 (sort_key (\<lambda>x. (ws_updated x, ws_attempt x))
    (filter (\<lambda>x. ws_state x = ''DELETING'') (wd_workspaces db))))"

fun delete_all ::
  "(string \<Rightarrow> string option) \<Rightarrow> (string \<Rightarrow> string option) \<Rightarrow> int \<Rightarrow> string list \<Rightarrow> WorkerDB \<Rightarrow> unit result \<times> WorkerDB" where
  "delete_all inputs files now [] db = (Inr (), db)"
| "delete_all inputs files now (i # is) db = (
    case deleteWorkspace (inputs i) (files i) now i ''retention expired'' db of (Inl e, db1) \<Rightarrow> (Inl e, db1)
    | (Inr _, db1) \<Rightarrow> delete_all inputs files now is db1)"

text \<open>The part of \<open>reconcileWorkspaceLifecycle\<close> on the table; the cache of prepared workspaces follows it.\<close>

definition reconcileWorkspaceLifecycle ::
  "(string \<Rightarrow> string option) \<Rightarrow> (string \<Rightarrow> string option) \<Rightarrow> int \<Rightarrow> WorkerDB \<Rightarrow> unit result \<times> WorkerDB" where
  "reconcileWorkspaceLifecycle inputs files now db = (
    case update_workspaces (\<lambda>x. ws_attempt x \<in> set (expired_workspaces now db))
      (\<lambda>x. x\<lparr>ws_state := ''DELETING'', ws_updated := now\<rparr>) db of
      Inl e \<Rightarrow> (Inl e, db)
    | Inr (n, db1) \<Rightarrow> delete_all inputs files now (deleting_workspaces db1) db1)"

text \<open>
  \<open>bootstrapWorkspaceInventory\<close> for one directory of the root. A row is adopted only for a run of the journal.
\<close>

definition adopted_state :: "RunRow \<Rightarrow> string" where
  "adopted_state r = (
    case rn_completion r of None \<Rightarrow> ''QUARANTINED'' | Some c \<Rightarrow> if cr_CleanupConfirmed c then ''RETAINED'' else ''QUARANTINED'')"

definition adopt_workspace :: "int \<Rightarrow> int \<Rightarrow> int \<Rightarrow> string \<Rightarrow> WorkerDB \<Rightarrow> WorkerDB result" where
  "adopt_workspace retention sz now attempt db = (
    case workspace_Path [] attempt of Inl _ \<Rightarrow> Inr db
    | Inr _ \<Rightarrow>
    if find_workspace attempt db \<noteq> None then Inr db
    else case find_run attempt db of None \<Rightarrow> Inr db
    | Some r \<Rightarrow>
        case as_Spec (rn_assignment r) of None \<Rightarrow> Inr db
        | Some s \<Rightarrow>
            if list_ex (\<lambda>x. ws_path x = attempt) (wd_workspaces db) then Inl Sql_constraint
            else Inr (db\<lparr>wd_workspaces := wd_workspaces db @ [\<lparr>ws_attempt = attempt, ws_task = as_TaskId (rn_assignment r),
              ws_generation = as_Generation (rn_assignment r), ws_repository_ref = ts_RepositoryRef s,
              ws_base_commit = ts_BaseCommit s, ws_path = attempt, ws_state = adopted_state r, ws_created = now,
              ws_updated = now, ws_retain_until = (if adopted_state r = ''RETAINED'' then now + retention else 0),
              ws_size_bytes = sz, ws_deleted_at = 0, ws_cleanup_error = []\<rparr>]\<rparr>))"

fun bootstrapWorkspaceInventory :: "int \<Rightarrow> (string \<Rightarrow> int) \<Rightarrow> int \<Rightarrow> string list \<Rightarrow> WorkerDB \<Rightarrow> unit result \<times> WorkerDB" where
  "bootstrapWorkspaceInventory retention size_of now [] db = (Inr (), db)"
| "bootstrapWorkspaceInventory retention size_of now (d # ds) db = (
    case adopt_workspace retention (size_of d) now d db of Inl e \<Rightarrow> (Inl e, db)
    | Inr db1 \<Rightarrow> bootstrapWorkspaceInventory retention size_of now ds db1)"

definition workspaceRetention :: "int \<Rightarrow> int" where
  "workspaceRetention configured = (if configured > 0 then configured else 86400000)"

end
