(* ===== verification/Worker_Run.thy ===== *)
theory Worker_Run
  imports Worker_Journal
begin

text \<open>
  A worker process as a transition system. One step is one transaction, one call to the outside or one message; the
  goroutines of the worker interleave, the process may die between any two steps, recovery may be cut short, answers
  of the server may be lost. The trace records what the outside can observe.

  \<^item> \<open>wy_live\<close>: the goroutines started by \<open>start\<close>, with how far \<open>execute\<close> has come;
  \<^item> \<open>wy_control\<close>: the calls of \<open>executeControl\<close> under way;
  \<^item> \<open>wy_flush\<close>: the position of \<open>flush\<close>;
  \<^item> \<open>wy_server\<close>: the state of the server, of any type.
\<close>

datatype phase = Waiting | Preparing | Using

datatype control_stage =
    Claimed ControlCommand
  | Calling ControlCommand control_call
  | Answered ControlCommand "unit result"

datatype flush_stage =
    Idle
  | Todo "RunRow list"
  | Reported RunRow int "RunRow list"
  | Acked RunRow int "RunRow list"
  | Uploaded RunRow CompleteRequest "RunRow list"

datatype observation =
    Stopped string
  | Begun string
  | Spawned string
  | Emitted TaskEvent
  | Called string control_call
  | Sent string CompleteRequest

record 's WorkerSys =
  wy_db :: WorkerDB
  wy_up :: bool
  wy_live :: "string \<rightharpoonup> phase \<times> Assignment"
  wy_control :: "string \<rightharpoonup> control_stage"
  wy_flush :: flush_stage
  wy_server :: 's
  wy_trace :: "observation list"

text \<open>The encoders, the retention time and the server as the worker sees it: reports, and all its other changes.\<close>

record 's WorkerWorld =
  ww_enc :: "Command \<Rightarrow> string"
  ww_encA :: "Assignment \<Rightarrow> string"
  ww_encE :: "TaskEvent \<Rightarrow> string"
  ww_retention :: int
  ww_Report :: "AttemptRef \<Rightarrow> TaskEvent list \<Rightarrow> 's \<Rightarrow> int result \<times> 's"
  ww_Other :: "'s \<Rightarrow> 's \<Rightarrow> bool"

definition last_event :: "WorkerDB \<Rightarrow> TaskEvent" where
  "last_event db = sp_body (last (wd_spool db))"

definition row_attempt :: "RunRow \<Rightarrow> string" where
  "row_attempt r = as_AttemptId (rn_assignment r)"

definition row_batch :: "'s WorkerWorld \<Rightarrow> RunRow \<Rightarrow> WorkerDB \<Rightarrow> TaskEvent list" where
  "row_batch w v db = next_batch (ww_encE w) (row_attempt v) (rn_ack v) db"

definition stop_seen :: "Command \<Rightarrow> Assignment \<Rightarrow> WorkerDB \<Rightarrow> observation list" where
  "stop_seen c a db = (if cd_Kind c = ''stop'' \<and> find_command (cd_CommandId c) db = None then [Stopped (as_AttemptId a)] else [])"

text \<open>Changes of the workspace of an attempt while it is prepared, and the records of its environment and runtime.\<close>

inductive preparation :: "Assignment \<Rightarrow> WorkerDB \<Rightarrow> WorkerDB \<Rightarrow> bool" where
  claim: "claim_workspace now a repo base db = Inr db' \<Longrightarrow> preparation a db db'"
| measured: "update_workspaces (\<lambda>x. ws_attempt x = as_AttemptId a \<and> ws_state x = ''PREPARING'')
    (\<lambda>x. x\<lparr>ws_size_bytes := sz, ws_updated := now\<rparr>) db = Inr (n, db') \<Longrightarrow> preparation a db db'"
| ready: "update_workspaces (\<lambda>x. ws_attempt x = as_AttemptId a \<and> ws_state x = ''PREPARING'')
    (\<lambda>x. x\<lparr>ws_state := ''READY'', ws_size_bytes := sz, ws_updated := now, ws_cleanup_error := []\<rparr>) db = Inr (n, db') \<Longrightarrow> preparation a db db'"
| deleted: "deleteWorkspace inputs files now (as_AttemptId a) reason db = (res, db') \<Longrightarrow> preparation a db db'"

inductive recording :: "Assignment \<Rightarrow> WorkerDB \<Rightarrow> WorkerDB \<Rightarrow> bool" where
  env_prepared: "recordEnvironmentPrepared a x db = (res, db') \<Longrightarrow> recording a db db'"
| env_active: "recordEnvironmentActive a x db = (res, db') \<Longrightarrow> recording a db db'"
| env_terminal: "db' = recordEnvironmentTerminal (as_AttemptId a) state cleanup db \<Longrightarrow> recording a db db'"
| terminal: "recordRuntimeTerminal (as_AttemptId a) state cleanup db = Inr db' \<Longrightarrow> recording a db db'"
| fence: "db' = fence_verifier (as_AttemptId a) db \<Longrightarrow> recording a db db'"
| verifier: "db' = verifier_started (as_AttemptId a) pid i db \<Longrightarrow> recording a db db'"

text \<open>What a recovery writes before it is complete. It works on the rows it read at its start.\<close>

definition recoverable :: "RunRow \<Rightarrow> WorkerDB \<Rightarrow> bool" where
  "recoverable r db \<longleftrightarrow> (case find_run (row_attempt r) db of None \<Rightarrow> False
    | Some r0 \<Rightarrow> rn_assignment r0 = rn_assignment r \<and> rn_completion r0 = None)"

inductive recovery :: "'s WorkerWorld \<Rightarrow> WorkerDB \<Rightarrow> WorkerDB \<Rightarrow> bool" for w where
  commands: "recovery w db (unverifiable_commands now db)"
| runtime: "recoverable r db \<Longrightarrow> recovery w db (snd (recover_runtime world r db))"
| environment: "recoverable r db \<Longrightarrow>
    recovery w db (snd (recover_environment world r (recover_runtime world r db)))"
| skip_events: "recoverable r db \<Longrightarrow>
    recovery w db (update_runs (\<lambda>y. rn_id y = row_attempt r) (\<lambda>y. y\<lparr>rn_ack := rn_seq y\<rparr>) db)"
| run: "recoverable r db \<Longrightarrow>
    recovery w db (snd (recover_run world (ww_retention w) now r db))"

inductive worker_step :: "'s WorkerWorld \<Rightarrow> 's WorkerSys \<Rightarrow> 's WorkerSys \<Rightarrow> bool" for w where
  accept: "wy_up y \<Longrightarrow> cd_Assignment c = Some a \<Longrightarrow> accept_command (ww_enc w) (ww_encA w) c (wy_db y) = Inr (launch, db') \<Longrightarrow>
    worker_step w y (y\<lparr>wy_db := db', wy_trace := wy_trace y @ stop_seen c a (wy_db y),
      wy_live := (if launch then (wy_live y)(as_AttemptId a \<mapsto> (Waiting, a)) else wy_live y)\<rparr>)"
| give_up: "wy_up y \<Longrightarrow> wy_live y i = Some (Waiting, a) \<Longrightarrow>
    failUnstarted (ww_retention w) sz inputs now a code msg (wy_db y) = (res, db') \<Longrightarrow>
    worker_step w y (y\<lparr>wy_db := db', wy_live := (wy_live y)(i := None)\<rparr>)"
| begin_run: "wy_up y \<Longrightarrow> wy_live y i = Some (Waiting, a) \<Longrightarrow> begin_execution i (wy_db y) = (True, db') \<Longrightarrow>
    worker_step w y (y\<lparr>wy_db := db', wy_live := (wy_live y)(i \<mapsto> (Preparing, a)), wy_trace := wy_trace y @ [Begun i]\<rparr>)"
| not_begun: "wy_up y \<Longrightarrow> wy_live y i = Some (Waiting, a) \<Longrightarrow> begin_execution i (wy_db y) = (False, db') \<Longrightarrow>
    worker_step w y (y\<lparr>wy_db := db', wy_live := (wy_live y)(i := None)\<rparr>)"
| emit: "wy_up y \<Longrightarrow> wy_live y i = Some (p, a) \<Longrightarrow> p \<noteq> Waiting \<Longrightarrow> emit_event (ww_encE w) a body e (wy_db y) = Inr db' \<Longrightarrow>
    worker_step w y (y\<lparr>wy_db := db', wy_trace := wy_trace y @ [Emitted (last_event db')]\<rparr>)"
| prepare: "wy_up y \<Longrightarrow> wy_live y i = Some (Preparing, a) \<Longrightarrow> preparation a (wy_db y) db' \<Longrightarrow>
    worker_step w y (y\<lparr>wy_db := db'\<rparr>)"
| in_use: "wy_up y \<Longrightarrow> wy_live y i = Some (Preparing, a) \<Longrightarrow> markWorkspaceInUse now a (wy_db y) = Inr db' \<Longrightarrow>
    worker_step w y (y\<lparr>wy_db := db', wy_live := (wy_live y)(i \<mapsto> (Using, a))\<rparr>)"
| recorded: "wy_up y \<Longrightarrow> wy_live y i = Some (Using, a) \<Longrightarrow> recording a (wy_db y) db' \<Longrightarrow>
    worker_step w y (y\<lparr>wy_db := db'\<rparr>)"
| spawn: "wy_up y \<Longrightarrow> wy_live y i = Some (Using, a) \<Longrightarrow> worker_step w y (y\<lparr>wy_trace := wy_trace y @ [Spawned i]\<rparr>)"
| started: "wy_up y \<Longrightarrow> wy_live y i = Some (Using, a) \<Longrightarrow> Spawned i \<in> set (wy_trace y) \<Longrightarrow>
    recordRuntimeStarted (ww_encE w) a x body e (wy_db y) = (res, db') \<Longrightarrow>
    worker_step w y (y\<lparr>wy_db := db', wy_trace := wy_trace y @ (if res = Inr () then [Emitted (last_event db')] else [])\<rparr>)"
| finish: "wy_up y \<Longrightarrow> wy_live y i = Some (p, a) \<Longrightarrow> p \<noteq> Waiting \<Longrightarrow>
    worker_completion (ww_retention w) sz inputs now a c (wy_db y) = (res, db') \<Longrightarrow>
    worker_step w y (y\<lparr>wy_db := db', wy_live := (wy_live y)(i := None)\<rparr>)"
| control_answered: "wy_up y \<Longrightarrow> control_of c = Inr cmd \<Longrightarrow> claim_control (ww_enc w) now c cmd (wy_db y) = Inr (Some ack, db') \<Longrightarrow>
    worker_step w y (y\<lparr>wy_db := db'\<rparr>)"
| control_claimed: "wy_up y \<Longrightarrow> control_of c = Inr cmd \<Longrightarrow> claim_control (ww_enc w) now c cmd (wy_db y) = Inr (None, db') \<Longrightarrow>
    worker_step w y (y\<lparr>wy_db := db', wy_control := (wy_control y)(cd_CommandId c \<mapsto> Claimed cmd)\<rparr>)"
| control_refused: "wy_up y \<Longrightarrow> wy_control y i = Some (Claimed cmd) \<Longrightarrow> find_run (cc_AttemptId cmd) (wy_db y) = Some r \<Longrightarrow>
    plan_control lookup cmd r = Inl fin \<Longrightarrow> finishControl now i cmd fin (wy_db y) = (ack, db') \<Longrightarrow>
    worker_step w y (y\<lparr>wy_db := db', wy_control := (wy_control y)(i := None)\<rparr>)"
| control_called: "wy_up y \<Longrightarrow> wy_control y i = Some (Claimed cmd) \<Longrightarrow> find_run (cc_AttemptId cmd) (wy_db y) = Some r \<Longrightarrow>
    plan_control lookup cmd r = Inr call \<Longrightarrow>
    worker_step w y (y\<lparr>wy_control := (wy_control y)(i \<mapsto> Calling cmd call), wy_trace := wy_trace y @ [Called i call]\<rparr>)"
| control_returned: "wy_up y \<Longrightarrow> wy_control y i = Some (Calling cmd call) \<Longrightarrow> after_call call answer (wy_db y) = (res, db') \<Longrightarrow>
    worker_step w y (y\<lparr>wy_db := db', wy_control := (wy_control y)(i \<mapsto> Answered cmd res)\<rparr>)"
| control_finished: "wy_up y \<Longrightarrow> wy_control y i = Some (Answered cmd res) \<Longrightarrow>
    finishControl now i cmd (call_end res) (wy_db y) = (ack, db') \<Longrightarrow>
    worker_step w y (y\<lparr>wy_db := db', wy_control := (wy_control y)(i := None)\<rparr>)"
| control_dropped: "worker_step w y (y\<lparr>wy_control := (wy_control y)(i := None)\<rparr>)"
| flush_query: "wy_up y \<Longrightarrow> wy_flush y = Idle \<Longrightarrow>
    worker_step w y (y\<lparr>wy_flush := Todo (filter (\<lambda>r. \<not> rn_completed r) (wd_runs (wy_db y)))\<rparr>)"
| flush_report: "wy_up y \<Longrightarrow> wy_flush y = Todo (v # vs) \<Longrightarrow> row_batch w v (wy_db y) \<noteq> [] \<Longrightarrow>
    ww_Report w (attempt_ref (rn_assignment v)) (row_batch w v (wy_db y)) (wy_server y) = (Inr through, s') \<Longrightarrow>
    ev_WorkerSeq (last (row_batch w v (wy_db y))) \<le> through \<Longrightarrow>
    worker_step w y (y\<lparr>wy_server := s', wy_flush := Reported v through vs\<rparr>)"
| flush_lost: "wy_up y \<Longrightarrow> wy_flush y = Todo (v # vs) \<Longrightarrow> row_batch w v (wy_db y) \<noteq> [] \<Longrightarrow>
    ww_Report w (attempt_ref (rn_assignment v)) (row_batch w v (wy_db y)) (wy_server y) = (res, s') \<Longrightarrow>
    worker_step w y (y\<lparr>wy_server := s', wy_flush := Idle\<rparr>)"
| flush_nothing: "wy_up y \<Longrightarrow> wy_flush y = Todo (v # vs) \<Longrightarrow> row_batch w v (wy_db y) = [] \<Longrightarrow>
    worker_step w y (y\<lparr>wy_flush := Acked v (rn_ack v) vs\<rparr>)"
| flush_ack: "wy_up y \<Longrightarrow> wy_flush y = Reported v through vs \<Longrightarrow>
    worker_step w y (y\<lparr>wy_db := acknowledge (row_attempt v) through (wy_db y), wy_flush := Acked v through vs\<rparr>)"
| flush_ack_cut: "wy_up y \<Longrightarrow> wy_flush y = Reported v through vs \<Longrightarrow>
    worker_step w y (y\<lparr>wy_db := update_runs (\<lambda>r. rn_id r = row_attempt v) (\<lambda>r. r\<lparr>rn_ack := through\<rparr>) (wy_db y), wy_flush := Idle\<rparr>)"
| flush_skip: "wy_up y \<Longrightarrow> wy_flush y = Acked v ack vs \<Longrightarrow> worker_step w y (y\<lparr>wy_flush := Todo vs\<rparr>)"
| flush_sent_before: "wy_up y \<Longrightarrow> wy_flush y = Acked v ack vs \<Longrightarrow> rn_completion v = Some c \<Longrightarrow> cr_FinalWorkerSeq c \<le> ack \<Longrightarrow>
    rn_uploaded v \<Longrightarrow> worker_step w y (y\<lparr>wy_flush := Uploaded v c vs\<rparr>)"
| flush_uploaded: "wy_up y \<Longrightarrow> wy_flush y = Acked v ack vs \<Longrightarrow> rn_completion v = Some c \<Longrightarrow> cr_FinalWorkerSeq c \<le> ack \<Longrightarrow>
    \<not> rn_uploaded v \<Longrightarrow> c' \<in> {c, artifact_lost c} \<Longrightarrow>
    worker_step w y (y\<lparr>wy_db := save_upload (row_attempt v) c' (wy_db y), wy_flush := Uploaded v c' vs\<rparr>)"
| flush_complete: "wy_up y \<Longrightarrow> wy_flush y = Uploaded v c vs \<Longrightarrow> db' \<in> {wy_db y, mark_completed (row_attempt v) (wy_db y)} \<Longrightarrow>
    worker_step w y (y\<lparr>wy_db := db', wy_trace := wy_trace y @ [Sent (row_attempt v) c], wy_flush := Todo vs\<rparr>)"
| flush_end: "worker_step w y (y\<lparr>wy_flush := Idle\<rparr>)"
| reconcile: "wy_up y \<Longrightarrow> reconcileWorkspaceLifecycle inputs files now (wy_db y) = (res, db') \<Longrightarrow> worker_step w y (y\<lparr>wy_db := db'\<rparr>)"
| adopt: "wy_up y \<Longrightarrow> adopt_workspace (ww_retention w) sz now i (wy_db y) = Inr db' \<Longrightarrow> worker_step w y (y\<lparr>wy_db := db'\<rparr>)"
| server: "ww_Other w (wy_server y) s' \<Longrightarrow> worker_step w y (y\<lparr>wy_server := s'\<rparr>)"
| crash: "worker_step w y (y\<lparr>wy_up := False, wy_live := Map.empty, wy_control := Map.empty, wy_flush := Idle\<rparr>)"
| recovering: "\<not> wy_up y \<Longrightarrow> recovery w (wy_db y) db' \<Longrightarrow> worker_step w y (y\<lparr>wy_db := db'\<rparr>)"
| recovered: "\<not> wy_up y \<Longrightarrow> recover_journal world (ww_retention w) now (wy_db y) = (Inr (), db') \<Longrightarrow>
    worker_step w y (y\<lparr>wy_db := db', wy_up := True\<rparr>)"

definition worker_init :: "'s WorkerSys \<Rightarrow> bool" where
  "worker_init y \<longleftrightarrow> wy_db y = \<lparr>wd_runs = [], wd_commands = [], wd_spool = [], wd_workspaces = []\<rparr> \<and> \<not> wy_up y
    \<and> wy_live y = Map.empty \<and> wy_control y = Map.empty \<and> wy_flush y = Idle \<and> wy_trace y = []"

inductive_cases preparationE: "preparation a db db'"
inductive_cases recordingE: "recording a db db'"
inductive_cases recoveryE: "recovery w db db'"

end
