(* ===== verification/Worker_Safety.thy ===== *)
theory Worker_Safety
  imports Worker_Run
begin

text \<open>
  Properties of every run of a worker: control commands are executed at most once, an attempt begins at most once and
  not after a stop, and recovery confirms the cleanup of a spawned runtime only on evidence.
\<close>

named_theorems grows_intros \<open>operations that only move the journal forward\<close>

section \<open>Lookups\<close>

lemma find_updated_rows:
  assumes "\<And>r. key (f r) = key r"
  shows "List.find (\<lambda>r. key r = i) (update_where P f rows) = map_option (\<lambda>r. if P r then f r else r) (List.find (\<lambda>r. key r = i) rows)"
  using assms by (induction rows) (auto simp: update_where_def)

lemma find_run_update:
  assumes "\<And>r. rn_id (f r) = rn_id r"
  shows "find_run i (update_runs P f db) = map_option (\<lambda>r. if P r then f r else r) (find_run i db)"
  by (simp add: find_run_def update_runs_def find_updated_rows [where key = rn_id, OF assms])

lemma find_run_keep [simp]:
  "find_run i (db\<lparr>wd_commands := cs\<rparr>) = find_run i db"
  "find_run i (db\<lparr>wd_spool := ss\<rparr>) = find_run i db"
  "find_run i (db\<lparr>wd_workspaces := ws\<rparr>) = find_run i db"
  by (simp_all add: find_run_def)

lemma find_command_keep [simp]:
  "find_command i (db\<lparr>wd_runs := rs\<rparr>) = find_command i db"
  "find_command i (db\<lparr>wd_spool := ss\<rparr>) = find_command i db"
  "find_command i (db\<lparr>wd_workspaces := ws\<rparr>) = find_command i db"
  "find_command i (update_runs P f db) = find_command i db"
  by (simp_all add: find_command_def update_runs_def)

lemma find_workspace_keep [simp]:
  "find_workspace i (db\<lparr>wd_runs := rs\<rparr>) = find_workspace i db"
  "find_workspace i (db\<lparr>wd_spool := ss\<rparr>) = find_workspace i db"
  "find_workspace i (db\<lparr>wd_commands := cs\<rparr>) = find_workspace i db"
  "find_workspace i (update_runs P f db) = find_workspace i db"
  by (simp_all add: find_workspace_def update_runs_def)

lemma find_run_SomeD: "find_run i db = Some r \<Longrightarrow> rn_id r = i"
  by (auto simp: find_run_def dest: find_Some_iff_in)

section \<open>The journal only moves forward\<close>

definition later_run :: "RunRow \<Rightarrow> RunRow \<Rightarrow> bool" where
  "later_run r r' \<longleftrightarrow> rn_assignment r' = rn_assignment r \<and> (rn_stop r \<longrightarrow> rn_stop r')
    \<and> (rn_state r \<noteq> ''ACCEPTED'' \<longrightarrow> rn_state r' \<noteq> ''ACCEPTED'') \<and> (rn_runtime_ref r \<noteq> None \<longrightarrow> rn_runtime_ref r' \<noteq> None)"

definition prespawn :: "string set" where
  "prespawn = {''PREPARING'', ''READY''}"

text \<open>The primary keys of \<open>runs\<close> and \<open>workspaces\<close>.\<close>

definition keyed :: "WorkerDB \<Rightarrow> bool" where
  "keyed db \<longleftrightarrow> distinct (map rn_id (wd_runs db)) \<and> (\<forall>r\<in>set (wd_runs db). rn_id r = row_attempt r)
    \<and> distinct (map ws_attempt (wd_workspaces db))"

definition grows :: "WorkerDB \<Rightarrow> WorkerDB \<Rightarrow> bool" where
  "grows db db' \<longleftrightarrow> (keyed db \<longrightarrow> keyed db') \<and>
    (\<forall>i r. find_run i db = Some r \<longrightarrow> (\<exists>r'. find_run i db' = Some r' \<and> later_run r r'))
    \<and> (\<forall>i. find_command i db \<noteq> None \<longrightarrow> find_command i db' \<noteq> None)
    \<and> (\<forall>i x. find_workspace i db = Some x \<longrightarrow> (\<exists>x'. find_workspace i db' = Some x' \<and> (ws_state x \<notin> prespawn \<longrightarrow> ws_state x' \<notin> prespawn)))"

lemma later_run_refl [simp]: "later_run r r"
  by (simp add: later_run_def)

lemma later_run_trans: "later_run r s \<Longrightarrow> later_run s t \<Longrightarrow> later_run r t"
  by (auto simp: later_run_def)

lemma grows_refl [simp, grows_intros]: "grows db db"
  by (simp add: grows_def)

lemma grows_trans [trans]:
  assumes "grows a b" "grows b c"
  shows "grows a c"
  unfolding grows_def
proof (intro conjI allI impI)
  assume "keyed a"
  then show "keyed c" using assms unfolding grows_def by blast
next
  fix i r assume "find_run i a = Some r"
  then show "\<exists>r'. find_run i c = Some r' \<and> later_run r r'"
    using assms later_run_trans unfolding grows_def by metis
next
  fix i assume "find_command i a \<noteq> None"
  then show "find_command i c \<noteq> None" using assms unfolding grows_def by blast
next
  fix i x assume "find_workspace i a = Some x"
  then show "\<exists>x'. find_workspace i c = Some x' \<and> (ws_state x \<notin> prespawn \<longrightarrow> ws_state x' \<notin> prespawn)"
    using assms unfolding grows_def by metis
qed

lemma keyed_update_runs:
  assumes "\<And>r. P r \<Longrightarrow> later_run r (f r)" "\<And>r. rn_id (f r) = rn_id r" "keyed db"
  shows "keyed (update_runs P f db)"
proof -
  have "map rn_id (wd_runs (update_runs P f db)) = map rn_id (wd_runs db)" using assms(2) by (simp add: update_runs_def update_where_def)
  moreover have "rn_id r = row_attempt r" if "r \<in> set (wd_runs (update_runs P f db))" for r
    using that assms by (auto simp: update_runs_def update_where_def keyed_def later_run_def row_attempt_def)
  ultimately show ?thesis using assms(3) by (auto simp: keyed_def update_runs_def)
qed

lemma grows_update_runs [grows_intros]:
  assumes "\<And>r. P r \<Longrightarrow> later_run r (f r)" "\<And>r. rn_id (f r) = rn_id r"
  shows "grows db (update_runs P f db)"
  using assms keyed_update_runs [OF assms] by (auto simp: grows_def find_run_update)

lemma grows_add_run [grows_intros]: "find_run (as_AttemptId a) db = None \<Longrightarrow> grows db (db\<lparr>wd_runs := wd_runs db @ [new_run a b]\<rparr>)"
  by (auto simp: grows_def keyed_def find_run_def find_append find_None_iff new_run_def row_attempt_def)

lemma grows_spool [grows_intros]: "grows db (db\<lparr>wd_spool := ss\<rparr>)"
  by (auto simp: grows_def keyed_def)

lemma grows_update_commands [grows_intros]:
  assumes "\<And>c. wc_id (f c) = wc_id c"
  shows "grows db (db\<lparr>wd_commands := update_where P f (wd_commands db)\<rparr>)"
  using assms by (auto simp: grows_def keyed_def find_command_def find_updated_rows [where key = wc_id])

lemma grows_insert_command [grows_intros]: "insert_command c db = Inr db' \<Longrightarrow> grows db db'"
  by (auto simp: grows_def keyed_def insert_command_def find_command_def find_append split: if_splits option.splits)

lemma transition_prespawn: "workspace_transition old new \<Longrightarrow> old \<notin> prespawn \<Longrightarrow> new \<notin> prespawn"
  by (auto simp: workspace_transition_def prespawn_def)

lemma update_workspacesD:
  assumes "update_workspaces P f db = Inr (n, db')"
  shows "db' = db\<lparr>wd_workspaces := update_where P f (wd_workspaces db)\<rparr>" "n = length (filter P (wd_workspaces db))"
    "\<And>x. x \<in> set (wd_workspaces db) \<Longrightarrow> P x \<Longrightarrow> workspace_transition (ws_state x) (ws_state (f x))"
  using assms by (auto simp: update_workspaces_def Let_def list_all_iff split: if_splits)

lemma grows_update_workspaces [grows_intros]:
  assumes "update_workspaces P f db = Inr (n, db')" "\<And>x. ws_attempt (f x) = ws_attempt x"
  shows "grows db db'"
proof -
  have "\<exists>x'. find_workspace i db' = Some x' \<and> (ws_state x \<notin> prespawn \<longrightarrow> ws_state x' \<notin> prespawn)"
    if "find_workspace i db = Some x" for i x
  proof -
    have "find_workspace i db' = Some (if P x then f x else x)"
      using that assms(2) by (simp add: update_workspacesD(1) [OF assms(1)] find_workspace_def find_updated_rows [where key = ws_attempt])
    moreover have "x \<in> set (wd_workspaces db)" using that by (auto simp: find_workspace_def dest: find_Some_iff_in)
    ultimately show ?thesis using update_workspacesD(3) [OF assms(1)] transition_prespawn by auto
  qed
  moreover have "find_run i db' = find_run i db" "find_command i db' = find_command i db" for i
    by (simp_all add: update_workspacesD(1) [OF assms(1)])
  moreover have "map ws_attempt (wd_workspaces db') = map ws_attempt (wd_workspaces db)"
    using assms(2) by (simp add: update_workspacesD(1) [OF assms(1)] update_where_def)
  then have "keyed db \<Longrightarrow> keyed db'" by (simp add: keyed_def update_workspacesD(1) [OF assms(1)])
  ultimately show ?thesis by (auto simp: grows_def)
qed

lemma grows_add_workspace [grows_intros]:
  "find_workspace (ws_attempt x) db = None \<Longrightarrow> grows db (db\<lparr>wd_workspaces := wd_workspaces db @ [x]\<rparr>)"
  by (auto simp: grows_def keyed_def find_workspace_def find_append find_None_iff)

lemmas grows_ops = later_run_def grows_intros

lemma grows_accept_stop [grows_intros]: "grows db (accept_stop a state db)"
proof -
  have "grows db (update_runs (\<lambda>r. rn_id r = as_AttemptId a) (\<lambda>r. r\<lparr>rn_stop := True\<rparr>) db)"
    by (rule grows_update_runs) (auto simp: later_run_def)
  also have "grows \<dots> (accept_stop a state db)"
    unfolding accept_stop_def Let_def by (auto intro!: grows_update_runs simp: later_run_def)
  finally show ?thesis .
qed

lemma grows_accept_row: "accept_row enc kind a db = Inr (launch, state, db') \<Longrightarrow> grows db db'"
  by (auto simp: accept_row_def Let_def grows_add_run split: option.splits if_splits)

lemma grows_accept [grows_intros]:
  assumes "accept_command enc encA c db = Inr (launch, db')"
  shows "grows db db'"
proof -
  obtain a where a: "accept_command_tx enc encA c a db = Inr (launch, db')"
    using assms by (auto simp: accept_command_def split: option.splits if_splits)
  show ?thesis
  proof (cases "find_command (cd_CommandId c) db")
    case None
    with a obtain l state db1 where row: "accept_row encA (cd_Kind c) a db = Inr (l, state, db1)"
      and ins: "insert_command (plain_command (cd_CommandId c) (Hash (enc c)))
        (if cd_Kind c = ''stop'' then accept_stop a state db1 else db1) = Inr db'"
      by (auto simp: accept_command_tx_def Let_def rbind_eq_Inr_iff)
    have "grows db db1" by (rule grows_accept_row [OF row])
    also have "grows db1 (if cd_Kind c = ''stop'' then accept_stop a state db1 else db1)" by (simp add: grows_accept_stop)
    also have "grows \<dots> db'" by (rule grows_insert_command [OF ins])
    finally show ?thesis .
  qed (use a in \<open>auto simp: accept_command_tx_def Let_def split: if_splits\<close>)
qed

lemma grows_emit [grows_intros]:
  assumes "emit_event enc a body e db = Inr db'"
  shows "grows db db'"
proof -
  obtain n ss where db': "db' = (update_runs (\<lambda>r. rn_id r = as_AttemptId a) (\<lambda>r. r\<lparr>rn_seq := n\<rparr>) db)\<lparr>wd_spool := ss\<rparr>"
    using assms by (auto simp: emit_event_def Let_def split: if_splits option.splits)
  have "grows db (update_runs (\<lambda>r. rn_id r = as_AttemptId a) (\<lambda>r. r\<lparr>rn_seq := n\<rparr>) db)"
    by (rule grows_update_runs) (auto simp: later_run_def)
  also have "grows \<dots> db'" unfolding db' by (rule grows_spool)
  finally show ?thesis .
qed

lemma grows_finalize [grows_intros]: "finalizeWorkspace retention sz now a b db = Inr db' \<Longrightarrow> grows db db'"
  by (auto simp: finalizeWorkspace_def rbind_eq_Inr_iff grows_update_workspaces split: option.splits if_splits bool.splits)

lemma grows_note_inputs [grows_intros]: "grows db (note_inputs inputs attempt now db)"
  by (auto simp: note_inputs_def grows_update_workspaces split: option.splits sum.splits)

lemma grows_save_completion [grows_intros]: "grows db (save_completion attempt c db)"
  unfolding save_completion_def by (rule grows_update_runs) (auto simp: later_run_def)

lemma grows_close_workspace:
  assumes "close_workspace retention sz inputs now a c db = (c1, db1)"
  shows "grows db db1"
proof (cases "finalizeWorkspace retention sz now a (cr_CleanupConfirmed c) db")
  case (Inl e)
  then show ?thesis using assms by (auto simp: close_workspace_def grows_note_inputs split: if_splits)
next
  case (Inr d)
  then have "grows db d" by (rule grows_finalize)
  moreover have "grows d db1" using assms Inr by (auto simp: close_workspace_def grows_note_inputs split: if_splits)
  ultimately show ?thesis by (rule grows_trans)
qed

lemma grows_completion [grows_intros]:
  assumes "worker_completion retention sz inputs now a c db = (res, db')"
  shows "grows db db'"
proof -
  obtain c1 db1 where cw: "close_workspace retention sz inputs now a c db = (c1, db1)" by fastforce
  have "grows db1 db'" using assms cw by (auto simp: worker_completion_def grows_save_completion split: option.splits)
  with grows_close_workspace [OF cw] show ?thesis by (rule grows_trans)
qed

lemma grows_delete [grows_intros]:
  assumes "deleteWorkspace inputs files now attempt reason db = (res, db')"
  shows "grows db db'"
proof -
  have note_grows: "grows d (note_deleting attempt e now d)" for d e
    by (auto simp: note_deleting_def grows_update_workspaces split: sum.splits)
  have rem: "grows d (snd (remove_workspace inputs files now attempt d))" for d
    by (auto simp: remove_workspace_def note_grows grows_update_workspaces split: option.splits sum.splits)
  show ?thesis
  proof (cases "update_workspaces (\<lambda>x. ws_attempt x = attempt \<and> ws_state x \<in> {''PREPARING'', ''READY'', ''RETAINED''})
      (\<lambda>x. x\<lparr>ws_state := ''DELETING'', ws_updated := now, ws_cleanup_error := reason\<rparr>) db")
    case (Inl e)
    then show ?thesis using assms by (simp add: deleteWorkspace_def)
  next
    case (Inr p)
    then obtain n d1 where p: "p = (n, d1)" by (cases p)
    have "grows db d1" using Inr unfolding p by (rule grows_update_workspaces) simp
    moreover have "db' = d1 \<or> db' = snd (remove_workspace inputs files now attempt d1)"
      using assms Inr p by (auto simp: deleteWorkspace_def split: if_splits option.splits)
    ultimately show ?thesis using rem grows_trans by blast
  qed
qed

lemma grows_claim [grows_intros]:
  assumes "claim_workspace now a repo base db = Inr db'"
  shows "grows db db'"
  using assms by (auto simp: claim_workspace_def Let_def rbind_eq_Inr_iff grows_add_workspace split: option.splits if_splits)

lemma grows_preparation: "preparation a db db' \<Longrightarrow> grows db db'"
  by (erule preparationE) (auto intro: grows_claim grows_delete grows_update_workspaces)

lemma grows_in_use: "markWorkspaceInUse now a db = Inr db' \<Longrightarrow> grows db db'"
  by (auto simp: markWorkspaceInUse_def rbind_eq_Inr_iff grows_update_workspaces split: if_splits)

lemma grows_recording: "recording a db db' \<Longrightarrow> grows db db'"
  by (erule recordingE)
    (auto simp: recordEnvironmentPrepared_def recordEnvironmentActive_def recordEnvironmentTerminal_def recordRuntimeTerminal_def
      fence_verifier_def verifier_started_def Let_def later_run_def split: sum.splits if_splits intro!: grows_update_runs)

lemma grows_started:
  assumes "recordRuntimeStarted enc a x body e db = (res, db')"
  shows "grows db db'"
proof -
  let ?d = "update_runs (open_run (as_AttemptId a)) (running_run x) db"
  have run: "grows db ?d" by (rule grows_update_runs) (auto simp: later_run_def running_run_def)
  have "db' = db \<or> db' = ?d \<or> emit_event enc a body e ?d = Inr db'"
    using assms by (auto simp: recordRuntimeStarted_def Let_def split: option.splits if_splits sum.splits)
  then show ?thesis using run grows_emit grows_trans grows_refl by blast
qed

lemma grows_claim_control: "claim_control enc now c cmd db = Inr (ack, db') \<Longrightarrow> grows db db'"
  by (auto simp: claim_control_def Let_def rbind_eq_Inr_iff grows_insert_command split: option.splits if_splits)

lemma grows_finishControl: "finishControl now i cmd fin db = (ack, db') \<Longrightarrow> grows db db'"
  by (auto simp: finishControl_def Let_def split: prod.splits intro!: grows_update_commands)

lemma grows_after_call: "after_call call answer db = (res, db') \<Longrightarrow> grows db db'"
  by (auto simp: after_call_def record_resume_def Let_def later_run_def resumed_run_def
    split: sum.splits control_call.splits option.splits if_splits intro!: grows_update_runs)

lemma grows_delete_all: "delete_all inputs files now is db = (res, db') \<Longrightarrow> grows db db'"
  by (induction "is" arbitrary: db) (auto split: prod.splits sum.splits dest: grows_delete intro: grows_trans)

lemma grows_reconcile: "reconcileWorkspaceLifecycle inputs files now db = (res, db') \<Longrightarrow> grows db db'"
  by (auto simp: reconcileWorkspaceLifecycle_def split: sum.splits
    dest!: grows_delete_all dest: grows_update_workspaces intro: grows_trans)

lemma grows_adopt: "adopt_workspace retention sz now i db = Inr db' \<Longrightarrow> grows db db'"
  by (auto simp: adopt_workspace_def grows_add_workspace split: option.splits sum.splits if_splits)


lemma grows_set_runtime [simp]:
  "grows db (update_runs P (\<lambda>y. y\<lparr>rn_runtime_state := st, rn_runtime_cleanup := cl\<rparr>) db)"
  "grows db (update_runs P (\<lambda>y. y\<lparr>rn_environment_state := st, rn_environment_cleanup := cl\<rparr>) db)"
  "grows db (update_runs P (\<lambda>y. y\<lparr>rn_ack := rn_seq y\<rparr>) db)"
  "grows db (update_runs P (\<lambda>y. y\<lparr>rn_ack := n\<rparr>) db)"
  by (rule grows_update_runs; simp add: later_run_def)+

lemma grows_recover_runtime: "grows db (snd (recover_runtime world r db))"
  by (simp add: recover_runtime_def Let_def split: option.splits)

lemma grows_recover_environment: "grows (snd p) (snd (recover_environment world r p))"
  by (auto simp: recover_environment_def Let_def split: option.splits prod.splits)

lemma grows_recover_run: "grows db (snd (recover_run world retention now r db))"
proof -
  let ?p = "recover_environment world r (recover_runtime world r db)"
  let ?d2 = "update_runs (\<lambda>y. rn_id y = row_attempt r) (\<lambda>y. y\<lparr>rn_ack := rn_seq y\<rparr>) (snd ?p)"
  have "grows db (snd ?p)" using grows_recover_runtime grows_recover_environment grows_trans by blast
  then have "grows db ?d2" by (rule grows_trans) simp
  moreover have "grows ?d2 (snd (recover_run world retention now r db))"
    unfolding recover_run_def Let_def row_attempt_def
    by (auto split: prod.splits intro!: grows_completion prod.collapse [symmetric])
  ultimately show ?thesis by (rule grows_trans)
qed

lemma grows_recovery: "recovery w db db' \<Longrightarrow> grows db db'"
  by (erule recoveryE)
    (auto simp: grows_recover_run unverifiable_commands_def intro!: grows_update_commands
      intro: grows_recover_runtime grows_trans [OF grows_recover_runtime grows_recover_environment])

lemma find_run_iff: "keyed db \<Longrightarrow> find_run i db = Some r \<longleftrightarrow> r \<in> set (wd_runs db) \<and> rn_id r = i"
  using find_rev_distinct [of rn_id "rev (wd_runs db)" i r] by (simp add: find_run_def keyed_def rev_map [symmetric])

lemma find_workspace_iff: "keyed db \<Longrightarrow> find_workspace i db = Some x \<longleftrightarrow> x \<in> set (wd_workspaces db) \<and> ws_attempt x = i"
  using find_rev_distinct [of ws_attempt "rev (wd_workspaces db)" i x] by (simp add: find_workspace_def keyed_def rev_map [symmetric])

section \<open>Operations on workspaces only\<close>

definition tables_kept :: "WorkerDB \<Rightarrow> WorkerDB \<Rightarrow> bool" where
  "tables_kept db db' \<longleftrightarrow> wd_runs db' = wd_runs db \<and> wd_spool db' = wd_spool db \<and> wd_commands db' = wd_commands db"

lemma tables_kept_refl [simp]: "tables_kept db db"
  by (simp add: tables_kept_def)

lemma tables_kept_trans [trans]: "tables_kept a b \<Longrightarrow> tables_kept b c \<Longrightarrow> tables_kept a c"
  by (simp add: tables_kept_def)

lemma kept_update_workspaces: "update_workspaces P f db = Inr (n, db') \<Longrightarrow> tables_kept db db'"
  by (auto simp: tables_kept_def dest: update_workspacesD(1))

lemma kept_claim: "claim_workspace now a repo base db = Inr db' \<Longrightarrow> tables_kept db db'"
  by (auto simp: claim_workspace_def Let_def rbind_eq_Inr_iff tables_kept_def split: option.splits if_splits)

lemma kept_delete:
  assumes "deleteWorkspace inputs files now attempt reason db = (res, db')"
  shows "tables_kept db db'"
proof -
  have note_kept: "tables_kept d (note_deleting attempt e now d)" for d e
    by (auto simp: note_deleting_def dest: kept_update_workspaces split: sum.splits)
  have rem: "tables_kept d (snd (remove_workspace inputs files now attempt d))" for d
    by (auto simp: remove_workspace_def note_kept dest: kept_update_workspaces split: option.splits sum.splits)
  show ?thesis
  proof (cases "update_workspaces (\<lambda>x. ws_attempt x = attempt \<and> ws_state x \<in> {''PREPARING'', ''READY'', ''RETAINED''})
      (\<lambda>x. x\<lparr>ws_state := ''DELETING'', ws_updated := now, ws_cleanup_error := reason\<rparr>) db")
    case (Inl e)
    then show ?thesis using assms by (simp add: deleteWorkspace_def)
  next
    case (Inr p)
    then obtain n d1 where p: "p = (n, d1)" by (cases p)
    have "tables_kept db d1" using Inr unfolding p by (rule kept_update_workspaces)
    moreover have "db' = d1 \<or> db' = snd (remove_workspace inputs files now attempt d1)"
      using assms Inr p by (auto simp: deleteWorkspace_def split: if_splits option.splits)
    ultimately show ?thesis using rem tables_kept_trans by blast
  qed
qed

lemma kept_delete_all: "delete_all inputs files now is db = (res, db') \<Longrightarrow> tables_kept db db'"
  by (induction "is" arbitrary: db) (auto split: prod.splits sum.splits dest: kept_delete intro: tables_kept_trans)

lemma kept_reconcile: "reconcileWorkspaceLifecycle inputs files now db = (res, db') \<Longrightarrow> tables_kept db db'"
  by (auto simp: reconcileWorkspaceLifecycle_def split: sum.splits
    dest!: kept_delete_all dest: kept_update_workspaces intro: tables_kept_trans)

lemma kept_adopt: "adopt_workspace retention sz now i db = Inr db' \<Longrightarrow> tables_kept db db'"
  by (auto simp: adopt_workspace_def tables_kept_def split: option.splits sum.splits if_splits)

lemma kept_preparation: "preparation a db db' \<Longrightarrow> tables_kept db db'"
  by (erule preparationE) (auto dest: kept_claim kept_delete kept_update_workspaces)

lemma kept_in_use: "markWorkspaceInUse now a db = Inr db' \<Longrightarrow> tables_kept db db'"
  by (auto simp: markWorkspaceInUse_def rbind_eq_Inr_iff dest: kept_update_workspaces split: if_splits)

lemma kept_close_workspace:
  assumes "close_workspace retention sz inputs now a c db = (c1, db1)"
  shows "tables_kept db db1"
proof -
  have inp: "tables_kept d (note_inputs inputs i now d)" for d i
    by (auto simp: note_inputs_def dest: kept_update_workspaces split: option.splits sum.splits)
  have fin: "tables_kept db d" if "finalizeWorkspace retention sz now a b db = Inr d" for b d
    using that by (auto simp: finalizeWorkspace_def rbind_eq_Inr_iff dest: kept_update_workspaces split: option.splits if_splits bool.splits)
  show ?thesis
  proof (cases "finalizeWorkspace retention sz now a (cr_CleanupConfirmed c) db")
    case (Inl e)
    then show ?thesis using assms by (auto simp: close_workspace_def inp split: if_splits)
  next
    case (Inr d)
    then have "tables_kept d db1" using assms by (auto simp: close_workspace_def inp split: if_splits)
    with fin [OF Inr] show ?thesis by (rule tables_kept_trans)
  qed
qed

text \<open>The effect of a completion on the tables of the journal: the run, if it has no completion yet, gets one.\<close>

lemma close_workspace_request:
  assumes "close_workspace retention sz inputs now a c db = (c1, db1)"
  shows "cr_CleanupConfirmed c1 = cr_CleanupConfirmed c" "cr_Success c1 \<Longrightarrow> cr_Success c"
  using assms by (auto simp: close_workspace_def workspace_failed_def split: sum.splits if_splits)

lemma completion_effect:
  assumes "worker_completion retention sz inputs now a c db = (res, db')" "find_run (as_AttemptId a) db = Some r"
  shows "\<exists>c'. wd_runs db' = update_where (\<lambda>x. rn_id x = as_AttemptId a \<and> rn_completion x = None)
      (\<lambda>x. x\<lparr>rn_state := ''DONE'', rn_completion := Some c'\<rparr>) (wd_runs db)
    \<and> wd_spool db' = wd_spool db \<and> wd_commands db' = wd_commands db
    \<and> cr_FinalWorkerSeq c' = rn_seq r \<and> cr_CleanupConfirmed c' = cr_CleanupConfirmed c \<and> (cr_Success c' \<longrightarrow> cr_Success c)"
proof -
  obtain c1 db1 where cw: "close_workspace retention sz inputs now a c db = (c1, db1)" by fastforce
  have k: "tables_kept db db1" by (rule kept_close_workspace [OF cw])
  then have "find_run (as_AttemptId a) db1 = Some r" using assms(2) by (simp add: tables_kept_def find_run_def)
  then show ?thesis using assms(1) cw k close_workspace_request [OF cw]
    by (auto simp: worker_completion_def save_completion_def update_runs_def tables_kept_def
      intro!: exI [of _ "c1\<lparr>cr_FinalWorkerSeq := rn_seq r, cr_Attempt := Some (attempt_ref a)\<rparr>"])
qed

section \<open>Recovery as a sequence of its parts\<close>

lemma find_run_other:
  assumes "\<And>r. P r \<Longrightarrow> rn_id r \<noteq> i" "\<And>r. rn_id (f r) = rn_id r"
  shows "find_run i (update_runs P f db) = find_run i db"
proof -
  have "\<not> P r" if "find_run i db = Some r" for r using assms(1) find_run_SomeD [OF that] by blast
  then show ?thesis by (cases "find_run i db") (simp_all add: find_run_update [OF assms(2)])
qed

lemma completion_other:
  assumes "worker_completion retention sz inputs now a c db = (res, db')" "i \<noteq> as_AttemptId a"
  shows "find_run i db' = find_run i db"
proof -
  obtain c1 db1 where cw: "close_workspace retention sz inputs now a c db = (c1, db1)" by fastforce
  have "find_run i db1 = find_run i db" using kept_close_workspace [OF cw] by (simp add: tables_kept_def find_run_def)
  moreover have "find_run i (save_completion (as_AttemptId a) c' db1) = find_run i db1" for c'
    unfolding save_completion_def by (rule find_run_other) (use assms(2) in auto)
  ultimately show ?thesis using assms cw by (auto simp: worker_completion_def split: option.splits)
qed

lemma recover_run_other:
  assumes "i \<noteq> row_attempt r"
  shows "find_run i (snd (recover_run world retention now r db)) = find_run i db"
proof -
  obtain clean db1 where p: "recover_environment world r (recover_runtime world r db) = (clean, db1)" by fastforce
  have db1: "find_run i db1 = find_run i db"
    using p assms by (auto simp: recover_environment_def recover_runtime_def Let_def find_run_other row_attempt_def split: option.splits)
  obtain res db' where c: "worker_completion retention (rw_Size world (row_attempt r)) (rw_Inputs world (row_attempt r)) now
      (rn_assignment r) (recovery_request clean)
      (update_runs (\<lambda>y. rn_id y = row_attempt r) (\<lambda>y. y\<lparr>rn_ack := rn_seq y\<rparr>) db1) = (res, db')" by fastforce
  then have "snd (recover_run world retention now r db) = db'" by (simp add: recover_run_def Let_def p row_attempt_def)
  with completion_other [OF c, of i] assms db1 show ?thesis by (simp add: find_run_other row_attempt_def)
qed

lemma recover_runs_parts:
  assumes "recover_runs world (ww_retention w) now rs db = (res, db')" "distinct (map row_attempt rs)"
    "\<And>r. r \<in> set rs \<Longrightarrow> rn_completion r = None \<Longrightarrow> recoverable r db"
  shows "(recovery w)\<^sup>*\<^sup>* db db'"
  using assms
proof (induction rs arbitrary: db)
  case (Cons r rs)
  show ?case
  proof (cases "rn_completion r")
    case None
    let ?d = "snd (recover_run world (ww_retention w) now r db)"
    have "recovery w db ?d" by (rule recovery.run) (use Cons.prems(3) None in simp)
    moreover have "(recovery w)\<^sup>*\<^sup>* ?d db'"
    proof (cases "fst (recover_run world (ww_retention w) now r db)")
      case (Inl e)
      then show ?thesis using Cons.prems(1) None by (auto split: prod.splits)
    next
      case (Inr u)
      have "recoverable v ?d" if "v \<in> set rs" "rn_completion v = None" for v
      proof -
        have "row_attempt v \<in> row_attempt ` set rs" using that(1) by blast
        then have "row_attempt v \<noteq> row_attempt r" using Cons.prems(2) by auto
        then show ?thesis using Cons.prems(3) [of v] that by (simp add: recoverable_def recover_run_other)
      qed
      then show ?thesis using Cons.IH [of ?d] Cons.prems(1,2) Inr None by (auto split: prod.splits)
    qed
    ultimately show ?thesis by (rule converse_rtranclp_into_rtranclp)
  qed (use Cons in auto)
qed simp

lemma recover_journal_parts:
  assumes "recover_journal world (ww_retention w) now db = (res, db')" "keyed db"
  shows "(recovery w)\<^sup>*\<^sup>* db db'"
proof -
  let ?d = "unverifiable_commands now db"
  let ?rs = "filter (\<lambda>r. \<not> rn_completed r) (wd_runs ?d)"
  have runs: "wd_runs ?d = wd_runs db" by (simp add: unverifiable_commands_def)
  have att: "map row_attempt (wd_runs db) = map rn_id (wd_runs db)" using assms(2) by (simp add: keyed_def)
  have "recoverable r ?d" if "r \<in> set ?rs" "rn_completion r = None" for r
  proof -
    have "find_run (row_attempt r) ?d = Some r"
      using that assms(2) find_run_iff [of db "row_attempt r" r] by (simp add: runs find_run_def keyed_def)
    with that(2) show ?thesis by (simp add: recoverable_def)
  qed
  moreover have "distinct (map row_attempt ?rs)"
    using assms(2) distinct_map_filter [of row_attempt "wd_runs db"] att unfolding runs by (simp add: keyed_def)
  moreover have "recover_runs world (ww_retention w) now ?rs ?d = (res, db')"
    using assms(1) by (simp add: recover_journal_def Let_def)
  ultimately have "(recovery w)\<^sup>*\<^sup>* ?d db'" by (intro recover_runs_parts) blast+
  then show ?thesis by (rule converse_rtranclp_into_rtranclp [where b = ?d, rotated]) (rule recovery.commands)
qed

lemma recovery_induct [consumes 2, case_names part]:
  assumes "recover_journal world (ww_retention w) now db = (res, db')" "keyed db"
    "\<And>a b. recovery w a b \<Longrightarrow> P a \<Longrightarrow> P b" "P db"
  shows "P db'"
  using recover_journal_parts [OF assms(1,2)] by (induction rule: rtranclp_induct) (use assms(3,4) in auto)

lemma grows_recover_runs: "recover_runs world retention now rs db = (res, db') \<Longrightarrow> grows db db'"
proof (induction rs arbitrary: db)
  case (Cons r rs)
  have "grows db (snd (recover_run world retention now r db))" by (rule grows_recover_run)
  then show ?case using Cons by (auto split: prod.splits sum.splits if_splits intro: grows_trans)
qed simp

lemma grows_recover_journal: "recover_journal world retention now db = (res, db') \<Longrightarrow> grows db db'"
proof -
  assume "recover_journal world retention now db = (res, db')"
  then have "grows (unverifiable_commands now db) db'" by (auto simp: recover_journal_def Let_def intro: grows_recover_runs)
  moreover have "grows db (unverifiable_commands now db)" unfolding unverifiable_commands_def by (rule grows_update_commands) simp
  ultimately show ?thesis using grows_trans by blast
qed

lemma step_grows:
  assumes "worker_step w y y'"
  shows "grows (wy_db y) (wy_db y')"
  using assms
proof cases
  case (flush_ack v through vs)
  have "grows d (d\<lparr>wd_spool := ss\<rparr>)" for d ss by (rule grows_spool)
  then show ?thesis using flush_ack(1) by (auto simp: acknowledge_def Let_def intro: grows_trans [OF grows_set_runtime(4)])
next
  case (begin_run i a db')
  then show ?thesis by (auto simp: begin_execution_def Let_def later_run_def intro!: grows_update_runs)
next
  case (not_begun i a db')
  then show ?thesis by (auto simp: begin_execution_def Let_def later_run_def intro!: grows_update_runs)
next
  case (flush_uploaded v ack vs c c')
  then show ?thesis by (auto simp: save_upload_def later_run_def intro!: grows_update_runs)
next
  case (flush_complete v c vs db')
  then show ?thesis by (auto simp: mark_completed_def later_run_def intro!: grows_update_runs)
qed (auto simp: failUnstarted_def intro: grows_accept grows_completion grows_emit grows_preparation grows_in_use grows_recording
    grows_started grows_claim_control grows_finishControl grows_after_call grows_reconcile grows_adopt grows_recovery
    grows_recover_journal)


section \<open>Invariants\<close>

fun called_ids :: "observation list \<Rightarrow> string list" where
  "called_ids [] = []"
| "called_ids (Called i call # t) = i # called_ids t"
| "called_ids (_ # t) = called_ids t"

fun begun_ids :: "observation list \<Rightarrow> string list" where
  "begun_ids [] = []"
| "begun_ids (Begun i # t) = i # begun_ids t"
| "begun_ids (_ # t) = begun_ids t"

lemma called_ids_append [simp]: "called_ids (s @ t) = called_ids s @ called_ids t"
  by (induction s rule: called_ids.induct) auto

lemma begun_ids_append [simp]: "begun_ids (s @ t) = begun_ids s @ begun_ids t"
  by (induction s rule: begun_ids.induct) auto

lemma set_called_ids: "set (called_ids t) = {i. \<exists>call. Called i call \<in> set t}"
  by (induction t rule: called_ids.induct) auto

lemma set_begun_ids: "set (begun_ids t) = {i. Begun i \<in> set t}"
  by (induction t rule: begun_ids.induct) auto

text \<open>Everything the trace and the goroutines imply for the journal.\<close>

definition call_inv :: "'s WorkerSys \<Rightarrow> bool" where
  "call_inv y \<longleftrightarrow> distinct (called_ids (wy_trace y))
    \<and> (\<forall>i\<in>set (called_ids (wy_trace y)). find_command i (wy_db y) \<noteq> None)
    \<and> (\<forall>i cmd. wy_control y i = Some (Claimed cmd) \<longrightarrow> find_command i (wy_db y) \<noteq> None \<and> i \<notin> set (called_ids (wy_trace y)))"

definition begun_run :: "string \<Rightarrow> WorkerDB \<Rightarrow> bool" where
  "begun_run i db \<longleftrightarrow> (\<exists>r. find_run i db = Some r \<and> rn_state r \<noteq> ''ACCEPTED'')"

definition stopped_run :: "string \<Rightarrow> WorkerDB \<Rightarrow> bool" where
  "stopped_run i db \<longleftrightarrow> (\<exists>r. find_run i db = Some r \<and> rn_stop r)"

definition used_workspace :: "string \<Rightarrow> WorkerDB \<Rightarrow> bool" where
  "used_workspace i db \<longleftrightarrow> (\<exists>x. find_workspace i db = Some x \<and> ws_state x \<notin> prespawn)"

definition launch_inv :: "'s WorkerSys \<Rightarrow> bool" where
  "launch_inv y \<longleftrightarrow> distinct (begun_ids (wy_trace y))
    \<and> (\<forall>i. Begun i \<in> set (wy_trace y) \<longrightarrow> begun_run i (wy_db y))
    \<and> (\<forall>i. Stopped i \<in> set (wy_trace y) \<longrightarrow> stopped_run i (wy_db y))
    \<and> (\<forall>s i t. wy_trace y = s @ Begun i # t \<longrightarrow> Stopped i \<notin> set s)"

definition spawn_inv :: "'s WorkerSys \<Rightarrow> bool" where
  "spawn_inv y \<longleftrightarrow>
    (\<forall>i p a. wy_live y i = Some (p, a) \<longrightarrow> as_AttemptId a = i \<and> (p \<noteq> Waiting \<longrightarrow> begun_run i (wy_db y))
      \<and> (p = Using \<longrightarrow> used_workspace i (wy_db y)))
    \<and> (\<forall>i. Spawned i \<in> set (wy_trace y) \<longrightarrow> begun_run i (wy_db y) \<and> used_workspace i (wy_db y))"

lemma grows_keeps:
  assumes "grows db db'"
  shows "keyed db \<Longrightarrow> keyed db'" "begun_run i db \<Longrightarrow> begun_run i db'" "stopped_run i db \<Longrightarrow> stopped_run i db'"
    "used_workspace i db \<Longrightarrow> used_workspace i db'" "find_command i db \<noteq> None \<Longrightarrow> find_command i db' \<noteq> None"
  using assms by (fastforce simp: grows_def begun_run_def stopped_run_def used_workspace_def later_run_def)+

lemma claim_control_new:
  assumes "claim_control enc now c cmd db = Inr (None, db')"
  shows "find_command (cd_CommandId c) db = None" "find_command (cd_CommandId c) db' \<noteq> None"
  using assms by (auto simp: claim_control_def Let_def rbind_eq_Inr_iff insert_command_def control_row_def find_command_def find_append
    split: option.splits if_splits)

lemma call_inv_step:
  assumes "worker_step w y y'" "call_inv y"
  shows "call_inv y'"
proof -
  have g: "find_command i (wy_db y) \<noteq> None \<Longrightarrow> find_command i (wy_db y') \<noteq> None" for i
    by (rule grows_keeps(5) [OF step_grows [OF assms(1)]])
  show ?thesis
    using assms(1)
  proof cases
    case (control_claimed c cmd now db')
    then show ?thesis using assms(2) g claim_control_new [OF control_claimed(4)] unfolding call_inv_def by auto
  qed (use assms(2) g in \<open>auto simp: call_inv_def stop_seen_def\<close>)
qed


lemma begin_execution_run:
  assumes "begin_execution i db = (True, db')" "keyed db"
  shows "\<exists>r. find_run i db = Some r \<and> rn_state r = ''ACCEPTED'' \<and> \<not> rn_stop r" "begun_run i db'"
proof -
  let ?hit = "\<lambda>r. rn_id r = i \<and> rn_state r = ''ACCEPTED'' \<and> \<not> rn_stop r \<and> rn_completion r = None"
  have "length (filter ?hit (wd_runs db)) = 1" and db': "db' = update_runs ?hit (\<lambda>r. r\<lparr>rn_state := ''STARTING''\<rparr>) db"
    using assms(1) by (auto simp: begin_execution_def Let_def)
  then have "filter ?hit (wd_runs db) \<noteq> []" by fastforce
  then obtain r where r: "r \<in> set (wd_runs db)" "?hit r" by (auto simp: filter_empty_conv)
  then have f: "find_run i db = Some r" using assms(2) by (simp add: find_run_iff)
  with r show "\<exists>r. find_run i db = Some r \<and> rn_state r = ''ACCEPTED'' \<and> \<not> rn_stop r" by blast
  show "begun_run i db'" unfolding db' begun_run_def using f r by (simp add: find_run_update)
qed

lemma accept_stopped:
  assumes "accept_command enc encA c db = Inr (launch, db')" "cd_Assignment c = Some a" "cd_Kind c = ''stop''"
    "find_command (cd_CommandId c) db = None"
  shows "stopped_run (as_AttemptId a) db'"
proof -
  obtain l state db1 where row: "accept_row encA ''stop'' a db = Inr (l, state, db1)"
    and ins: "insert_command (plain_command (cd_CommandId c) (Hash (enc c))) (accept_stop a state db1) = Inr db'"
    using assms by (auto simp: accept_command_def accept_command_tx_def Let_def rbind_eq_Inr_iff split: if_splits)
  obtain r where r: "find_run (as_AttemptId a) db1 = Some r"
    using row by (auto simp: accept_row_def Let_def find_run_def find_append new_run_def split: option.splits if_splits)
  have "find_run (as_AttemptId a) db' = find_run (as_AttemptId a) (accept_stop a state db1)"
    using ins by (auto simp: insert_command_def split: if_splits)
  with r find_run_SomeD [OF r] show ?thesis by (auto simp: stopped_run_def accept_stop_def Let_def find_run_update)
qed

lemma stop_seen_obs: "obs \<in> set (stop_seen c a db) \<longleftrightarrow> obs = Stopped (as_AttemptId a) \<and> cd_Kind c = ''stop'' \<and> find_command (cd_CommandId c) db = None"
  by (auto simp: stop_seen_def)

lemma launch_inv_append:
  assumes "launch_inv y" "\<And>i. begun_run i (wy_db y) \<Longrightarrow> begun_run i (wy_db y')" "\<And>i. stopped_run i (wy_db y) \<Longrightarrow> stopped_run i (wy_db y')"
    "wy_trace y' = wy_trace y @ new" "\<And>i. Begun i \<notin> set new" "\<And>i. Stopped i \<in> set new \<Longrightarrow> stopped_run i (wy_db y')"
  shows "launch_inv y'"
proof -
  have b: "begun_ids new = []" using assms(5) set_begun_ids [of new] by auto
  have "Stopped i \<notin> set s" if split: "wy_trace y @ new = s @ Begun i # t" for s i t
  proof -
    obtain u where "wy_trace y = s @ u \<and> u @ new = Begun i # t \<or> wy_trace y @ u = s \<and> new = u @ Begun i # t"
      using split by (auto simp: append_eq_append_conv2)
    then have "\<exists>v. wy_trace y = s @ Begun i # v" using assms(5) [of i] by (cases u) auto
    then show ?thesis using assms(1) by (auto simp: launch_inv_def)
  qed
  then show ?thesis using assms b unfolding launch_inv_def by (auto simp: assms(4))
qed

lemma launch_inv_step:
  assumes "worker_step w y y'" "launch_inv y" "keyed (wy_db y)"
  shows "launch_inv y'"
proof -
  have g: "begun_run i (wy_db y) \<Longrightarrow> begun_run i (wy_db y')" "stopped_run i (wy_db y) \<Longrightarrow> stopped_run i (wy_db y')" for i
    by (rule grows_keeps(2) [OF step_grows [OF assms(1)]], assumption)
      (rule grows_keeps(3) [OF step_grows [OF assms(1)]], assumption)
  note app = launch_inv_append [OF assms(2) g]
  show ?thesis
    using assms(1)
  proof cases
    case (accept c a launch db')
    show ?thesis by (rule app [where new = "stop_seen c a (wy_db y)"])
      (use accept accept_stopped [OF accept(4,3)] in \<open>auto simp: stop_seen_obs\<close>)
  next
    case (begin_run i a db')
    note r = begin_execution_run [OF begin_run(4) assms(3)]
    have fresh: "Begun i \<notin> set (wy_trace y)" "Stopped i \<notin> set (wy_trace y)"
      using assms(2) r(1) by (auto simp: launch_inv_def begun_run_def stopped_run_def)
    have "Stopped j \<notin> set s" if "wy_trace y @ [Begun i] = s @ Begun j # t" for s j t
      using that assms(2) fresh by (cases t rule: rev_cases) (auto simp: launch_inv_def)
    then show ?thesis using begin_run(1) assms(2) g r(2) fresh by (auto simp: launch_inv_def set_begun_ids)
  next
    case (emit i p a body e db')
    then show ?thesis by (intro app [where new = "[Emitted (last_event db')]"]) auto
  next
    case (spawn i a)
    then show ?thesis by (intro app [where new = "[Spawned i]"]) auto
  next
    case (started i a x body e res db')
    then show ?thesis by (intro app [where new = "if res = Inr () then [Emitted (last_event db')] else []"]) (auto split: if_splits)
  next
    case (control_called i cmd r lookup call)
    then show ?thesis by (intro app [where new = "[Called i call]"]) auto
  next
    case (flush_complete v c vs db')
    then show ?thesis by (intro app [where new = "[Sent (row_attempt v) c]"]) auto
  qed (rule app [where new = "[]"]; simp)+
qed

lemma in_use_used:
  assumes "markWorkspaceInUse now a db = Inr db'" "keyed db"
  shows "used_workspace (as_AttemptId a) db'"
proof -
  let ?hit = "\<lambda>x. ws_attempt x = as_AttemptId a \<and> ws_task x = as_TaskId a \<and> ws_generation x = as_Generation a \<and> ws_state x = ''READY''"
  have u: "update_workspaces ?hit (\<lambda>x. x\<lparr>ws_state := ''IN_USE'', ws_updated := now\<rparr>) db = Inr (1, db')"
    using assms(1) by (auto simp: markWorkspaceInUse_def rbind_eq_Inr_iff split: if_splits)
  then have "filter ?hit (wd_workspaces db) \<noteq> []" using update_workspacesD(2) by fastforce
  then obtain x where x: "x \<in> set (wd_workspaces db)" "?hit x" by (auto simp: filter_empty_conv)
  then have "find_workspace (as_AttemptId a) db = Some x" using assms(2) by (simp add: find_workspace_iff)
  then have "find_workspace (as_AttemptId a) db' = Some (x\<lparr>ws_state := ''IN_USE'', ws_updated := now\<rparr>)"
    using x by (simp add: update_workspacesD(1) [OF u] find_workspace_def find_updated_rows [where key = ws_attempt])
  then show ?thesis by (simp add: used_workspace_def prespawn_def)
qed

lemma spawn_inv_step:
  assumes "worker_step w y y'" "spawn_inv y" "keyed (wy_db y)"
  shows "spawn_inv y'"
proof -
  have g: "begun_run i (wy_db y) \<Longrightarrow> begun_run i (wy_db y')" "used_workspace i (wy_db y) \<Longrightarrow> used_workspace i (wy_db y')" for i
    by (rule grows_keeps(2) [OF step_grows [OF assms(1)]], assumption)
      (rule grows_keeps(4) [OF step_grows [OF assms(1)]], assumption)
  have live: "as_AttemptId a = i" "p \<noteq> Waiting \<Longrightarrow> begun_run i (wy_db y')" "p = Using \<Longrightarrow> used_workspace i (wy_db y')"
    if "wy_live y i = Some (p, a)" for i p a
    using that assms(2) g by (auto simp: spawn_inv_def)
  have sp: "begun_run i (wy_db y') \<and> used_workspace i (wy_db y')" if "Spawned i \<in> set (wy_trace y)" for i
    using that assms(2) g by (auto simp: spawn_inv_def)
  show ?thesis
    using assms(1)
  proof cases
    case (begin_run i a db')
    then show ?thesis using live sp begin_execution_run(2) [OF begin_run(4) assms(3)]
      by (auto simp: spawn_inv_def split: if_splits)
  next
    case (in_use i a now db')
    have "as_AttemptId a = i" by (rule live(1) [OF in_use(3)])
    with in_use_used [OF in_use(4) assms(3)] have "used_workspace i (wy_db y')" using in_use(1) by simp
    then show ?thesis using live [OF in_use(3)] live sp in_use(1) by (auto simp: spawn_inv_def split: if_splits)
  next
    case (spawn i a)
    then show ?thesis using live sp by (auto simp: spawn_inv_def)
  qed (use live sp in \<open>auto simp: spawn_inv_def stop_seen_def split: if_splits\<close>)
qed

definition worker_inv :: "'s WorkerSys \<Rightarrow> bool" where
  "worker_inv y \<longleftrightarrow> keyed (wy_db y) \<and> call_inv y \<and> launch_inv y \<and> spawn_inv y"

interpretation worker_system: step_system worker_init "worker_step w" worker_inv
proof
  show "worker_inv y" if "worker_init y" for y :: "'a WorkerSys"
    using that by (auto simp: worker_init_def worker_inv_def keyed_def call_inv_def launch_inv_def spawn_inv_def)
next
  fix y y' assume "worker_inv y" "worker_step w y y'"
  then show "worker_inv y'"
    unfolding worker_inv_def using grows_keeps(1) [OF step_grows] call_inv_step launch_inv_step spawn_inv_step by blast
qed

end
